(* ===== verification/Prelude.thy ===== *)
theory Prelude
  imports Main
begin

text \<open>
  Shared vocabulary of the development: the outcome of an API call, the calculus of
  state-changing calls that may throw, and the list lemmas several components use.

  A TypeScript \<open>async\<close> method of a service reads and writes one state (the database, or the
  device's SQLite file) and either returns a value or throws. It becomes a function from the
  state to the outcome and the new state; \<open>api_bind\<close> is the sequencing of two \<open>await\<close>s, and a
  \<open>throw\<close> ends the method but keeps every write already made, as it does in the program (no
  service opens a transaction around its calls).
\<close>

section \<open>Outcomes\<close>

text \<open>
  \<open>Http_exn status code message\<close> is a Nest \<open>HttpException\<close>: the code is the \<open>code\<close> field of
  its response object, \<open>None\<close> when the exception was built from a bare string.
  \<open>Js_error\<close> is any other thrown \<open>Error\<close>.
\<close>

datatype api_exn = Http_exn (exn_status: nat) (exn_code: "string option") (exn_message: string)
  | Js_error (exn_message: string)

abbreviation Bad_request :: "string \<Rightarrow> string \<Rightarrow> api_exn" where
  "Bad_request c m \<equiv> Http_exn 400 (Some c) m"

abbreviation Bad_request_plain :: "string \<Rightarrow> api_exn" where
  "Bad_request_plain m \<equiv> Http_exn 400 None m"

abbreviation Not_found :: "string \<Rightarrow> string \<Rightarrow> api_exn" where
  "Not_found c m \<equiv> Http_exn 404 (Some c) m"

abbreviation Not_found_plain :: "string \<Rightarrow> api_exn" where
  "Not_found_plain m \<equiv> Http_exn 404 None m"

abbreviation Forbidden :: "string \<Rightarrow> string \<Rightarrow> api_exn" where
  "Forbidden c m \<equiv> Http_exn 403 (Some c) m"

abbreviation Unauthorized :: "string \<Rightarrow> string \<Rightarrow> api_exn" where
  "Unauthorized c m \<equiv> Http_exn 401 (Some c) m"

abbreviation Conflict :: "string \<Rightarrow> string \<Rightarrow> api_exn" where
  "Conflict c m \<equiv> Http_exn 409 (Some c) m"

abbreviation Gone :: "string \<Rightarrow> string \<Rightarrow> api_exn" where
  "Gone c m \<equiv> Http_exn 410 (Some c) m"

abbreviation Unprocessable :: "string \<Rightarrow> string \<Rightarrow> api_exn" where
  "Unprocessable c m \<equiv> Http_exn 422 (Some c) m"

abbreviation Service_unavailable :: "string \<Rightarrow> string \<Rightarrow> api_exn" where
  "Service_unavailable c m \<equiv> Http_exn 503 (Some c) m"

section \<open>Calls\<close>

type_synonym ('s, 'a) api = "'s \<Rightarrow> (api_exn + 'a) \<times> 's"

definition api_return :: "'a \<Rightarrow> ('s, 'a) api" where
  "api_return x s = (Inr x, s)"

definition api_throw :: "api_exn \<Rightarrow> ('s, 'a) api" where
  "api_throw e s = (Inl e, s)"

definition api_bind :: "('s, 'a) api \<Rightarrow> ('a \<Rightarrow> ('s, 'b) api) \<Rightarrow> ('s, 'b) api" where
  "api_bind m f s = (case m s of (Inl e, s') \<Rightarrow> (Inl e, s') | (Inr x, s') \<Rightarrow> f x s')"

text \<open>\<open>try { m } catch (e) { h e }\<close>: the writes made before the throw stay.\<close>

definition api_catch :: "('s, 'a) api \<Rightarrow> (api_exn \<Rightarrow> ('s, 'a) api) \<Rightarrow> ('s, 'a) api" where
  "api_catch m h s = (case m s of (Inl e, s') \<Rightarrow> h e s' | (Inr x, s') \<Rightarrow> (Inr x, s'))"

definition api_reads :: "('s \<Rightarrow> 'a) \<Rightarrow> ('s, 'a) api" where
  "api_reads f s = (Inr (f s), s)"

definition api_lift :: "api_exn + 'a \<Rightarrow> ('s, 'a) api" where
  "api_lift r s = (r, s)"

text \<open>\<open>for (const x of xs) await f(x)\<close>, collecting the results: stops at the first throw.\<close>

fun api_map :: "('a \<Rightarrow> ('s, 'b) api) \<Rightarrow> 'a list \<Rightarrow> ('s, 'b list) api" where
  "api_map f [] = api_return []"
| "api_map f (x # xs) = api_bind (f x) (\<lambda>y. api_bind (api_map f xs) (\<lambda>ys. api_return (y # ys)))"

lemma api_bind_return [simp]: "api_bind (api_return x) f = f x"
  by (rule ext) (simp add: api_bind_def api_return_def)

lemma api_bind_throw [simp]: "api_bind (api_throw e) f = api_throw e"
  by (rule ext) (simp add: api_bind_def api_throw_def)

lemma api_bind_assoc: "api_bind (api_bind m f) g = api_bind m (\<lambda>x. api_bind (f x) g)"
  by (rule ext) (simp add: api_bind_def split: prod.splits sum.splits)

lemma api_bind_apply:
  "api_bind m f s = (case m s of (Inl e, s') \<Rightarrow> (Inl e, s') | (Inr x, s') \<Rightarrow> f x s')"
  by (simp add: api_bind_def)

lemma api_bind_Inr:
  "api_bind m f s = (Inr y, t) \<longleftrightarrow> (\<exists>x u. m s = (Inr x, u) \<and> f x u = (Inr y, t))"
  by (auto simp: api_bind_def split: prod.splits sum.splits)

lemma api_bind_Inl:
  "api_bind m f s = (Inl e, t) \<longleftrightarrow>
     m s = (Inl e, t) \<or> (\<exists>x u. m s = (Inr x, u) \<and> f x u = (Inl e, t))"
  by (auto simp: api_bind_def split: prod.splits sum.splits)

section \<open>A calculus for state invariants\<close>

text \<open>
  \<open>keeps P m\<close>: whatever the outcome, a call \<open>m\<close> started in a state with \<open>P\<close> leaves a state
  with \<open>P\<close>. The rules follow the program text, so an invariant of a whole handler is shown by
  showing it for the statements that write.
\<close>

named_theorems keeps_intros

definition keeps :: "('s \<Rightarrow> bool) \<Rightarrow> ('s, 'a) api \<Rightarrow> bool" where
  "keeps P m \<longleftrightarrow> (\<forall>s. P s \<longrightarrow> P (snd (m s)))"

lemma keepsI: "(\<And>s. P s \<Longrightarrow> P (snd (m s))) \<Longrightarrow> keeps P m"
  by (simp add: keeps_def)

lemma keepsD: "keeps P m \<Longrightarrow> P s \<Longrightarrow> P (snd (m s))"
  by (simp add: keeps_def)

lemma keeps_run: "keeps P m \<Longrightarrow> P s \<Longrightarrow> m s = (r, t) \<Longrightarrow> P t"
  by (metis keepsD snd_conv)

lemma keeps_return [keeps_intros]: "keeps P (api_return x)"
  by (simp add: keeps_def api_return_def)

lemma keeps_throw [keeps_intros]: "keeps P (api_throw e)"
  by (simp add: keeps_def api_throw_def)

lemma keeps_reads [keeps_intros]: "keeps P (api_reads f)"
  by (simp add: keeps_def api_reads_def)

lemma keeps_lift [keeps_intros]: "keeps P (api_lift r)"
  by (simp add: keeps_def api_lift_def)

lemma keeps_bind [keeps_intros]:
  assumes "keeps P m" and "\<And>x. keeps P (f x)"
  shows "keeps P (api_bind m f)"
proof (rule keepsI)
  fix s
  assume "P s"
  then have "P (snd (m s))" by (rule keepsD [OF assms(1)])
  then show "P (snd (api_bind m f s))"
    by (auto simp: api_bind_def split: prod.splits sum.splits intro: keepsD [OF assms(2)])
qed

lemma keeps_catch [keeps_intros]:
  assumes "keeps P m" and "\<And>e. keeps P (h e)"
  shows "keeps P (api_catch m h)"
proof (rule keepsI)
  fix s
  assume "P s"
  then have "P (snd (m s))" by (rule keepsD [OF assms(1)])
  then show "P (snd (api_catch m h s))"
    by (auto simp: api_catch_def split: prod.splits sum.splits intro: keepsD [OF assms(2)])
qed

lemma keeps_if [keeps_intros]: "keeps P a \<Longrightarrow> keeps P b \<Longrightarrow> keeps P (if c then a else b)"
  by simp

lemma keeps_case_option [keeps_intros]:
  "keeps P a \<Longrightarrow> (\<And>x. keeps P (f x)) \<Longrightarrow> keeps P (case z of None \<Rightarrow> a | Some x \<Rightarrow> f x)"
  by (simp split: option.split)

lemma keeps_case_sum [keeps_intros]:
  "(\<And>x. keeps P (f x)) \<Longrightarrow> (\<And>x. keeps P (g x)) \<Longrightarrow>
     keeps P (case z of Inl x \<Rightarrow> f x | Inr x \<Rightarrow> g x)"
  by (simp split: sum.split)

lemma keeps_map [keeps_intros]:
  assumes "\<And>x. keeps P (f x)"
  shows "keeps P (api_map f xs)"
  using assms by (induction xs) (auto intro!: keeps_intros)

lemma keeps_map_set:
  assumes "\<And>x. x \<in> set xs \<Longrightarrow> keeps P (f x)"
  shows "keeps P (api_map f xs)"
  using assms by (induction xs) (auto intro!: keeps_intros)

text \<open>\<open>yields Q m\<close>: whenever the call returns, the value has \<open>Q\<close>.\<close>

named_theorems yields_intros

definition yields :: "('a \<Rightarrow> bool) \<Rightarrow> ('s, 'a) api \<Rightarrow> bool" where
  "yields Q m \<longleftrightarrow> (\<forall>s x t. m s = (Inr x, t) \<longrightarrow> Q x)"

lemma yieldsI: "(\<And>s x t. m s = (Inr x, t) \<Longrightarrow> Q x) \<Longrightarrow> yields Q m"
  by (auto simp: yields_def)

lemma yieldsD: "yields Q m \<Longrightarrow> m s = (Inr x, t) \<Longrightarrow> Q x"
  by (auto simp: yields_def)

lemma yields_return [yields_intros]: "Q x \<Longrightarrow> yields Q (api_return x)"
  by (simp add: yields_def api_return_def)

lemma yields_throw [yields_intros]: "yields Q (api_throw e)"
  by (simp add: yields_def api_throw_def)

lemma yields_bind: "yields R m \<Longrightarrow> (\<And>x. R x \<Longrightarrow> yields Q (f x)) \<Longrightarrow> yields Q (api_bind m f)"
  by (rule yieldsI) (metis api_bind_Inr yieldsD)

lemma yields_if [yields_intros]: "(c \<Longrightarrow> yields Q a) \<Longrightarrow> (\<not> c \<Longrightarrow> yields Q b) \<Longrightarrow> yields Q (if c then a else b)"
  by simp

lemma yields_case_option [yields_intros]:
  "(z = None \<Longrightarrow> yields Q a) \<Longrightarrow> (\<And>x. z = Some x \<Longrightarrow> yields Q (f x)) \<Longrightarrow> yields Q (case z of None \<Rightarrow> a | Some x \<Rightarrow> f x)"
  by (simp split: option.split)

lemma yields_case_sum [yields_intros]:
  "(\<And>x. z = Inl x \<Longrightarrow> yields Q (f x)) \<Longrightarrow> (\<And>x. z = Inr x \<Longrightarrow> yields Q (g x)) \<Longrightarrow>
     yields Q (case z of Inl x \<Rightarrow> f x | Inr x \<Rightarrow> g x)"
  by (simp split: sum.split)

lemma yields_mono: "yields R m \<Longrightarrow> (\<And>x. R x \<Longrightarrow> Q x) \<Longrightarrow> yields Q m"
  by (auto simp: yields_def)

lemma yields_True: "yields (\<lambda>x. True) m"
  by (simp add: yields_def)

lemma keeps_bind_yields:
  assumes "keeps P m" and "yields Q m" and "\<And>x. Q x \<Longrightarrow> keeps P (f x)"
  shows "keeps P (api_bind m f)"
proof (rule keepsI)
  fix s
  assume "P s"
  show "P (snd (api_bind m f s))"
  proof (cases "m s")
    case (Pair r t)
    have "P t" by (rule keeps_run [OF assms(1) \<open>P s\<close> Pair])
    show ?thesis
    proof (cases r)
      case (Inr x)
      have "Q x" by (rule yieldsD [OF assms(2) Pair [unfolded Inr]])
      then show ?thesis using \<open>P t\<close> by (simp add: api_bind_def Pair Inr keepsD [OF assms(3)])
    qed (simp add: api_bind_def Pair \<open>P t\<close>)
  qed
qed

text \<open>
  \<open>triple P m Q X\<close>: started with \<open>P\<close>, a return of \<open>x\<close> establishes \<open>Q x\<close> and a throw \<open>X\<close>.
\<close>

definition triple ::
    "('s \<Rightarrow> bool) \<Rightarrow> ('s, 'a) api \<Rightarrow> ('a \<Rightarrow> 's \<Rightarrow> bool) \<Rightarrow> ('s \<Rightarrow> bool) \<Rightarrow> bool" where
  "triple P m Q X \<longleftrightarrow> (\<forall>s. P s \<longrightarrow> (case m s of (Inl e, t) \<Rightarrow> X t | (Inr x, t) \<Rightarrow> Q x t))"

lemma tripleI: "(\<And>s. P s \<Longrightarrow> case m s of (Inl e, t) \<Rightarrow> X t | (Inr x, t) \<Rightarrow> Q x t) \<Longrightarrow> triple P m Q X"
  by (simp add: triple_def)

lemma tripleD: "triple P m Q X \<Longrightarrow> P s \<Longrightarrow> case m s of (Inl e, t) \<Rightarrow> X t | (Inr x, t) \<Rightarrow> Q x t"
  by (simp add: triple_def)

lemma triple_Inr: "triple P m Q X \<Longrightarrow> P s \<Longrightarrow> m s = (Inr x, t) \<Longrightarrow> Q x t"
  by (fastforce simp: triple_def)

lemma triple_Inl: "triple P m Q X \<Longrightarrow> P s \<Longrightarrow> m s = (Inl e, t) \<Longrightarrow> X t"
  by (fastforce simp: triple_def)

lemma triple_bind:
  assumes "triple P m R X" and "\<And>x. triple (R x) (f x) Q X"
  shows "triple P (api_bind m f) Q X"
proof (rule tripleI)
  fix s
  assume P: "P s"
  obtain r u where m: "m s = (r, u)" by (cases "m s")
  show "case api_bind m f s of (Inl e, t) \<Rightarrow> X t | (Inr x, t) \<Rightarrow> Q x t"
  proof (cases r)
    case (Inl e)
    then show ?thesis using triple_Inl [OF assms(1) P] m by (simp add: api_bind_def)
  next
    case (Inr x)
    then have "R x u" using triple_Inr [OF assms(1) P] m by simp
    then show ?thesis using assms(2) [of x] m Inr by (simp add: api_bind_def triple_def)
  qed
qed

lemma triple_keeps: "keeps P m \<Longrightarrow> triple P m (\<lambda>_. P) P"
  by (auto simp: triple_def keeps_def split: prod.split sum.split)

lemma triple_catch:
  assumes "triple P m Q X" "\<And>e. triple X (h e) Q Y"
  shows "triple P (api_catch m h) Q Y"
  using assms unfolding triple_def api_catch_def by (fastforce split: prod.splits sum.splits)

lemma keeps_triple:
  assumes "triple P m (\<lambda>_. P) P"
  shows "keeps P m"
proof (rule keepsI)
  fix s
  assume "P s"
  then show "P (snd (m s))" using tripleD [OF assms] by (fastforce split: prod.splits sum.splits)
qed

lemma triple_keeps_yields: "keeps P m \<Longrightarrow> yields Q m \<Longrightarrow> triple P m (\<lambda>x s. P s \<and> Q x) P"
  by (auto simp: triple_def keeps_def yields_def split: prod.split sum.split)

text \<open>\<open>total_call m\<close>: the call never throws.\<close>

named_theorems total_intros

definition total_call :: "('s, 'a) api \<Rightarrow> bool" where
  "total_call m \<longleftrightarrow> (\<forall>s. \<not> isl (fst (m s)))"

lemma total_return [total_intros]: "total_call (api_return x)"
  by (simp add: total_call_def api_return_def)

lemma total_bind [total_intros]:
  "total_call m \<Longrightarrow> (\<And>x. total_call (f x)) \<Longrightarrow> total_call (api_bind m f)"
  by (auto simp: total_call_def api_bind_def split: prod.split sum.split) (metis fst_conv sum.disc(1))

lemma total_catch [total_intros]: "(\<And>e. total_call (h e)) \<Longrightarrow> total_call (api_catch m h)"
  by (auto simp: total_call_def api_catch_def split: prod.split sum.split)

lemma total_if [total_intros]: "total_call a \<Longrightarrow> total_call b \<Longrightarrow> total_call (if c then a else b)"
  by simp

lemma total_map [total_intros]: "(\<And>x. total_call (f x)) \<Longrightarrow> total_call (api_map f xs)"
  by (induction xs) (auto intro!: total_intros)

lemma triple_keeps_total: "keeps P m \<Longrightarrow> total_call m \<Longrightarrow> triple P m (\<lambda>_. P) X"
  by (auto simp: triple_def keeps_def total_call_def split: prod.split sum.split) (metis fst_conv sum.disc(1))

lemma triple_return: "(\<And>s. P s \<Longrightarrow> Q x s) \<Longrightarrow> triple P (api_return x) Q X"
  by (simp add: triple_def api_return_def)

lemma triple_throw: "(\<And>s. P s \<Longrightarrow> X s) \<Longrightarrow> triple P (api_throw e) Q X"
  by (simp add: triple_def api_throw_def)

lemma triple_weaken:
  assumes "triple P' m Q' X'" "\<And>s. P s \<Longrightarrow> P' s" "\<And>x s. Q' x s \<Longrightarrow> Q x s" "\<And>s. X' s \<Longrightarrow> X s"
  shows "triple P m Q X"
  using assms(1) unfolding triple_def
  by (fastforce split: prod.splits sum.splits intro: assms(2-4))

lemma triple_assume: "(C \<Longrightarrow> triple P m Q X) \<Longrightarrow> triple (\<lambda>s. P s \<and> C) m Q X"
  by (auto simp: triple_def)

lemma triple_if:
  "(c \<Longrightarrow> triple P a Q X) \<Longrightarrow> (\<not> c \<Longrightarrow> triple P b Q X) \<Longrightarrow> triple P (if c then a else b) Q X"
  by simp

lemma triple_case_sum:
  "(\<And>x. z = Inl x \<Longrightarrow> triple P (f x) Q X) \<Longrightarrow> (\<And>x. z = Inr x \<Longrightarrow> triple P (g x) Q X) \<Longrightarrow>
     triple P (case z of Inl x \<Rightarrow> f x | Inr x \<Rightarrow> g x) Q X"
  by (simp split: sum.split)

lemma triple_case_option:
  "(z = None \<Longrightarrow> triple P a Q X) \<Longrightarrow> (\<And>x. z = Some x \<Longrightarrow> triple P (f x) Q X) \<Longrightarrow>
     triple P (case z of None \<Rightarrow> a | Some x \<Rightarrow> f x) Q X"
  by (simp split: option.split)

lemma triple_split_option:
  "(z = None \<Longrightarrow> triple P a Q X) \<Longrightarrow> (\<And>x. z = Some x \<Longrightarrow> triple (R x) (f x) Q X) \<Longrightarrow>
     triple (\<lambda>s. case z of None \<Rightarrow> P s | Some x \<Rightarrow> R x s) (case z of None \<Rightarrow> a | Some x \<Rightarrow> f x) Q X"
  by (simp split: option.split)

section \<open>Guarantees\<close>

text \<open>
  \<open>guar R m\<close>: every run of \<open>m\<close>, whatever its outcome, relates the state before to the state
  after by \<open>R\<close>. For a reflexive and transitive \<open>R\<close> the rules follow the program text.
\<close>

named_theorems guar_intros

definition guar :: "('s \<Rightarrow> 's \<Rightarrow> bool) \<Rightarrow> ('s, 'a) api \<Rightarrow> bool" where
  "guar R m \<longleftrightarrow> (\<forall>s. R s (snd (m s)))"

lemma guarI: "(\<And>s. R s (snd (m s))) \<Longrightarrow> guar R m"
  by (simp add: guar_def)

lemma guarD: "guar R m \<Longrightarrow> R s (snd (m s))"
  by (simp add: guar_def)

lemma guar_run: "guar R m \<Longrightarrow> m s = (r, t) \<Longrightarrow> R s t"
  by (metis guarD snd_conv)

lemma guar_return: "reflp R \<Longrightarrow> guar R (api_return x)"
  by (simp add: guar_def api_return_def reflpD)

lemma guar_throw: "reflp R \<Longrightarrow> guar R (api_throw e)"
  by (simp add: guar_def api_throw_def reflpD)

lemma guar_reads: "reflp R \<Longrightarrow> guar R (api_reads f)"
  by (simp add: guar_def api_reads_def reflpD)

lemma guar_bind:
  assumes "transp R" "guar R m" "\<And>x. guar R (f x)"
  shows "guar R (api_bind m f)"
proof (rule guarI)
  fix s
  obtain r u where m: "m s = (r, u)" by (cases "m s")
  have su: "R s u" by (rule guar_run [OF assms(2) m])
  show "R s (snd (api_bind m f s))"
  proof (cases r)
    case (Inr x)
    have "R u (snd (f x u))" by (rule guarD [OF assms(3)])
    then show ?thesis using transpD [OF assms(1) su] by (simp add: api_bind_def m Inr)
  qed (simp add: api_bind_def m su)
qed

lemma guar_catch:
  assumes "transp R" "guar R m" "\<And>e. guar R (h e)"
  shows "guar R (api_catch m h)"
proof (rule guarI)
  fix s
  obtain r u where m: "m s = (r, u)" by (cases "m s")
  have su: "R s u" by (rule guar_run [OF assms(2) m])
  show "R s (snd (api_catch m h s))"
  proof (cases r)
    case (Inl e)
    have "R u (snd (h e u))" by (rule guarD [OF assms(3)])
    then show ?thesis using transpD [OF assms(1) su] by (simp add: api_catch_def m Inl)
  qed (simp add: api_catch_def m su)
qed

lemma guar_if: "guar R a \<Longrightarrow> guar R b \<Longrightarrow> guar R (if c then a else b)"
  by simp

lemma guar_case_option:
  "guar R a \<Longrightarrow> (\<And>x. guar R (f x)) \<Longrightarrow> guar R (case z of None \<Rightarrow> a | Some x \<Rightarrow> f x)"
  by (simp split: option.split)

lemma guar_case_sum:
  "(\<And>x. guar R (f x)) \<Longrightarrow> (\<And>x. guar R (g x)) \<Longrightarrow> guar R (case z of Inl x \<Rightarrow> f x | Inr x \<Rightarrow> g x)"
  by (simp split: sum.split)

lemma guar_map:
  assumes "reflp R" "transp R" "\<And>x. guar R (f x)"
  shows "guar R (api_map f xs)"
  using assms by (induction xs) (auto intro!: guar_bind guar_return)

section \<open>Loops\<close>

text \<open>
  \<open>for (;;) { body }\<close> with at most \<open>n\<close> rounds: a round ends the loop with \<open>Inl\<close> or continues
  with \<open>Inr\<close>; \<open>None\<close> means the rounds did not suffice.
\<close>

fun api_loop :: "nat \<Rightarrow> ('a \<Rightarrow> ('s, 'b + 'a) api) \<Rightarrow> 'a \<Rightarrow> ('s, 'b option) api" where
  "api_loop 0 body a = api_return None"
| "api_loop (Suc n) body a =
     api_bind (body a) (\<lambda>r. case r of Inl b \<Rightarrow> api_return (Some b) | Inr a' \<Rightarrow> api_loop n body a')"

lemma guar_loop:
  assumes "reflp R" "transp R" "\<And>a. guar R (body a)"
  shows "guar R (api_loop n body a)"
  by (induction n arbitrary: a) (auto intro!: guar_bind guar_return guar_case_sum assms)

lemma keeps_loop:
  assumes "\<And>a. keeps P (body a)"
  shows "keeps P (api_loop n body a)"
  by (induction n arbitrary: a) (auto intro!: keeps_intros assms)

text \<open>A measure of the loop variable and the state that falls in every continuing round bounds the rounds.\<close>

lemma api_loop_terminates:
  assumes "\<And>a s a' t. body a s = (Inr (Inr a'), t) \<Longrightarrow> (\<mu> a' t :: nat) < \<mu> a s"
  shows "\<mu> a s < n \<Longrightarrow> fst (api_loop n body a s) \<noteq> Inr None"
proof (induction n arbitrary: a s)
  case (Suc n)
  obtain r t where b: "body a s = (r, t)" by (cases "body a s")
  consider (throw) e where "r = Inl e" | (leave) x where "r = Inr (Inl x)" | (again) a' where "r = Inr (Inr a')"
    by (cases r; cases "projr r") auto
  then show ?case
  proof cases
    case again
    then have "\<mu> a' t < n" using assms b Suc.prems by fastforce
    then show ?thesis using Suc.IH by (simp add: api_bind_def b again)
  qed (simp_all add: api_bind_def b api_return_def)
qed simp

text \<open>More rounds than needed change nothing.\<close>

lemma api_loop_more:
  "fst (api_loop n body a s) \<noteq> Inr None \<Longrightarrow> n \<le> m \<Longrightarrow> api_loop m body a s = api_loop n body a s"
proof (induction n arbitrary: a s m)
  case (Suc n)
  obtain k where m: "m = Suc k" "n \<le> k" using Suc.prems(2) by (cases m) auto
  obtain r t where b: "body a s = (r, t)" by (cases "body a s")
  show ?case using Suc.IH [of _ t k] Suc.prems(1) m
    by (cases r; cases "projr r") (auto simp: api_bind_def b)
qed (simp add: api_return_def)

section \<open>Lists\<close>

lemma all_le_Suc: "(\<forall>k \<le> Suc n. P k) \<longleftrightarrow> P 0 \<and> (\<forall>k \<le> n. P (Suc k))"
  by (metis Suc_le_mono le0 not0_implies_Suc)

text \<open>JavaScript's \<open>[...new Set(xs)]\<close>: first occurrences, in order.\<close>

fun js_unique_acc :: "'a list \<Rightarrow> 'a list \<Rightarrow> 'a list" where
  "js_unique_acc seen [] = []"
| "js_unique_acc seen (x # xs) =
     (if x \<in> set seen then js_unique_acc seen xs else x # js_unique_acc (x # seen) xs)"

definition js_unique :: "'a list \<Rightarrow> 'a list" where
  "js_unique xs = js_unique_acc [] xs"

lemma set_js_unique_acc: "set (js_unique_acc seen xs) = set xs - set seen"
  by (induction seen xs rule: js_unique_acc.induct) auto

lemma distinct_js_unique_acc: "distinct (js_unique_acc seen xs)"
  by (induction seen xs rule: js_unique_acc.induct) (auto simp: set_js_unique_acc)

lemma set_js_unique [simp]: "set (js_unique xs) = set xs"
  by (simp add: js_unique_def set_js_unique_acc)

lemma distinct_js_unique [simp]: "distinct (js_unique xs)"
  by (simp add: js_unique_def distinct_js_unique_acc)

lemma js_unique_Nil_iff [simp]: "js_unique xs = [] \<longleftrightarrow> xs = []"
  by (metis set_js_unique set_empty)

lemma distinct_all_eq:
  assumes "\<And>x. x \<in> set ys \<Longrightarrow> x = e" "e \<in> set ys" "distinct ys"
  shows "ys = [e]"
proof (cases ys)
  case (Cons y zs)
  have "zs = []"
  proof (cases zs)
    case (Cons z zs')
    then show ?thesis using assms(1) [of y] assms(1) [of z] assms(3) \<open>ys = y # zs\<close> by simp
  qed simp
  then show ?thesis using Cons assms(1) [of y] by simp
qed (use assms(2) in simp)
end
