(* ===== verification/JsNumber.thy ===== *)
theory JsNumber
  imports Complex_Main JsText "HOL-Library.Log_Nat"
begin

text \<open>
  JavaScript numbers as far as the money code depends on them. An integral \<open>number\<close> is an
  \<open>int\<close>; the result of \<open>+\<close> or \<open>-\<close> on two integral numbers is the exact result rounded to a
  53-bit significand, ties to even, which is \<open>dbl\<close>. Below \<open>2 ^ 53\<close> nothing is rounded, and
  \<open>dbl\<close> never brings a larger value back into the safe range: this is what makes the source's
  test against \<open>Number.MAX_SAFE_INTEGER\<close> after the addition a test of the exact sum.
\<close>

definition MAX_SAFE_INTEGER :: int where
  "MAX_SAFE_INTEGER = 2 ^ 53 - 1"

text \<open>Integers from here on round to \<open>Infinity\<close>.\<close>

definition overflow_threshold :: int where
  "overflow_threshold = 2 ^ 1024 - 2 ^ 970"

definition dbl_nat :: "nat \<Rightarrow> nat" where
  "dbl_nat n =
     (if n \<le> 2 ^ 53 then n
      else let k = floorlog 2 n - 53; q = n div 2 ^ k; r = n mod 2 ^ k; h = 2 ^ (k - 1) in
        (if h < r \<or> (r = h \<and> odd q) then q + 1 else q) * 2 ^ k)"

definition dbl :: "int \<Rightarrow> int" where
  "dbl i = sgn i * int (dbl_nat (nat \<bar>i\<bar>))"

lemma dbl_nat_exact [simp]: "n \<le> 2 ^ 53 \<Longrightarrow> dbl_nat n = n"
  by (simp add: dbl_nat_def)

lemma dbl_nat_large:
  assumes "2 ^ 53 < n"
  shows "2 ^ 53 \<le> dbl_nat n"
proof -
  define fl where "fl = floorlog 2 n"
  define k where "k = fl - 53"
  have bounds: "2 ^ (fl - 1) \<le> n" "n < 2 ^ fl"
    using assms floorlog_bounds [of n 2] by (auto simp: fl_def)
  have "54 \<le> fl"
  proof (rule ccontr)
    assume "\<not> 54 \<le> fl"
    then have "(2::nat) ^ fl \<le> 2 ^ 53" by (intro power_increasing) auto
    with bounds assms show False by simp
  qed
  then have k: "fl - 1 = 52 + k" "1 \<le> k" by (auto simp: k_def)
  have "(2::nat) ^ 52 = 2 ^ (fl - 1) div 2 ^ k"
    unfolding k(1) by (simp add: power_add)
  also have "\<dots> \<le> n div 2 ^ k" using bounds by (intro div_le_mono)
  finally have q: "(2::nat) ^ 52 \<le> n div 2 ^ k" .
  have "(2::nat) ^ 53 = 2 ^ 52 * 2 ^ 1" by simp
  also have "\<dots> \<le> (n div 2 ^ k) * 2 ^ k"
    using q k by (intro mult_le_mono power_increasing) auto
  also have "\<dots> \<le> dbl_nat n"
    using assms by (simp add: dbl_nat_def Let_def k_def fl_def)
  finally show ?thesis .
qed

lemma dbl_exact: "\<bar>i\<bar> \<le> 2 ^ 53 \<Longrightarrow> dbl i = i"
proof -
  assume "\<bar>i\<bar> \<le> 2 ^ 53"
  then have "nat \<bar>i\<bar> \<le> 2 ^ 53" by (simp add: nat_le_iff)
  then show ?thesis
    by (simp add: dbl_def sgn_if)
qed

lemma abs_dbl: "\<bar>dbl i\<bar> = int (dbl_nat (nat \<bar>i\<bar>))"
proof (cases "i = 0")
  case True
  then show ?thesis by (simp add: dbl_def)
next
  case False
  then show ?thesis by (simp add: dbl_def abs_mult)
qed

text \<open>The range test after the rounding decides the range of the exact value.\<close>

lemma dbl_unsafe_iff: "MAX_SAFE_INTEGER < \<bar>dbl i\<bar> \<longleftrightarrow> MAX_SAFE_INTEGER < \<bar>i\<bar>"
proof (cases "\<bar>i\<bar> \<le> 2 ^ 53")
  case True
  then show ?thesis by (simp add: dbl_exact)
next
  case False
  then have "2 ^ 53 < nat \<bar>i\<bar>" by simp
  then have "2 ^ 53 \<le> dbl_nat (nat \<bar>i\<bar>)" by (rule dbl_nat_large)
  then have "(2::int) ^ 53 \<le> \<bar>dbl i\<bar>" by (simp add: abs_dbl)
  with False show ?thesis by (simp add: MAX_SAFE_INTEGER_def)
qed

lemma dbl_safe: "\<bar>i\<bar> \<le> MAX_SAFE_INTEGER \<Longrightarrow> dbl i = i"
  by (rule dbl_exact) (simp add: MAX_SAFE_INTEGER_def)

text \<open>\<open>Math.round\<close>: the nearest integer, halves upwards.\<close>

definition math_round :: "rat \<Rightarrow> int" where
  "math_round x = \<lfloor>x + 1 / 2\<rfloor>"

lemma math_round_near:
  assumes "\<bar>x - of_int n\<bar> < 1 / 2"
  shows "math_round x = n"
  using assms unfolding math_round_def by (intro floor_unique) (auto simp: abs_if split: if_splits)

text \<open>Two roundings with relative error \<open>2 ^ -53\<close> stay within half a unit below \<open>2 ^ 50\<close>.\<close>

lemma relative_errors_below_half:
  fixes n y z :: rat
  assumes "\<bar>y - n\<bar> \<le> \<bar>n\<bar> / 2 ^ 53" and "\<bar>z - y\<bar> \<le> \<bar>y\<bar> / 2 ^ 53" and "\<bar>n\<bar> < 2 ^ 50"
  shows "\<bar>z - n\<bar> < 1 / 2"
proof -
  define a b c d where "a = \<bar>n\<bar>" and "b = \<bar>y\<bar>" and "c = \<bar>y - n\<bar>" and "d = \<bar>z - y\<bar>"
  have "\<bar>z - n\<bar> \<le> d + c" unfolding c_def d_def by simp
  moreover have "b \<le> a + c" unfolding a_def b_def c_def by simp
  moreover have "c \<le> a / 2 ^ 53" "d \<le> b / 2 ^ 53" "a < 2 ^ 50"
    using assms by (simp_all add: a_def b_def c_def d_def)
  ultimately show ?thesis by simp
qed

end
