(* ===== verification/Domain.thy ===== *)
theory Domain
  imports JsNumber
begin

text \<open>
  \<open>packages/domain/src\<close>: the shared vocabulary (\<open>index.ts\<close>), the published error catalogue
  (\<open>errors.ts\<close>) and the list envelope (\<open>pagination.ts\<close>). The string unions of \<open>index.ts\<close> are
  datatypes; \<open>..._of_string\<close> reads the wire form of a union a request can carry. The descriptions
  of the catalogue are prose and are left out.
\<close>

section \<open>Enumerations\<close>

datatype WorkspaceStatus = WS_ACTIVE | WS_PENDING_DELETION | WS_DELETED

datatype MemberStatus = MEMBER_ACTIVE | MEMBER_SUSPENDED | MEMBER_LEFT

datatype AccountClass = ASSET | LIABILITY | INCOME | EXPENSE | EQUITY

datatype AccountSubtype = CASH | BANK | MOBILE_WALLET | CREDIT_CARD | LOAN | SAVINGS | CATEGORY | SYSTEM

datatype NormalBalance = DEBIT | CREDIT

datatype EntryType = ET_INCOME | ET_EXPENSE | ET_TRANSFER | ET_ADJUSTMENT | ET_OPENING | ET_REVERSAL

datatype EntryStatus = DRAFT | PENDING | POSTED | VOIDED

datatype EntrySource = MANUAL | IMPORT | RECURRING | SYSTEM_SOURCE

datatype CategoryKind = CK_INCOME | CK_EXPENSE

definition entry_type_of_string :: "string \<Rightarrow> EntryType option" where
  "entry_type_of_string s =
     map_of [(''INCOME'', ET_INCOME), (''EXPENSE'', ET_EXPENSE), (''TRANSFER'', ET_TRANSFER),
             (''ADJUSTMENT'', ET_ADJUSTMENT), (''OPENING'', ET_OPENING), (''REVERSAL'', ET_REVERSAL)] s"

fun class_of_kind :: "CategoryKind \<Rightarrow> AccountClass" where
  "class_of_kind CK_INCOME = INCOME"
| "class_of_kind CK_EXPENSE = EXPENSE"

text \<open>Account class to normal balance.\<close>

fun ACCOUNT_CLASS_NORMAL_BALANCE :: "AccountClass \<Rightarrow> NormalBalance" where
  "ACCOUNT_CLASS_NORMAL_BALANCE ASSET = DEBIT"
| "ACCOUNT_CLASS_NORMAL_BALANCE LIABILITY = CREDIT"
| "ACCOUNT_CLASS_NORMAL_BALANCE INCOME = CREDIT"
| "ACCOUNT_CLASS_NORMAL_BALANCE EXPENSE = DEBIT"
| "ACCOUNT_CLASS_NORMAL_BALANCE EQUITY = CREDIT"

section \<open>The error catalogue\<close>

record ApiErrorDefinition =
  err_status :: nat
  err_retryable :: bool

type_synonym error_entry = ApiErrorDefinition

abbreviation error_entry :: "nat \<Rightarrow> bool \<Rightarrow> error_entry" where
  "error_entry s r \<equiv> \<lparr>err_status = s, err_retryable = r\<rparr>"

definition INTERNAL_EVENT_CODES :: "string list" where
  "INTERNAL_EVENT_CODES = [''ADMIN_OPERATION_FAILED'', ''DB_PRIVILEGE_MISSING'', ''TELEMETRY_BUFFER_OVERFLOW'']"

definition AUTHENTICATION_ERRORS :: "(string \<times> error_entry) list" where
  "AUTHENTICATION_ERRORS =
     [(''MISSING_TOKEN'', error_entry 401 False),
      (''INVALID_TOKEN'', error_entry 401 False),
      (''AUTH_FAILED'', error_entry 401 False)]"

definition AUTHORIZATION_ERRORS :: "(string \<times> error_entry) list" where
  "AUTHORIZATION_ERRORS =
     [(''NOT_WORKSPACE_MEMBER'', error_entry 403 False),
      (''WORKSPACE_ACCESS_DENIED'', error_entry 403 False),
      (''NOT_SUPER_ADMIN'', error_entry 403 False),
      (''MFA_REQUIRED'', error_entry 403 False),
      (''ACCOUNT_NOT_ACTIVE'', error_entry 403 False),
      (''NOT_AUTHENTICATED'', error_entry 403 False),
      (''AUTHZ_CHECK_FAILED'', error_entry 503 True)]"

definition IDEMPOTENCY_ERRORS :: "(string \<times> error_entry) list" where
  "IDEMPOTENCY_ERRORS =
     [(''IDEMPOTENCY_KEY_REQUIRED'', error_entry 422 False),
      (''IDEMPOTENCY_KEY_REUSED'', error_entry 422 False),
      (''IDEMPOTENCY_KEY_TOO_LONG'', error_entry 422 False),
      (''IDEMPOTENCY_IN_PROGRESS'', error_entry 409 True)]"

definition NOT_FOUND_ERRORS :: "(string \<times> error_entry) list" where
  "NOT_FOUND_ERRORS =
     [(''NOT_FOUND'', error_entry 404 False),
      (''WORKSPACE_NOT_FOUND'', error_entry 404 False),
      (''PAIRING_TOKEN_NOT_FOUND'', error_entry 404 False),
      (''PAIRING_TOKEN_EXPIRED'', error_entry 410 False),
      (''RELEASE_CONFIG_UNAVAILABLE'', error_entry 503 True),
      (''INVALID_RELEASE_URL'', error_entry 400 False),
      (''INVALID_REPORT_RANGE'', error_entry 400 False),
      (''INVALID_EXPORT_FORMAT'', error_entry 400 False),
      (''ACCOUNT_NOT_FOUND'', error_entry 404 False),
      (''CATEGORY_NOT_FOUND'', error_entry 404 False),
      (''PARENT_CATEGORY_NOT_FOUND'', error_entry 404 False),
      (''TRANSACTION_NOT_FOUND'', error_entry 404 False),
      (''ATTACHMENT_NOT_FOUND'', error_entry 404 False),
      (''IMPORT_NOT_FOUND'', error_entry 404 False),
      (''TAG_NOT_FOUND'', error_entry 404 False),
      (''GOAL_NOT_FOUND'', error_entry 404 False),
      (''DEBT_TERMS_NOT_FOUND'', error_entry 404 False),
      (''EVENT_NOT_FOUND'', error_entry 404 False),
      (''USER_NOT_FOUND'', error_entry 404 False),
      (''EXPORT_NOT_FOUND'', error_entry 404 False),
      (''DEVICE_NOT_FOUND'', error_entry 404 False),
      (''TRANSACTION_NOT_REVERSIBLE'', error_entry 404 False)]"

definition CONFLICT_ERRORS :: "(string \<times> error_entry) list" where
  "CONFLICT_ERRORS =
     [(''PERSONAL_WORKSPACE_EXISTS'', error_entry 409 False),
      (''EXPORT_EXPIRED'', error_entry 410 False)]"

definition VALIDATION_ERRORS :: "(string \<times> error_entry) list" where
  "VALIDATION_ERRORS =
     [(''INVALID_AMOUNT'', error_entry 400 False),
      (''AMOUNT_TOO_LARGE'', error_entry 400 False),
      (''INVALID_TYPE'', error_entry 400 False),
      (''INVALID_VALUE'', error_entry 400 False),
      (''INVALID_REFERENCE'', error_entry 400 False),
      (''INVALID_ATTACHMENT'', error_entry 400 False),
      (''INVALID_LOGO'', error_entry 400 False),
      (''INVALID_DONATION_TYPE'', error_entry 400 False),
      (''INVALID_PAYMENT_METHOD'', error_entry 400 False),
      (''IMPORT_PARSE_FAILED'', error_entry 400 False),
      (''CATEGORY_REQUIRED'', error_entry 400 False),
      (''CATEGORY_KIND_MISMATCH'', error_entry 400 False),
      (''DESTINATION_REQUIRED'', error_entry 400 False),
      (''NOT_A_LIABILITY'', error_entry 400 False),
      (''NO_POSTINGS'', error_entry 400 False),
      (''ALREADY_REVERSED'', error_entry 400 False),
      (''EMPTY_PATCH'', error_entry 400 False),
      (''NO_CHANGES'', error_entry 400 False),
      (''ALREADY_PENDING'', error_entry 400 False),
      (''NOT_PENDING'', error_entry 400 False),
      (''CONFIRMATION_MISMATCH'', error_entry 400 False),
      (''CANNOT_SUSPEND_SELF'', error_entry 400 False),
      (''LAST_SUPER_ADMIN'', error_entry 400 False),
      (''UNKNOWN_SETTING'', error_entry 400 False),
      (''SYNC_CURSOR_STALLED'', error_entry 400 False)]"

definition UPSTREAM_ERRORS :: "(string \<times> error_entry) list" where
  "UPSTREAM_ERRORS =
     [(''SYNC_FAILED'', error_entry 400 True),
      (''EXPORT_NOT_READY'', error_entry 503 True),
      (''EXPORT_FAILED'', error_entry 503 True),
      (''REVERSAL_FAILED'', error_entry 400 True),
      (''SUMMARY_FAILED'', error_entry 400 True),
      (''AGGREGATION_FAILED'', error_entry 400 True),
      (''PLANNING_WRITE_FAILED'', error_entry 400 True),
      (''CATEGORY_CREATE_FAILED'', error_entry 400 True),
      (''CATEGORY_SEED_FAILED'', error_entry 400 True),
      (''ONBOARDING_UPDATE_FAILED'', error_entry 400 True),
      (''DELETION_REQUEST_FAILED'', error_entry 400 True),
      (''CANCEL_FAILED'', error_entry 400 True),
      (''SUSPEND_FAILED'', error_entry 400 True),
      (''REINSTATE_FAILED'', error_entry 400 True),
      (''DISMISS_FAILED'', error_entry 400 True),
      (''BROADCASTS_UNAVAILABLE'', error_entry 400 True),
      (''IMPORT_CREATE_FAILED'', error_entry 400 True),
      (''IMPORT_STAGE_FAILED'', error_entry 400 True),
      (''ATTACHMENT_UPLOAD_FAILED'', error_entry 400 True),
      (''ATTACHMENT_DOWNLOAD_FAILED'', error_entry 400 True),
      (''ATTACHMENT_DELETE_FAILED'', error_entry 400 True)]"

definition API_ERRORS :: "(string \<times> error_entry) list" where
  "API_ERRORS = AUTHENTICATION_ERRORS @ AUTHORIZATION_ERRORS @ IDEMPOTENCY_ERRORS
     @ NOT_FOUND_ERRORS @ CONFLICT_ERRORS @ VALIDATION_ERRORS @ UPSTREAM_ERRORS"

definition isKnownErrorCode :: "string \<Rightarrow> bool" where
  "isKnownErrorCode code \<longleftrightarrow> map_of API_ERRORS code \<noteq> None"

definition isRetryable :: "string \<Rightarrow> bool" where
  "isRetryable code = (case map_of API_ERRORS code of None \<Rightarrow> False | Some e \<Rightarrow> err_retryable e)"

definition catalogue_status :: "string \<Rightarrow> nat option" where
  "catalogue_status code = map_option err_status (map_of API_ERRORS code)"

section \<open>Pagination\<close>

definition PAGE_LIMIT_DEFAULT :: int where
  "PAGE_LIMIT_DEFAULT = 50"

definition PAGE_LIMIT_MAX :: int where
  "PAGE_LIMIT_MAX = 200"

text \<open>
  The argument of \<open>clampLimit\<close> is \<open>unknown\<close>: a string, a number, or anything else. \<open>js_number\<close>
  is a finite number or one of the others; \<open>Number\<close> on a string is the parameter \<open>to_number\<close>.
\<close>

datatype js_number = Not_a_number | Infinite bool | Finite rat

datatype js_limit = Limit_string string | Limit_number js_number | Limit_other

definition clampLimit :: "(string \<Rightarrow> js_number) \<Rightarrow> js_limit \<Rightarrow> int" where
  "clampLimit to_number limit =
     (let parsed = (case limit of Limit_string s \<Rightarrow> Limit_number (to_number s) | l \<Rightarrow> l) in
      case parsed of
        Limit_number (Finite x) \<Rightarrow>
          if x < 1 then PAGE_LIMIT_DEFAULT else min \<lfloor>x\<rfloor> PAGE_LIMIT_MAX
      | _ \<Rightarrow> PAGE_LIMIT_DEFAULT)"

record 'a Page =
  items :: "'a list"
  next_cursor :: "string option"
  has_more :: bool

definition toPage :: "'a list \<Rightarrow> nat \<Rightarrow> ('a \<Rightarrow> string) \<Rightarrow> 'a Page" where
  "toPage rows limit cursorOf =
     (let more = limit < length rows; its = (if more then take limit rows else rows) in
      \<lparr>items = its,
       next_cursor = (if more \<and> its \<noteq> [] then Some (cursorOf (last its)) else None),
       has_more = more\<rparr>)"

section \<open>Lemmas and properties\<close>

lemma toPage_items: "items (toPage rows limit f) = take limit rows"
  by (simp add: toPage_def Let_def)

lemma toPage_has_more [simp]: "has_more (toPage rows limit f) \<longleftrightarrow> limit < length rows"
  by (simp add: toPage_def Let_def)

text \<open>
  Whatever a client sends as \<open>limit\<close> (a string, a number of any kind, nothing), the clamped
  limit is between 1 and 200.
\<close>

theorem clampLimit_range: "1 \<le> clampLimit to_number l \<and> clampLimit to_number l \<le> PAGE_LIMIT_MAX"
  by (auto simp: clampLimit_def PAGE_LIMIT_DEFAULT_def PAGE_LIMIT_MAX_def le_floor_iff Let_def
      split: js_limit.splits js_number.splits)

text \<open>
  A page built from the first \<open>limit + 1\<close> of the rows still to be listed carries the first
  \<open>limit\<close> of them; for a positive limit it has a cursor exactly when rows remain after it, and the
  cursor is that of its last row.
\<close>

theorem toPage_overfetch:
  assumes "0 < limit"
  shows "items (toPage (take (limit + 1) rows) limit f) = take limit rows
    \<and> (has_more (toPage (take (limit + 1) rows) limit f) \<longleftrightarrow> drop limit rows \<noteq> [])
    \<and> next_cursor (toPage (take (limit + 1) rows) limit f) =
           (if drop limit rows = [] then None else Some (f (rows ! (limit - 1))))"
  using assms
  by (auto simp: toPage_def Let_def min_def last_conv_nth)

theorem toPage_overfetch_witness:
  "items (toPage (take (2 + 1) [''a'', ''b'', ''c'', ''d'']) 2 id) = [''a'', ''b'']
   \<and> next_cursor (toPage (take (2 + 1) [''a'', ''b'', ''c'', ''d'']) 2 id) = Some ''b''"
  using toPage_overfetch [of 2 "[''a'', ''b'', ''c'', ''d'']" id] by (simp add: numeral_2_eq_2)

end
