(* ===== verification/Database.thy ===== *)
theory Database
  imports Domain
begin

text \<open>
  The database as the services see it through supabase-js: the ledger tables, the unique
  indexes, checks, triggers and row-level-security policies the migrations declare
  (\<open>supabase/migrations\<close>), and statements that may fail.

  Every \<open>await client...\<close> is one statement. \<open>faults\<close> is the schedule of failures outside the
  model of the tables (connection lost, timeout, permission): a statement takes the next element
  and, when it is \<open>Some e\<close>, answers \<open>{ data: null, error: e }\<close> with nothing written. A theorem
  over all states is a theorem over all such schedules.

  A user client runs as \<open>uid\<close>: rows of a workspace are visible and writable when \<open>uid\<close> is an
  active member of it. Migrations 00002, 00008 and 00009 declare no DELETE policy for
  \<open>ledger_accounts\<close>, \<open>categories\<close>, \<open>journal_entries\<close> and \<open>journal_postings\<close>, so a DELETE there
  succeeds and removes no row. Foreign keys are checked against all rows, visible or not.
\<close>

section \<open>Rows\<close>

record ledger_account =
  la_id :: string
  la_workspace_id :: string
  la_name :: string
  la_class :: AccountClass
  la_subtype :: AccountSubtype
  la_currency_code :: string
  la_normal_balance :: NormalBalance
  la_include_in_budget :: bool
  la_include_in_net_worth :: bool
  la_opening_date :: "string option"
  la_archived_at :: "string option"
  la_deleted_at :: "string option"
  la_created_by :: string
  la_version :: nat

text \<open>An icon is a list of Unicode code points: it is an emoji, outside the range of \<open>char\<close>.\<close>

record category =
  cat_id :: string
  cat_workspace_id :: "string option"
  cat_ledger_account_id :: string
  cat_kind :: CategoryKind
  cat_parent_id :: "string option"
  cat_translation_key :: "string option"
  cat_custom_name :: "string option"
  cat_icon :: "nat list"
  cat_color :: string
  cat_sort_order :: int
  cat_archived_at :: "string option"
  cat_deleted_at :: "string option"

record journal_entry =
  je_id :: string
  je_workspace_id :: string
  je_entry_type :: EntryType
  je_occurred_at :: string
  je_local_date :: string
  je_payee :: "string option"
  je_note :: "string option"
  je_status :: EntryStatus
  je_source :: EntrySource
  je_client_entry_id :: string
  je_idempotency_key_hash :: "string option"
  je_reverses_entry_id :: "string option"
  je_created_by :: string
  je_posted_at :: "string option"
  je_version :: nat

record journal_posting =
  jp_id :: string
  jp_journal_entry_id :: string
  jp_workspace_id :: string
  jp_ledger_account_id :: string
  jp_debit_minor :: int
  jp_credit_minor :: int
  jp_currency_code :: string
  jp_base_amount_minor :: int

record tag =
  tag_id :: string
  tag_workspace_id :: string
  tag_name :: string

record entry_tag =
  et_journal_entry_id :: string
  et_workspace_id :: string
  et_tag_id :: string

record workspace =
  ws_id :: string
  ws_name :: string
  ws_base_currency :: string
  ws_timezone :: string
  ws_created_by :: string
  ws_status :: WorkspaceStatus

record member =
  mb_workspace_id :: string
  mb_user_id :: string
  mb_status :: MemberStatus

section \<open>Errors and state\<close>

record pg_error =
  pg_code :: string
  pg_message :: string

abbreviation pg :: "string \<Rightarrow> pg_error" where
  "pg c \<equiv> \<lparr>pg_code = c, pg_message = ''''\<rparr>"

definition UNIQUE_VIOLATION :: string where "UNIQUE_VIOLATION = ''23505''"
definition FK_VIOLATION :: string where "FK_VIOLATION = ''23503''"
definition CHECK_VIOLATION :: string where "CHECK_VIOLATION = ''23514''"
definition RLS_VIOLATION :: string where "RLS_VIOLATION = ''42501''"
definition NOT_ONE_ROW :: string where "NOT_ONE_ROW = ''PGRST116''"

lemmas pg_codes = UNIQUE_VIOLATION_def FK_VIOLATION_def CHECK_VIOLATION_def RLS_VIOLATION_def
  NOT_ONE_ROW_def

record db =
  workspaces :: "workspace list"
  members :: "member list"
  ledger_accounts :: "ledger_account list"
  categories :: "category list"
  journal_entries :: "journal_entry list"
  journal_postings :: "journal_posting list"
  tags :: "tag list"
  entry_tags :: "entry_tag list"
  uuids :: nat
  faults :: "pg_error option list"

definition empty_db :: db where
  "empty_db = \<lparr>workspaces = [], members = [], ledger_accounts = [], categories = [],
     journal_entries = [], journal_postings = [], tags = [], entry_tags = [], uuids = 0, faults = []\<rparr>"

text \<open>What a request takes from outside: \<open>randomUUID\<close>, SHA-256 and the clock (ISO text).\<close>

record env =
  env_uuid :: "nat \<Rightarrow> string"
  env_sha256 :: "string \<Rightarrow> string"
  env_now :: string

definition randomUUID :: "env \<Rightarrow> (db, string) api" where
  "randomUUID E s = (Inr (env_uuid E (uuids s)), s\<lparr>uuids := Suc (uuids s)\<rparr>)"

section \<open>Statements\<close>

definition stmt :: "(db \<Rightarrow> pg_error + 'a \<times> db) \<Rightarrow> (db, pg_error + 'a) api" where
  "stmt f s =
     (let t = s\<lparr>faults := tl (faults s)\<rparr> in
      if faults s \<noteq> [] \<and> hd (faults s) \<noteq> None
      then (Inr (Inl (the (hd (faults s)))), t)
      else (case f t of Inl e \<Rightarrow> (Inr (Inl e), t) | Inr (x, u) \<Rightarrow> (Inr (Inr x), u)))"

definition select :: "(db \<Rightarrow> 'a list) \<Rightarrow> (db, pg_error + 'a list) api" where
  "select q = stmt (\<lambda>s. Inr (q s, s))"

text \<open>\<open>.single()\<close> and \<open>.maybeSingle()\<close>.\<close>

definition single :: "'a list \<Rightarrow> pg_error + 'a" where
  "single rows = (case rows of [x] \<Rightarrow> Inr x | _ \<Rightarrow> Inl (pg NOT_ONE_ROW))"

definition select_single :: "(db \<Rightarrow> 'a list) \<Rightarrow> (db, pg_error + 'a) api" where
  "select_single q = stmt (\<lambda>s. case single (q s) of Inl e \<Rightarrow> Inl e | Inr x \<Rightarrow> Inr (x, s))"

definition maybe_single :: "'a list \<Rightarrow> pg_error + 'a option" where
  "maybe_single rows = (case rows of [] \<Rightarrow> Inr None | [x] \<Rightarrow> Inr (Some x) | _ \<Rightarrow> Inl (pg NOT_ONE_ROW))"

definition select_maybe :: "(db \<Rightarrow> 'a list) \<Rightarrow> (db, pg_error + 'a option) api" where
  "select_maybe q = stmt (\<lambda>s. case maybe_single (q s) of Inl e \<Rightarrow> Inl e | Inr x \<Rightarrow> Inr (x, s))"

text \<open>\<open>const { data } = ...\<close> with the error ignored: \<open>null\<close> on failure.\<close>

definition data_of :: "pg_error + 'a \<Rightarrow> 'a option" where
  "data_of r = (case r of Inl e \<Rightarrow> None | Inr x \<Rightarrow> Some x)"

definition data_list :: "pg_error + 'a list \<Rightarrow> 'a list" where
  "data_list r = (case r of Inl e \<Rightarrow> [] | Inr xs \<Rightarrow> xs)"

definition data_maybe :: "pg_error + 'a option \<Rightarrow> 'a option" where
  "data_maybe r = (case r of Inl e \<Rightarrow> None | Inr x \<Rightarrow> x)"

section \<open>Policies\<close>

definition is_member :: "string \<Rightarrow> db \<Rightarrow> string \<Rightarrow> bool" where
  "is_member uid s w \<longleftrightarrow>
     (\<exists>m \<in> set (members s). mb_workspace_id m = w \<and> mb_user_id m = uid \<and> mb_status m = MEMBER_ACTIVE)"

definition visible_accounts :: "string \<Rightarrow> db \<Rightarrow> ledger_account list" where
  "visible_accounts uid s = [a \<leftarrow> ledger_accounts s. is_member uid s (la_workspace_id a)]"

definition visible_categories :: "string \<Rightarrow> db \<Rightarrow> category list" where
  "visible_categories uid s =
     [c \<leftarrow> categories s. case cat_workspace_id c of None \<Rightarrow> True | Some w \<Rightarrow> is_member uid s w]"

definition visible_entries :: "string \<Rightarrow> db \<Rightarrow> journal_entry list" where
  "visible_entries uid s = [e \<leftarrow> journal_entries s. is_member uid s (je_workspace_id e)]"

definition visible_postings :: "string \<Rightarrow> db \<Rightarrow> journal_posting list" where
  "visible_postings uid s = [p \<leftarrow> journal_postings s. is_member uid s (jp_workspace_id p)]"

definition visible_tags :: "string \<Rightarrow> db \<Rightarrow> tag list" where
  "visible_tags uid s = [t \<leftarrow> tags s. is_member uid s (tag_workspace_id t)]"

definition visible_entry_tags :: "string \<Rightarrow> db \<Rightarrow> entry_tag list" where
  "visible_entry_tags uid s = [t \<leftarrow> entry_tags s. is_member uid s (et_workspace_id t)]"

definition visible_workspaces :: "string \<Rightarrow> db \<Rightarrow> workspace list" where
  "visible_workspaces uid s =
     [w \<leftarrow> workspaces s. is_member uid s (ws_id w) \<or> ws_created_by w = uid]"

section \<open>Writes\<close>

text \<open>
  The conditions are tested in the order: policy, primary key and unique indexes, checks, foreign
  keys. A statement that inserts several rows is all or nothing.
\<close>

definition entry_conflicts :: "journal_entry \<Rightarrow> journal_entry \<Rightarrow> bool" where
  "entry_conflicts new old \<longleftrightarrow> je_id new = je_id old
     \<or> (je_idempotency_key_hash new \<noteq> None \<and> je_created_by new = je_created_by old
         \<and> je_idempotency_key_hash new = je_idempotency_key_hash old)
     \<or> (je_reverses_entry_id new \<noteq> None \<and> je_reverses_entry_id new = je_reverses_entry_id old)"

definition insert_entry :: "string \<Rightarrow> journal_entry \<Rightarrow> db \<Rightarrow> pg_error + journal_entry \<times> db" where
  "insert_entry uid e s =
     (if \<not> is_member uid s (je_workspace_id e) then Inl (pg RLS_VIOLATION)
      else if list_ex (entry_conflicts e) (journal_entries s) then Inl (pg UNIQUE_VIOLATION)
      else Inr (e, s\<lparr>journal_entries := journal_entries s @ [e]\<rparr>))"

definition posting_ok :: "journal_posting \<Rightarrow> bool" where
  "posting_ok p \<longleftrightarrow> \<not> (0 < jp_debit_minor p \<and> 0 < jp_credit_minor p)
     \<and> (0 < jp_debit_minor p \<or> 0 < jp_credit_minor p)
     \<and> 0 \<le> jp_debit_minor p \<and> 0 \<le> jp_credit_minor p"

text \<open>The trigger \<open>derive_workspace_from_entry\<close> copies the workspace of the parent entry.\<close>

definition derive_workspace :: "db \<Rightarrow> journal_posting \<Rightarrow> journal_posting" where
  "derive_workspace s p =
     (case find (\<lambda>e. je_id e = jp_journal_entry_id p) (journal_entries s) of
        None \<Rightarrow> p | Some e \<Rightarrow> p\<lparr>jp_workspace_id := je_workspace_id e\<rparr>)"

definition insert_postings ::
    "string \<Rightarrow> journal_posting list \<Rightarrow> db \<Rightarrow> pg_error + journal_posting list \<times> db" where
  "insert_postings uid ps s =
     (let qs = map (derive_workspace s) ps in
      if \<not> list_all (\<lambda>p. is_member uid s (jp_workspace_id p)) qs then Inl (pg RLS_VIOLATION)
      else if \<not> distinct (map jp_id qs)
          \<or> list_ex (\<lambda>p. list_ex (\<lambda>q. jp_id q = jp_id p) (journal_postings s)) qs
        then Inl (pg UNIQUE_VIOLATION)
      else if \<not> list_all posting_ok qs then Inl (pg CHECK_VIOLATION)
      else if \<not> list_all (\<lambda>p. list_ex (\<lambda>e. je_id e = jp_journal_entry_id p) (journal_entries s)
                    \<and> list_ex (\<lambda>a. la_id a = jp_ledger_account_id p) (ledger_accounts s)) qs
        then Inl (pg FK_VIOLATION)
      else Inr (qs, s\<lparr>journal_postings := journal_postings s @ qs\<rparr>))"

text \<open>\<open>uq_ledger_accounts_workspace_category_name\<close> and the primary key.\<close>

definition account_conflicts :: "ledger_account \<Rightarrow> ledger_account \<Rightarrow> bool" where
  "account_conflicts new old \<longleftrightarrow> la_id new = la_id old
     \<or> (la_subtype new = CATEGORY \<and> la_subtype old = CATEGORY
         \<and> la_workspace_id new = la_workspace_id old \<and> la_name new = la_name old)"

fun accounts_insertable :: "ledger_account list \<Rightarrow> ledger_account list \<Rightarrow> bool" where
  "accounts_insertable [] olds = True"
| "accounts_insertable (a # as) olds =
     (\<not> list_ex (account_conflicts a) olds \<and> accounts_insertable as (olds @ [a]))"

definition insert_accounts ::
    "string \<Rightarrow> ledger_account list \<Rightarrow> db \<Rightarrow> pg_error + ledger_account list \<times> db" where
  "insert_accounts uid as s =
     (if \<not> list_all (\<lambda>a. is_member uid s (la_workspace_id a)) as then Inl (pg RLS_VIOLATION)
      else if \<not> accounts_insertable as (ledger_accounts s) then Inl (pg UNIQUE_VIOLATION)
      else Inr (as, s\<lparr>ledger_accounts := ledger_accounts s @ as\<rparr>))"

text \<open>
  \<open>uq_categories_workspace_translation_key\<close>, the primary key, \<open>chk_categories_nameable\<close>, and the
  trigger \<open>check_category_account_kind\<close> (its exception is a plain \<open>P0001\<close>).
\<close>

definition category_conflicts :: "category \<Rightarrow> category \<Rightarrow> bool" where
  "category_conflicts new old \<longleftrightarrow> cat_id new = cat_id old
     \<or> (cat_translation_key new \<noteq> None \<and> cat_translation_key new = cat_translation_key old
         \<and> cat_workspace_id new \<noteq> None \<and> cat_workspace_id new = cat_workspace_id old)"

fun categories_insertable :: "category list \<Rightarrow> category list \<Rightarrow> bool" where
  "categories_insertable [] olds = True"
| "categories_insertable (c # cs) olds =
     (\<not> list_ex (category_conflicts c) olds \<and> categories_insertable cs (olds @ [c]))"

definition category_account_ok :: "db \<Rightarrow> category \<Rightarrow> bool" where
  "category_account_ok s c \<longleftrightarrow>
     (case find (\<lambda>a. la_id a = cat_ledger_account_id c) (ledger_accounts s) of
        None \<Rightarrow> False
      | Some a \<Rightarrow> la_class a = class_of_kind (cat_kind c) \<and> cat_workspace_id c = Some (la_workspace_id a))"

definition insert_categories ::
    "string \<Rightarrow> category list \<Rightarrow> db \<Rightarrow> pg_error + category list \<times> db" where
  "insert_categories uid cs s =
     (if \<not> list_all (category_account_ok s) cs then Inl (pg ''P0001'')
      else if \<not> list_all (\<lambda>c. case cat_workspace_id c of None \<Rightarrow> False | Some w \<Rightarrow> is_member uid s w) cs
        then Inl (pg RLS_VIOLATION)
      else if \<not> list_all (\<lambda>c. cat_custom_name c \<noteq> None \<or> cat_translation_key c \<noteq> None) cs
        then Inl (pg CHECK_VIOLATION)
      else if \<not> categories_insertable cs (categories s) then Inl (pg UNIQUE_VIOLATION)
      else Inr (cs, s\<lparr>categories := categories s @ cs\<rparr>))"

text \<open>A DELETE on a table without a DELETE policy: success, no row.\<close>

definition delete_denied :: "db \<Rightarrow> pg_error + unit \<times> db" where
  "delete_denied s = Inr ((), s)"

text \<open>\<open>tags\<close>: UNIQUE (workspace, name); \<open>upsert\<close> with \<open>ignoreDuplicates\<close> skips existing names.\<close>

definition tag_exists :: "tag list \<Rightarrow> tag \<Rightarrow> bool" where
  "tag_exists ts t \<longleftrightarrow>
     list_ex (\<lambda>u. tag_workspace_id u = tag_workspace_id t \<and> tag_name u = tag_name t) ts"

fun add_missing_tags :: "tag list \<Rightarrow> tag list \<Rightarrow> tag list" where
  "add_missing_tags ts [] = ts"
| "add_missing_tags ts (n # ns) =
     (if tag_exists ts n then add_missing_tags ts ns else add_missing_tags (ts @ [n]) ns)"

definition upsert_tags :: "string \<Rightarrow> tag list \<Rightarrow> db \<Rightarrow> pg_error + unit \<times> db" where
  "upsert_tags uid ns s =
     (if \<not> list_all (\<lambda>t. is_member uid s (tag_workspace_id t)) ns then Inl (pg RLS_VIOLATION)
      else Inr ((), s\<lparr>tags := add_missing_tags (tags s) ns\<rparr>))"

definition insert_tag :: "string \<Rightarrow> tag \<Rightarrow> db \<Rightarrow> pg_error + tag \<times> db" where
  "insert_tag uid t s =
     (if \<not> is_member uid s (tag_workspace_id t) then Inl (pg RLS_VIOLATION)
      else if tag_exists (tags s) t then Inl (pg UNIQUE_VIOLATION)
      else Inr (t, s\<lparr>tags := tags s @ [t]\<rparr>))"

text \<open>The primary key of \<open>journal_entry_tags\<close> is the pair of ids.\<close>

definition insert_entry_tags :: "string \<Rightarrow> entry_tag list \<Rightarrow> db \<Rightarrow> pg_error + unit \<times> db" where
  "insert_entry_tags uid ls s =
     (if \<not> list_all (\<lambda>l. is_member uid s (et_workspace_id l)) ls then Inl (pg RLS_VIOLATION)
      else if \<not> distinct (map (\<lambda>l. (et_journal_entry_id l, et_tag_id l)) ls)
          \<or> list_ex (\<lambda>l. list_ex (\<lambda>m. et_journal_entry_id m = et_journal_entry_id l
                                   \<and> et_tag_id m = et_tag_id l) (entry_tags s)) ls
        then Inl (pg UNIQUE_VIOLATION)
      else Inr ((), s\<lparr>entry_tags := entry_tags s @ ls\<rparr>))"

end
