(* ===== verification/Ledger.thy ===== *)
theory Ledger
  imports Database
begin

text \<open>
  The invariants of the ledger tables, shared by every service that writes them, and the rules
  that reduce an invariant of a handler to its statements: a SELECT and a drawn UUID change no
  table, an INSERT changes one.
\<close>

section \<open>Statement rules\<close>

text \<open>\<open>tables_only P\<close>: \<open>P\<close> reads neither the failure schedule nor the UUID counter.\<close>

definition tables_only :: "(db \<Rightarrow> bool) \<Rightarrow> bool" where
  "tables_only P \<longleftrightarrow> (\<forall>s fs n. P (s\<lparr>faults := fs\<rparr>) = P s \<and> P (s\<lparr>uuids := n\<rparr>) = P s)"

lemma keeps_stmt:
  assumes "tables_only P" and "\<And>s x t. P s \<Longrightarrow> f s = Inr (x, t) \<Longrightarrow> P t"
  shows "keeps P (stmt f)"
proof (rule keepsI)
  fix s
  assume "P s"
  then have "P (s\<lparr>faults := tl (faults s)\<rparr>)"
    using assms(1) by (simp add: tables_only_def)
  then show "P (snd (stmt f s))"
    by (auto simp: stmt_def Let_def split: sum.splits prod.splits intro: assms(2))
qed

lemma keeps_select [keeps_intros]: "tables_only P \<Longrightarrow> keeps P (select q)"
  unfolding select_def by (erule keeps_stmt) simp

lemma keeps_select_single [keeps_intros]: "tables_only P \<Longrightarrow> keeps P (select_single q)"
  unfolding select_single_def by (erule keeps_stmt) (simp split: sum.splits)

lemma keeps_select_maybe [keeps_intros]: "tables_only P \<Longrightarrow> keeps P (select_maybe q)"
  unfolding select_maybe_def by (erule keeps_stmt) (simp split: sum.splits)

lemma keeps_delete_denied [keeps_intros]: "tables_only P \<Longrightarrow> keeps P (stmt delete_denied)"
  by (erule keeps_stmt) (simp add: delete_denied_def)

lemma keeps_randomUUID [keeps_intros]: "tables_only P \<Longrightarrow> keeps P (randomUUID E)"
  by (rule keepsI) (simp add: tables_only_def randomUUID_def)

text \<open>Statements of a state without scheduled failures.\<close>

lemma stmt_no_fault:
  "faults s = [] \<Longrightarrow>
     stmt f s = (case f s of Inl e \<Rightarrow> (Inr (Inl e), s) | Inr (x, u) \<Rightarrow> (Inr (Inr x), u))"
proof -
  assume none: "faults s = []"
  have same: "s\<lparr>faults := []\<rparr> = s" using none by (cases s) simp
  show ?thesis by (simp only: stmt_def none same Let_def list.sel) (simp add: case_prod_unfold)
qed

lemma select_no_fault: "faults s = [] \<Longrightarrow> select q s = (Inr (Inr (q s)), s)"
  by (simp add: select_def stmt_no_fault)

lemma select_single_no_fault: "faults s = [] \<Longrightarrow> select_single q s = (Inr (single (q s)), s)"
  by (simp add: select_single_def stmt_no_fault split: sum.splits)

lemma select_maybe_no_fault: "faults s = [] \<Longrightarrow> select_maybe q s = (Inr (maybe_single (q s)), s)"
  by (simp add: select_maybe_def stmt_no_fault split: sum.splits)

lemmas no_fault = stmt_no_fault select_no_fault select_single_no_fault select_maybe_no_fault

lemma is_member_update [simp]:
  "is_member uid (faults_update f1 s) w = is_member uid s w"
  "is_member uid (uuids_update f2 s) w = is_member uid s w"
  "is_member uid (journal_entries_update f3 s) w = is_member uid s w"
  "is_member uid (journal_postings_update f4 s) w = is_member uid s w"
  "is_member uid (tags_update f5 s) w = is_member uid s w"
  "is_member uid (entry_tags_update f6 s) w = is_member uid s w"
  "is_member uid (ledger_accounts_update f7 s) w = is_member uid s w"
  "is_member uid (categories_update f8 s) w = is_member uid s w"
  by (simp_all add: is_member_def)

section \<open>Balance\<close>

definition debits_of :: "string \<Rightarrow> journal_posting list \<Rightarrow> int" where
  "debits_of eid ps = sum_list (map jp_debit_minor [p \<leftarrow> ps. jp_journal_entry_id p = eid])"

definition credits_of :: "string \<Rightarrow> journal_posting list \<Rightarrow> int" where
  "credits_of eid ps = sum_list (map jp_credit_minor [p \<leftarrow> ps. jp_journal_entry_id p = eid])"

definition balanced_batch :: "journal_posting list \<Rightarrow> bool" where
  "balanced_batch ps \<longleftrightarrow>
     list_all (\<lambda>p. debits_of (jp_journal_entry_id p) ps = credits_of (jp_journal_entry_id p) ps) ps"

text \<open>Every entry of the ledger has equal debits and credits.\<close>

definition ledger_balanced :: "db \<Rightarrow> bool" where
  "ledger_balanced s \<longleftrightarrow> balanced_batch (journal_postings s)"

lemma debits_append [simp]: "debits_of e (ps @ qs) = debits_of e ps + debits_of e qs"
  by (simp add: debits_of_def)

lemma credits_append [simp]: "credits_of e (ps @ qs) = credits_of e ps + credits_of e qs"
  by (simp add: credits_of_def)

lemma balanced_batch_iff: "balanced_batch ps \<longleftrightarrow> (\<forall>e. debits_of e ps = credits_of e ps)"
proof
  assume b: "balanced_batch ps"
  show "\<forall>e. debits_of e ps = credits_of e ps"
  proof
    fix e
    show "debits_of e ps = credits_of e ps"
    proof (cases "\<exists>p \<in> set ps. jp_journal_entry_id p = e")
      case True
      then show ?thesis using b by (auto simp: balanced_batch_def list_all_iff)
    next
      case False
      then have "[p \<leftarrow> ps. jp_journal_entry_id p = e] = []" by (simp add: filter_empty_conv)
      then show ?thesis by (simp add: debits_of_def credits_of_def)
    qed
  qed
qed (simp add: balanced_batch_def list_all_iff)

lemma balanced_batch_append: "balanced_batch ps \<Longrightarrow> balanced_batch qs \<Longrightarrow> balanced_batch (ps @ qs)"
  by (simp add: balanced_batch_iff)

lemma derive_workspace_keeps [simp]:
  "jp_id (derive_workspace s p) = jp_id p"
  "jp_journal_entry_id (derive_workspace s p) = jp_journal_entry_id p"
  "jp_ledger_account_id (derive_workspace s p) = jp_ledger_account_id p"
  "jp_debit_minor (derive_workspace s p) = jp_debit_minor p"
  "jp_credit_minor (derive_workspace s p) = jp_credit_minor p"
  "jp_currency_code (derive_workspace s p) = jp_currency_code p"
  "jp_base_amount_minor (derive_workspace s p) = jp_base_amount_minor p"
  by (simp_all add: derive_workspace_def split: option.split)

lemma balanced_batch_derive: "balanced_batch ps \<Longrightarrow> balanced_batch (map (derive_workspace s) ps)"
  by (simp add: balanced_batch_iff debits_of_def credits_of_def filter_map comp_def)

section \<open>Well-formedness\<close>

text \<open>
  \<open>ledger_wf\<close>: primary keys are unique, an idempotency key names one entry per user, an entry has
  one reversal, and every posting is one-sided, belongs to an entry and carries its workspace.
\<close>

definition entries_unique :: "journal_entry list \<Rightarrow> bool" where
  "entries_unique es \<longleftrightarrow> sorted_wrt (\<lambda>old new. \<not> entry_conflicts new old) es"

definition ledger_wf :: "db \<Rightarrow> bool" where
  "ledger_wf s \<longleftrightarrow> entries_unique (journal_entries s) \<and> distinct (map jp_id (journal_postings s))
     \<and> list_all posting_ok (journal_postings s)
     \<and> list_all (\<lambda>p. list_ex (\<lambda>e. je_id e = jp_journal_entry_id p
                          \<and> je_workspace_id e = jp_workspace_id p) (journal_entries s))
         (journal_postings s)"

definition ledger_ok :: "db \<Rightarrow> bool" where
  "ledger_ok s \<longleftrightarrow> ledger_wf s \<and> ledger_balanced s"

lemma entry_conflicts_sym: "entry_conflicts a b = entry_conflicts b a"
  by (auto simp: entry_conflicts_def)

lemma entries_unique_append:
  "entries_unique (es @ [e]) \<longleftrightarrow> entries_unique es \<and> \<not> list_ex (entry_conflicts e) es"
  by (auto simp: entries_unique_def sorted_wrt_append list_ex_iff)

lemma entries_unique_ids: "entries_unique es \<Longrightarrow> distinct (map je_id es)"
  by (induction es) (auto simp: entries_unique_def entry_conflicts_def)

lemma entries_unique_key:
  assumes "entries_unique es" "a \<in> set es" "b \<in> set es" "je_created_by a = je_created_by b"
    "je_idempotency_key_hash a = Some h" "je_idempotency_key_hash b = Some h"
  shows "a = b"
  using assms by (induction es) (auto simp: entries_unique_def entry_conflicts_def)

lemma entries_unique_id:
  assumes "entries_unique es" "a \<in> set es" "b \<in> set es" "je_id a = je_id b"
  shows "a = b"
  using assms by (induction es) (auto simp: entries_unique_def entry_conflicts_def)

lemma entries_unique_reversal:
  assumes "entries_unique es" "a \<in> set es" "b \<in> set es"
    "je_reverses_entry_id a = Some x" "je_reverses_entry_id b = Some x"
  shows "a = b"
  using assms by (induction es) (auto simp: entries_unique_def entry_conflicts_def)

lemma tables_only_ledger [simp]:
  "tables_only ledger_balanced" "tables_only ledger_wf" "tables_only ledger_ok"
  by (simp_all add: tables_only_def ledger_balanced_def ledger_wf_def ledger_ok_def)

section \<open>Writes\<close>

text \<open>\<open>same_ledger s t\<close>: the entries and postings are untouched.\<close>

definition same_ledger :: "db \<Rightarrow> db \<Rightarrow> bool" where
  "same_ledger s t \<longleftrightarrow> journal_entries t = journal_entries s \<and> journal_postings t = journal_postings s"

lemma same_ledger_ok: "same_ledger s t \<Longrightarrow> ledger_ok t = ledger_ok s"
  by (simp add: same_ledger_def ledger_ok_def ledger_wf_def ledger_balanced_def)

lemma insert_entry_ok:
  assumes "insert_entry uid e s = Inr (x, t)" and "ledger_ok s"
  shows "ledger_ok t"
  using assms
  by (auto simp: insert_entry_def ledger_ok_def ledger_wf_def ledger_balanced_def
      entries_unique_append list_all_iff list_ex_iff split: if_splits)

lemma derive_workspace_found:
  assumes "list_ex (\<lambda>e. je_id e = jp_journal_entry_id p) (journal_entries s)"
  shows "list_ex (\<lambda>e. je_id e = jp_journal_entry_id p
           \<and> je_workspace_id e = jp_workspace_id (derive_workspace s p)) (journal_entries s)"
proof -
  obtain e where f: "find (\<lambda>e. je_id e = jp_journal_entry_id p) (journal_entries s) = Some e"
    using assms by (metis (mono_tags, lifting) find_None_iff list_ex_iff not_Some_eq)
  have "e \<in> set (journal_entries s)" "je_id e = jp_journal_entry_id p"
      "derive_workspace s p = p\<lparr>jp_workspace_id := je_workspace_id e\<rparr>"
    using f by (auto simp: find_Some_iff) (simp add: derive_workspace_def f)
  then show ?thesis by (auto simp: list_ex_iff)
qed

lemma insert_postings_ok:
  assumes "insert_postings uid ps s = Inr (x, t)" and "balanced_batch ps" and "ledger_ok s"
  shows "ledger_ok t"
proof -
  let ?qs = "map (derive_workspace s) ps"
  have t: "t = s\<lparr>journal_postings := journal_postings s @ ?qs\<rparr>"
    and ids: "distinct (map jp_id ?qs)" "set (map jp_id ?qs) \<inter> set (map jp_id (journal_postings s)) = {}"
    and ok: "list_all posting_ok ?qs"
    and ent: "list_all (\<lambda>p. list_ex (\<lambda>e. je_id e = jp_journal_entry_id p) (journal_entries s)) ?qs"
    using assms(1)
    by (auto simp: insert_postings_def Let_def list_all_iff list_ex_iff split: if_splits) metis
  have "list_all (\<lambda>p. list_ex (\<lambda>e. je_id e = jp_journal_entry_id p
          \<and> je_workspace_id e = jp_workspace_id p) (journal_entries s)) ?qs"
    using ent derive_workspace_found [of _ s] by (auto simp: list_all_iff)
  moreover have "balanced_batch (journal_postings s @ ?qs)"
    using assms(2,3) by (simp add: ledger_ok_def ledger_balanced_def balanced_batch_append
        balanced_batch_derive)
  ultimately show ?thesis
    using assms(3) ids ok
    by (auto simp: t ledger_ok_def ledger_wf_def ledger_balanced_def)
qed

lemma keeps_insert_entry [keeps_intros]: "keeps ledger_ok (stmt (insert_entry uid e))"
  by (rule keeps_stmt) (auto intro: insert_entry_ok)

lemma keeps_insert_postings:
  "balanced_batch ps \<Longrightarrow> keeps ledger_ok (stmt (insert_postings uid ps))"
  by (rule keeps_stmt) (auto intro: insert_postings_ok)

text \<open>Writes to the other tables.\<close>

lemma keeps_same_ledger:
  assumes "\<And>s x t. f s = Inr (x, t) \<Longrightarrow> same_ledger s t"
  shows "keeps ledger_ok (stmt f)"
  by (rule keeps_stmt) (auto dest!: assms simp: same_ledger_ok)

lemma keeps_upsert_tags [keeps_intros]: "keeps ledger_ok (stmt (upsert_tags uid ts))"
  by (rule keeps_same_ledger) (auto simp: upsert_tags_def same_ledger_def split: if_splits)

lemma keeps_insert_entry_tags [keeps_intros]: "keeps ledger_ok (stmt (insert_entry_tags uid ls))"
  by (rule keeps_same_ledger) (auto simp: insert_entry_tags_def same_ledger_def split: if_splits)

lemma keeps_insert_accounts [keeps_intros]: "keeps ledger_ok (stmt (insert_accounts uid as))"
  by (rule keeps_same_ledger) (auto simp: insert_accounts_def same_ledger_def split: if_splits)

lemma keeps_insert_categories [keeps_intros]: "keeps ledger_ok (stmt (insert_categories uid cs))"
  by (rule keeps_same_ledger) (auto simp: insert_categories_def same_ledger_def split: if_splits)

section \<open>Frames\<close>

text \<open>\<open>tables_are cs es ps\<close> fixes the tables a transaction depends on; a call that keeps it for all
  contents writes none of them (\<open>ledger_silent\<close>).\<close>

definition tables_are ::
    "category list \<Rightarrow> journal_entry list \<Rightarrow> journal_posting list \<Rightarrow> db \<Rightarrow> bool" where
  "tables_are cs es ps s \<longleftrightarrow> categories s = cs \<and> journal_entries s = es \<and> journal_postings s = ps"

definition ledger_silent :: "(db, 'a) api \<Rightarrow> bool" where
  "ledger_silent m \<longleftrightarrow> (\<forall>s. same_ledger s (snd (m s)) \<and> categories (snd (m s)) = categories s)"

lemma tables_only_are [simp]: "tables_only (tables_are cs es ps)"
  by (simp add: tables_only_def tables_are_def)

lemma tables_are_self: "tables_are (categories s) (journal_entries s) (journal_postings s) s"
  by (simp add: tables_are_def)

lemma ledger_silent_keeps: "ledger_silent m \<Longrightarrow> keeps (tables_are cs es ps) m"
  by (auto simp: ledger_silent_def keeps_def tables_are_def same_ledger_def)

lemma ledger_silent_ok: "ledger_silent m \<Longrightarrow> keeps ledger_ok m"
  by (metis keepsI ledger_silent_def same_ledger_ok)

lemma ledger_silentI: "(\<And>cs es ps. keeps (tables_are cs es ps) m) \<Longrightarrow> ledger_silent m"
  unfolding ledger_silent_def
  by (metis keepsD tables_are_def tables_are_self same_ledger_def)

lemma ledger_silent_return [simp]: "ledger_silent (api_return x)"
  by (simp add: ledger_silent_def same_ledger_def api_return_def)

lemma tables_upsert_tags [keeps_intros]: "keeps (tables_are cs es ps) (stmt (upsert_tags uid ts))"
  by (rule keeps_stmt) (auto simp: upsert_tags_def tables_are_def split: if_splits)

lemma tables_insert_entry_tags [keeps_intros]:
  "keeps (tables_are cs es ps) (stmt (insert_entry_tags uid ls))"
  by (rule keeps_stmt) (auto simp: insert_entry_tags_def tables_are_def split: if_splits)

lemma stmt_cases:
  assumes "stmt f s = (r, t)"
  obtains (fails) e where "r = Inr (Inl e)" "t = s\<lparr>faults := tl (faults s)\<rparr>"
  | (works) x where "r = Inr (Inr x)" "f (s\<lparr>faults := tl (faults s)\<rparr>) = Inr (x, t)"
  using assms by (auto simp: stmt_def Let_def split: if_splits sum.splits)

lemma total_stmt [total_intros]: "total_call (stmt f)"
  by (auto simp: total_call_def stmt_def Let_def split: sum.split)

lemma total_select [total_intros]: "total_call (select q)" "total_call (select_single r)"
    "total_call (select_maybe u)"
  by (simp_all add: select_def select_single_def select_maybe_def total_stmt)

lemma total_randomUUID [total_intros]: "total_call (randomUUID E)"
  by (simp add: total_call_def randomUUID_def)

text \<open>The triple of a statement: nothing changes when it fails.\<close>

lemma triple_stmt:
  assumes "tables_only P" and "\<And>s. P s \<Longrightarrow> Q (Inl ()) s"
    and "\<And>s x t. P s \<Longrightarrow> f s = Inr (x, t) \<Longrightarrow> Q (Inr x) t"
  shows "triple P (stmt f) (\<lambda>r. Q (map_sum (\<lambda>_. ()) id r)) X"
proof (rule tripleI)
  fix s
  assume "P s"
  then have P: "P (s\<lparr>faults := tl (faults s)\<rparr>)"
    using assms(1) by (simp add: tables_only_def)
  obtain r t where st: "stmt f s = (r, t)" by (cases "stmt f s")
  then show "case stmt f s of (Inl e, t) \<Rightarrow> X t | (Inr r, t) \<Rightarrow> Q (map_sum (\<lambda>_. ()) id r) t"
    by (cases rule: stmt_cases) (use assms(2,3) P in \<open>auto simp: st\<close>)
qed

section \<open>Statements of a larger state\<close>

text \<open>
  A component with tables of its own keeps the ledger's tables in a field (\<open>get\<close>, \<open>upd\<close>); its
  statements take their failures from the same schedule.
\<close>

definition drop_fault :: "db \<Rightarrow> db" where
  "drop_fault l = l\<lparr>faults := tl (faults l)\<rparr>"

definition fault_stmt ::
    "('s \<Rightarrow> db) \<Rightarrow> ((db \<Rightarrow> db) \<Rightarrow> 's \<Rightarrow> 's) \<Rightarrow> ('s \<Rightarrow> pg_error + 'a \<times> 's) \<Rightarrow> ('s, pg_error + 'a) api" where
  "fault_stmt get upd f s =
     (let t = upd drop_fault s in
      if faults (get s) \<noteq> [] \<and> hd (faults (get s)) \<noteq> None
      then (Inr (Inl (the (hd (faults (get s))))), t)
      else (case f t of Inl e \<Rightarrow> (Inr (Inl e), t) | Inr (x, u) \<Rightarrow> (Inr (Inr x), u)))"

lemma keeps_fault_stmt:
  assumes "\<And>s. P s \<Longrightarrow> P (upd drop_fault s)" and "\<And>s x t. P s \<Longrightarrow> f s = Inr (x, t) \<Longrightarrow> P t"
  shows "keeps P (fault_stmt get upd f)"
proof (rule keepsI)
  fix s
  assume "P s"
  then have P: "P (upd drop_fault s)" by (rule assms(1))
  then show "P (snd (fault_stmt get upd f s))"
    using assms(2) [OF P] by (auto simp: fault_stmt_def Let_def split: sum.split)
qed

lemma total_fault_stmt [total_intros]: "total_call (fault_stmt get upd f)"
  by (auto simp: total_call_def fault_stmt_def Let_def split: sum.split)

lemma drop_no_fault: "faults l = [] \<Longrightarrow> drop_fault l = l"
  by (simp add: drop_fault_def)

lemma fault_stmt_no_fault:
  "faults (get s) = [] \<Longrightarrow> upd drop_fault s = s \<Longrightarrow>
     fault_stmt get upd f s = (case f s of Inl e \<Rightarrow> (Inr (Inl e), s) | Inr (x, u) \<Rightarrow> (Inr (Inr x), u))"
  by (simp add: fault_stmt_def Let_def case_prod_unfold)

end
