(* ===== verification/Categories.thy ===== *)
theory Categories
  imports Ledger
begin

text \<open>
  \<open>apps/api/src/categories/categories.service.ts\<close>: the system catalogue and its seeding, listing,
  creation and update of categories, and the resolution of a category to the ledger account its
  postings reference. Each function is one method; \<open>E\<close> carries the UUID source and the clock,
  \<open>uid\<close> is the user of the access token.
\<close>

section \<open>The system catalogue\<close>

record system_category =
  sc_translation_key :: string
  sc_kind :: CategoryKind
  sc_icon :: "nat list"
  sc_color :: string
  sc_fallbackName :: string

definition sys_cat :: "string \<Rightarrow> CategoryKind \<Rightarrow> nat list \<Rightarrow> string \<Rightarrow> string \<Rightarrow> system_category" where
  "sys_cat k kind icon color name = \<lparr>sc_translation_key = k, sc_kind = kind, sc_icon = icon,
     sc_color = color, sc_fallbackName = name\<rparr>"

definition SYSTEM_CATEGORIES :: "system_category list" where
  "SYSTEM_CATEGORIES =
     [sys_cat ''cat.food_dining'' CK_EXPENSE [127829] ''#f59e0b'' ''Food & Dining'',
      sys_cat ''cat.transport'' CK_EXPENSE [128663] ''#3b82f6'' ''Transport'',
      sys_cat ''cat.housing'' CK_EXPENSE [127968] ''#8b5cf6'' ''Housing'',
      sys_cat ''cat.utilities'' CK_EXPENSE [128161] ''#06b6d4'' ''Utilities'',
      sys_cat ''cat.healthcare'' CK_EXPENSE [127973] ''#ef4444'' ''Healthcare'',
      sys_cat ''cat.education'' CK_EXPENSE [128218] ''#6366f1'' ''Education'',
      sys_cat ''cat.entertainment'' CK_EXPENSE [127918] ''#ec4899'' ''Entertainment'',
      sys_cat ''cat.shopping'' CK_EXPENSE [128717, 65039] ''#f97316'' ''Shopping'',
      sys_cat ''cat.personal_care'' CK_EXPENSE [128135] ''#14b8a6'' ''Personal Care'',
      sys_cat ''cat.gifts_donations'' CK_EXPENSE [127873] ''#a855f7'' ''Gifts & Donations'',
      sys_cat ''cat.other_expense'' CK_EXPENSE [128230] ''#6b7785'' ''Other Expense'',
      sys_cat ''cat.salary'' CK_INCOME [128176] ''#10b981'' ''Salary'',
      sys_cat ''cat.business'' CK_INCOME [127970] ''#059669'' ''Business'',
      sys_cat ''cat.freelance'' CK_INCOME [128187] ''#0ea5e9'' ''Freelance'',
      sys_cat ''cat.investment'' CK_INCOME [128200] ''#22c55e'' ''Investment'',
      sys_cat ''cat.other_income'' CK_INCOME [128181] ''#84cc16'' ''Other Income'']"

definition isUniqueViolation :: "pg_error \<Rightarrow> bool" where
  "isUniqueViolation e \<longleftrightarrow> pg_code e = UNIQUE_VIOLATION"

section \<open>Seeding\<close>

definition seeded_keys :: "string \<Rightarrow> string \<Rightarrow> db \<Rightarrow> string list" where
  "seeded_keys uid ws s =
     [the (cat_translation_key c). c \<leftarrow> visible_categories uid s,
        cat_workspace_id c = Some ws \<and> cat_translation_key c \<noteq> None]"

definition category_accounts :: "string \<Rightarrow> string \<Rightarrow> string list \<Rightarrow> db \<Rightarrow> ledger_account list" where
  "category_accounts uid ws names s =
     [a \<leftarrow> visible_accounts uid s. la_workspace_id a = ws \<and> la_subtype a = CATEGORY
        \<and> la_name a \<in> set names]"

definition workspace_rows :: "string \<Rightarrow> string \<Rightarrow> db \<Rightarrow> workspace list" where
  "workspace_rows uid ws s = [w \<leftarrow> visible_workspaces uid s. ws_id w = ws]"

definition category_account ::
    "string \<Rightarrow> string \<Rightarrow> string \<Rightarrow> string \<Rightarrow> CategoryKind \<Rightarrow> string \<Rightarrow> ledger_account" where
  "category_account aid ws uid name kind currency =
     \<lparr>la_id = aid, la_workspace_id = ws, la_name = name, la_class = class_of_kind kind,
      la_subtype = CATEGORY, la_currency_code = currency,
      la_normal_balance = ACCOUNT_CLASS_NORMAL_BALANCE (class_of_kind kind),
      la_include_in_budget = (kind = CK_EXPENSE), la_include_in_net_worth = False,
      la_opening_date = None, la_archived_at = None, la_deleted_at = None,
      la_created_by = uid, la_version = 1\<rparr>"

definition account_row ::
    "env \<Rightarrow> string \<Rightarrow> string \<Rightarrow> string \<Rightarrow> system_category \<Rightarrow> (db, ledger_account) api" where
  "account_row E ws uid currency cat =
     api_bind (randomUUID E) (\<lambda>aid.
     api_return (category_account aid ws uid (sc_fallbackName cat) (sc_kind cat) currency))"

definition category_row ::
    "env \<Rightarrow> string \<Rightarrow> (string \<Rightarrow> string option) \<Rightarrow> nat \<times> system_category \<Rightarrow> (db, category) api" where
  "category_row E ws accountByName = (\<lambda>(idx, cat).
     api_bind (randomUUID E) (\<lambda>cid.
     api_return
       \<lparr>cat_id = cid, cat_workspace_id = Some ws,
        cat_ledger_account_id = the (accountByName (sc_fallbackName cat)), cat_kind = sc_kind cat,
        cat_parent_id = None, cat_translation_key = Some (sc_translation_key cat),
        cat_custom_name = None, cat_icon = sc_icon cat, cat_color = sc_color cat,
        cat_sort_order = int idx, cat_archived_at = None, cat_deleted_at = None\<rparr>))"

definition insert_missing_accounts ::
    "env \<Rightarrow> string \<Rightarrow> string \<Rightarrow> string \<Rightarrow> system_category list \<Rightarrow> (db, unit) api" where
  "insert_missing_accounts E ws uid currency cats =
     (if cats = [] then api_return ()
      else
        api_bind (api_map (account_row E ws uid currency) cats) (\<lambda>rows.
        api_bind (stmt (insert_accounts uid rows)) (\<lambda>r.
        case r of
          Inl e \<Rightarrow>
            if isUniqueViolation e then api_return ()
            else api_throw (Bad_request ''CATEGORY_SEED_FAILED'' ''Failed to prepare category accounts'')
        | Inr _ \<Rightarrow> api_return ())))"

definition insert_category_rows ::
    "env \<Rightarrow> string \<Rightarrow> string \<Rightarrow> (string \<Rightarrow> string option) \<Rightarrow> system_category list \<Rightarrow> (db, unit) api" where
  "insert_category_rows E ws uid accountByName cats =
     (if cats = [] then api_return ()
      else
        api_bind (api_map (category_row E ws accountByName) (enumerate 0 cats)) (\<lambda>rows.
        api_bind (stmt (insert_categories uid rows)) (\<lambda>r.
        case r of
          Inl e \<Rightarrow>
            if isUniqueViolation e then api_return ()
            else api_throw (Bad_request ''CATEGORY_SEED_FAILED'' ''Failed to seed system categories'')
        | Inr _ \<Rightarrow> api_return ())))"

definition seedSystemCategories :: "env \<Rightarrow> string \<Rightarrow> string \<Rightarrow> (db, unit) api" where
  "seedSystemCategories E ws uid =
     api_bind (select (seeded_keys uid ws)) (\<lambda>existing.
     let seeded = data_list existing;
         missing = [c \<leftarrow> SYSTEM_CATEGORIES. sc_translation_key c \<notin> set seeded];
         names = map sc_fallbackName missing
     in if missing = [] then api_return ()
     else
     api_bind (select_single (workspace_rows uid ws)) (\<lambda>workspace.
     let currencyCode = (case data_of workspace of None \<Rightarrow> ''BDT'' | Some w \<Rightarrow> ws_base_currency w) in
     api_bind (select (category_accounts uid ws names)) (\<lambda>existingAccounts.
     let haveAccount = set (map la_name (data_list existingAccounts)) in
     api_bind (insert_missing_accounts E ws uid currencyCode
         [c \<leftarrow> missing. sc_fallbackName c \<notin> haveAccount]) (\<lambda>_.
     api_bind (select (category_accounts uid ws names)) (\<lambda>accounts.
     let accountByName = map_of (rev (map (\<lambda>a. (la_name a, la_id a)) (data_list accounts))) in
     insert_category_rows E ws uid accountByName
       [c \<leftarrow> missing. accountByName (sc_fallbackName c) \<noteq> None])))))"

section \<open>Listing\<close>

text \<open>\<open>category_kind\<close> is text: \<open>EXPENSE\<close> sorts before \<open>INCOME\<close>.\<close>

definition kind_rank :: "CategoryKind \<Rightarrow> int" where
  "kind_rank k = (if k = CK_EXPENSE then 0 else 1)"

definition listed_categories :: "string \<Rightarrow> string \<Rightarrow> CategoryKind option \<Rightarrow> db \<Rightarrow> category list" where
  "listed_categories uid ws kind s =
     sort_key (\<lambda>c. kind_rank (cat_kind c)) (sort_key cat_sort_order
       [c \<leftarrow> visible_categories uid s. cat_workspace_id c = Some ws \<and> cat_archived_at c = None
          \<and> cat_deleted_at c = None \<and> (kind = None \<or> kind = Some (cat_kind c))])"

definition listCategories ::
    "env \<Rightarrow> string \<Rightarrow> string \<Rightarrow> CategoryKind option \<Rightarrow> (db, category list) api" where
  "listCategories E ws uid kind =
     api_bind (seedSystemCategories E ws uid) (\<lambda>_.
     api_bind (select (listed_categories uid ws kind)) (\<lambda>r.
     case r of
       Inl e \<Rightarrow> api_throw (Bad_request_plain ''Failed to list categories'')
     | Inr rows \<Rightarrow> api_return rows))"

section \<open>Creation and update\<close>

record create_category_dto =
  cc_name :: string
  cc_kind :: CategoryKind
  cc_icon :: "nat list option"
  cc_color :: "string option"
  cc_parent_id :: "string option"
  cc_sort_order :: "int option"

definition workspace_categories :: "string \<Rightarrow> string \<Rightarrow> string \<Rightarrow> db \<Rightarrow> category list" where
  "workspace_categories uid ws cid s =
     [c \<leftarrow> visible_categories uid s. cat_id c = cid \<and> cat_workspace_id c = Some ws]"

definition check_parent ::
    "string \<Rightarrow> string \<Rightarrow> create_category_dto \<Rightarrow> (db, unit) api" where
  "check_parent ws uid dto =
     (case cc_parent_id dto of
        None \<Rightarrow> api_return ()
      | Some p \<Rightarrow>
          api_bind (select_single (workspace_categories uid ws p)) (\<lambda>r.
          case data_of r of
            None \<Rightarrow> api_throw (Not_found ''PARENT_CATEGORY_NOT_FOUND''
                      ''Parent category not found in this workspace'')
          | Some parent \<Rightarrow>
              if cat_kind parent \<noteq> cc_kind dto
              then api_throw (Bad_request ''CATEGORY_KIND_MISMATCH''
                     ''A child category must have the same kind as its parent'')
              else api_return ()))"

definition createCategory ::
    "env \<Rightarrow> string \<Rightarrow> string \<Rightarrow> create_category_dto \<Rightarrow> (db, category) api" where
  "createCategory E ws uid dto =
     api_bind (check_parent ws uid dto) (\<lambda>_.
     api_bind (select_single (workspace_rows uid ws)) (\<lambda>workspace.
     let currency = (case data_of workspace of None \<Rightarrow> ''BDT'' | Some w \<Rightarrow> ws_base_currency w) in
     api_bind (randomUUID E) (\<lambda>accountId.
     api_bind (stmt (insert_accounts uid
         [category_account accountId ws uid (cc_name dto) (cc_kind dto) currency])) (\<lambda>r.
     case r of
       Inl e \<Rightarrow> api_throw (Bad_request ''CATEGORY_CREATE_FAILED''
                  ''Failed to create the category ledger account'')
     | Inr _ \<Rightarrow>
         api_bind (randomUUID E) (\<lambda>cid.
         let row = \<lparr>cat_id = cid, cat_workspace_id = Some ws, cat_ledger_account_id = accountId,
               cat_kind = cc_kind dto, cat_parent_id = cc_parent_id dto, cat_translation_key = None,
               cat_custom_name = Some (cc_name dto),
               cat_icon = (case cc_icon dto of None \<Rightarrow> [128230] | Some i \<Rightarrow> i),
               cat_color = (case cc_color dto of None \<Rightarrow> ''#6B7785'' | Some c \<Rightarrow> c),
               cat_sort_order = (case cc_sort_order dto of None \<Rightarrow> 0 | Some n \<Rightarrow> n),
               cat_archived_at = None, cat_deleted_at = None\<rparr> in
         api_bind (stmt (insert_categories uid [row])) (\<lambda>r2.
         case r2 of
           Inl e \<Rightarrow>
             api_bind (stmt delete_denied) (\<lambda>_.
             api_throw (Bad_request ''CATEGORY_CREATE_FAILED'' ''Failed to create category''))
         | Inr rows \<Rightarrow> api_return row))))))"

record update_category_dto =
  uc_name :: "string option"
  uc_icon :: "nat list option"
  uc_color :: "string option"
  uc_parent_id :: "string option"
  uc_sort_order :: "int option"
  uc_archived :: "bool option"

definition category_patch :: "env \<Rightarrow> update_category_dto \<Rightarrow> category \<Rightarrow> category" where
  "category_patch E dto c =
     (let c1 = (case uc_name dto of None \<Rightarrow> c | Some n \<Rightarrow> c\<lparr>cat_custom_name := Some n\<rparr>);
          c2 = (case uc_icon dto of None \<Rightarrow> c1 | Some i \<Rightarrow> c1\<lparr>cat_icon := i\<rparr>);
          c3 = (case uc_color dto of None \<Rightarrow> c2 | Some x \<Rightarrow> c2\<lparr>cat_color := x\<rparr>);
          c4 = (case uc_parent_id dto of None \<Rightarrow> c3 | Some p \<Rightarrow> c3\<lparr>cat_parent_id := Some p\<rparr>);
          c5 = (case uc_sort_order dto of None \<Rightarrow> c4 | Some n \<Rightarrow> c4\<lparr>cat_sort_order := n\<rparr>)
      in case uc_archived dto of
           None \<Rightarrow> c5
         | Some a \<Rightarrow> c5\<lparr>cat_archived_at := (if a then Some (env_now E) else None)\<rparr>)"

definition patch_is_empty :: "update_category_dto \<Rightarrow> bool" where
  "patch_is_empty dto \<longleftrightarrow> uc_name dto = None \<and> uc_icon dto = None \<and> uc_color dto = None
     \<and> uc_parent_id dto = None \<and> uc_sort_order dto = None \<and> uc_archived dto = None"

text \<open>
  \<open>UPDATE categories ... WHERE id AND workspace_id\<close> by a member; the foreign key of \<open>parent_id\<close>
  refers to any category.
\<close>

definition update_category_rows ::
    "env \<Rightarrow> string \<Rightarrow> string \<Rightarrow> string \<Rightarrow> update_category_dto \<Rightarrow> db \<Rightarrow> pg_error + category \<times> db" where
  "update_category_rows E uid ws cid dto s =
     (case single (workspace_categories uid ws cid s) of
        Inl e \<Rightarrow> Inl e
      | Inr old \<Rightarrow>
          (case uc_parent_id dto of
             Some p \<Rightarrow>
               if \<not> list_ex (\<lambda>c. cat_id c = p) (categories s) then Inl (pg FK_VIOLATION)
               else Inr (category_patch E dto old, s\<lparr>categories := map (\<lambda>c.
                      if cat_id c = cid \<and> cat_workspace_id c = Some ws then category_patch E dto c
                      else c) (categories s)\<rparr>)
           | None \<Rightarrow>
               Inr (category_patch E dto old, s\<lparr>categories := map (\<lambda>c.
                      if cat_id c = cid \<and> cat_workspace_id c = Some ws then category_patch E dto c
                      else c) (categories s)\<rparr>)))"

definition updateCategory ::
    "env \<Rightarrow> string \<Rightarrow> string \<Rightarrow> string \<Rightarrow> update_category_dto \<Rightarrow> (db, category) api" where
  "updateCategory E cid ws uid dto =
     api_bind (select_single (workspace_categories uid ws cid)) (\<lambda>found.
     case data_of found of
       None \<Rightarrow> api_throw (Not_found ''CATEGORY_NOT_FOUND'' ''Category not found in this workspace'')
     | Some existing \<Rightarrow>
         if patch_is_empty dto
         then api_throw (Bad_request ''NO_CHANGES'' ''No updatable fields were provided'')
         else
           api_bind (stmt (update_category_rows E uid ws cid dto)) (\<lambda>r.
           case r of
             Inl e \<Rightarrow> api_throw (Bad_request_plain ''Failed to update category'')
           | Inr c \<Rightarrow> api_return c))"

section \<open>Resolution\<close>

definition resolveLedgerAccountId :: "string \<Rightarrow> string \<Rightarrow> string \<Rightarrow> (db, string) api" where
  "resolveLedgerAccountId cid ws uid =
     api_bind (select_single (workspace_categories uid ws cid)) (\<lambda>r.
     case data_of r of
       None \<Rightarrow> api_throw (Not_found ''CATEGORY_NOT_FOUND'' ''Category not found in this workspace'')
     | Some c \<Rightarrow>
         if cat_ledger_account_id c = []
         then api_throw (Not_found ''CATEGORY_NOT_FOUND'' ''Category not found in this workspace'')
         else api_return (cat_ledger_account_id c))"

end
