(* ===== verification/Money.thy ===== *)
theory Money
  imports JsNumber
begin

text \<open>
  \<open>packages/money/src/index.ts\<close>: currency metadata, the conversion of user and wire strings to
  minor units, checked addition, and the balance check of a set of postings.

  Amounts that the source holds in a \<open>number\<close> are integers here (\<open>int\<close>), with the rounding of
  \<open>number\<close> arithmetic written out by \<open>dbl\<close> where a result can leave the safe range. The major
  amounts of \<open>toMinorUnits\<close> are rationals and its product goes through \<open>fl\<close>, the rounding to
  the nearest \<open>number\<close>. \<open>formatMoney\<close> and \<open>formatAmount\<close> only call \<open>Intl.NumberFormat\<close> and
  are not modelled. Currency codes that name a member of \<open>Object.prototype\<close> are outside the
  model: the source's registry is a plain object.
\<close>

section \<open>Currency registry\<close>

record CurrencyInfo =
  currency_code_of :: string
  exponent :: nat
  nameEn :: string

definition mk_currency :: "string \<Rightarrow> nat \<Rightarrow> string \<Rightarrow> CurrencyInfo" where
  "mk_currency c e n = \<lparr>currency_code_of = c, exponent = e, nameEn = n\<rparr>"

definition CURRENCIES :: "(string \<times> CurrencyInfo) list" where
  "CURRENCIES =
     [(''BDT'', mk_currency ''BDT'' 2 ''Bangladeshi Taka''),
      (''SAR'', mk_currency ''SAR'' 2 ''Saudi Riyal''),
      (''USD'', mk_currency ''USD'' 2 ''US Dollar''),
      (''EUR'', mk_currency ''EUR'' 2 ''Euro''),
      (''GBP'', mk_currency ''GBP'' 2 ''British Pound''),
      (''INR'', mk_currency ''INR'' 2 ''Indian Rupee''),
      (''JPY'', mk_currency ''JPY'' 0 ''Japanese Yen''),
      (''KWD'', mk_currency ''KWD'' 3 ''Kuwaiti Dinar''),
      (''AED'', mk_currency ''AED'' 2 ''UAE Dirham''),
      (''MYR'', mk_currency ''MYR'' 2 ''Malaysian Ringgit'')]"

datatype money_error =
    Unknown_currency string
  | Invalid_major string
  | Too_many_decimals string nat
  | Exceeds_safe_range string
  | Invalid_minor string
  | Not_an_integer rat
  | Addition_overflow
  | Subtraction_overflow
  | Negative_side
  | Both_sides_positive
  | Both_sides_zero

definition getCurrency :: "string \<Rightarrow> money_error + CurrencyInfo" where
  "getCurrency code =
     (case map_of CURRENCIES code of None \<Rightarrow> Inl (Unknown_currency code) | Some c \<Rightarrow> Inr c)"

lemma exponent_le_3: "getCurrency code = Inr cur \<Longrightarrow> exponent cur \<le> 3"
  by (auto simp: getCurrency_def CURRENCIES_def mk_currency_def split: option.splits if_splits)

section \<open>Minor units\<close>

definition toMinorUnits :: "(rat \<Rightarrow> rat) \<Rightarrow> rat \<Rightarrow> string \<Rightarrow> money_error + int" where
  "toMinorUnits fl majorAmount currencyCode =
     (case getCurrency currencyCode of
        Inl e \<Rightarrow> Inl e
      | Inr currency \<Rightarrow> Inr (math_round (fl (majorAmount * 10 ^ exponent currency))))"

text \<open>\<open>/^(-?)(\d+)(?:\.(\d+))?$/\<close>: sign, whole digits and the fraction (empty when absent).\<close>

definition match_major :: "string \<Rightarrow> (bool \<times> string \<times> string) option" where
  "match_major value =
     (let negative = starts_with value ''-'';
          rest = (if negative then drop 1 value else value);
          whole = takeWhile is_digit rest;
          tail = dropWhile is_digit rest
      in if whole = [] then None
         else if tail = [] then Some (negative, whole, [])
         else if hd tail = CHR ''.'' \<and> tl tail \<noteq> [] \<and> list_all is_digit (tl tail)
           then Some (negative, whole, tl tail)
         else None)"

definition majorStringToMinorUnits :: "string \<Rightarrow> string \<Rightarrow> money_error + int" where
  "majorStringToMinorUnits value currencyCode =
     (case getCurrency currencyCode of
        Inl e \<Rightarrow> Inl e
      | Inr currency \<Rightarrow>
          (case match_major value of
             None \<Rightarrow> Inl (Invalid_major value)
           | Some (negative, whole, fraction) \<Rightarrow>
               if exponent currency < length fraction
               then Inl (Too_many_decimals currencyCode (exponent currency))
               else
                 let paddedFraction = pad_end (exponent currency) CHR ''0'' fraction;
                     scale = 10 ^ exponent currency;
                     unsigned = int (digits_val whole) * scale + int (digits_val paddedFraction);
                     minor = (if negative then - unsigned else unsigned)
                 in if MAX_SAFE_INTEGER < minor \<or> minor < - MAX_SAFE_INTEGER
                    then Inl (Exceeds_safe_range value)
                    else Inr minor))"

definition is_minor_string :: "string \<Rightarrow> bool" where
  "is_minor_string s \<longleftrightarrow>
     (let rest = (if starts_with s ''-'' then drop 1 s else s)
      in rest \<noteq> [] \<and> list_all is_digit rest)"

definition minor_value :: "string \<Rightarrow> int" where
  "minor_value s =
     (if starts_with s ''-'' then - int (digits_val (drop 1 s)) else int (digits_val s))"

definition parseMinorUnits :: "string \<Rightarrow> money_error + int" where
  "parseMinorUnits decimalString =
     (if \<not> is_minor_string decimalString then Inl (Invalid_minor decimalString)
      else let exact = minor_value decimalString in
        if overflow_threshold \<le> \<bar>exact\<bar> then Inl (Invalid_minor decimalString)
        else if MAX_SAFE_INTEGER < \<bar>dbl exact\<bar> then Inl (Exceeds_safe_range decimalString)
        else Inr (dbl exact))"

definition serializeMinorUnits :: "rat \<Rightarrow> money_error + string" where
  "serializeMinorUnits minorAmount =
     (if minorAmount \<noteq> of_int \<lfloor>minorAmount\<rfloor> then Inl (Not_an_integer minorAmount)
      else Inr (show_int \<lfloor>minorAmount\<rfloor>))"

fun addMinorUnits_from :: "int \<Rightarrow> int list \<Rightarrow> money_error + int" where
  "addMinorUnits_from acc [] = Inr acc"
| "addMinorUnits_from acc (amount # amounts) =
     (let acc' = dbl (acc + amount) in
      if MAX_SAFE_INTEGER < \<bar>acc'\<bar> then Inl Addition_overflow
      else addMinorUnits_from acc' amounts)"

definition addMinorUnits :: "int list \<Rightarrow> money_error + int" where
  "addMinorUnits amounts = addMinorUnits_from 0 amounts"

definition subtractMinorUnits :: "int \<Rightarrow> int \<Rightarrow> money_error + int" where
  "subtractMinorUnits a b =
     (let result = dbl (a - b) in
      if MAX_SAFE_INTEGER < \<bar>result\<bar> then Inl Subtraction_overflow else Inr result)"

definition negateMinorUnits :: "int \<Rightarrow> int" where
  "negateMinorUnits amount = - amount"

section \<open>Balance check\<close>

record posting_sides =
  debitMinor :: int
  creditMinor :: int

record balance_report =
  balanced :: bool
  totalDebit :: int
  totalCredit :: int

fun validateBalance_from :: "int \<Rightarrow> int \<Rightarrow> posting_sides list \<Rightarrow> money_error + balance_report" where
  "validateBalance_from d c [] = Inr \<lparr>balanced = (d = c), totalDebit = d, totalCredit = c\<rparr>"
| "validateBalance_from d c (p # ps) =
     (if debitMinor p < 0 \<or> creditMinor p < 0 then Inl Negative_side
      else if 0 < debitMinor p \<and> 0 < creditMinor p then Inl Both_sides_positive
      else if debitMinor p = 0 \<and> creditMinor p = 0 then Inl Both_sides_zero
      else validateBalance_from (dbl (d + debitMinor p)) (dbl (c + creditMinor p)) ps)"

definition validateBalance :: "posting_sides list \<Rightarrow> money_error + balance_report" where
  "validateBalance postings = validateBalance_from 0 0 postings"

section \<open>Lemmas\<close>

text \<open>Strings of digits, with an optional minus sign in front.\<close>

lemma show_nat_is_minor: "is_minor_string (show_nat n)"
proof -
  have "\<not> starts_with (show_nat n) ''-''"
    using show_nat_digits [of "hd (show_nat n)" n]
    by (cases "show_nat n") (auto simp: is_digit_def)
  then show ?thesis
    by (auto simp: is_minor_string_def list_all_iff intro: show_nat_digits)
qed

lemma show_nat_no_sign: "\<not> starts_with (show_nat n) ''-''"
  using show_nat_digits [of "hd (show_nat n)" n]
  by (cases "show_nat n") (auto simp: is_digit_def)

lemma show_int_is_minor: "is_minor_string (show_int n)"
  using show_nat_is_minor [of "nat n"] show_nat_is_minor [of "nat (- n)"]
  by (auto simp: show_int_def is_minor_string_def show_nat_no_sign split: if_splits)

lemma minor_value_show_int [simp]: "minor_value (show_int n) = n"
  by (simp add: minor_value_def show_int_def show_nat_no_sign)

lemma safe_below_threshold: "\<bar>n\<bar> \<le> MAX_SAFE_INTEGER \<Longrightarrow> \<bar>n\<bar> < overflow_threshold"
proof -
  have "MAX_SAFE_INTEGER < overflow_threshold"
    by (simp add: MAX_SAFE_INTEGER_def overflow_threshold_def)
  then show "\<bar>n\<bar> \<le> MAX_SAFE_INTEGER \<Longrightarrow> \<bar>n\<bar> < overflow_threshold" by simp
qed

lemma parse_accepts:
  "parseMinorUnits s = Inr n \<longleftrightarrow>
     is_minor_string s \<and> minor_value s = n \<and> \<bar>n\<bar> \<le> MAX_SAFE_INTEGER"
  using safe_below_threshold [of "minor_value s"] dbl_unsafe_iff [of "minor_value s"]
    dbl_safe [of "minor_value s"]
  by (auto simp: parseMinorUnits_def Let_def split: if_splits)

lemma parse_show_int: "\<bar>n\<bar> \<le> MAX_SAFE_INTEGER \<Longrightarrow> parseMinorUnits (show_int n) = Inr n"
  by (simp add: parse_accepts show_int_is_minor)

lemma serialize_int [simp]: "serializeMinorUnits (of_int n) = Inr (show_int n)"
  by (simp add: serializeMinorUnits_def)

text \<open>The value of a matched major amount, as a rational number of major units.\<close>

definition major_value :: "bool \<times> string \<times> string \<Rightarrow> rat" where
  "major_value = (\<lambda>(negative, whole, fraction).
     (if negative then -1 else 1)
       * (of_nat (digits_val whole) + of_nat (digits_val fraction) / 10 ^ length fraction))"

lemma digits_val_pad_end:
  "length s \<le> n \<Longrightarrow> digits_val (pad_end n CHR ''0'' s) = digits_val s * 10 ^ (n - length s)"
  by (simp add: pad_end_def digits_val_append digits_val_replicate_zero)

lemma major_assembled:
  assumes "length fraction \<le> e"
  shows "(of_int (int (digits_val whole) * 10 ^ e
            + int (digits_val (pad_end e CHR ''0'' fraction))) :: rat)
         = (of_nat (digits_val whole) + of_nat (digits_val fraction) / 10 ^ length fraction) * 10 ^ e"
proof -
  have "(10::rat) ^ e = 10 ^ length fraction * 10 ^ (e - length fraction)"
    using assms by (simp flip: power_add)
  then show ?thesis
    using assms by (simp add: digits_val_pad_end distrib_right)
qed

lemma major_value_scaled:
  assumes "length fraction \<le> e"
  shows "major_value (negative, whole, fraction) * 10 ^ e
       = of_int ((if negative then -1 else 1)
           * (int (digits_val whole) * 10 ^ e + int (digits_val (pad_end e CHR ''0'' fraction))))"
  using major_assembled [OF assms, of whole] by (simp add: major_value_def)

lemma add_from_iff:
  "\<bar>acc\<bar> \<le> MAX_SAFE_INTEGER \<Longrightarrow>
   addMinorUnits_from acc xs = Inr t \<longleftrightarrow>
     t = acc + sum_list xs \<and>
     (\<forall>k \<le> length xs. \<bar>acc + sum_list (take k xs)\<bar> \<le> MAX_SAFE_INTEGER)"
proof (induction xs arbitrary: acc)
  case Nil
  then show ?case by auto
next
  case (Cons x xs)
  show ?case
  proof (cases "\<bar>acc + x\<bar> \<le> MAX_SAFE_INTEGER")
    case True
    with Cons.prems Cons.IH [of "acc + x"] show ?thesis
      by (simp add: dbl_safe all_le_Suc add.assoc)
  next
    case False
    then have "\<exists>k \<le> length (x # xs). \<not> \<bar>acc + sum_list (take k (x # xs))\<bar> \<le> MAX_SAFE_INTEGER"
      by (intro exI [of _ 1]) simp
    with False show ?thesis
      by (auto simp: Let_def dbl_unsafe_iff not_le)
  qed
qed

text \<open>Postings whose sides are as the ledger wants them: one side positive, the other zero.\<close>

definition one_sided :: "posting_sides \<Rightarrow> bool" where
  "one_sided p \<longleftrightarrow> 0 \<le> debitMinor p \<and> 0 \<le> creditMinor p \<and> (0 < debitMinor p) \<noteq> (0 < creditMinor p)"

lemma validate_from_total:
  "\<forall>p \<in> set ps. one_sided p \<Longrightarrow> 0 \<le> d \<Longrightarrow> 0 \<le> c \<Longrightarrow>
   d + (\<Sum>p\<leftarrow>ps. debitMinor p) \<le> 2 ^ 53 \<Longrightarrow> c + (\<Sum>p\<leftarrow>ps. creditMinor p) \<le> 2 ^ 53 \<Longrightarrow>
   validateBalance_from d c ps = Inr
     \<lparr>balanced = (d + (\<Sum>p\<leftarrow>ps. debitMinor p) = c + (\<Sum>p\<leftarrow>ps. creditMinor p)),
      totalDebit = d + (\<Sum>p\<leftarrow>ps. debitMinor p), totalCredit = c + (\<Sum>p\<leftarrow>ps. creditMinor p)\<rparr>"
proof (induction ps arbitrary: d c)
  case Nil
  then show ?case by simp
next
  case (Cons p ps)
  have nonneg: "0 \<le> (\<Sum>p\<leftarrow>ps. debitMinor p)" "0 \<le> (\<Sum>p\<leftarrow>ps. creditMinor p)"
    using Cons.prems(1) by (auto intro!: sum_list_nonneg simp: one_sided_def)
  have p: "0 \<le> debitMinor p" "0 \<le> creditMinor p" "one_sided p"
    using Cons.prems(1) by (auto simp: one_sided_def)
  have "dbl (d + debitMinor p) = d + debitMinor p" "dbl (c + creditMinor p) = c + creditMinor p"
    using Cons.prems nonneg p by (auto intro!: dbl_exact)
  moreover have "validateBalance_from (d + debitMinor p) (c + creditMinor p) ps = Inr
     \<lparr>balanced = (d + debitMinor p + (\<Sum>p\<leftarrow>ps. debitMinor p)
          = c + creditMinor p + (\<Sum>p\<leftarrow>ps. creditMinor p)),
      totalDebit = d + debitMinor p + (\<Sum>p\<leftarrow>ps. debitMinor p),
      totalCredit = c + creditMinor p + (\<Sum>p\<leftarrow>ps. creditMinor p)\<rparr>"
    using Cons.prems p by (intro Cons.IH) auto
  ultimately show ?case
    using p by (auto simp: one_sided_def add.assoc)
qed

lemma validate_ok_one_sided:
  "validateBalance_from d c ps = Inr r \<Longrightarrow> p \<in> set ps \<Longrightarrow> one_sided p"
  by (induction ps arbitrary: d c) (auto simp: one_sided_def split: if_splits)

section \<open>Properties\<close>

text \<open>
   The wire format of an amount round-trips: every integral amount in the safe range is
  serialised to a string that the parser accepts and reads back as the same amount.
\<close>

theorem minor_units_roundtrip:
  assumes "\<bar>n\<bar> \<le> MAX_SAFE_INTEGER"
  shows "\<exists>s. serializeMinorUnits (of_int n) = Inr s \<and> parseMinorUnits s = Inr n"
  using assms by (auto simp: parse_show_int)

theorem minor_units_roundtrip_witness:
  "\<exists>s. serializeMinorUnits (of_int (-125000)) = Inr s \<and> parseMinorUnits s = Inr (-125000)"
  by (rule minor_units_roundtrip) (simp add: MAX_SAFE_INTEGER_def)

text \<open>
   The wire parser accepts exactly the strings of an optional minus sign and decimal digits
  whose value is a safe integer, and returns that value: no rounding, no other notation.
\<close>

theorem parseMinorUnits_exact:
  "parseMinorUnits s = Inr n \<longleftrightarrow>
     is_minor_string s \<and> minor_value s = n \<and> \<bar>n\<bar> \<le> MAX_SAFE_INTEGER"
  by (rule parse_accepts)

text \<open>
  A user-entered major amount is converted exactly: the conversion succeeds with \<open>m\<close> if and
  only if the text is a decimal number with no more decimal places than the currency has, \<open>m\<close>
  minor units are precisely its value, and \<open>m\<close> is a safe integer. (The source avoids floating
  point on this path; this states that nothing is rounded.)
\<close>

theorem majorString_exact:
  assumes "getCurrency code = Inr cur"
  shows "majorStringToMinorUnits v code = Inr m \<longleftrightarrow>
     (\<exists>neg whole frac. match_major v = Some (neg, whole, frac) \<and> length frac \<le> exponent cur
        \<and> of_int m = major_value (neg, whole, frac) * 10 ^ exponent cur
        \<and> \<bar>m\<bar> \<le> MAX_SAFE_INTEGER)"
proof (cases "match_major v")
  case None
  with assms show ?thesis by (simp add: majorStringToMinorUnits_def)
next
  case (Some t)
  obtain neg whole frac where t: "t = (neg, whole, frac)" by (cases t)
  show ?thesis
  proof (cases "length frac \<le> exponent cur")
    case True
    define m0 where "m0 = (if neg then -1 else 1) * (int (digits_val whole) * 10 ^ exponent cur
      + int (digits_val (pad_end (exponent cur) CHR ''0'' frac)))"
    have scaled: "major_value (neg, whole, frac) * 10 ^ exponent cur = of_int m0"
      unfolding m0_def by (rule major_value_scaled [OF True])
    have "majorStringToMinorUnits v code =
      (if MAX_SAFE_INTEGER < m0 \<or> m0 < - MAX_SAFE_INTEGER then Inl (Exceeds_safe_range v) else Inr m0)"
      using assms Some t True by (simp add: majorStringToMinorUnits_def Let_def m0_def)
    with Some t True show ?thesis
      by (simp add: scaled abs_le_iff) linarith
  next
    case False
    with assms Some t show ?thesis by (simp add: majorStringToMinorUnits_def)
  qed
qed

theorem majorString_exact_witness:
  "majorStringToMinorUnits ''10.25'' ''SAR'' = Inr 1025"
proof -
  have cur: "getCurrency ''SAR'' = Inr (mk_currency ''SAR'' 2 ''Saudi Riyal'')"
    by code_simp
  have "match_major ''10.25'' = Some (False, ''10'', ''25'')" by code_simp
  then show ?thesis
    using majorString_exact [OF cur, of "''10.25''" 1025]
    by (auto simp: mk_currency_def MAX_SAFE_INTEGER_def major_value_def digits_val_def digit_val_def)
qed

text \<open>
  Checked addition is exact: it returns \<open>t\<close> if and only if \<open>t\<close> is the sum of the amounts
  and no partial sum left the safe range; otherwise it throws.
\<close>

theorem addMinorUnits_exact:
  "addMinorUnits xs = Inr t \<longleftrightarrow>
     t = sum_list xs \<and> (\<forall>k \<le> length xs. \<bar>sum_list (take k xs)\<bar> \<le> MAX_SAFE_INTEGER)"
  unfolding addMinorUnits_def by (subst add_from_iff) (simp_all add: MAX_SAFE_INTEGER_def)

theorem addMinorUnits_exact_witness:
  "addMinorUnits [1025, -25, 7] = Inr 1007"
  unfolding addMinorUnits_exact by (simp add: all_le_Suc MAX_SAFE_INTEGER_def)

text \<open>
  For postings whose debits and credits each total at most \<open>2 ^ 53\<close> minor units, the balance
  check accepts exactly the sets whose every posting is one-sided, reports the true totals, and
  says \<open>balanced\<close> exactly when debits equal credits.
\<close>

theorem validateBalance_correct:
  assumes "(\<Sum>p\<leftarrow>ps. debitMinor p) \<le> 2 ^ 53" and "(\<Sum>p\<leftarrow>ps. creditMinor p) \<le> 2 ^ 53"
  shows "validateBalance ps = Inr r \<longleftrightarrow>
     (\<forall>p \<in> set ps. one_sided p)
     \<and> totalDebit r = (\<Sum>p\<leftarrow>ps. debitMinor p) \<and> totalCredit r = (\<Sum>p\<leftarrow>ps. creditMinor p)
     \<and> balanced r = (totalDebit r = totalCredit r)"
proof (cases "\<forall>p \<in> set ps. one_sided p")
  case True
  with assms show ?thesis
    by (cases r) (auto simp: validateBalance_def validate_from_total)
next
  case False
  then show ?thesis
    using validate_ok_one_sided [of 0 0 ps r] by (auto simp: validateBalance_def)
qed

theorem validateBalance_correct_witness:
  "validateBalance [\<lparr>debitMinor = 500, creditMinor = 0\<rparr>, \<lparr>debitMinor = 0, creditMinor = 500\<rparr>]
     = Inr \<lparr>balanced = True, totalDebit = 500, totalCredit = 500\<rparr>"
  by (subst validateBalance_correct) (simp_all add: one_sided_def)

text \<open>
  Beyond that bound the check is wrong: its totals are plain \<open>number\<close> additions without the
  range test \<open>addMinorUnits\<close> makes, so these five postings of safe amounts, whose debits exceed
  their credits by one minor unit, are reported as balanced.
\<close>

theorem validateBalance_unsafe_totals:
  "\<exists>ps. list_all (\<lambda>p. one_sided p \<and> debitMinor p \<le> MAX_SAFE_INTEGER \<and> creditMinor p \<le> MAX_SAFE_INTEGER) ps
     \<and> (\<Sum>p\<leftarrow>ps. debitMinor p) = (\<Sum>p\<leftarrow>ps. creditMinor p) + 1
     \<and> (\<exists>r. validateBalance ps = Inr r \<and> balanced r)"
proof -
  let ?d = "\<lambda>n. \<lparr>debitMinor = n, creditMinor = 0\<rparr>"
  let ?c = "\<lambda>n. \<lparr>debitMinor = 0, creditMinor = n\<rparr>"
  let ?ps = "[?d 9007199254740991, ?d 1, ?d 1, ?c 9007199254740991, ?c 1]"
  have exact: "dbl 0 = 0" "dbl 9007199254740991 = 9007199254740991"
    "dbl 9007199254740992 = 9007199254740992" "dbl 1 = 1"
    by (simp_all add: dbl_exact)
  have rounded: "dbl 9007199254740993 = 9007199254740992"
    by (simp add: dbl_def dbl_nat_def compute_floorlog)
  have "validateBalance ?ps = Inr \<lparr>balanced = True, totalDebit = 9007199254740992,
      totalCredit = 9007199254740992\<rparr>"
    by (simp add: validateBalance_def exact rounded)
  then show ?thesis
    by (intro exI [of _ ?ps]) (simp add: one_sided_def MAX_SAFE_INTEGER_def)
qed

text \<open>
  The floating-point entry point \<open>toMinorUnits\<close> is exact on decimal input: when \<open>fl\<close> rounds to
  the nearest \<open>number\<close> (relative error at most \<open>2 ^ -53\<close>), the literal nearest to \<open>n\<close> minor
  units is converted to \<open>n\<close>, for every \<open>n\<close> below \<open>2 ^ 50\<close> in magnitude: the rounding removes the
  artefacts of the multiplication.
\<close>

theorem toMinorUnits_exact:
  assumes fl: "\<And>x. \<bar>fl x - x\<bar> \<le> \<bar>x\<bar> / 2 ^ 53"
    and cur: "getCurrency code = Inr cur"
    and n: "\<bar>n\<bar> < 2 ^ 50"
  shows "toMinorUnits fl (fl (of_int n / 10 ^ exponent cur)) code = Inr n"
proof -
  define s :: rat where "s = 10 ^ exponent cur"
  define x where "x = fl (of_int n / s)"
  have s: "0 < s" by (simp add: s_def)
  have "\<bar>x - of_int n / s\<bar> * s \<le> \<bar>of_int n / s\<bar> / 2 ^ 53 * s"
    unfolding x_def by (intro mult_right_mono fl) (use s in simp)
  moreover have "\<bar>x - of_int n / s\<bar> * s = \<bar>x * s - of_int n\<bar>"
    using s by (simp add: abs_mult_pos left_diff_distrib)
  moreover have "\<bar>of_int n / s\<bar> / 2 ^ 53 * s = \<bar>of_int n\<bar> / 2 ^ 53"
    using s by (simp add: abs_divide)
  ultimately have first: "\<bar>x * s - of_int n\<bar> \<le> \<bar>of_int n\<bar> / 2 ^ 53" by simp
  have "\<bar>of_int n :: rat\<bar> = of_int \<bar>n\<bar>" by simp
  also have "\<dots> < of_int (2 ^ 50)" using n by (simp only: of_int_less_iff)
  finally have N: "\<bar>of_int n :: rat\<bar> < 2 ^ 50" by simp
  have second: "\<bar>fl (x * s) - x * s\<bar> \<le> \<bar>x * s\<bar> / 2 ^ 53" by (rule fl)
  have "\<bar>fl (x * s) - of_int n\<bar> < 1 / 2"
    by (rule relative_errors_below_half [OF first second N])
  then have "math_round (fl (x * s)) = n" by (rule math_round_near)
  with cur show ?thesis by (simp add: toMinorUnits_def x_def s_def)
qed

theorem toMinorUnits_exact_witness:
  "toMinorUnits id (1025 / 100) ''USD'' = Inr 1025"
proof -
  have cur: "getCurrency ''USD'' = Inr (mk_currency ''USD'' 2 ''US Dollar'')" by code_simp
  from toMinorUnits_exact [of id, OF _ cur, of 1025] show ?thesis
    by (simp add: mk_currency_def)
qed

end
