(* ===== verification/Transactions.thy ===== *)
theory Transactions
  imports Categories Money
begin

text \<open>
  \<open>apps/api/src/transactions/transactions.service.ts\<close>, first half: building the balanced postings
  of a simple transaction and \<open>createTransaction\<close> with its idempotency rules. \<open>E\<close> is the source
  of UUIDs, hashes and the clock; \<open>uid\<close> the user of the access token; \<open>rules\<close> is the injected
  \<open>notifications.evaluateFinancialRules\<close>, whose exceptions the method swallows.
\<close>

section \<open>Requests and results\<close>

record create_transaction_dto =
  ct_type :: string
  ct_amount :: string
  ct_account_id :: string
  ct_category_id :: "string option"
  ct_transfer_to_account_id :: "string option"
  ct_occurred_at :: "string option"
  ct_payee :: "string option"
  ct_note :: "string option"
  ct_tags :: "string list"
  ct_idempotency_key :: string

record transaction_view =
  tv_entry :: journal_entry
  tv_postings :: "journal_posting list"

definition idempotency_hash :: "env \<Rightarrow> string \<Rightarrow> string \<Rightarrow> string" where
  "idempotency_hash E uid key = env_sha256 E (uid @ '':transactions:'' @ key)"

definition canonicalTagName :: "string \<Rightarrow> string" where
  "canonicalTagName name = js_lower (js_trim name)"

definition canonical_tags :: "string list \<Rightarrow> string list" where
  "canonical_tags names = js_unique [n \<leftarrow> map canonicalTagName names. n \<noteq> []]"

section \<open>Postings\<close>

definition posting ::
    "env \<Rightarrow> string \<Rightarrow> string \<Rightarrow> string \<Rightarrow> string \<Rightarrow> int \<Rightarrow> int \<Rightarrow> int \<Rightarrow> (db, journal_posting) api" where
  "posting E entryId ws currencyCode accountId debit credit amount =
     api_bind (randomUUID E) (\<lambda>i. api_return
       \<lparr>jp_id = i, jp_journal_entry_id = entryId, jp_workspace_id = ws,
        jp_ledger_account_id = accountId, jp_debit_minor = debit, jp_credit_minor = credit,
        jp_currency_code = currencyCode, jp_base_amount_minor = amount\<rparr>)"

definition buildPostings ::
    "env \<Rightarrow> string \<Rightarrow> string \<Rightarrow> string \<Rightarrow> int \<Rightarrow> string \<Rightarrow> string option \<Rightarrow> string option \<Rightarrow> string
      \<Rightarrow> (db, journal_posting list) api" where
  "buildPostings E entryId ws type amount accountId categoryAccountId transferToId currencyCode =
     (let post = posting E entryId ws currencyCode in
      if type = ''EXPENSE'' then
        (case categoryAccountId of
           None \<Rightarrow> api_throw (Bad_request ''CATEGORY_REQUIRED''
                     ''Category is required for expense transactions'')
         | Some c \<Rightarrow>
             api_bind (post accountId 0 amount amount) (\<lambda>p.
             api_bind (post c amount 0 amount) (\<lambda>q. api_return [p, q])))
      else if type = ''INCOME'' then
        (case categoryAccountId of
           None \<Rightarrow> api_throw (Bad_request ''CATEGORY_REQUIRED''
                     ''Category is required for income transactions'')
         | Some c \<Rightarrow>
             api_bind (post accountId amount 0 amount) (\<lambda>p.
             api_bind (post c 0 amount amount) (\<lambda>q. api_return [p, q])))
      else if type = ''TRANSFER'' then
        (case transferToId of
           None \<Rightarrow> api_throw (Bad_request ''DESTINATION_REQUIRED''
                     ''Destination account is required for transfers'')
         | Some t \<Rightarrow>
             api_bind (post accountId 0 amount amount) (\<lambda>p.
             api_bind (post t amount 0 amount) (\<lambda>q. api_return [p, q])))
      else api_throw (Bad_request ''INVALID_TYPE'' ''Invalid transaction type''))"

section \<open>Creation\<close>

definition existing_entries :: "string \<Rightarrow> string \<Rightarrow> string \<Rightarrow> db \<Rightarrow> journal_entry list" where
  "existing_entries uid ws key s =
     [e \<leftarrow> visible_entries uid s. je_workspace_id e = ws \<and> je_created_by e = uid
        \<and> je_client_entry_id e = key]"

definition winner_entries :: "string \<Rightarrow> string \<Rightarrow> db \<Rightarrow> journal_entry list" where
  "winner_entries uid h s =
     [e \<leftarrow> visible_entries uid s. je_created_by e = uid \<and> je_idempotency_key_hash e = Some h]"

definition entry_postings :: "string \<Rightarrow> string \<Rightarrow> db \<Rightarrow> journal_posting list" where
  "entry_postings uid eid s = [p \<leftarrow> visible_postings uid s. jp_journal_entry_id p = eid]"

definition with_postings :: "string \<Rightarrow> journal_entry \<Rightarrow> (db, transaction_view) api" where
  "with_postings uid e =
     api_bind (select (entry_postings uid (je_id e))) (\<lambda>r.
     api_return \<lparr>tv_entry = e, tv_postings = data_list r\<rparr>)"

definition parsed_amount :: "string \<Rightarrow> (db, int) api" where
  "parsed_amount s =
     (case parseMinorUnits s of
        Inl e \<Rightarrow> api_throw (Bad_request ''INVALID_AMOUNT''
                   ''Amount must be an integer string in minor units'')
      | Inr n \<Rightarrow>
          if n \<le> 0 then api_throw (Bad_request ''INVALID_AMOUNT'' ''Amount must be greater than zero'')
          else api_return n)"

definition occurred_at :: "env \<Rightarrow> create_transaction_dto \<Rightarrow> string" where
  "occurred_at E dto = (case truthy (ct_occurred_at dto) of None \<Rightarrow> env_now E | Some t \<Rightarrow> t)"

text \<open>
  The row of the insert. The column \<open>entry_type\<close> has a CHECK on the six known types, so an
  unknown type fails the statement.
\<close>

definition posted_entry ::
    "env \<Rightarrow> string \<Rightarrow> string \<Rightarrow> EntrySource \<Rightarrow> create_transaction_dto \<Rightarrow> string \<Rightarrow> EntryType \<Rightarrow> journal_entry" where
  "posted_entry E uid ws src dto entryId t =
     \<lparr>je_id = entryId, je_workspace_id = ws, je_entry_type = t, je_occurred_at = occurred_at E dto,
      je_local_date = hd (js_split (CHR ''T'') (occurred_at E dto)),
      je_payee = truthy (ct_payee dto), je_note = truthy (ct_note dto), je_status = POSTED,
      je_source = src, je_client_entry_id = ct_idempotency_key dto,
      je_idempotency_key_hash = Some (idempotency_hash E uid (ct_idempotency_key dto)),
      je_reverses_entry_id = None, je_created_by = uid, je_posted_at = Some (env_now E),
      je_version = 1\<rparr>"

definition insert_posted_entry ::
    "env \<Rightarrow> string \<Rightarrow> string \<Rightarrow> EntrySource \<Rightarrow> create_transaction_dto \<Rightarrow> string \<Rightarrow> db
      \<Rightarrow> pg_error + journal_entry \<times> db" where
  "insert_posted_entry E uid ws src dto entryId s =
     (case entry_type_of_string (ct_type dto) of
        None \<Rightarrow> Inl (pg CHECK_VIOLATION)
      | Some t \<Rightarrow> insert_entry uid (posted_entry E uid ws src dto entryId t) s)"

text \<open>The branch of a failed insert: on a unique violation the entry that won the race is the answer.\<close>

definition insert_failed ::
    "env \<Rightarrow> string \<Rightarrow> create_transaction_dto \<Rightarrow> pg_error \<Rightarrow> (db, transaction_view) api" where
  "insert_failed E uid dto err =
     (if pg_code err = UNIQUE_VIOLATION then
        api_bind (select_single (winner_entries uid (idempotency_hash E uid (ct_idempotency_key dto)))) (\<lambda>r.
        case data_of r of
          Some winner \<Rightarrow> with_postings uid winner
        | None \<Rightarrow> api_throw (Bad_request_plain ''Failed to create transaction''))
      else api_throw (Bad_request_plain ''Failed to create transaction''))"

definition tags_named :: "string \<Rightarrow> string \<Rightarrow> string list \<Rightarrow> db \<Rightarrow> tag list" where
  "tags_named uid ws names s =
     [t \<leftarrow> visible_tags uid s. tag_workspace_id t = ws \<and> tag_name t \<in> set names]"

definition new_tags :: "env \<Rightarrow> string \<Rightarrow> string list \<Rightarrow> (db, tag list) api" where
  "new_tags E ws names =
     api_map (\<lambda>n. api_bind (randomUUID E) (\<lambda>i.
       api_return \<lparr>tag_id = i, tag_workspace_id = ws, tag_name = n\<rparr>)) names"

definition tag_links :: "string \<Rightarrow> string \<Rightarrow> tag list \<Rightarrow> entry_tag list" where
  "tag_links eid ws ts =
     map (\<lambda>t. \<lparr>et_journal_entry_id = eid, et_workspace_id = ws, et_tag_id = tag_id t\<rparr>) ts"

text \<open>Errors of the three tag statements are logged only.\<close>

definition attach_tags ::
    "env \<Rightarrow> string \<Rightarrow> string \<Rightarrow> string \<Rightarrow> string list \<Rightarrow> (db, unit) api" where
  "attach_tags E uid ws entryId names =
     (if names = [] then api_return ()
      else
        api_bind (new_tags E ws (canonical_tags names)) (\<lambda>rows.
        api_bind (stmt (upsert_tags uid rows)) (\<lambda>_.
        api_bind (select (tags_named uid ws (canonical_tags names))) (\<lambda>r.
        if data_list r = [] then api_return ()
        else api_bind (stmt (insert_entry_tags uid (tag_links entryId ws (data_list r)))) (\<lambda>_.
             api_return ())))))"

definition account_rows :: "string \<Rightarrow> string \<Rightarrow> db \<Rightarrow> ledger_account list" where
  "account_rows uid aid s = [a \<leftarrow> visible_accounts uid s. la_id a = aid]"

definition category_account_id ::
    "string \<Rightarrow> string \<Rightarrow> create_transaction_dto \<Rightarrow> (db, string option) api" where
  "category_account_id uid ws dto =
     (case truthy (ct_category_id dto) of
        None \<Rightarrow> api_return None
      | Some c \<Rightarrow> api_bind (resolveLedgerAccountId c ws uid) (\<lambda>a. api_return (Some a)))"

definition post_entry ::
    "env \<Rightarrow> (db, unit) api \<Rightarrow> bool \<Rightarrow> string \<Rightarrow> string \<Rightarrow> create_transaction_dto \<Rightarrow> int \<Rightarrow> journal_entry
      \<Rightarrow> (db, transaction_view) api" where
  "post_entry E rules evaluate uid ws dto amount entry =
     api_bind (select_single (account_rows uid (ct_account_id dto))) (\<lambda>account.
     let currencyCode = (case data_of account of
           None \<Rightarrow> ''BDT'' | Some a \<Rightarrow> if la_currency_code a = [] then ''BDT'' else la_currency_code a) in
     api_bind (category_account_id uid ws dto) (\<lambda>categoryAccountId.
     api_bind (buildPostings E (je_id entry) ws (ct_type dto) amount (ct_account_id dto)
         categoryAccountId (truthy (ct_transfer_to_account_id dto)) currencyCode) (\<lambda>postings.
     api_bind (stmt (insert_postings uid postings)) (\<lambda>r.
     case r of
       Inl e \<Rightarrow>
         api_bind (stmt delete_denied) (\<lambda>_.
         api_throw (Bad_request_plain ''Failed to create transaction postings''))
     | Inr created \<Rightarrow>
         api_bind (attach_tags E uid ws (je_id entry) (ct_tags dto)) (\<lambda>_.
         api_bind (if evaluate then api_catch rules (\<lambda>e. api_return ()) else api_return ()) (\<lambda>_.
         api_return \<lparr>tv_entry = entry, tv_postings = created\<rparr>))))))"

definition createTransaction ::
    "env \<Rightarrow> (db, unit) api \<Rightarrow> EntrySource \<Rightarrow> bool \<Rightarrow> string \<Rightarrow> string \<Rightarrow> create_transaction_dto
      \<Rightarrow> (db, transaction_view) api" where
  "createTransaction E rules src evaluate ws uid dto =
     api_bind (parsed_amount (ct_amount dto)) (\<lambda>amount.
     api_bind (select_single (existing_entries uid ws (ct_idempotency_key dto))) (\<lambda>found.
     case data_of found of
       Some existing \<Rightarrow> with_postings uid existing
     | None \<Rightarrow>
         api_bind (randomUUID E) (\<lambda>entryId.
         api_bind (stmt (insert_posted_entry E uid ws src dto entryId)) (\<lambda>r.
         case r of
           Inl err \<Rightarrow> insert_failed E uid dto err
         | Inr entry \<Rightarrow> post_entry E rules evaluate uid ws dto amount entry))))"

section \<open>The ledger stays balanced\<close>

lemma yields_posting:
  "yields (\<lambda>p. jp_journal_entry_id p = eid \<and> jp_ledger_account_id p = a \<and> jp_debit_minor p = d
     \<and> jp_credit_minor p = c \<and> jp_workspace_id p = ws \<and> jp_currency_code p = cur)
     (posting E eid ws cur a d c n)"
  by (auto simp: posting_def yields_def api_bind_Inr api_return_def)

lemma two_sided_balanced:
  assumes "jp_journal_entry_id p = eid" "jp_journal_entry_id q = eid"
    "jp_debit_minor p + jp_debit_minor q = jp_credit_minor p + jp_credit_minor q"
  shows "balanced_batch [p, q]"
  using assms by (simp add: balanced_batch_def debits_of_def credits_of_def)

lemma yields_pair:
  "d1 + d2 = c1 + c2 \<Longrightarrow> yields balanced_batch
     (api_bind (posting E eid ws cur a d1 c1 n) (\<lambda>p.
      api_bind (posting E eid ws cur b d2 c2 n) (\<lambda>q. api_return [p, q])))"
  by (rule yields_bind [OF yields_posting], rule yields_bind [OF yields_posting],
      rule yields_return, rule two_sided_balanced [of _ eid]) auto

lemma yields_buildPostings:
  "yields balanced_batch (buildPostings E eid ws type amount a c t cur)"
  unfolding buildPostings_def Let_def by (intro yields_if yields_case_option yields_throw yields_pair) simp_all

lemma keeps_posting [keeps_intros]: "tables_only P \<Longrightarrow> keeps P (posting E eid ws cur a d c n)"
  by (auto simp: posting_def intro!: keeps_intros)

lemma keeps_buildPostings [keeps_intros]:
  "tables_only P \<Longrightarrow> keeps P (buildPostings E eid ws type amount a c t cur)"
  unfolding buildPostings_def Let_def by (intro keeps_intros)

lemma keeps_resolve [keeps_intros]: "tables_only P \<Longrightarrow> keeps P (resolveLedgerAccountId c ws uid)"
  by (auto simp: resolveLedgerAccountId_def intro!: keeps_intros)

lemma keeps_category_account_id [keeps_intros]:
  "tables_only P \<Longrightarrow> keeps P (category_account_id uid ws dto)"
  by (auto simp: category_account_id_def intro!: keeps_intros)

lemma keeps_parsed_amount [keeps_intros]: "keeps P (parsed_amount s)"
  by (auto simp: parsed_amount_def intro!: keeps_intros)

lemma keeps_with_postings [keeps_intros]: "tables_only P \<Longrightarrow> keeps P (with_postings uid e)"
  by (auto simp: with_postings_def intro!: keeps_intros)

lemma keeps_insert_failed [keeps_intros]: "tables_only P \<Longrightarrow> keeps P (insert_failed E uid dto err)"
  by (auto simp: insert_failed_def intro!: keeps_intros)

lemma keeps_new_tags [keeps_intros]: "tables_only P \<Longrightarrow> keeps P (new_tags E ws names)"
  by (auto simp: new_tags_def intro!: keeps_intros)

lemma keeps_attach_tags [keeps_intros]: "keeps ledger_ok (attach_tags E uid ws eid names)"
  by (auto simp: attach_tags_def intro!: keeps_intros)

lemma keeps_insert_posted_entry [keeps_intros]:
  "keeps ledger_ok (stmt (insert_posted_entry E uid ws src dto eid))"
  by (rule keeps_stmt)
    (auto simp: insert_posted_entry_def split: option.splits intro: insert_entry_ok)

lemma keeps_post_entry:
  assumes "keeps ledger_ok rules"
  shows "keeps ledger_ok (post_entry E rules evaluate uid ws dto amount entry)"
  unfolding post_entry_def Let_def
  by (intro keeps_bind_yields [OF _ yields_buildPostings] keeps_intros keeps_insert_postings
      assms tables_only_ledger) (simp_all add: keeps_intros)

lemma keeps_createTransaction:
  assumes "keeps ledger_ok rules"
  shows "keeps ledger_ok (createTransaction E rules src evaluate ws uid dto)"
  unfolding createTransaction_def
  by (intro keeps_intros keeps_post_entry assms tables_only_ledger)

section \<open>What a creation does to the ledger\<close>

text \<open>
  The specification of the accounting: the signed amounts (debit positive) a transaction of a type
  moves on its accounts.
\<close>

definition money_legs ::
    "string \<Rightarrow> string \<Rightarrow> string option \<Rightarrow> string option \<Rightarrow> int \<Rightarrow> (string \<times> int) list option" where
  "money_legs type acct cat to n =
     (if type = ''EXPENSE'' then map_option (\<lambda>c. [(acct, - n), (c, n)]) cat
      else if type = ''INCOME'' then map_option (\<lambda>c. [(acct, n), (c, - n)]) cat
      else if type = ''TRANSFER'' then map_option (\<lambda>t. [(acct, - n), (t, n)]) to
      else None)"

definition leg :: "journal_posting \<Rightarrow> string \<times> int" where
  "leg p = (jp_ledger_account_id p, jp_debit_minor p - jp_credit_minor p)"

lemma leg_derive [simp]: "leg (derive_workspace s p) = leg p"
  by (simp add: leg_def)

definition legs_of :: "string \<Rightarrow> (string \<times> int) list option \<Rightarrow> journal_posting list \<Rightarrow> bool" where
  "legs_of eid legs ps \<longleftrightarrow> legs = Some (map leg ps) \<and> list_all (\<lambda>p. jp_journal_entry_id p = eid) ps"

lemma legs_of_derive [simp]: "legs_of eid legs (map (derive_workspace s) ps) = legs_of eid legs ps"
  by (simp add: legs_of_def list_all_iff comp_def)

lemma yields_pair_legs:
  "legs = Some [(a, d1 - c1), (b, d2 - c2)] \<Longrightarrow> yields (legs_of eid legs)
     (api_bind (posting E eid ws cur a d1 c1 n) (\<lambda>p.
      api_bind (posting E eid ws cur b d2 c2 n) (\<lambda>q. api_return [p, q])))"
  by (rule yields_bind [OF yields_posting], rule yields_bind [OF yields_posting],
      rule yields_return) (simp add: legs_of_def leg_def)

lemma buildPostings_legs:
  "yields (legs_of eid (money_legs type a c t n)) (buildPostings E eid ws type n a c t cur)"
  unfolding buildPostings_def Let_def
  by (intro yields_if yields_case_option yields_throw yields_pair_legs) (simp_all add: money_legs_def)

lemma tables_attach_tags [keeps_intros]:
  "keeps (tables_are cs es ps) (attach_tags E uid ws eid names)"
  by (auto simp: attach_tags_def intro!: keeps_intros)

text \<open>The category a creation resolves, in the state \<open>s\<close>.\<close>

definition category_resolves ::
    "string \<Rightarrow> create_transaction_dto \<Rightarrow> category list \<Rightarrow> string option \<Rightarrow> bool" where
  "category_resolves ws dto cs a \<longleftrightarrow>
     (case truthy (ct_category_id dto) of
        None \<Rightarrow> a = None
      | Some c \<Rightarrow> list_ex (\<lambda>x. cat_id x = c \<and> cat_workspace_id x = Some ws
                        \<and> a = Some (cat_ledger_account_id x)) cs)"

lemma single_Inr: "single xs = Inr x \<longleftrightarrow> xs = [x]"
  by (auto simp: single_def split: list.splits)

lemma resolve_result:
  assumes "resolveLedgerAccountId c ws uid s = (Inr a, t)"
  shows "list_ex (\<lambda>x. cat_id x = c \<and> cat_workspace_id x = Some ws
           \<and> a = cat_ledger_account_id x) (categories s)"
proof -
  from assms obtain r u where sel0: "select_single (workspace_categories uid ws c) s = (Inr r, u)"
      and rest: "(case data_of r of None \<Rightarrow> api_throw (Not_found ''CATEGORY_NOT_FOUND''
           ''Category not found in this workspace'') | Some x \<Rightarrow>
             if cat_ledger_account_id x = [] then api_throw (Not_found ''CATEGORY_NOT_FOUND''
               ''Category not found in this workspace'') else api_return (cat_ledger_account_id x)) u = (Inr a, t)"
    unfolding resolveLedgerAccountId_def api_bind_Inr by blast
  from rest obtain x where r: "r = Inr x" and a: "a = cat_ledger_account_id x"
    by (cases r) (auto simp: data_of_def api_throw_def api_return_def split: if_splits)
  from sel0 r have sel: "select_single (workspace_categories uid ws c) s = (Inr (Inr x), u)" by simp
  from sel have "workspace_categories uid ws c (s\<lparr>faults := tl (faults s)\<rparr>) = [x]"
    unfolding select_single_def by (auto elim!: stmt_cases simp: single_Inr split: sum.splits)
  then have "x \<in> set (workspace_categories uid ws c (s\<lparr>faults := tl (faults s)\<rparr>))" by simp
  then show ?thesis
    using a by (auto simp: workspace_categories_def visible_categories_def list_ex_iff)
qed

lemma category_account_id_result:
  assumes "category_account_id uid ws dto s = (Inr a, t)"
  shows "category_resolves ws dto (categories s) a"
  using assms by (auto simp: category_account_id_def category_resolves_def api_bind_Inr api_return_def
      split: option.splits dest!: resolve_result)

lemma total_attach_tags: "total_call (attach_tags E uid ws eid names)"
  unfolding attach_tags_def new_tags_def by (intro total_intros)

lemma triple_category_account_id:
  "triple (tables_are cs es ps) (category_account_id uid ws dto)
     (\<lambda>a t. tables_are cs es ps t \<and> category_resolves ws dto cs a) (tables_are cs es ps)"
proof (rule tripleI)
  fix s
  assume P: "tables_are cs es ps s"
  obtain r t where m: "category_account_id uid ws dto s = (r, t)" by (cases "category_account_id uid ws dto s")
  have "tables_are cs es ps t"
    using keepsD [OF keeps_category_account_id [OF tables_only_are] P, of uid ws dto] by (simp add: m)
  then show "case category_account_id uid ws dto s of (Inl e, t) \<Rightarrow> tables_are cs es ps t
      | (Inr a, t) \<Rightarrow> tables_are cs es ps t \<and> category_resolves ws dto cs a"
    using category_account_id_result [of uid ws dto s] P
    by (auto simp: m tables_are_def split: sum.split)
qed

lemma triple_insert_postings:
  assumes "legs_of eid legs qs"
  shows "triple (tables_are cs es ps) (stmt (insert_postings uid qs))
     (\<lambda>r t. case r of Inl _ \<Rightarrow> tables_are cs es ps t
        | Inr created \<Rightarrow> tables_are cs es (ps @ created) t \<and> legs_of eid legs created) X"
  by (rule triple_weaken [OF triple_stmt [where P = "tables_are cs es ps" and X = X
        and Q = "\<lambda>r t. case r of Inl _ \<Rightarrow> tables_are cs es ps t
           | Inr created \<Rightarrow> tables_are cs es (ps @ created) t \<and> legs_of eid legs created"]])
    (use assms in \<open>auto simp: insert_postings_def Let_def tables_are_def split: if_splits sum.splits\<close>)

text \<open>The outcome of \<open>post_entry\<close>: the two legs of the transaction, or no posting at all.\<close>

definition posted ::
    "string \<Rightarrow> create_transaction_dto \<Rightarrow> int \<Rightarrow> category list \<Rightarrow> transaction_view \<Rightarrow> bool" where
  "posted ws dto n cs v \<longleftrightarrow>
     (\<exists>a. category_resolves ws dto cs a
        \<and> legs_of (je_id (tv_entry v)) (money_legs (ct_type dto) (ct_account_id dto) a
            (truthy (ct_transfer_to_account_id dto)) n) (tv_postings v))"

lemma triple_finish:
  assumes "ledger_silent rules"
  shows "triple (\<lambda>t. tables_are cs es ps t)
     (api_bind (attach_tags E uid ws eid names) (\<lambda>_.
      api_bind (if ev then api_catch rules (\<lambda>e. api_return ()) else api_return ()) (\<lambda>_. api_return v)))
     (\<lambda>w t. w = v \<and> tables_are cs es ps t) X"
proof -
  let ?r = "if ev then api_catch rules (\<lambda>e. api_return ()) else api_return ()"
  have "keeps (tables_are cs es ps) ?r"
    by (intro keeps_intros ledger_silent_keeps assms)
  moreover have "total_call ?r"
    by (intro total_intros)
  ultimately show ?thesis
    by (intro triple_bind [OF triple_keeps_total [OF tables_attach_tags total_attach_tags]]
        triple_bind [OF triple_keeps_total] triple_return) auto
qed

lemma triple_post_entry:
  assumes "ledger_silent rules"
  shows "triple (tables_are cs es ps) (post_entry E rules ev uid ws dto n e)
     (\<lambda>v t. tv_entry v = e \<and> posted ws dto n cs v \<and> tables_are cs es (ps @ tv_postings v) t)
     (tables_are cs es ps)"
proof -
  have fail: "triple (tables_are cs es ps)
      (api_bind (stmt delete_denied) (\<lambda>_. api_throw x)) Q (tables_are cs es ps)" for x Q
    by (rule triple_bind [OF triple_keeps [OF keeps_delete_denied]]) (auto intro: triple_throw)
  have works: "triple (\<lambda>t. tables_are cs es (ps @ created) t
        \<and> legs_of (je_id e) (money_legs (ct_type dto) (ct_account_id dto) a
            (truthy (ct_transfer_to_account_id dto)) n) created)
      (api_bind (attach_tags E uid ws (je_id e) (ct_tags dto)) (\<lambda>_.
       api_bind (if ev then api_catch rules (\<lambda>e. api_return ()) else api_return ()) (\<lambda>_.
       api_return \<lparr>tv_entry = e, tv_postings = created\<rparr>)))
      (\<lambda>v t. tv_entry v = e \<and> posted ws dto n cs v \<and> tables_are cs es (ps @ tv_postings v) t) X"
    if "category_resolves ws dto cs a" for a created X
    by (rule triple_assume, rule triple_weaken [OF triple_finish [OF assms]])
      (use that in \<open>auto simp: posted_def\<close>)
  show ?thesis
    unfolding post_entry_def Let_def
    apply (rule triple_bind [OF triple_keeps [OF keeps_select_single]], simp)
    apply (rule triple_bind [OF triple_category_account_id])
    apply (rule triple_assume)
    apply (rule triple_bind [OF triple_keeps_yields [OF keeps_buildPostings buildPostings_legs]], simp)
    apply (rule triple_assume)
    apply (rule triple_bind [OF triple_insert_postings], assumption)
    apply (rule triple_case_sum; hypsubst; simp only: sum.case)
     apply (rule fail)
    apply (erule works)
    done
qed

text \<open>A replay: an entry of the user under the same key, and the tables as they were.\<close>

definition replayed ::
    "env \<Rightarrow> string \<Rightarrow> create_transaction_dto \<Rightarrow> journal_entry list \<Rightarrow> journal_entry \<Rightarrow> bool" where
  "replayed E uid dto es e \<longleftrightarrow> e \<in> set es \<and> je_created_by e = uid
     \<and> (je_client_entry_id e = ct_idempotency_key dto
         \<or> je_idempotency_key_hash e = Some (idempotency_hash E uid (ct_idempotency_key dto)))"

lemma winner_replayed:
  assumes "tables_are cs es ps s"
    and "winner_entries uid (idempotency_hash E uid (ct_idempotency_key dto)) s = [x]"
  shows "replayed E uid dto es x"
proof -
  have "x \<in> set (winner_entries uid (idempotency_hash E uid (ct_idempotency_key dto)) s)"
    by (simp add: assms(2))
  then show ?thesis
    using assms(1) by (simp add: winner_entries_def visible_entries_def tables_are_def replayed_def)
qed

lemma existing_replayed:
  assumes "tables_are cs es ps s" and "existing_entries uid ws (ct_idempotency_key dto) s = [x]"
  shows "replayed E uid dto es x"
proof -
  have "x \<in> set (existing_entries uid ws (ct_idempotency_key dto) s)"
    by (simp add: assms(2))
  then show ?thesis
    using assms(1) by (simp add: existing_entries_def visible_entries_def tables_are_def replayed_def)
qed

lemma triple_select_single:
  assumes "tables_only P" and "\<And>s x. P s \<Longrightarrow> q s = [x] \<Longrightarrow> R x"
  shows "triple P (select_single q) (\<lambda>r t. P t \<and> (\<forall>x. data_of r = Some x \<longrightarrow> R x)) X"
proof (rule tripleI)
  fix s
  assume P: "P s"
  obtain r t where st: "select_single q s = (r, t)" by (cases "select_single q s")
  have "P t" using keepsD [OF keeps_select_single [OF assms(1)] P, of q] by (simp add: st)
  moreover have "R x" if "r = Inr (Inr x)" for x
  proof (rule assms(2))
    show "P (s\<lparr>faults := tl (faults s)\<rparr>)" using assms(1) P by (simp add: tables_only_def)
    show "q (s\<lparr>faults := tl (faults s)\<rparr>) = [x]"
      using st that unfolding select_single_def
      by (auto elim!: stmt_cases simp: single_Inr split: sum.splits)
  qed
  moreover have "\<exists>y. r = Inr y"
    using st unfolding select_single_def by (auto elim: stmt_cases)
  ultimately show "case select_single q s of (Inl e, t) \<Rightarrow> X t
      | (Inr r, t) \<Rightarrow> P t \<and> (\<forall>x. data_of r = Some x \<longrightarrow> R x)"
    by (auto simp: st data_of_def split: sum.splits)
qed

lemma triple_with_postings:
  "triple P (with_postings uid e) (\<lambda>v t. P t \<and> tv_entry v = e) X" if "tables_only P"
  unfolding with_postings_def
  by (rule triple_bind [OF triple_keeps_total [OF keeps_select [OF that] total_select(1)]])
    (auto intro: triple_return)

lemma triple_insert_failed:
  "triple (tables_are cs es ps) (insert_failed E uid dto err)
     (\<lambda>v t. tables_are cs es ps t \<and> replayed E uid dto es (tv_entry v)) (tables_are cs es ps)"
  unfolding insert_failed_def
proof (intro triple_if)
  let ?P = "tables_are cs es ps"
  show "triple ?P (api_bind (select_single (winner_entries uid (idempotency_hash E uid (ct_idempotency_key dto))))
      (\<lambda>r. case data_of r of None \<Rightarrow> api_throw (Bad_request_plain ''Failed to create transaction'')
         | Some winner \<Rightarrow> with_postings uid winner))
      (\<lambda>v t. ?P t \<and> replayed E uid dto es (tv_entry v)) ?P"
    apply (rule triple_bind [OF triple_select_single [where R = "replayed E uid dto es"]], simp)
     apply (erule (1) winner_replayed)
    apply (rule triple_assume)
    apply (rule triple_case_option)
     apply (rule triple_throw, simp)
    apply (rule triple_weaken [OF triple_with_postings [OF tables_only_are]])
       apply auto
    done
qed (auto intro: triple_throw)

definition new_entry ::
    "env \<Rightarrow> string \<Rightarrow> string \<Rightarrow> EntrySource \<Rightarrow> create_transaction_dto \<Rightarrow> journal_entry \<Rightarrow> bool" where
  "new_entry E uid ws src dto e \<longleftrightarrow>
     (case entry_type_of_string (ct_type dto) of
        None \<Rightarrow> False | Some t \<Rightarrow> e = posted_entry E uid ws src dto (je_id e) t)"

lemma triple_insert_posted_entry:
  "triple (tables_are cs es ps) (stmt (insert_posted_entry E uid ws src dto eid))
     (\<lambda>r t. case r of Inl _ \<Rightarrow> tables_are cs es ps t
        | Inr e \<Rightarrow> tables_are cs (es @ [e]) ps t \<and> new_entry E uid ws src dto e) X"
  by (rule triple_weaken [OF triple_stmt [where P = "tables_are cs es ps" and X = X
        and Q = "\<lambda>r t. case r of Inl _ \<Rightarrow> tables_are cs es ps t
           | Inr e \<Rightarrow> tables_are cs (es @ [e]) ps t \<and> new_entry E uid ws src dto e"]])
    (auto simp: insert_posted_entry_def insert_entry_def tables_are_def new_entry_def posted_entry_def
      split: if_splits option.splits sum.splits)

definition create_returned ::
    "env \<Rightarrow> EntrySource \<Rightarrow> string \<Rightarrow> string \<Rightarrow> create_transaction_dto \<Rightarrow> db \<Rightarrow> transaction_view \<Rightarrow> db \<Rightarrow> bool" where
  "create_returned E src ws uid dto s v t \<longleftrightarrow>
     same_ledger s t \<and> replayed E uid dto (journal_entries s) (tv_entry v)
   \<or> journal_entries t = journal_entries s @ [tv_entry v]
     \<and> journal_postings t = journal_postings s @ tv_postings v
     \<and> new_entry E uid ws src dto (tv_entry v)
     \<and> 0 < minor_value (ct_amount dto)
     \<and> posted ws dto (minor_value (ct_amount dto)) (categories s) v"

definition create_threw :: "db \<Rightarrow> db \<Rightarrow> bool" where
  "create_threw s t \<longleftrightarrow> journal_postings t = journal_postings s
     \<and> (journal_entries t = journal_entries s \<or> (\<exists>e. journal_entries t = journal_entries s @ [e]))"

lemma triple_parsed_amount:
  "triple P (parsed_amount a) (\<lambda>n s. P s \<and> 0 < n \<and> minor_value a = n) P"
  by (rule triple_weaken [OF triple_keeps_yields [OF keeps_parsed_amount, where Q = "\<lambda>n. 0 < n \<and> minor_value a = n"]])
    (auto simp: parsed_amount_def yields_def api_throw_def api_return_def parse_accepts
      split: sum.splits if_splits)

lemma triple_createTransaction:
  assumes "ledger_silent rules"
  shows "triple (\<lambda>t. t = s) (createTransaction E rules src ev ws uid dto)
     (create_returned E src ws uid dto s) (create_threw s)"
proof -
  let ?P = "tables_are (categories s) (journal_entries s) (journal_postings s)"
  let ?Q = "create_returned E src ws uid dto s"
  have replay: "triple (\<lambda>t. ?P t \<and> (\<forall>x. data_of r = Some x \<longrightarrow> replayed E uid dto (journal_entries s) x))
      (with_postings uid x) ?Q (create_threw s)" if "data_of r = Some x" for r x
    by (rule triple_assume, rule triple_weaken [OF triple_with_postings [OF tables_only_are]])
      (use that in \<open>auto simp: create_returned_def same_ledger_def tables_are_def create_threw_def\<close>)
  have lost: "triple ?P (insert_failed E uid dto err) ?Q (create_threw s)" for err
    by (rule triple_weaken [OF triple_insert_failed])
      (auto simp: create_returned_def same_ledger_def tables_are_def create_threw_def)
  have won: "triple (\<lambda>t. tables_are (categories s) (journal_entries s @ [e]) (journal_postings s) t
        \<and> new_entry E uid ws src dto e) (post_entry E rules ev uid ws dto n e) ?Q (create_threw s)"
    if "0 < n \<and> minor_value (ct_amount dto) = n" for n e
    by (rule triple_assume, rule triple_weaken [OF triple_post_entry [OF assms]])
      (use that in \<open>auto simp: create_returned_def tables_are_def create_threw_def\<close>)
  have P: "triple ?P (createTransaction E rules src ev ws uid dto) ?Q (create_threw s)"
    unfolding createTransaction_def
    apply (rule triple_bind)
     apply (rule triple_weaken [OF triple_parsed_amount])
       apply assumption
      apply assumption
     apply (simp add: tables_are_def create_threw_def)
    apply (rule triple_assume)
    apply (rule triple_bind)
     apply (rule triple_select_single [where R = "replayed E uid dto (journal_entries s)"])
      apply simp
     apply (erule (1) existing_replayed)
    apply (rule triple_case_option)
     apply (rule triple_weaken [where P' = ?P])
        apply (rule triple_bind [OF triple_keeps_total [OF keeps_randomUUID total_randomUUID]])
         apply simp
        apply (rule triple_bind [OF triple_insert_posted_entry])
        apply (rule triple_case_sum; hypsubst; simp only: sum.case)
         apply (rule lost)
        apply (erule won)
       apply simp
      apply assumption
     apply assumption
    apply (erule replay)
    done
  show ?thesis
    by (rule triple_weaken [OF P]) (simp_all add: tables_are_def)
qed

section \<open>Properties of creation\<close>

text \<open>
  C18. Creating a transaction preserves the well-formedness of the ledger (unique keys, one-sided
  postings in the workspace of their entry) and keeps every entry balanced, for every request,
  every starting state and every schedule of statement failures, whether it returns or throws.
\<close>

theorem createTransaction_keeps_ledger:
  assumes "ledger_silent rules" and "ledger_ok s"
  shows "ledger_ok (snd (createTransaction E rules src evaluate ws uid dto s))"
  by (rule keepsD [OF keeps_createTransaction [OF ledger_silent_ok [OF assms(1)]] assms(2)])

lemma create_effect:
  assumes "ledger_silent rules"
    and "createTransaction E rules src ev ws uid dto s = (r, t)"
  shows "case r of Inl e \<Rightarrow> create_threw s t | Inr v \<Rightarrow> create_returned E src ws uid dto s v t"
  using triple_createTransaction [OF assms(1), of s E src ev ws uid dto] assms(2)
  by (auto simp: triple_def)

text \<open>
  C17. What a creation does, under every schedule of statement failures. If it returns, either
  nothing was written and the result is an entry of the user under the same key, or exactly one
  POSTED entry with the request's fields was added together with exactly its two postings, whose
  signed amounts are the legs of the transaction type on the chosen account and the account behind
  the chosen category of this workspace. If it throws, no posting was written and at most the bare
  entry was.
\<close>

theorem createTransaction_effect:
  assumes "ledger_silent rules"
    and "createTransaction E rules src ev ws uid dto s = (r, t)"
  shows "case r of Inl e \<Rightarrow> create_threw s t | Inr v \<Rightarrow> create_returned E src ws uid dto s v t"
  by (rule create_effect [OF assms])

text \<open>The entry of a key, once it exists.\<close>

definition entry_of_key :: "env \<Rightarrow> string \<Rightarrow> string \<Rightarrow> string \<Rightarrow> journal_entry \<Rightarrow> bool" where
  "entry_of_key E ws uid key e \<longleftrightarrow> je_workspace_id e = ws \<and> je_created_by e = uid
     \<and> je_client_entry_id e = key \<and> je_idempotency_key_hash e = Some (idempotency_hash E uid key)"

lemma new_entry_of_key:
  "new_entry E uid ws src dto e \<Longrightarrow> entry_of_key E ws uid (ct_idempotency_key dto) e"
  unfolding new_entry_def by (cases "entry_type_of_string (ct_type dto)")
    (simp_all, metis entry_of_key_def posted_entry_def journal_entry.select_convs)

lemma insert_duplicate_fails:
  assumes "entry_of_key E ws uid (ct_idempotency_key dto) e" "e \<in> set (journal_entries s)"
  shows "insert_posted_entry E uid ws src dto eid s \<noteq> Inr (x, t)"
  using assms
  by (auto simp: insert_posted_entry_def insert_entry_def entry_of_key_def posted_entry_def
      entry_conflicts_def list_ex_iff split: option.splits)

lemma existing_is_entry:
  assumes "entry_of_key E ws uid key e" "e \<in> set (journal_entries s)"
    and "existing_entries uid ws key s = [x]"
  shows "x = e"
proof -
  have x: "set (existing_entries uid ws key s) = {x}" using assms(3) by simp
  then have "is_member uid s ws" by (auto simp: existing_entries_def visible_entries_def)
  then have "e \<in> set (existing_entries uid ws key s)"
    using assms(1,2) by (auto simp: existing_entries_def visible_entries_def entry_of_key_def)
  then show ?thesis using x by simp
qed

lemma winner_is_entry:
  assumes "entry_of_key E ws uid key e" "e \<in> set (journal_entries s)" "entries_unique (journal_entries s)"
    and "winner_entries uid (idempotency_hash E uid key) s = [x]"
  shows "x = e"
proof (rule entries_unique_key [OF assms(3)])
  have "x \<in> set (winner_entries uid (idempotency_hash E uid key) s)" using assms(4) by simp
  then show "x \<in> set (journal_entries s)" "je_created_by x = je_created_by e"
      "je_idempotency_key_hash x = Some (idempotency_hash E uid key)"
    using assms(1) by (auto simp: winner_entries_def visible_entries_def entry_of_key_def)
qed (use assms in \<open>auto simp: entry_of_key_def\<close>)

lemma triple_resubmission:
  assumes key: "entry_of_key E ws uid (ct_idempotency_key dto) e"
    and mem: "e \<in> set es" and uniq: "entries_unique es"
  shows "triple (tables_are cs es ps) (createTransaction E rules src ev ws uid dto)
     (\<lambda>v t. tables_are cs es ps t \<and> tv_entry v = e) (tables_are cs es ps)"
proof -
  let ?P = "tables_are cs es ps"
  let ?Q = "\<lambda>v t. ?P t \<and> tv_entry v = e"
  have answer: "triple (\<lambda>t. ?P t \<and> (\<forall>x. data_of r = Some x \<longrightarrow> x = e)) (with_postings uid x) ?Q ?P"
    if "data_of r = Some x" for r x
    by (rule triple_assume, rule triple_weaken [OF triple_with_postings [OF tables_only_are]])
      (use that in auto)
  have win: "x = e" if "?P s" "winner_entries uid (idempotency_hash E uid (ct_idempotency_key dto)) s = [x]"
    for s x
    using winner_is_entry [OF key _ _ that(2)] that(1) mem uniq by (simp add: tables_are_def)
  have old: "x = e" if "?P s" "existing_entries uid ws (ct_idempotency_key dto) s = [x]" for s x
    using existing_is_entry [OF key _ that(2)] that(1) mem by (simp add: tables_are_def)
  have lost: "triple ?P (insert_failed E uid dto err) ?Q ?P" for err
    unfolding insert_failed_def
    apply (intro triple_if)
     apply (rule triple_bind)
      apply (rule triple_select_single [where R = "\<lambda>x. x = e", OF tables_only_are win], assumption+)
     apply (rule triple_case_option)
      apply (rule triple_throw, simp)
     apply (rule answer, assumption)
    apply (rule triple_throw, assumption)
    done
  have insert: "triple ?P (stmt (insert_posted_entry E uid ws src dto eid))
      (\<lambda>r t. ?P t \<and> isl r) ?P" for eid
    by (rule triple_weaken [OF triple_stmt [where P = ?P and X = ?P and Q = "\<lambda>r t. ?P t \<and> isl r"]])
      (use insert_duplicate_fails [OF key] mem in \<open>auto simp: tables_are_def isl_map_sum\<close>)
  have rest: "triple (\<lambda>t. ?P t \<and> isl r) (case r of Inl err \<Rightarrow> insert_failed E uid dto err
      | Inr entry \<Rightarrow> post_entry E rules ev uid ws dto n entry) ?Q ?P" for r n
    by (rule triple_assume) (auto simp: isl_def intro: lost)
  show ?thesis
    unfolding createTransaction_def
    apply (rule triple_bind)
     apply (rule triple_weaken [OF triple_parsed_amount])
       apply assumption
      apply assumption
     apply assumption
    apply (rule triple_assume)
    apply (rule triple_bind)
     apply (rule triple_select_single [where R = "\<lambda>x. x = e", OF tables_only_are old], assumption+)
    apply (rule triple_case_option)
     apply (rule triple_weaken [where P' = ?P])
        apply (rule triple_bind [OF triple_keeps_total [OF keeps_randomUUID total_randomUUID]])
         apply simp
        apply (rule triple_bind [OF insert])
        apply (rule rest)
       apply simp
      apply assumption
     apply assumption
    apply (rule answer, assumption)
    done
qed

text \<open>
  C19. Idempotency: once the entry of a key exists, submitting any request under that key again
  never writes to the ledger, whatever fails and whatever else happened in between, and a
  submission that returns always returns that entry. A retry cannot post a transaction twice.
\<close>

theorem resubmission_is_idempotent:
  assumes "ledger_ok s" and "e \<in> set (journal_entries s)"
    and "entry_of_key E ws uid (ct_idempotency_key dto) e"
    and "createTransaction E rules src ev ws uid dto s = (r, t)"
  shows "same_ledger s t \<and> (\<forall>v. r = Inr v \<longrightarrow> tv_entry v = e)"
proof -
  have u: "entries_unique (journal_entries s)" using assms(1) by (simp add: ledger_ok_def ledger_wf_def)
  note tr = triple_resubmission [OF assms(3,2) u, of "categories s" "journal_postings s" rules src ev]
  show ?thesis
    using tr tables_are_self [of s] assms(4)
    by (cases r) (auto simp: triple_def tables_are_def same_ledger_def)
qed

end
