(* ===== verification/Demo.thy ===== *)
theory Demo
  imports Ledger
begin

text \<open>
  A small concrete database the witnesses use: one user with two workspaces, a cash and a bank
  account, a food category with its account. No rows in the journal.
\<close>

definition demo_env :: env where
  "demo_env = \<lparr>env_uuid = (\<lambda>n. CHR ''u'' # show_nat n), env_sha256 = (\<lambda>x. x),
     env_now = ''2026-08-01T12:00:00.000Z''\<rparr>"

definition demo_account :: "string \<Rightarrow> AccountClass \<Rightarrow> AccountSubtype \<Rightarrow> ledger_account" where
  "demo_account i c st = \<lparr>la_id = i, la_workspace_id = ''w1'', la_name = i, la_class = c,
     la_subtype = st, la_currency_code = ''BDT'', la_normal_balance = ACCOUNT_CLASS_NORMAL_BALANCE c,
     la_include_in_budget = True, la_include_in_net_worth = True, la_opening_date = None,
     la_archived_at = None, la_deleted_at = None, la_created_by = ''u1'', la_version = 1\<rparr>"

definition demo_category :: category where
  "demo_category = \<lparr>cat_id = ''food'', cat_workspace_id = Some ''w1'',
     cat_ledger_account_id = ''acc-food'', cat_kind = CK_EXPENSE, cat_parent_id = None,
     cat_translation_key = None, cat_custom_name = Some ''Food'', cat_icon = [127829],
     cat_color = ''#f59e0b'', cat_sort_order = 0, cat_archived_at = None, cat_deleted_at = None\<rparr>"

definition demo_db :: db where
  "demo_db = empty_db\<lparr>
     workspaces := [\<lparr>ws_id = ''w1'', ws_name = ''Home'', ws_base_currency = ''BDT'',
         ws_timezone = ''Asia/Dhaka'', ws_created_by = ''u1'', ws_status = WS_ACTIVE\<rparr>,
       \<lparr>ws_id = ''w2'', ws_name = ''Shop'', ws_base_currency = ''BDT'',
         ws_timezone = ''Asia/Dhaka'', ws_created_by = ''u1'', ws_status = WS_ACTIVE\<rparr>],
     members := [\<lparr>mb_workspace_id = ''w1'', mb_user_id = ''u1'', mb_status = MEMBER_ACTIVE\<rparr>,
       \<lparr>mb_workspace_id = ''w2'', mb_user_id = ''u1'', mb_status = MEMBER_ACTIVE\<rparr>],
     ledger_accounts := [demo_account ''cash'' ASSET CASH, demo_account ''bank'' ASSET BANK,
       demo_account ''acc-food'' EXPENSE CATEGORY],
     categories := [demo_category]\<rparr>"

lemmas demo_defs = demo_env_def demo_account_def demo_category_def demo_db_def empty_db_def

lemma inj_show_nat: "inj show_nat"
  by (metis injI digits_val_show_nat)

lemma inj_demo_uuid: "inj (env_uuid demo_env)"
  using inj_show_nat by (simp add: demo_env_def inj_def)

lemma demo_tables [simp]:
  "journal_entries demo_db = []" "journal_postings demo_db = []" "faults demo_db = []"
  "uuids demo_db = 0" "tags demo_db = []" "entry_tags demo_db = []"
  by (simp_all add: demo_db_def empty_db_def)

lemma demo_ledger_ok [simp]: "ledger_ok demo_db"
  by (simp add: ledger_ok_def ledger_wf_def ledger_balanced_def balanced_batch_def entries_unique_def)

lemma demo_member [simp]: "is_member ''u1'' demo_db ''w1''" "is_member ''u1'' demo_db ''w2''"
  by (simp_all add: is_member_def demo_db_def empty_db_def)

text \<open>The same database after an expense of 12.50 under the key \<open>k1\<close>.\<close>

definition demo_entry :: journal_entry where
  "demo_entry = \<lparr>je_id = ''e1'', je_workspace_id = ''w1'', je_entry_type = ET_EXPENSE,
     je_occurred_at = ''2026-08-01T12:00:00.000Z'', je_local_date = ''2026-08-01'', je_payee = None,
     je_note = None, je_status = POSTED, je_source = MANUAL, je_client_entry_id = ''k1'',
     je_idempotency_key_hash = Some ''u1:transactions:k1'', je_reverses_entry_id = None,
     je_created_by = ''u1'', je_posted_at = Some ''2026-08-01T12:00:00.000Z'', je_version = 1\<rparr>"

definition demo_posting :: "string \<Rightarrow> string \<Rightarrow> int \<Rightarrow> int \<Rightarrow> journal_posting" where
  "demo_posting i a d c = \<lparr>jp_id = i, jp_journal_entry_id = ''e1'', jp_workspace_id = ''w1'',
     jp_ledger_account_id = a, jp_debit_minor = d, jp_credit_minor = c, jp_currency_code = ''BDT'',
     jp_base_amount_minor = max d c\<rparr>"

definition demo_posted :: db where
  "demo_posted = demo_db\<lparr>journal_entries := [demo_entry],
     journal_postings := [demo_posting ''p1'' ''cash'' 0 1250, demo_posting ''p2'' ''acc-food'' 1250 0]\<rparr>"

lemma demo_posted_ok [simp]: "ledger_ok demo_posted"
  by (simp add: ledger_ok_def ledger_wf_def ledger_balanced_def balanced_batch_def entries_unique_def
      demo_posted_def demo_posting_def demo_entry_def posting_ok_def debits_of_def credits_of_def)

lemma demo_posted_tables [simp]:
  "journal_entries demo_posted = [demo_entry]" "faults demo_posted = []" "uuids demo_posted = 0"
  "members demo_posted = members demo_db" "ledger_accounts demo_posted = ledger_accounts demo_db"
  "categories demo_posted = categories demo_db" "tags demo_posted = []" "entry_tags demo_posted = []"
  by (simp_all add: demo_posted_def)

lemma demo_posted_member [simp]: "is_member ''u1'' demo_posted ''w1''" "is_member ''u1'' demo_posted ''w2''"
  using demo_member by (simp_all add: is_member_def)

end
