(* ===== verification/Pagination.thy ===== *)
theory Pagination
  imports Domain "HOL-Library.List_Lexorder" "HOL-Library.Char_ord"
begin

text \<open>
  The contract of a cursor-paginated list and what a client gets by following its cursors. A page
  is the first \<open>limit\<close> of the rows whose key lies before the cursor, newest first, and the cursor
  of a full page is the key of its last row.
\<close>

definition before :: "'k::linorder option \<Rightarrow> 'k \<Rightarrow> bool" where
  "before c k \<longleftrightarrow> (case c of None \<Rightarrow> True | Some x \<Rightarrow> k < x)"

text \<open>A client that asks for at most \<open>n\<close> pages.\<close>

fun follow :: "('k option \<Rightarrow> 'a list \<times> 'k option) \<Rightarrow> nat \<Rightarrow> 'k option \<Rightarrow> 'a list" where
  "follow page 0 c = []"
| "follow page (Suc n) c =
     (case page c of (xs, None) \<Rightarrow> xs | (xs, Some k) \<Rightarrow> xs @ follow page n (Some k))"

lemma filter_drop:
  "(\<And>r. r \<in> set (take n xs) \<Longrightarrow> \<not> P r) \<Longrightarrow> (\<And>r. r \<in> set (drop n xs) \<Longrightarrow> P r) \<Longrightarrow>
     filter P xs = drop n xs"
  by (metis append_Nil append_take_drop_id filter_False filter_True filter_append)

locale keyset_pages =
  fixes rows :: "'a list"
    and key :: "'a \<Rightarrow> 'k::linorder"
    and limit :: nat
    and page :: "'k option \<Rightarrow> 'a list \<times> 'k option"
  assumes limit_pos: "0 < limit"
    and rows_sorted: "sorted_wrt (\<lambda>a b. key b \<le> key a) rows"
    and page_items: "fst (page c) = take limit [r \<leftarrow> rows. before c (key r)]"
    and page_cursor: "snd (page c) =
          (if limit < length [r \<leftarrow> rows. before c (key r)] then Some (key (last (fst (page c)))) else None)"
begin

lemma follow_sound: "set (follow page n c) \<subseteq> {r \<in> set rows. before c (key r)}"
proof (induction n arbitrary: c)
  case (Suc n)
  obtain xs k where p: "page c = (xs, k)" by (cases "page c")
  have xs: "set xs \<subseteq> {r \<in> set rows. before c (key r)}"
    using page_items [of c] p by (auto dest: in_set_takeD)
  show ?case
  proof (cases k)
    case (Some x)
    then have "snd (page c) = Some x" using p by simp
    then have "x = key (last (fst (page c)))" "limit < length [r \<leftarrow> rows. before c (key r)]"
      using page_cursor [of c] by (simp_all split: if_splits)
    then have "x = key (last xs)" "limit < length [r \<leftarrow> rows. before c (key r)]"
      using p by simp_all
    moreover from this have "xs \<noteq> []" using page_items [of c] p limit_pos by auto
    ultimately have "before c x" using xs last_in_set by fastforce
    then have "before (Some x) y \<Longrightarrow> before c y" for y
      by (auto simp: before_def split: option.splits)
    then show ?thesis using Suc [of "Some x"] xs p Some by auto
  qed (use p xs in simp)
qed simp

text \<open>A row that shares the key of a cursor is never delivered behind it.\<close>

lemma tie_lost: "key r = k \<Longrightarrow> r \<notin> set (follow page n (Some k))"
  using follow_sound [of n "Some k"] by (auto simp: before_def)

lemma behind_cursor:
  assumes "distinct (map key rows)" "limit < length [r \<leftarrow> rows. before c (key r)]"
  shows "[r \<leftarrow> rows. before (Some (key ([r \<leftarrow> rows. before c (key r)] ! (limit - 1)))) (key r)]
    = drop limit [r \<leftarrow> rows. before c (key r)]"
proof -
  let ?fs = "[r \<leftarrow> rows. before c (key r)]"
  let ?k = "key (?fs ! (limit - 1))"
  have in_fs: "?fs ! (limit - 1) \<in> set ?fs" by (rule nth_mem) (use assms(2) in simp)
  then have bk: "before c ?k" by simp
  have strict: "sorted_wrt (\<lambda>a b. key b < key a) ?fs"
  proof -
    have "sorted_wrt (\<lambda>a b. key b < key a) rows"
      using rows_sorted assms(1)
      by (simp add: sorted_wrt_iff_nth_less distinct_conv_nth)
        (metis le_neq_trans less_trans nat_neq_iff)
    then show ?thesis by (rule sorted_wrt_filter)
  qed
  have "[r \<leftarrow> rows. before (Some ?k) (key r)] = [r \<leftarrow> ?fs. key r < ?k]"
    using bk by (auto simp: before_def intro!: filter_cong split: option.splits)
  also have "... = drop limit ?fs"
  proof (rule filter_drop)
    fix r
    show "\<not> key r < ?k" if "r \<in> set (take limit ?fs)"
    proof -
      obtain i where i: "i < limit" "r = ?fs ! i"
        using \<open>r \<in> set (take limit ?fs)\<close> assms(2) by (auto simp: in_set_conv_nth)
      show ?thesis
      proof (cases "i = limit - 1")
        case False
        then have "i < limit - 1" using i by simp
        then have "?k < key r"
          using strict assms(2) i by (simp add: sorted_wrt_iff_nth_less)
        then show ?thesis by simp
      qed (use i in simp)
    qed
    show "key r < ?k" if "r \<in> set (drop limit ?fs)"
    proof -
      obtain i where i: "limit \<le> i" "i < length ?fs" "r = ?fs ! i"
        using \<open>r \<in> set (drop limit ?fs)\<close> by (auto simp: in_set_conv_nth) (metis add.commute le_add1 less_diff_conv)
      then have "limit - 1 < i" using limit_pos by simp
      then show ?thesis using strict i by (simp add: sorted_wrt_iff_nth_less)
    qed
  qed
  finally show ?thesis .
qed

lemma follow_behind:
  assumes "distinct (map key rows)" "length [r \<leftarrow> rows. before c (key r)] < n * limit"
  shows "follow page n c = [r \<leftarrow> rows. before c (key r)]"
  using assms(2)
proof (induction n arbitrary: c)
  case (Suc n)
  let ?fs = "[r \<leftarrow> rows. before c (key r)]"
  have items: "fst (page c) = take limit ?fs" by (rule page_items)
  show ?case
  proof (cases "limit < length ?fs")
    case True
    have k: "key (last (take limit ?fs)) = key (?fs ! (limit - 1))"
      using True limit_pos by (cases "take limit ?fs = []") (auto simp: last_conv_nth min_def)
    have nx: "snd (page c) = Some (key (?fs ! (limit - 1)))"
      using page_cursor [of c] True items k by simp
    have "length (drop limit ?fs) < n * limit" using Suc.prems True by simp
    then have "follow page n (Some (key (?fs ! (limit - 1)))) = drop limit ?fs"
      using Suc.IH [of "Some (key (?fs ! (limit - 1)))"] behind_cursor [OF assms(1) True] by simp
    then show ?thesis using items nx by (cases "page c") simp
  next
    case False
    then have "snd (page c) = None" using page_cursor [of c] by simp
    then show ?thesis using items False by (cases "page c") simp
  qed
qed simp

text \<open>With distinct keys, following the cursors delivers every row once, in order.\<close>

lemma follow_complete:
  assumes "distinct (map key rows)" "length rows < n * limit"
  shows "follow page n None = rows"
  using follow_behind [OF assms(1), of None n] assms(2) by (simp add: before_def)

end

end
