(* ===== verification/TransactionReads.thy ===== *)
theory TransactionReads
  imports Transactions Demo Pagination
begin

text \<open>
  \<open>apps/api/src/transactions/transactions.service.ts\<close>, second half: listing with cursor
  pagination, one transaction, tags, and reversal with the SQL function it calls
  (\<open>supabase/migrations/00019_reverse_entry_atomic.sql\<close>). Timestamps are in the fixed-width UTC
  form of the database, whose text order is time order. Attachment rows and posting memos are not
  modelled. \<open>locale_sort\<close> is sorting by \<open>localeCompare\<close>.
\<close>

section \<open>Listing\<close>

record list_item =
  li_entry :: journal_entry
  li_amount_minor :: int
  li_currency_code :: "string option"
  li_ledger_account_ids :: "string list"
  li_reversed :: bool
  li_tags :: "string list"

definition newest_first :: "journal_entry list \<Rightarrow> journal_entry list" where
  "newest_first es = rev (sort_key je_occurred_at (sort_key je_id es))"

definition matching_entries ::
    "string \<Rightarrow> string \<Rightarrow> string list option \<Rightarrow> db \<Rightarrow> journal_entry list" where
  "matching_entries uid ws ids s = newest_first
     [e \<leftarrow> visible_entries uid s. je_workspace_id e = ws
        \<and> (case ids of None \<Rightarrow> True | Some is \<Rightarrow> je_id e \<in> set is)]"

definition entries_page ::
    "string \<Rightarrow> string \<Rightarrow> string list option \<Rightarrow> string option \<Rightarrow> nat \<Rightarrow> db \<Rightarrow> journal_entry list" where
  "entries_page uid ws ids cursor limit s =
     take (limit + 1) [e \<leftarrow> matching_entries uid ws ids s. before (truthy cursor) (je_occurred_at e)]"

text \<open>\<open>reduce\<close> adds \<open>number\<close>s; \<open>Math.round\<close> rounds halves up.\<close>

definition postings_total :: "journal_posting list \<Rightarrow> int" where
  "postings_total ps = foldl (\<lambda>sum p. dbl (dbl (sum + jp_debit_minor p) + jp_credit_minor p)) 0 ps"

definition amount_of :: "journal_posting list \<Rightarrow> int" where
  "amount_of ps = (postings_total ps + 1) div 2"

definition account_entry_ids :: "string \<Rightarrow> string \<Rightarrow> string \<Rightarrow> db \<Rightarrow> string list" where
  "account_entry_ids uid ws aid s =
     [jp_journal_entry_id p. p \<leftarrow> visible_postings uid s, jp_workspace_id p = ws \<and> jp_ledger_account_id p = aid]"

definition tagged_entry_ids :: "string \<Rightarrow> string \<Rightarrow> string \<Rightarrow> db \<Rightarrow> string list" where
  "tagged_entry_ids uid ws tid s =
     [et_journal_entry_id l. l \<leftarrow> visible_entry_tags uid s, et_workspace_id l = ws \<and> et_tag_id l = tid]"

definition category_filter :: "string \<Rightarrow> string \<Rightarrow> string option \<Rightarrow> (db, string list option) api" where
  "category_filter uid ws categoryId =
     (case truthy categoryId of
        None \<Rightarrow> api_return None
      | Some c \<Rightarrow>
          api_bind (resolveLedgerAccountId c ws uid) (\<lambda>a.
          api_bind (select (account_entry_ids uid ws a)) (\<lambda>r.
          api_return (Some (js_unique (data_list r))))))"

definition tag_filter ::
    "string \<Rightarrow> string \<Rightarrow> string option \<Rightarrow> string list option \<Rightarrow> (db, string list option) api" where
  "tag_filter uid ws tagId ids =
     (case truthy tagId of
        None \<Rightarrow> api_return ids
      | Some t \<Rightarrow>
          api_bind (select (tagged_entry_ids uid ws t)) (\<lambda>r.
          let tagged = data_list r in
          api_return (Some (case ids of
             None \<Rightarrow> js_unique tagged | Some is \<Rightarrow> [i \<leftarrow> is. i \<in> set tagged]))))"

definition empty_page :: "list_item Page" where
  "empty_page = \<lparr>items = [], next_cursor = None, has_more = False\<rparr>"

definition reversed_ids :: "string \<Rightarrow> string \<Rightarrow> string list \<Rightarrow> db \<Rightarrow> string list" where
  "reversed_ids uid ws ids s =
     [the (je_reverses_entry_id e). e \<leftarrow> visible_entries uid s,
        je_workspace_id e = ws \<and> je_reverses_entry_id e \<noteq> None
        \<and> the (je_reverses_entry_id e) \<in> set ids]"

definition tag_name_of :: "string \<Rightarrow> db \<Rightarrow> string \<Rightarrow> string option" where
  "tag_name_of uid s tid = map_option tag_name (find (\<lambda>t. tag_id t = tid) (visible_tags uid s))"

definition linked_tag_names :: "string \<Rightarrow> string \<Rightarrow> string list \<Rightarrow> db \<Rightarrow> (string \<times> string) list" where
  "linked_tag_names uid ws ids s =
     [(et_journal_entry_id l, the (truthy (tag_name_of uid s (et_tag_id l)))).
        l \<leftarrow> visible_entry_tags uid s, et_workspace_id l = ws \<and> et_journal_entry_id l \<in> set ids
          \<and> truthy (tag_name_of uid s (et_tag_id l)) \<noteq> None]"

definition list_item_of ::
    "(string list \<Rightarrow> string list) \<Rightarrow> string list \<Rightarrow> (string \<times> string) list
      \<Rightarrow> journal_entry \<times> journal_posting list \<Rightarrow> list_item" where
  "list_item_of locale_sort reversed links =
     (\<lambda>(e, ps). \<lparr>li_entry = e, li_amount_minor = amount_of ps,
        li_currency_code = (case ps of [] \<Rightarrow> None | p # _ \<Rightarrow> Some (jp_currency_code p)),
        li_ledger_account_ids = map jp_ledger_account_id ps, li_reversed = (je_id e \<in> set reversed),
        li_tags = locale_sort [snd l. l \<leftarrow> links, fst l = je_id e]\<rparr>)"

definition embedded_page ::
    "string \<Rightarrow> string \<Rightarrow> string list option \<Rightarrow> string option \<Rightarrow> nat \<Rightarrow> db
      \<Rightarrow> (journal_entry \<times> journal_posting list) list" where
  "embedded_page uid ws ids cursor limit s =
     map (\<lambda>e. (e, entry_postings uid (je_id e) s)) (entries_page uid ws ids cursor limit s)"

text \<open>The two decorating queries run only for a non-empty page.\<close>

definition when_any :: "'b list \<Rightarrow> (db \<Rightarrow> 'a list) \<Rightarrow> (db, 'a list) api" where
  "when_any ids q = (if ids = [] then api_return [] else api_bind (select q) (\<lambda>r. api_return (data_list r)))"

definition decorated_page ::
    "(string list \<Rightarrow> string list) \<Rightarrow> string \<Rightarrow> string \<Rightarrow> string list option \<Rightarrow> string option \<Rightarrow> nat
      \<Rightarrow> (db, list_item Page) api" where
  "decorated_page locale_sort uid ws ids cursor limit =
     api_bind (select (embedded_page uid ws ids cursor limit)) (\<lambda>r.
     case r of
       Inl e \<Rightarrow> api_throw (Bad_request_plain ''Failed to list transactions'')
     | Inr rows \<Rightarrow>
         let pageIds = map (je_id \<circ> fst) rows in
         api_bind (when_any pageIds (reversed_ids uid ws pageIds)) (\<lambda>reversed.
         api_bind (when_any pageIds (linked_tag_names uid ws pageIds)) (\<lambda>links.
         api_return (toPage (map (list_item_of locale_sort reversed links) rows) limit
           (\<lambda>i. je_occurred_at (li_entry i))))))"

definition listTransactions ::
    "(string list \<Rightarrow> string list) \<Rightarrow> string \<Rightarrow> string \<Rightarrow> string option \<Rightarrow> nat \<Rightarrow> string option \<Rightarrow> string option
      \<Rightarrow> (db, list_item Page) api" where
  "listTransactions locale_sort ws uid cursor limit categoryId tagId =
     api_bind (category_filter uid ws categoryId) (\<lambda>ids.
     if ids = Some [] then api_return empty_page
     else
     api_bind (tag_filter uid ws tagId ids) (\<lambda>ids2.
     if ids2 = Some [] then api_return empty_page
     else decorated_page locale_sort uid ws ids2 cursor limit))"

section \<open>One transaction\<close>

record transaction_details =
  td_entry :: journal_entry
  td_postings :: "journal_posting list"
  td_tags :: "string list"
  td_reversed :: bool

definition entry_rows :: "string \<Rightarrow> string \<Rightarrow> string \<Rightarrow> db \<Rightarrow> journal_entry list" where
  "entry_rows uid ws i s = [e \<leftarrow> visible_entries uid s. je_id e = i \<and> je_workspace_id e = ws]"

definition reversals_of :: "string \<Rightarrow> string \<Rightarrow> string \<Rightarrow> db \<Rightarrow> journal_entry list" where
  "reversals_of uid ws i s =
     [e \<leftarrow> visible_entries uid s. je_workspace_id e = ws \<and> je_reverses_entry_id e = Some i]"

definition getTransaction ::
    "(string list \<Rightarrow> string list) \<Rightarrow> string \<Rightarrow> string \<Rightarrow> string \<Rightarrow> (db, transaction_details) api" where
  "getTransaction locale_sort i ws uid =
     api_bind (select_single (entry_rows uid ws i)) (\<lambda>found.
     case data_of found of
       None \<Rightarrow> api_throw (Not_found ''TRANSACTION_NOT_FOUND'' ''Transaction not found'')
     | Some e \<Rightarrow>
         api_bind (select (entry_postings uid i)) (\<lambda>postings.
         api_bind (select (linked_tag_names uid ws [i])) (\<lambda>links.
         api_bind (select_maybe (reversals_of uid ws i)) (\<lambda>reversal.
         api_return \<lparr>td_entry = e, td_postings = data_list postings,
           td_tags = locale_sort (map snd (data_list links)),
           td_reversed = (data_maybe reversal \<noteq> None)\<rparr>))))"

section \<open>Tags\<close>

definition delete_entry_tags :: "string \<Rightarrow> string \<Rightarrow> string \<Rightarrow> db \<Rightarrow> pg_error + unit \<times> db" where
  "delete_entry_tags uid ws i s =
     Inr ((), s\<lparr>entry_tags := [l \<leftarrow> entry_tags s. \<not> (is_member uid s (et_workspace_id l)
        \<and> et_workspace_id l = ws \<and> et_journal_entry_id l = i)]\<rparr>)"

definition replaceTransactionTags ::
    "env \<Rightarrow> string \<Rightarrow> string \<Rightarrow> string \<Rightarrow> string list \<Rightarrow> (db, string list) api" where
  "replaceTransactionTags E i ws uid names =
     (let canonical = canonical_tags names; failed = Bad_request_plain ''Failed to replace transaction tags'' in
     api_bind (select_maybe (entry_rows uid ws i)) (\<lambda>found.
     if data_maybe found = None
     then api_throw (Not_found ''TRANSACTION_NOT_FOUND'' ''Transaction not found'')
     else
     api_bind (if canonical = [] then api_return () else
         api_bind (new_tags E ws canonical) (\<lambda>rows.
         api_bind (stmt (upsert_tags uid rows)) (\<lambda>r.
         if isl r then api_throw (Bad_request_plain ''Failed to create transaction tags'')
         else api_return ()))) (\<lambda>_.
     api_bind (if canonical = [] then api_return []
         else api_bind (select (tags_named uid ws canonical)) (\<lambda>r. api_return (data_list r))) (\<lambda>tagRows.
     api_bind (stmt (delete_entry_tags uid ws i)) (\<lambda>d.
     if isl d then api_throw failed
     else
     api_bind (if tagRows = [] then api_return () else
         api_bind (stmt (insert_entry_tags uid (tag_links i ws tagRows))) (\<lambda>r.
         if isl r then api_throw failed else api_return ())) (\<lambda>_.
     api_return canonical))))))"

definition workspace_tags :: "string \<Rightarrow> string \<Rightarrow> db \<Rightarrow> tag list" where
  "workspace_tags uid ws s = sort_key tag_name [t \<leftarrow> visible_tags uid s. tag_workspace_id t = ws]"

definition workspace_links :: "string \<Rightarrow> string \<Rightarrow> db \<Rightarrow> entry_tag list" where
  "workspace_links uid ws s = [l \<leftarrow> visible_entry_tags uid s. et_workspace_id l = ws]"

record tag_usage =
  tu_id :: string
  tu_name :: string
  tu_usage_count :: nat

definition listTags :: "string \<Rightarrow> string \<Rightarrow> (db, tag_usage list) api" where
  "listTags ws uid =
     api_bind (select (workspace_tags uid ws)) (\<lambda>r.
     case r of
       Inl e \<Rightarrow> api_throw (Bad_request_plain ''Failed to list tags'')
     | Inr ts \<Rightarrow>
         api_bind (select (workspace_links uid ws)) (\<lambda>ls.
         api_return (map (\<lambda>t. \<lparr>tu_id = tag_id t, tu_name = tag_name t,
           tu_usage_count = length [l \<leftarrow> data_list ls. et_tag_id l = tag_id t]\<rparr>) ts)))"

definition createTag :: "env \<Rightarrow> string \<Rightarrow> string \<Rightarrow> string \<Rightarrow> (db, tag_usage) api" where
  "createTag E ws uid name =
     (let canonicalName = canonicalTagName name in
      if canonicalName = [] then api_throw (Bad_request_plain ''Give the tag a name'')
      else
        api_bind (randomUUID E) (\<lambda>i.
        api_bind (stmt (insert_tag uid \<lparr>tag_id = i, tag_workspace_id = ws, tag_name = canonicalName\<rparr>)) (\<lambda>r.
        case r of
          Inl e \<Rightarrow> api_throw (Bad_request_plain
             (if pg_code e = UNIQUE_VIOLATION then ''That tag already exists'' else ''Failed to create tag''))
        | Inr t \<Rightarrow> api_return \<lparr>tu_id = tag_id t, tu_name = tag_name t, tu_usage_count = 0\<rparr>)))"

definition update_tag_name :: "string \<Rightarrow> string \<Rightarrow> string \<Rightarrow> string \<Rightarrow> db \<Rightarrow> pg_error + tag \<times> db" where
  "update_tag_name uid ws tid name s =
     (let hit = (\<lambda>t. tag_id t = tid \<and> tag_workspace_id t = ws \<and> is_member uid s ws);
          renamed = map (\<lambda>t. if hit t then t\<lparr>tag_name := name\<rparr> else t) (tags s) in
      if list_ex (\<lambda>t. tag_workspace_id t = ws \<and> tag_name t = name \<and> \<not> hit t) (tags s) \<and> list_ex hit (tags s)
      then Inl (pg UNIQUE_VIOLATION)
      else case single [t \<leftarrow> tags s. hit t] of
             Inl e \<Rightarrow> Inl e
           | Inr t \<Rightarrow> Inr (t\<lparr>tag_name := name\<rparr>, s\<lparr>tags := renamed\<rparr>))"

definition renameTag :: "string \<Rightarrow> string \<Rightarrow> string \<Rightarrow> string \<Rightarrow> (db, tag) api" where
  "renameTag tid ws uid name =
     (let canonicalName = canonicalTagName name in
      if canonicalName = [] then api_throw (Bad_request_plain ''Give the tag a name'')
      else
        api_bind (stmt (update_tag_name uid ws tid canonicalName)) (\<lambda>r.
        case r of
          Inl e \<Rightarrow>
            if pg_code e = NOT_ONE_ROW then api_throw (Not_found ''TAG_NOT_FOUND'' ''Tag not found'')
            else api_throw (Bad_request_plain
              (if pg_code e = UNIQUE_VIOLATION then ''That tag already exists'' else ''Failed to rename tag''))
        | Inr t \<Rightarrow> api_return t))"

text \<open>\<open>journal_entry_tags.tag_id\<close> cascades; migration 00020 gives \<open>tags\<close> a DELETE policy.\<close>

definition delete_tag_rows :: "string \<Rightarrow> string \<Rightarrow> string \<Rightarrow> db \<Rightarrow> pg_error + string list \<times> db" where
  "delete_tag_rows uid ws tid s =
     (let gone = [t \<leftarrow> tags s. tag_id t = tid \<and> tag_workspace_id t = ws \<and> is_member uid s ws] in
      Inr (map tag_id gone,
           s\<lparr>tags := [t \<leftarrow> tags s. t \<notin> set gone],
             entry_tags := [l \<leftarrow> entry_tags s. et_tag_id l \<notin> tag_id ` set gone]\<rparr>))"

definition deleteTag :: "string \<Rightarrow> string \<Rightarrow> string \<Rightarrow> (db, string) api" where
  "deleteTag tid ws uid =
     api_bind (stmt (delete_tag_rows uid ws tid)) (\<lambda>r.
     case r of
       Inl e \<Rightarrow> api_throw (Bad_request_plain ''Failed to delete tag'')
     | Inr [] \<Rightarrow> api_throw (Not_found ''TAG_NOT_FOUND'' ''That tag does not exist in this workspace.'')
     | Inr (_ # _) \<Rightarrow> api_return tid)"

section \<open>Reversal\<close>

text \<open>\<open>s.includes(p)\<close>.\<close>

definition js_includes :: "string \<Rightarrow> string \<Rightarrow> bool" where
  "js_includes s p \<longleftrightarrow> list_ex (\<lambda>i. starts_with (drop i s) p) [0..<Suc (length s)]"

definition raised :: "string \<Rightarrow> pg_error" where
  "raised m = \<lparr>pg_code = ''P0001'', pg_message = m\<rparr>"

definition reversal_entry :: "env \<Rightarrow> string \<Rightarrow> string \<Rightarrow> journal_entry \<Rightarrow> journal_entry" where
  "reversal_entry E uid i orig =
     \<lparr>je_id = i, je_workspace_id = je_workspace_id orig, je_entry_type = ET_REVERSAL,
      je_occurred_at = env_now E, je_local_date = take 10 (env_now E), je_payee = None,
      je_note = Some (''Reversal of '' @ je_id orig), je_status = POSTED, je_source = MANUAL,
      je_client_entry_id = je_id orig, je_idempotency_key_hash = None,
      je_reverses_entry_id = Some (je_id orig), je_created_by = uid,
      je_posted_at = Some (env_now E), je_version = 1\<rparr>"

definition mirror :: "string \<Rightarrow> string \<Rightarrow> journal_posting \<Rightarrow> journal_posting" where
  "mirror i rid p = p\<lparr>jp_id := i, jp_journal_entry_id := rid,
     jp_debit_minor := jp_credit_minor p, jp_credit_minor := jp_debit_minor p\<rparr>"

fun mirrored :: "env \<Rightarrow> nat \<Rightarrow> string \<Rightarrow> journal_posting list \<Rightarrow> journal_posting list" where
  "mirrored E n rid [] = []"
| "mirrored E n rid (p # ps) = mirror (env_uuid E n) rid p # mirrored E (Suc n) rid ps"

definition reverse_journal_entry ::
    "env \<Rightarrow> string \<Rightarrow> string \<Rightarrow> string \<Rightarrow> db \<Rightarrow> pg_error + string \<times> db" where
  "reverse_journal_entry E uid p_entry_id p_workspace_id s =
     (case find (\<lambda>e. je_id e = p_entry_id \<and> je_workspace_id e = p_workspace_id \<and> je_status e = POSTED)
          (visible_entries uid s) of
        None \<Rightarrow> Inl (raised ''ENTRY_NOT_REVERSIBLE'')
      | Some orig \<Rightarrow>
          let rid = env_uuid E (uuids s);
              ps = [p \<leftarrow> visible_postings uid s. jp_journal_entry_id p = p_entry_id] in
          (case insert_entry uid (reversal_entry E uid rid orig)
              (s\<lparr>uuids := uuids s + 1 + length ps\<rparr>) of
             Inl e \<Rightarrow> Inl e
           | Inr (_, s1) \<Rightarrow>
               (case insert_postings uid (mirrored E (uuids s + 1) rid ps) s1 of
                  Inl e \<Rightarrow> Inl e
                | Inr (_, s2) \<Rightarrow>
                    if ps = [] then Inl (raised ''ENTRY_HAS_NO_POSTINGS'') else Inr (rid, s2))))"

definition reversal_error :: "pg_error \<Rightarrow> api_exn" where
  "reversal_error e =
     (if js_includes (pg_message e) ''ENTRY_NOT_REVERSIBLE'' then
        Not_found ''TRANSACTION_NOT_REVERSIBLE'' (''That transaction is not available to reverse. It may already have ''
          @ ''been reversed, or it may not be posted.'')
      else if js_includes (pg_message e) ''ENTRY_HAS_NO_POSTINGS'' then
        Bad_request ''NO_POSTINGS'' ''Original transaction has no postings''
      else if pg_code e = UNIQUE_VIOLATION then
        Bad_request ''ALREADY_REVERSED'' ''That transaction has already been reversed.''
      else Bad_request ''REVERSAL_FAILED'' ''Could not reverse the transaction. Nothing was changed.'')"

text \<open>\<open>notify\<close> stands for the two notification calls; their exceptions are swallowed.\<close>

definition reverseTransaction ::
    "env \<Rightarrow> (string \<Rightarrow> (db, unit) api) \<Rightarrow> string \<Rightarrow> string \<Rightarrow> string \<Rightarrow> (db, transaction_view option) api" where
  "reverseTransaction E notify i ws uid =
     api_bind (stmt (reverse_journal_entry E uid i ws)) (\<lambda>r.
     case r of
       Inl e \<Rightarrow> api_throw (reversal_error e)
     | Inr reversalId \<Rightarrow>
         api_bind (select_single (\<lambda>s. [(e, entry_postings uid reversalId s).
             e \<leftarrow> visible_entries uid s, je_id e = reversalId])) (\<lambda>read.
         api_bind (api_catch (notify reversalId) (\<lambda>_. api_return ())) (\<lambda>_.
         api_return (map_option (\<lambda>(e, ps). \<lparr>tv_entry = e, tv_postings = ps\<rparr>) (data_of read)))))"

section \<open>Following the cursors of the list\<close>

text \<open>
  The pages a client is served (no filter, no failures). A client asks for a next page only with a
  truthy cursor, so an empty one ends the list.
\<close>

definition served_page ::
    "(string list \<Rightarrow> string list) \<Rightarrow> string \<Rightarrow> string \<Rightarrow> nat \<Rightarrow> db \<Rightarrow> string option
      \<Rightarrow> journal_entry list \<times> string option" where
  "served_page locale_sort uid ws limit s c =
     (if c = Some [] then ([], None)
      else case listTransactions locale_sort ws uid c limit None None (s\<lparr>faults := []\<rparr>) of
             (Inr page, _) \<Rightarrow> (map li_entry (items page), next_cursor page)
           | (Inl _, _) \<Rightarrow> ([], None))"

lemma li_entry_list_item [simp]: "li_entry (list_item_of ls reversed links x) = fst x"
  by (simp add: list_item_of_def split: prod.split)

lemma when_any_no_fault: "faults s = [] \<Longrightarrow> \<exists>xs. when_any ids q s = (Inr xs, s)"
  by (simp add: when_any_def api_return_def api_bind_def select_no_fault)

lemma toPage_map:
  "items (toPage (map f rows) limit g) = map f (items (toPage rows limit (g \<circ> f)))"
  "next_cursor (toPage (map f rows) limit g) = next_cursor (toPage rows limit (g \<circ> f))"
  by (auto simp: toPage_def Let_def take_map last_map)

lemma decorated_page_no_fault:
  assumes "faults s = []"
  shows "\<exists>page. decorated_page ls uid ws ids c limit s = (Inr page, s)
     \<and> map li_entry (items page) = take limit (entries_page uid ws ids c limit s)
     \<and> next_cursor page = next_cursor (toPage (entries_page uid ws ids c limit s) limit je_occurred_at)"
proof -
  let ?rows = "embedded_page uid ws ids c limit s"
  let ?ids = "map (je_id \<circ> fst) ?rows"
  obtain xs where xs: "when_any ?ids (reversed_ids uid ws ?ids) s = (Inr xs, s)"
    using when_any_no_fault [OF assms] by blast
  obtain ys where ys: "when_any ?ids (linked_tag_names uid ws ?ids) s = (Inr ys, s)"
    using when_any_no_fault [OF assms] by blast
  let ?page = "toPage (map (list_item_of ls xs ys) ?rows) limit (\<lambda>i. je_occurred_at (li_entry i))"
  have "decorated_page ls uid ws ids c limit s = (Inr ?page, s)"
    unfolding decorated_page_def api_bind_def
    by (simp add: select_no_fault [OF assms] Let_def xs ys api_return_def)
  moreover have "map li_entry (items ?page) = take limit (entries_page uid ws ids c limit s)"
    by (simp add: toPage_items embedded_page_def take_map comp_def)
  moreover have "next_cursor ?page = next_cursor (toPage (entries_page uid ws ids c limit s) limit je_occurred_at)"
    by (simp add: toPage_map embedded_page_def comp_def)
  ultimately show ?thesis by blast
qed

lemma served_page_eq:
  "served_page ls uid ws limit s c =
     (if c = Some [] then ([], None) else
      (take limit [e \<leftarrow> matching_entries uid ws None s. before c (je_occurred_at e)],
       next_cursor (toPage (take (limit + 1) [e \<leftarrow> matching_entries uid ws None s.
         before c (je_occurred_at e)]) limit je_occurred_at)))"
proof (cases "c = Some []")
  case False
  then have t: "truthy c = c" by (auto simp: truthy_def split: option.splits list.splits)
  let ?s = "s\<lparr>faults := []\<rparr>"
  have v: "visible_entries uid ?s = visible_entries uid s"
    by (simp add: visible_entries_def is_member_def)
  obtain page where page: "decorated_page ls uid ws None c limit ?s = (Inr page, ?s)"
     "map li_entry (items page) = take limit (entries_page uid ws None c limit ?s)"
     "next_cursor page = next_cursor (toPage (entries_page uid ws None c limit ?s) limit je_occurred_at)"
    using decorated_page_no_fault [of ?s ls uid ws None c limit] by auto
  have "listTransactions ls ws uid c limit None None ?s = (Inr page, ?s)"
    unfolding listTransactions_def api_bind_def
    by (simp add: category_filter_def tag_filter_def truthy_def api_return_def page(1))
  then show ?thesis
    using False page(2,3)
    by (simp add: served_page_def entries_page_def t matching_entries_def v min_def)
qed (simp add: served_page_def)

lemma newest_first_sorted: "sorted_wrt (\<lambda>a b. je_occurred_at b \<le> je_occurred_at a) (newest_first es)"
  unfolding newest_first_def sorted_wrt_rev
  using sorted_sort_key [of je_occurred_at "sort_key je_id es"] by (simp add: sorted_map)

lemma matching_sorted:
  "sorted_wrt (\<lambda>a b. je_occurred_at b \<le> je_occurred_at a) (matching_entries uid ws ids s)"
  by (simp add: matching_entries_def newest_first_sorted)

interpretation transaction_list:
  keyset_pages "matching_entries uid ws None s" je_occurred_at "Suc l" "served_page ls uid ws (Suc l) s"
proof
  fix c
  show "fst (served_page ls uid ws (Suc l) s c)
      = take (Suc l) [r \<leftarrow> matching_entries uid ws None s. before c (je_occurred_at r)]"
    by (simp add: served_page_eq before_def)
  show "snd (served_page ls uid ws (Suc l) s c) =
      (if Suc l < length [r \<leftarrow> matching_entries uid ws None s. before c (je_occurred_at r)]
       then Some (je_occurred_at (last (fst (served_page ls uid ws (Suc l) s c)))) else None)"
    by (auto simp: served_page_eq before_def toPage_def Let_def min_def)
qed (simp_all add: matching_sorted)

text \<open>
  C21. Following the cursors of the transaction list from the first page delivers every transaction
  of the workspace exactly once, newest first, provided no two of them have the same time.
\<close>

theorem list_cursor_complete:
  assumes "distinct (map je_occurred_at (matching_entries uid ws None s))"
    and "length (matching_entries uid ws None s) < n * Suc l"
  shows "follow (served_page ls uid ws (Suc l) s) n None = matching_entries uid ws None s"
  by (rule transaction_list.follow_complete [OF assms])

theorem list_cursor_complete_witness:
  "follow (served_page id ''u1'' ''w1'' (Suc 0) demo_posted) 2 None = [demo_entry]"
proof -
  have m: "matching_entries ''u1'' ''w1'' None demo_posted = [demo_entry]"
    by (simp add: matching_entries_def visible_entries_def newest_first_def demo_entry_def)
  show ?thesis using list_cursor_complete [of "''u1''" "''w1''" demo_posted 2 0 id] by (simp add: m)
qed

text \<open>
   With ties it does not: when all transactions of a workspace carry the same time (as every
  row of one imported day does), a client that follows the cursors sees the first page and never
  any other transaction.
\<close>

theorem list_cursor_skips_ties:
  assumes "\<forall>e \<in> set (matching_entries uid ws None s). je_occurred_at e = k"
  shows "follow (served_page ls uid ws (Suc l) s) (Suc n) None
     = take (Suc l) (matching_entries uid ws None s)"
proof -
  let ?rows = "matching_entries uid ws None s"
  obtain xs c where p: "served_page ls uid ws (Suc l) s None = (xs, c)"
    by (cases "served_page ls uid ws (Suc l) s None")
  have xs: "xs = take (Suc l) ?rows"
    using transaction_list.page_items [of ls uid ws l s None] p by (simp add: before_def)
  show ?thesis
  proof (cases c)
    case (Some x)
    then have "snd (served_page ls uid ws (Suc l) s None) = Some x" by (simp add: p)
    then have "x = je_occurred_at (last (fst (served_page ls uid ws (Suc l) s None))) \<and> Suc l < length ?rows"
      using transaction_list.page_cursor [of ls uid ws l s None] by (simp add: before_def split: if_splits)
    then have "x = je_occurred_at (last xs) \<and> Suc l < length ?rows" by (simp add: p)
    moreover from this have "last xs \<in> set ?rows"
      using xs by (metis in_set_takeD last_in_set length_0_conv length_take min.absorb4 nat.distinct(1))
    ultimately have "x = k" using assms by simp
    moreover have "{r \<in> set ?rows. before (Some k) (je_occurred_at r)} = {}"
      using assms by (auto simp: before_def)
    ultimately have "set (follow (served_page ls uid ws (Suc l) s) n (Some x)) \<subseteq> {}"
      using transaction_list.follow_sound [of ls uid ws l s n "Some x"] by (simp only:)
    then show ?thesis using p Some xs by simp
  qed (use p xs in simp)
qed

theorem list_cursor_skips_ties_witness:
  "length (matching_entries ''u1'' ''w1'' None
       (demo_posted\<lparr>journal_entries := [demo_entry, demo_entry\<lparr>je_id := ''e2''\<rparr>]\<rparr>)) = 2
   \<and> follow (served_page id ''u1'' ''w1'' (Suc 0)
       (demo_posted\<lparr>journal_entries := [demo_entry, demo_entry\<lparr>je_id := ''e2''\<rparr>]\<rparr>)) (Suc 9) None
     = [demo_entry\<lparr>je_id := ''e2''\<rparr>]"
proof -
  let ?s = "demo_posted\<lparr>journal_entries := [demo_entry, demo_entry\<lparr>je_id := ''e2''\<rparr>]\<rparr>"
  have mem: "is_member ''u1'' ?s ''w1''" using demo_member by (simp add: is_member_def)
  have m: "matching_entries ''u1'' ''w1'' None ?s = [demo_entry\<lparr>je_id := ''e2''\<rparr>, demo_entry]"
    using mem by (simp add: matching_entries_def visible_entries_def newest_first_def demo_entry_def)
  show ?thesis
    using list_cursor_skips_ties [of "''u1''" "''w1''" ?s "je_occurred_at demo_entry" id 0 9]
    by (simp add: m)
qed

end
