(* ===== verification/TransactionLive.thy ===== *)
theory TransactionLive
  imports Transactions Demo
begin

text \<open>
  \<open>createTransaction\<close> without statement failures: a valid request always succeeds with a new entry,
  and the two ways a caller meets a surprising result, a request that is refused only after its
  entry was written, and an idempotency key that another workspace already used.
\<close>

section \<open>Evaluation without failures\<close>

lemma bind_step: "m s = (Inr x, u) \<Longrightarrow> api_bind m f s = f x u"
  by (simp add: api_bind_def)

lemma bind_stop: "m s = (Inl e, u) \<Longrightarrow> api_bind m f s = (Inl e, u)"
  by (simp add: api_bind_def)

text \<open>A UUID source that never repeats, and whose values are not yet in use.\<close>

definition fresh_uuids :: "env \<Rightarrow> db \<Rightarrow> bool" where
  "fresh_uuids E s \<longleftrightarrow> inj (env_uuid E)
     \<and> (\<forall>n \<ge> uuids s. env_uuid E n \<notin> je_id ` set (journal_entries s)
          \<and> env_uuid E n \<notin> jp_id ` set (journal_postings s))"

definition new_key :: "env \<Rightarrow> string \<Rightarrow> string \<Rightarrow> string \<Rightarrow> db \<Rightarrow> bool" where
  "new_key E ws uid key s \<longleftrightarrow> existing_entries uid ws key s = []
     \<and> list_all (\<lambda>e. je_created_by e = uid \<longrightarrow>
          je_idempotency_key_hash e \<noteq> Some (idempotency_hash E uid key)) (journal_entries s)"

definition good_amount :: "create_transaction_dto \<Rightarrow> int \<Rightarrow> bool" where
  "good_amount dto n \<longleftrightarrow> parseMinorUnits (ct_amount dto) = Inr n \<and> 0 < n"

lemma parsed_good: "good_amount dto n \<Longrightarrow> parsed_amount (ct_amount dto) s = (Inr n, s)"
  by (simp add: good_amount_def parsed_amount_def api_return_def)

lemma drawn: "randomUUID E s = (Inr (env_uuid E (uuids s)), s\<lparr>uuids := Suc (uuids s)\<rparr>)"
  by (simp add: randomUUID_def)

abbreviation entry_written ::
    "env \<Rightarrow> EntrySource \<Rightarrow> string \<Rightarrow> string \<Rightarrow> create_transaction_dto \<Rightarrow> EntryType \<Rightarrow> db \<Rightarrow> db" where
  "entry_written E src ws uid dto ty s \<equiv>
     s\<lparr>uuids := Suc (uuids s), journal_entries := journal_entries s
         @ [posted_entry E uid ws src dto (env_uuid E (uuids s)) ty]\<rparr>"

lemma new_entry_insertable:
  assumes "fresh_uuids E s" "new_key E ws uid (ct_idempotency_key dto) s" "is_member uid s ws"
    and "entry_type_of_string (ct_type dto) = Some ty"
  shows "insert_posted_entry E uid ws src dto (env_uuid E (uuids s)) (s\<lparr>uuids := Suc (uuids s)\<rparr>)
     = Inr (posted_entry E uid ws src dto (env_uuid E (uuids s)) ty, entry_written E src ws uid dto ty s)"
  using assms
  by (auto simp: insert_posted_entry_def insert_entry_def fresh_uuids_def new_key_def entry_conflicts_def
      posted_entry_def is_member_def list_all_iff list_ex_iff)

lemma create_reaches_post:
  assumes "faults s = []" "fresh_uuids E s" "new_key E ws uid (ct_idempotency_key dto) s"
    "is_member uid s ws" "good_amount dto n" "entry_type_of_string (ct_type dto) = Some ty"
  shows "createTransaction E rules src ev ws uid dto s =
     post_entry E rules ev uid ws dto n (posted_entry E uid ws src dto (env_uuid E (uuids s)) ty)
       (entry_written E src ws uid dto ty s)"
proof -
  have ex: "existing_entries uid ws (ct_idempotency_key dto) s = []"
    using assms(3) by (simp add: new_key_def)
  show ?thesis
    unfolding createTransaction_def
    using assms(1) new_entry_insertable [OF assms(2-4,6)]
    by (simp add: bind_step [OF parsed_good [OF assms(5)]] bind_step [OF drawn]
        select_single_no_fault stmt_no_fault api_bind_def single_def ex data_of_def drawn)
qed

definition category_found ::
    "string \<Rightarrow> string \<Rightarrow> create_transaction_dto \<Rightarrow> db \<Rightarrow> string option \<Rightarrow> bool" where
  "category_found uid ws dto s a \<longleftrightarrow>
     (case truthy (ct_category_id dto) of
        None \<Rightarrow> a = None
      | Some c \<Rightarrow> (case workspace_categories uid ws c s of
           [x] \<Rightarrow> cat_ledger_account_id x \<noteq> [] \<and> a = Some (cat_ledger_account_id x) | _ \<Rightarrow> False))"

lemma category_resolved:
  "faults s = [] \<Longrightarrow> category_found uid ws dto s a \<Longrightarrow> category_account_id uid ws dto s = (Inr a, s)"
  by (auto simp: category_found_def category_account_id_def resolveLedgerAccountId_def api_bind_def
      select_single_no_fault single_def data_of_def api_return_def split: option.splits list.splits)

text \<open>The two postings drawn with the UUIDs \<open>k\<close> and \<open>k + 1\<close>.\<close>

definition drawn_postings ::
    "env \<Rightarrow> string \<Rightarrow> string \<Rightarrow> nat \<Rightarrow> (string \<times> int) list \<Rightarrow> journal_posting list \<Rightarrow> bool" where
  "drawn_postings E eid ws k legs ps \<longleftrightarrow> map jp_id ps = [env_uuid E k, env_uuid E (Suc k)]
     \<and> map leg ps = legs \<and> list_all (\<lambda>p. jp_journal_entry_id p = eid \<and> jp_workspace_id p = ws) ps
     \<and> list_all posting_ok ps"

lemma posting_at: "posting E eid ws cur a d c n u = (Inr \<lparr>jp_id = env_uuid E (uuids u), jp_journal_entry_id = eid, jp_workspace_id = ws,
        jp_ledger_account_id = a, jp_debit_minor = d, jp_credit_minor = c,
        jp_currency_code = cur, jp_base_amount_minor = n\<rparr>, u\<lparr>uuids := Suc (uuids u)\<rparr>)"
  by (simp add: posting_def api_bind_def drawn api_return_def)
lemma pair_at: "api_bind (posting E eid ws cur a d1 c1 n) (\<lambda>p.
      api_bind (posting E eid ws cur b d2 c2 n) (\<lambda>q. api_return [p, q])) u
      = (Inr [\<lparr>jp_id = env_uuid E (uuids u), jp_journal_entry_id = eid, jp_workspace_id = ws,
        jp_ledger_account_id = a, jp_debit_minor = d1, jp_credit_minor = c1,
        jp_currency_code = cur, jp_base_amount_minor = n\<rparr>, \<lparr>jp_id = env_uuid E (Suc (uuids u)), jp_journal_entry_id = eid, jp_workspace_id = ws,
        jp_ledger_account_id = b, jp_debit_minor = d2, jp_credit_minor = c2,
        jp_currency_code = cur, jp_base_amount_minor = n\<rparr>], u\<lparr>uuids := Suc (Suc (uuids u))\<rparr>)"
  by (simp add: posting_at bind_step [OF posting_at] api_return_def)

lemma pair_drawn:
  assumes "0 < n" "d1 = n \<and> c1 = 0 \<or> d1 = 0 \<and> c1 = n" "d2 = n \<and> c2 = 0 \<or> d2 = 0 \<and> c2 = n"
    and "legs = [(a, d1 - c1), (b, d2 - c2)]"
  shows "\<exists>ps. api_bind (posting E eid ws cur a d1 c1 n) (\<lambda>p.
      api_bind (posting E eid ws cur b d2 c2 n) (\<lambda>q. api_return [p, q])) u
      = (Inr ps, u\<lparr>uuids := Suc (Suc (uuids u))\<rparr>) \<and> drawn_postings E eid ws (uuids u) legs ps"
  unfolding pair_at assms(4)
  by (rule exI, rule conjI, rule refl)
    (use assms(1-3) in \<open>auto simp: drawn_postings_def leg_def posting_ok_def\<close>)

lemma build_drawn:
  assumes "money_legs type a c t n = Some legs" "0 < n"
  shows "\<exists>ps. buildPostings E eid ws type n a c t cur u
      = (Inr ps, u\<lparr>uuids := Suc (Suc (uuids u))\<rparr>) \<and> drawn_postings E eid ws (uuids u) legs ps"
proof -
  consider (out) x where "type = ''EXPENSE''" "c = Some x" "legs = [(a, 0 - n), (x, n - 0)]"
    | (inc) x where "type = ''INCOME''" "c = Some x" "legs = [(a, n - 0), (x, 0 - n)]"
    | (move) x where "type = ''TRANSFER''" "t = Some x" "legs = [(a, 0 - n), (x, n - 0)]"
    using assms(1) unfolding money_legs_def by (auto split: if_splits)
  then show ?thesis
  proof cases
    case out
    then show ?thesis unfolding buildPostings_def Let_def by (simp del: diff_0 diff_zero) (rule pair_drawn, simp_all add: assms(2))
  next
    case inc
    then show ?thesis unfolding buildPostings_def Let_def by (simp del: diff_0 diff_zero) (rule pair_drawn, simp_all add: assms(2))
  next
    case move
    then show ?thesis unfolding buildPostings_def Let_def by (simp del: diff_0 diff_zero) (rule pair_drawn, simp_all add: assms(2))
  qed
qed

lemma drawn_insertable:
  assumes d: "drawn_postings E eid ws k legs ps" and "inj (env_uuid E)"
    and fresh: "\<forall>n \<ge> k. env_uuid E n \<notin> jp_id ` set (journal_postings u)"
    and "is_member uid u ws" and ent: "e \<in> set (journal_entries u)" "je_id e = eid"
    and ws: "\<forall>x \<in> set (journal_entries u). je_id x = eid \<longrightarrow> je_workspace_id x = ws"
    and acc: "\<forall>x \<in> set legs. fst x \<in> la_id ` set (ledger_accounts u)"
  shows "insert_postings uid ps u =
     Inr (map (derive_workspace u) ps,
          u\<lparr>journal_postings := journal_postings u @ map (derive_workspace u) ps\<rparr>)"
proof -
  have w: "jp_workspace_id (derive_workspace u p) = ws" if "p \<in> set ps" for p
  proof (cases "find (\<lambda>x. je_id x = jp_journal_entry_id p) (journal_entries u)")
    case None
    then show ?thesis using that d by (simp add: derive_workspace_def drawn_postings_def list_all_iff)
  next
    case (Some x)
    then have "x \<in> set (journal_entries u)" "je_id x = jp_journal_entry_id p"
      by (auto simp: find_Some_iff)
    then have "je_workspace_id x = ws" using that d ws by (simp add: drawn_postings_def list_all_iff)
    then show ?thesis by (simp add: derive_workspace_def Some)
  qed
  have ok: "posting_ok (derive_workspace u p)" if "p \<in> set ps" for p
    using that d by (auto simp: drawn_postings_def list_all_iff posting_ok_def)
  have ids: "distinct (map jp_id ps)"
    using d assms(2) by (simp add: drawn_postings_def inj_eq)
  have new: "jp_id p \<notin> jp_id ` set (journal_postings u)" if "p \<in> set ps" for p
  proof -
    have "jp_id p \<in> set (map jp_id ps)" using that by simp
    moreover have "set (map jp_id ps) = {env_uuid E k, env_uuid E (Suc k)}"
      using d by (simp only: drawn_postings_def list.set)
    ultimately have "jp_id p = env_uuid E k \<or> jp_id p = env_uuid E (Suc k)" by blast
    then show ?thesis using fresh by (metis le_SucI order_refl)
  qed
  have accs: "jp_ledger_account_id p \<in> la_id ` set (ledger_accounts u)" if "p \<in> set ps" for p
  proof -
    have "leg p \<in> set legs" using that d by (auto simp: drawn_postings_def)
    then show ?thesis using acc by (auto simp: leg_def)
  qed
  have eid: "jp_journal_entry_id p = eid" if "p \<in> set ps" for p
    using that d by (simp add: drawn_postings_def list_all_iff)
  have c1: "list_all (\<lambda>p. is_member uid u (jp_workspace_id p)) (map (derive_workspace u) ps)"
    using w assms(4) by (simp add: list_all_iff)
  have c2: "distinct (map jp_id (map (derive_workspace u) ps))"
    using ids by (simp add: comp_def)
  have c3: "\<not> list_ex (\<lambda>p. list_ex (\<lambda>q. jp_id q = jp_id p) (journal_postings u)) (map (derive_workspace u) ps)"
    using new by (simp add: list_ex_iff) (metis (no_types, lifting) image_eqI)
  have c4: "list_all posting_ok (map (derive_workspace u) ps)"
    using ok by (simp add: list_all_iff)
  have c5: "list_all (\<lambda>p. list_ex (\<lambda>e. je_id e = jp_journal_entry_id p) (journal_entries u)
      \<and> list_ex (\<lambda>a. la_id a = jp_ledger_account_id p) (ledger_accounts u)) (map (derive_workspace u) ps)"
  proof -
    have "list_ex (\<lambda>e. je_id e = jp_journal_entry_id p) (journal_entries u)" if "p \<in> set ps" for p
      using eid [OF that] ent by (auto simp: list_ex_iff)
    moreover have "list_ex (\<lambda>a. la_id a = jp_ledger_account_id p) (ledger_accounts u)" if "p \<in> set ps" for p
      using accs [OF that] by (auto simp: list_ex_iff)
    ultimately show ?thesis by (simp add: list_all_iff)
  qed
  show ?thesis
    unfolding insert_postings_def Let_def using c1 c2 c3 c4 c5 by (simp only: not_not if_False if_True simp_thms)
qed

section \<open>Success\<close>

text \<open>
  A request the accounting can carry out: a positive amount, a known type whose counterpart (the
  category's account or the destination) is given, and accounts that exist.
\<close>

definition valid_request ::
    "string \<Rightarrow> string \<Rightarrow> create_transaction_dto \<Rightarrow> db \<Rightarrow> int \<Rightarrow> (string \<times> int) list \<Rightarrow> bool" where
  "valid_request uid ws dto s n legs \<longleftrightarrow> good_amount dto n \<and> is_member uid s ws
     \<and> entry_type_of_string (ct_type dto) \<noteq> None
     \<and> (\<exists>a. category_found uid ws dto s a
          \<and> money_legs (ct_type dto) (ct_account_id dto) a (truthy (ct_transfer_to_account_id dto)) n
              = Some legs)
     \<and> list_all (\<lambda>l. list_ex (\<lambda>a. la_id a = fst l) (ledger_accounts s)) legs"

lemma total_run: "total_call m \<Longrightarrow> \<exists>x t. m s = (Inr x, t)"
  by (cases "m s") (metis fst_conv isl_def old.sum.exhaust total_call_def)

lemma category_found_frame:
  "categories t = categories s \<Longrightarrow> members t = members s \<Longrightarrow>
     category_found uid ws dto t a = category_found uid ws dto s a"
proof -
  assume "categories t = categories s" "members t = members s"
  then have "visible_categories uid t = visible_categories uid s"
    by (simp add: visible_categories_def is_member_def cong: option.case_cong)
  then have "workspace_categories uid ws c t = workspace_categories uid ws c s" for c
    by (simp add: workspace_categories_def)
  then show ?thesis
    by (cases "truthy (ct_category_id dto)") (simp_all add: category_found_def)
qed

lemma post_entry_succeeds:
  assumes "faults u = []" "inj (env_uuid E)"
    and fresh: "\<forall>n \<ge> uuids u. env_uuid E n \<notin> jp_id ` set (journal_postings u)"
    and "is_member uid u ws" and ent: "e \<in> set (journal_entries u)"
    and ws: "\<forall>x \<in> set (journal_entries u). je_id x = je_id e \<longrightarrow> je_workspace_id x = ws"
    and cat: "category_found uid ws dto u a"
    and legs: "money_legs (ct_type dto) (ct_account_id dto) a (truthy (ct_transfer_to_account_id dto)) n = Some legs"
    and acc: "\<forall>x \<in> set legs. fst x \<in> la_id ` set (ledger_accounts u)" and "0 < n"
  shows "\<exists>ps t. post_entry E rules ev uid ws dto n e u = (Inr \<lparr>tv_entry = e, tv_postings = ps\<rparr>, t)
     \<and> map leg ps = legs"
proof -
  define cur where "cur = (case data_of (single (account_rows uid (ct_account_id dto) u)) of
      None \<Rightarrow> ''BDT'' | Some x \<Rightarrow> if la_currency_code x = [] then ''BDT'' else la_currency_code x)"
  obtain ps where b: "buildPostings E (je_id e) ws (ct_type dto) n (ct_account_id dto) a
      (truthy (ct_transfer_to_account_id dto)) cur u = (Inr ps, u\<lparr>uuids := Suc (Suc (uuids u))\<rparr>)"
    and d: "drawn_postings E (je_id e) ws (uuids u) legs ps"
    using build_drawn [OF legs \<open>0 < n\<close>] by blast
  define v where "v = u\<lparr>uuids := Suc (Suc (uuids u))\<rparr>"
  define qs where "qs = map (derive_workspace v) ps"
  define w where "w = v\<lparr>journal_postings := journal_postings v @ qs\<rparr>"
  have i: "insert_postings uid ps v = Inr (qs, w)"
    unfolding qs_def w_def
    by (rule drawn_insertable [OF d assms(2)])
      (use fresh assms(4) ent ws acc in \<open>auto simp: v_def is_member_def\<close>)
  have st: "stmt (insert_postings uid ps) v = (Inr (Inr qs), w)"
    using assms(1) i by (simp add: stmt_no_fault v_def)
  obtain x1 t1 where t1: "attach_tags E uid ws (je_id e) (ct_tags dto) w = (Inr x1, t1)"
    using total_run [OF total_attach_tags] by blast
  have "total_call (if ev then api_catch rules (\<lambda>e. api_return ()) else api_return ())"
    by (intro total_intros)
  from total_run [OF this] obtain x2 t2
    where t2: "(if ev then api_catch rules (\<lambda>e. api_return ()) else api_return ()) t1 = (Inr x2, t2)"
    by blast
  have sel: "select_single (account_rows uid (ct_account_id dto)) u
      = (Inr (single (account_rows uid (ct_account_id dto) u)), u)"
    by (rule select_single_no_fault [OF assms(1)])
  have "post_entry E rules ev uid ws dto n e u = (Inr \<lparr>tv_entry = e, tv_postings = qs\<rparr>, t2)"
    unfolding post_entry_def Let_def api_bind_def
    by (simp add: sel category_resolved [OF assms(1) cat] b [unfolded cur_def] st [unfolded v_def]
        t1 t2 api_return_def)
  moreover have "map leg qs = legs"
    using d by (simp add: qs_def drawn_postings_def comp_def)
  ultimately show ?thesis by blast
qed

lemma create_succeeds:
  assumes "ledger_silent rules" and "faults s = []" and "fresh_uuids E s"
    and "new_key E ws uid (ct_idempotency_key dto) s" and "valid_request uid ws dto s n legs"
  shows "\<exists>v t. createTransaction E rules src ev ws uid dto s = (Inr v, t)
     \<and> journal_entries t = journal_entries s @ [tv_entry v]
     \<and> journal_postings t = journal_postings s @ tv_postings v \<and> map leg (tv_postings v) = legs"
proof -
  obtain ty where ty: "entry_type_of_string (ct_type dto) = Some ty"
    using assms(5) by (auto simp: valid_request_def)
  let ?e = "posted_entry E uid ws src dto (env_uuid E (uuids s)) ty"
  let ?u = "entry_written E src ws uid dto ty s"
  obtain a where a: "category_found uid ws dto s a"
      "money_legs (ct_type dto) (ct_account_id dto) a (truthy (ct_transfer_to_account_id dto)) n = Some legs"
    using assms(5) by (auto simp: valid_request_def)
  have good: "good_amount dto n" "is_member uid s ws" using assms(5) by (auto simp: valid_request_def)
  have id: "je_id ?e = env_uuid E (uuids s)" "je_workspace_id ?e = ws" by (simp_all add: posted_entry_def)
  have fresh: "x \<in> set (journal_entries s) \<Longrightarrow> je_id x \<noteq> env_uuid E (uuids s)" for x
    using assms(3) by (metis fresh_uuids_def image_eqI order_refl)
  have "\<exists>ps t. post_entry E rules ev uid ws dto n ?e ?u = (Inr \<lparr>tv_entry = ?e, tv_postings = ps\<rparr>, t)
      \<and> map leg ps = legs"
  proof (rule post_entry_succeeds)
    show "\<forall>n\<ge>uuids ?u. env_uuid E n \<notin> jp_id ` set (journal_postings ?u)"
      using assms(3) by (simp add: fresh_uuids_def)
    show "category_found uid ws dto ?u a"
      using a(1) by (subst category_found_frame [of _ s]) simp_all
    show "is_member uid ?u ws" using good(2) by (simp add: is_member_def)
    show "\<forall>x\<in>set (journal_entries ?u). je_id x = je_id ?e \<longrightarrow> je_workspace_id x = ws"
      using id fresh by auto
    show "\<forall>x\<in>set legs. fst x \<in> la_id ` set (ledger_accounts ?u)"
      using assms(5) by (fastforce simp: valid_request_def list_all_iff list_ex_iff)
  qed (use assms(2,3) a(2) good in \<open>auto simp: fresh_uuids_def good_amount_def\<close>)
  then obtain ps t where run: "createTransaction E rules src ev ws uid dto s
        = (Inr \<lparr>tv_entry = ?e, tv_postings = ps\<rparr>, t)" and legs: "map leg ps = legs"
    using create_reaches_post [OF assms(2-4) good(2,1) ty] by auto
  have "?e \<notin> set (journal_entries s)" using fresh id by metis
  then show ?thesis
    using create_effect [OF assms(1) run] run legs
    by (auto simp: create_returned_def replayed_def)
qed

text \<open>
  A valid request succeeds: without statement failures, under a key that is new for the user,
  the creation returns, having added one entry and its postings, whose signed amounts are the legs
  of the transaction (money out of one account and into the other).
\<close>

theorem createTransaction_succeeds:
  assumes "ledger_silent rules" and "faults s = []" and "fresh_uuids E s"
    and "new_key E ws uid (ct_idempotency_key dto) s" and "valid_request uid ws dto s n legs"
  shows "\<exists>v t. createTransaction E rules src ev ws uid dto s = (Inr v, t)
     \<and> journal_entries t = journal_entries s @ [tv_entry v]
     \<and> journal_postings t = journal_postings s @ tv_postings v \<and> map leg (tv_postings v) = legs"
  by (rule create_succeeds [OF assms])

definition demo_dto :: create_transaction_dto where
  "demo_dto = \<lparr>ct_type = ''EXPENSE'', ct_amount = ''1250'', ct_account_id = ''cash'',
     ct_category_id = Some ''food'', ct_transfer_to_account_id = None, ct_occurred_at = None,
     ct_payee = Some ''Shop'', ct_note = None, ct_tags = [''Groceries''], ct_idempotency_key = ''k1''\<rparr>"

lemma demo_fresh: "fresh_uuids demo_env demo_db"
  by (simp add: fresh_uuids_def inj_demo_uuid)

lemma demo_new_key: "new_key demo_env ws ''u1'' k demo_db"
  by (simp add: new_key_def existing_entries_def visible_entries_def)

lemma demo_minor: "is_minor_string ''1250'' \<and> minor_value ''1250'' = 1250"
  by code_simp

lemma demo_amount: "ct_amount dto = ''1250'' \<Longrightarrow> good_amount dto 1250"
  by (simp add: good_amount_def parse_accepts MAX_SAFE_INTEGER_def demo_minor)

lemma demo_accounts: "list_ex (\<lambda>a. la_id a = ''cash'') (ledger_accounts demo_db)"
    "list_ex (\<lambda>a. la_id a = ''acc-food'') (ledger_accounts demo_db)"
  by (simp_all add: demo_defs)

lemma demo_food: "workspace_categories ''u1'' ''w1'' ''food'' demo_db = [demo_category]"
  by (simp add: workspace_categories_def visible_categories_def is_member_def demo_defs)

lemma demo_valid:
  "valid_request ''u1'' ''w1'' demo_dto demo_db 1250 [(''cash'', -1250), (''acc-food'', 1250)]"
proof -
  have "category_found ''u1'' ''w1'' demo_dto demo_db (Some ''acc-food'')"
    by (simp add: category_found_def demo_dto_def truthy_def demo_food) (simp add: demo_category_def)
  moreover have "money_legs ''EXPENSE'' ''cash'' (Some ''acc-food'') x 1250
      = Some [(''cash'', -1250), (''acc-food'', 1250)]" for x
    by (simp add: money_legs_def)
  ultimately show ?thesis
    unfolding valid_request_def
    by (auto simp: demo_dto_def demo_amount entry_type_of_string_def demo_accounts)
qed

theorem createTransaction_succeeds_witness:
  "\<exists>v t. createTransaction demo_env (api_return ()) MANUAL True ''w1'' ''u1'' demo_dto demo_db = (Inr v, t)
     \<and> journal_entries t = journal_entries demo_db @ [tv_entry v]
     \<and> journal_postings t = journal_postings demo_db @ tv_postings v
     \<and> map leg (tv_postings v) = [(''cash'', -1250), (''acc-food'', 1250)]"
  by (rule createTransaction_succeeds [OF ledger_silent_return _ demo_fresh demo_new_key demo_valid]) simp

section \<open>Refused, but written\<close>

lemma no_postings_of_fresh:
  assumes "ledger_ok s" "eid \<notin> je_id ` set (journal_entries s)" "journal_postings t = journal_postings s"
  shows "entry_postings uid eid t = []"
proof -
  have "jp_journal_entry_id p \<noteq> eid" if "p \<in> set (journal_postings s)" for p
  proof -
    have "list_ex (\<lambda>e. je_id e = jp_journal_entry_id p \<and> je_workspace_id e = jp_workspace_id p)
        (journal_entries s)"
      using assms(1) that by (simp add: ledger_ok_def ledger_wf_def list_all_iff)
    then show ?thesis using assms(2) by (auto simp: list_ex_iff) (metis image_eqI)
  qed
  then show ?thesis
    using assms(3) by (simp add: entry_postings_def visible_postings_def filter_empty_conv)
qed

lemma replay_result:
  assumes "faults t = []" "good_amount dto n" "existing_entries uid ws (ct_idempotency_key dto) t = [e]"
  shows "createTransaction E rules src ev ws uid dto t
     = (Inr \<lparr>tv_entry = e, tv_postings = entry_postings uid (je_id e) t\<rparr>, t)"
  unfolding createTransaction_def api_bind_def
  by (simp add: parsed_good [OF assms(2)] select_single_no_fault [OF assms(1)] assms(3) single_def
      data_of_def with_postings_def api_bind_def select_no_fault [OF assms(1)] data_list_def api_return_def)

text \<open>
   A request for an expense without a category is refused only after its entry was inserted:
  it answers CATEGORY_REQUIRED, yet a POSTED entry without any posting stays in the journal, and the
  retry of the same request is answered with success, as if that entry were a transaction.
\<close>

theorem refused_request_leaves_entry:
  assumes "ledger_ok s" and "faults s = []" and "fresh_uuids E s"
    and "new_key E ws uid (ct_idempotency_key dto) s" and "is_member uid s ws"
    and "good_amount dto n" and "ct_type dto = ''EXPENSE''" and "truthy (ct_category_id dto) = None"
  shows "\<exists>e t m. createTransaction E rules src ev ws uid dto s = (Inl (Bad_request ''CATEGORY_REQUIRED'' m), t)
     \<and> journal_entries t = journal_entries s @ [e] \<and> je_status e = POSTED
     \<and> journal_postings t = journal_postings s
     \<and> createTransaction E rules src ev ws uid dto t = (Inr \<lparr>tv_entry = e, tv_postings = []\<rparr>, t)"
proof -
  have ty: "entry_type_of_string (ct_type dto) = Some ET_EXPENSE"
    by (simp add: assms(7) entry_type_of_string_def)
  let ?e = "posted_entry E uid ws src dto (env_uuid E (uuids s)) ET_EXPENSE"
  let ?u = "entry_written E src ws uid dto ET_EXPENSE s"
  have nf: "faults ?u = []" by (simp add: assms(2))
  have fields: "je_workspace_id ?e = ws" "je_created_by ?e = uid"
      "je_client_entry_id ?e = ct_idempotency_key dto"
    by (simp_all add: posted_entry_def)
  have run: "createTransaction E rules src ev ws uid dto s = (Inl (Bad_request ''CATEGORY_REQUIRED''
      ''Category is required for expense transactions''), ?u)"
    unfolding create_reaches_post [OF assms(2-6) ty] post_entry_def Let_def api_bind_def
    by (simp add: select_single_no_fault [OF nf] category_account_id_def assms(8) api_return_def
        buildPostings_def assms(7) api_throw_def)
  have "env_uuid E (uuids s) \<notin> je_id ` set (journal_entries s)"
    using assms(3) by (simp add: fresh_uuids_def)
  then have none: "entry_postings uid (je_id ?e) ?u = []"
    by (intro no_postings_of_fresh [OF assms(1)]) (simp_all add: posted_entry_def)
  have mem: "is_member uid ?u = is_member uid s" by (rule ext) (simp add: is_member_def)
  have "existing_entries uid ws (ct_idempotency_key dto) ?u = [?e]"
    using assms(4,5) by (simp add: existing_entries_def visible_entries_def new_key_def mem fields)
  from replay_result [OF nf assms(6) this] run none show ?thesis
    by (intro exI [of _ ?e] exI [of _ ?u] exI conjI) (simp_all add: posted_entry_def)
qed

theorem refused_request_leaves_entry_witness:
  "\<exists>e t m. createTransaction demo_env (api_return ()) MANUAL True ''w1'' ''u1''
        (demo_dto\<lparr>ct_category_id := None\<rparr>) demo_db = (Inl (Bad_request ''CATEGORY_REQUIRED'' m), t)
     \<and> journal_entries t = journal_entries demo_db @ [e] \<and> je_status e = POSTED
     \<and> journal_postings t = journal_postings demo_db
     \<and> createTransaction demo_env (api_return ()) MANUAL True ''w1'' ''u1''
        (demo_dto\<lparr>ct_category_id := None\<rparr>) t = (Inr \<lparr>tv_entry = e, tv_postings = []\<rparr>, t)"
  by (rule refused_request_leaves_entry [OF _ _ demo_fresh demo_new_key, where n = 1250])
    (simp_all add: demo_amount demo_dto_def truthy_def)

section \<open>A key of another workspace\<close>

text \<open>
   The key of an idempotent submission is looked up within the workspace, but its unique hash is
  not: submitting to a second workspace a key the user already used in a first one writes nothing
  and returns the first workspace's entry as the result.
\<close>

theorem key_of_other_workspace:
  assumes "ledger_ok s" and "faults s = []" and "is_member uid s ws" and "is_member uid s ws'"
    and "e \<in> set (journal_entries s)" and "entry_of_key E ws' uid (ct_idempotency_key dto) e"
    and "existing_entries uid ws (ct_idempotency_key dto) s = []"
    and "good_amount dto n" and "entry_type_of_string (ct_type dto) \<noteq> None"
  shows "createTransaction E rules src ev ws uid dto s =
     (Inr \<lparr>tv_entry = e, tv_postings = entry_postings uid (je_id e) s\<rparr>, s\<lparr>uuids := Suc (uuids s)\<rparr>)"
proof -
  let ?u = "s\<lparr>uuids := Suc (uuids s)\<rparr>"
  obtain ty where ty: "entry_type_of_string (ct_type dto) = Some ty" using assms(9) by auto
  have mem: "is_member uid ?u = is_member uid s" by (rule ext) (simp add: is_member_def)
  have ins: "insert_posted_entry E uid ws src dto (env_uuid E (uuids s)) ?u = Inl (pg UNIQUE_VIOLATION)"
    using assms(3,5,6) ty
    by (auto simp: insert_posted_entry_def insert_entry_def mem posted_entry_def entry_of_key_def
        entry_conflicts_def list_ex_iff)
  have uniq: "entries_unique (journal_entries s)" using assms(1) by (simp add: ledger_ok_def ledger_wf_def)
  let ?h = "idempotency_hash E uid (ct_idempotency_key dto)"
  have dist: "distinct (winner_entries uid ?h ?u)"
    using entries_unique_ids [OF uniq] by (simp add: winner_entries_def visible_entries_def distinct_map)
  have "x = e" if "x \<in> set (winner_entries uid ?h ?u)" for x
    using that assms(5,6) entries_unique_key [OF uniq, of x e]
    by (simp add: winner_entries_def visible_entries_def entry_of_key_def)
  moreover have "e \<in> set (winner_entries uid ?h ?u)"
    using assms(4-6) by (simp add: winner_entries_def visible_entries_def mem entry_of_key_def)
  ultimately have win: "winner_entries uid ?h ?u = [e]"
    using dist distinct_all_eq by metis
  have nf: "faults ?u = []" by (simp add: assms(2))
  have ps: "entry_postings uid (je_id e) ?u = entry_postings uid (je_id e) s"
    by (simp add: entry_postings_def visible_postings_def mem)
  show ?thesis
    unfolding createTransaction_def api_bind_def
    by (simp add: parsed_good [OF assms(8)] select_single_no_fault [OF assms(2)] assms(7) single_def
        data_of_def drawn stmt_no_fault [OF nf] ins insert_failed_def api_bind_def
        select_single_no_fault [OF nf] win with_postings_def select_no_fault [OF nf] data_list_def
        api_return_def ps)
qed

theorem key_of_other_workspace_witness:
  "createTransaction demo_env (api_return ()) MANUAL True ''w2'' ''u1'' demo_dto demo_posted =
     (Inr \<lparr>tv_entry = demo_entry, tv_postings = journal_postings demo_posted\<rparr>, demo_posted\<lparr>uuids := 1\<rparr>)"
proof -
  have k: "entry_of_key demo_env ''w1'' ''u1'' (ct_idempotency_key demo_dto) demo_entry"
    by (simp add: entry_of_key_def demo_entry_def demo_dto_def idempotency_hash_def demo_env_def)
  have x: "existing_entries ''u1'' ''w2'' (ct_idempotency_key demo_dto) demo_posted = []"
    by (simp add: existing_entries_def visible_entries_def demo_entry_def)
  have g: "good_amount demo_dto 1250" "entry_type_of_string (ct_type demo_dto) \<noteq> None"
    by (simp_all add: demo_amount demo_dto_def entry_type_of_string_def)
  have "entry_postings ''u1'' (je_id demo_entry) demo_posted = journal_postings demo_posted"
    by (simp add: entry_postings_def visible_postings_def demo_entry_def)
      (simp add: demo_posted_def demo_posting_def is_member_def demo_defs)
  then show ?thesis
    using key_of_other_workspace [OF demo_posted_ok _ _ _ _ k x g, of "api_return ()" MANUAL True]
    by simp
qed

section \<open>Instances of the other creation properties\<close>

theorem createTransaction_keeps_ledger_witness:
  "ledger_ok (snd (createTransaction demo_env (api_return ()) MANUAL True ''w1'' ''u1'' demo_dto
     (demo_db\<lparr>faults := [None, None, Some (pg ''57014'')]\<rparr>)))"
proof (rule createTransaction_keeps_ledger [OF ledger_silent_return])
  show "ledger_ok (demo_db\<lparr>faults := [None, None, Some (pg ''57014'')]\<rparr>)"
    using demo_ledger_ok by (simp add: ledger_ok_def ledger_wf_def ledger_balanced_def)
qed

theorem createTransaction_effect_witness:
  "\<exists>v t. createTransaction demo_env (api_return ()) MANUAL True ''w1'' ''u1'' demo_dto demo_db = (Inr v, t)
     \<and> create_returned demo_env MANUAL ''w1'' ''u1'' demo_dto demo_db v t"
proof -
  obtain v t where run: "createTransaction demo_env (api_return ()) MANUAL True ''w1'' ''u1'' demo_dto demo_db
      = (Inr v, t)"
    using create_succeeds [OF ledger_silent_return demo_tables(3) demo_fresh demo_new_key demo_valid]
    by metis
  then show ?thesis using createTransaction_effect [OF ledger_silent_return run] by auto
qed

theorem resubmission_is_idempotent_witness:
  "\<exists>r t. createTransaction demo_env (api_return ()) MANUAL True ''w1'' ''u1'' demo_dto demo_posted = (r, t)
     \<and> same_ledger demo_posted t \<and> (\<forall>v. r = Inr v \<longrightarrow> tv_entry v = demo_entry)"
proof -
  obtain r t where run: "createTransaction demo_env (api_return ()) MANUAL True ''w1'' ''u1'' demo_dto
      demo_posted = (r, t)" by (metis surj_pair)
  have "entry_of_key demo_env ''w1'' ''u1'' (ct_idempotency_key demo_dto) demo_entry"
    by (simp add: entry_of_key_def demo_entry_def demo_dto_def idempotency_hash_def demo_env_def)
  from resubmission_is_idempotent [OF demo_posted_ok _ this run] run show ?thesis by auto
qed

end
