(* ===== verification/Reversal.thy ===== *)
theory Reversal
  imports TransactionReads TransactionLive
begin

text \<open>
  Correctness of \<open>reverseTransaction\<close>: the mirror entry cancels the original on every account, the
  original is untouched, a failure writes nothing, and an entry is reversed at most once.
\<close>

definition movement :: "string \<Rightarrow> string \<Rightarrow> db \<Rightarrow> int" where
  "movement eid acct s = sum_list (map (\<lambda>p. jp_debit_minor p - jp_credit_minor p)
     [p \<leftarrow> journal_postings s. jp_journal_entry_id p = eid \<and> jp_ledger_account_id p = acct])"

lemma mirrored_entry: "p \<in> set (mirrored E n rid ps) \<Longrightarrow> jp_journal_entry_id p = rid"
  by (induction ps arbitrary: n) (auto simp: mirror_def)

lemma sum_mirrored:
  "sum_list (map (\<lambda>p. jp_debit_minor p - jp_credit_minor p)
       [p \<leftarrow> mirrored E n rid ps. jp_ledger_account_id p = a])
     = - sum_list (map (\<lambda>p. jp_debit_minor p - jp_credit_minor p) [p \<leftarrow> ps. jp_ledger_account_id p = a])"
  by (induction ps arbitrary: n) (simp_all add: mirror_def)

lemma totals_mirrored:
  "sum_list (map jp_debit_minor (mirrored E n rid ps)) = sum_list (map jp_credit_minor ps)"
  "sum_list (map jp_credit_minor (mirrored E n rid ps)) = sum_list (map jp_debit_minor ps)"
  by (induction ps arbitrary: n) (simp_all add: mirror_def)

lemma filter_all: "(\<And>x. x \<in> set xs \<Longrightarrow> P x) \<Longrightarrow> filter P xs = xs"
  by (simp add: filter_id_conv)

lemma balanced_mirrored:
  assumes "ledger_balanced s"
  shows "balanced_batch (mirrored E n rid [p \<leftarrow> journal_postings s. jp_journal_entry_id p = i])"
proof -
  let ?ps = "[p \<leftarrow> journal_postings s. jp_journal_entry_id p = i]"
  have "sum_list (map jp_debit_minor ?ps) = sum_list (map jp_credit_minor ?ps)"
    using assms by (simp add: ledger_balanced_def balanced_batch_iff debits_of_def credits_of_def)
  moreover have "[p \<leftarrow> mirrored E n rid ?ps. jp_journal_entry_id p = rid] = mirrored E n rid ?ps"
    by (rule filter_all) (rule mirrored_entry)
  ultimately have "debits_of rid (mirrored E n rid ?ps) = credits_of rid (mirrored E n rid ?ps)"
    unfolding debits_of_def credits_of_def by (simp only: totals_mirrored)
  then show ?thesis
    unfolding balanced_batch_def list_all_iff by (metis mirrored_entry)
qed

text \<open>In a well-formed ledger, whoever sees an entry sees its postings.\<close>

lemma visible_postings_of_entry:
  assumes "ledger_ok s" "e \<in> set (visible_entries uid s)" "je_id e = i"
  shows "[p \<leftarrow> visible_postings uid s. jp_journal_entry_id p = i]
    = [p \<leftarrow> journal_postings s. jp_journal_entry_id p = i]"
proof -
  have "is_member uid s (jp_workspace_id p)"
    if "p \<in> set (journal_postings s)" "jp_journal_entry_id p = i" for p
  proof -
    have "list_ex (\<lambda>e. je_id e = i \<and> je_workspace_id e = jp_workspace_id p) (journal_entries s)"
      using assms(1) that by (auto simp: ledger_ok_def ledger_wf_def list_all_iff)
    then obtain x where x: "x \<in> set (journal_entries s)" "je_id x = i"
        "je_workspace_id x = jp_workspace_id p" by (auto simp: list_ex_iff)
    have "x = e"
      by (rule entries_unique_id [of "journal_entries s"])
        (use assms x in \<open>auto simp: ledger_ok_def ledger_wf_def visible_entries_def\<close>)
    then show ?thesis using assms(2) x(3) by (simp add: visible_entries_def)
  qed
  then show ?thesis by (auto simp: visible_postings_def intro: filter_cong)
qed

definition reversed_by :: "string \<Rightarrow> string \<Rightarrow> db \<Rightarrow> db \<Rightarrow> bool" where
  "reversed_by i rid s t \<longleftrightarrow>
     (\<exists>e ps. je_id e = rid \<and> je_reverses_entry_id e = Some i \<and> je_status e = POSTED
        \<and> journal_entries t = journal_entries s @ [e] \<and> journal_postings t = journal_postings s @ ps
        \<and> list_all (\<lambda>p. jp_journal_entry_id p = rid) ps \<and> ps \<noteq> [])"

lemma reverse_sql:
  assumes "reverse_journal_entry E uid i ws s = Inr (rid, t)" "ledger_ok s"
  shows "ledger_ok t \<and> reversed_by i rid s t \<and> rid \<notin> je_id ` set (journal_entries s)
    \<and> (\<forall>a. movement i a t + movement rid a t = 0)"
proof -
  let ?ps = "[p \<leftarrow> journal_postings s. jp_journal_entry_id p = i]"
  let ?rid = "env_uuid E (uuids s)"
  let ?u = "s\<lparr>uuids := uuids s + 1 + length ?ps\<rparr>"
  obtain orig where "find (\<lambda>e. je_id e = i \<and> je_workspace_id e = ws \<and> je_status e = POSTED)
      (visible_entries uid s) = Some orig"
    using assms(1) by (auto simp: reverse_journal_entry_def split: option.splits)
  note found = this
  have o: "orig \<in> set (visible_entries uid s)" "je_id orig = i"
    using found by (auto simp: find_Some_iff)
  note vis = visible_postings_of_entry [OF assms(2) o]
  let ?rev = "reversal_entry E uid ?rid orig"
  let ?mir = "mirrored E (uuids s + 1) ?rid ?ps"
  have eq: "reverse_journal_entry E uid i ws s =
      (case insert_entry uid ?rev ?u of
         Inl e \<Rightarrow> Inl e
       | Inr (_, s1) \<Rightarrow>
           (case insert_postings uid ?mir s1 of
              Inl e \<Rightarrow> Inl e
            | Inr (_, s2) \<Rightarrow>
                if ?ps = [] then Inl (raised ''ENTRY_HAS_NO_POSTINGS'') else Inr (?rid, s2)))"
    by (simp only: reverse_journal_entry_def found option.case Let_def vis)
  obtain s1 x where s1: "insert_entry uid ?rev ?u = Inr (x, s1)"
    using assms(1) unfolding eq by (cases "insert_entry uid ?rev ?u") auto
  have rest: "(case insert_postings uid ?mir s1 of
              Inl e \<Rightarrow> Inl e
            | Inr (_, s2) \<Rightarrow>
                if ?ps = [] then Inl (raised ''ENTRY_HAS_NO_POSTINGS'') else Inr (?rid, s2)) = Inr (rid, t)"
    using assms(1) unfolding eq s1 by simp
  obtain y where s2: "insert_postings uid ?mir s1 = Inr (y, t)"
      and rid: "rid = ?rid" and some: "?ps \<noteq> []"
    using rest by (cases "insert_postings uid ?mir s1") (auto split: if_splits)
  have s1': "s1 = ?u\<lparr>journal_entries := journal_entries s @ [?rev]\<rparr>"
    using s1 by (auto simp: insert_entry_def split: if_splits)
  have nc: "\<not> list_ex (entry_conflicts ?rev) (journal_entries s)"
    using s1 by (auto simp: insert_entry_def split: if_splits)
  have fresh: "?rid \<notin> je_id ` set (journal_entries s)"
    using nc by (auto simp: list_ex_iff entry_conflicts_def reversal_entry_def)
  let ?new = "map (derive_workspace s1) (mirrored E (uuids s + 1) ?rid ?ps)"
  have t: "t = s1\<lparr>journal_postings := journal_postings s @ ?new\<rparr>"
    using s2 by (auto simp: insert_postings_def Let_def s1' split: if_splits)
  have jt: "journal_postings t = journal_postings s @ ?new" by (simp add: t)
  have oku: "ledger_ok ?u" using assms(2) by (simp add: ledger_ok_def ledger_wf_def ledger_balanced_def)
  have "ledger_ok s1" by (rule insert_entry_ok [OF s1 oku])
  have bal: "balanced_batch (mirrored E (uuids s + 1) ?rid ?ps)"
    by (rule balanced_mirrored) (use assms(2) in \<open>simp add: ledger_ok_def\<close>)
  have ok: "ledger_ok t" by (rule insert_postings_ok [OF s2 bal \<open>ledger_ok s1\<close>])
  have old: "jp_journal_entry_id p \<noteq> ?rid" if "p \<in> set (journal_postings s)" for p
  proof -
    have "list_ex (\<lambda>e. je_id e = jp_journal_entry_id p \<and> je_workspace_id e = jp_workspace_id p)
        (journal_entries s)"
      using assms(2) that by (simp add: ledger_ok_def ledger_wf_def list_all_iff)
    then show ?thesis using fresh by (auto simp: list_ex_iff) (metis image_eqI)
  qed
  have "orig \<in> set (journal_entries s)" using o by (simp add: visible_entries_def)
  then have ne: "i \<noteq> ?rid" using o(2) fresh by (metis image_eqI)
  have new_id: "jp_journal_entry_id p = ?rid" if "p \<in> set ?new" for p
    using that mirrored_entry by fastforce
  have m1: "movement i a t = movement i a s" for a
  proof -
    have "[p \<leftarrow> ?new. jp_journal_entry_id p = i \<and> jp_ledger_account_id p = a] = []"
      unfolding filter_empty_conv using new_id ne by metis
    then show ?thesis by (simp add: movement_def t)
  qed
  have m2: "movement ?rid a t = - movement i a s" for a
  proof -
    have e1: "[p \<leftarrow> journal_postings s. jp_journal_entry_id p = ?rid \<and> jp_ledger_account_id p = a] = []"
      unfolding filter_empty_conv using old by metis
    have e2: "[p \<leftarrow> ?new. jp_journal_entry_id p = ?rid \<and> jp_ledger_account_id p = a]
        = [p \<leftarrow> ?new. jp_ledger_account_id p = a]"
      by (rule filter_cong [OF refl]) (metis new_id)
    have e3: "sum_list (map (\<lambda>p. jp_debit_minor p - jp_credit_minor p)
        [p \<leftarrow> map (derive_workspace s1) qs. jp_ledger_account_id p = a])
      = sum_list (map (\<lambda>p. jp_debit_minor p - jp_credit_minor p) [p \<leftarrow> qs. jp_ledger_account_id p = a])" for qs
      by (induction qs) simp_all
    have "movement ?rid a t = sum_list (map (\<lambda>p. jp_debit_minor p - jp_credit_minor p)
        [p \<leftarrow> ?new. jp_ledger_account_id p = a])"
      unfolding movement_def jt by (simp only: filter_append e1 e2 append_Nil)
    also have "... = - movement i a s"
      unfolding e3 sum_mirrored by (simp add: movement_def conj_commute)
    finally show ?thesis .
  qed
  have "reversed_by i rid s t"
    unfolding reversed_by_def rid
  proof (intro exI conjI)
    show "journal_entries t = journal_entries s @ [?rev]" by (simp add: t s1')
    show "journal_postings t = journal_postings s @ ?new" by (simp add: t)
    show "list_all (\<lambda>p. jp_journal_entry_id p = ?rid) ?new"
      unfolding list_all_iff using new_id by blast
    show "?new \<noteq> []" using some by (cases ?ps) simp_all
  qed (simp_all add: reversal_entry_def o)
  then show ?thesis using ok fresh m1 m2 rid by simp
qed

definition reverse_returned :: "string \<Rightarrow> db \<Rightarrow> db \<Rightarrow> bool" where
  "reverse_returned i s t \<longleftrightarrow> ledger_ok t
     \<and> (\<exists>rid. reversed_by i rid s t \<and> rid \<notin> je_id ` set (journal_entries s)
          \<and> (\<forall>a. movement i a t + movement rid a t = 0))"

lemma reverse_returned_frame:
  assumes "reverse_returned i s t" "same_ledger t u"
  shows "reverse_returned i s u"
  using assms same_ledger_ok [OF assms(2)]
  by (simp add: reverse_returned_def same_ledger_def reversed_by_def movement_def)

lemma same_ledger_faults [simp]: "same_ledger s (s\<lparr>faults := fs\<rparr>)"
  by (simp add: same_ledger_def)

lemma reverse_returned_start: "reverse_returned i (faults_update f s) t = reverse_returned i s t"
  by (simp add: reverse_returned_def reversed_by_def)

lemma keeps_reverse_returned: "ledger_silent m \<Longrightarrow> keeps (reverse_returned i s) m"
  by (metis keepsI ledger_silent_def reverse_returned_frame)

lemma ledger_silent_select_single: "ledger_silent (select_single q)"
  by (rule ledger_silentI) (rule keeps_select_single, simp)

lemma ledger_silent_catch: "ledger_silent m \<Longrightarrow> ledger_silent (api_catch m (\<lambda>_. api_return ()))"
  by (rule ledger_silentI) (intro keeps_intros ledger_silent_keeps)

lemma reverse_transaction_cases:
  assumes silent: "\<And>i. ledger_silent (notify i)" and ok: "ledger_ok s"
    and run: "reverseTransaction E notify i ws uid s = (r, t)"
  shows "case r of Inl e \<Rightarrow> same_ledger s t | Inr v \<Rightarrow> reverse_returned i s t"
proof -
  obtain q u where st: "stmt (reverse_journal_entry E uid i ws) s = (q, u)"
    by (cases "stmt (reverse_journal_entry E uid i ws) s")
  from st show ?thesis
  proof (cases rule: stmt_cases)
    case (fails e)
    then have "r = Inl (reversal_error e) \<and> t = u"
      using run st by (simp add: reverseTransaction_def api_bind_def api_throw_def)
    then show ?thesis using fails by simp
  next
    case (works rid)
    let ?k = "api_bind (select_single (\<lambda>s. [(e, entry_postings uid rid s).
             e \<leftarrow> visible_entries uid s, je_id e = rid])) (\<lambda>read.
         api_bind (api_catch (notify rid) (\<lambda>_. api_return ())) (\<lambda>_.
         api_return (map_option (\<lambda>(e, ps). \<lparr>tv_entry = e, tv_postings = ps\<rparr>) (data_of read))))"
    have "ledger_ok (s\<lparr>faults := tl (faults s)\<rparr>)"
      using ok by (simp add: ledger_ok_def ledger_wf_def ledger_balanced_def)
    from reverse_sql [OF works(2) this] have start: "reverse_returned i s u"
      using reverse_returned_start [of i "\<lambda>_. tl (faults s)" s u] by (auto simp: reverse_returned_def)
    have "keeps (reverse_returned i s) ?k"
      by (intro keeps_intros keeps_reverse_returned ledger_silent_select_single ledger_silent_catch silent)
    then have "reverse_returned i s (snd (?k u))" using start by (rule keepsD)
    moreover have ku: "?k u = (r, t)"
      using run st works(1) by (simp add: reverseTransaction_def api_bind_def)
    ultimately have ret: "reverse_returned i s t" by (simp only: snd_conv)
    have "total_call ?k" by (intro total_intros)
    then have "\<not> isl (fst (?k u))" unfolding total_call_def by (rule spec)
    then have "\<not> isl r" by (simp only: ku fst_conv not_False_eq_True)
    then have "\<exists>v. r = Inr v" by (cases r) simp_all
    with ret show ?thesis by auto
  qed
qed

text \<open>
  C20. Reversal cancels: if reversing a transaction returns, exactly one new POSTED entry pointing
  at it was added, with postings, the old rows are all still there, and on every account the
  movements of the original and of the reversal add up to zero; the ledger stays well-formed and
  balanced. If it throws, whatever failed, the journal is untouched.
\<close>

theorem reversal_cancels:
  assumes "\<And>i. ledger_silent (notify i)" and "ledger_ok s"
    and "reverseTransaction E notify i ws uid s = (r, t)"
  shows "case r of Inl e \<Rightarrow> same_ledger s t | Inr v \<Rightarrow> reverse_returned i s t"
  by (rule reverse_transaction_cases [OF assms])

lemma reversal_blocked:
  assumes "list_ex (\<lambda>e. je_reverses_entry_id e = Some i) (journal_entries s)"
  shows "isl (reverse_journal_entry E uid i ws s)"
proof (cases "find (\<lambda>e. je_id e = i \<and> je_workspace_id e = ws \<and> je_status e = POSTED) (visible_entries uid s)")
  case (Some orig)
  then have o: "je_id orig = i" by (auto simp: find_Some_iff)
  let ?u = "\<lambda>n. s\<lparr>uuids := n\<rparr>"
  have "isl (insert_entry uid (reversal_entry E uid x orig) (?u n))" for x n
    using assms by (auto simp: insert_entry_def list_ex_iff entry_conflicts_def reversal_entry_def o)
  then obtain e where "insert_entry uid (reversal_entry E uid (env_uuid E (uuids s)) orig)
      (?u (uuids s + 1 + length [p \<leftarrow> visible_postings uid s. jp_journal_entry_id p = i])) = Inl e"
    by (meson isl_def)
  then show ?thesis by (simp add: reverse_journal_entry_def Some Let_def)
qed (simp add: reverse_journal_entry_def)

text \<open>
   No transaction is reversed twice: once an entry points at it, every further attempt, by
  anyone and whatever fails, throws and leaves the journal as it is.
\<close>

theorem reversal_only_once:
  assumes "list_ex (\<lambda>e. je_reverses_entry_id e = Some i) (journal_entries s)"
  shows "isl (fst (reverseTransaction E notify i ws uid s))
     \<and> same_ledger s (snd (reverseTransaction E notify i ws uid s))"
proof -
  let ?s = "s\<lparr>faults := tl (faults s)\<rparr>"
  have b: "isl (reverse_journal_entry E uid i ws ?s)" by (rule reversal_blocked) (simp add: assms)
  from b obtain e where "reverse_journal_entry E uid i ws ?s = Inl e" unfolding isl_def by blast
  then have "\<exists>e'. stmt (reverse_journal_entry E uid i ws) s = (Inr (Inl e'), ?s)"
    by (cases "stmt (reverse_journal_entry E uid i ws) s") (auto elim: stmt_cases)
  then show ?thesis by (auto simp: reverseTransaction_def api_bind_def api_throw_def)
qed

section \<open>Instances\<close>

lemma demo_visible:
  "visible_entries ''u1'' demo_posted = [demo_entry]"
  "visible_postings ''u1'' demo_posted = [demo_posting ''p1'' ''cash'' 0 1250, demo_posting ''p2'' ''acc-food'' 1250 0]"
  by (simp_all add: visible_entries_def visible_postings_def demo_entry_def)
    (simp add: demo_posted_def demo_posting_def)

lemma demo_postings:
  "journal_postings demo_posted = [demo_posting ''p1'' ''cash'' 0 1250, demo_posting ''p2'' ''acc-food'' 1250 0]"
  by (simp add: demo_posted_def)

lemma demo_digits: "show_nat 0 = ''0''" "show_nat (Suc 0) = ''1''" "show_nat (Suc (Suc 0)) = ''2''"
  by code_simp+

lemma demo_reversible:
  "\<not> isl (reverse_journal_entry demo_env ''u1'' ''e1'' ''w1'' demo_posted)"
proof -
  let ?rev = "reversal_entry demo_env ''u1'' ''u0'' demo_entry"
  let ?u = "demo_posted\<lparr>uuids := Suc (Suc (Suc 0))\<rparr>"
  let ?w = "?u\<lparr>journal_entries := [demo_entry, ?rev]\<rparr>"
  have rid: "env_uuid demo_env 0 = ''u0''" "env_uuid demo_env (Suc 0) = ''u1''"
      "env_uuid demo_env (Suc (Suc 0)) = ''u2''"
    using demo_digits by (simp_all add: demo_env_def)
  have e: "insert_entry ''u1'' ?rev ?u = Inr (?rev, ?w)"
    by (simp add: insert_entry_def reversal_entry_def demo_entry_def entry_conflicts_def)
  have accs: "list_ex (\<lambda>a. la_id a = ''cash'') (ledger_accounts demo_db)"
      "list_ex (\<lambda>a. la_id a = ''acc-food'') (ledger_accounts demo_db)"
    by (simp_all add: demo_defs)
  have "\<not> isl (insert_postings ''u1''
      (mirrored demo_env 1 ''u0'' [demo_posting ''p1'' ''cash'' 0 1250, demo_posting ''p2'' ''acc-food'' 1250 0]) ?w)"
    by (simp add: insert_postings_def Let_def rid mirror_def demo_posting_def derive_workspace_def
        reversal_entry_def demo_entry_def demo_postings posting_ok_def accs)
  moreover have "je_id demo_entry = ''e1''" "je_workspace_id demo_entry = ''w1''" "je_status demo_entry = POSTED"
    by (simp_all add: demo_entry_def)
  moreover have "jp_journal_entry_id (demo_posting i a d c) = ''e1''" for i a d c
    by (simp add: demo_posting_def)
  ultimately show ?thesis
    by (simp add: reverse_journal_entry_def demo_visible rid e Let_def split: sum.splits)
      (metis sum.disc(1))
qed

theorem reversal_cancels_witness:
  "\<exists>v t. reverseTransaction demo_env (\<lambda>_. api_return ()) ''e1'' ''w1'' ''u1'' demo_posted = (Inr v, t)
     \<and> reverse_returned ''e1'' demo_posted t"
proof -
  obtain r t where run: "reverseTransaction demo_env (\<lambda>_. api_return ()) ''e1'' ''w1'' ''u1'' demo_posted
      = (r, t)" by (metis surj_pair)
  have post: "case r of Inl e \<Rightarrow> same_ledger demo_posted t | Inr v \<Rightarrow> reverse_returned ''e1'' demo_posted t"
    by (rule reversal_cancels [OF ledger_silent_return demo_posted_ok run])
  obtain rid u where rpc: "reverse_journal_entry demo_env ''u1'' ''e1'' ''w1'' demo_posted = Inr (rid, u)"
    using demo_reversible by (cases "reverse_journal_entry demo_env ''u1'' ''e1'' ''w1'' demo_posted") auto
  have tot: "total_call (api_bind (select_single q) (\<lambda>read.
      api_bind (api_catch (api_return ()) (\<lambda>_. api_return ())) (\<lambda>_. api_return (g read))))" for q g
    by (intro total_intros)
  have eq: "reverseTransaction demo_env (\<lambda>_. api_return ()) ''e1'' ''w1'' ''u1'' demo_posted
      = api_bind (select_single (\<lambda>s. [(e, entry_postings ''u1'' rid s).
             e \<leftarrow> visible_entries ''u1'' s, je_id e = rid])) (\<lambda>read.
         api_bind (api_catch (api_return ()) (\<lambda>_. api_return ())) (\<lambda>_.
         api_return (map_option (\<lambda>(e, ps). \<lparr>tv_entry = e, tv_postings = ps\<rparr>) (data_of read)))) u"
    by (simp add: reverseTransaction_def api_bind_def [of "stmt x" for x] stmt_no_fault rpc)
  have "\<not> isl (fst (reverseTransaction demo_env (\<lambda>_. api_return ()) ''e1'' ''w1'' ''u1'' demo_posted))"
    unfolding eq by (rule tot [unfolded total_call_def, rule_format])
  then have "\<not> isl r" by (simp add: run)
  then show ?thesis using run post by (cases r) auto
qed

theorem reversal_only_once_witness:
  "isl (fst (reverseTransaction demo_env (\<lambda>_. api_return ()) ''e1'' ''w1'' ''u1''
       (demo_posted\<lparr>journal_entries := [demo_entry,
          reversal_entry demo_env ''u1'' ''r1'' demo_entry]\<rparr>)))"
proof -
  have "list_ex (\<lambda>e. je_reverses_entry_id e = Some ''e1'') (journal_entries
      (demo_posted\<lparr>journal_entries := [demo_entry, reversal_entry demo_env ''u1'' ''r1'' demo_entry]\<rparr>))"
    by (simp add: reversal_entry_def demo_entry_def)
  then show ?thesis by (rule reversal_only_once [THEN conjunct1])
qed

end
