(* ===== verification/Tags.thy ===== *)
theory Tags
  imports TransactionReads
begin

text \<open>
  The tag operations of \<open>transactions.service.ts\<close>: tag names stay canonical and unique within a
  workspace whatever is called and whatever fails, and labels never touch money.
\<close>

definition canonical_name :: "string \<Rightarrow> bool" where
  "canonical_name n \<longleftrightarrow> n \<noteq> [] \<and> canonicalTagName n = n"

definition tags_ok :: "db \<Rightarrow> bool" where
  "tags_ok s \<longleftrightarrow> list_all (\<lambda>t. canonical_name (tag_name t)) (tags s)
     \<and> distinct (map (\<lambda>t. (tag_workspace_id t, tag_name t)) (tags s))"

lemma js_trim_lower: "js_trim (js_lower s) = js_lower (js_trim s)"
  by (simp add: js_trim_def trim_start_def js_lower_def dropWhile_map comp_def rev_map)

lemma js_trim_idem: "js_trim (js_trim s) = js_trim s"
proof -
  let ?t = "js_trim s"
  show ?thesis
  proof (cases "?t = []")
    case False
    have hd: "\<not> js_space (hd ?t)"
    proof -
      have "trim_start s \<noteq> []" using False by (metis dropWhile.simps(1) js_trim_def rev.simps(1) trim_start_def)
      then have h: "\<not> js_space (hd (trim_start s))" by (simp add: trim_start_def hd_dropWhile)
      have t: "?t = rev (dropWhile js_space (rev (trim_start s)))"
        by (simp add: js_trim_def trim_start_def)
      obtain zs where "trim_start s = rev (dropWhile js_space (rev (trim_start s))) @ zs"
        by (metis rev_append rev_rev_ident takeWhile_dropWhile_id)
      then have "hd ?t = hd (trim_start s)"
        using False t by (metis hd_append2)
      then show ?thesis using h by simp
    qed
    have lst: "\<not> js_space (last ?t)"
      using False by (simp add: js_trim_def trim_start_def last_rev hd_dropWhile)
    show ?thesis using js_trim_id hd lst False by metis
  qed simp
qed

lemma canonical_idem: "canonicalTagName (canonicalTagName n) = canonicalTagName n"
  by (simp add: canonicalTagName_def js_trim_lower js_trim_idem)

lemma canonical_name_of: "canonicalTagName n \<noteq> [] \<Longrightarrow> canonical_name (canonicalTagName n)"
  by (simp add: canonical_name_def canonical_idem)

lemma canonical_tags_canonical: "n \<in> set (canonical_tags names) \<Longrightarrow> canonical_name n"
  by (auto simp: canonical_tags_def canonical_name_def canonical_idem)

section \<open>Statements\<close>

lemma tables_only_tags [simp]: "tables_only tags_ok"
  by (simp add: tables_only_def tags_ok_def)

lemma keeps_same_tags:
  assumes "\<And>s x t. f s = Inr (x, t) \<Longrightarrow> tags t = tags s"
  shows "keeps tags_ok (stmt f)"
  by (rule keeps_stmt) (auto dest!: assms simp: tags_ok_def)

lemma tags_ok_snoc:
  "tags_ok s \<Longrightarrow> canonical_name (tag_name n) \<Longrightarrow> \<not> tag_exists (tags s) n \<Longrightarrow>
     tags_ok (s\<lparr>tags := tags s @ [n]\<rparr>)"
  by (auto simp: tags_ok_def tag_exists_def list_ex_iff)

lemma add_missing_tags_ok:
  "tags_ok s \<Longrightarrow> list_all (\<lambda>n. canonical_name (tag_name n)) ns \<Longrightarrow>
     tags_ok (s\<lparr>tags := add_missing_tags (tags s) ns\<rparr>)"
proof (induction ns arbitrary: s)
  case (Cons n ns)
  show ?case
  proof (cases "tag_exists (tags s) n")
    case False
    then have "tags_ok (s\<lparr>tags := tags s @ [n]\<rparr>)" using Cons.prems by (intro tags_ok_snoc) simp_all
    from Cons.IH [OF this] show ?thesis using Cons.prems False by simp
  qed (use Cons in simp)
qed simp

lemma keeps_upsert:
  "list_all (\<lambda>n. canonical_name (tag_name n)) ns \<Longrightarrow> keeps tags_ok (stmt (upsert_tags uid ns))"
  by (rule keeps_stmt) (auto simp: upsert_tags_def split: if_splits intro: add_missing_tags_ok)

lemma yields_api_map:
  assumes "\<And>x. x \<in> set xs \<Longrightarrow> yields Q (f x)"
  shows "yields (list_all Q) (api_map f xs)"
  using assms
proof (induction xs)
  case (Cons x xs)
  have "yields Q (f x)" "yields (list_all Q) (api_map f xs)" using Cons by simp_all
  then show ?case
    by (auto intro!: yields_bind [where R = Q] yields_bind [where R = "list_all Q"] yields_return)
qed (simp add: yields_return)

lemma yields_new_tags:
  "list_all canonical_name names \<Longrightarrow>
     yields (list_all (\<lambda>t. canonical_name (tag_name t))) (new_tags E ws names)"
  unfolding new_tags_def
  by (rule yields_api_map) (auto simp: list_all_iff intro!: yields_bind [OF yields_True] yields_return)

lemma all_canonical: "list_all canonical_name (canonical_tags names)"
  by (simp add: list_all_iff canonical_tags_canonical)

lemma tags_insert_links [keeps_intros]: "keeps tags_ok (stmt (insert_entry_tags uid ls))"
  by (rule keeps_same_tags) (auto simp: insert_entry_tags_def split: if_splits)

lemma tags_delete_links [keeps_intros]: "keeps tags_ok (stmt (delete_entry_tags uid ws i))"
  by (rule keeps_same_tags) (auto simp: delete_entry_tags_def)

lemma tags_insert_entry [keeps_intros]: "keeps tags_ok (stmt (insert_posted_entry E uid ws src dto i))"
  by (rule keeps_same_tags)
    (auto simp: insert_posted_entry_def insert_entry_def split: option.splits if_splits)

lemma tags_insert_postings [keeps_intros]: "keeps tags_ok (stmt (insert_postings uid ps))"
  by (rule keeps_same_tags) (auto simp: insert_postings_def Let_def split: if_splits)

lemma tags_attach [keeps_intros]: "keeps tags_ok (attach_tags E uid ws i names)"
  unfolding attach_tags_def
  by (intro keeps_if keeps_return keeps_bind_yields [OF _ yields_new_tags [OF all_canonical]]
      keeps_intros keeps_upsert) simp_all

lemma tags_create [keeps_intros]:
  "keeps tags_ok rules \<Longrightarrow> keeps tags_ok (createTransaction E rules src ev ws uid dto)"
  unfolding createTransaction_def post_entry_def Let_def
  by (intro keeps_intros tables_only_tags)

lemma tags_replace: "keeps tags_ok (replaceTransactionTags E i ws uid names)"
  unfolding replaceTransactionTags_def Let_def
  by (intro keeps_if keeps_return keeps_bind keeps_bind_yields [OF _ yields_new_tags [OF all_canonical]]
      keeps_intros keeps_upsert) simp_all

lemma tags_createTag: "keeps tags_ok (createTag E ws uid name)"
proof -
  have "keeps tags_ok (stmt (insert_tag uid \<lparr>tag_id = i, tag_workspace_id = ws, tag_name = n\<rparr>))"
    if "canonical_name n" for i n
    by (rule keeps_stmt) (use that in \<open>auto simp: insert_tag_def split: if_splits intro: tags_ok_snoc\<close>)
  then show ?thesis
    unfolding createTag_def Let_def
    by (cases "canonicalTagName name = []") (auto intro!: keeps_intros simp: canonical_name_of)
qed

lemma distinct_map_change:
  assumes "distinct (map f xs)" "\<And>x. x \<in> set xs \<Longrightarrow> h x \<Longrightarrow> f (g x) = k" "k \<notin> f ` {x \<in> set xs. \<not> h x}"
    "length (filter h xs) \<le> 1"
  shows "distinct (map f (map (\<lambda>x. if h x then g x else x) xs))"
  using assms
proof (induction xs)
  case (Cons x xs)
  have IH: "distinct (map f (map (\<lambda>x. if h x then g x else x) xs))"
    using Cons by (intro Cons.IH) (auto split: if_splits)
  show ?case
  proof (cases "h x")
    case True
    then have "filter h xs = []" using Cons.prems(4) by simp
    then have no: "\<And>y. y \<in> set xs \<Longrightarrow> \<not> h y" by (simp add: filter_empty_conv)
    then have "map (\<lambda>x. if h x then g x else x) xs = xs" by (simp add: map_idI)
    then show ?thesis using True Cons.prems no by auto
  next
    case False
    have "f x \<noteq> f (if h y then g y else y)" if "y \<in> set xs" for y
      using that Cons.prems False by (cases "h y") auto
    then show ?thesis using IH False by auto
  qed
qed simp

lemma update_tag_ok:
  assumes "update_tag_name uid ws tid name s = Inr (x, t)" "tags_ok s" "canonical_name name"
  shows "tags_ok t"
proof -
  let ?hit = "\<lambda>t. tag_id t = tid \<and> tag_workspace_id t = ws \<and> is_member uid s ws"
  let ?set = "\<lambda>t. t\<lparr>tag_name := name\<rparr>"
  have free: "\<not> (list_ex (\<lambda>t. tag_workspace_id t = ws \<and> tag_name t = name \<and> \<not> ?hit t) (tags s)
      \<and> list_ex ?hit (tags s))"
    using assms(1) unfolding update_tag_name_def Let_def by (rule contrapos_pn) simp
  then have sg: "(case single (filter ?hit (tags s)) of Inl e \<Rightarrow> Inl e
      | Inr t \<Rightarrow> Inr (?set t, s\<lparr>tags := map (\<lambda>t. if ?hit t then ?set t else t) (tags s)\<rparr>)) = Inr (x, t)"
    using assms(1) unfolding update_tag_name_def Let_def by (simp only: if_False)
  then obtain y where one: "filter ?hit (tags s) = [y]"
      and t: "t = s\<lparr>tags := map (\<lambda>t. if ?hit t then ?set t else t) (tags s)\<rparr>"
    by (cases "single (filter ?hit (tags s))") (auto simp: single_Inr)
  have "y \<in> set (filter ?hit (tags s))" by (simp only: one) simp
  then have ex: "list_ex ?hit (tags s)" by (auto simp: list_ex_iff)
  let ?f = "\<lambda>t. (tag_workspace_id t, tag_name t)"
  have "distinct (map ?f (map (\<lambda>t. if ?hit t then ?set t else t) (tags s)))"
  proof (rule distinct_map_change [where k = "(ws, name)"])
    show "distinct (map ?f (tags s))" using assms(2) by (simp add: tags_ok_def)
    show "length (filter ?hit (tags s)) \<le> 1" by (simp only: one) simp
    show "(ws, name) \<notin> ?f ` {x \<in> set (tags s). \<not> ?hit x}"
      using free ex by (auto simp: list_ex_iff)
  qed simp
  moreover have "list_all (\<lambda>t. canonical_name (tag_name t))
      (map (\<lambda>t. if ?hit t then ?set t else t) (tags s))"
    using assms(2,3) by (auto simp: tags_ok_def list_all_iff)
  ultimately show ?thesis by (simp add: tags_ok_def t)
qed

lemma tags_rename: "keeps tags_ok (renameTag tid ws uid name)"
proof -
  have "keeps tags_ok (stmt (update_tag_name uid ws tid n))" if "canonical_name n" for n
    by (rule keeps_stmt) (use that in \<open>auto intro: update_tag_ok\<close>)
  then show ?thesis
    unfolding renameTag_def Let_def
    by (cases "canonicalTagName name = []") (auto intro!: keeps_intros simp: canonical_name_of)
qed

lemma tags_delete: "keeps tags_ok (deleteTag tid ws uid)"
proof -
  have "keeps tags_ok (stmt (delete_tag_rows uid ws tid))"
    by (rule keeps_stmt)
      (auto simp: delete_tag_rows_def Let_def tags_ok_def list_all_iff distinct_map_filter)
  then show ?thesis
    unfolding deleteTag_def by (auto intro!: keeps_intros split: list.split)
qed

section \<open>Properties\<close>

text \<open>
  C32. Tag names stay canonical (trimmed, lower case, not empty) and unique within a workspace:
  replacing the tags of a transaction, creating, renaming and deleting a tag, and creating a
  tagged transaction all preserve it, on every outcome and under every schedule of failures.
\<close>

theorem tag_names_stay_canonical:
  assumes "tags_ok s" and "keeps tags_ok rules"
  shows "tags_ok (snd (replaceTransactionTags E i ws uid names s))
     \<and> tags_ok (snd (createTag E ws uid name s)) \<and> tags_ok (snd (renameTag tid ws uid name s))
     \<and> tags_ok (snd (deleteTag tid ws uid s))
     \<and> tags_ok (snd (createTransaction E rules src ev ws uid dto s))"
  by (intro conjI keepsD [OF tags_replace assms(1)] keepsD [OF tags_createTag assms(1)]
      keepsD [OF tags_rename assms(1)] keepsD [OF tags_delete assms(1)]
      keepsD [OF tags_create [OF assms(2)] assms(1)])

theorem tag_names_stay_canonical_witness:
  "tags_ok (snd (createTag demo_env ''w1'' ''u1'' ''  Groceries '' demo_db))
   \<and> tags_ok (snd (renameTag ''t1'' ''w1'' ''u1'' ''  Groceries '' demo_db))"
proof -
  have "tags_ok demo_db" by (simp add: tags_ok_def)
  from tag_names_stay_canonical [OF this keeps_return, of demo_env "''e1''" "''w1''" "''u1''" "[]"
      "''  Groceries ''" "''t1''"] show ?thesis by blast
qed

text \<open>
   Deleting a tag that succeeds removes the tag and its links and nothing else: the journal and
  every other tag are as before. When it throws, nothing was deleted.
\<close>

theorem delete_tag_effect:
  "same_ledger s (snd (deleteTag tid ws uid s))
   \<and> (case deleteTag tid ws uid s of
        (Inl e, t) \<Rightarrow> tags t = tags s
      | (Inr i, t) \<Rightarrow> tags t = [x \<leftarrow> tags s. \<not> (tag_id x = tid \<and> tag_workspace_id x = ws)]
           \<and> list_all (\<lambda>l. et_tag_id l \<noteq> tid) (entry_tags t))"
proof -
  obtain r u where st: "stmt (delete_tag_rows uid ws tid) s = (r, u)" by (cases "stmt (delete_tag_rows uid ws tid) s")
  let ?gone = "[t \<leftarrow> tags s. tag_id t = tid \<and> tag_workspace_id t = ws \<and> is_member uid s ws]"
  from st show ?thesis
  proof (cases rule: stmt_cases)
    case (fails e)
    then show ?thesis by (simp add: deleteTag_def api_bind_def st api_throw_def same_ledger_def)
  next
    case (works x)
    then have x: "x = map tag_id ?gone"
      and u: "u = s\<lparr>faults := tl (faults s), tags := [t \<leftarrow> tags s. t \<notin> set ?gone],
             entry_tags := [l \<leftarrow> entry_tags s. et_tag_id l \<notin> tag_id ` set ?gone]\<rparr>"
      by (auto simp: delete_tag_rows_def Let_def)
    show ?thesis
    proof (cases "?gone")
      case Nil
      then have "[t \<leftarrow> tags s. t \<notin> set ?gone] = tags s" by (simp only: Nil) simp
      then show ?thesis
        using Nil x by (simp add: deleteTag_def api_bind_def st works(1) api_throw_def same_ledger_def u)
    next
      case (Cons g gs)
      then have "g \<in> set ?gone" by simp
      then have m: "is_member uid s ws" and g: "tag_id g = tid" by auto
      have e: "(t \<notin> set ?gone) = (\<not> (tag_id t = tid \<and> tag_workspace_id t = ws))" if "t \<in> set (tags s)" for t
        using that m by simp
      have f: "[t \<leftarrow> tags s. t \<notin> set ?gone] = [t \<leftarrow> tags s. \<not> (tag_id t = tid \<and> tag_workspace_id t = ws)]"
        by (rule filter_cong [OF refl e])
      have "tid \<in> tag_id ` set ?gone" using \<open>g \<in> set ?gone\<close> g by (metis image_eqI)
      then have l: "list_all (\<lambda>l. et_tag_id l \<noteq> tid) (entry_tags u)"
        by (auto simp: u list_all_iff)
      have run: "deleteTag tid ws uid s = (Inr tid, u)"
        using Cons x by (simp add: deleteTag_def api_bind_def st works(1) api_return_def)
      show ?thesis using f l by (simp add: run same_ledger_def) (simp add: u)
    qed
  qed
qed

end
