(* ===== verification/Idempotency.thy ===== *)
theory Idempotency
  imports Database
begin

text \<open>
  \<open>apps/api/src/common/interceptors/idempotency.interceptor.ts\<close> with the table of migrations 00002
  and 00018. First the interceptor's decisions as functions of the request and the table; then the
  concurrent system: requests are numbered, each advances by atomic database steps, and steps of
  different requests interleave freely. The completion and release of a key are \<open>void\<close>ed promises,
  so they are steps of their own that happen after the response was sent, in any order, or fail.
\<close>

section \<open>Requests and decisions\<close>

record idem_request =
  rq_actor :: "string option"
  rq_token :: "string option"
  rq_route :: string
  rq_key :: "string option"
  rq_payload :: string

definition MAX_KEY_LENGTH :: nat where "MAX_KEY_LENGTH = 255"

text \<open>
  \<open>options\<close> is the metadata of \<open>@Idempotent\<close>: \<open>None\<close> on an unmarked route, otherwise its
  \<open>required\<close> flag. The result is the reservation to attempt, or \<open>None\<close> for \<open>next.handle()\<close>.
\<close>

record reservation =
  rs_actor :: string
  rs_route :: string
  rs_key_hash :: string
  rs_fingerprint :: string

definition intercept ::
    "(string \<Rightarrow> string) \<Rightarrow> bool option \<Rightarrow> idem_request \<Rightarrow> api_exn + reservation option" where
  "intercept hash options rq =
     (case options of
        None \<Rightarrow> Inr None
      | Some required \<Rightarrow>
          (case truthy (rq_key rq) of
             None \<Rightarrow> if required then Inl (Unprocessable ''IDEMPOTENCY_KEY_REQUIRED'' '''') else Inr None
           | Some key \<Rightarrow>
               if MAX_KEY_LENGTH < length key then Inl (Unprocessable ''IDEMPOTENCY_KEY_TOO_LONG'' '''')
               else (case (truthy (rq_actor rq), truthy (rq_token rq)) of
                  (Some actor, Some token) \<Rightarrow>
                    Inr (Some \<lparr>rs_actor = actor, rs_route = rq_route rq,
                      rs_key_hash = hash (actor @ '':'' @ rq_route rq @ '':'' @ key),
                      rs_fingerprint = hash (rq_payload rq)\<rparr>)
                | _ \<Rightarrow> Inr None)))"

record idem_record =
  ir_actor :: string
  ir_route :: string
  ir_key_hash :: string
  ir_fingerprint :: "string option"
  ir_status :: "nat option"
  ir_body :: string

definition same_key :: "reservation \<Rightarrow> idem_record \<Rightarrow> bool" where
  "same_key r x \<longleftrightarrow> ir_actor x = rs_actor r \<and> ir_route x = rs_route r \<and> ir_key_hash x = rs_key_hash r"

definition fresh_record :: "reservation \<Rightarrow> idem_record" where
  "fresh_record r = \<lparr>ir_actor = rs_actor r, ir_route = rs_route r, ir_key_hash = rs_key_hash r,
     ir_fingerprint = Some (rs_fingerprint r), ir_status = None, ir_body = []\<rparr>"

text \<open>The rows of the actor with the key hash: what its policy lets it select, update and delete.\<close>

definition own_key :: "reservation \<Rightarrow> idem_record \<Rightarrow> bool" where
  "own_key r x \<longleftrightarrow> ir_actor x = rs_actor r \<and> ir_key_hash x = rs_key_hash r"

datatype verdict = Run_handler | Replay string | Refuse api_exn

text \<open>The second half of \<open>reserve\<close>: what a record found after a unique violation means.\<close>

definition judge :: "reservation \<Rightarrow> idem_record option \<Rightarrow> verdict" where
  "judge r found =
     (case found of
        None \<Rightarrow> Run_handler
      | Some x \<Rightarrow>
          if truthy (ir_fingerprint x) \<noteq> None \<and> ir_fingerprint x \<noteq> Some (rs_fingerprint r)
          then Refuse (Unprocessable ''IDEMPOTENCY_KEY_REUSED'' '''')
          else (case ir_status x of
             None \<Rightarrow> Refuse (Conflict ''IDEMPOTENCY_IN_PROGRESS'' '''')
           | Some _ \<Rightarrow> Replay (ir_body x)))"

definition lookup :: "reservation \<Rightarrow> idem_record list \<Rightarrow> idem_record option" where
  "lookup r t = (case filter (own_key r) t of [x] \<Rightarrow> Some x | _ \<Rightarrow> None)"

definition complete :: "reservation \<Rightarrow> string \<Rightarrow> idem_record list \<Rightarrow> idem_record list" where
  "complete r body t =
     map (\<lambda>x. if own_key r x then x\<lparr>ir_status := Some 200, ir_body := body\<rparr> else x) t"

definition release :: "reservation \<Rightarrow> idem_record list \<Rightarrow> idem_record list" where
  "release r t = filter (\<lambda>x. \<not> own_key r x) t"

section \<open>The concurrent system\<close>

datatype phase =
    Arrived
  | Colliding
  | Running
  | Succeeded (sent: string)
  | Failed
  | Settled verdict

text \<open>\<open>executed\<close> logs the requests whose handler ran to success, newest first.\<close>

record idem_system =
  records :: "idem_record list"
  phase_of :: "nat \<Rightarrow> phase"
  executed :: "nat list"

definition idem_init :: idem_system where
  "idem_init = \<lparr>records = [], phase_of = (\<lambda>_. Arrived), executed = []\<rparr>"

datatype label =
    Insert nat | Insert_error nat | Lookup nat | Lookup_error nat
  | Handler_ok nat string | Handler_error nat
  | Complete nat | Complete_error nat | Release nat | Release_error nat
  | Prune idem_record

definition set_phase :: "nat \<Rightarrow> phase \<Rightarrow> idem_system \<Rightarrow> idem_system" where
  "set_phase i p s = s\<lparr>phase_of := (phase_of s)(i := p)\<rparr>"

definition settle :: "nat \<Rightarrow> verdict \<Rightarrow> phase" where
  "settle i v = (case v of Run_handler \<Rightarrow> Running | _ \<Rightarrow> Settled v)"

text \<open>One step; \<open>None\<close> where the step is not possible. \<open>req i\<close> is the reservation of request \<open>i\<close>.\<close>

fun act :: "(nat \<Rightarrow> reservation) \<Rightarrow> label \<Rightarrow> idem_system \<Rightarrow> idem_system option" where
  "act req (Insert i) s =
     (if phase_of s i = Arrived then
        (if list_ex (same_key (req i)) (records s) then Some (set_phase i Colliding s)
         else Some (set_phase i Running (s\<lparr>records := records s @ [fresh_record (req i)]\<rparr>)))
      else None)"
| "act req (Insert_error i) s =
     (if phase_of s i = Arrived then Some (set_phase i Running s) else None)"
| "act req (Lookup i) s =
     (if phase_of s i = Colliding
      then Some (set_phase i (settle i (judge (req i) (lookup (req i) (records s)))) s) else None)"
| "act req (Lookup_error i) s =
     (if phase_of s i = Colliding then Some (set_phase i (settle i (judge (req i) None)) s) else None)"
| "act req (Handler_ok i body) s =
     (if phase_of s i = Running
      then Some (set_phase i (Succeeded body) (s\<lparr>executed := i # executed s\<rparr>)) else None)"
| "act req (Handler_error i) s =
     (if phase_of s i = Running then Some (set_phase i Failed s) else None)"
| "act req (Complete i) s =
     (case phase_of s i of
        Succeeded body \<Rightarrow>
          Some (set_phase i (Settled (Replay body)) (s\<lparr>records := complete (req i) body (records s)\<rparr>))
      | _ \<Rightarrow> None)"
| "act req (Complete_error i) s =
     (case phase_of s i of Succeeded body \<Rightarrow> Some (set_phase i (Settled (Replay body)) s) | _ \<Rightarrow> None)"
| "act req (Release i) s =
     (if phase_of s i = Failed
      then Some (set_phase i (Settled Run_handler) (s\<lparr>records := release (req i) (records s)\<rparr>)) else None)"
| "act req (Release_error i) s =
     (if phase_of s i = Failed then Some (set_phase i (Settled Run_handler) s) else None)"
| "act req (Prune x) s = Some (s\<lparr>records := filter (\<lambda>y. y \<noteq> x) (records s)\<rparr>)"

text \<open>The states reachable by steps that satisfy \<open>P\<close>.\<close>

inductive reach :: "(nat \<Rightarrow> reservation) \<Rightarrow> (label \<Rightarrow> bool) \<Rightarrow> idem_system \<Rightarrow> bool"
  for req :: "nat \<Rightarrow> reservation" and P :: "label \<Rightarrow> bool" where
  start: "reach req P idem_init"
| step: "reach req P s \<Longrightarrow> P l \<Longrightarrow> act req l s = Some t \<Longrightarrow> reach req P t"

fun run :: "(nat \<Rightarrow> reservation) \<Rightarrow> label list \<Rightarrow> idem_system \<Rightarrow> idem_system option" where
  "run req [] s = Some s"
| "run req (l # ls) s = (case act req l s of None \<Rightarrow> None | Some t \<Rightarrow> run req ls t)"

lemma run_reach: "reach req P s \<Longrightarrow> list_all P ls \<Longrightarrow> run req ls s = Some t \<Longrightarrow> reach req P t"
  by (induction ls arbitrary: s) (auto split: option.splits intro: reach.step)

text \<open>The steps of a healthy run: no statement fails, nothing expires, no handler throws.\<close>

fun healthy :: "label \<Rightarrow> bool" where
  "healthy (Insert i) = True"
| "healthy (Lookup i) = True"
| "healthy (Handler_ok i b) = True"
| "healthy (Complete i) = True"
| "healthy _ = False"

text \<open>The same, but handlers may throw.\<close>

fun undisturbed :: "label \<Rightarrow> bool" where
  "undisturbed (Handler_error i) = True"
| "undisturbed (Release i) = True"
| "undisturbed l = healthy l"

section \<open>At most once\<close>

text \<open>A hash without collisions on the inputs in use: equal hashes are equal keys.\<close>

definition proper_keys :: "(nat \<Rightarrow> reservation) \<Rightarrow> bool" where
  "proper_keys req \<longleftrightarrow> (\<forall>i j. rs_actor (req i) = rs_actor (req j) \<longrightarrow> rs_key_hash (req i) = rs_key_hash (req j)
     \<longrightarrow> rs_route (req i) = rs_route (req j))"

definition key_of :: "reservation \<Rightarrow> string \<times> string \<times> string" where
  "key_of r = (rs_actor r, rs_route r, rs_key_hash r)"

definition record_key :: "idem_record \<Rightarrow> string \<times> string \<times> string" where
  "record_key x = (ir_actor x, ir_route x, ir_key_hash x)"

lemma same_key_iff: "same_key r x \<longleftrightarrow> record_key x = key_of r"
  by (auto simp: same_key_def record_key_def key_of_def)

definition busy :: "phase \<Rightarrow> bool" where
  "busy p \<longleftrightarrow> (case p of Running \<Rightarrow> True | Succeeded _ \<Rightarrow> True | _ \<Rightarrow> False)"

definition answered :: "phase \<Rightarrow> bool" where
  "answered p \<longleftrightarrow> (case p of Succeeded _ \<Rightarrow> True | Settled _ \<Rightarrow> True | _ \<Rightarrow> False)"

text \<open>
  The invariant: records are unique; at most one request per key is running or unrecorded, and its
  record exists and is open; an executed request is that one or its result is recorded.
\<close>

definition idem_inv :: "(nat \<Rightarrow> reservation) \<Rightarrow> idem_system \<Rightarrow> bool" where
  "idem_inv req s \<longleftrightarrow>
     distinct (map record_key (records s))
   \<and> (\<forall>x \<in> set (records s). \<exists>i. record_key x = key_of (req i))
   \<and> (\<forall>i. busy (phase_of s i) \<longrightarrow> (\<exists>x \<in> set (records s). record_key x = key_of (req i) \<and> ir_status x = None))
   \<and> (\<forall>i j. busy (phase_of s i) \<longrightarrow> busy (phase_of s j) \<longrightarrow> key_of (req i) = key_of (req j) \<longrightarrow> i = j)
   \<and> (\<forall>i \<in> set (executed s). \<exists>x \<in> set (records s). record_key x = key_of (req i)
        \<and> (ir_status x = None \<longrightarrow> (\<exists>b. phase_of s i = Succeeded b)))
   \<and> (\<forall>i. phase_of s i = Colliding \<longrightarrow> (\<exists>x \<in> set (records s). record_key x = key_of (req i)))
   \<and> (\<forall>i \<in> set (executed s). answered (phase_of s i))
   \<and> distinct (map (\<lambda>i. key_of (req i)) (executed s))"

lemma answered_simps [simp]:
  "\<not> answered Running" "answered (Succeeded b)" "\<not> answered Arrived" "\<not> answered Colliding"
  "\<not> answered Failed" "answered (Settled v)"
  by (simp_all add: answered_def)

lemma inv_parts:
  assumes "idem_inv req s"
  shows inv_distinct: "distinct (map record_key (records s))"
    and inv_known: "x \<in> set (records s) \<Longrightarrow> \<exists>i. record_key x = key_of (req i)"
    and inv_busy: "busy (phase_of s i) \<Longrightarrow>
          \<exists>x \<in> set (records s). record_key x = key_of (req i) \<and> ir_status x = None"
    and inv_single: "busy (phase_of s i) \<Longrightarrow> busy (phase_of s j) \<Longrightarrow> key_of (req i) = key_of (req j) \<Longrightarrow> i = j"
    and inv_exec: "i \<in> set (executed s) \<Longrightarrow> \<exists>x \<in> set (records s). record_key x = key_of (req i)
          \<and> (ir_status x = None \<longrightarrow> (\<exists>b. phase_of s i = Succeeded b))"
    and inv_colliding: "phase_of s i = Colliding \<Longrightarrow> \<exists>x \<in> set (records s). record_key x = key_of (req i)"
    and inv_answered: "i \<in> set (executed s) \<Longrightarrow> answered (phase_of s i)"
    and inv_once: "distinct (map (\<lambda>i. key_of (req i)) (executed s))"
  using assms unfolding idem_inv_def by blast+

lemma own_key_iff:
  assumes "proper_keys req" "idem_inv req s" "x \<in> set (records s)"
  shows "own_key (req i) x \<longleftrightarrow> record_key x = key_of (req i)"
proof -
  obtain j where j: "ir_actor x = rs_actor (req j)" "ir_route x = rs_route (req j)"
      "ir_key_hash x = rs_key_hash (req j)"
    using inv_known [OF assms(2,3)] by (auto simp: record_key_def key_of_def)
  have "rs_actor (req j) = rs_actor (req i) \<Longrightarrow> rs_key_hash (req j) = rs_key_hash (req i) \<Longrightarrow>
      rs_route (req j) = rs_route (req i)"
    using assms(1) unfolding proper_keys_def by blast
  then show ?thesis unfolding own_key_def record_key_def key_of_def prod.inject j by blast
qed

lemma unique_record:
  "distinct (map f xs) \<Longrightarrow> x \<in> set xs \<Longrightarrow> \<forall>y \<in> set xs. Q y \<longleftrightarrow> f y = f x \<Longrightarrow> filter Q xs = [x]"
proof (induction xs)
  case (Cons y ys)
  show ?case
  proof (cases "y = x")
    case True
    have "\<not> Q z" if "z \<in> set ys" for z
    proof -
      have "f z \<in> f ` set ys" using that by (rule imageI)
      moreover have "f x \<notin> f ` set ys" using Cons.prems(1) True by simp
      ultimately have "f z \<noteq> f x" by metis
      then show ?thesis using Cons.prems(3) that by simp
    qed
    then have "filter Q ys = []" by (simp add: filter_empty_conv)
    then show ?thesis using Cons.prems True by simp
  next
    case False
    then have x: "x \<in> set ys" using Cons.prems by simp
    then have "f x \<in> f ` set ys" by (rule imageI)
    moreover have "f y \<notin> f ` set ys" using Cons.prems(1) by simp
    ultimately have "f y \<noteq> f x" by metis
    then have "\<not> Q y" using Cons.prems(3) by simp
    then show ?thesis using Cons x by simp
  qed
qed simp

lemma lookup_found:
  assumes "proper_keys req" "idem_inv req s" "x \<in> set (records s)" "record_key x = key_of (req i)"
  shows "lookup (req i) (records s) = Some x"
proof -
  have "filter (own_key (req i)) (records s) = [x]"
    using own_key_iff [OF assms(1,2)] assms(3,4)
    by (intro unique_record [OF inv_distinct [OF assms(2)]]) simp_all
  then show ?thesis by (simp add: lookup_def)
qed

lemma key_fresh [simp]: "record_key (fresh_record r) = key_of r" "ir_status (fresh_record r) = None"
  by (simp_all add: record_key_def fresh_record_def key_of_def)

lemma phase_set [simp]:
  "phase_of (set_phase i p s) = (phase_of s)(i := p)" "records (set_phase i p s) = records s"
  "executed (set_phase i p s) = executed s"
  by (simp_all add: set_phase_def)

lemma busy_simps [simp]:
  "busy Running" "busy (Succeeded b)" "\<not> busy Arrived" "\<not> busy Colliding" "\<not> busy Failed"
  "\<not> busy (Settled v)"
  by (simp_all add: busy_def)

lemma inv_insert:
  assumes inv: "idem_inv req s" and a: "act req (Insert i) s = Some t"
  shows "idem_inv req t"
proof (cases "list_ex (same_key (req i)) (records s)")
  case True
  then have t: "t = set_phase i Colliding s" and p: "phase_of s i = Arrived"
    using a by (auto split: if_splits)
  have "\<exists>x \<in> set (records s). record_key x = key_of (req i)"
    using True by (auto simp: list_ex_iff same_key_iff)
  moreover have "i \<notin> set (executed s)" using inv_answered [OF inv, of i] p by auto
  ultimately show ?thesis using inv p unfolding idem_inv_def t by (auto split: if_splits)
next
  case False
  then have t: "t = set_phase i Running (s\<lparr>records := records s @ [fresh_record (req i)]\<rparr>)"
    and p: "phase_of s i = Arrived"
    using a by (auto split: if_splits)
  have no: "record_key x \<noteq> key_of (req i)" if "x \<in> set (records s)" for x
    using False that by (auto simp: list_ex_iff same_key_iff)
  have idle: "key_of (req j) \<noteq> key_of (req i)" if "busy (phase_of s j)" for j
    using inv_busy [OF inv that] no by metis
  have ex: "key_of (req j) \<noteq> key_of (req i)" if "j \<in> set (executed s)" for j
    using inv_exec [OF inv that] no by metis
  have ne: "j \<noteq> i" if "j \<in> set (executed s)" for j using ex [OF that] by auto
  show ?thesis
    unfolding idem_inv_def t
  proof (intro conjI)
    show "distinct (map record_key (records (set_phase i Running (s\<lparr>records := records s @ [fresh_record (req i)]\<rparr>))))"
      using inv no by (auto simp: idem_inv_def)
    show "\<forall>x\<in>set (records (set_phase i Running (s\<lparr>records := records s @ [fresh_record (req i)]\<rparr>))).
        \<exists>i. record_key x = key_of (req i)"
      using inv by (auto simp: idem_inv_def)
    have sym: "key_of (req i) \<noteq> key_of (req j)" if "busy (phase_of s j)" for j
      using idle [OF that] by simp
    show "\<forall>j k. busy (phase_of (set_phase i Running (s\<lparr>records := records s @ [fresh_record (req i)]\<rparr>)) j)
        \<longrightarrow> busy (phase_of (set_phase i Running (s\<lparr>records := records s @ [fresh_record (req i)]\<rparr>)) k)
        \<longrightarrow> key_of (req j) = key_of (req k) \<longrightarrow> j = k"
      using inv_single [OF inv] idle sym by (auto split: if_splits)
  qed (use inv idle ex ne p in \<open>auto simp: idem_inv_def split: if_splits\<close>)
qed

lemma inv_lookup:
  assumes inv: "idem_inv req s" and pk: "proper_keys req" and a: "act req (Lookup i) s = Some t"
  shows "idem_inv req t"
proof -
  have p: "phase_of s i = Colliding" using a by (auto split: if_splits)
  obtain x where x: "x \<in> set (records s)" "record_key x = key_of (req i)"
    using inv_colliding [OF inv p] by metis
  have "judge (req i) (lookup (req i) (records s)) \<noteq> Run_handler"
    unfolding lookup_found [OF pk inv x] by (auto simp: judge_def split: option.splits)
  then obtain v where "t = set_phase i (Settled v) s"
    using a p by (auto simp: settle_def split: verdict.splits)
  then show ?thesis using inv p by (auto simp: idem_inv_def)
qed

lemma inv_handler_ok:
  assumes inv: "idem_inv req s" and a: "act req (Handler_ok i b) s = Some t"
  shows "idem_inv req t"
proof -
  have p: "phase_of s i = Running" and t: "t = set_phase i (Succeeded b) (s\<lparr>executed := i # executed s\<rparr>)"
    using a by (auto split: if_splits)
  obtain x where x: "x \<in> set (records s)" "record_key x = key_of (req i)" "ir_status x = None"
    using inv_busy [OF inv, of i] p by auto
  have new: "key_of (req j) \<noteq> key_of (req i)" if j: "j \<in> set (executed s)" for j
  proof
    assume k: "key_of (req j) = key_of (req i)"
    obtain y where y: "y \<in> set (records s)" "record_key y = key_of (req j)"
        "ir_status y = None \<longrightarrow> (\<exists>b. phase_of s j = Succeeded b)"
      using inv_exec [OF inv j] by metis
    have "y = x" using inv_distinct [OF inv] x y k by (metis distinct_map inj_onD)
    then obtain c where "phase_of s j = Succeeded c" using x y by auto
    then have "j = i" using inv_single [OF inv _ _ k] p by simp
    then show False using p \<open>phase_of s j = Succeeded c\<close> by simp
  qed
  have c5: "\<exists>x \<in> set (records s). record_key x = key_of (req j)
        \<and> (ir_status x = None \<longrightarrow> (\<exists>c. ((phase_of s)(i := Succeeded b)) j = Succeeded c))"
    if "j \<in> set (i # executed s)" for j
  proof (cases "j = i")
    case False
    then show ?thesis using inv_exec [OF inv, of j] that by auto
  qed (use x in auto)
  have fresh: "key_of (req i) \<notin> (\<lambda>i. key_of (req i)) ` set (executed s)" using new by fastforce
  show ?thesis
    unfolding idem_inv_def
  proof (intro conjI)
    show "\<forall>i\<in>set (executed t). \<exists>x\<in>set (records t). record_key x = key_of (req i)
        \<and> (ir_status x = None \<longrightarrow> (\<exists>b. phase_of t i = Succeeded b))"
      using c5 by (simp add: t)
    show "distinct (map (\<lambda>i. key_of (req i)) (executed t))"
      using fresh inv_once [OF inv] by (simp add: t)
    show "\<forall>i. busy (phase_of t i) \<longrightarrow> (\<exists>x\<in>set (records t). record_key x = key_of (req i) \<and> ir_status x = None)"
      using inv_busy [OF inv] x by (auto simp: t)
    show "\<forall>i j. busy (phase_of t i) \<longrightarrow> busy (phase_of t j) \<longrightarrow> key_of (req i) = key_of (req j) \<longrightarrow> i = j"
      using inv_single [OF inv] p by (auto simp: t split: if_splits)
  qed (use inv_parts [OF inv] in \<open>auto simp: t\<close>)
qed

lemma inv_complete:
  assumes inv: "idem_inv req s" and pk: "proper_keys req" and a: "act req (Complete i) s = Some t"
  shows "idem_inv req t"
proof -
  obtain b where p: "phase_of s i = Succeeded b"
    and t: "t = set_phase i (Settled (Replay b)) (s\<lparr>records := complete (req i) b (records s)\<rparr>)"
    using a by (auto split: phase.splits)
  let ?g = "\<lambda>x. if own_key (req i) x then x\<lparr>ir_status := Some 200, ir_body := b\<rparr> else x"
  have rk: "record_key (?g x) = record_key x" for x by (simp add: record_key_def)
  have recs: "records t = map ?g (records s)" by (simp add: t complete_def)
  have keep: "\<exists>y \<in> set (records t). record_key y = k" if ex: "\<exists>x \<in> set (records s). record_key x = k" for k
  proof -
    obtain x where "x \<in> set (records s)" "record_key x = k" using ex by blast
    then have "?g x \<in> set (records t)" "record_key (?g x) = k" by (simp_all add: recs rk)
    then show ?thesis by blast
  qed
  have open_kept: "\<exists>y \<in> set (records t). record_key y = k \<and> (ir_status y = None \<longrightarrow> Q)"
    if "x \<in> set (records s)" "record_key x = k" "k \<noteq> key_of (req i) \<Longrightarrow> ir_status x = None \<longrightarrow> Q" for x k Q
  proof (rule bexI [of _ "?g x"])
    show "record_key (?g x) = k \<and> (ir_status (?g x) = None \<longrightarrow> Q)"
      using that own_key_iff [OF pk inv that(1), of i] by (auto simp: record_key_def)
  qed (use that in \<open>auto simp: recs\<close>)
  have other: "key_of (req j) \<noteq> key_of (req i)" if "busy (phase_of s j)" "j \<noteq> i" for j
    using inv_single [OF inv that(1), of i] that(2) p by auto
  have c3: "\<exists>y \<in> set (records t). record_key y = key_of (req j) \<and> ir_status y = None"
    if "busy (phase_of t j)" for j
  proof -
    have j: "busy (phase_of s j)" "j \<noteq> i" using that by (auto simp: t split: if_splits)
    obtain x where x: "x \<in> set (records s)" "record_key x = key_of (req j)" "ir_status x = None"
      using inv_busy [OF inv j(1)] by metis
    have "?g x = x" using own_key_iff [OF pk inv x(1), of i] x(2) other [OF j] by simp
    then show ?thesis using x by (auto simp: recs intro!: bexI [of _ x] image_eqI [of _ _ x])
  qed
  have c5: "\<exists>y \<in> set (records t). record_key y = key_of (req j)
        \<and> (ir_status y = None \<longrightarrow> (\<exists>c. phase_of t j = Succeeded c))" if j: "j \<in> set (executed t)" for j
  proof -
    obtain x where x: "x \<in> set (records s)" "record_key x = key_of (req j)"
        "ir_status x = None \<longrightarrow> (\<exists>c. phase_of s j = Succeeded c)"
      using inv_exec [OF inv, of j] j by (auto simp: t)
    show ?thesis
      by (rule open_kept [OF x(1,2)]) (use x(3) in \<open>auto simp: t\<close>)
  qed
  have d: "map record_key (records t) = map record_key (records s)"
    by (simp add: recs comp_def rk)
  show ?thesis
    unfolding idem_inv_def d
  proof (intro conjI)
    show "distinct (map record_key (records s))" using inv by (simp add: idem_inv_def)
    show "\<forall>x\<in>set (records t). \<exists>i. record_key x = key_of (req i)"
    proof
      fix y
      assume "y \<in> set (records t)"
      then obtain x where "x \<in> set (records s)" "y = ?g x" unfolding recs set_map by blast
      then show "\<exists>i. record_key y = key_of (req i)" using inv_known [OF inv] rk by metis
    qed
    show "\<forall>i. busy (phase_of t i) \<longrightarrow> (\<exists>x\<in>set (records t). record_key x = key_of (req i) \<and> ir_status x = None)"
      using c3 by blast
    show "\<forall>i\<in>set (executed t). \<exists>x\<in>set (records t). record_key x = key_of (req i)
        \<and> (ir_status x = None \<longrightarrow> (\<exists>b. phase_of t i = Succeeded b))"
      using c5 by blast
    show "\<forall>i. phase_of t i = Colliding \<longrightarrow> (\<exists>x\<in>set (records t). record_key x = key_of (req i))"
      using inv keep by (auto simp: t idem_inv_def)
    show "\<forall>i j. busy (phase_of t i) \<longrightarrow> busy (phase_of t j) \<longrightarrow> key_of (req i) = key_of (req j) \<longrightarrow> i = j"
      using inv_single [OF inv] by (auto simp: t split: if_splits)
    show "\<forall>i\<in>set (executed t). answered (phase_of t i)"
      using inv_answered [OF inv] by (simp add: t)
    show "distinct (map (\<lambda>i. key_of (req i)) (executed t))"
      using inv_once [OF inv] by (simp add: t)
  qed
qed

lemma healthy_inv:
  assumes "reach req healthy s" "proper_keys req"
  shows "idem_inv req s"
  using assms(1)
proof (induction rule: reach.induct)
  case start
  then show ?case by (simp add: idem_inv_def idem_init_def)
next
  case (step s l t)
  show ?case
  proof (cases l)
    case (Insert i)
    show ?thesis by (rule inv_insert [OF step.IH step.hyps(3) [unfolded Insert]])
  next
    case (Lookup i)
    show ?thesis by (rule inv_lookup [OF step.IH assms(2) step.hyps(3) [unfolded Lookup]])
  next
    case (Handler_ok i b)
    show ?thesis by (rule inv_handler_ok [OF step.IH step.hyps(3) [unfolded Handler_ok]])
  next
    case (Complete i)
    show ?thesis by (rule inv_complete [OF step.IH assms(2) step.hyps(3) [unfolded Complete]])
  qed (use step.hyps(2) in simp_all)
qed

text \<open>A settled replay is what the record of its key holds.\<close>

definition replay_inv :: "(nat \<Rightarrow> reservation) \<Rightarrow> idem_system \<Rightarrow> bool" where
  "replay_inv req s \<longleftrightarrow> (\<forall>i b. phase_of s i = Settled (Replay b) \<longrightarrow>
     (\<exists>x \<in> set (records s). record_key x = key_of (req i) \<and> ir_status x \<noteq> None \<and> ir_body x = b))"

lemma replay_complete:
  assumes inv: "idem_inv req s" and pk: "proper_keys req" and rinv: "replay_inv req s"
    and p: "phase_of s i = Succeeded b"
  shows "replay_inv req (set_phase i (Settled (Replay b)) (s\<lparr>records := complete (req i) b (records s)\<rparr>))"
proof -
  let ?g = "\<lambda>x. if own_key (req i) x then x\<lparr>ir_status := Some 200, ir_body := b\<rparr> else x"
  obtain y where y: "y \<in> set (records s)" "record_key y = key_of (req i)" "ir_status y = None"
    using inv_busy [OF inv, of i] p by auto
  have "own_key (req i) y" using own_key_iff [OF pk inv y(1)] y(2) by simp
  then have gy: "?g y \<in> set (complete (req i) b (records s))" "record_key (?g y) = key_of (req i)"
      "ir_status (?g y) = Some 200" "ir_body (?g y) = b"
    using y by (auto simp: complete_def record_key_def)
  have "\<exists>x \<in> set (complete (req i) b (records s)). record_key x = key_of (req j)
      \<and> ir_status x \<noteq> None \<and> ir_body x = c" if j: "phase_of s j = Settled (Replay c)" for j c
  proof -
    obtain x where x: "x \<in> set (records s)" "record_key x = key_of (req j)" "ir_status x \<noteq> None"
        "ir_body x = c" using rinv j unfolding replay_inv_def by metis
    have "x \<noteq> y" using x(3) y(3) by auto
    then have "record_key x \<noteq> record_key y"
      using inv_distinct [OF inv] x(1) y(1) by (metis distinct_map inj_onD)
    then have "\<not> own_key (req i) x" using own_key_iff [OF pk inv x(1)] y(2) by simp
    then have "x \<in> set (complete (req i) b (records s))"
      using x(1) by (force simp: complete_def)
    then show ?thesis using x by blast
  qed
  then show ?thesis
    unfolding replay_inv_def using gy by (auto split: if_splits)
qed

lemma healthy_replay:
  assumes "reach req healthy s" "proper_keys req"
  shows "replay_inv req s"
  using assms(1)
proof (induction rule: reach.induct)
  case start
  then show ?case by (simp add: replay_inv_def idem_init_def)
next
  case (step s l t)
  have inv: "idem_inv req s" by (rule healthy_inv [OF step.hyps(1) assms(2)])
  show ?case
  proof (cases l)
    case (Insert i)
    then show ?thesis using step.IH step.hyps(3) unfolding replay_inv_def by (auto split: if_splits)
  next
    case (Lookup i)
    then have p: "phase_of s i = Colliding" using step.hyps(3) by (auto split: if_splits)
    obtain x where x: "x \<in> set (records s)" "record_key x = key_of (req i)"
      using inv_colliding [OF inv p] by metis
    have t: "t = set_phase i (settle i (judge (req i) (Some x))) s"
      using step.hyps(3) p Lookup by (simp add: lookup_found [OF assms(2) inv x])
    have "settle i (judge (req i) (Some x)) = Settled (Replay b) \<Longrightarrow> ir_status x \<noteq> None \<and> ir_body x = b" for b
      by (auto simp: judge_def settle_def split: if_splits option.splits)
    then show ?thesis using step.IH x unfolding replay_inv_def t by auto
  next
    case (Handler_ok i b)
    then show ?thesis using step.IH step.hyps(3) unfolding replay_inv_def by (auto split: if_splits)
  next
    case (Complete i)
    then obtain b where "phase_of s i = Succeeded b"
        "t = set_phase i (Settled (Replay b)) (s\<lparr>records := complete (req i) b (records s)\<rparr>)"
      using step.hyps(3) by (auto split: phase.splits)
    then show ?thesis using replay_complete [OF inv assms(2) step.IH] by simp
  qed (use step.hyps(2) in simp_all)
qed

section \<open>Properties\<close>


definition demo_reservation :: reservation where
  "demo_reservation = \<lparr>rs_actor = ''op'', rs_route = ''POST /admin/broadcasts'', rs_key_hash = ''h'',
     rs_fingerprint = ''f''\<rparr>"



text \<open>
   A lost completion blocks the key: when the update that stores the response fails, the record
  stays open, and a retry is refused with IDEMPOTENCY_IN_PROGRESS instead of running the handler.
\<close>

theorem lost_completion_blocks_retry:
  "\<exists>s. run (\<lambda>_. r) [Insert 0, Handler_ok 0 b, Complete_error 0, Insert 1, Lookup 1] idem_init = Some s
     \<and> phase_of s 1 = Settled (Refuse (Conflict ''IDEMPOTENCY_IN_PROGRESS'' ''''))"
  by (simp add: idem_init_def same_key_def fresh_record_def lookup_def own_key_def
      judge_def settle_def set_phase_def)

end
