(* ===== verification/Json.thy ===== *)
theory Json
  imports JsText
begin

text \<open>
  JSON values as the components exchange them: request bodies, queue payloads and rows of a sync
  response. Numbers are integers, strings are the Latin-1 strings of JsText. An object keeps its
  keys in insertion order, as JavaScript does for keys that are not array indices.
\<close>

datatype json = JNull | JBool bool | JInt int | JStr string | JArr "json list" | JObj "(string \<times> json) list"

type_synonym fields = "(string \<times> json) list"

text \<open>\<open>value?.key\<close>: \<open>None\<close> is \<open>undefined\<close>.\<close>

fun jget :: "json \<Rightarrow> string \<Rightarrow> json option" where
  "jget (JObj fs) k = map_of fs k"
| "jget _ k = None"

text \<open>\<open>{ ...fs, [k]: v }\<close>: a key already there keeps its place.\<close>

fun jset :: "fields \<Rightarrow> string \<Rightarrow> json \<Rightarrow> fields" where
  "jset [] k v = [(k, v)]"
| "jset ((l, w) # fs) k v = (if l = k then (k, v) # fs else (l, w) # jset fs k v)"

text \<open>An object literal, of which \<open>JSON.stringify\<close> drops the fields that are \<open>undefined\<close>.\<close>

definition defined_fields :: "(string \<times> json option) list \<Rightarrow> fields" where
  "defined_fields fs = [(k, v). (k, Some v) \<leftarrow> fs]"

definition jstr_opt :: "string option \<Rightarrow> json option" where
  "jstr_opt = map_option JStr"

text \<open>\<open>Boolean(v)\<close>.\<close>

definition json_truthy :: "json \<Rightarrow> bool" where
  "json_truthy j = (case j of JNull \<Rightarrow> False | JBool b \<Rightarrow> b | JInt i \<Rightarrow> i \<noteq> 0 | JStr s \<Rightarrow> s \<noteq> [] | _ \<Rightarrow> True)"

section \<open>JSON.stringify\<close>

definition hex_char :: "nat \<Rightarrow> char" where
  "hex_char n = (if n < 10 then digit_char n else char_of (87 + n))"

definition json_char :: "char \<Rightarrow> string" where
  "json_char c =
     (if cu c = 34 then [char_of (92::nat), c]
      else if cu c = 92 then [c, c]
      else if cu c = 8 then [char_of (92::nat), CHR ''b'']
      else if cu c = 9 then [char_of (92::nat), CHR ''t'']
      else if cu c = 10 then [char_of (92::nat), CHR ''n'']
      else if cu c = 12 then [char_of (92::nat), CHR ''f'']
      else if cu c = 13 then [char_of (92::nat), CHR ''r'']
      else if cu c < 32 then char_of (92::nat) # ''u00'' @ [hex_char (cu c div 16), hex_char (cu c mod 16)]
      else [c])"

definition json_string :: "string \<Rightarrow> string" where
  "json_string s = [char_of (34::nat)] @ concat (map json_char s) @ [char_of (34::nat)]"

fun stringify :: "json \<Rightarrow> string" where
  "stringify JNull = ''null''"
| "stringify (JBool b) = (if b then ''true'' else ''false'')"
| "stringify (JInt i) = show_int i"
| "stringify (JStr s) = json_string s"
| "stringify (JArr xs) = ''['' @ js_join '','' (map stringify xs) @ '']''"
| "stringify (JObj fs) =
     ''{'' @ js_join '','' (map (\<lambda>(k, v). json_string k @ '':'' @ stringify v) fs) @ ''}''"

text \<open>\<open>String(v)\<close>; inside an array \<open>null\<close> is the empty string.\<close>

fun js_String_value :: "json \<Rightarrow> string" where
  "js_String_value JNull = ''null''"
| "js_String_value (JBool b) = (if b then ''true'' else ''false'')"
| "js_String_value (JInt i) = show_int i"
| "js_String_value (JStr s) = s"
| "js_String_value (JArr xs) = js_join '','' (map (\<lambda>x. if x = JNull then [] else js_String_value x) xs)"
| "js_String_value (JObj fs) = ''[object Object]''"

definition js_String :: "json option \<Rightarrow> string" where
  "js_String v = (case v of None \<Rightarrow> ''undefined'' | Some j \<Rightarrow> js_String_value j)"

lemma map_of_jset [simp]: "map_of (jset fs k v) = (map_of fs)(k \<mapsto> v)"
  by (induction fs k v rule: jset.induct) auto

end
