(* ===== verification/MobileStore.thy ===== *)
theory MobileStore
  imports Json Complex_Main
begin

text \<open>
  The phone: the local SQLite file (\<open>apps/mobile/src/db\<close>) and the HTTP client
  (\<open>apps/mobile/src/lib/api.ts\<close>).

  \<open>phone\<close> is the state an operation runs on. Every SQLite statement and every request takes the
  next element of \<open>faults\<close>: it can throw, or the operating system can kill the app there. A killed
  app executes nothing further until it is started again, but what it wrote stays; this is what
  the durability claims are about. \<open>history\<close> lists the requests that reached the server with the
  answers given to them, also the answers the phone never saw. \<open>pulled\<close> is the variable of that
  name in a running sync.
\<close>

section \<open>Tables\<close>

datatype SyncableTable =
    T_ledger_accounts | T_categories | T_journal_entries | T_journal_postings | T_tags
  | T_journal_entry_tags | T_notifications

definition SYNCABLE_TABLES :: "SyncableTable list" where
  "SYNCABLE_TABLES = [T_ledger_accounts, T_categories, T_journal_entries, T_journal_postings, T_tags,
     T_journal_entry_tags, T_notifications]"

fun PRIMARY_KEYS :: "SyncableTable \<Rightarrow> string list" where
  "PRIMARY_KEYS T_journal_entry_tags = [''journal_entry_id'', ''tag_id'']"
| "PRIMARY_KEYS _ = [''id'']"

datatype sql_value = Null | SInt int | SText string

type_synonym row = "string \<Rightarrow> sql_value"

text \<open>A column: its name, whether it is NOT NULL, and its default.\<close>

type_synonym column = "string \<times> bool \<times> sql_value"

abbreviation required :: "string \<Rightarrow> column" where "required n \<equiv> (n, True, Null)"
abbreviation optional :: "string \<Rightarrow> column" where "optional n \<equiv> (n, False, Null)"

fun CREATE_TABLES :: "SyncableTable \<Rightarrow> column list" where
  "CREATE_TABLES T_ledger_accounts =
     [required ''id'', required ''workspace_id'', required ''name'', required ''class'',
      required ''subtype'', required ''currency_code'', required ''normal_balance'',
      (''include_in_budget'', True, SInt 1), (''include_in_net_worth'', True, SInt 1),
      optional ''opening_date'', optional ''archived_at'', optional ''deleted_at'',
      optional ''created_at'', required ''updated_at'', (''version'', True, SInt 1)]"
| "CREATE_TABLES T_categories =
     [required ''id'', optional ''workspace_id'', required ''ledger_account_id'', required ''kind'',
      optional ''parent_id'', optional ''translation_key'', optional ''custom_name'',
      optional ''icon'', optional ''color'', (''sort_order'', True, SInt 0),
      optional ''archived_at'', optional ''deleted_at'', optional ''created_at'', required ''updated_at'']"
| "CREATE_TABLES T_journal_entries =
     [required ''id'', required ''workspace_id'', required ''entry_type'', required ''occurred_at'',
      required ''local_date'', optional ''payee'', optional ''note'', required ''status'',
      optional ''source'', optional ''client_entry_id'', optional ''reverses_entry_id'',
      optional ''created_by'', optional ''posted_at'', optional ''created_at'', required ''updated_at'',
      (''version'', True, SInt 1), (''is_pending'', True, SInt 0),
      optional ''pending_amount_minor'', optional ''pending_currency_code'']"
| "CREATE_TABLES T_journal_postings =
     [required ''id'', required ''workspace_id'', required ''journal_entry_id'',
      required ''ledger_account_id'', (''debit_minor'', True, SInt 0), (''credit_minor'', True, SInt 0),
      required ''currency_code'', (''base_amount_minor'', True, SInt 0), optional ''memo'',
      optional ''created_at'', required ''updated_at'']"
| "CREATE_TABLES T_tags =
     [required ''id'', required ''workspace_id'', required ''name'', optional ''deleted_at'',
      optional ''created_at'', required ''updated_at'']"
| "CREATE_TABLES T_journal_entry_tags =
     [required ''journal_entry_id'', required ''tag_id'', required ''workspace_id'',
      optional ''created_at'', required ''updated_at'']"
| "CREATE_TABLES T_notifications =
     [required ''id'', required ''user_id'', optional ''workspace_id'', required ''category'',
      required ''severity'', required ''title_en'', optional ''title_bn'', required ''body_en'',
      optional ''body_bn'', optional ''action_url'', optional ''resource_type'', optional ''resource_id'',
      (''metadata'', True, SText ''{}''), optional ''read_at'', optional ''archived_at'',
      optional ''expires_at'', required ''created_at'', required ''updated_at'', optional ''deleted_at'']"

datatype MutationKind = CREATE_TRANSACTION | REVERSE_TRANSACTION | READ_NOTIFICATION | READ_ALL_NOTIFICATIONS

datatype QueueStatus = Q_PENDING | Q_IN_FLIGHT | Q_NEEDS_ATTENTION

text \<open>
  Times the device writes are \<open>new Date().toISOString()\<close>; they are kept as milliseconds, whose
  order is the order of the texts. The payload column holds the JSON text of an object.
\<close>

record queued_mutation =
  qm_id :: string
  qm_workspace_id :: string
  qm_kind :: MutationKind
  qm_payload :: fields
  qm_created_at :: nat
  qm_attempts :: nat
  qm_next_attempt_at :: "nat option"
  qm_status :: QueueStatus
  qm_last_error :: "string option"

record sync_meta =
  sm_workspace_id :: string
  sm_cursor :: "string option"
  sm_last_synced_at :: "nat option"

record store =
  queue :: "queued_mutation list"
  tables :: "SyncableTable \<Rightarrow> row list"
  sync_metas :: "sync_meta list"

section \<open>Running on a phone\<close>

datatype fault = No_fault | Sql_error | Killed

record http_request =
  rq_method :: string
  rq_path :: string
  rq_body :: "fields option"
  rq_idempotency_key :: "string option"

text \<open>The response carries its status, status text and JSON body, \<open>None\<close> when it is not JSON.\<close>

datatype fetch_result = Unreachable string | Response nat string "json option"

type_synonym exchange = "http_request \<times> fetch_result"

record phone =
  store :: store
  faults :: "fault list"
  alive :: bool
  history :: "exchange list"
  ticks :: nat
  pulled :: nat

text \<open>
  What comes from outside, per use: the clock, \<open>Math.random\<close>, \<open>randomUUID\<close>, the text of a time,
  the session's access token, and the server's answer given everything it received before.
\<close>

record phone_env =
  pe_clock :: "nat \<Rightarrow> nat"
  pe_random :: "nat \<Rightarrow> rat"
  pe_uuid :: "nat \<Rightarrow> string"
  pe_iso :: "nat \<Rightarrow> string"
  pe_token :: "nat \<Rightarrow> string option"
  pe_answer :: "exchange list \<Rightarrow> http_request \<Rightarrow> fetch_result"

abbreviation killed :: api_exn where "killed \<equiv> Js_error ''killed''"
abbreviation sqlite_error :: api_exn where "sqlite_error \<equiv> Js_error ''SQLITE''"

definition external :: "(nat \<Rightarrow> 'a) \<Rightarrow> (phone, 'a) api" where
  "external f s = (Inr (f (ticks s)), s\<lparr>ticks := Suc (ticks s)\<rparr>)"

definition sql :: "(store \<Rightarrow> (api_exn + 'a) \<times> store) \<Rightarrow> (phone, 'a) api" where
  "sql f s =
     (let t = s\<lparr>faults := tl (faults s)\<rparr> in
      if \<not> alive s then (Inl killed, s)
      else case faults s of
        Killed # _ \<Rightarrow> (Inl killed, t\<lparr>alive := False\<rparr>)
      | Sql_error # _ \<Rightarrow> (Inl sqlite_error, t)
      | _ \<Rightarrow> (case f (store s) of (r, u) \<Rightarrow> (r, t\<lparr>store := u\<rparr>)))"

definition sql_read :: "(store \<Rightarrow> 'a) \<Rightarrow> (phone, 'a) api" where
  "sql_read q = sql (\<lambda>u. (Inr (q u), u))"

definition sql_write :: "(store \<Rightarrow> store) \<Rightarrow> (phone, unit) api" where
  "sql_write f = sql (\<lambda>u. (Inr (), f u))"

text \<open>\<open>withTransactionAsync\<close>: a throw, or the death of the app, rolls the tables back.\<close>

definition with_transaction :: "(phone, 'a) api \<Rightarrow> (phone, 'a) api" where
  "with_transaction m s =
     (case m s of (Inl e, t) \<Rightarrow> (Inl e, t\<lparr>store := store s\<rparr>) | (Inr x, t) \<Rightarrow> (Inr x, t))"

section \<open>The HTTP client\<close>

definition fetch :: "phone_env \<Rightarrow> http_request \<Rightarrow> (phone, fetch_result) api" where
  "fetch E rq s =
     (if \<not> alive s then (Inl killed, s)
      else
        let a = pe_answer E (history s) rq;
          t = s\<lparr>faults := tl (faults s), history := history s @ [(rq, a)]\<rparr> in
        (case faults s of Killed # _ \<Rightarrow> (Inl killed, t\<lparr>alive := False\<rparr>) | _ \<Rightarrow> (Inr a, t)))"

definition response_ok :: "nat \<Rightarrow> bool" where
  "response_ok st \<longleftrightarrow> 200 \<le> st \<and> st < 300"

text \<open>\<open>parsed.code ?? 'UNKNOWN'\<close>.\<close>

definition json_text :: "json option \<Rightarrow> string \<Rightarrow> string \<Rightarrow> string" where
  "json_text body k dflt =
     (case body of None \<Rightarrow> dflt
      | Some j \<Rightarrow> (case jget j k of None \<Rightarrow> dflt | Some JNull \<Rightarrow> dflt | Some v \<Rightarrow> js_String_value v))"

text \<open>What \<open>apiFetch\<close> makes of the outcome of \<open>fetch\<close>.\<close>

definition read_response :: "fetch_result \<Rightarrow> api_exn + json option" where
  "read_response r =
     (case r of
        Unreachable cause \<Rightarrow> Inl (Http_exn 0 (Some ''NETWORK_UNAVAILABLE'') cause)
      | Response st status_text body \<Rightarrow>
          if \<not> response_ok st
          then Inl (Http_exn st (Some (json_text body ''code'' ''UNKNOWN''))
                 (json_text body ''message'' status_text))
          else if st = 204 then Inr None
          else (case body of None \<Rightarrow> Inl (Js_error ''SyntaxError'') | Some b \<Rightarrow> Inr (Some b)))"

definition apiFetch :: "phone_env \<Rightarrow> http_request \<Rightarrow> (phone, json option) api" where
  "apiFetch E rq =
     api_bind (external (pe_token E)) (\<lambda>token.
     case truthy token of
       None \<Rightarrow> api_throw (Http_exn 401 (Some ''NOT_AUTHENTICATED'') ''No active session'')
     | Some _ \<Rightarrow> api_bind (fetch E rq) (\<lambda>r. api_lift (read_response r)))"

definition isPermanent :: "api_exn \<Rightarrow> bool" where
  "isPermanent e =
     (case e of Http_exn st _ _ \<Rightarrow> 400 \<le> st \<and> st < 500 \<and> st \<noteq> 408 \<and> st \<noteq> 429 | Js_error _ \<Rightarrow> False)"

section \<open>Upserts\<close>

definition getLocalColumns :: "SyncableTable \<Rightarrow> string list" where
  "getLocalColumns t = map fst (CREATE_TABLES t)"

definition bind_value :: "json \<Rightarrow> sql_value" where
  "bind_value v =
     (case v of JNull \<Rightarrow> Null | JBool b \<Rightarrow> SInt (if b then 1 else 0) | JInt i \<Rightarrow> SInt i
      | JStr s \<Rightarrow> SText s | _ \<Rightarrow> SText (stringify v))"

text \<open>The row an INSERT of some columns proposes: the other columns take their defaults.\<close>

definition proposed_row :: "SyncableTable \<Rightarrow> (string \<times> sql_value) list \<Rightarrow> row" where
  "proposed_row t vs c =
     (case map_of vs c of Some v \<Rightarrow> v
      | None \<Rightarrow> (case map_of (CREATE_TABLES t) c of Some (_, d) \<Rightarrow> d | None \<Rightarrow> Null))"

definition not_null_ok :: "SyncableTable \<Rightarrow> row \<Rightarrow> bool" where
  "not_null_ok t r = list_all (\<lambda>(c, nn, _). nn \<longrightarrow> r c \<noteq> Null) (CREATE_TABLES t)"

definition row_key :: "SyncableTable \<Rightarrow> row \<Rightarrow> sql_value list" where
  "row_key t r = map r (PRIMARY_KEYS t)"

definition assign :: "(string \<times> sql_value) list \<Rightarrow> row \<Rightarrow> row" where
  "assign vs r c = (case map_of vs c of Some v \<Rightarrow> v | None \<Rightarrow> r c)"

text \<open>
  \<open>INSERT ... ON CONFLICT(keys) DO UPDATE SET ...\<close>: NOT NULL is tested on the proposed row, before
  the conflict is looked for. Without a column to update the statement is not SQL.
\<close>

definition upsert ::
    "SyncableTable \<Rightarrow> (string \<times> sql_value) list \<Rightarrow> row list \<Rightarrow> row list option" where
  "upsert t vs rows =
     (let updates = [(c, v) \<leftarrow> vs. c \<notin> set (PRIMARY_KEYS t)]; new = proposed_row t vs in
      if updates = [] \<or> \<not> not_null_ok t new then None
      else if list_ex (\<lambda>r. row_key t r = row_key t new) rows
        then Some (map (\<lambda>r. if row_key t r = row_key t new then assign updates r else r) rows)
      else Some (rows @ [new]))"

definition upsert_row :: "SyncableTable \<Rightarrow> string list \<Rightarrow> fields \<Rightarrow> (phone, unit) api" where
  "upsert_row t localColumns fs =
     (let columns = [(c, bind_value v). (c, v) \<leftarrow> fs, c \<in> set localColumns] in
      if columns = [] then api_return ()
      else sql (\<lambda>u. case upsert t columns (tables u t) of
          None \<Rightarrow> (Inl sqlite_error, u)
        | Some rows \<Rightarrow> (Inr (), u\<lparr>tables := (tables u)(t := rows)\<rparr>)))"

definition upsertRows :: "SyncableTable \<Rightarrow> fields list \<Rightarrow> string list \<Rightarrow> (phone, unit) api" where
  "upsertRows t rows localColumns =
     api_bind (api_map (upsert_row t localColumns) rows) (\<lambda>_. api_return ())"

text \<open>\<open>clearLocalData\<close>, the sign-out: also the queue of writes not yet sent.\<close>

definition clearLocalData :: "(phone, unit) api" where
  "clearLocalData =
     sql_write (\<lambda>u. u\<lparr>tables := (\<lambda>_. []), sync_metas := [], queue := []\<rparr>)"

section \<open>Laws\<close>

lemma sql_alive_ok:
  "alive s \<Longrightarrow> faults s = [] \<Longrightarrow> sql f s = (case f (store s) of (r, u) \<Rightarrow> (r, s\<lparr>store := u\<rparr>))"
  by (cases s) (simp add: sql_def split: prod.split)

text \<open>What one statement can do: its own effect, or none on the tables.\<close>

lemma sql_cases:
  assumes "sql f s = (r, t)"
  shows "(store t = snd (f (store s)) \<and> r = fst (f (store s)) \<and> alive s \<and> alive t \<or> store t = store s \<and> isl r)
    \<and> history t = history s"
  using assms by (auto simp: sql_def Let_def split: if_splits list.splits fault.splits prod.splits)

lemma fetch_cases:
  assumes "fetch E rq s = (r, t)"
  shows "store t = store s \<and>
    (history t = history s \<and> isl r
     \<or> history t = history s @ [(rq, pe_answer E (history s) rq)]
       \<and> (isl r \<or> r = Inr (pe_answer E (history s) rq)))"
  using assms by (auto simp: fetch_def Let_def split: if_splits list.splits fault.splits)

definition same_store :: "phone \<Rightarrow> phone \<Rightarrow> bool" where
  "same_store s t \<longleftrightarrow> store t = store s \<and> (\<exists>h. history t = history s @ h)"

lemma same_store_refl: "reflp same_store"
  by (simp add: reflp_def same_store_def)

lemma same_store_trans: "transp same_store"
  by (auto simp: transp_def same_store_def)

lemma guar_same_store_fetch: "guar same_store (fetch E rq)"
proof (rule guarI)
  fix s
  show "same_store s (snd (fetch E rq s))"
    using fetch_cases [of E rq s] by (cases "fetch E rq s") (auto simp: same_store_def)
qed

lemma guar_same_store_external: "guar same_store (external f)"
  by (rule guarI) (simp add: external_def same_store_def)

lemma guar_same_store_lift: "guar same_store (api_lift r)"
  by (rule guarI) (simp add: api_lift_def same_store_def)

lemma guar_same_store_apiFetch: "guar same_store (apiFetch E rq)"
  unfolding apiFetch_def
  by (intro guar_bind guar_case_option same_store_trans guar_same_store_external guar_throw same_store_refl
      guar_same_store_fetch guar_same_store_lift)

text \<open>A request that returned was answered with a success status.\<close>

definition ok_answer :: "fetch_result \<Rightarrow> bool" where
  "ok_answer a \<longleftrightarrow> (case a of Response st _ _ \<Rightarrow> response_ok st | _ \<Rightarrow> False)"

definition answered_ok :: "http_request \<Rightarrow> exchange list \<Rightarrow> bool" where
  "answered_ok rq h \<longleftrightarrow>
     list_ex (\<lambda>(q, a). q = rq \<and> ok_answer a) h"

lemma answered_ok_append [simp]: "answered_ok rq (h @ h') \<longleftrightarrow> answered_ok rq h \<or> answered_ok rq h'"
  by (simp add: answered_ok_def)

lemma read_response_Inr:
  "read_response a = Inr x \<Longrightarrow> \<exists>st w b. a = Response st w b \<and> response_ok st \<and> (x = None \<or> x = b)"
  by (auto simp: read_response_def split: fetch_result.splits if_splits option.splits)

lemma apiFetch_response:
  assumes "apiFetch E rq s = (Inr x, t)"
  shows "\<exists>st w b. history t = history s @ [(rq, Response st w b)] \<and> response_ok st \<and> (x = None \<or> x = b)"
proof -
  obtain tok where tok: "truthy (pe_token E (ticks s)) = Some tok"
    using assms by (auto simp: apiFetch_def external_def api_bind_def api_throw_def split: option.splits)
  then have "api_bind (fetch E rq) (\<lambda>r. api_lift (read_response r)) (s\<lparr>ticks := Suc (ticks s)\<rparr>) = (Inr x, t)"
    using assms by (simp add: apiFetch_def external_def api_bind_def)
  then obtain a u where f: "fetch E rq (s\<lparr>ticks := Suc (ticks s)\<rparr>) = (Inr a, u)"
    and k: "api_lift (read_response a) u = (Inr x, t)"
    unfolding api_bind_Inr by blast
  then have "read_response a = Inr x" "t = u" by (auto simp: api_lift_def)
  then show ?thesis using read_response_Inr [of a x] fetch_cases [OF f] by auto
qed

lemma apiFetch_history:
  "apiFetch E rq s = (r, t) \<Longrightarrow>
     history t = history s \<or> history t = history s @ [(rq, pe_answer E (history s) rq)]"
proof -
  assume a: "apiFetch E rq s = (r, t)"
  obtain x u where f: "fetch E rq (s\<lparr>ticks := Suc (ticks s)\<rparr>) = (x, u)"
    by (cases "fetch E rq (s\<lparr>ticks := Suc (ticks s)\<rparr>)")
  have "history t = history s \<or> history t = history u"
    using a f by (auto simp: apiFetch_def external_def api_bind_def api_throw_def api_lift_def
        split: option.splits sum.splits prod.splits)
  then show ?thesis using fetch_cases [OF f] by auto
qed

lemma apiFetch_returned: "apiFetch E rq s = (Inr x, t) \<Longrightarrow> answered_ok rq (history t)"
  using apiFetch_response [of E rq s x t] by (auto simp: answered_ok_def ok_answer_def)

end
