(* ===== verification/MobileQueue.thy ===== *)
theory MobileQueue
  imports MobileStore Domain
begin

text \<open>
  \<open>apps/mobile/src/sync/queue.ts\<close>, the durable queue of outgoing writes, and the offline-first
  \<open>createTransaction\<close> of \<open>repositories/transactions.ts\<close>. The operations are the source's, statement
  by statement; \<open>drain\<close> is its endless loop with one more round than there are rows, which is
  shown to be enough. The abstract view of the queue is its outbox: the writes still owed to the
  server, without the bookkeeping of attempts.
\<close>

section \<open>Operations\<close>

definition backoff_base :: "nat \<Rightarrow> nat" where
  "backoff_base attempts = min (1000 * 2 ^ attempts) (5 * 60000)"

text \<open>\<open>Math.random()\<close> is \<open>r\<close>; \<open>new Date\<close> truncates to whole milliseconds.\<close>

definition backoffMs :: "nat \<Rightarrow> rat \<Rightarrow> rat" where
  "backoffMs attempts r = of_nat (backoff_base attempts) + r * of_nat (backoff_base attempts) * (1 / 4)"

definition date_after :: "nat \<Rightarrow> rat \<Rightarrow> nat" where
  "date_after now ms = nat \<lfloor>of_nat now + ms\<rfloor>"

definition new_mutation :: "string \<Rightarrow> string \<Rightarrow> MutationKind \<Rightarrow> fields \<Rightarrow> nat \<Rightarrow> queued_mutation" where
  "new_mutation i w k p now =
     \<lparr>qm_id = i, qm_workspace_id = w, qm_kind = k, qm_payload = p, qm_created_at = now,
      qm_attempts = 0, qm_next_attempt_at = None, qm_status = Q_PENDING, qm_last_error = None\<rparr>"

definition insert_or_ignore :: "queued_mutation \<Rightarrow> store \<Rightarrow> store" where
  "insert_or_ignore m u =
     (if list_ex (\<lambda>q. qm_id q = qm_id m) (queue u) then u else u\<lparr>queue := queue u @ [m]\<rparr>)"

definition enqueue :: "phone_env \<Rightarrow> string \<Rightarrow> string \<Rightarrow> MutationKind \<Rightarrow> fields \<Rightarrow> (phone, unit) api" where
  "enqueue E i w k p =
     api_bind (external (pe_clock E)) (\<lambda>now. sql_write (insert_or_ignore (new_mutation i w k p now)))"

definition countPending :: "string \<Rightarrow> (phone, nat) api" where
  "countPending w = sql_read (\<lambda>u. length [m \<leftarrow> queue u. qm_workspace_id m = w
     \<and> qm_status m \<in> {Q_PENDING, Q_IN_FLIGHT}])"

definition listNeedingAttention :: "string \<Rightarrow> (phone, queued_mutation list) api" where
  "listNeedingAttention w = sql_read (\<lambda>u. sort_key qm_created_at
     [m \<leftarrow> queue u. qm_workspace_id m = w \<and> qm_status m = Q_NEEDS_ATTENTION])"

definition update_mutation :: "string \<Rightarrow> (queued_mutation \<Rightarrow> queued_mutation) \<Rightarrow> store \<Rightarrow> store" where
  "update_mutation i f u = u\<lparr>queue := map (\<lambda>m. if qm_id m = i then f m else m) (queue u)\<rparr>"

definition delete_mutation :: "string \<Rightarrow> store \<Rightarrow> store" where
  "delete_mutation i u = u\<lparr>queue := [m \<leftarrow> queue u. qm_id m \<noteq> i]\<rparr>"

definition delete_rows :: "SyncableTable \<Rightarrow> (store \<Rightarrow> row \<Rightarrow> bool) \<Rightarrow> store \<Rightarrow> store" where
  "delete_rows t P u = u\<lparr>tables := (tables u)(t := [r \<leftarrow> tables u t. \<not> P u r])\<rparr>"

text \<open>The optimistic entry of a parked creation: pending and without postings.\<close>

definition optimistic_entry :: "string \<Rightarrow> store \<Rightarrow> row \<Rightarrow> bool" where
  "optimistic_entry i u r \<longleftrightarrow> r ''id'' = SText i \<and> r ''is_pending'' = SInt 1
     \<and> \<not> list_ex (\<lambda>p. p ''journal_entry_id'' = r ''id'') (tables u T_journal_postings)"

definition discard :: "string \<Rightarrow> (phone, unit) api" where
  "discard i =
     with_transaction (
       api_bind (sql_read (\<lambda>u. find (\<lambda>m. qm_id m = i \<and> qm_status m = Q_NEEDS_ATTENTION) (queue u))) (\<lambda>found.
       case found of
         None \<Rightarrow> api_return ()
       | Some m \<Rightarrow>
           api_bind (if qm_kind m = CREATE_TRANSACTION
             then api_bind (sql_write (delete_rows T_journal_entry_tags (\<lambda>_ r. r ''journal_entry_id'' = SText i)))
                    (\<lambda>_. sql_write (delete_rows T_journal_entries (optimistic_entry i)))
             else api_return ()) (\<lambda>_.
           sql_write (delete_mutation i))))"

definition retried :: "queued_mutation \<Rightarrow> queued_mutation" where
  "retried m =
     (if qm_status m = Q_NEEDS_ATTENTION
      then m\<lparr>qm_status := Q_PENDING, qm_next_attempt_at := None, qm_last_error := None\<rparr> else m)"

definition retry :: "string \<Rightarrow> (phone, unit) api" where
  "retry i = sql_write (update_mutation i retried)"

definition stranded :: "string \<Rightarrow> queued_mutation \<Rightarrow> bool" where
  "stranded w m \<longleftrightarrow> qm_workspace_id m = w \<and> qm_status m = Q_IN_FLIGHT"

definition reclaim_rows :: "string \<Rightarrow> queued_mutation list \<Rightarrow> queued_mutation list" where
  "reclaim_rows w q =
     map (\<lambda>m. if stranded w m then m\<lparr>qm_status := Q_PENDING, qm_next_attempt_at := None\<rparr> else m) q"

definition reclaimStranded :: "string \<Rightarrow> (phone, nat) api" where
  "reclaimStranded w = sql (\<lambda>u.
     (Inr (length (filter (stranded w) (queue u))), u\<lparr>queue := reclaim_rows w (queue u)\<rparr>))"

definition claimable :: "string \<Rightarrow> nat \<Rightarrow> queued_mutation \<Rightarrow> bool" where
  "claimable w now m \<longleftrightarrow> qm_workspace_id m = w \<and> qm_status m = Q_PENDING
     \<and> (case qm_next_attempt_at m of None \<Rightarrow> True | Some t \<Rightarrow> t \<le> now)"

definition first_claimable :: "string \<Rightarrow> nat \<Rightarrow> queued_mutation list \<Rightarrow> queued_mutation option" where
  "first_claimable w now q =
     (case sort_key qm_created_at (filter (claimable w now) q) of [] \<Rightarrow> None | m # _ \<Rightarrow> Some m)"

definition claimNext :: "phone_env \<Rightarrow> string \<Rightarrow> (phone, queued_mutation option) api" where
  "claimNext E w =
     api_bind (external (pe_clock E)) (\<lambda>now. sql_read (\<lambda>u. first_claimable w now (queue u)))"

text \<open>The request a mutation stands for; its id is the idempotency key.\<close>

definition mutation_request :: "queued_mutation \<Rightarrow> http_request" where
  "mutation_request m =
     (let path = (case qm_kind m of
            CREATE_TRANSACTION \<Rightarrow> ''/workspaces/'' @ qm_workspace_id m @ ''/transactions''
          | REVERSE_TRANSACTION \<Rightarrow> ''/workspaces/'' @ qm_workspace_id m @ ''/transactions/''
              @ js_String (map_of (qm_payload m) ''transaction_id'') @ ''/reverse''
          | READ_NOTIFICATION \<Rightarrow> ''/notifications/''
              @ js_String (map_of (qm_payload m) ''notification_id'') @ ''/read''
          | READ_ALL_NOTIFICATIONS \<Rightarrow> ''/notifications/read-all'');
        body = (if qm_kind m = CREATE_TRANSACTION
                then Some (jset (qm_payload m) ''idempotency_key'' (JStr (qm_id m))) else None) in
      \<lparr>rq_method = ''POST'', rq_path = path, rq_body = body, rq_idempotency_key = Some (qm_id m)\<rparr>)"

definition sendMutation :: "phone_env \<Rightarrow> queued_mutation \<Rightarrow> (phone, unit) api" where
  "sendMutation E m = api_bind (apiFetch E (mutation_request m)) (\<lambda>_. api_return ())"

record drain_result =
  sent :: nat
  parked :: nat
  deferred :: nat
  reclaimed :: nat

definition error_text :: "api_exn \<Rightarrow> string" where
  "error_text e = (case e of Http_exn _ _ msg \<Rightarrow> msg | Js_error msg \<Rightarrow> ''Error: '' @ msg)"

definition park :: "queued_mutation \<Rightarrow> api_exn \<Rightarrow> store \<Rightarrow> store" where
  "park m e = update_mutation (qm_id m) (\<lambda>x. x\<lparr>qm_status := Q_NEEDS_ATTENTION,
     qm_attempts := qm_attempts m + 1, qm_last_error := Some (error_text e)\<rparr>)"

definition defer_until :: "queued_mutation \<Rightarrow> api_exn \<Rightarrow> nat \<Rightarrow> store \<Rightarrow> store" where
  "defer_until m e t = update_mutation (qm_id m) (\<lambda>x. x\<lparr>qm_status := Q_PENDING,
     qm_attempts := qm_attempts m + 1, qm_next_attempt_at := Some t, qm_last_error := Some (error_text e)\<rparr>)"

text \<open>The \<open>catch\<close> of the loop: park and go on, or back off and leave.\<close>

definition failed_attempt ::
    "phone_env \<Rightarrow> queued_mutation \<Rightarrow> drain_result \<Rightarrow> api_exn \<Rightarrow> (phone, drain_result + drain_result) api" where
  "failed_attempt E m r e =
     (if isPermanent e
      then api_bind (sql_write (park m e)) (\<lambda>_. api_return (Inr (r\<lparr>parked := parked r + 1\<rparr>)))
      else api_bind (external (pe_clock E)) (\<lambda>now.
           api_bind (external (pe_random E)) (\<lambda>rnd.
           api_bind (sql_write (defer_until m e (date_after now (backoffMs (qm_attempts m + 1) rnd)))) (\<lambda>_.
           api_return (Inl (r\<lparr>deferred := deferred r + 1\<rparr>))))))"

text \<open>The \<open>try\<close>: the row is deleted only after the server confirmed it.\<close>

definition attempt ::
    "phone_env \<Rightarrow> queued_mutation \<Rightarrow> drain_result \<Rightarrow> (phone, drain_result + drain_result) api" where
  "attempt E m r =
     api_bind (sendMutation E m) (\<lambda>_.
     api_bind (sql_write (delete_mutation (qm_id m))) (\<lambda>_.
     api_return (Inr (r\<lparr>sent := sent r + 1\<rparr>))))"

definition drain_round ::
    "phone_env \<Rightarrow> string \<Rightarrow> drain_result \<Rightarrow> (phone, drain_result + drain_result) api" where
  "drain_round E w r =
     api_bind (claimNext E w) (\<lambda>found.
     case found of
       None \<Rightarrow> api_return (Inl r)
     | Some m \<Rightarrow>
         api_bind (sql_write (update_mutation (qm_id m) (\<lambda>x. x\<lparr>qm_status := Q_IN_FLIGHT\<rparr>))) (\<lambda>_.
         api_catch (attempt E m r) (failed_attempt E m r)))"

definition drain_from :: "nat \<Rightarrow> phone_env \<Rightarrow> string \<Rightarrow> (phone, drain_result option) api" where
  "drain_from n E w =
     api_bind (reclaimStranded w) (\<lambda>k.
     api_loop n (drain_round E w) \<lparr>sent = 0, parked = 0, deferred = 0, reclaimed = k\<rparr>)"

definition drain :: "phone_env \<Rightarrow> string \<Rightarrow> (phone, drain_result option) api" where
  "drain E w s = drain_from (Suc (length (queue (store s)))) E w s"

section \<open>Offline-first creation\<close>

record create_input =
  ci_type :: string
  ci_amount :: string
  ci_account_id :: string
  ci_currency_code :: string
  ci_category_id :: "string option"
  ci_transfer_to_account_id :: "string option"
  ci_payee :: "string option"
  ci_note :: "string option"
  ci_tags :: "string list option"
  ci_occurred_at :: "string option"

definition sql_text_opt :: "string option \<Rightarrow> sql_value" where
  "sql_text_opt x = (case x of None \<Rightarrow> Null | Some s \<Rightarrow> SText s)"

text \<open>\<open>amount\<close> is a parameter: \<open>Number(input.amount)\<close> of a validated digit string.\<close>

definition optimistic_row ::
    "string \<Rightarrow> string \<Rightarrow> create_input \<Rightarrow> string \<Rightarrow> string \<Rightarrow> (string \<times> sql_value) list" where
  "optimistic_row i w d occurredAt now =
     [(''id'', SText i), (''workspace_id'', SText w), (''entry_type'', SText (ci_type d)),
      (''occurred_at'', SText occurredAt), (''local_date'', SText (hd (js_split CHR ''T'' occurredAt))),
      (''payee'', sql_text_opt (ci_payee d)), (''note'', sql_text_opt (ci_note d)),
      (''status'', SText ''POSTED''), (''source'', SText ''MANUAL''), (''client_entry_id'', SText i),
      (''created_at'', SText now), (''updated_at'', SText now), (''version'', SInt 1), (''is_pending'', SInt 1),
      (''pending_amount_minor'', SInt (int (digits_val (ci_amount d)))),
      (''pending_currency_code'', SText (ci_currency_code d))]"

definition insert_row :: "SyncableTable \<Rightarrow> (string \<times> sql_value) list \<Rightarrow> store \<Rightarrow> (api_exn + unit) \<times> store" where
  "insert_row t vs u =
     (let new = proposed_row t vs in
      if \<not> not_null_ok t new \<or> list_ex (\<lambda>r. row_key t r = row_key t new) (tables u t)
      then (Inl sqlite_error, u)
      else (Inr (), u\<lparr>tables := (tables u)(t := tables u t @ [new])\<rparr>))"

definition create_payload :: "create_input \<Rightarrow> string \<Rightarrow> fields" where
  "create_payload d occurredAt = defined_fields
     [(''type'', Some (JStr (ci_type d))), (''amount'', Some (JStr (ci_amount d))),
      (''account_id'', Some (JStr (ci_account_id d))), (''category_id'', jstr_opt (ci_category_id d)),
      (''transfer_to_account_id'', jstr_opt (ci_transfer_to_account_id d)),
      (''payee'', jstr_opt (ci_payee d)), (''note'', jstr_opt (ci_note d)),
      (''tags'', map_option (\<lambda>ts. JArr (map JStr ts)) (ci_tags d)),
      (''occurred_at'', Some (JStr occurredAt))]"

definition local_createTransaction :: "phone_env \<Rightarrow> string \<Rightarrow> create_input \<Rightarrow> (phone, string) api" where
  "local_createTransaction E w d =
     api_bind (external (pe_uuid E)) (\<lambda>i.
     api_bind (external (\<lambda>k. pe_iso E (pe_clock E k))) (\<lambda>now.
     let occurredAt = (case ci_occurred_at d of Some t \<Rightarrow> t | None \<Rightarrow> now) in
     api_bind (sql (insert_row T_journal_entries (optimistic_row i w d occurredAt now))) (\<lambda>_.
     api_bind (enqueue E i w CREATE_TRANSACTION (create_payload d occurredAt)) (\<lambda>_.
     api_return i))))"

section \<open>The outbox\<close>

text \<open>What is owed to the server: a mutation without its delivery bookkeeping.\<close>

record owed =
  ow_id :: string
  ow_workspace_id :: string
  ow_kind :: MutationKind
  ow_payload :: fields

definition content :: "queued_mutation \<Rightarrow> owed" where
  "content m = \<lparr>ow_id = qm_id m, ow_workspace_id = qm_workspace_id m, ow_kind = qm_kind m,
     ow_payload = qm_payload m\<rparr>"

definition outbox :: "phone \<Rightarrow> owed list" where
  "outbox s = map content (queue (store s))"

definition owed_request :: "owed \<Rightarrow> http_request" where
  "owed_request c = mutation_request (new_mutation (ow_id c) (ow_workspace_id c) (ow_kind c) (ow_payload c) 0)"

lemma owed_request_content [simp]: "owed_request (content m) = mutation_request m"
  by (cases "qm_kind m") (simp_all add: owed_request_def content_def new_mutation_def mutation_request_def)

text \<open>
  A delivery: some writes left the outbox, in any order but each only after the server answered
  its request with success, and nothing else about the outbox changed.
\<close>

definition delivers :: "phone \<Rightarrow> phone \<Rightarrow> bool" where
  "delivers s t \<longleftrightarrow> (\<exists>h. history t = history s @ h)
     \<and> (\<exists>P. outbox t = [c \<leftarrow> outbox s. \<not> P c]
          \<and> list_all (\<lambda>c. P c \<longrightarrow> answered_ok (owed_request c) (history t)) (outbox s))
     \<and> tables (store t) = tables (store s) \<and> sync_metas (store t) = sync_metas (store s)"

lemma delivers_refl: "reflp delivers"
  by (auto simp: reflp_def delivers_def list_all_iff intro!: exI [of _ "\<lambda>_. False"])

lemma delivers_trans: "transp delivers"
proof (rule transpI)
  fix s t u
  assume a: "delivers s t" "delivers t u"
  obtain P h where p: "outbox t = [c \<leftarrow> outbox s. \<not> P c]" "history t = history s @ h"
      "list_all (\<lambda>c. P c \<longrightarrow> answered_ok (owed_request c) (history t)) (outbox s)"
    using a(1) by (auto simp: delivers_def)
  obtain Q k where q: "outbox u = [c \<leftarrow> outbox t. \<not> Q c]" "history u = history t @ k"
      "list_all (\<lambda>c. Q c \<longrightarrow> answered_ok (owed_request c) (history u)) (outbox t)"
    using a(2) by (auto simp: delivers_def)
  have "outbox u = [c \<leftarrow> outbox s. \<not> (P c \<or> Q c)]"
    by (auto simp: p(1) q(1) intro: filter_cong)
  moreover have "list_all (\<lambda>c. P c \<or> Q c \<longrightarrow> answered_ok (owed_request c) (history u)) (outbox s)"
    using p(1,3) q(2,3) by (auto simp: list_all_iff)
  ultimately show "delivers s u"
    using a p(2) q(2) unfolding delivers_def
    by (auto intro!: exI [of _ "\<lambda>c. P c \<or> Q c"])
qed

lemmas delivers_rules = guar_bind [OF delivers_trans] guar_catch [OF delivers_trans]
  guar_return [OF delivers_refl] guar_throw [OF delivers_refl] guar_if guar_case_option guar_case_sum
  guar_loop [OF delivers_refl delivers_trans]

lemma delivers_same_store: "same_store s t \<Longrightarrow> delivers s t"
  by (auto simp: same_store_def delivers_def outbox_def list_all_iff intro!: exI [of _ "\<lambda>_. False"])

lemma guar_same_store_delivers: "guar same_store m \<Longrightarrow> guar delivers m"
  by (simp add: guar_def delivers_same_store)

text \<open>A statement that rewrites rows without touching what they owe.\<close>

lemma delivers_sql:
  assumes "\<And>u. map content (queue (snd (f u))) = map content (queue u)
      \<and> tables (snd (f u)) = tables u \<and> sync_metas (snd (f u)) = sync_metas u"
  shows "guar delivers (sql f)"
proof (rule guarI)
  fix s
  obtain r t where t: "sql f s = (r, t)" by (cases "sql f s")
  have "outbox t = outbox s" "tables (store t) = tables (store s)" "sync_metas (store t) = sync_metas (store s)"
    using sql_cases [OF t] assms [of "store s"] by (auto simp: outbox_def)
  then show "delivers s (snd (sql f s))"
    using sql_cases [OF t] t
    by (auto simp: delivers_def list_all_iff intro!: exI [of _ "\<lambda>_. False"])
qed

lemma content_update:
  "(\<And>m. content (f m) = content m) \<Longrightarrow> map content (queue (update_mutation i f u)) = map content (queue u)"
  by (simp add: update_mutation_def)

lemma update_frame [simp]:
  "tables (update_mutation i f u) = tables u" "sync_metas (update_mutation i f u) = sync_metas u"
  by (simp_all add: update_mutation_def)

lemma delivers_update:
  "(\<And>m. content (f m) = content m) \<Longrightarrow> guar delivers (sql_write (update_mutation i f))"
  unfolding sql_write_def by (rule delivers_sql) (simp add: content_update)

text \<open>A mutation a drain works on: its row is the only one with its id.\<close>

definition unique_ids :: "phone \<Rightarrow> bool" where
  "unique_ids s \<longleftrightarrow> distinct (map ow_id (outbox s))"

definition owned :: "queued_mutation \<Rightarrow> phone \<Rightarrow> bool" where
  "owned m s \<longleftrightarrow> unique_ids s \<and> content m \<in> set (outbox s)"

lemma delivers_unique: "delivers s t \<Longrightarrow> unique_ids s \<Longrightarrow> unique_ids t"
  by (auto simp: delivers_def unique_ids_def distinct_map_filter)

lemma owned_same: "owned m s \<Longrightarrow> outbox t = outbox s \<Longrightarrow> owned m t"
  by (simp add: owned_def unique_ids_def)

lemma outbox_delete: "store t = delete_mutation i u \<Longrightarrow> outbox t = [c \<leftarrow> map content (queue u). ow_id c \<noteq> i]"
  by (simp add: outbox_def delete_mutation_def content_def filter_map o_def)

lemma owned_id:
  assumes "owned m s" "c \<in> set (outbox s)" "ow_id c = qm_id m"
  shows "c = content m"
  using assms by (auto simp: owned_def unique_ids_def distinct_map inj_on_def content_def)

lemma delivers_delete:
  assumes "owned m s" "answered_ok (mutation_request m) (history s)"
    "sql_write (delete_mutation (qm_id m)) s = (d, t)"
  shows "delivers s t"
proof -
  note c = sql_cases [OF assms(3) [unfolded sql_write_def]]
  show ?thesis
  proof (cases "store t = store s")
    case True
    then show ?thesis using c by (intro delivers_same_store) (simp add: same_store_def)
  next
    case False
    then have st: "store t = delete_mutation (qm_id m) (store s)" using c by auto
    have "outbox t = [c \<leftarrow> outbox s. \<not> ow_id c = qm_id m]"
      using outbox_delete [OF st] by (simp add: outbox_def)
    moreover have "list_all (\<lambda>c. ow_id c = qm_id m \<longrightarrow> answered_ok (owed_request c) (history t)) (outbox s)"
      unfolding list_all_iff
    proof (intro ballI impI)
      fix c
      assume "c \<in> set (outbox s)" "ow_id c = qm_id m"
      then have "c = content m" by (rule owned_id [OF assms(1)])
      then show "answered_ok (owed_request c) (history t)" using assms(2) sql_cases [OF assms(3) [unfolded sql_write_def]] by simp
    qed
    ultimately show ?thesis
      using c st by (auto simp: delivers_def delete_mutation_def intro!: exI [of _ "\<lambda>c. ow_id c = qm_id m"])
  qed
qed

lemma delivers_attempt:
  assumes "owned m s"
  shows "delivers s (snd (attempt E m r s))"
proof -
  obtain x u where x: "apiFetch E (mutation_request m) s = (x, u)" by (cases "apiFetch E (mutation_request m) s")
  have same: "same_store s u" by (rule guar_run [OF guar_same_store_apiFetch x])
  show ?thesis
  proof (cases x)
    case (Inl e)
    then show ?thesis using x delivers_same_store [OF same]
      by (simp add: attempt_def sendMutation_def api_bind_def)
  next
    case (Inr y)
    obtain d v where d: "sql_write (delete_mutation (qm_id m)) u = (d, v)"
      by (cases "sql_write (delete_mutation (qm_id m)) u")
    have "owned m u" using same assms by (auto simp: same_store_def outbox_def intro: owned_same)
    moreover have "answered_ok (mutation_request m) (history u)" using apiFetch_returned x Inr by blast
    ultimately have "delivers u v" using d by (rule delivers_delete)
    moreover have "snd (attempt E m r s) = v"
      using x d Inr by (cases d) (auto simp: attempt_def sendMutation_def api_bind_def api_return_def)
    ultimately show ?thesis
      using transpD [OF delivers_trans delivers_same_store [OF same]] by simp
  qed
qed

lemma guar_delivers_external: "guar delivers (external f)"
  by (intro guar_same_store_delivers guar_same_store_external)

lemma delivers_failed_attempt: "guar delivers (failed_attempt E m r e)"
  unfolding failed_attempt_def park_def defer_until_def
  by (intro delivers_rules delivers_update guar_delivers_external) (simp_all add: content_def)

lemma delivers_try:
  assumes "owned m s"
  shows "delivers s (snd (api_catch (attempt E m r) (failed_attempt E m r) s))"
proof -
  obtain x u where x: "attempt E m r s = (x, u)" by (cases "attempt E m r s")
  then have su: "delivers s u" using delivers_attempt [OF assms, of E r] by simp
  show ?thesis
  proof (cases x)
    case (Inl e)
    have "delivers u (snd (failed_attempt E m r e u))" by (rule guarD [OF delivers_failed_attempt])
    then show ?thesis using transpD [OF delivers_trans su] x Inl by (simp add: api_catch_def)
  qed (use x su in \<open>simp add: api_catch_def\<close>)
qed

lemma first_claimable_in: "first_claimable w now q = Some m \<Longrightarrow> m \<in> set q \<and> claimable w now m"
proof -
  assume "first_claimable w now q = Some m"
  then obtain ms where "sort_key qm_created_at (filter (claimable w now) q) = m # ms"
    by (auto simp: first_claimable_def split: list.splits)
  then have "m \<in> set (sort_key qm_created_at (filter (claimable w now) q))" by simp
  then show ?thesis unfolding set_sort by simp
qed

lemma claimNext_cases:
  assumes "claimNext E w s = (r, t)"
  shows "store t = store s \<and> history t = history s \<and>
    (isl r \<or> (\<exists>now. r = Inr (first_claimable w now (queue (store s))) \<and> alive t))"
proof -
  let ?now = "pe_clock E (ticks s)"
  let ?s = "s\<lparr>ticks := Suc (ticks s)\<rparr>"
  have "sql_read (\<lambda>u. first_claimable w ?now (queue u)) ?s = (r, t)"
    using assms by (simp add: claimNext_def external_def api_bind_def)
  then show ?thesis using sql_cases [of _ ?s r t] unfolding sql_read_def by fastforce
qed

text \<open>What a round does after its claim.\<close>

lemma drain_round_unfold:
  assumes "claimNext E w s = (x, u)"
  shows "drain_round E w r s = (case x of
      Inl e \<Rightarrow> (Inl e, u)
    | Inr None \<Rightarrow> (Inr (Inl r), u)
    | Inr (Some m) \<Rightarrow>
        api_bind (sql_write (update_mutation (qm_id m) (\<lambda>x. x\<lparr>qm_status := Q_IN_FLIGHT\<rparr>)))
          (\<lambda>_. api_catch (attempt E m r) (failed_attempt E m r)) u)"
  using assms by (auto simp: drain_round_def api_bind_def api_return_def split: sum.split option.split)

lemma delivers_round:
  assumes "unique_ids s"
  shows "delivers s (snd (drain_round E w r s))"
proof -
  obtain x u where x: "claimNext E w s = (x, u)" by (cases "claimNext E w s")
  note c = claimNext_cases [OF x]
  have su: "delivers s u" using c by (intro delivers_same_store) (simp add: same_store_def)
  show ?thesis
  proof (cases "\<exists>m. x = Inr (Some m)")
    case True
    then obtain m where m: "x = Inr (Some m)" by blast
    then have "m \<in> set (queue (store s))" using c first_claimable_in by fastforce
    then have owned: "owned m u" using assms c by (simp add: owned_def unique_ids_def outbox_def)
    let ?f = "sql_write (update_mutation (qm_id m) (\<lambda>x. x\<lparr>qm_status := Q_IN_FLIGHT\<rparr>))"
    obtain y v where y: "?f u = (y, v)" by (cases "?f u")
    have uv: "delivers u v" by (rule guar_run [OF delivers_update y]) (simp add: content_def)
    have sv: "delivers s v" by (rule transpD [OF delivers_trans su uv])
    have "outbox v = outbox u"
      using sql_cases [OF y [unfolded sql_write_def]] by (auto simp: outbox_def content_update content_def)
    then have "owned m v" by (rule owned_same [OF owned])
    then have "delivers v (snd (api_catch (attempt E m r) (failed_attempt E m r) v))" by (rule delivers_try)
    then have "delivers s (snd (api_catch (attempt E m r) (failed_attempt E m r) v))"
      by (rule transpD [OF delivers_trans sv])
    then show ?thesis using y sv
      by (cases y) (simp_all add: drain_round_unfold [OF x] m api_bind_def)
  next
    case False
    then have "snd (drain_round E w r s) = u"
      by (cases x) (auto simp: drain_round_unfold [OF x] split: option.split)
    then show ?thesis using su by simp
  qed
qed

definition delivers_unique_ids :: "phone \<Rightarrow> phone \<Rightarrow> bool" where
  "delivers_unique_ids s t \<longleftrightarrow> (unique_ids s \<longrightarrow> delivers s t)"

lemma delivers_unique_ids_rt: "reflp delivers_unique_ids" "transp delivers_unique_ids"
  unfolding reflp_def transp_def delivers_unique_ids_def
  using reflpD [OF delivers_refl] transpD [OF delivers_trans] delivers_unique by blast+

lemma guar_delivers_unique: "guar delivers m \<Longrightarrow> guar delivers_unique_ids m"
  by (simp add: guar_def delivers_unique_ids_def)

lemma delivers_reclaim: "guar delivers (reclaimStranded w)"
  unfolding reclaimStranded_def
  by (rule delivers_sql) (simp add: content_def reclaim_rows_def)

lemma drain_from_delivers: "guar delivers_unique_ids (drain_from n E w)"
  unfolding drain_from_def
  by (intro guar_bind [OF delivers_unique_ids_rt(2)] guar_delivers_unique [OF delivers_reclaim]
      guar_loop [OF delivers_unique_ids_rt])
    (simp add: guar_def delivers_unique_ids_def delivers_round)

section \<open>The loop ends\<close>

definition pending :: "phone \<Rightarrow> nat" where
  "pending s = length [m \<leftarrow> queue (store s). qm_status m = Q_PENDING]"

lemma length_filter_mono: "(\<And>x. x \<in> set xs \<Longrightarrow> P x \<Longrightarrow> Q x) \<Longrightarrow> length (filter P xs) \<le> length (filter Q xs)"
  by (induction xs) (auto simp: le_SucI)

lemma length_filter_strict:
  "(\<And>x. x \<in> set xs \<Longrightarrow> P x \<Longrightarrow> Q x) \<Longrightarrow> y \<in> set xs \<Longrightarrow> Q y \<Longrightarrow> \<not> P y \<Longrightarrow>
     length (filter P xs) < length (filter Q xs)"
proof (induction xs)
  case (Cons x xs)
  then show ?case using length_filter_mono [of xs P Q] by (auto simp: less_Suc_eq_le)
qed simp

lemma pending_update_le:
  assumes "store t = update_mutation i f (store s)" "\<And>m. qm_status (f m) \<noteq> Q_PENDING"
  shows "pending t \<le> pending s"
  using assms by (auto simp: pending_def update_mutation_def filter_map o_def intro!: length_filter_mono)

lemma pending_update_less:
  assumes "store t = update_mutation i f (store s)" "\<And>m. qm_status (f m) \<noteq> Q_PENDING"
    "m \<in> set (queue (store s))" "qm_id m = i" "qm_status m = Q_PENDING"
  shows "pending t < pending s"
  using assms by (auto simp: pending_def update_mutation_def filter_map o_def intro!: length_filter_strict)

lemma pending_delete_le: "store t = delete_mutation i (store s) \<Longrightarrow> pending t \<le> pending s"
  by (auto simp: pending_def delete_mutation_def intro!: length_filter_mono)

lemma attempt_cases:
  assumes "attempt E m r s = (x, t)"
  shows "isl x \<and> store t = store s
    \<or> x = Inr (Inr (r\<lparr>sent := sent r + 1\<rparr>)) \<and> store t = delete_mutation (qm_id m) (store s)"
proof -
  obtain y u where y: "apiFetch E (mutation_request m) s = (y, u)" by (cases "apiFetch E (mutation_request m) s")
  have same: "store u = store s"
    using guar_run [OF guar_same_store_apiFetch y] by (simp add: same_store_def)
  obtain d v where d: "sql_write (delete_mutation (qm_id m)) u = (d, v)"
    by (cases "sql_write (delete_mutation (qm_id m)) u")
  show ?thesis
    using assms y d same sql_cases [OF d [unfolded sql_write_def]]
    by (cases y; cases d) (auto simp: attempt_def sendMutation_def api_bind_def api_return_def)
qed

lemma failed_attempt_continues:
  assumes "failed_attempt E m r e s = (Inr (Inr r'), t)"
  shows "store t = park m e (store s)"
proof (cases "isPermanent e")
  case True
  then obtain u where "sql_write (park m e) s = (Inr (), u)" "t = u"
    using assms by (auto simp: failed_attempt_def api_bind_Inr api_return_def)
  then show ?thesis using sql_cases [of _ s "Inr ()" u] unfolding sql_write_def by fastforce
next
  case False
  then show ?thesis using assms
    by (auto simp: failed_attempt_def api_bind_Inr api_return_def)
qed

lemma try_continues:
  assumes "api_catch (attempt E m r) (failed_attempt E m r) s = (Inr (Inr r'), t)"
  shows "pending t \<le> pending s"
proof -
  obtain x u where x: "attempt E m r s = (x, u)" by (cases "attempt E m r s")
  show ?thesis
  proof (cases x)
    case (Inl e)
    then have "store u = store s" using attempt_cases [OF x] by auto
    moreover have "failed_attempt E m r e u = (Inr (Inr r'), t)" using assms x Inl by (simp add: api_catch_def)
    ultimately have "store t = park m e (store s)" using failed_attempt_continues by metis
    then show ?thesis unfolding park_def by (rule pending_update_le) simp
  next
    case (Inr y)
    then have "t = u" using assms x by (simp add: api_catch_def)
    then show ?thesis using attempt_cases [OF x] Inr by (auto intro: pending_delete_le)
  qed
qed

lemma round_falls:
  assumes "drain_round E w r s = (Inr (Inr r'), t)"
  shows "pending t < pending s"
proof -
  obtain x u where x: "claimNext E w s = (x, u)" by (cases "claimNext E w s")
  note c = claimNext_cases [OF x]
  obtain m where m: "x = Inr (Some m)"
    using assms drain_round_unfold [OF x, of r] by (cases x) (auto split: option.splits)
  then have mq: "m \<in> set (queue (store u))" "qm_status m = Q_PENDING"
    using c first_claimable_in [of w _ "queue (store s)" m] by (auto simp: claimable_def)
  let ?f = "update_mutation (qm_id m) (\<lambda>x. x\<lparr>qm_status := Q_IN_FLIGHT\<rparr>)"
  obtain v where v: "sql_write ?f u = (Inr (), v)"
    and k: "api_catch (attempt E m r) (failed_attempt E m r) v = (Inr (Inr r'), t)"
    using assms drain_round_unfold [OF x, of r] m by (auto simp: api_bind_Inr)
  have "store v = ?f (store u)" using sql_cases [OF v [unfolded sql_write_def]] by auto
  then have "pending v < pending u"
    by (rule pending_update_less [OF _ _ mq(1) refl mq(2)]) simp
  moreover have "pending u = pending s" using c by (simp add: pending_def)
  ultimately show ?thesis using try_continues [OF k] by simp
qed

lemma reclaim_length:
  assumes "reclaimStranded w s = (r, t)"
  shows "length (queue (store t)) = length (queue (store s))"
  using sql_cases [OF assms [unfolded reclaimStranded_def]] by (auto simp: reclaim_rows_def)

lemma loop_ends:
  assumes "reclaimStranded w s = (Inr k, t)"
  shows "fst (api_loop (Suc (length (queue (store s)))) (drain_round E w) r t) \<noteq> Inr None"
proof (rule api_loop_terminates [where \<mu> = "\<lambda>_. pending"])
  show "pending t < Suc (length (queue (store s)))"
    using reclaim_length [OF assms] length_filter_le [of _ "queue (store t)"]
    by (simp add: pending_def less_Suc_eq_le)
qed (rule round_falls)

lemma drain_ends: "fst (drain E w s) \<noteq> Inr None"
proof (cases "reclaimStranded w s")
  case (Pair r t)
  show ?thesis
  proof (cases r)
    case (Inr k)
    then show ?thesis using loop_ends [OF Pair [unfolded Inr], of E]
      by (simp add: drain_def drain_from_def api_bind_def Pair del: api_loop.simps)
  qed (simp add: drain_def drain_from_def api_bind_def Pair)
qed

lemma drain_more: "drain_from (Suc (length (queue (store s))) + k) E w s = drain E w s"
proof (cases "reclaimStranded w s")
  case (Pair r t)
  show ?thesis
  proof (cases r)
    case (Inr j)
    have "api_loop (Suc (length (queue (store s))) + k) (drain_round E w) x t
        = api_loop (Suc (length (queue (store s)))) (drain_round E w) x t" for x
      by (rule api_loop_more [OF loop_ends [OF Pair [unfolded Inr]]]) simp
    then show ?thesis
      by (simp add: drain_def drain_from_def api_bind_def Pair Inr del: api_loop.simps)
  qed (simp add: drain_def drain_from_def api_bind_def Pair)
qed

section \<open>Runs without failures\<close>

definition up :: "phone \<Rightarrow> bool" where
  "up s \<longleftrightarrow> alive s \<and> faults s = []"

lemma up_update [simp]:
  "up (s\<lparr>ticks := k\<rparr>) = up s" "up (s\<lparr>store := u\<rparr>) = up s" "up (s\<lparr>history := h\<rparr>) = up s"
  by (simp_all add: up_def)

lemma up_sql: "up s \<Longrightarrow> sql f s = (fst (f (store s)), s\<lparr>store := snd (f (store s))\<rparr>)"
  by (simp add: up_def sql_alive_ok split: prod.split)

lemma up_write: "up s \<Longrightarrow> sql_write f s = (Inr (), s\<lparr>store := f (store s)\<rparr>)"
  by (simp add: sql_write_def up_sql)

lemma up_read: "up s \<Longrightarrow> sql_read q s = (Inr (q (store s)), s)"
  by (simp add: sql_read_def up_sql)

lemma up_fetch:
  "up s \<Longrightarrow> fetch E rq s = (Inr (pe_answer E (history s) rq),
     s\<lparr>history := history s @ [(rq, pe_answer E (history s) rq)]\<rparr>)"
  by (cases s) (simp add: up_def fetch_def Let_def)

definition due :: "string \<Rightarrow> nat \<Rightarrow> phone \<Rightarrow> queued_mutation list" where
  "due w now s = sort_key qm_created_at (filter (claimable w now) (queue (store s)))"

definition clock_at :: "phone_env \<Rightarrow> nat \<Rightarrow> bool" where
  "clock_at E now \<longleftrightarrow> (\<forall>k. pe_clock E k = now)"

lemma up_claim:
  "up s \<Longrightarrow> clock_at E now \<Longrightarrow>
     claimNext E w s = (Inr (case due w now s of [] \<Rightarrow> None | m # _ \<Rightarrow> Some m), s\<lparr>ticks := Suc (ticks s)\<rparr>)"
  by (simp add: claimNext_def external_def api_bind_def up_read clock_at_def due_def first_claimable_def)

definition in_flight :: "queued_mutation \<Rightarrow> store \<Rightarrow> store" where
  "in_flight m = update_mutation (qm_id m) (\<lambda>x. x\<lparr>qm_status := Q_IN_FLIGHT\<rparr>)"

lemma up_round_Nil:
  "up s \<Longrightarrow> clock_at E now \<Longrightarrow> due w now s = [] \<Longrightarrow>
     drain_round E w r s = (Inr (Inl r), s\<lparr>ticks := Suc (ticks s)\<rparr>)"
  using drain_round_unfold [OF up_claim [of s E now w]] by simp

lemma up_round_Cons:
  "up s \<Longrightarrow> clock_at E now \<Longrightarrow> due w now s = m # ms \<Longrightarrow>
     drain_round E w r s = api_catch (attempt E m r) (failed_attempt E m r)
       (s\<lparr>ticks := Suc (ticks s), store := in_flight m (store s)\<rparr>)"
  using drain_round_unfold [OF up_claim [of s E now w]]
  by (simp add: api_bind_def up_write in_flight_def)

text \<open>Sessions and servers.\<close>

definition signed_in :: "phone_env \<Rightarrow> bool" where
  "signed_in E \<longleftrightarrow> (\<forall>k. truthy (pe_token E k) \<noteq> None)"

definition signed_out :: "phone_env \<Rightarrow> bool" where
  "signed_out E \<longleftrightarrow> (\<forall>k. truthy (pe_token E k) = None)"

definition server_accepts :: "phone_env \<Rightarrow> bool" where
  "server_accepts E \<longleftrightarrow> (\<forall>h rq. \<exists>b. read_response (pe_answer E h rq) = Inr b)"

lemma delete_in_flight: "delete_mutation (qm_id m) (in_flight m u) = delete_mutation (qm_id m) u"
proof -
  have "[x \<leftarrow> map (\<lambda>x. if qm_id x = i then x\<lparr>qm_status := Q_IN_FLIGHT\<rparr> else x) q. qm_id x \<noteq> i]
      = [x \<leftarrow> q. qm_id x \<noteq> i]" for i and q :: "queued_mutation list"
    by (induction q) auto
  then show ?thesis by (simp add: delete_mutation_def in_flight_def update_mutation_def)
qed

lemma up_attempt_accepted:
  assumes "up s" "signed_in E" "server_accepts E"
  shows "attempt E m r s = (Inr (Inr (r\<lparr>sent := sent r + 1\<rparr>)),
    s\<lparr>ticks := Suc (ticks s),
      history := history s @ [(mutation_request m, pe_answer E (history s) (mutation_request m))],
      store := delete_mutation (qm_id m) (store s)\<rparr>)"
proof -
  obtain tok where tok: "truthy (pe_token E (ticks s)) = Some tok"
    using assms(2) by (auto simp: signed_in_def)
  obtain b where b: "read_response (pe_answer E (history s) (mutation_request m)) = Inr b"
    using assms(3) by (auto simp: server_accepts_def)
  show ?thesis
    using assms(1)
    by (simp add: attempt_def sendMutation_def apiFetch_def external_def api_bind_def tok up_fetch
        api_lift_def b up_write api_return_def)
qed

lemma up_round_accepted:
  assumes "up s" "clock_at E now" "signed_in E" "server_accepts E" "due w now s = m # ms"
  shows "drain_round E w r s = (Inr (Inr (r\<lparr>sent := sent r + 1\<rparr>)),
    s\<lparr>ticks := Suc (Suc (ticks s)),
      history := history s @ [(mutation_request m, pe_answer E (history s) (mutation_request m))],
      store := delete_mutation (qm_id m) (store s)\<rparr>)"
  using assms(1)
  by (simp add: up_round_Cons [OF assms(1,2,5)] api_catch_def up_attempt_accepted [OF _ assms(3,4)]
      delete_in_flight)

lemma unique_ids_iff: "unique_ids s \<longleftrightarrow> distinct (map qm_id (queue (store s)))"
  by (simp add: unique_ids_def outbox_def content_def o_def)

lemma unique_ids_delete: "unique_ids s \<Longrightarrow> unique_ids (s\<lparr>store := delete_mutation i (store s)\<rparr>)"
  by (simp add: unique_ids_iff delete_mutation_def distinct_map_filter)

lemma filter_id_tl:
  assumes "distinct (map qm_id (m # ms))"
  shows "[x \<leftarrow> m # ms. qm_id x \<noteq> qm_id m] = ms"
  using assms by (auto simp: filter_id_conv image_iff)

lemma due_distinct: "unique_ids s \<Longrightarrow> distinct (map qm_id (due w now s))"
  unfolding unique_ids_iff due_def distinct_map
  by (auto simp: inj_on_def)

lemma due_delete:
  assumes "unique_ids s" "due w now s = m # ms" "store t = delete_mutation (qm_id m) (store s)"
  shows "due w now t = ms"
proof -
  have "due w now t = [x \<leftarrow> due w now s. qm_id x \<noteq> qm_id m]"
    by (simp add: due_def assms(3) delete_mutation_def filter_sort) (metis filter_filter conj_commute)
  then show ?thesis using filter_id_tl [of m ms] due_distinct [OF assms(1), of w now] assms(2) by simp
qed

lemma due_in_queue: "due w now s = m # ms \<Longrightarrow> m \<in> set (queue (store s)) \<and> claimable w now m"
proof -
  assume "due w now s = m # ms"
  then have "m \<in> set (due w now s)" by simp
  then show ?thesis unfolding due_def set_sort by simp
qed

lemma same_id: "unique_ids s \<Longrightarrow> x \<in> set (queue (store s)) \<Longrightarrow> y \<in> set (queue (store s)) \<Longrightarrow>
    qm_id x = qm_id y \<Longrightarrow> x = y"
  by (auto simp: unique_ids_iff distinct_map inj_on_def)

lemma loop_accepted:
  assumes "clock_at E now" "signed_in E" "server_accepts E"
  shows "up s \<Longrightarrow> unique_ids s \<Longrightarrow> length (due w now s) < n \<Longrightarrow>
    \<exists>t. api_loop n (drain_round E w) r s = (Inr (Some (r\<lparr>sent := sent r + length (due w now s)\<rparr>)), t)
      \<and> map fst (history t) = map fst (history s) @ map mutation_request (due w now s)
      \<and> queue (store t) = [m \<leftarrow> queue (store s). \<not> claimable w now m]"
proof (induction n arbitrary: r s)
  case (Suc n)
  show ?case
  proof (cases "due w now s")
    case Nil
    then have "set (due w now s) = {}" by simp
    then have "[m \<leftarrow> queue (store s). \<not> claimable w now m] = queue (store s)"
      unfolding due_def set_sort by (auto simp: filter_id_conv filter_empty_conv)
    then show ?thesis
      by (simp add: api_bind_def up_round_Nil [OF Suc.prems(1) assms(1) Nil] Nil api_return_def)
  next
    case (Cons m ms)
    let ?a = "pe_answer E (history s) (mutation_request m)"
    let ?t = "s\<lparr>ticks := Suc (Suc (ticks s)), history := history s @ [(mutation_request m, ?a)],
      store := delete_mutation (qm_id m) (store s)\<rparr>"
    have round: "drain_round E w r s = (Inr (Inr (r\<lparr>sent := sent r + 1\<rparr>)), ?t)"
      by (rule up_round_accepted [OF Suc.prems(1) assms Cons])
    have due: "due w now ?t = ms" by (rule due_delete [OF Suc.prems(2) Cons]) simp
    have "unique_ids ?t" using unique_ids_delete [OF Suc.prems(2)] by (simp add: unique_ids_iff)
    then obtain t where t: "api_loop n (drain_round E w) (r\<lparr>sent := sent r + 1\<rparr>) ?t
          = (Inr (Some (r\<lparr>sent := sent r + 1 + length ms\<rparr>)), t)"
        "map fst (history t) = map fst (history ?t) @ map mutation_request ms"
        "queue (store t) = [m \<leftarrow> queue (store ?t). \<not> claimable w now m]"
      using Suc.IH [of ?t "r\<lparr>sent := sent r + 1\<rparr>"] Suc.prems Cons due by auto
    have "[x \<leftarrow> queue (store ?t). \<not> claimable w now x] = [x \<leftarrow> queue (store s). \<not> claimable w now x]"
      using due_in_queue [OF Cons] same_id [OF Suc.prems(2), of _ m]
      by (auto simp: delete_mutation_def intro!: filter_cong)
    then show ?thesis using t round Cons
      by (auto simp: api_bind_def)
  qed
qed simp

text \<open>Without a session every claimed write is refused on the phone itself, and parked.\<close>

abbreviation no_session :: api_exn where
  "no_session \<equiv> Http_exn 401 (Some ''NOT_AUTHENTICATED'') ''No active session''"

definition parked_row :: "queued_mutation \<Rightarrow> queued_mutation" where
  "parked_row m = m\<lparr>qm_status := Q_NEEDS_ATTENTION, qm_attempts := qm_attempts m + 1,
     qm_last_error := Some ''No active session''\<rparr>"

definition park_row :: "queued_mutation \<Rightarrow> store \<Rightarrow> store" where
  "park_row m u = u\<lparr>queue := map (\<lambda>x. if x = m then parked_row m else x) (queue u)\<rparr>"

lemma park_in_flight:
  assumes "distinct (map qm_id (queue u))" "m \<in> set (queue u)"
  shows "park m no_session (in_flight m u) = park_row m u"
proof -
  let ?F = "\<lambda>x. if qm_id x = qm_id m then x\<lparr>qm_status := Q_NEEDS_ATTENTION,
      qm_attempts := Suc (qm_attempts m), qm_last_error := Some ''No active session''\<rparr> else x"
  let ?G = "\<lambda>x :: queued_mutation. if qm_id x = qm_id m then x\<lparr>qm_status := Q_IN_FLIGHT\<rparr> else x"
  have "map (\<lambda>x. ?F (?G x)) (queue u) = map (\<lambda>x. if x = m then parked_row m else x) (queue u)"
  proof (rule map_cong [OF refl])
    fix x
    assume "x \<in> set (queue u)"
    then have "qm_id x = qm_id m \<longleftrightarrow> x = m" using assms by (auto simp: distinct_map inj_on_def)
    then show "?F (?G x) = (if x = m then parked_row m else x)" by (simp add: parked_row_def)
  qed
  then show ?thesis
    by (simp add: park_def in_flight_def update_mutation_def park_row_def error_text_def o_def
        del: map_eq_conv)
qed

lemma up_round_signed_out:
  assumes "up s" "unique_ids s" "clock_at E now" "signed_out E" "due w now s = m # ms"
  shows "drain_round E w r s = (Inr (Inr (r\<lparr>parked := parked r + 1\<rparr>)),
    s\<lparr>ticks := Suc (Suc (ticks s)), store := park_row m (store s)\<rparr>)"
proof -
  have tok: "truthy (pe_token E k) = None" for k using assms(4) by (simp add: signed_out_def)
  have "distinct (map qm_id (queue (store s)))" "m \<in> set (queue (store s))"
    using assms(2) due_in_queue [OF assms(5)] by (simp_all add: unique_ids_iff)
  then show ?thesis
    using assms(1) park_in_flight
    by (simp add: up_round_Cons [OF assms(1,3,5)] api_catch_def attempt_def sendMutation_def apiFetch_def
        external_def api_bind_def api_throw_def tok failed_attempt_def isPermanent_def up_write api_return_def)
qed

lemma claimable_parked [simp]: "\<not> claimable w now (parked_row m)"
  by (simp add: claimable_def parked_row_def)

lemma parked_row_id [simp]: "qm_id (parked_row m) = qm_id m"
  by (simp add: parked_row_def)

lemma unique_ids_park: "unique_ids s \<Longrightarrow> store t = park_row m (store s) \<Longrightarrow> unique_ids t"
proof -
  assume u: "unique_ids s" and t: "store t = park_row m (store s)"
  have "map qm_id (queue (store t)) = map qm_id (queue (store s))" by (simp add: t park_row_def)
  then show ?thesis using u unfolding unique_ids_iff by simp
qed

lemma due_park:
  assumes "unique_ids s" "due w now s = m # ms" "store t = park_row m (store s)"
  shows "due w now t = ms"
proof -
  have u: "distinct (map qm_id (queue (store s)))" using assms(1) by (simp add: unique_ids_iff)
  have eq: "filter (claimable w now) (map (\<lambda>x. if x = m then parked_row m else x) q)
      = [x \<leftarrow> filter (claimable w now) q. qm_id x \<noteq> qm_id m]"
    if "set q \<subseteq> set (queue (store s))" for q
    using that
  proof (induction q)
    case (Cons x q)
    have "m \<in> set (queue (store s))" using due_in_queue [OF assms(2)] by simp
    then have "qm_id x = qm_id m \<longleftrightarrow> x = m" using Cons.prems u by (auto simp: distinct_map inj_on_def)
    then show ?case using Cons by auto
  qed simp
  have "due w now t = [x \<leftarrow> due w now s. qm_id x \<noteq> qm_id m]"
    by (simp add: due_def assms(3) park_row_def eq filter_sort)
  then show ?thesis using filter_id_tl [of m ms] due_distinct [OF assms(1), of w now] assms(2) by simp
qed

lemma loop_signed_out:
  assumes "clock_at E now" "signed_out E"
  shows "up s \<Longrightarrow> unique_ids s \<Longrightarrow> length (due w now s) < n \<Longrightarrow>
    \<exists>t. api_loop n (drain_round E w) r s = (Inr (Some (r\<lparr>parked := parked r + length (due w now s)\<rparr>)), t)
      \<and> history t = history s
      \<and> queue (store t) = map (\<lambda>m. if claimable w now m then parked_row m else m) (queue (store s))"
proof (induction n arbitrary: r s)
  case (Suc n)
  show ?case
  proof (cases "due w now s")
    case Nil
    then have "set (due w now s) = {}" by simp
    then have "map (\<lambda>m. if claimable w now m then parked_row m else m) (queue (store s)) = queue (store s)"
      unfolding due_def set_sort by (intro map_idI) (auto simp: filter_empty_conv)
    then show ?thesis
      by (simp add: api_bind_def up_round_Nil [OF Suc.prems(1) assms(1) Nil] Nil api_return_def)
  next
    case (Cons m ms)
    let ?t = "s\<lparr>ticks := Suc (Suc (ticks s)), store := park_row m (store s)\<rparr>"
    have round: "drain_round E w r s = (Inr (Inr (r\<lparr>parked := parked r + 1\<rparr>)), ?t)"
      by (rule up_round_signed_out [OF Suc.prems(1,2) assms Cons])
    have due: "due w now ?t = ms" by (rule due_park [OF Suc.prems(2) Cons]) simp
    have "unique_ids ?t" by (rule unique_ids_park [OF Suc.prems(2)]) simp
    then obtain t where t: "api_loop n (drain_round E w) (r\<lparr>parked := parked r + 1\<rparr>) ?t
          = (Inr (Some (r\<lparr>parked := parked r + 1 + length ms\<rparr>)), t)"
        "history t = history s"
        "queue (store t) = map (\<lambda>m. if claimable w now m then parked_row m else m) (queue (store ?t))"
      using Suc.IH [of ?t "r\<lparr>parked := parked r + 1\<rparr>"] Suc.prems Cons due by auto
    have "map (\<lambda>m. if claimable w now m then parked_row m else m) (queue (store ?t))
        = map (\<lambda>m. if claimable w now m then parked_row m else m) (queue (store s))"
      using due_in_queue [OF Cons] by (auto simp: park_row_def)
    then show ?thesis using t round Cons by (auto simp: api_bind_def)
  qed
qed simp

text \<open>The first statement of a drain.\<close>

lemma up_reclaim:
  "up s \<Longrightarrow> reclaimStranded w s =
     (Inr (length (filter (stranded w) (queue (store s)))),
      s\<lparr>store := (store s)\<lparr>queue := reclaim_rows w (queue (store s))\<rparr>\<rparr>)"
  by (simp add: reclaimStranded_def up_sql)

lemma reclaim_rows_ids [simp]: "map qm_id (reclaim_rows w q) = map qm_id q"
  by (simp add: reclaim_rows_def)

lemma length_reclaim_rows [simp]: "length (reclaim_rows w q) = length q"
  by (simp add: reclaim_rows_def)

definition reclaimed_phone :: "string \<Rightarrow> phone \<Rightarrow> phone" where
  "reclaimed_phone w s = s\<lparr>store := (store s)\<lparr>queue := reclaim_rows w (queue (store s))\<rparr>\<rparr>"

lemma reclaimed_phone [simp]:
  "up (reclaimed_phone w s) = up s" "history (reclaimed_phone w s) = history s"
  "queue (store (reclaimed_phone w s)) = reclaim_rows w (queue (store s))"
  by (simp_all add: reclaimed_phone_def)

lemma unique_reclaimed [simp]: "unique_ids (reclaimed_phone w s) = unique_ids s"
  by (simp add: unique_ids_iff)

lemma length_due: "length (due w now (reclaimed_phone w s)) < Suc (length (queue (store s)))"
  using length_filter_le [of _ "reclaim_rows w (queue (store s))"] by (simp add: due_def less_Suc_eq_le)

lemma up_drain:
  "up s \<Longrightarrow> drain E w s = api_loop (Suc (length (queue (store s)))) (drain_round E w)
     \<lparr>sent = 0, parked = 0, deferred = 0, reclaimed = length (filter (stranded w) (queue (store s)))\<rparr>
     (reclaimed_phone w s)"
  by (simp add: drain_def drain_from_def api_bind_def up_reclaim reclaimed_phone_def del: api_loop.simps)

lemma drain_accepted:
  assumes "up s" "unique_ids s" "clock_at E now" "signed_in E" "server_accepts E"
  shows "let d = due w now (reclaimed_phone w s); (r, t) = drain E w s in
      map_sum id (map_option sent) r = Inr (Some (length d))
    \<and> map fst (history t) = map fst (history s) @ map mutation_request d
    \<and> queue (store t) = [m \<leftarrow> reclaim_rows w (queue (store s)). \<not> claimable w now m]"
  using loop_accepted [OF assms(3-5), of "reclaimed_phone w s" w "Suc (length (queue (store s)))"
      "\<lparr>sent = 0, parked = 0, deferred = 0, reclaimed = length (filter (stranded w) (queue (store s)))\<rparr>"]
    assms(1,2) length_due
  by (auto simp: up_drain simp del: api_loop.simps)

lemma drain_signed_out:
  assumes "up s" "unique_ids s" "clock_at E now" "signed_out E"
  shows "let t = snd (drain E w s) in
      history t = history s
    \<and> queue (store t) = map (\<lambda>m. if claimable w now m then parked_row m else m) (reclaim_rows w (queue (store s)))"
  using loop_signed_out [OF assms(3,4), of "reclaimed_phone w s" w "Suc (length (queue (store s)))"
      "\<lparr>sent = 0, parked = 0, deferred = 0, reclaimed = length (filter (stranded w) (queue (store s)))\<rparr>"]
    assms(1,2) length_due
  by (auto simp: up_drain simp del: api_loop.simps)

section \<open>Properties\<close>

text \<open>
  C25. A drain always ends: the loop needs at most one round more than the queue has rows, and any
  larger number of rounds gives the same result, whatever the server answers and whichever
  statements fail.
\<close>

theorem drain_terminates:
  "fst (drain E w s) \<noteq> Inr None \<and> drain_from (Suc (length (queue (store s))) + k) E w s = drain E w s"
  using drain_ends drain_more by blast

text \<open>
  C24. A drain is a refinement of delivering the outbox: whatever the server answers, wherever
  statements fail or the app is killed, the only writes that leave the outbox are writes whose own
  request the server answered with success; the others stay owed, unchanged and in order, and the
  local tables are not touched.
\<close>

theorem drain_refines_delivery:
  assumes "unique_ids s"
  shows "delivers s (snd (drain E w s))"
  using guarD [OF drain_from_delivers, of s "Suc (length (queue (store s)))" E w] assms
  by (simp add: drain_def delivers_unique_ids_def)

text \<open>
  C26. When nothing fails and the server accepts, a drain sends every write that is due (those
  stranded in flight by an earlier run included) exactly once, in order of creation, each under its
  own id, and leaves in the queue exactly the rows that were not due.
\<close>

theorem drain_in_order:
  assumes "up s" "unique_ids s" "clock_at E now" "signed_in E" "server_accepts E"
  shows "let d = due w now (reclaimed_phone w s); (r, t) = drain E w s in
      map_sum id (map_option sent) r = Inr (Some (length d))
    \<and> map fst (history t) = map fst (history s) @ map mutation_request d
    \<and> queue (store t) = [m \<leftarrow> reclaim_rows w (queue (store s)). \<not> claimable w now m]"
  by (rule drain_accepted [OF assms])

text \<open>
   Without a session nothing is sent and every write that is due is parked for the user's
  attention, although the same write would succeed after the next sign-in.
\<close>

theorem drain_signed_out_parks:
  assumes "up s" "unique_ids s" "clock_at E now" "signed_out E"
  shows "let t = snd (drain E w s) in
      history t = history s
    \<and> queue (store t) = map (\<lambda>m. if claimable w now m then parked_row m else m) (reclaim_rows w (queue (store s)))"
  by (rule drain_signed_out [OF assms])

text \<open>A phone with two writes of one workspace; the earlier one is backing off.\<close>

definition demo_phone_env :: phone_env where
  "demo_phone_env = \<lparr>pe_clock = \<lambda>_. 1000, pe_random = \<lambda>_. 0, pe_uuid = show_nat,
     pe_iso = \<lambda>_. ''2026-01-01T00:00:00.000Z'', pe_token = \<lambda>_. Some ''token'',
     pe_answer = \<lambda>_ _. Response 201 ''Created'' (Some (JObj []))\<rparr>"

definition demo_write :: "string \<Rightarrow> nat \<Rightarrow> nat option \<Rightarrow> queued_mutation" where
  "demo_write i created retry_at =
     (new_mutation i ''w1'' CREATE_TRANSACTION [(''amount'', JStr ''500'')] created)
       \<lparr>qm_next_attempt_at := retry_at\<rparr>"

definition demo_phone :: "queued_mutation list \<Rightarrow> phone" where
  "demo_phone q = \<lparr>store = \<lparr>queue = q, tables = \<lambda>_. [], sync_metas = []\<rparr>, faults = [], alive = True,
     history = [], ticks = 0, pulled = 0\<rparr>"

definition signed_out_env :: phone_env where
  "signed_out_env = demo_phone_env\<lparr>pe_token := \<lambda>_. None\<rparr>"

lemma demo_env_facts:
  "clock_at demo_phone_env 1000" "signed_in demo_phone_env" "server_accepts demo_phone_env"
  "clock_at signed_out_env 1000" "signed_out signed_out_env"
  by (simp_all add: clock_at_def signed_in_def signed_out_def server_accepts_def demo_phone_env_def signed_out_env_def
      truthy_def read_response_def response_ok_def)

lemma demo_phone_facts:
  "up (demo_phone q)" "queue (store (demo_phone q)) = q" "history (demo_phone q) = []"
  "unique_ids (demo_phone q) = distinct (map qm_id q)"
  by (simp_all add: up_def demo_phone_def unique_ids_iff)

lemmas demo_simps = demo_phone_facts due_def reclaim_rows_def stranded_def claimable_def demo_write_def
  new_mutation_def

theorem drain_in_order_witness:
  "map fst (history (snd (drain demo_phone_env ''w1'' (demo_phone [demo_write ''b'' 2 None, demo_write ''a'' 1 None]))))
     = [mutation_request (demo_write ''a'' 1 None), mutation_request (demo_write ''b'' 2 None)]"
  using drain_in_order [OF demo_phone_facts(1) _ demo_env_facts(1-3),
      of "[demo_write ''b'' 2 None, demo_write ''a'' 1 None]" "''w1''"]
  by (simp add: demo_simps Let_def split: prod.splits)

theorem drain_signed_out_parks_witness:
  "map qm_status (queue (store (snd (drain signed_out_env ''w1'' (demo_phone [demo_write ''a'' 1 None]))))) = [Q_NEEDS_ATTENTION]"
  using drain_signed_out_parks [OF demo_phone_facts(1) _ demo_env_facts(4,5), of "[demo_write ''a'' 1 None]" "''w1''"]
  by (simp add: demo_simps Let_def parked_row_def)

theorem drain_refines_delivery_witness:
  "delivers (demo_phone [demo_write ''a'' 1 None]) (snd (drain demo_phone_env ''w1'' (demo_phone [demo_write ''a'' 1 None])))"
  by (rule drain_refines_delivery) (simp add: demo_simps)

text \<open>
   The queue is not first-in first-out: while a write backs off after a failure, a later write
  of the same workspace is sent before it.
\<close>

theorem drain_overtakes_deferred:
  "let first = demo_write ''a'' 1 (Some 5000); second = demo_write ''b'' 2 None;
     t = snd (drain demo_phone_env ''w1'' (demo_phone [first, second])) in
   map fst (history t) = [mutation_request second] \<and> queue (store t) = [first]"
  using drain_accepted [OF demo_phone_facts(1) _ demo_env_facts(1-3),
      of "[demo_write ''a'' 1 (Some 5000), demo_write ''b'' 2 None]" "''w1''"]
  by (simp add: demo_simps Let_def split: prod.splits)

text \<open>
   Of the errors the API publishes as retryable, the phone treats these as permanent and parks
  the write: it goes by the status alone.
\<close>

theorem retryable_errors_parked:
  "[c. (c, e) \<leftarrow> API_ERRORS, err_retryable e \<and> isPermanent (Http_exn (err_status e) (Some c) '''')] =
     [''IDEMPOTENCY_IN_PROGRESS'', ''SYNC_FAILED'', ''REVERSAL_FAILED'', ''SUMMARY_FAILED'',
      ''AGGREGATION_FAILED'', ''PLANNING_WRITE_FAILED'', ''CATEGORY_CREATE_FAILED'',
      ''CATEGORY_SEED_FAILED'', ''ONBOARDING_UPDATE_FAILED'', ''DELETION_REQUEST_FAILED'',
      ''CANCEL_FAILED'', ''SUSPEND_FAILED'', ''REINSTATE_FAILED'', ''DISMISS_FAILED'',
      ''BROADCASTS_UNAVAILABLE'', ''IMPORT_CREATE_FAILED'', ''IMPORT_STAGE_FAILED'',
      ''ATTACHMENT_UPLOAD_FAILED'', ''ATTACHMENT_DOWNLOAD_FAILED'', ''ATTACHMENT_DELETE_FAILED'']"
  by code_simp

section \<open>The effect of the other operations\<close>

text \<open>What a committed discard leaves.\<close>

definition rolled_back :: "string \<Rightarrow> MutationKind \<Rightarrow> store \<Rightarrow> store" where
  "rolled_back i k u = delete_mutation i
     (if k = CREATE_TRANSACTION
      then delete_rows T_journal_entries (optimistic_entry i)
             (delete_rows T_journal_entry_tags (\<lambda>_ r. r ''journal_entry_id'' = SText i) u)
      else u)"

lemma sql_write_Inr: "sql_write f s = (Inr x, t) \<Longrightarrow> store t = f (store s)"
  using sql_cases [of _ s "Inr x" t] unfolding sql_write_def by fastforce

lemma discard_commit:
  assumes "discard i s = (Inr (), t)"
  shows "case find (\<lambda>m. qm_id m = i \<and> qm_status m = Q_NEEDS_ATTENTION) (queue (store s)) of
      None \<Rightarrow> store t = store s
    | Some m \<Rightarrow> store t = rolled_back i (qm_kind m) (store s)"
proof -
  let ?q = "\<lambda>u. find (\<lambda>m. qm_id m = i \<and> qm_status m = Q_NEEDS_ATTENTION) (queue u)"
  let ?k = "\<lambda>found. case found of None \<Rightarrow> api_return ()
       | Some m \<Rightarrow>
           api_bind (if qm_kind m = CREATE_TRANSACTION
             then api_bind (sql_write (delete_rows T_journal_entry_tags (\<lambda>_ r. r ''journal_entry_id'' = SText i)))
                    (\<lambda>_. sql_write (delete_rows T_journal_entries (optimistic_entry i)))
             else api_return ()) (\<lambda>_. sql_write (delete_mutation i))"
  have "api_bind (sql_read ?q) ?k s = (Inr (), t)"
    using assms unfolding discard_def with_transaction_def by (auto split: prod.splits sum.splits)
  then obtain found u where f: "sql_read ?q s = (Inr found, u)" and k: "?k found u = (Inr (), t)"
    unfolding api_bind_Inr by blast
  have u: "found = ?q (store s)" "store u = store s"
    using sql_cases [OF f [unfolded sql_read_def]] by auto
  show ?thesis
  proof (cases found)
    case None
    then show ?thesis using u k by (simp add: api_return_def)
  next
    case (Some m)
    then have q: "?q (store s) = Some m" using u by simp
    show ?thesis
    proof (cases "qm_kind m = CREATE_TRANSACTION")
      case True
      then obtain v w where steps:
        "sql_write (delete_rows T_journal_entry_tags (\<lambda>_ r. r ''journal_entry_id'' = SText i)) u = (Inr (), v)"
        "sql_write (delete_rows T_journal_entries (optimistic_entry i)) v = (Inr (), w)"
        "sql_write (delete_mutation i) w = (Inr (), t)"
        using k Some by (auto simp: api_bind_Inr)
      then have "store t = rolled_back i CREATE_TRANSACTION (store u)"
        using steps [THEN sql_write_Inr] by (simp add: rolled_back_def)
      then show ?thesis using u(2) True by (simp add: q)
    next
      case False
      then have "sql_write (delete_mutation i) u = (Inr (), t)" using k Some by simp
      then have "store t = rolled_back i (qm_kind m) (store u)"
        using False by (simp add: rolled_back_def sql_write_Inr)
      then show ?thesis using u(2) by (simp add: q)
    qed
  qed
qed

lemma discard_abort:
  "discard i s = (Inl e, t) \<Longrightarrow> store t = store s"
  by (auto simp: discard_def with_transaction_def split: prod.splits sum.splits)

text \<open>
   Discarding a write is all or nothing: if it returns, a parked write left the queue together
  with its tag links and its optimistic entry (unless postings arrived for it), and a write that is
  not parked is left alone; if it throws or the app dies, no row changed.
\<close>

theorem discard_atomic:
  "case discard i s of
     (Inl e, t) \<Rightarrow> store t = store s
   | (Inr _, t) \<Rightarrow> (case find (\<lambda>m. qm_id m = i \<and> qm_status m = Q_NEEDS_ATTENTION) (queue (store s)) of
        None \<Rightarrow> store t = store s
      | Some m \<Rightarrow> store t = rolled_back i (qm_kind m) (store s))"
proof (cases "discard i s")
  case (Pair r t)
  show ?thesis
  proof (cases r)
    case (Inl e)
    then show ?thesis using discard_abort Pair by simp
  next
    case (Inr x)
    then show ?thesis using discard_commit [of i s t] Pair by simp
  qed
qed

text \<open>Every operation of the queue keeps the ids unique.\<close>

lemma keeps_unique_guar: "guar delivers_unique_ids m \<Longrightarrow> keeps unique_ids m"
  by (auto simp: guar_def keeps_def delivers_unique_ids_def intro: delivers_unique)

lemma keeps_unique_sql:
  assumes "\<And>u. distinct (map qm_id (queue u)) \<Longrightarrow> distinct (map qm_id (queue (snd (f u))))"
  shows "keeps unique_ids (sql f)"
proof (rule keepsI)
  fix s
  assume u: "unique_ids s"
  obtain r t where t: "sql f s = (r, t)" by (cases "sql f s")
  then show "unique_ids (snd (sql f s))"
    using sql_cases [OF t] u assms [of "store s"] by (auto simp: unique_ids_iff)
qed

lemma keeps_unique_external: "keeps unique_ids (external f)"
  by (simp add: keeps_def external_def unique_ids_def outbox_def)

lemma update_ids: "(\<And>m. qm_id (f m) = qm_id m) \<Longrightarrow> map qm_id (queue (update_mutation i f u)) = map qm_id (queue u)"
  by (simp add: update_mutation_def)

lemma keeps_unique_ops:
  "keeps unique_ids (enqueue E i w k p)" "keeps unique_ids (retry i)" "keeps unique_ids (drain E w)"
  "keeps unique_ids (discard i)" "keeps unique_ids (local_createTransaction E w d)"
proof -
  show e: "keeps unique_ids (enqueue E i w k p)" for i w k p
    unfolding enqueue_def sql_write_def
    by (intro keeps_intros keeps_unique_external keeps_unique_sql)
      (auto simp: insert_or_ignore_def new_mutation_def list_ex_iff)
  show "keeps unique_ids (retry i)"
    unfolding retry_def sql_write_def
    by (intro keeps_unique_sql) (simp add: update_ids retried_def)
  show "keeps unique_ids (drain E w)"
    using keeps_unique_guar [OF drain_from_delivers] by (simp add: keeps_def drain_def)
  show "keeps unique_ids (discard i)"
  proof (rule keepsI)
    fix s
    assume u: "unique_ids s"
    have d: "distinct (map qm_id (queue (rolled_back i k (store s))))" for k
      using u by (simp add: rolled_back_def delete_mutation_def delete_rows_def unique_ids_iff distinct_map_filter)
    show "unique_ids (snd (discard i s))"
    proof (cases "discard i s")
      case (Pair r t)
      have "store t = store s \<or> (\<exists>k. store t = rolled_back i k (store s))"
        using discard_abort [of i s _ t] discard_commit [of i s t] Pair
        by (cases r) (auto split: option.splits)
      then show ?thesis using u d Pair by (auto simp: unique_ids_iff)
    qed
  qed
  show "keeps unique_ids (local_createTransaction E w d)"
    unfolding local_createTransaction_def Let_def
    by (intro keeps_intros keeps_unique_external keeps_unique_sql e)
      (auto simp: insert_row_def Let_def)
qed

text \<open>
   The id of a queued write, which is its idempotency key, stays unique in the queue under every
  operation, whatever fails.
\<close>

theorem queue_ids_unique:
  assumes "unique_ids s"
  shows "unique_ids (snd (enqueue E i w k p s)) \<and> unique_ids (snd (drain E w s))
    \<and> unique_ids (snd (retry i s)) \<and> unique_ids (snd (discard i s))
    \<and> unique_ids (snd (local_createTransaction E w d s))"
  using keeps_unique_ops [THEN keepsD, OF assms] by blast

theorem queue_ids_unique_witness:
  "unique_ids (snd (enqueue demo_phone_env ''b'' ''w1'' CREATE_TRANSACTION [] (demo_phone [demo_write ''a'' 1 None])))"
  using queue_ids_unique [of "demo_phone [demo_write ''a'' 1 None]"] by (simp add: demo_simps)

text \<open>
  Creating a transaction offline is two statements without a transaction: when the app dies
  between them, the phone keeps a pending entry that no queued write will ever deliver or surface.
\<close>

definition demo_input :: create_input where
  "demo_input = \<lparr>ci_type = ''EXPENSE'', ci_amount = ''500'', ci_account_id = ''a1'', ci_currency_code = ''BDT'',
     ci_category_id = Some ''c1'', ci_transfer_to_account_id = None, ci_payee = None, ci_note = None,
     ci_tags = None, ci_occurred_at = None\<rparr>"

theorem killed_creation_leaves_orphan:
  "let t = snd (local_createTransaction demo_phone_env ''w1'' demo_input
       ((demo_phone [])\<lparr>faults := [No_fault, Killed]\<rparr>)) in
   outbox t = [] \<and> map (\<lambda>r. (r ''status'', r ''is_pending'')) (tables (store t) T_journal_entries)
     = [(SText ''POSTED'', SInt 1)]"
  by (simp add: local_createTransaction_def external_def api_bind_def sql_def sql_write_def Let_def insert_row_def
      demo_phone_def demo_phone_env_def demo_input_def optimistic_row_def proposed_row_def not_null_ok_def
      sql_text_opt_def enqueue_def outbox_def)

end
