(* ===== verification/MobileEngine.thy ===== *)
theory MobileEngine
  imports MobileQueue
begin

text \<open>
  \<open>apps/mobile/src/sync/engine.ts\<close>: one run of the sync, push before pull. The pull applies the
  server's pages to the local tables, one transaction per page that also stores the cursor.
  Reports to observability are left out.
\<close>

section \<open>The pull\<close>

datatype SyncState = IDLE | SYNCING | OFFLINE | NEEDS_ATTENTION | ERROR

record sync_outcome =
  so_push :: drain_result
  so_pulled :: nat
  so_cursor :: "string option"
  so_state :: SyncState
  so_error :: "string option"

definition MAX_PULL_PAGES :: nat where "MAX_PULL_PAGES = 1000"

fun table_name :: "SyncableTable \<Rightarrow> string" where
  "table_name T_ledger_accounts = ''ledger_accounts''"
| "table_name T_categories = ''categories''"
| "table_name T_journal_entries = ''journal_entries''"
| "table_name T_journal_postings = ''journal_postings''"
| "table_name T_tags = ''tags''"
| "table_name T_journal_entry_tags = ''journal_entry_tags''"
| "table_name T_notifications = ''notifications''"

text \<open>\<open>encodeURIComponent\<close>: two UTF-8 bytes from code point 128 on.\<close>

definition unreserved :: "char \<Rightarrow> bool" where
  "unreserved c \<longleftrightarrow> is_digit c \<or> 65 \<le> cu c \<and> cu c \<le> 90 \<or> 97 \<le> cu c \<and> cu c \<le> 122
     \<or> cu c \<in> {45, 95, 46, 33, 126, 42, 39, 40, 41}"

definition upper_hex :: "nat \<Rightarrow> char" where
  "upper_hex n = (if n < 10 then digit_char n else char_of (55 + n))"

definition percent :: "nat \<Rightarrow> string" where
  "percent b = [CHR ''%'', upper_hex (b div 16), upper_hex (b mod 16)]"

definition encodeURIComponent :: "string \<Rightarrow> string" where
  "encodeURIComponent s = concat (map (\<lambda>c.
     if unreserved c then [c]
     else if cu c < 128 then percent (cu c)
     else percent (192 + cu c div 64) @ percent (128 + cu c mod 64)) s)"

definition pull_path :: "string \<Rightarrow> string option \<Rightarrow> string" where
  "pull_path w cursor = ''/workspaces/'' @ w @ ''/sync''
     @ (case truthy cursor of None \<Rightarrow> [] | Some c \<Rightarrow> ''?cursor='' @ encodeURIComponent c)"

definition pull_request :: "string \<Rightarrow> string option \<Rightarrow> http_request" where
  "pull_request w cursor = \<lparr>rq_method = ''GET'', rq_path = pull_path w cursor, rq_body = None,
     rq_idempotency_key = None\<rparr>"

fun fields_of :: "json \<Rightarrow> fields" where
  "fields_of (JObj fs) = fs"
| "fields_of _ = []"

text \<open>The rows of a table in \<open>response.changes\<close>.\<close>

definition changed_rows :: "json \<Rightarrow> string \<Rightarrow> fields list" where
  "changed_rows changes t = (case jget changes t of Some (JArr rows) \<Rightarrow> map fields_of rows | _ \<Rightarrow> [])"

definition count_pulled :: "nat \<Rightarrow> (phone, unit) api" where
  "count_pulled n s = (Inr (), s\<lparr>pulled := pulled s + n\<rparr>)"

definition apply_table :: "(SyncableTable \<Rightarrow> string list) \<Rightarrow> json \<Rightarrow> SyncableTable \<Rightarrow> (phone, unit) api" where
  "apply_table columns changes t =
     (let rows = changed_rows changes (table_name t) in
      if rows = [] then api_return ()
      else api_bind (upsertRows t rows (columns t)) (\<lambda>_. count_pulled (length rows)))"

definition confirm_entries :: "string list \<Rightarrow> store \<Rightarrow> store" where
  "confirm_entries ids u = u\<lparr>tables := (tables u)(T_journal_entries :=
     map (\<lambda>r. if list_ex (\<lambda>i. r ''id'' = SText i) ids then r(''is_pending'' := SInt 0) else r)
       (tables u T_journal_entries))\<rparr>"

definition store_cursor :: "string \<Rightarrow> string option \<Rightarrow> nat \<Rightarrow> store \<Rightarrow> store" where
  "store_cursor w cursor now u =
     (let m = \<lparr>sm_workspace_id = w, sm_cursor = cursor, sm_last_synced_at = Some now\<rparr> in
      u\<lparr>sync_metas := (if list_ex (\<lambda>x. sm_workspace_id x = w) (sync_metas u)
         then map (\<lambda>x. if sm_workspace_id x = w then m else x) (sync_metas u) else sync_metas u @ [m])\<rparr>)"

definition response_cursor :: "json \<Rightarrow> string option" where
  "response_cursor body = (case jget body ''cursor'' of Some (JStr c) \<Rightarrow> Some c | _ \<Rightarrow> None)"

definition entry_ids :: "json \<Rightarrow> string list" where
  "entry_ids changes = map (\<lambda>fs. js_String (map_of fs ''id'')) (changed_rows changes ''journal_entries'')"

definition apply_page ::
    "phone_env \<Rightarrow> string \<Rightarrow> (SyncableTable \<Rightarrow> string list) \<Rightarrow> json \<Rightarrow> json \<Rightarrow> (phone, unit) api" where
  "apply_page E w columns body changes =
     with_transaction (
       api_bind (api_map (apply_table columns changes) SYNCABLE_TABLES) (\<lambda>_.
       api_bind (if entry_ids changes = [] then api_return ()
                 else sql_write (confirm_entries (entry_ids changes))) (\<lambda>_.
       api_bind (external (pe_clock E)) (\<lambda>now.
       sql_write (store_cursor w (response_cursor body) now)))))"

text \<open>A round of the page loop; \<open>None\<close> as response body is the empty answer of a 204.\<close>

definition pull_page ::
    "phone_env \<Rightarrow> string \<Rightarrow> (SyncableTable \<Rightarrow> string list) \<Rightarrow> string option
      \<Rightarrow> (phone, string option \<times> bool) api" where
  "pull_page E w columns cursor =
     api_bind (apiFetch E (pull_request w cursor)) (\<lambda>resp.
     case resp of
       None \<Rightarrow> api_throw (Js_error ''TypeError'')
     | Some body \<Rightarrow>
         (case jget body ''changes'' of
            None \<Rightarrow> api_throw (Js_error ''TypeError'')
          | Some changes \<Rightarrow>
              if changes = JNull then api_throw (Js_error ''TypeError'')
              else api_bind (apply_page E w columns body changes) (\<lambda>_.
                api_return (response_cursor body,
                  (case jget body ''has_more'' of None \<Rightarrow> False | Some j \<Rightarrow> json_truthy j)))))"

datatype pull_end = Complete "string option" | Broken "string option" api_exn

definition pull_round ::
    "phone_env \<Rightarrow> string \<Rightarrow> (SyncableTable \<Rightarrow> string list) \<Rightarrow> string option
      \<Rightarrow> (phone, pull_end + string option) api" where
  "pull_round E w columns cursor =
     api_catch
       (api_bind (pull_page E w columns cursor) (\<lambda>(cursor', has_more).
        api_return (if has_more then Inr cursor' else Inl (Complete cursor'))))
       (\<lambda>e. api_return (Inl (Broken cursor e)))"

text \<open>
  The \<open>for\<close> loop with its \<open>SYNC_INCOMPLETE\<close>; \<open>incomplete c\<close> carries the cursor of the last page.
\<close>

definition incomplete :: api_exn where
  "incomplete = Js_error (''SYNC_INCOMPLETE: server still had changes after '' @ show_nat MAX_PULL_PAGES
     @ '' bounded pages; resume with the stored cursor.'')"

fun pull_loop ::
    "nat \<Rightarrow> phone_env \<Rightarrow> string \<Rightarrow> (SyncableTable \<Rightarrow> string list) \<Rightarrow> string option \<Rightarrow> (phone, pull_end) api" where
  "pull_loop 0 E w columns cursor = api_return (Broken cursor incomplete)"
| "pull_loop (Suc n) E w columns cursor =
     api_bind (pull_round E w columns cursor) (\<lambda>r.
     case r of Inl x \<Rightarrow> api_return x | Inr c \<Rightarrow> pull_loop n E w columns c)"

section \<open>A run\<close>

definition no_push :: drain_result where
  "no_push = \<lparr>sent = 0, parked = 0, deferred = 0, reclaimed = 0\<rparr>"

definition outcome_of :: "drain_result \<Rightarrow> nat \<Rightarrow> pull_end \<Rightarrow> sync_outcome" where
  "outcome_of push n x =
     (case x of
        Complete c \<Rightarrow> \<lparr>so_push = push, so_pulled = n, so_cursor = c,
          so_state = (if 0 < parked push then NEEDS_ATTENTION else IDLE), so_error = None\<rparr>
      | Broken c e \<Rightarrow> \<lparr>so_push = push, so_pulled = n, so_cursor = c,
          so_state = (case e of Http_exn st _ _ \<Rightarrow> if st = 0 then OFFLINE else ERROR | Js_error _ \<Rightarrow> ERROR),
          so_error = Some (exn_message e)\<rparr>)"

definition reset_pulled :: "(phone, unit) api" where
  "reset_pulled s = (Inr (), s\<lparr>pulled := 0\<rparr>)"

definition stored_cursor :: "string \<Rightarrow> store \<Rightarrow> string option" where
  "stored_cursor w u =
     (case find (\<lambda>x. sm_workspace_id x = w) (sync_metas u) of None \<Rightarrow> None | Some m \<Rightarrow> sm_cursor m)"

text \<open>\<open>PRAGMA table_info\<close> for each table.\<close>

definition read_columns :: "(phone, SyncableTable \<Rightarrow> string list) api" where
  "read_columns = api_bind (api_map (\<lambda>t. sql_read (\<lambda>_. getLocalColumns t)) SYNCABLE_TABLES)
     (\<lambda>_. api_return getLocalColumns)"

definition pull :: "phone_env \<Rightarrow> string \<Rightarrow> drain_result \<Rightarrow> (phone, sync_outcome) api" where
  "pull E w push =
     api_bind (sql_read (stored_cursor w)) (\<lambda>cursor.
     api_bind reset_pulled (\<lambda>_.
     api_bind read_columns (\<lambda>columns.
     api_bind (pull_loop MAX_PULL_PAGES E w columns cursor) (\<lambda>x.
     api_bind (api_reads pulled) (\<lambda>n.
     api_return (outcome_of push n x))))))"

definition execute :: "phone_env \<Rightarrow> string \<Rightarrow> (phone, sync_outcome) api" where
  "execute E w =
     api_bind (api_catch (api_bind (drain E w) (\<lambda>r. api_return (Inr (case r of None \<Rightarrow> no_push | Some p \<Rightarrow> p))))
       (\<lambda>e. api_return (Inl e))) (\<lambda>r.
     case r of
       Inl e \<Rightarrow> api_return \<lparr>so_push = no_push, so_pulled = 0, so_cursor = None, so_state = ERROR,
                  so_error = Some (exn_message e)\<rparr>
     | Inr push \<Rightarrow> pull E w push)"

definition hasSynced :: "string \<Rightarrow> (phone, bool) api" where
  "hasSynced w = sql_read (\<lambda>u.
     (case find (\<lambda>x. sm_workspace_id x = w) (sync_metas u) of None \<Rightarrow> False
      | Some m \<Rightarrow> sm_last_synced_at m \<noteq> None))"

text \<open>\<open>sync\<close>: a run in progress for the workspace is shared, none is started twice.\<close>

record engine =
  in_flight_runs :: "(string \<times> nat) list"
  next_run :: nat

definition sync :: "string \<Rightarrow> engine \<Rightarrow> nat \<times> engine" where
  "sync w g =
     (case map_of (in_flight_runs g) w of
        Some run \<Rightarrow> (run, g)
      | None \<Rightarrow> (next_run g, g\<lparr>in_flight_runs := (w, next_run g) # in_flight_runs g, next_run := Suc (next_run g)\<rparr>))"

definition run_finished :: "string \<Rightarrow> engine \<Rightarrow> engine" where
  "run_finished w g = g\<lparr>in_flight_runs := [x \<leftarrow> in_flight_runs g. fst x \<noteq> w]\<rparr>"

section \<open>Upserts\<close>

lemma map_of_updates: "c \<notin> set (PRIMARY_KEYS t) \<Longrightarrow> map_of [(c, v) \<leftarrow> vs. c \<notin> set (PRIMARY_KEYS t)] c = map_of vs c"
  by (induction vs) auto

lemma map_of_no_key: "c \<in> set (PRIMARY_KEYS t) \<Longrightarrow> map_of [(c, v) \<leftarrow> vs. c \<notin> set (PRIMARY_KEYS t)] c = None"
  by (induction vs) auto

definition updates_of :: "SyncableTable \<Rightarrow> (string \<times> sql_value) list \<Rightarrow> (string \<times> sql_value) list" where
  "updates_of t vs = [(c, v) \<leftarrow> vs. c \<notin> set (PRIMARY_KEYS t)]"

lemma key_assign [simp]: "row_key t (assign (updates_of t vs) r) = row_key t r"
  by (simp add: row_key_def assign_def updates_of_def map_of_no_key)

lemma assign_idem [simp]: "assign us (assign us r) = assign us r"
  by (rule ext) (simp add: assign_def split: option.split)

lemma assign_proposed [simp]: "assign (updates_of t vs) (proposed_row t vs) = proposed_row t vs"
proof
  fix c
  show "assign (updates_of t vs) (proposed_row t vs) c = proposed_row t vs c"
    by (cases "c \<in> set (PRIMARY_KEYS t)")
      (simp_all add: assign_def updates_of_def map_of_updates map_of_no_key proposed_row_def split: option.split)
qed

lemma upsert_unfold:
  "upsert t vs rows =
     (if updates_of t vs = [] \<or> \<not> not_null_ok t (proposed_row t vs) then None
      else if list_ex (\<lambda>r. row_key t r = row_key t (proposed_row t vs)) rows
        then Some (map (\<lambda>r. if row_key t r = row_key t (proposed_row t vs) then assign (updates_of t vs) r else r) rows)
      else Some (rows @ [proposed_row t vs]))"
  by (simp add: upsert_def updates_of_def Let_def)

lemma has_key: "list_ex (\<lambda>r. row_key t r = k) rows \<longleftrightarrow> k \<in> set (map (row_key t) rows)"
  by (auto simp: list_ex_iff image_iff)

lemma keys_assigned:
  "map (row_key t) (map (\<lambda>r. if row_key t r = k then assign (updates_of t vs) r else r) rows) = map (row_key t) rows"
  by simp

lemma upsert_again:
  assumes "upsert t vs rows = Some rows'"
  shows "upsert t vs rows' = Some rows'"
proof -
  let ?new = "proposed_row t vs" and ?us = "updates_of t vs"
  have ok: "?us \<noteq> []" "not_null_ok t ?new" using assms by (auto simp: upsert_unfold split: if_splits)
  show ?thesis
  proof (cases "list_ex (\<lambda>r. row_key t r = row_key t ?new) rows")
    case True
    then have r': "rows' = map (\<lambda>r. if row_key t r = row_key t ?new then assign ?us r else r) rows"
      using assms ok by (simp add: upsert_unfold)
    have "list_ex (\<lambda>r. row_key t r = row_key t ?new) rows'"
      using True unfolding has_key r' keys_assigned .
    then show ?thesis using ok unfolding upsert_unfold r' by simp
  next
    case False
    then have r': "rows' = rows @ [?new]" using assms ok by (simp add: upsert_unfold)
    have "map (\<lambda>r. if row_key t r = row_key t ?new then assign ?us r else r) rows = rows"
      using False by (intro map_idI) (auto simp: list_ex_iff)
    then show ?thesis using ok by (simp add: upsert_unfold r' list_ex_iff)
  qed
qed

lemma upsert_keys:
  assumes "upsert t vs rows = Some rows'"
  shows "map (row_key t) rows' = map (row_key t) rows
    \<or> map (row_key t) rows' = map (row_key t) rows @ [row_key t (proposed_row t vs)]
      \<and> row_key t (proposed_row t vs) \<notin> set (map (row_key t) rows)"
  using assms by (auto simp: upsert_unfold list_ex_iff split: if_splits)

lemma upsert_present:
  assumes "upsert t vs rows = Some rows'"
  shows "row_key t (proposed_row t vs) \<in> row_key t ` set rows'"
proof (cases "list_ex (\<lambda>r. row_key t r = row_key t (proposed_row t vs)) rows")
  case True
  then have "row_key t (proposed_row t vs) \<in> set (map (row_key t) rows)" by (simp only: has_key)
  then have "row_key t (proposed_row t vs) \<in> set (map (row_key t) rows')" using upsert_keys [OF assms] by auto
  then show ?thesis by simp
next
  case False
  then show ?thesis using assms by (auto simp: upsert_unfold split: if_splits)
qed

lemma upsert_other_rows:
  "upsert t vs rows = Some rows' \<Longrightarrow> r \<in> set rows \<Longrightarrow> row_key t r \<noteq> row_key t (proposed_row t vs) \<Longrightarrow> r \<in> set rows'"
  by (auto simp: upsert_unfold split: if_splits)

section \<open>What a page does\<close>

text \<open>A property of the tables that survives statements that fail.\<close>

definition on_store :: "(store \<Rightarrow> bool) \<Rightarrow> phone \<Rightarrow> bool" where
  "on_store P s \<longleftrightarrow> P (store s)"

lemma keeps_on_store_sql: "(\<And>u. P u \<Longrightarrow> P (snd (f u))) \<Longrightarrow> keeps (on_store P) (sql f)"
proof (rule keepsI)
  fix s
  assume f: "\<And>u. P u \<Longrightarrow> P (snd (f u))" and s: "on_store P s"
  obtain r t where t: "sql f s = (r, t)" by (cases "sql f s")
  then show "on_store P (snd (sql f s))" using sql_cases [OF t] f s by (auto simp: on_store_def)
qed

lemma keeps_on_store_write: "(\<And>u. P u \<Longrightarrow> P (f u)) \<Longrightarrow> keeps (on_store P) (sql_write f)"
  unfolding sql_write_def by (rule keeps_on_store_sql) simp

lemma keeps_on_store_read: "keeps (on_store P) (sql_read q)"
  unfolding sql_read_def by (rule keeps_on_store_sql) simp

lemma keeps_on_store_external: "keeps (on_store P) (external f)"
  by (simp add: keeps_def on_store_def external_def)

lemma keeps_on_store_same: "guar same_store m \<Longrightarrow> keeps (on_store P) m"
  by (auto simp: guar_def keeps_def on_store_def same_store_def)

lemma keeps_on_store_count: "keeps (on_store P) (count_pulled n)"
  by (simp add: keeps_def on_store_def count_pulled_def)

lemma keeps_transaction:
  assumes "keeps (on_store P) m"
  shows "keeps (on_store P) (with_transaction m)"
proof (rule keepsI)
  fix s
  assume s: "on_store P s"
  then have "on_store P (snd (m s))" by (rule keepsD [OF assms])
  then show "on_store P (snd (with_transaction m s))"
    using s by (auto simp: with_transaction_def on_store_def split: prod.split sum.split)
qed

lemmas on_store_rules = keeps_intros keeps_on_store_read keeps_on_store_external keeps_on_store_count
  keeps_transaction keeps_on_store_write

text \<open>The values a row of the reply binds, and its key.\<close>

definition bound_columns :: "SyncableTable \<Rightarrow> fields \<Rightarrow> (string \<times> sql_value) list" where
  "bound_columns t fs = [(c, bind_value v). (c, v) \<leftarrow> fs, c \<in> set (getLocalColumns t)]"

lemma upsert_row_unfold:
  "upsert_row t (getLocalColumns t) fs =
     (if bound_columns t fs = [] then api_return ()
      else sql (\<lambda>u. case upsert t (bound_columns t fs) (tables u t) of
          None \<Rightarrow> (Inl sqlite_error, u)
        | Some rows \<Rightarrow> (Inr (), u\<lparr>tables := (tables u)(t := rows)\<rparr>)))"
  by (simp add: upsert_row_def bound_columns_def Let_def)

text \<open>A property of the tables that every upsert of the reply's rows keeps is kept by a run.\<close>

definition upsert_closed :: "json \<Rightarrow> (store \<Rightarrow> bool) \<Rightarrow> bool" where
  "upsert_closed changes P \<longleftrightarrow>
     (\<forall>t fs u rows. fs \<in> set (changed_rows changes (table_name t)) \<longrightarrow> P u \<longrightarrow>
        upsert t (bound_columns t fs) (tables u t) = Some rows \<longrightarrow> P (u\<lparr>tables := (tables u)(t := rows)\<rparr>))"

lemma keeps_apply_table:
  assumes "upsert_closed changes P"
  shows "keeps (on_store P) (apply_table getLocalColumns changes t)"
proof -
  have row: "keeps (on_store P) (upsert_row t (getLocalColumns t) fs)" if "fs \<in> set (changed_rows changes (table_name t))" for fs
    unfolding upsert_row_unfold
    using assms that by (auto simp: upsert_closed_def intro!: keeps_if keeps_return keeps_on_store_sql split: option.split)
  have "keeps (on_store P) (upsertRows t (changed_rows changes (table_name t)) (getLocalColumns t))"
    unfolding upsertRows_def by (intro keeps_bind keeps_map_set row keeps_return)
  then show ?thesis
    unfolding apply_table_def Let_def
    by (intro keeps_if keeps_return keeps_bind keeps_on_store_count)
qed

lemma keeps_apply_page:
  assumes "upsert_closed changes P"
    and "\<And>u. P u \<Longrightarrow> P (confirm_entries (entry_ids changes) u)"
    and "\<And>u now. P u \<Longrightarrow> P (store_cursor w (response_cursor body) now u)"
  shows "keeps (on_store P) (apply_page E w getLocalColumns body changes)"
  unfolding apply_page_def
  by (intro on_store_rules keeps_apply_table [OF assms(1)] assms(2,3))

lemma apply_page_abort: "apply_page E w columns body changes s = (Inl e, t) \<Longrightarrow> store t = store s"
  unfolding apply_page_def with_transaction_def by (auto split: prod.splits sum.splits)

lemma api_map_establishes:
  assumes "x \<in> set xs" "\<And>y. y \<in> set xs \<Longrightarrow> keeps P (f y)" "\<And>s v t. f x s = (Inr v, t) \<Longrightarrow> P t"
  shows "api_map f xs s = (Inr r, t) \<Longrightarrow> P t"
  using assms(1,2)
proof (induction xs arbitrary: s r)
  case (Cons y ys)
  obtain v u vs where y: "f y s = (Inr v, u)" and ys: "api_map f ys u = (Inr vs, t)"
    using Cons.prems(1) by (auto simp: api_bind_Inr api_return_def)
  show ?case
  proof (cases "x \<in> set ys")
    case True
    then show ?thesis using Cons.IH [OF ys] Cons.prems(3) by simp
  next
    case False
    then have "P u" using Cons.prems(2) y assms(3) by auto
    have "keeps P (api_map f ys)" using Cons.prems(3) by (intro keeps_map_set) simp
    then show ?thesis using \<open>P u\<close> ys by (rule keeps_run)
  qed
qed simp

definition key_present :: "SyncableTable \<Rightarrow> sql_value list \<Rightarrow> store \<Rightarrow> bool" where
  "key_present t k u \<longleftrightarrow> k \<in> row_key t ` set (tables u t)"

lemma key_present_closed: "upsert_closed changes (key_present t k)"
proof -
  have "k \<in> row_key t ` set rows"
    if "k \<in> row_key t ` set (tables u t)" "upsert t vs (tables u t) = Some rows" for u vs rows
  proof -
    have "k \<in> set (map (row_key t) (tables u t))" using that(1) by simp
    moreover have "set (map (row_key t) (tables u t)) \<subseteq> set (map (row_key t) rows)"
      using upsert_keys [OF that(2)] by (elim disjE) (simp_all only: set_append Un_upper1 order_refl)
    ultimately have "k \<in> set (map (row_key t) rows)" by blast
    then show ?thesis by simp
  qed
  note grows = this
  show ?thesis unfolding upsert_closed_def key_present_def
  proof (intro allI impI)
    fix t' fs u rows
    assume k: "k \<in> row_key t ` set (tables u t)" and up: "upsert t' (bound_columns t' fs) (tables u t') = Some rows"
    show "k \<in> row_key t ` set (tables (u\<lparr>tables := (tables u)(t' := rows)\<rparr>) t)"
    proof (cases "t' = t")
      case True
      then show ?thesis using grows [OF k] up by simp
    qed (use k in simp)
  qed
qed

lemma row_key_pending [simp]: "row_key t (r(''is_pending'' := v)) = row_key t r"
  by (cases t) (simp_all add: row_key_def)

lemma key_present_confirm: "key_present t k u \<Longrightarrow> key_present t k (confirm_entries ids u)"
proof -
  have "map (row_key t) (tables (confirm_entries ids u) t) = map (row_key t) (tables u t)"
    by (cases "t = T_journal_entries") (auto simp: confirm_entries_def)
  then have "row_key t ` set (tables (confirm_entries ids u) t) = row_key t ` set (tables u t)"
    by (metis set_map)
  then show "key_present t k u \<Longrightarrow> key_present t k (confirm_entries ids u)"
    by (simp add: key_present_def)
qed

lemma store_cursor_tables [simp]: "tables (store_cursor w c now u) = tables u" "queue (store_cursor w c now u) = queue u"
  by (simp_all add: store_cursor_def Let_def)

lemma find_replaced:
  "list_ex (\<lambda>x. sm_workspace_id x = w) xs \<Longrightarrow> sm_workspace_id m = w \<Longrightarrow>
     find (\<lambda>x. sm_workspace_id x = w) (map (\<lambda>x. if sm_workspace_id x = w then m else x) xs) = Some m"
  by (induction xs) auto

lemma find_added:
  "\<not> list_ex (\<lambda>x. sm_workspace_id x = w) xs \<Longrightarrow> sm_workspace_id m = w \<Longrightarrow>
     find (\<lambda>x. sm_workspace_id x = w) (xs @ [m]) = Some m"
  by (induction xs) auto

lemma stored_cursor_stored: "stored_cursor w (store_cursor w c now u) = c"
  by (simp add: stored_cursor_def store_cursor_def Let_def find_replaced find_added)

text \<open>The mark \<open>hasSynced\<close> reads.\<close>

definition marked_synced :: "string \<Rightarrow> store \<Rightarrow> bool" where
  "marked_synced w u = (case find (\<lambda>x. sm_workspace_id x = w) (sync_metas u) of None \<Rightarrow> False
      | Some m \<Rightarrow> sm_last_synced_at m \<noteq> None)"

lemma marked_stored: "marked_synced w (store_cursor w c now u)"
  by (simp add: marked_synced_def store_cursor_def Let_def find_replaced find_added)

lemma upsert_row_establishes:
  assumes "upsert_row t (getLocalColumns t) fs s = (Inr v, u)" "bound_columns t fs \<noteq> []"
  shows "on_store (key_present t (row_key t (proposed_row t (bound_columns t fs)))) u"
proof -
  let ?f = "\<lambda>u. case upsert t (bound_columns t fs) (tables u t) of
          None \<Rightarrow> (Inl sqlite_error, u)
        | Some rows \<Rightarrow> (Inr (), u\<lparr>tables := (tables u)(t := rows)\<rparr>)"
  have "sql ?f s = (Inr v, u)" using assms by (simp add: upsert_row_unfold)
  then have "store u = snd (?f (store s))" "fst (?f (store s)) = Inr v" using sql_cases by fastforce+
  then show ?thesis using upsert_present
    by (auto simp: on_store_def key_present_def split: option.splits)
qed

lemma apply_tables_establish:
  assumes "api_map (apply_table getLocalColumns changes) SYNCABLE_TABLES s = (Inr r, u)"
    and "fs \<in> set (changed_rows changes (table_name t))" "bound_columns t fs \<noteq> []"
  shows "on_store (key_present t (row_key t (proposed_row t (bound_columns t fs)))) u"
proof (rule api_map_establishes [OF _ _ _ assms(1)])
  let ?P = "key_present t (row_key t (proposed_row t (bound_columns t fs)))"
  show "t \<in> set SYNCABLE_TABLES" by (cases t) (simp_all add: SYNCABLE_TABLES_def)
  show "keeps (on_store ?P) (apply_table getLocalColumns changes t')" for t'
    by (rule keeps_apply_table [OF key_present_closed])
  fix s v u
  assume "apply_table getLocalColumns changes t s = (Inr v, u)"
  moreover have "changed_rows changes (table_name t) \<noteq> []" using assms(2) by auto
  ultimately obtain w where "upsertRows t (changed_rows changes (table_name t)) (getLocalColumns t) s = (Inr (), w)"
      and u: "store u = store w"
    by (auto simp: apply_table_def Let_def api_bind_Inr count_pulled_def)
  then obtain vs where "api_map (upsert_row t (getLocalColumns t)) (changed_rows changes (table_name t)) s = (Inr vs, w)"
    by (auto simp: upsertRows_def api_bind_Inr api_return_def)
  then have "on_store ?P w"
  proof (rule api_map_establishes [OF assms(2), rotated -1])
    show "keeps (on_store ?P) (upsert_row t (getLocalColumns t) y)" if "y \<in> set (changed_rows changes (table_name t))" for y
      using key_present_closed [of changes] that unfolding upsert_row_unfold
      by (auto simp: upsert_closed_def intro!: keeps_if keeps_return keeps_on_store_sql split: option.split)
    show "on_store ?P t'" if "upsert_row t (getLocalColumns t) fs s' = (Inr v', t')" for s' v' t'
      by (rule upsert_row_establishes [OF that assms(3)])
  qed
  then show "on_store ?P u" by (simp add: on_store_def u)
qed

lemma apply_page_commit:
  assumes "apply_page E w getLocalColumns body changes s = (Inr v, t)"
  shows "stored_cursor w (store t) = response_cursor body \<and> marked_synced w (store t) \<and>
    (\<forall>T fs. fs \<in> set (changed_rows changes (table_name T)) \<longrightarrow> bound_columns T fs \<noteq> [] \<longrightarrow>
       key_present T (row_key T (proposed_row T (bound_columns T fs))) (store t))"
proof -
  obtain r u x1 u1 now u2 where
      tabs: "api_map (apply_table getLocalColumns changes) SYNCABLE_TABLES s = (Inr r, u)"
    and conf: "(if entry_ids changes = [] then api_return () else sql_write (confirm_entries (entry_ids changes))) u = (Inr x1, u1)"
    and clock: "external (pe_clock E) u1 = (Inr now, u2)"
    and cur: "sql_write (store_cursor w (response_cursor body) now) u2 = (Inr v, t)"
    using assms unfolding apply_page_def with_transaction_def
    by (auto split: prod.splits sum.splits simp: api_bind_Inr)
  have t: "store t = store_cursor w (response_cursor body) now (store u2)" using cur by (rule sql_write_Inr)
  have u2: "store u2 = store u1" using clock by (auto simp: external_def)
  have u1: "store u1 = store u \<or> store u1 = confirm_entries (entry_ids changes) (store u)"
    using conf sql_write_Inr by (auto simp: api_return_def split: if_splits)
  have "key_present T (row_key T (proposed_row T (bound_columns T fs))) (store t)"
    if "fs \<in> set (changed_rows changes (table_name T))" "bound_columns T fs \<noteq> []" for T fs
  proof -
    have "key_present T (row_key T (proposed_row T (bound_columns T fs))) (store u)"
      using apply_tables_establish [OF tabs that] by (simp add: on_store_def)
    then have "key_present T (row_key T (proposed_row T (bound_columns T fs))) (store u1)"
      using u1 key_present_confirm by metis
    then show ?thesis by (simp add: t u2 key_present_def)
  qed
  then show ?thesis by (simp add: t stored_cursor_stored marked_stored)
qed

lemma history_sql: "history (snd (sql f s)) = history s"
  using sql_cases [of f s] by (cases "sql f s") auto

definition same_history :: "phone \<Rightarrow> phone \<Rightarrow> bool" where
  "same_history s t \<longleftrightarrow> history t = history s"

lemma same_history_rt: "reflp same_history" "transp same_history"
  by (auto simp: reflp_def transp_def same_history_def)

lemma history_apply_page: "apply_page E w columns body changes s = (r, t) \<Longrightarrow> history t = history s"
proof -
  have sql: "guar same_history (sql f)" for f :: "store \<Rightarrow> (api_exn + unit) \<times> store"
    by (rule guarI) (simp add: same_history_def history_sql)
  have row: "guar same_history (upsert_row t cs fs)" for t cs fs
    unfolding upsert_row_def Let_def by (intro guar_if guar_return sql same_history_rt)
  have count: "guar same_history (count_pulled n)" for n
    by (simp add: guar_def count_pulled_def same_history_def)
  have ext: "guar same_history (external f)" for f :: "nat \<Rightarrow> nat"
    by (simp add: guar_def external_def same_history_def)
  have tab: "guar same_history (apply_table columns changes t)" for t
    unfolding apply_table_def upsertRows_def Let_def
    by (intro guar_if guar_bind guar_map guar_return row count same_history_rt)
  have "guar same_history (api_bind (api_map (apply_table columns changes) SYNCABLE_TABLES) (\<lambda>_.
       api_bind (if entry_ids changes = [] then api_return ()
                 else sql_write (confirm_entries (entry_ids changes))) (\<lambda>_.
       api_bind (external (pe_clock E)) (\<lambda>now.
       sql_write (store_cursor w (response_cursor body) now)))))" (is "guar _ ?m")
    unfolding sql_write_def
    by (intro guar_if guar_bind guar_map guar_return sql tab ext same_history_rt)
  then have "history (snd (?m s)) = history s" by (simp add: guar_def same_history_def)
  then show "apply_page E w columns body changes s = (r, t) \<Longrightarrow> history t = history s"
    by (auto simp: apply_page_def with_transaction_def split: prod.splits sum.splits)
qed

section \<open>What every run keeps\<close>

lemma keeps_pull_page:
  assumes "\<And>changes. upsert_closed changes P"
    and "\<And>ids u. P u \<Longrightarrow> P (confirm_entries ids u)" "\<And>c now u. P u \<Longrightarrow> P (store_cursor w c now u)"
  shows "keeps (on_store P) (pull_page E w getLocalColumns cursor)"
  unfolding pull_page_def
  by (intro keeps_bind keeps_on_store_same [OF guar_same_store_apiFetch] keeps_case_option keeps_throw keeps_if
      keeps_apply_page keeps_return assms)

lemma keeps_pull_loop:
  assumes "\<And>c. keeps (on_store P) (pull_page E w columns c)"
  shows "keeps (on_store P) (pull_loop n E w columns c)"
proof (induction n arbitrary: c)
  case (Suc n)
  have "keeps (on_store P) (pull_round E w columns c)"
    unfolding pull_round_def by (intro keeps_catch keeps_bind assms) (auto intro: keeps_return)
  then show ?case by (auto intro!: keeps_bind keeps_case_sum keeps_return Suc)
qed (simp add: keeps_return)

lemma read_columns_run:
  "read_columns s = (Inr columns, t) \<Longrightarrow> columns = getLocalColumns"
  by (auto simp: read_columns_def api_bind_Inr api_return_def)

lemma keeps_drain:
  assumes "\<And>i f u. P u \<Longrightarrow> P (update_mutation i f u)" "\<And>i u. P u \<Longrightarrow> P (delete_mutation i u)"
    and "\<And>q u. P u \<Longrightarrow> P (u\<lparr>queue := q\<rparr>)"
  shows "keeps (on_store P) (drain E w)"
proof -
  have send: "keeps (on_store P) (sendMutation E m)" for m
    unfolding sendMutation_def by (intro keeps_bind keeps_on_store_same [OF guar_same_store_apiFetch] keeps_return)
  have attempt: "keeps (on_store P) (attempt E m r)" for m r
    unfolding attempt_def by (intro keeps_bind send keeps_return keeps_on_store_write assms)
  have failed: "keeps (on_store P) (failed_attempt E m r e)" for m r e
    unfolding failed_attempt_def park_def defer_until_def
    by (intro keeps_if keeps_bind keeps_return keeps_on_store_write keeps_on_store_external assms)
  have round: "keeps (on_store P) (drain_round E w r)" for r
    unfolding drain_round_def claimNext_def
    by (intro keeps_bind keeps_case_option keeps_catch attempt failed keeps_return keeps_on_store_write
        keeps_on_store_external keeps_on_store_read assms)
  have "keeps (on_store P) (drain_from n E w)" for n
    unfolding drain_from_def reclaimStranded_def
    by (intro keeps_bind keeps_on_store_sql keeps_loop round) (simp add: assms)
  then show ?thesis by (simp add: keeps_def drain_def)
qed

lemma keeps_execute:
  assumes "keeps (on_store P) (drain E w)" "\<And>c. keeps (on_store P) (pull_page E w getLocalColumns c)"
  shows "keeps (on_store P) (execute E w)"
proof -
  have cols: "keeps (on_store P) read_columns"
    unfolding read_columns_def by (intro keeps_bind keeps_map keeps_on_store_read keeps_return)
  have reset: "keeps (on_store P) reset_pulled" by (simp add: keeps_def on_store_def reset_pulled_def)
  have yields: "yields (\<lambda>columns. columns = getLocalColumns) read_columns"
    by (rule yieldsI) (rule read_columns_run)
  have "keeps (on_store P) (pull E w push)" for push
    unfolding pull_def
    by (intro keeps_bind keeps_on_store_read reset keeps_bind_yields [OF cols yields] keeps_reads keeps_return)
      (simp add: keeps_pull_loop assms(2) keeps_bind keeps_reads keeps_return)
  then show ?thesis
    unfolding execute_def by (auto intro!: keeps_bind keeps_catch keeps_return assms(1) keeps_case_sum)
qed

definition keys_unique :: "store \<Rightarrow> bool" where
  "keys_unique u \<longleftrightarrow> (\<forall>t. distinct (map (row_key t) (tables u t)))"

lemma keys_unique_same: "keys_unique u \<Longrightarrow> tables v = tables u \<Longrightarrow> keys_unique v"
  by (simp add: keys_unique_def)

lemma keys_unique_closed: "upsert_closed changes keys_unique"
  unfolding upsert_closed_def
proof (intro allI impI)
  fix t fs u rows
  assume u: "keys_unique u" and up: "upsert t (bound_columns t fs) (tables u t) = Some rows"
  have "distinct (map (row_key t) (tables u t))" using u by (simp add: keys_unique_def)
  then have "distinct (map (row_key t) rows)" using upsert_keys [OF up] by (elim disjE) (simp_all only: distinct_append, auto)
  then show "keys_unique (u\<lparr>tables := (tables u)(t := rows)\<rparr>)" using u by (simp add: keys_unique_def)
qed

lemma keys_unique_confirm: "keys_unique u \<Longrightarrow> keys_unique (confirm_entries ids u)"
proof -
  have "map (row_key t) (tables (confirm_entries ids u) t) = map (row_key t) (tables u t)" for t
    by (cases "t = T_journal_entries") (auto simp: confirm_entries_def)
  then show "keys_unique u \<Longrightarrow> keys_unique (confirm_entries ids u)" by (simp add: keys_unique_def)
qed

lemma keys_unique_execute: "keeps (on_store keys_unique) (execute E w)"
  by (intro keeps_execute keeps_drain keeps_pull_page keys_unique_closed keys_unique_confirm)
    (auto simp: delete_mutation_def intro: keys_unique_same)

lemma keys_unique_create: "keeps (on_store keys_unique) (local_createTransaction E w d)"
proof -
  have ins: "keeps (on_store keys_unique) (sql (insert_row t vs))" for t vs
    by (rule keeps_on_store_sql) (auto simp: insert_row_def Let_def keys_unique_def list_ex_iff)
  have enq: "keeps (on_store keys_unique) (enqueue E i w k p)" for i k p
    unfolding enqueue_def
    by (intro keeps_bind keeps_on_store_external keeps_on_store_write)
      (auto simp: insert_or_ignore_def intro: keys_unique_same)
  show ?thesis
    unfolding local_createTransaction_def Let_def
    by (intro keeps_bind keeps_on_store_external ins enq keeps_return)
qed

section \<open>Properties\<close>

text \<open>
   Applying a row of the server twice is applying it once, so rows the cursor delivers again do
  no harm.
\<close>

theorem upsert_idempotent:
  assumes "upsert t vs rows = Some rows'"
  shows "upsert t vs rows' = Some rows'"
  by (rule upsert_again [OF assms])

theorem upsert_idempotent_witness:
  "upsert T_tags [(''id'', SText ''t1''), (''workspace_id'', SText ''w''), (''name'', SText ''food''), (''updated_at'', SText ''now'')]
     [proposed_row T_tags [(''id'', SText ''t1''), (''workspace_id'', SText ''w''), (''name'', SText ''food''), (''updated_at'', SText ''now'')]]
   = Some [proposed_row T_tags [(''id'', SText ''t1''), (''workspace_id'', SText ''w''), (''name'', SText ''food''), (''updated_at'', SText ''now'')]]"
  by (rule upsert_idempotent [of _ _ "[]"]) (simp add: upsert_def Let_def not_null_ok_def proposed_row_def)

text \<open>
   A page of the pull is applied as a whole or not at all: if the round throws or the app dies,
  tables and cursor are as before; if it returns, the stored cursor is the server's and a row with
  the key of every row of the reply is in its table.
\<close>

theorem pull_page_all_or_nothing:
  "case pull_page E w getLocalColumns cursor s of
     (Inl e, t) \<Rightarrow> store t = store s
   | (Inr (cursor', m), t) \<Rightarrow> stored_cursor w (store t) = cursor'
      \<and> (\<exists>st txt' body changes. (pull_request w cursor, Response st txt' (Some body)) \<in> set (history t)
          \<and> cursor' = response_cursor body \<and> jget body ''changes'' = Some changes
          \<and> list_all (\<lambda>T. list_all (\<lambda>fs. bound_columns T fs = []
                \<or> key_present T (row_key T (proposed_row T (bound_columns T fs))) (store t))
              (changed_rows changes (table_name T))) SYNCABLE_TABLES)"
proof -
  obtain x u where x: "apiFetch E (pull_request w cursor) s = (x, u)" by (cases "apiFetch E (pull_request w cursor) s")
  have same: "store u = store s"
    using guar_run [OF guar_same_store_apiFetch x] by (simp add: same_store_def)
  show ?thesis
  proof (cases "\<exists>body changes. x = Inr (Some body) \<and> jget body ''changes'' = Some changes \<and> changes \<noteq> JNull")
    case False
    then have "\<exists>e. pull_page E w getLocalColumns cursor s = (Inl e, u)"
      using x by (cases x) (auto simp: pull_page_def api_bind_def api_throw_def split: option.split)
    then show ?thesis using same by auto
  next
    case True
    then obtain body changes where b: "x = Inr (Some body)" "jget body ''changes'' = Some changes" "changes \<noteq> JNull"
      by blast
    obtain y t where y: "apply_page E w getLocalColumns body changes u = (y, t)"
      by (cases "apply_page E w getLocalColumns body changes u")
    have run: "pull_page E w getLocalColumns cursor s = (case y of Inl e \<Rightarrow> (Inl e, t)
        | Inr _ \<Rightarrow> (Inr (response_cursor body, case jget body ''has_more'' of None \<Rightarrow> False | Some j \<Rightarrow> json_truthy j), t))"
      using x b y by (cases y) (simp_all add: pull_page_def api_bind_def api_return_def)
    show ?thesis
    proof (cases y)
      case (Inl e)
      then show ?thesis using run y apply_page_abort same by simp
    next
      case (Inr v)
      obtain st w' where "history u = history s @ [(pull_request w cursor, Response st w' (Some body))]"
        using apiFetch_response [OF x [unfolded b(1)]] by blast
      then have h: "(pull_request w cursor, Response st w' (Some body)) \<in> set (history u)" by simp
      have ht: "history t = history u" using y history_apply_page by blast
      have c: "stored_cursor w (store t) = response_cursor body"
        and keys: "list_all (\<lambda>T. list_all (\<lambda>fs. bound_columns T fs = []
              \<or> key_present T (row_key T (proposed_row T (bound_columns T fs))) (store t))
            (changed_rows changes (table_name T))) SYNCABLE_TABLES"
        using apply_page_commit [OF y [unfolded Inr]] by (auto simp: list_all_iff)
      have "\<exists>st w' body' changes. (pull_request w cursor, Response st w' (Some body')) \<in> set (history t)
          \<and> response_cursor body = response_cursor body' \<and> jget body' ''changes'' = Some changes
          \<and> list_all (\<lambda>T. list_all (\<lambda>fs. bound_columns T fs = []
                \<or> key_present T (row_key T (proposed_row T (bound_columns T fs))) (store t))
              (changed_rows changes (table_name T))) SYNCABLE_TABLES"
        by (rule exI [of _ st], rule exI [of _ w'], rule exI [of _ body], rule exI [of _ changes])
          (simp only: h ht b(2) keys simp_thms)
      then show ?thesis using run Inr c by simp
    qed
  qed
qed

text \<open>
   The primary keys of the local tables stay unique under every sync run and every offline
  creation, whatever the server sends and whatever fails.
\<close>

theorem local_keys_unique:
  assumes "keys_unique (store s)"
  shows "keys_unique (store (snd (execute E w s))) \<and> keys_unique (store (snd (local_createTransaction E w d s)))"
  using keepsD [OF keys_unique_execute, of s E w] keepsD [OF keys_unique_create, of s E w d] assms
  by (simp add: on_store_def)

theorem local_keys_unique_witness:
  "keys_unique (store (snd (execute demo_phone_env ''w1'' (demo_phone [demo_write ''a'' 1 None]))))"
  using local_keys_unique [of "demo_phone [demo_write ''a'' 1 None]"] by (simp add: demo_phone_def keys_unique_def)

text \<open>The server never sends an entry under the id \<open>i\<close>.\<close>

definition no_entry :: "string \<Rightarrow> json \<Rightarrow> bool" where
  "no_entry i changes \<longleftrightarrow>
     list_all (\<lambda>fs. \<exists>j. map_of fs ''id'' = Some (JStr j) \<and> j \<noteq> i) (changed_rows changes ''journal_entries'')"

definition never_sends :: "phone_env \<Rightarrow> string \<Rightarrow> bool" where
  "never_sends E i \<longleftrightarrow> (\<forall>h rq st w body changes. pe_answer E h rq = Response st w (Some body) \<longrightarrow>
     jget body ''changes'' = Some changes \<longrightarrow> no_entry i changes)"

definition has_entry :: "row \<Rightarrow> store \<Rightarrow> bool" where
  "has_entry r u \<longleftrightarrow> r \<in> set (tables u T_journal_entries)"

lemma map_of_bound:
  "map_of (bound_columns t fs) c = (if c \<in> set (getLocalColumns t) then map_option bind_value (map_of fs c) else None)"
  by (induction fs) (auto simp: bound_columns_def)

lemma entry_closed:
  assumes "no_entry i changes" "r ''id'' = SText i"
  shows "upsert_closed changes (has_entry r)"
  unfolding upsert_closed_def
proof (intro allI impI)
  fix t fs u rows
  assume fs: "fs \<in> set (changed_rows changes (table_name t))" and u: "has_entry r u"
    and up: "upsert t (bound_columns t fs) (tables u t) = Some rows"
  show "has_entry r (u\<lparr>tables := (tables u)(t := rows)\<rparr>)"
  proof (cases "t = T_journal_entries")
    case True
    then obtain j where j: "map_of fs ''id'' = Some (JStr j)" "j \<noteq> i"
      using assms(1) fs by (auto simp: no_entry_def list_all_iff)
    have "proposed_row T_journal_entries (bound_columns T_journal_entries fs) ''id'' = SText j"
      using j(1) by (simp add: proposed_row_def map_of_bound getLocalColumns_def bind_value_def)
    then have "row_key T_journal_entries r \<noteq> row_key T_journal_entries (proposed_row T_journal_entries (bound_columns T_journal_entries fs))"
      using assms(2) j(2) by (simp add: row_key_def)
    then have "r \<in> set rows" using upsert_other_rows up u True by (simp add: has_entry_def)
    then show ?thesis using True by (simp add: has_entry_def)
  qed (use u in \<open>simp add: has_entry_def\<close>)
qed

lemma confirm_other: "r ''id'' = SText i \<Longrightarrow> i \<notin> set ids \<Longrightarrow> has_entry r u \<Longrightarrow> has_entry r (confirm_entries ids u)"
  by (force simp: has_entry_def confirm_entries_def list_ex_iff image_iff)

lemma no_entry_ids: "no_entry i changes \<Longrightarrow> i \<notin> set (entry_ids changes)"
  by (auto simp: no_entry_def entry_ids_def list_all_iff js_String_def)

lemma keeps_entry_pull:
  assumes "never_sends E i" "r ''id'' = SText i"
  shows "keeps (on_store (has_entry r)) (pull_page E w getLocalColumns cursor)"
proof -
  let ?Q = "\<lambda>x. \<forall>body changes. x = Some body \<longrightarrow> jget body ''changes'' = Some changes \<longrightarrow> no_entry i changes"
  have q: "yields ?Q (apiFetch E (pull_request w cursor))"
  proof (rule yieldsI, intro allI impI)
    fix s x t body changes
    assume a: "apiFetch E (pull_request w cursor) s = (Inr x, t)" "x = Some body" "jget body ''changes'' = Some changes"
    obtain st w' b where "history t = history s @ [(pull_request w cursor, Response st w' b)]" "x = None \<or> x = b"
      using apiFetch_response [OF a(1)] by blast
    moreover have "\<exists>h. history t = history s \<or> history t = history s @ [(pull_request w cursor, pe_answer E h (pull_request w cursor))]"
      using apiFetch_history [OF a(1)] by blast
    ultimately obtain h where "pe_answer E h (pull_request w cursor) = Response st w' (Some body)" using a(2) by auto
    then show "no_entry i changes" using assms(1) a(3) unfolding never_sends_def by blast
  qed
  show ?thesis
    unfolding pull_page_def
  proof (rule keeps_bind_yields [OF keeps_on_store_same [OF guar_same_store_apiFetch] q])
    fix x
    assume x: "?Q x"
    have "keeps (on_store (has_entry r)) (apply_page E w getLocalColumns body changes)"
      if "x = Some body" "jget body ''changes'' = Some changes" for body changes
    proof -
      have n: "no_entry i changes" using x that by blast
      show ?thesis
      proof (rule keeps_apply_page [OF entry_closed [of i changes r, OF n assms(2)]])
        show "has_entry r (confirm_entries (entry_ids changes) u)" if "has_entry r u" for u
          by (rule confirm_other [of r i, OF assms(2) no_entry_ids [OF n] that])
        show "has_entry r (store_cursor w (response_cursor body) now u)" if "has_entry r u" for u now
          using that by (simp add: has_entry_def)
      qed
    qed
    then show "keeps (on_store (has_entry r)) (case x of None \<Rightarrow> api_throw (Js_error ''TypeError'')
     | Some body \<Rightarrow>
         (case jget body ''changes'' of
            None \<Rightarrow> api_throw (Js_error ''TypeError'')
          | Some changes \<Rightarrow>
              if changes = JNull then api_throw (Js_error ''TypeError'')
              else api_bind (apply_page E w getLocalColumns body changes) (\<lambda>_.
                api_return (response_cursor body,
                  (case jget body ''has_more'' of None \<Rightarrow> False | Some j \<Rightarrow> json_truthy j)))))"
      by (auto split: option.split intro!: keeps_if keeps_throw keeps_bind keeps_return)
  qed
qed

text \<open>
   An optimistic entry is reconciled only by a server row with the same id: as long as the server
  sends the transaction under an id of its own, which is what creation does, every sync run leaves
  the pending copy in the local ledger beside it.
\<close>

theorem pending_entry_survives:
  assumes "never_sends E i" "r ''id'' = SText i" "r \<in> set (tables (store s) T_journal_entries)"
  shows "r \<in> set (tables (store (snd (execute E w s))) T_journal_entries)"
proof -
  have "keeps (on_store (has_entry r)) (drain E w)"
    by (rule keeps_drain) (auto simp: has_entry_def update_mutation_def delete_mutation_def)
  then have "keeps (on_store (has_entry r)) (execute E w)"
    by (rule keeps_execute [OF _ keeps_entry_pull [of E i r, OF assms(1,2)]])
  then show ?thesis using assms(3) by (auto simp: keeps_def on_store_def has_entry_def)
qed

definition demo_row :: row where
  "demo_row = (\<lambda>_. Null)(''id'' := SText ''a'', ''is_pending'' := SInt 1)"

definition demo_phone_pending :: phone where
  "demo_phone_pending = (demo_phone [])\<lparr>store := \<lparr>queue = [], tables = (\<lambda>_. [])(T_journal_entries := [demo_row]), sync_metas = []\<rparr>\<rparr>"

theorem pending_entry_survives_witness:
  "demo_row \<in> set (tables (store (snd (execute demo_phone_env ''w1'' demo_phone_pending))) T_journal_entries)"
  by (rule pending_entry_survives [of _ "''a''"])
    (simp_all add: never_sends_def demo_phone_env_def demo_row_def demo_phone_pending_def)

text \<open>
  A workspace counts as synced after the first page: \<open>hasSynced\<close> answers true when the pull
  has more pages and the rest of it failed.
\<close>

theorem synced_before_complete:
  assumes "pull_page E w getLocalColumns cursor s = (Inr (c, True), t)"
  shows "fst (hasSynced w (t\<lparr>alive := True, faults := []\<rparr>)) = Inr True"
proof -
  obtain x u where u: "apiFetch E (pull_request w cursor) s = (Inr x, u)"
    using assms unfolding pull_page_def by (auto simp: api_bind_Inr)
  have "\<exists>body changes. apply_page E w getLocalColumns body changes u = (Inr (), t)"
  proof (cases x)
    case None
    then show ?thesis using assms u by (simp add: pull_page_def api_bind_def api_throw_def)
  next
    case (Some body)
    obtain changes where "jget body ''changes'' = Some changes" "changes \<noteq> JNull"
      using assms u Some
      by (cases "jget body ''changes''") (auto simp: pull_page_def api_bind_def api_throw_def split: if_splits)
    then have "api_bind (apply_page E w getLocalColumns body changes) (\<lambda>_.
                api_return (response_cursor body,
                  (case jget body ''has_more'' of None \<Rightarrow> False | Some j \<Rightarrow> json_truthy j))) u = (Inr (c, True), t)"
      using assms u Some by (simp add: pull_page_def api_bind_def)
    then obtain v u' where "apply_page E w getLocalColumns body changes u = (Inr v, u')" "u' = t"
      by (auto simp: api_bind_Inr api_return_def)
    then show ?thesis by auto
  qed
  then have "marked_synced w (store t)" using apply_page_commit by blast
  then show ?thesis by (simp add: hasSynced_def up_read up_def marked_synced_def)
qed

definition more_pages_env :: phone_env where
  "more_pages_env = demo_phone_env\<lparr>pe_answer := \<lambda>_ _. Response 200 ''OK''
     (Some (JObj [(''cursor'', JStr ''c1''), (''has_more'', JBool True), (''changes'', JObj [])]))\<rparr>"

theorem synced_before_complete_witness:
  "\<exists>t. pull_page more_pages_env ''w1'' getLocalColumns None (demo_phone []) = (Inr (Some ''c1'', True), t)
     \<and> fst (hasSynced ''w1'' (t\<lparr>alive := True, faults := []\<rparr>)) = Inr True"
proof -
  have tabs: "api_map (apply_table getLocalColumns (JObj [])) ts s = (Inr (map (\<lambda>_. ()) ts), s)" for ts s
    by (induction ts arbitrary: s) (simp_all add: apply_table_def Let_def changed_rows_def api_bind_def api_return_def)
  have "\<exists>t. pull_page more_pages_env ''w1'' getLocalColumns None (demo_phone []) = (Inr (Some ''c1'', True), t)"
    by (simp add: pull_page_def apiFetch_def external_def api_bind_def more_pages_env_def demo_phone_env_def
        truthy_def fetch_def demo_phone_def Let_def api_lift_def read_response_def response_ok_def apply_page_def
        with_transaction_def tabs entry_ids_def changed_rows_def api_return_def sql_write_def sql_def
        response_cursor_def json_truthy_def)
  then show ?thesis using synced_before_complete by blast
qed

end
