(* ===== verification/SyncServer.thy ===== *)
theory SyncServer
  imports Pagination Json "HOL-Library.Product_Lexorder"
begin

text \<open>
  \<open>apps/api/src/sync/sync.service.ts\<close>: the delta endpoint. A row is its time of last change, in
  microseconds, and its columns; the time is rendered to text by the database (\<open>se_render\<close>) and
  read back from text by it (\<open>se_pg_time\<close>). An opaque cursor is base64url of JSON text: it is kept
  as the JSON value it encodes, \<open>Encoded\<close>, and \<open>Plain\<close> is any text that does not decode.
\<close>

section \<open>Ascending keyset pages\<close>

text \<open>
  The contract between a source and a client that pulls it: a position stands for a key, a page
  holds the first rows behind it in key order, and the next position is the key of its last row.
\<close>

locale delta_source =
  fixes rows :: "'a list"
    and key :: "'a \<Rightarrow> 'k::linorder"
    and pkey :: "'p \<Rightarrow> 'k"
    and valid :: "'p \<Rightarrow> bool"
    and limit :: nat
    and serve :: "'p \<Rightarrow> 'a list \<times> bool \<times> 'p"
  assumes limit_pos: "0 < limit"
    and distinct_keys: "distinct (map key rows)"
    and serve_items: "valid p \<Longrightarrow> fst (serve p) = take limit (sort_key key [r \<leftarrow> rows. pkey p < key r])"
    and serve_more: "valid p \<Longrightarrow> fst (snd (serve p)) \<longleftrightarrow> limit < length [r \<leftarrow> rows. pkey p < key r]"
    and serve_valid: "valid p \<Longrightarrow> valid (snd (snd (serve p)))"
    and serve_next: "valid p \<Longrightarrow> fst (serve p) \<noteq> [] \<Longrightarrow> pkey (snd (snd (serve p))) = key (last (fst (serve p)))"
begin

definition behind :: "'p \<Rightarrow> 'a list" where
  "behind p = sort_key key [r \<leftarrow> rows. pkey p < key r]"

lemma set_behind: "set (behind p) = {r \<in> set rows. pkey p < key r}"
  by (auto simp: behind_def)

lemma behind_strict: "sorted_wrt (\<lambda>a b. key a < key b) (behind p)"
proof -
  have "sorted (map key (behind p))" by (simp add: behind_def)
  moreover have "distinct (map key (behind p))"
    using distinct_keys by (auto simp: behind_def distinct_map inj_on_def)
  ultimately have "sorted_wrt (<) (map key (behind p))" by (simp only: strict_sorted_iff)
  then show ?thesis by (simp only: sorted_wrt_map)
qed

lemma items: "valid p \<Longrightarrow> fst (serve p) = take limit (behind p)"
  by (simp add: serve_items behind_def)

lemma more: "valid p \<Longrightarrow> fst (snd (serve p)) \<longleftrightarrow> limit < length (behind p)"
  by (simp add: serve_more behind_def)

text \<open>What a page does not deliver is behind the next position.\<close>

lemma behind_next:
  assumes "valid p" "behind p \<noteq> []"
  shows "behind (snd (snd (serve p))) = drop limit (behind p)"
proof -
  let ?q = "snd (snd (serve p))" and ?n = "min limit (length (behind p))"
  have ne: "take limit (behind p) \<noteq> []" using assms(2) limit_pos by auto
  have last: "last (take limit (behind p)) = behind p ! (?n - 1)"
    using ne limit_pos by (simp add: last_conv_nth min.commute)
  have pkey: "pkey ?q = key (behind p ! (?n - 1))"
    using serve_next [OF assms(1)] items [OF assms(1)] ne last by simp
  have n: "0 < ?n" "?n \<le> length (behind p)" using limit_pos assms(2) by auto
  have in_q: "r \<in> set (behind ?q) \<longleftrightarrow> r \<in> set (drop limit (behind p))" for r
  proof
    assume r: "r \<in> set (drop limit (behind p))"
    then obtain i where i: "limit \<le> i" "i < length (behind p)" "r = behind p ! i"
      by (auto simp: in_set_conv_nth) (metis add.commute le_add1 less_diff_conv)
    then have "?n - 1 < i" using limit_pos by simp
    then have "key (behind p ! (?n - 1)) < key r"
      using behind_strict [of p] i by (simp add: sorted_wrt_iff_nth_less)
    moreover have "r \<in> set (behind p)" using r by (rule in_set_dropD)
    ultimately show "r \<in> set (behind ?q)" by (simp add: set_behind pkey)
  next
    assume "r \<in> set (behind ?q)"
    then have r: "r \<in> set rows" "key (behind p ! (?n - 1)) < key r" by (auto simp: set_behind pkey)
    have "behind p ! (?n - 1) \<in> set (behind p)" using n by (intro nth_mem) linarith
    then have "r \<in> set (behind p)" using r by (auto simp: set_behind)
    then obtain i where i: "i < length (behind p)" "r = behind p ! i" by (auto simp: in_set_conv_nth)
    have "\<not> i \<le> ?n - 1"
    proof
      assume "i \<le> ?n - 1"
      then have "i = ?n - 1 \<or> i < ?n - 1" by auto
      then have "key r \<le> key (behind p ! (?n - 1))"
        using behind_strict [of p] i n by (auto simp: sorted_wrt_iff_nth_less intro: less_imp_le)
      then show False using r(2) by simp
    qed
    then have "limit \<le> i" using i n by auto
    then have "drop limit (behind p) ! (i - limit) = r" "i - limit < length (drop limit (behind p))"
      using i by auto
    then show "r \<in> set (drop limit (behind p))" using nth_mem by blast
  qed
  show ?thesis
  proof (rule map_sorted_distinct_set_unique [where f = key])
    show "sorted (map key (behind ?q))" by (simp add: behind_def)
    have "sorted (map key (behind p))" by (simp add: behind_def)
    then show "sorted (map key (drop limit (behind p)))" by (simp add: drop_map [symmetric] sorted_wrt_drop)
    show "distinct (map key (behind ?q))"
      using distinct_keys by (auto simp: behind_def distinct_map inj_on_def)
    have "distinct (map key (behind p))"
      using distinct_keys by (auto simp: behind_def distinct_map inj_on_def)
    then show "distinct (map key (drop limit (behind p)))" by (simp add: drop_map [symmetric])
    show "set (behind ?q) = set (drop limit (behind p))" using in_q by blast
    show "inj_on key (set (behind ?q) \<union> set (drop limit (behind p)))"
    proof (rule inj_on_subset)
      show "inj_on key (set rows)" using distinct_keys by (simp add: distinct_map)
      show "set (behind ?q) \<union> set (drop limit (behind p)) \<subseteq> set rows"
        using set_drop_subset [of limit "behind p"] by (auto simp: set_behind)
    qed
  qed
qed

text \<open>No row is lost between two pages, and a page without \<open>more\<close> is the last one.\<close>

lemma nothing_lost:
  "valid p \<Longrightarrow> r \<in> set (behind p) \<Longrightarrow> r \<in> set (fst (serve p)) \<or> r \<in> set (behind (snd (snd (serve p))))"
proof -
  assume v: "valid p" and r: "r \<in> set (behind p)"
  have "set (behind p) = set (take limit (behind p)) \<union> set (drop limit (behind p))"
    by (metis append_take_drop_id set_append)
  moreover have "behind p \<noteq> []" using r by auto
  ultimately show ?thesis using r by (simp add: items [OF v] behind_next [OF v])
qed

lemma last_page: "valid p \<Longrightarrow> \<not> fst (snd (serve p)) \<Longrightarrow> fst (serve p) = behind p"
  by (simp add: items more)

lemma shrinks: "valid p \<Longrightarrow> fst (snd (serve p)) \<Longrightarrow> length (behind (snd (snd (serve p)))) < length (behind p)"
  using behind_next [of p] limit_pos by (cases "behind p = []") (auto simp: more)

text \<open>The pages of a client that pulls \<open>n\<close> times.\<close>

fun pulls :: "nat \<Rightarrow> 'p \<Rightarrow> 'a list" where
  "pulls 0 p = []"
| "pulls (Suc n) p = fst (serve p) @ (if fst (snd (serve p)) then pulls n (snd (snd (serve p))) else [])"

lemma pulls_complete: "valid p \<Longrightarrow> length (behind p) \<le> n * limit \<Longrightarrow> 0 < n \<Longrightarrow> pulls n p = behind p"
proof (induction n arbitrary: p)
  case (Suc n)
  show ?case
  proof (cases "fst (snd (serve p))")
    case True
    then have l: "limit < length (behind p)" using more Suc.prems by simp
    then have nx: "behind (snd (snd (serve p))) = drop limit (behind p)"
      using behind_next Suc.prems by fastforce
    have "0 < n" using l Suc.prems(2) by (cases n) auto
    then have "pulls n (snd (snd (serve p))) = drop limit (behind p)"
      using Suc.IH [OF serve_valid [OF Suc.prems(1)]] nx Suc.prems(2) by simp
    then show ?thesis using True items [OF Suc.prems(1)] by simp
  qed (use last_page Suc.prems in simp)
qed simp

end

section \<open>Sources and cursors\<close>

text \<open>The columns each table sends.\<close>

definition TABLES :: "(string \<times> string list) list" where
  "TABLES =
     [(''ledger_accounts'', [''id'', ''workspace_id'', ''name'', ''class'', ''subtype'', ''currency_code'',
        ''normal_balance'', ''include_in_budget'', ''include_in_net_worth'', ''opening_date'',
        ''archived_at'', ''deleted_at'', ''created_at'', ''updated_at'', ''version'']),
      (''categories'', [''id'', ''workspace_id'', ''ledger_account_id'', ''kind'', ''parent_id'',
        ''translation_key'', ''custom_name'', ''icon'', ''color'', ''sort_order'', ''archived_at'',
        ''deleted_at'', ''created_at'', ''updated_at'']),
      (''journal_entries'', [''id'', ''workspace_id'', ''entry_type'', ''occurred_at'', ''local_date'',
        ''payee'', ''note'', ''status'', ''source'', ''client_entry_id'', ''reverses_entry_id'',
        ''created_by'', ''posted_at'', ''created_at'', ''updated_at'', ''version'']),
      (''journal_postings'', [''id'', ''workspace_id'', ''journal_entry_id'', ''ledger_account_id'',
        ''debit_minor'', ''credit_minor'', ''currency_code'', ''base_amount_minor'', ''fx_rate'',
        ''memo'', ''created_at'', ''updated_at'']),
      (''tags'', [''id'', ''workspace_id'', ''name'', ''deleted_at'', ''created_at'', ''updated_at'']),
      (''journal_entry_tags'', [''journal_entry_id'', ''tag_id'', ''workspace_id'', ''created_at'', ''updated_at'']),
      (''notifications'', [''id'', ''user_id'', ''workspace_id'', ''category'', ''severity'', ''title_en'',
        ''title_bn'', ''body_en'', ''body_bn'', ''action_url'', ''resource_type'', ''resource_id'',
        ''metadata'', ''read_at'', ''archived_at'', ''expires_at'', ''created_at'', ''updated_at'', ''deleted_at''])]"

definition columns_of :: "string \<Rightarrow> string list" where
  "columns_of t = (case map_of TABLES t of None \<Rightarrow> [] | Some cs \<Rightarrow> cs)"

definition DEFAULT_LIMIT :: nat where "DEFAULT_LIMIT = 500"

definition ZERO_UUID :: string where "ZERO_UUID = ''00000000-0000-0000-0000-000000000000''"

record sync_source =
  src_name :: string
  src_table :: string
  src_keys :: "string list"

definition SOURCES :: "sync_source list" where
  "SOURCES =
     [\<lparr>src_name = ''ledger_accounts'', src_table = ''ledger_accounts'', src_keys = [''id'']\<rparr>,
      \<lparr>src_name = ''categories'', src_table = ''categories'', src_keys = [''id'']\<rparr>,
      \<lparr>src_name = ''journal_entries'', src_table = ''journal_entries'', src_keys = [''id'']\<rparr>,
      \<lparr>src_name = ''journal_postings'', src_table = ''journal_postings'', src_keys = [''id'']\<rparr>,
      \<lparr>src_name = ''tags'', src_table = ''tags'', src_keys = [''id'']\<rparr>,
      \<lparr>src_name = ''journal_entry_tags'', src_table = ''journal_entry_tags'',
       src_keys = [''journal_entry_id'', ''tag_id'']\<rparr>,
      \<lparr>src_name = ''system_categories'', src_table = ''categories'', src_keys = [''id'']\<rparr>,
      \<lparr>src_name = ''notifications'', src_table = ''notifications'', src_keys = [''id'']\<rparr>]"

text \<open>The two regular expressions, on the whole text.\<close>

definition hex_digit :: "char \<Rightarrow> bool" where
  "hex_digit c \<longleftrightarrow> is_digit c \<or> 97 \<le> cu c \<and> cu c \<le> 102 \<or> 65 \<le> cu c \<and> cu c \<le> 70"

text \<open>A pattern is a list of character classes; \<open>matches\<close> is a match of exactly that length.\<close>

definition matches :: "(char \<Rightarrow> bool) list \<Rightarrow> string \<Rightarrow> bool" where
  "matches ps s \<longleftrightarrow> length s = length ps \<and> list_all (\<lambda>(p, c). p c) (zip ps s)"

definition UUID_PATTERN :: "string \<Rightarrow> bool" where
  "UUID_PATTERN = matches (replicate 8 hex_digit @ [(=) CHR ''-''] @ replicate 4 hex_digit @ [(=) CHR ''-'']
     @ replicate 4 hex_digit @ [(=) CHR ''-''] @ replicate 4 hex_digit @ [(=) CHR ''-''] @ replicate 12 hex_digit)"

definition iso_seconds :: "(char \<Rightarrow> bool) list" where
  "iso_seconds = replicate 4 is_digit @ [(=) CHR ''-''] @ replicate 2 is_digit @ [(=) CHR ''-'']
     @ replicate 2 is_digit @ [(=) CHR ''T''] @ replicate 2 is_digit @ [(=) CHR '':''] @ replicate 2 is_digit
     @ [(=) CHR '':''] @ replicate 2 is_digit"

definition ISO_TIMESTAMP_PATTERN :: "string \<Rightarrow> bool" where
  "ISO_TIMESTAMP_PATTERN s \<longleftrightarrow> matches (iso_seconds @ [(=) CHR ''Z'']) s
     \<or> list_ex (\<lambda>n. matches (iso_seconds @ [(=) CHR ''.''] @ replicate n is_digit @ [(=) CHR ''Z'']) s) [1..<7]"

record position =
  pos_updated_at :: string
  pos_key :: "string list"

text \<open>
  The position of a source in a decoded cursor: absent (also \<open>null\<close>), a checked position, or
  another falsy value, which the check skips and the query then trips over.
\<close>

datatype slot = Absent | At position | Falsy

type_synonym sync_cursor = "string \<Rightarrow> slot"

datatype cursor_text = Plain string | Encoded json

record sync_env =
  se_now :: string
  se_render :: "nat \<Rightarrow> string"
  se_pg_time :: "string \<Rightarrow> nat option"
  se_js_date :: "string \<Rightarrow> bool"

definition zero_key :: "sync_source \<Rightarrow> string list" where
  "zero_key src = map (\<lambda>_. ZERO_UUID) (src_keys src)"

definition position_json :: "position \<Rightarrow> json" where
  "position_json p = JObj [(''updated_at'', JStr (pos_updated_at p)), (''key'', JArr (map JStr (pos_key p)))]"

text \<open>The cursor \<open>next\<close> of a reply has a position for every source.\<close>

definition encodeCursor :: "(string \<times> position) list \<Rightarrow> cursor_text" where
  "encodeCursor ps = Encoded (JObj [(''v'', JInt 1),
     (''sources'', JObj (map (\<lambda>(n, p). (n, position_json p)) ps))])"

definition stalled :: api_exn where
  "stalled = Bad_request ''SYNC_CURSOR_STALLED'' ''The sync cursor is invalid or unsupported. Start a full pull.''"

definition read_position :: "sync_env \<Rightarrow> sync_source \<Rightarrow> json \<Rightarrow> position option" where
  "read_position E src j =
     (let t = js_String (jget j ''updated_at'') in
      if \<not> ISO_TIMESTAMP_PATTERN t \<or> \<not> se_js_date E t then None
      else (case jget j ''key'' of
          Some (JArr ks) \<Rightarrow>
            let key = map js_String_value ks in
            if length key \<noteq> length (src_keys src) \<or> \<not> list_all UUID_PATTERN key then None
            else Some \<lparr>pos_updated_at = t, pos_key = key\<rparr>
        | _ \<Rightarrow> None))"

definition read_slot :: "sync_env \<Rightarrow> json \<Rightarrow> sync_source \<Rightarrow> slot option" where
  "read_slot E sources src =
     (case jget sources (src_name src) of
        None \<Rightarrow> Some Absent
      | Some JNull \<Rightarrow> Some Absent
      | Some j \<Rightarrow> if \<not> json_truthy j then Some Falsy
          else (case read_position E src j of None \<Rightarrow> None | Some p \<Rightarrow> Some (At p)))"

definition is_object :: "json \<Rightarrow> bool" where
  "is_object j = (case j of JArr _ \<Rightarrow> True | JObj _ \<Rightarrow> True | _ \<Rightarrow> False)"

definition decode_json :: "sync_env \<Rightarrow> json \<Rightarrow> api_exn + sync_cursor" where
  "decode_json E parsed =
     (if jget parsed ''v'' \<noteq> Some (JInt 1) then Inl stalled
      else (case jget parsed ''sources'' of
        None \<Rightarrow> Inl stalled
      | Some sources \<Rightarrow>
          if \<not> is_object sources \<or> \<not> list_all (\<lambda>src. read_slot E sources src \<noteq> None) SOURCES then Inl stalled
          else Inr (\<lambda>n. case find (\<lambda>src. src_name src = n) SOURCES of
                 None \<Rightarrow> Absent | Some src \<Rightarrow> the (read_slot E sources src))))"

definition decodeCursor ::
    "sync_env \<Rightarrow> cursor_text option \<Rightarrow> string option \<Rightarrow> api_exn + sync_cursor" where
  "decodeCursor E raw legacySince =
     (case (case raw of Some c \<Rightarrow> Some c | None \<Rightarrow> map_option Plain legacySince) of
        None \<Rightarrow> Inr (\<lambda>_. Absent)
      | Some (Encoded j) \<Rightarrow> decode_json E j
      | Some (Plain t) \<Rightarrow>
          if t = [] then Inr (\<lambda>_. Absent)
          else if raw = None \<and> ISO_TIMESTAMP_PATTERN t \<and> se_js_date E t
          then Inr (\<lambda>n. case find (\<lambda>src. src_name src = n) SOURCES of
                 None \<Rightarrow> Absent | Some src \<Rightarrow> At \<lparr>pos_updated_at = t, pos_key = zero_key src\<rparr>)
          else Inl stalled)"

section \<open>The filter of a source\<close>

datatype cond = Is_gt string string | Is_eq string string | All_of "cond list"

definition key_at :: "position \<Rightarrow> nat \<Rightarrow> string" where
  "key_at p i = (if i < length (pos_key p) then pos_key p ! i else ZERO_UUID)"

definition afterFilter :: "position \<Rightarrow> string list \<Rightarrow> cond list" where
  "afterFilter p keys =
     Is_gt ''updated_at'' (pos_updated_at p)
     # map (\<lambda>i. All_of ([Is_eq ''updated_at'' (pos_updated_at p)]
                  @ map (\<lambda>j. Is_eq (keys ! j) (key_at p j)) [0..<i] @ [Is_gt (keys ! i) (key_at p i)]))
         [0..<length keys]"

text \<open>The text PostgREST receives.\<close>

fun cond_text :: "cond \<Rightarrow> string" where
  "cond_text (Is_gt c v) = c @ ''.gt.'' @ v"
| "cond_text (Is_eq c v) = c @ ''.eq.'' @ v"
| "cond_text (All_of cs) = ''and('' @ js_join '','' (map cond_text cs) @ '')''"

record srow =
  sr_time :: nat
  sr_fields :: fields

definition column_value :: "srow \<Rightarrow> string \<Rightarrow> string" where
  "column_value r c = js_String (map_of (sr_fields r) c)"

text \<open>How the database reads a condition: \<open>updated_at\<close> compares as time, keys as uuids.\<close>

fun holds :: "(string \<Rightarrow> nat option) \<Rightarrow> srow \<Rightarrow> cond \<Rightarrow> bool" where
  "holds pgt r (Is_gt c v) =
     (if c = ''updated_at'' then (case pgt v of None \<Rightarrow> False | Some t \<Rightarrow> t < sr_time r) else v < column_value r c)"
| "holds pgt r (Is_eq c v) =
     (if c = ''updated_at'' then pgt v = Some (sr_time r) else column_value r c = v)"
| "holds pgt r (All_of cs) = list_all (holds pgt r) cs"

definition srow_key :: "sync_source \<Rightarrow> srow \<Rightarrow> nat \<times> string list" where
  "srow_key src r = (sr_time r, map (column_value r) (src_keys src))"

definition in_source :: "sync_source \<Rightarrow> string \<Rightarrow> srow \<Rightarrow> bool" where
  "in_source src w r =
     (let ws = map_of (sr_fields r) ''workspace_id'' in
      if src_name src = ''system_categories'' then ws = Some JNull
      else if src_name src = ''notifications'' then ws = Some (JStr w) \<or> ws = Some JNull
      else ws = Some (JStr w))"

section \<open>The delta\<close>

definition row_json :: "sync_env \<Rightarrow> string \<Rightarrow> srow \<Rightarrow> fields" where
  "row_json E t r = map (\<lambda>c. (c,
     if c = ''updated_at'' then JStr (se_render E (sr_time r))
     else (case map_of (sr_fields r) c of None \<Rightarrow> JNull | Some v \<Rightarrow> v))) (columns_of t)"

text \<open>One statement: the rows behind a position in key order, at most \<open>limit + 1\<close> of them.\<close>

definition query_source ::
    "sync_env \<Rightarrow> (string \<Rightarrow> srow list) \<Rightarrow> string \<Rightarrow> sync_source \<Rightarrow> nat \<Rightarrow> position \<Rightarrow> srow list" where
  "query_source E visible w src limit p =
     take (limit + 1) (sort_key (srow_key src)
       [r \<leftarrow> visible (src_table src). in_source src w r
          \<and> list_ex (holds (se_pg_time E) r) (afterFilter p (src_keys src))])"

definition next_position :: "sync_env \<Rightarrow> sync_source \<Rightarrow> srow list \<Rightarrow> position" where
  "next_position E src rows =
     (if rows = [] then \<lparr>pos_updated_at = se_now E, pos_key = zero_key src\<rparr>
      else \<lparr>pos_updated_at = se_render E (sr_time (last rows)),
            pos_key = map (column_value (last rows)) (src_keys src)\<rparr>)"

definition source_page ::
    "sync_env \<Rightarrow> (string \<Rightarrow> srow list) \<Rightarrow> string \<Rightarrow> sync_source \<Rightarrow> nat \<Rightarrow> position \<Rightarrow> srow list \<times> bool \<times> position" where
  "source_page E visible w src limit p =
     (let fetched = query_source E visible w src limit p; rows = take limit fetched in
      (rows, limit < length fetched, next_position E src rows))"

record sync_query =
  q_cursor :: "cursor_text option"
  q_since :: "string option"
  q_limit :: "nat option"

record sync_response =
  rs_cursor :: cursor_text
  rs_has_more :: bool
  rs_server_time :: string
  rs_changes :: "(string \<times> fields list) list"

definition start_position :: "string option \<Rightarrow> sync_source \<Rightarrow> position" where
  "start_position since src =
     \<lparr>pos_updated_at = (case since of None \<Rightarrow> ''1970-01-01T00:00:00.000Z'' | Some t \<Rightarrow> t),
      pos_key = zero_key src\<rparr>"

definition output_name :: "sync_source \<Rightarrow> string" where
  "output_name src = (if src_name src = ''system_categories'' then ''categories'' else src_name src)"

fun add_changes :: "string \<Rightarrow> fields list \<Rightarrow> (string \<times> fields list) list \<Rightarrow> (string \<times> fields list) list" where
  "add_changes n rows [] = [(n, rows)]"
| "add_changes n rows ((m, old) # cs) =
     (if m = n then (m, old @ rows) # cs else (m, old) # add_changes n rows cs)"

text \<open>
  The loop over the sources; \<open>fails\<close> says for which of them the statement fails. It also fails where
  the text of a position is not a time for the database.
\<close>

fun pull_sources ::
    "sync_env \<Rightarrow> (string \<Rightarrow> srow list) \<Rightarrow> (string \<Rightarrow> bool) \<Rightarrow> string \<Rightarrow> string option \<Rightarrow> nat \<Rightarrow> sync_cursor
      \<Rightarrow> sync_source list \<Rightarrow> (string \<times> position) list \<Rightarrow> bool \<Rightarrow> (string \<times> fields list) list
      \<Rightarrow> api_exn + (string \<times> position) list \<times> bool \<times> (string \<times> fields list) list" where
  "pull_sources E visible fails w since limit cursor [] nx anymore changes = Inr (nx, anymore, changes)"
| "pull_sources E visible fails w since limit cursor (src # srcs) nx anymore changes =
     (case cursor (src_name src) of
        Falsy \<Rightarrow> Inl (Js_error ''TypeError'')
      | slot \<Rightarrow>
          let p = (case slot of At p \<Rightarrow> p | _ \<Rightarrow> start_position since src) in
          if fails (src_name src) \<or> se_pg_time E (pos_updated_at p) = None
          then Inl (Bad_request ''SYNC_FAILED'' (''Failed to read changes for '' @ src_name src))
          else (case source_page E visible w src limit p of (rows, m, p') \<Rightarrow>
            pull_sources E visible fails w since limit cursor srcs (nx @ [(src_name src, p')]) (anymore \<or> m)
              (add_changes (output_name src) (map (row_json E (src_table src)) rows) changes)))"

definition getDelta ::
    "sync_env \<Rightarrow> (string \<Rightarrow> srow list) \<Rightarrow> (string \<Rightarrow> bool) \<Rightarrow> string \<Rightarrow> sync_query \<Rightarrow> api_exn + sync_response" where
  "getDelta E visible fails w q =
     (let limit = (case q_limit q of None \<Rightarrow> DEFAULT_LIMIT | Some l \<Rightarrow> l) in
      case decodeCursor E (q_cursor q) (q_since q) of
        Inl e \<Rightarrow> Inl e
      | Inr cursor \<Rightarrow>
          (case pull_sources E visible fails w (q_since q) limit cursor SOURCES [] False [] of
             Inl e \<Rightarrow> Inl e
           | Inr (nx, anymore, changes) \<Rightarrow>
               Inr \<lparr>rs_cursor = encodeCursor nx, rs_has_more = anymore, rs_server_time = se_now E,
                    rs_changes = changes\<rparr>))"

section \<open>The filter is the order of the rows\<close>

lemma list_less_nth:
  fixes a b :: "'a::linorder list"
  shows "length a = length b \<Longrightarrow> a < b \<longleftrightarrow> (\<exists>i < length a. (\<forall>j < i. a ! j = b ! j) \<and> a ! i < b ! i)"
proof (induction a b rule: list_induct2)
  case (Cons x xs y ys)
  have "(\<exists>i < Suc (length xs). (\<forall>j < i. (x # xs) ! j = (y # ys) ! j) \<and> (x # xs) ! i < (y # ys) ! i)
      \<longleftrightarrow> x < y \<or> x = y \<and> (\<exists>i < length xs. (\<forall>j < i. xs ! j = ys ! j) \<and> xs ! i < ys ! i)"
    (is "?l \<longleftrightarrow> ?r")
  proof
    assume ?l
    then obtain i where i: "i < Suc (length xs)" "\<forall>j < i. (x # xs) ! j = (y # ys) ! j" "(x # xs) ! i < (y # ys) ! i"
      by blast
    show ?r
    proof (cases i)
      case (Suc k)
      then have "x = y" "\<forall>j < k. xs ! j = ys ! j" using i(2) by fastforce+
      then show ?thesis using i Suc by auto
    qed (use i in simp)
  next
    assume ?r
    then show ?l
    proof
      assume "x < y"
      then show ?thesis by (intro exI [of _ 0]) simp
    next
      assume "x = y \<and> (\<exists>i < length xs. (\<forall>j < i. xs ! j = ys ! j) \<and> xs ! i < ys ! i)"
      then obtain k where "x = y" "k < length xs" "\<forall>j < k. xs ! j = ys ! j" "xs ! k < ys ! k" by blast
      then show ?thesis by (intro exI [of _ "Suc k"]) (auto simp: less_Suc_eq_0_disj)
    qed
  qed
  then show ?case using Cons by (simp add: list_less_def [symmetric])
qed simp

lemma key_at_nth: "i < length (pos_key p) \<Longrightarrow> key_at p i = pos_key p ! i"
  by (simp add: key_at_def)

lemma after_filter_order:
  assumes "pgt (pos_updated_at p) = Some t" "length (pos_key p) = length keys" "''updated_at'' \<notin> set keys"
  shows "list_ex (holds pgt r) (afterFilter p keys) \<longleftrightarrow> (t, pos_key p) < (sr_time r, map (column_value r) keys)"
proof -
  have eq: "holds pgt r (All_of ([Is_eq ''updated_at'' (pos_updated_at p)]
        @ map (\<lambda>j. Is_eq (keys ! j) (key_at p j)) [0..<i] @ [Is_gt (keys ! i) (key_at p i)]))
      \<longleftrightarrow> t = sr_time r \<and> (\<forall>j < i. pos_key p ! j = map (column_value r) keys ! j)
        \<and> pos_key p ! i < map (column_value r) keys ! i" if "i < length keys" for i
  proof -
    have ne: "keys ! j \<noteq> ''updated_at''" if "j < length keys" for j
      using assms(3) nth_mem [OF that] by metis
    show ?thesis using that assms(1,2) ne by (auto simp: list_all_iff key_at_nth)
  qed
  let ?c = "\<lambda>i. All_of ([Is_eq ''updated_at'' (pos_updated_at p)]
        @ map (\<lambda>j. Is_eq (keys ! j) (key_at p j)) [0..<i] @ [Is_gt (keys ! i) (key_at p i)])"
  have "list_ex (holds pgt r) (map ?c [0..<length keys]) \<longleftrightarrow> (\<exists>i < length keys. holds pgt r (?c i))"
    by (auto simp only: list_ex_iff set_map set_upt image_iff atLeastLessThan_iff) auto
  also have "... \<longleftrightarrow> (\<exists>i < length keys. t = sr_time r \<and> (\<forall>j < i. pos_key p ! j = map (column_value r) keys ! j)
        \<and> pos_key p ! i < map (column_value r) keys ! i)"
    using eq by blast
  also have "... \<longleftrightarrow> t = sr_time r \<and> pos_key p < map (column_value r) keys"
    using list_less_nth [of "pos_key p" "map (column_value r) keys"] assms(2) by auto
  finally show ?thesis
    using assms(1) by (auto simp: afterFilter_def less_prod_def less_eq_prod_def)
qed

section \<open>A source keeps the contract\<close>

definition source_rows :: "(string \<Rightarrow> srow list) \<Rightarrow> string \<Rightarrow> sync_source \<Rightarrow> srow list" where
  "source_rows visible w src = [r \<leftarrow> visible (src_table src). in_source src w r]"

definition pos_time :: "sync_env \<Rightarrow> position \<Rightarrow> nat \<times> string list" where
  "pos_time E p = (the (se_pg_time E (pos_updated_at p)), pos_key p)"

text \<open>
  What is relied on: the database reads back the times it rendered and the server's clock, and the
  key columns of a row identify it.
\<close>

definition source_ok :: "sync_env \<Rightarrow> (string \<Rightarrow> srow list) \<Rightarrow> string \<Rightarrow> sync_source \<Rightarrow> bool" where
  "source_ok E visible w src \<longleftrightarrow> se_pg_time E (se_now E) \<noteq> None
     \<and> list_all (\<lambda>r. se_pg_time E (se_render E (sr_time r)) = Some (sr_time r)) (source_rows visible w src)
     \<and> distinct (map (srow_key src) (source_rows visible w src)) \<and> ''updated_at'' \<notin> set (src_keys src)"

definition pos_ok :: "sync_env \<Rightarrow> sync_source \<Rightarrow> position \<Rightarrow> bool" where
  "pos_ok E src p \<longleftrightarrow> se_pg_time E (pos_updated_at p) \<noteq> None \<and> length (pos_key p) = length (src_keys src)"

definition good_rows :: "sync_env \<Rightarrow> (string \<Rightarrow> srow list) \<Rightarrow> string \<Rightarrow> sync_source \<Rightarrow> srow list" where
  "good_rows E visible w src = (if source_ok E visible w src then source_rows visible w src else [])"

lemma query_source_eq:
  assumes "source_ok E visible w src" "pos_ok E src p"
  shows "query_source E visible w src l p
    = take (l + 1) (sort_key (srow_key src) [r \<leftarrow> source_rows visible w src. pos_time E p < srow_key src r])"
proof -
  obtain t where "se_pg_time E (pos_updated_at p) = Some t" using assms(2) by (auto simp: pos_ok_def)
  then have "list_ex (holds (se_pg_time E) r) (afterFilter p (src_keys src)) \<longleftrightarrow> pos_time E p < srow_key src r" for r
    using after_filter_order [of "se_pg_time E" p t "src_keys src" r] assms
    by (simp add: pos_ok_def source_ok_def pos_time_def srow_key_def)
  then show ?thesis by (simp add: query_source_def source_rows_def)
qed

lemma query_subset: "set (query_source E visible w src l p) \<subseteq> set (source_rows visible w src)"
  by (auto simp: query_source_def source_rows_def dest!: in_set_takeD)

lemma page_subset: "set (fst (source_page E visible w src l p)) \<subseteq> set (source_rows visible w src)"
  using query_subset [of E visible w src l p] by (auto simp: source_page_def Let_def dest!: in_set_takeD)

lemma page_next:
  "snd (snd (source_page E visible w src l p)) = next_position E src (fst (source_page E visible w src l p))"
  by (simp add: source_page_def Let_def)

lemma read_last_time:
  assumes "source_ok E visible w src" "fst (source_page E visible w src l p) \<noteq> []"
  shows "se_pg_time E (se_render E (sr_time (last (fst (source_page E visible w src l p)))))
    = Some (sr_time (last (fst (source_page E visible w src l p))))"
proof -
  have "last (fst (source_page E visible w src l p)) \<in> set (source_rows visible w src)"
    using page_subset last_in_set [OF assms(2)] by blast
  then show ?thesis using assms(1) by (simp add: source_ok_def list_all_iff)
qed

lemma next_ok:
  assumes "source_ok E visible w src"
  shows "pos_ok E src (snd (snd (source_page E visible w src l p)))"
  using assms read_last_time [OF assms, of l p]
  by (auto simp: page_next pos_ok_def source_ok_def next_position_def zero_key_def)

lemma next_time:
  assumes "source_ok E visible w src" "fst (source_page E visible w src l p) \<noteq> []"
  shows "pos_time E (snd (snd (source_page E visible w src l p)))
    = srow_key src (last (fst (source_page E visible w src l p)))"
  using assms(2) read_last_time [OF assms] by (simp add: page_next pos_time_def next_position_def srow_key_def)

interpretation sync_source:
  delta_source "good_rows E visible w src" "srow_key src" "pos_time E"
    "\<lambda>p. source_ok E visible w src \<and> pos_ok E src p" "Suc l" "source_page E visible w src (Suc l)"
proof
  fix p
  assume v: "source_ok E visible w src \<and> pos_ok E src p"
  let ?b = "[r \<leftarrow> good_rows E visible w src. pos_time E p < srow_key src r]"
  have q: "query_source E visible w src (Suc l) p = take (Suc l + 1) (sort_key (srow_key src) ?b)"
    using query_source_eq v by (simp add: good_rows_def)
  show "fst (source_page E visible w src (Suc l) p) = take (Suc l) (sort_key (srow_key src) ?b)"
    by (simp add: source_page_def Let_def q min_def)
  show "fst (snd (source_page E visible w src (Suc l) p)) \<longleftrightarrow> Suc l < length ?b"
    by (auto simp: source_page_def Let_def q)
  show "source_ok E visible w src \<and> pos_ok E src (snd (snd (source_page E visible w src (Suc l) p)))"
    using v next_ok by blast
  show "pos_time E (snd (snd (source_page E visible w src (Suc l) p)))
      = srow_key src (last (fst (source_page E visible w src (Suc l) p)))"
    if "fst (source_page E visible w src (Suc l) p) \<noteq> []"
    using that v next_time by blast
qed (auto simp: good_rows_def source_ok_def)

section \<open>Cursors\<close>

definition position_wf :: "sync_env \<Rightarrow> sync_source \<Rightarrow> position \<Rightarrow> bool" where
  "position_wf E src p \<longleftrightarrow> ISO_TIMESTAMP_PATTERN (pos_updated_at p) \<and> se_js_date E (pos_updated_at p)
     \<and> length (pos_key p) = length (src_keys src) \<and> list_all UUID_PATTERN (pos_key p)"

definition all_positions :: "(sync_source \<Rightarrow> position) \<Rightarrow> (string \<times> position) list" where
  "all_positions f = map (\<lambda>src. (src_name src, f src)) SOURCES"

definition cursor_at :: "(sync_source \<Rightarrow> position) \<Rightarrow> sync_cursor" where
  "cursor_at f n = (case find (\<lambda>src. src_name src = n) SOURCES of None \<Rightarrow> Absent | Some src \<Rightarrow> At (f src))"

lemma source_names_distinct: "distinct (map src_name SOURCES)"
  by code_simp

lemma find_by_key: "distinct (map f xs) \<Longrightarrow> x \<in> set xs \<Longrightarrow> find (\<lambda>y. f y = f x) xs = Some x"
  by (induction xs) (auto simp: image_iff)

lemma map_of_by_key: "distinct (map f xs) \<Longrightarrow> x \<in> set xs \<Longrightarrow> map_of (map (\<lambda>y. (f y, g y)) xs) (f x) = Some (g x)"
  by (induction xs) (auto simp: image_iff)

lemmas find_source = find_by_key [OF source_names_distinct]

lemma read_position_json:
  "read_position E src (position_json p) = (if position_wf E src p then Some p else None)"
  by (auto simp: read_position_def position_json_def position_wf_def js_String_def Let_def o_def)

lemma map_of_sources:
  "src \<in> set SOURCES \<Longrightarrow> map_of (map (\<lambda>s. (src_name s, position_json (f s))) SOURCES) (src_name src) = Some (position_json (f src))"
  by (rule map_of_by_key [OF source_names_distinct])

lemma read_slot_encoded:
  assumes "src \<in> set SOURCES"
  shows "read_slot E (JObj (map (\<lambda>(n, p). (n, position_json p)) (all_positions f))) src
    = (if position_wf E src (f src) then Some (At (f src)) else None)"
proof -
  obtain fs where fs: "position_json (f src) = JObj fs" by (simp add: position_json_def)
  have "jget (JObj (map (\<lambda>(n, p). (n, position_json p)) (all_positions f))) (src_name src) = Some (JObj fs)"
    using map_of_sources [OF assms, of f] by (simp add: all_positions_def o_def fs)
  then show ?thesis using read_position_json [of E src "f src"]
    by (simp add: read_slot_def json_truthy_def fs)
qed

lemma decode_encoded:
  "decodeCursor E (Some (encodeCursor (all_positions f))) since =
     (if list_all (\<lambda>src. position_wf E src (f src)) SOURCES then Inr (cursor_at f) else Inl stalled)"
proof -
  let ?s = "JObj (map (\<lambda>(n, p). (n, position_json p)) (all_positions f))"
  have all: "list_all (\<lambda>src. read_slot E ?s src \<noteq> None) SOURCES \<longleftrightarrow> list_all (\<lambda>src. position_wf E src (f src)) SOURCES"
    using read_slot_encoded by (auto simp: list_all_iff)
  have "(\<lambda>n. case find (\<lambda>src. src_name src = n) SOURCES of None \<Rightarrow> Absent | Some src \<Rightarrow> the (read_slot E ?s src))
      = cursor_at f" if "list_all (\<lambda>src. position_wf E src (f src)) SOURCES"
  proof
    fix n
    show "(case find (\<lambda>src. src_name src = n) SOURCES of None \<Rightarrow> Absent | Some src \<Rightarrow> the (read_slot E ?s src)) = cursor_at f n"
    proof (cases "find (\<lambda>src. src_name src = n) SOURCES")
      case (Some src)
      then have "src \<in> set SOURCES" by (auto simp: find_Some_iff)
      then show ?thesis using that read_slot_encoded [of src E f] Some by (simp add: cursor_at_def list_all_iff)
    qed (simp add: cursor_at_def)
  qed
  then show ?thesis
    using all by (simp add: decodeCursor_def encodeCursor_def decode_json_def is_object_def)
qed

section \<open>A client that follows the cursor\<close>

abbreviation page_request :: "nat \<Rightarrow> cursor_text option \<Rightarrow> sync_query" where
  "page_request l c \<equiv> \<lparr>q_cursor = c, q_since = None, q_limit = Some l\<rparr>"

text \<open>At most \<open>n\<close> pulls; \<open>None\<close> when one fails or more pages remain.\<close>

fun pull_pages ::
    "nat \<Rightarrow> (cursor_text option \<Rightarrow> api_exn + sync_response) \<Rightarrow> cursor_text option
      \<Rightarrow> (string \<times> fields list) list list option" where
  "pull_pages 0 serve c = None"
| "pull_pages (Suc n) serve c =
     (case serve c of
        Inl e \<Rightarrow> None
      | Inr r \<Rightarrow>
          if rs_has_more r then map_option ((#) (rs_changes r)) (pull_pages n serve (Some (rs_cursor r)))
          else Some [rs_changes r])"

definition delivered :: "(string \<times> fields list) list list \<Rightarrow> string \<Rightarrow> fields set" where
  "delivered pages n = (\<Union>cs \<in> set pages. case map_of cs n of None \<Rightarrow> {} | Some rows \<Rightarrow> set rows)"

definition rows_behind ::
    "sync_env \<Rightarrow> (string \<Rightarrow> srow list) \<Rightarrow> string \<Rightarrow> sync_source \<Rightarrow> position \<Rightarrow> srow list" where
  "rows_behind E visible w src p =
     sort_key (srow_key src) [r \<leftarrow> good_rows E visible w src. pos_time E p < srow_key src r]"

lemma behind_eq: "delta_source.behind (good_rows E visible w src) (srow_key src) (pos_time E) = rows_behind E visible w src"
  by (rule ext) (simp add: sync_source.behind_def rows_behind_def)

lemmas source_last_page = sync_source.last_page [unfolded behind_eq]
  and source_nothing_lost = sync_source.nothing_lost [unfolded behind_eq]
  and source_shrinks = sync_source.shrinks [unfolded behind_eq]
  and source_behind_next = sync_source.behind_next [unfolded behind_eq]
  and source_items = sync_source.items [unfolded behind_eq]

text \<open>The environment a pull relies on.\<close>

definition sync_good :: "sync_env \<Rightarrow> (string \<Rightarrow> srow list) \<Rightarrow> string \<Rightarrow> bool" where
  "sync_good E visible w \<longleftrightarrow>
     ISO_TIMESTAMP_PATTERN (se_now E) \<and> se_js_date E (se_now E) \<and> se_pg_time E (se_now E) \<noteq> None
   \<and> se_pg_time E ''1970-01-01T00:00:00.000Z'' = Some 0
   \<and> list_all (\<lambda>src. distinct (map (srow_key src) (source_rows visible w src))
        \<and> list_all (\<lambda>r. ISO_TIMESTAMP_PATTERN (se_render E (sr_time r)) \<and> se_js_date E (se_render E (sr_time r))
             \<and> se_pg_time E (se_render E (sr_time r)) = Some (sr_time r) \<and> 0 < sr_time r \<and> sr_time r < the (se_pg_time E (se_now E))
             \<and> list_all UUID_PATTERN (map (column_value r) (src_keys src))) (source_rows visible w src)) SOURCES"

lemma no_key_updated_at: "src \<in> set SOURCES \<Longrightarrow> ''updated_at'' \<notin> set (src_keys src)"
  by (auto simp: SOURCES_def)

lemma good_source_ok: "sync_good E visible w \<Longrightarrow> src \<in> set SOURCES \<Longrightarrow> source_ok E visible w src"
  using no_key_updated_at by (simp add: sync_good_def source_ok_def list_all_iff)

lemma good_rows_eq: "sync_good E visible w \<Longrightarrow> src \<in> set SOURCES \<Longrightarrow> good_rows E visible w src = source_rows visible w src"
  by (simp add: good_rows_def good_source_ok)

definition next_of ::
    "sync_env \<Rightarrow> (string \<Rightarrow> srow list) \<Rightarrow> string \<Rightarrow> nat \<Rightarrow> (sync_source \<Rightarrow> position) \<Rightarrow> sync_source \<Rightarrow> position" where
  "next_of E visible w l f src = snd (snd (source_page E visible w src l (f src)))"

lemma uuid_zero: "UUID_PATTERN ZERO_UUID"
  by code_simp

lemma next_wf:
  assumes "sync_good E visible w" "src \<in> set SOURCES"
  shows "position_wf E src (next_of E visible w l f src)"
proof -
  let ?rows = "fst (source_page E visible w src l (f src))"
  have nx: "next_of E visible w l f src = next_position E src ?rows"
    by (simp add: next_of_def source_page_def Let_def)
  show ?thesis
  proof (cases "?rows = []")
    case True
    then show ?thesis using assms(1) uuid_zero
      by (auto simp: nx next_position_def position_wf_def zero_key_def sync_good_def list_all_iff)
  next
    case False
    then have "last ?rows \<in> set (source_rows visible w src)" using page_subset last_in_set by blast
    then have "list_all UUID_PATTERN (map (column_value (last ?rows)) (src_keys src))"
      "ISO_TIMESTAMP_PATTERN (se_render E (sr_time (last ?rows)))" "se_js_date E (se_render E (sr_time (last ?rows)))"
      using assms by (simp_all add: sync_good_def list_all_iff)
    then show ?thesis using False
      by (simp add: nx next_position_def position_wf_def)
  qed
qed

lemma next_pos_ok: "sync_good E visible w \<Longrightarrow> src \<in> set SOURCES \<Longrightarrow> pos_ok E src (next_of E visible w l f src)"
  unfolding next_of_def by (rule next_ok [OF good_source_ok])

text \<open>The positions a cursor stands for.\<close>

definition cursor_reads :: "sync_env \<Rightarrow> cursor_text option \<Rightarrow> (sync_source \<Rightarrow> position) \<Rightarrow> bool" where
  "cursor_reads E c f \<longleftrightarrow> (\<exists>cur. decodeCursor E c None = Inr cur
     \<and> (\<forall>src \<in> set SOURCES. cur (src_name src) = At (f src)
          \<or> cur (src_name src) = Absent \<and> f src = start_position None src))"

lemma reads_start: "cursor_reads E None (start_position None)"
  by (simp add: cursor_reads_def decodeCursor_def)

lemma reads_next:
  assumes "sync_good E visible w"
  shows "cursor_reads E (Some (encodeCursor (all_positions (next_of E visible w l f)))) (next_of E visible w l f)"
proof -
  have "list_all (\<lambda>src. position_wf E src (next_of E visible w l f src)) SOURCES"
    using next_wf [OF assms] by (simp add: list_all_iff)
  then show ?thesis
    by (auto simp: cursor_reads_def decode_encoded cursor_at_def find_source)
qed

fun collect ::
    "sync_env \<Rightarrow> (string \<Rightarrow> srow list) \<Rightarrow> string \<Rightarrow> nat \<Rightarrow> (sync_source \<Rightarrow> position) \<Rightarrow> sync_source list
      \<Rightarrow> (string \<times> fields list) list \<Rightarrow> (string \<times> fields list) list" where
  "collect E visible w l f [] ch = ch"
| "collect E visible w l f (src # srcs) ch = collect E visible w l f srcs
     (add_changes (output_name src) (map (row_json E (src_table src)) (fst (source_page E visible w src l (f src)))) ch)"

lemma pull_sources_eq:
  assumes "\<And>src. src \<in> set srcs \<Longrightarrow> cur (src_name src) = At (f src)
      \<or> cur (src_name src) = Absent \<and> f src = start_position None src"
    and "\<And>src. src \<in> set srcs \<Longrightarrow> pos_ok E src (f src)"
  shows "pull_sources E visible (\<lambda>_. False) w None l cur srcs nx m ch
    = Inr (nx @ map (\<lambda>src. (src_name src, next_of E visible w l f src)) srcs,
        m \<or> list_ex (\<lambda>src. fst (snd (source_page E visible w src l (f src)))) srcs,
        collect E visible w l f srcs ch)"
  using assms
proof (induction srcs arbitrary: nx m ch)
  case (Cons src srcs)
  have p: "se_pg_time E (pos_updated_at (f src)) \<noteq> None" using Cons.prems(2) [of src] by (simp add: pos_ok_def)
  obtain rows b p' where sp: "source_page E visible w src l (f src) = (rows, b, p')"
    by (cases "source_page E visible w src l (f src)") auto
  have IH: "pull_sources E visible (\<lambda>_. False) w None l cur srcs nx m ch
      = Inr (nx @ map (\<lambda>src. (src_name src, next_of E visible w l f src)) srcs,
        m \<or> list_ex (\<lambda>src. fst (snd (source_page E visible w src l (f src)))) srcs,
        collect E visible w l f srcs ch)" for nx m ch
    by (rule Cons.IH) (simp_all add: Cons.prems)
  have "cur (src_name src) = At (f src) \<or> cur (src_name src) = Absent \<and> f src = start_position None src"
    by (rule Cons.prems(1)) simp
  then show ?case using p sp IH
    by (auto simp: Let_def next_of_def)
qed simp

lemma delta_page:
  assumes "sync_good E visible w" "cursor_reads E c f" "\<And>src. src \<in> set SOURCES \<Longrightarrow> pos_ok E src (f src)"
  shows "getDelta E visible (\<lambda>_. False) w (page_request l c) = Inr
    \<lparr>rs_cursor = encodeCursor (all_positions (next_of E visible w l f)),
     rs_has_more = list_ex (\<lambda>src. fst (snd (source_page E visible w src l (f src)))) SOURCES,
     rs_server_time = se_now E, rs_changes = collect E visible w l f SOURCES []\<rparr>"
proof -
  obtain cur where cur: "decodeCursor E c None = Inr cur"
    and at: "\<And>src. src \<in> set SOURCES \<Longrightarrow> cur (src_name src) = At (f src)
          \<or> cur (src_name src) = Absent \<and> f src = start_position None src"
    using assms(2) unfolding cursor_reads_def by blast
  show ?thesis
    by (simp add: getDelta_def cur pull_sources_eq [OF at assms(3)] all_positions_def)
qed

definition rows_in :: "(string \<times> fields list) list \<Rightarrow> string \<Rightarrow> fields set" where
  "rows_in ch n = (case map_of ch n of None \<Rightarrow> {} | Some rows \<Rightarrow> set rows)"

lemma map_of_add_changes:
  "map_of (add_changes m rows ch) n =
     (if n = m then Some (case map_of ch m of None \<Rightarrow> rows | Some old \<Rightarrow> old @ rows) else map_of ch n)"
proof (induction ch)
  case (Cons c ch)
  obtain k old where "c = (k, old)" by (cases c)
  then show ?case using Cons by (cases "k = m"; cases "n = m") simp_all
qed simp

lemma rows_in_add: "rows_in (add_changes m rows ch) n = (if n = m then rows_in ch n \<union> set rows else rows_in ch n)"
  unfolding rows_in_def map_of_add_changes by (cases "n = m"; cases "map_of ch m") simp_all

lemma rows_in_collect:
  "x \<in> rows_in (collect E visible w l f srcs ch) n \<longleftrightarrow> x \<in> rows_in ch n
     \<or> (\<exists>src \<in> set srcs. output_name src = n
          \<and> x \<in> row_json E (src_table src) ` set (fst (source_page E visible w src l (f src))))"
proof (induction srcs arbitrary: ch)
  case (Cons src srcs)
  show ?case
  proof (cases "n = output_name src")
    case True
    then show ?thesis unfolding collect.simps Cons rows_in_add set_map by simp
  next
    case False
    then show ?thesis unfolding collect.simps Cons rows_in_add by simp
  qed
qed simp

lemma delivered_Cons: "delivered (ch # pages) n = rows_in ch n \<union> delivered pages n"
  by (simp add: delivered_def rows_in_def)

definition remaining :: "sync_env \<Rightarrow> (string \<Rightarrow> srow list) \<Rightarrow> string \<Rightarrow> (sync_source \<Rightarrow> position) \<Rightarrow> nat" where
  "remaining E visible w f = sum_list (map (\<lambda>src. length (rows_behind E visible w src (f src))) SOURCES)"

lemma behind_now:
  assumes "sync_good E visible w" "src \<in> set SOURCES"
  shows "rows_behind E visible w src \<lparr>pos_updated_at = se_now E, pos_key = k\<rparr> = []"
proof -
  have "\<not> (the (se_pg_time E (se_now E)), k) < srow_key src r" if "r \<in> set (source_rows visible w src)" for r
  proof -
    have "sr_time r < the (se_pg_time E (se_now E))"
      using assms that by (simp add: sync_good_def list_all_iff)
    then show ?thesis by (simp add: srow_key_def less_prod_simp)
  qed
  then have "[r \<leftarrow> good_rows E visible w src. pos_time E \<lparr>pos_updated_at = se_now E, pos_key = k\<rparr> < srow_key src r] = []"
    by (simp add: filter_empty_conv good_rows_eq [OF assms] pos_time_def)
  then show ?thesis by (simp add: rows_behind_def)
qed

lemma next_behind:
  assumes "sync_good E visible w" "src \<in> set SOURCES" "pos_ok E src (f src)"
  shows "rows_behind E visible w src (next_of E visible w (Suc l) f src) = drop (Suc l) (rows_behind E visible w src (f src))"
proof (cases "rows_behind E visible w src (f src) = []")
  case True
  have v: "source_ok E visible w src \<and> pos_ok E src (f src)" using assms good_source_ok by blast
  have "fst (source_page E visible w src (Suc l) (f src)) = []" using source_items [OF v] True by simp
  then have "next_of E visible w (Suc l) f src = \<lparr>pos_updated_at = se_now E, pos_key = zero_key src\<rparr>"
    by (simp add: next_of_def source_page_def Let_def next_position_def)
  then show ?thesis using behind_now [OF assms(1,2)] True by simp
next
  case False
  have v: "source_ok E visible w src \<and> pos_ok E src (f src)" using assms good_source_ok by blast
  show ?thesis unfolding next_of_def by (rule source_behind_next [OF v False])
qed

lemma sum_list_less:
  "(\<And>x. x \<in> set xs \<Longrightarrow> (g x :: nat) \<le> h x) \<Longrightarrow> x \<in> set xs \<Longrightarrow> g x < h x \<Longrightarrow> sum_list (map g xs) < sum_list (map h xs)"
proof (induction xs)
  case (Cons y ys)
  have le: "sum_list (map g ys) \<le> sum_list (map h ys)" using Cons.prems(1) by (intro sum_list_mono) simp
  show ?case
  proof (cases "x = y")
    case True
    then show ?thesis using le Cons.prems(3) by simp
  next
    case False
    then have "sum_list (map g ys) < sum_list (map h ys)" using Cons by simp
    then show ?thesis using Cons.prems(1) [of y] by simp
  qed
qed simp

lemma pull_all:
  assumes good: "sync_good E visible w"
  shows "cursor_reads E c f \<Longrightarrow> (\<forall>src \<in> set SOURCES. pos_ok E src (f src)) \<Longrightarrow> remaining E visible w f < n \<Longrightarrow>
    \<exists>pages. pull_pages n (\<lambda>c. getDelta E visible (\<lambda>_. False) w (page_request (Suc l) c)) c = Some pages
      \<and> (\<forall>src \<in> set SOURCES. row_json E (src_table src) ` set (rows_behind E visible w src (f src))
           \<subseteq> delivered pages (output_name src))"
proof (induction n arbitrary: c f)
  case (Suc n)
  let ?serve = "\<lambda>c. getDelta E visible (\<lambda>_. False) w (page_request (Suc l) c)"
  let ?g = "next_of E visible w (Suc l) f"
  let ?ch = "collect E visible w (Suc l) f SOURCES []"
  let ?more = "list_ex (\<lambda>src. fst (snd (source_page E visible w src (Suc l) (f src)))) SOURCES"
  have v: "source_ok E visible w src \<and> pos_ok E src (f src)" if "src \<in> set SOURCES" for src
    using that Suc.prems(2) good_source_ok [OF good] by blast
  have page: "?serve c = Inr \<lparr>rs_cursor = encodeCursor (all_positions ?g), rs_has_more = ?more,
      rs_server_time = se_now E, rs_changes = ?ch\<rparr>"
    using delta_page [OF good Suc.prems(1)] Suc.prems(2) by blast
  have items: "row_json E (src_table src) ` set (fst (source_page E visible w src (Suc l) (f src))) \<subseteq> rows_in ?ch (output_name src)"
    if "src \<in> set SOURCES" for src
    using that rows_in_collect by blast
  show ?case
  proof (cases ?more)
    case False
    then have "fst (source_page E visible w src (Suc l) (f src)) = rows_behind E visible w src (f src)"
      if "src \<in> set SOURCES" for src
      using source_last_page [OF v [OF that]] that by (simp add: list_ex_iff)
    then show ?thesis using page False items by (auto simp: delivered_Cons)
  next
    case True
    have le: "length (rows_behind E visible w src (?g src)) \<le> length (rows_behind E visible w src (f src))"
      if "src \<in> set SOURCES" for src
      using next_behind [OF good that] v [OF that] by simp
    obtain src where src: "src \<in> set SOURCES" "fst (snd (source_page E visible w src (Suc l) (f src)))"
      using True by (auto simp: list_ex_iff)
    have "length (rows_behind E visible w src (?g src)) < length (rows_behind E visible w src (f src))"
      using source_shrinks [OF v [OF src(1)] src(2)] by (simp add: next_of_def)
    then have "remaining E visible w ?g < remaining E visible w f"
      unfolding remaining_def using src(1) by (intro sum_list_less [where x = src]) (auto simp: le)
    then have "remaining E visible w ?g < n" using Suc.prems(3) by simp
    moreover have "\<forall>src \<in> set SOURCES. pos_ok E src (?g src)" using next_pos_ok [OF good] by blast
    ultimately obtain pages where p: "pull_pages n ?serve (Some (encodeCursor (all_positions ?g))) = Some pages"
      "\<forall>src \<in> set SOURCES. row_json E (src_table src) ` set (rows_behind E visible w src (?g src)) \<subseteq> delivered pages (output_name src)"
      using Suc.IH [OF reads_next [OF good]] by blast
    have "row_json E (src_table src) ` set (rows_behind E visible w src (f src)) \<subseteq> delivered (?ch # pages) (output_name src)"
      if s: "src \<in> set SOURCES" for src
    proof (rule image_subsetI)
      fix r
      assume r: "r \<in> set (rows_behind E visible w src (f src))"
      then have "r \<in> set (fst (source_page E visible w src (Suc l) (f src))) \<or> r \<in> set (rows_behind E visible w src (?g src))"
        using source_nothing_lost [OF v [OF s] r, of l] by (simp add: next_of_def)
      then show "row_json E (src_table src) r \<in> delivered (?ch # pages) (output_name src)"
        using items [OF s] bspec [OF p(2) s] unfolding delivered_Cons by blast
    qed
    then show ?thesis using page True p(1) by simp
  qed
qed simp

lemma start_behind:
  assumes "sync_good E visible w" "src \<in> set SOURCES"
  shows "set (rows_behind E visible w src (start_position None src)) = set (source_rows visible w src)"
proof -
  have "pos_time E (start_position None src) < srow_key src r" if "r \<in> set (source_rows visible w src)" for r
  proof -
    have "0 < sr_time r" using assms that by (simp add: sync_good_def list_all_iff)
    then show ?thesis using assms(1)
      by (simp add: pos_time_def start_position_def sync_good_def srow_key_def less_prod_simp)
  qed
  then show ?thesis by (auto simp: rows_behind_def good_rows_eq [OF assms])
qed

lemma start_ok: "sync_good E visible w \<Longrightarrow> pos_ok E src (start_position None src)"
  by (simp add: pos_ok_def start_position_def zero_key_def sync_good_def)

text \<open>All rows a workspace has for the sync, over the sources.\<close>

definition total_rows :: "(string \<Rightarrow> srow list) \<Rightarrow> string \<Rightarrow> nat" where
  "total_rows visible w = sum_list (map (\<lambda>src. length (source_rows visible w src)) SOURCES)"

lemma remaining_start: "sync_good E visible w \<Longrightarrow> remaining E visible w (start_position None) \<le> total_rows visible w"
  unfolding remaining_def total_rows_def
  by (intro sum_list_mono) (simp add: rows_behind_def good_rows_def)

section \<open>Properties\<close>

text \<open>
  C28. The filter the service builds for PostgREST, a disjunction over the key columns, selects
  exactly the rows behind the position in the order the rows are sorted by: time of change first,
  then the primary key.
\<close>

theorem afterFilter_is_row_order:
  assumes "pgt (pos_updated_at p) = Some t" "length (pos_key p) = length keys" "''updated_at'' \<notin> set keys"
  shows "list_ex (holds pgt r) (afterFilter p keys) \<longleftrightarrow> (t, pos_key p) < (sr_time r, map (column_value r) keys)"
  using assms by (rule after_filter_order)

theorem afterFilter_is_row_order_witness:
  "list_ex (holds (\<lambda>_. Some 5) \<lparr>sr_time = 5, sr_fields = [(''a'', JStr ''x''), (''b'', JStr ''z'')]\<rparr>)
     (afterFilter \<lparr>pos_updated_at = ''t'', pos_key = [''x'', ''y'']\<rparr> [''a'', ''b''])"
  using afterFilter_is_row_order [of "\<lambda>_. Some 5" "\<lparr>pos_updated_at = ''t'', pos_key = [''x'', ''y'']\<rparr>" 5 "[''a'', ''b'']"
      "\<lparr>sr_time = 5, sr_fields = [(''a'', JStr ''x''), (''b'', JStr ''z'')]\<rparr>"]
  by (simp add: column_value_def js_String_def less_prod_simp)

text \<open>
  The cursor of a reply reads back as the positions it was built from, or is refused: it is
  refused exactly when some position is not in the form the decoder checks.
\<close>

theorem cursor_roundtrip:
  "decodeCursor E (Some (encodeCursor (all_positions f))) since =
     (if list_all (\<lambda>src. position_wf E src (f src)) SOURCES then Inr (cursor_at f) else Inl stalled)"
  by (rule decode_encoded)


text \<open>A workspace with one tag.\<close>

definition demo_tag_row :: srow where
  "demo_tag_row = \<lparr>sr_time = 5, sr_fields = [(''id'', JStr ''11111111-1111-4111-8111-111111111111''),
     (''workspace_id'', JStr ''w1''), (''name'', JStr ''food''), (''deleted_at'', JNull)]\<rparr>"

definition demo_visible :: "string \<Rightarrow> srow list" where
  "demo_visible t = (if t = ''tags'' then [demo_tag_row] else [])"

definition demo_sync_env :: "string \<Rightarrow> sync_env" where
  "demo_sync_env rendered = \<lparr>se_now = ''2026-01-01T00:00:00.000Z'', se_render = \<lambda>_. rendered,
     se_pg_time = map_of [(''1970-01-01T00:00:00.000Z'', 0), (rendered, 5), (''2026-01-01T00:00:00.000Z'', 1000)],
     se_js_date = \<lambda>_. True\<rparr>"

lemma demo_source_rows:
  "src \<in> set SOURCES \<Longrightarrow> source_rows demo_visible ''w1'' src = (if src_name src = ''tags'' then [demo_tag_row] else [])"
  by (auto simp: SOURCES_def source_rows_def demo_visible_def in_source_def demo_tag_row_def)

lemma demo_sync_good: "sync_good (demo_sync_env ''1970-01-01T00:00:00.000005Z'') demo_visible ''w1''"
proof -
  have "ISO_TIMESTAMP_PATTERN ''1970-01-01T00:00:00.000005Z''" "ISO_TIMESTAMP_PATTERN ''2026-01-01T00:00:00.000Z''"
    "UUID_PATTERN ''11111111-1111-4111-8111-111111111111''"
    by code_simp+
  then show ?thesis
    by (simp add: sync_good_def demo_sync_env_def list_all_iff demo_source_rows)
      (simp add: SOURCES_def demo_tag_row_def column_value_def js_String_def)
qed


text \<open>
  With the form in which the database renders a time with time zone, an offset instead of
  \<open>Z\<close>, the service refuses its own cursor: the second pull of a workspace that has any row fails.
\<close>

theorem own_cursor_rejected:
  "let serve = (\<lambda>c. getDelta (demo_sync_env ''1970-01-01T00:00:00.000005+00:00'') demo_visible (\<lambda>_. False) ''w1''
       (page_request 500 c)) in
   \<exists>r. serve None = Inr r \<and> serve (Some (rs_cursor r)) = Inl stalled"
proof -
  let ?E = "demo_sync_env ''1970-01-01T00:00:00.000005+00:00''"
  let ?f = "next_of ?E demo_visible ''w1'' 500 (start_position None)"
  have ok: "pos_ok ?E src (start_position None src)" for src
    by (simp add: pos_ok_def start_position_def zero_key_def demo_sync_env_def)
  obtain r where r: "getDelta ?E demo_visible (\<lambda>_. False) ''w1'' (page_request 500 None) = Inr r"
      "rs_cursor r = encodeCursor (all_positions ?f)"
    using pull_sources_eq [of SOURCES "\<lambda>_. Absent" "start_position None" ?E demo_visible "''w1''" 500 "[]" False "[]"] ok
    by (simp add: getDelta_def decodeCursor_def all_positions_def)
  let ?tags = "\<lparr>src_name = ''tags'', src_table = ''tags'', src_keys = [''id'']\<rparr>"
  have tags: "?tags \<in> set SOURCES" by (simp add: SOURCES_def)
  have "pos_updated_at (?f ?tags) = ''1970-01-01T00:00:00.000005+00:00''"
    by (simp add: next_of_def source_page_def Let_def query_source_def demo_visible_def in_source_def
        demo_tag_row_def afterFilter_def start_position_def demo_sync_env_def next_position_def)
  moreover have "\<not> ISO_TIMESTAMP_PATTERN ''1970-01-01T00:00:00.000005+00:00''" by code_simp
  ultimately have "\<not> position_wf ?E ?tags (?f ?tags)" by (simp add: position_wf_def)
  then have "\<not> list_all (\<lambda>src. position_wf ?E src (?f src)) SOURCES"
    using tags unfolding list_all_iff by blast
  then have "getDelta ?E demo_visible (\<lambda>_. False) ''w1'' (page_request 500 (Some (rs_cursor r))) = Inl stalled"
    by (simp add: getDelta_def r(2) decode_encoded)
  then show ?thesis using r(1) by auto
qed

text \<open>
   A source that had nothing to deliver jumps to the clock of the API: a row committed later with
  an earlier time of change is not delivered behind that cursor.
\<close>

theorem late_commit_is_skipped:
  assumes "fst (source_page E visible w src l p) = []"
    and "se_pg_time E (se_now E) = Some t" "sr_time r < t" "''updated_at'' \<notin> set (src_keys src)"
    and "se_pg_time E' = se_pg_time E"
  shows "r \<notin> set (fst (source_page E' visible' w src l' (snd (snd (source_page E visible w src l p)))))"
proof -
  let ?p = "snd (snd (source_page E visible w src l p))"
  have p: "?p = \<lparr>pos_updated_at = se_now E, pos_key = zero_key src\<rparr>"
    using assms(1) by (simp add: page_next next_position_def)
  have "\<not> list_ex (holds (se_pg_time E) r) (afterFilter ?p (src_keys src))"
    using after_filter_order [of "se_pg_time E" ?p t "src_keys src" r] assms(2-4)
    by (simp add: p zero_key_def less_prod_simp)
  then show ?thesis using assms(5)
    by (auto simp: source_page_def [of E'] Let_def query_source_def dest!: in_set_takeD)
qed

theorem late_commit_is_skipped_witness:
  "demo_tag_row \<notin> set (fst (source_page (demo_sync_env ''x'') demo_visible ''w1'' (SOURCES ! 4) 500
     (snd (snd (source_page (demo_sync_env ''x'') (\<lambda>_. []) ''w1'' (SOURCES ! 4) 500 (start_position None (SOURCES ! 4)))))))"
  using late_commit_is_skipped [of "demo_sync_env ''x''" "\<lambda>_. []" "''w1''" "SOURCES ! 4" 500 "start_position None (SOURCES ! 4)"
      1000 demo_tag_row "demo_sync_env ''x''" demo_visible 500]
  by (simp add: source_page_def query_source_def demo_sync_env_def demo_tag_row_def SOURCES_def)

end
