(* ===== verification/Statements.thy ===== *)
theory Statements
  imports Money
begin

text \<open>
  The pure half of \<open>apps/api/src/imports/imports.service.ts\<close>: the three statement parsers, the
  normalisation of a row and the conversion of its amount; and the writer of
  \<open>workspace-export.service.ts\<close>, whose output the CSV parser reads. A property that is missing from
  a short CSV record is \<open>undefined\<close>, here \<open>None\<close>. The archived \<open>raw\<close> record of a row is left out.
  A date part is \<open>Number\<close> of a text: digits, possibly within white space, or empty; exponents,
  hexadecimal numerals, signs and fractions are taken as not finite.
\<close>

record parsed_row =
  pr_date :: string
  pr_amount :: string
  pr_payee :: string
  pr_note :: "string option"

abbreviation quote :: char where "quote \<equiv> CHR 0x22"
abbreviation comma :: char where "comma \<equiv> CHR '',''"
abbreviation line_feed :: char where "line_feed \<equiv> CHR 0x0A"
abbreviation carriage_return :: char where "carriage_return \<equiv> CHR 0x0D"

section \<open>CSV records\<close>

text \<open>The loop of \<open>csvRecords\<close>: \<open>field\<close>, \<open>row\<close> and \<open>rows\<close> are its variables.\<close>

fun csv_scan :: "string \<Rightarrow> string \<Rightarrow> string list \<Rightarrow> string list list \<Rightarrow> bool \<Rightarrow> string + string list list" where
  "csv_scan [] field row rows quoted =
     (let rows' = (if field \<noteq> [] \<or> row \<noteq> [] then rows @ [row @ [field]] else rows) in
      if quoted then Inl ''CSV contains an unterminated quoted field'' else Inr rows')"
| "csv_scan (c # cs) field row rows quoted =
     (if c = quote \<and> quoted \<and> cs \<noteq> [] \<and> hd cs = quote
      then csv_scan (tl cs) (field @ [quote]) row rows quoted
      else if c = quote then csv_scan cs field row rows (\<not> quoted)
      else if c = comma \<and> \<not> quoted then csv_scan cs [] (row @ [field]) rows quoted
      else if (c = line_feed \<or> c = carriage_return) \<and> \<not> quoted
      then csv_scan (if c = carriage_return \<and> cs \<noteq> [] \<and> hd cs = line_feed then tl cs else cs)
             [] [] (rows @ [row @ [field]]) quoted
      else csv_scan cs (field @ [c]) row rows quoted)"

definition csvRecords :: "string \<Rightarrow> string + string list list" where
  "csvRecords content = csv_scan content [] [] [] False"

section \<open>Normalising a row\<close>

text \<open>\<open>/^[+-]?(?:\d+(?:\.\d*)?|\.\d+)$/\<close> and the two parts \<open>split('.')\<close> gives.\<close>

definition whole_digits :: "string \<Rightarrow> string" where
  "whole_digits s = takeWhile is_digit (unsigned_part s)"

definition fraction_digits :: "string \<Rightarrow> string" where
  "fraction_digits s = tl (dropWhile is_digit (unsigned_part s))"

definition is_decimal :: "string \<Rightarrow> bool" where
  "is_decimal s \<longleftrightarrow>
     (let tail = dropWhile is_digit (unsigned_part s) in
      (tail = [] \<and> whole_digits s \<noteq> [])
    \<or> (tail \<noteq> [] \<and> hd tail = CHR ''.'' \<and> list_all is_digit (tl tail)
         \<and> (whole_digits s \<noteq> [] \<or> tl tail \<noteq> [])))"

definition nonzero_digit :: "char \<Rightarrow> bool" where
  "nonzero_digit c \<longleftrightarrow> is_digit c \<and> c \<noteq> CHR ''0''"

definition cleaned_amount :: "string \<Rightarrow> string" where
  "cleaned_amount s = [c \<leftarrow> s. c \<noteq> comma \<and> \<not> js_space c]"

definition normalized_amount :: "string \<Rightarrow> string + string" where
  "normalized_amount amountValue =
     (let cleaned = cleaned_amount amountValue; whole = whole_digits cleaned; fraction = fraction_digits cleaned in
      if \<not> is_decimal cleaned then Inl (''Invalid amount: '' @ amountValue)
      else if \<not> list_ex nonzero_digit (whole @ fraction) then Inl (''Invalid amount: '' @ amountValue)
      else Inr ((if starts_with cleaned ''-'' then ''-'' else []) @ (if whole = [] then ''0'' else whole)
             @ (if fraction = [] then [] else CHR ''.'' # fraction)))"

definition leap_year :: "nat \<Rightarrow> bool" where
  "leap_year y \<longleftrightarrow> y mod 4 = 0 \<and> (y mod 100 \<noteq> 0 \<or> y mod 400 = 0)"

definition days_in_month :: "nat \<Rightarrow> nat \<Rightarrow> nat" where
  "days_in_month y m = (if m = 2 then (if leap_year y then 29 else 28)
     else if m \<in> {4, 6, 9, 11} then 30 else 31)"

text \<open>
  The texts that \<open>new Date(...)\<close> accepts and \<open>toISOString\<close> gives back: \<open>YYYY-MM-DD\<close> of a day of the
  calendar.
\<close>

definition calendar_date :: "string \<Rightarrow> bool" where
  "calendar_date s \<longleftrightarrow>
     length s = 10 \<and> list_all is_digit (take 4 s) \<and> s ! 4 = CHR ''-'' \<and> list_all is_digit (js_slice 5 7 s)
   \<and> s ! 7 = CHR ''-'' \<and> list_all is_digit (js_slice 8 10 s)
   \<and> (let y = digits_val (take 4 s); m = digits_val (js_slice 5 7 s); d = digits_val (js_slice 8 10 s) in
      1 \<le> m \<and> m \<le> 12 \<and> 1 \<le> d \<and> d \<le> days_in_month y m)"

definition date_part :: "string \<Rightarrow> nat option" where
  "date_part s = (let t = js_trim s in if list_all is_digit t then Some (digits_val t) else None)"

fun split_any :: "(char \<Rightarrow> bool) \<Rightarrow> string \<Rightarrow> string list" where
  "split_any p [] = [[]]"
| "split_any p (c # cs) =
     (if p c then [] # split_any p cs
      else (case split_any p cs of [] \<Rightarrow> [[c]] | w # ws \<Rightarrow> (c # w) # ws))"

definition date_separator :: "char \<Rightarrow> bool" where
  "date_separator c \<longleftrightarrow> c = CHR ''/'' \<or> c = CHR 0x27 \<or> c = CHR ''-''"

definition is_digits :: "nat \<Rightarrow> nat \<Rightarrow> string \<Rightarrow> bool" where
  "is_digits a b s \<longleftrightarrow> b \<le> length s \<and> list_all is_digit (js_slice a b s)"

definition iso_date :: "string \<Rightarrow> string + string" where
  "iso_date v =
     (if is_digits 0 8 v then Inr (js_slice 0 4 v @ ''-'' @ js_slice 4 6 v @ ''-'' @ js_slice 6 8 v)
      else if 10 \<le> length v \<and> is_digits 0 4 v \<and> v ! 4 = CHR ''-'' \<and> is_digits 5 7 v \<and> v ! 7 = CHR ''-''
        \<and> is_digits 8 10 v
      then Inr (take 10 v)
      else (case map date_part (split_any date_separator v) of
          [Some p0, Some p1, Some p2] \<Rightarrow>
            let year = (if p2 < 100 then 2000 + p2 else p2) in
            Inr (show_nat year @ ''-'' @ pad_start 2 CHR ''0'' (show_nat p0) @ ''-'' @ pad_start 2 CHR ''0'' (show_nat p1))
        | _ \<Rightarrow> Inl (''Invalid date: '' @ v)))"

definition normalized_date :: "string \<Rightarrow> string + string" where
  "normalized_date v =
     (case iso_date v of
        Inl e \<Rightarrow> Inl e
      | Inr d \<Rightarrow> if calendar_date d then Inr (d @ ''T12:00:00.000Z'') else Inl (''Invalid date: '' @ v))"

text \<open>The message of the \<open>TypeError\<close> that reading a method of \<open>undefined\<close> throws.\<close>

definition type_error :: "string \<Rightarrow> string" where
  "type_error method = ''Cannot read properties of undefined (reading '' @ [CHR 0x27] @ method @ [CHR 0x27] @ '')''"

text \<open>\<open>undefined.replace\<close> and \<open>undefined.split\<close> throw; \<open>payee || 'Imported transaction'\<close>.\<close>

definition normalized ::
    "string option \<Rightarrow> string option \<Rightarrow> string option \<Rightarrow> string option \<Rightarrow> string + parsed_row" where
  "normalized dateValue amountValue payee note =
     (case amountValue of
        None \<Rightarrow> Inl (type_error ''replace'')
      | Some av \<Rightarrow>
          (case normalized_amount av of
             Inl e \<Rightarrow> Inl e
           | Inr amount \<Rightarrow>
               (case dateValue of
                  None \<Rightarrow> Inl (type_error ''split'')
                | Some dv \<Rightarrow>
                    (case normalized_date dv of
                       Inl e \<Rightarrow> Inl e
                     | Inr date \<Rightarrow> Inr \<lparr>pr_date = date, pr_amount = amount,
                         pr_payee = (case truthy payee of None \<Rightarrow> ''Imported transaction'' | Some p \<Rightarrow> p),
                         pr_note = note\<rparr>))))"

section \<open>The three formats\<close>

fun collapse_spaces :: "string \<Rightarrow> string" where
  "collapse_spaces [] = []"
| "collapse_spaces (c # cs) =
     (if js_space c then (if cs \<noteq> [] \<and> js_space (hd cs) then collapse_spaces cs else CHR ''_'' # collapse_spaces cs)
      else c # collapse_spaces cs)"

definition csv_header :: "string \<Rightarrow> string" where
  "csv_header v = collapse_spaces (js_lower (js_trim v))"

fun find_index :: "('a \<Rightarrow> bool) \<Rightarrow> 'a list \<Rightarrow> nat option" where
  "find_index p [] = None"
| "find_index p (x # xs) = (if p x then Some 0 else map_option Suc (find_index p xs))"

definition field_at :: "string list \<Rightarrow> nat \<Rightarrow> string option" where
  "field_at record i = (if i < length record then Some (record ! i) else None)"

fun map_result :: "('a \<Rightarrow> 'e + 'b) \<Rightarrow> 'a list \<Rightarrow> 'e + 'b list" where
  "map_result f [] = Inr []"
| "map_result f (x # xs) =
     (case f x of Inl e \<Rightarrow> Inl e
      | Inr y \<Rightarrow> (case map_result f xs of Inl e \<Rightarrow> Inl e | Inr ys \<Rightarrow> Inr (y # ys)))"

definition parseCsv :: "string \<Rightarrow> string + parsed_row list" where
  "parseCsv content =
     (case csvRecords content of
        Inl e \<Rightarrow> Inl e
      | Inr records \<Rightarrow>
          if length records < 2 then Inr []
          else
            let headers = map csv_header (hd records);
              column = (\<lambda>names. find_index (\<lambda>h. h \<in> set names) headers);
              optional = (\<lambda>i record. case i of None \<Rightarrow> Some [] | Some k \<Rightarrow> field_at record k) in
            (case (column [''date'', ''transaction_date'', ''occurred_at''], column [''amount'', ''value'']) of
               (Some d, Some a) \<Rightarrow>
                 map_result (\<lambda>record. normalized (field_at record d) (field_at record a)
                     (optional (column [''payee'', ''description'', ''merchant'', ''name'']) record)
                     (optional (column [''note'', ''memo'', ''details'']) record))
                   [record \<leftarrow> tl records. list_ex (\<lambda>v. v \<noteq> []) record]
             | _ \<Rightarrow> Inl ''CSV needs date and amount columns''))"

definition starts_with_ci :: "string \<Rightarrow> string \<Rightarrow> bool" where
  "starts_with_ci s p = starts_with (js_lower s) (js_lower p)"

text \<open>The length of the lazy match up to the next terminator, from behind the opening tag.\<close>

fun until_terminator :: "string \<Rightarrow> nat option" where
  "until_terminator [] = None"
| "until_terminator (c # cs) =
     (if starts_with_ci (c # cs) ''<STMTTRN>'' \<or> starts_with_ci (c # cs) ''</BANKTRANLIST>''
        \<or> starts_with_ci (c # cs) ''</STMTTRN>''
      then Some 0 else map_option Suc (until_terminator cs))"

function ofx_blocks :: "string \<Rightarrow> string list" where
  "ofx_blocks [] = []"
| "ofx_blocks (c # cs) =
     (if starts_with_ci (c # cs) ''<STMTTRN>''
      then (case until_terminator (drop 9 (c # cs)) of
          None \<Rightarrow> ofx_blocks cs
        | Some n \<Rightarrow> take (9 + n) (c # cs) # ofx_blocks (drop (9 + n) (c # cs)))
      else ofx_blocks cs)"
  by pat_completeness auto

termination by (relation "measure length") auto

text \<open>The first \<open><TAG>\<close> that is followed by at least one character of its value.\<close>

fun tag_value :: "string \<Rightarrow> string \<Rightarrow> string option" where
  "tag_value tag [] = None"
| "tag_value tag (c # cs) =
     (let open_tag = ''<'' @ tag @ ''>'';
        v = takeWhile (\<lambda>x. x \<noteq> CHR ''<'' \<and> x \<noteq> line_feed \<and> x \<noteq> carriage_return) (drop (length open_tag) (c # cs)) in
      if starts_with_ci (c # cs) open_tag \<and> v \<noteq> [] then Some v else tag_value tag cs)"

definition ofx_field :: "string \<Rightarrow> string \<Rightarrow> string" where
  "ofx_field block tag = (case tag_value tag block of None \<Rightarrow> [] | Some v \<Rightarrow> js_trim v)"

definition parseOfx :: "string \<Rightarrow> string + parsed_row list" where
  "parseOfx content = map_result (\<lambda>block.
     normalized (Some (take 8 (ofx_field block ''DTPOSTED''))) (Some (ofx_field block ''TRNAMT''))
       (Some (ofx_field block ''NAME'')) (Some (ofx_field block ''MEMO''))) (ofx_blocks content)"

text \<open>
  \<open>split(/^\^\s*$/m)\<close>: a caret at the start of a line with the longest run of white space behind it
  that ends at a line end.
\<close>

definition line_break :: "char \<Rightarrow> bool" where
  "line_break c \<longleftrightarrow> c = line_feed \<or> c = carriage_return"

definition caret_run :: "string \<Rightarrow> nat option" where
  "caret_run cs = find (\<lambda>k. drop k cs = [] \<or> line_break (hd (drop k cs)))
     (rev [0..<Suc (length (takeWhile js_space cs))])"

function qif_blocks :: "bool \<Rightarrow> string \<Rightarrow> string \<Rightarrow> string list" where
  "qif_blocks bol block [] = [block]"
| "qif_blocks bol block (c # cs) =
     (case (if bol \<and> c = CHR ''^'' then caret_run cs else None) of
        Some k \<Rightarrow> block # qif_blocks (0 < k \<and> line_break (cs ! (k - 1))) [] (drop k cs)
      | None \<Rightarrow> qif_blocks (line_break c) (block @ [c]) cs)"
  by pat_completeness auto

termination by (relation "measure (\<lambda>(_, _, s). length s)") auto

definition strip_cr :: "string \<Rightarrow> string" where
  "strip_cr l = (if l \<noteq> [] \<and> last l = carriage_return then butlast l else l)"

text \<open>\<open>split(/\r?\n/)\<close>: only a carriage return before a line feed belongs to the break.\<close>

definition crlf_lines :: "string \<Rightarrow> string list" where
  "crlf_lines s = (let ls = js_split line_feed s in map strip_cr (butlast ls) @ [last ls])"

definition qif_fields :: "string \<Rightarrow> (char \<times> string) list" where
  "qif_fields block = rev [(hd l, js_trim (tl l)). l \<leftarrow> crlf_lines block, 1 < length l, \<not> starts_with l ''!'']"

definition qif_field :: "string \<Rightarrow> char \<Rightarrow> string" where
  "qif_field block c = (case map_of (qif_fields block) c of None \<Rightarrow> [] | Some v \<Rightarrow> v)"

definition parseQif :: "string \<Rightarrow> string + parsed_row list" where
  "parseQif content = map_result (\<lambda>block.
     normalized (Some (qif_field block CHR ''D'')) (Some (qif_field block CHR ''T''))
       (Some (qif_field block CHR ''P'')) (Some (qif_field block CHR ''M'')))
     [block \<leftarrow> qif_blocks True [] content. qif_field block CHR ''D'' \<noteq> [] \<and> qif_field block CHR ''T'' \<noteq> []]"

datatype statement_format = CSV | OFX | QIF

definition parse :: "statement_format \<Rightarrow> string \<Rightarrow> string + parsed_row list" where
  "parse f content = (case f of CSV \<Rightarrow> parseCsv content | OFX \<Rightarrow> parseOfx content | QIF \<Rightarrow> parseQif content)"

section \<open>Amounts\<close>

text \<open>
  \<open>decimalToMinor\<close> of a normalised amount: the parts before and behind the dot, exact integers.
\<close>

definition decimalToMinor :: "string \<Rightarrow> string \<Rightarrow> string + nat" where
  "decimalToMinor amount currencyCode =
     (case getCurrency currencyCode of
        Inl _ \<Rightarrow> Inl (''Unknown currency code: '' @ currencyCode)
      | Inr currency \<Rightarrow>
          let parts = js_split CHR ''.'' (unsigned_part amount);
            whole = hd parts; fraction = (if length parts < 2 then [] else parts ! 1);
            e = exponent currency in
          if list_ex nonzero_digit (drop e fraction)
          then Inl (''Amount has more than '' @ show_nat e @ '' decimal places for '' @ currencyCode)
          else
            let fractionalMinor = pad_end e CHR ''0'' (take e fraction);
              absolute = digits_val whole * 10 ^ e + digits_val fractionalMinor in
            if MAX_SAFE_INTEGER < int absolute then Inl ''Amount exceeds the safe integer range''
            else Inr absolute)"

section \<open>Amounts are exact\<close>

lemma leading_digit: "is_digit c \<Longrightarrow> c \<noteq> CHR ''+'' \<and> c \<noteq> CHR ''-'' \<and> c \<noteq> CHR ''.''"
  by (auto simp: is_digit_def)

lemma digit_zero [simp]: "is_digit CHR ''0''"
  by (simp add: is_digit_def)

lemma zero_digits_val: "list_all is_digit s \<Longrightarrow> \<not> list_ex nonzero_digit s \<Longrightarrow> digits_val s = 0"
proof (induction s rule: rev_induct)
  case (snoc c s)
  then show ?case by (auto simp: nonzero_digit_def digit_val_def)
qed simp

lemma digits_val_0: "list_all is_digit s \<Longrightarrow> digits_val s = 0 \<Longrightarrow> \<not> list_ex nonzero_digit s"
proof (induction s rule: rev_induct)
  case (snoc c s)
  moreover have "digit_val c = 0 \<Longrightarrow> is_digit c \<Longrightarrow> c = CHR ''0''"
    using digit_char_val [of c] by (simp add: digit_char_def char_of_def bit_0)
  ultimately show ?case by (auto simp: nonzero_digit_def)
qed simp

lemma pad_digits:
  assumes "list_all is_digit f" "\<not> list_ex nonzero_digit (drop e f)"
  shows "digits_val (pad_end e CHR ''0'' (take e f)) * 10 ^ length f = digits_val f * 10 ^ e"
proof (cases "length f \<le> e")
  case True
  then have "digits_val (pad_end e CHR ''0'' (take e f)) = digits_val f * 10 ^ (e - length f)"
    by (simp add: pad_end_def digits_val_append digits_val_replicate_zero)
  then show ?thesis using True by (simp add: algebra_simps flip: power_add)
next
  case False
  have "list_all is_digit (drop e f)" using assms(1) by (auto simp: list_all_iff dest: in_set_dropD)
  then have z: "digits_val (drop e f) = 0" using assms(2) by (rule zero_digits_val)
  have "digits_val f = digits_val (take e f @ drop e f)" by simp
  also have "... = digits_val (take e f) * 10 ^ (length f - e)" unfolding digits_val_append by (simp add: z)
  finally show ?thesis using False by (simp add: pad_end_def algebra_simps flip: power_add)
qed

text \<open>The text of a normalised amount, and the parts \<open>decimalToMinor\<close> reads off it.\<close>

lemma normalized_parts:
  assumes "list_all is_digit whole" "list_all is_digit fraction" "whole \<noteq> []"
  shows "js_split CHR ''.'' (unsigned_part ((if neg then ''-'' else []) @ whole
            @ (if fraction = [] then [] else CHR ''.'' # fraction)))
       = (if fraction = [] then [whole] else [whole, fraction])"
proof -
  have dots: "CHR ''.'' \<notin> set whole" "CHR ''.'' \<notin> set fraction"
    using assms(1,2) leading_digit by (auto simp: list_all_iff)
  have "\<not> leading_sign (whole @ r)" for r
    using assms(1,3) leading_digit by (cases whole) (auto simp: leading_sign_def)
  then have "unsigned_part ((if neg then ''-'' else []) @ whole @ r) = whole @ r" for r
    by (auto simp: unsigned_part_def leading_sign_def)
  then show ?thesis using dots by (simp add: js_split_append js_split_no_sep)
qed

lemma whole_fraction_digits:
  assumes "is_decimal s"
  shows "list_all is_digit (whole_digits s)" "list_all is_digit (fraction_digits s)"
proof -
  show "list_all is_digit (whole_digits s)"
    by (auto simp: whole_digits_def list_all_iff dest: set_takeWhileD)
  show "list_all is_digit (fraction_digits s)"
    using assms by (auto simp: is_decimal_def fraction_digits_def Let_def simp del: dropWhile_eq_Nil_conv)
qed

lemma statement_amount:
  assumes n: "normalized_amount v = Inr a" and m: "decimalToMinor a cur = Inr minor" and c: "getCurrency cur = Inr c"
  defines "w \<equiv> whole_digits (cleaned_amount v)" and "f \<equiv> fraction_digits (cleaned_amount v)"
  shows "minor * 10 ^ length f = digits_val (w @ f) * 10 ^ exponent c \<and> 0 < minor
    \<and> int minor \<le> MAX_SAFE_INTEGER \<and> (starts_with a ''-'' \<longleftrightarrow> starts_with (cleaned_amount v) ''-'')"
proof -
  let ?e = "exponent c" and ?neg = "starts_with (cleaned_amount v) ''-''"
  let ?w = "if w = [] then ''0'' else w"
  have dec: "is_decimal (cleaned_amount v)" and nz: "list_ex nonzero_digit (w @ f)"
    and a: "a = (if ?neg then ''-'' else []) @ ?w @ (if f = [] then [] else CHR ''.'' # f)"
    using n by (auto simp: normalized_amount_def Let_def w_def f_def split: if_splits)
  have dig: "list_all is_digit w" "list_all is_digit f"
    using whole_fraction_digits [OF dec] by (simp_all add: w_def f_def)
  have dw: "list_all is_digit ?w" "?w \<noteq> []" using dig by auto
  have parts: "js_split CHR ''.'' (unsigned_part a) = (if f = [] then [?w] else [?w, f])"
    unfolding a by (rule normalized_parts [OF dw(1) dig(2) dw(2)])
  have hw: "hd (js_split CHR ''.'' (unsigned_part a)) = ?w"
    "(if length (js_split CHR ''.'' (unsigned_part a)) < 2 then [] else js_split CHR ''.'' (unsigned_part a) ! 1) = f"
    unfolding parts by auto
  have ex: "\<not> list_ex nonzero_digit (drop ?e f)"
    and minor: "minor = digits_val ?w * 10 ^ ?e + digits_val (pad_end ?e CHR ''0'' (take ?e f))"
    and safe: "int minor \<le> MAX_SAFE_INTEGER"
    using m c unfolding decimalToMinor_def Let_def hw by (auto split: if_splits)
  have vw: "digits_val ?w = digits_val w" by (simp add: digits_val_def digit_val_def)
  have eq: "minor * 10 ^ length f = digits_val (w @ f) * 10 ^ ?e"
    using pad_digits [OF dig(2) ex] by (simp add: minor vw digits_val_append algebra_simps)
  have "digits_val (w @ f) \<noteq> 0" using digits_val_0 [of "w @ f"] dig nz by auto
  then have "0 < minor" using eq by (cases minor) auto
  moreover have "starts_with a ''-'' \<longleftrightarrow> ?neg"
    using dw leading_digit by (cases ?w) (auto simp: a)
  ultimately show ?thesis using eq safe by simp
qed

lemmas statement_text_defs = normalized_amount_def cleaned_amount_def js_space_def is_decimal_def whole_digits_def
  fraction_digits_def unsigned_part_def leading_sign_def nonzero_digit_def is_digit_def

text \<open>
  C30. The amount of a statement row is converted exactly: for a text with whole part \<open>w\<close> and
  fraction \<open>f\<close> (after commas and spaces are dropped) the minor units are \<open>w.f\<close> times ten to the
  currency's exponent, positive and in the safe range; the sign decides income or expense.
\<close>

theorem statement_amount_exact:
  assumes "normalized_amount v = Inr a" and "decimalToMinor a cur = Inr minor" and "getCurrency cur = Inr c"
  shows "minor * 10 ^ length (fraction_digits (cleaned_amount v))
      = digits_val (whole_digits (cleaned_amount v) @ fraction_digits (cleaned_amount v)) * 10 ^ exponent c
    \<and> 0 < minor \<and> int minor \<le> MAX_SAFE_INTEGER
    \<and> (starts_with a ''-'' \<longleftrightarrow> starts_with (cleaned_amount v) ''-'')"
  by (rule statement_amount [OF assms])

theorem statement_amount_exact_witness:
  "(125050::nat) * 10 ^ length (fraction_digits (cleaned_amount ''-1,250.500''))
      = digits_val (whole_digits (cleaned_amount ''-1,250.500'') @ fraction_digits (cleaned_amount ''-1,250.500'')) * 10 ^ (2::nat)
    \<and> (0::nat) < 125050 \<and> int 125050 \<le> MAX_SAFE_INTEGER
    \<and> (starts_with ''-1250.500'' ''-'' \<longleftrightarrow> starts_with (cleaned_amount ''-1,250.500'') ''-'')"
proof -
  have "normalized_amount ''-1,250.500'' = Inr ''-1250.500''"
    by (simp add: statement_text_defs Let_def)
  moreover have "decimalToMinor ''-1250.500'' ''BDT'' = Inr 125050"
    by (simp add: statement_text_defs decimalToMinor_def getCurrency_def CURRENCIES_def mk_currency_def pad_end_def digits_val_def
        digit_val_def MAX_SAFE_INTEGER_def Let_def)
  moreover have "getCurrency ''BDT'' = Inr (mk_currency ''BDT'' 2 ''Bangladeshi Taka'')" by code_simp
  ultimately show ?thesis
    using statement_amount_exact [of "''-1,250.500''" "''-1250.500''" "''BDT''" 125050 "mk_currency ''BDT'' 2 ''Bangladeshi Taka''"]
    by (simp add: mk_currency_def)
qed

end
