(* ===== verification/Imports.thy ===== *)
theory Imports
  imports Statements TransactionLive
begin

text \<open>
  \<open>apps/api/src/imports/imports.service.ts\<close>: an import is a job with one staged row per transaction
  of the statement; each row is posted through \<open>createTransaction\<close>. The two tables are those of
  migration 00026; \<open>ledger\<close> holds the tables of \<open>Database\<close>, its UUIDs and its schedule of failing
  statements. \<open>created_at\<close> is the order of insertion; \<open>raw_payload\<close> is left out.
\<close>

section \<open>State and statements\<close>

datatype ImportStatus = IS_PENDING | IS_PROCESSING | IS_COMPLETED | IS_COMPLETED_WITH_ERRORS | IS_FAILED

datatype ImportRowStatus = IR_PENDING | IR_IMPORTED | IR_FAILED

record import_job =
  ij_id :: string
  ij_workspace_id :: string
  ij_created_by :: string
  ij_idempotency_key :: string
  ij_format :: statement_format
  ij_filename :: string
  ij_status :: ImportStatus
  ij_total_rows :: nat
  ij_imported_rows :: nat
  ij_failed_rows :: nat
  ij_error_message :: "string option"
  ij_started_at :: "string option"
  ij_completed_at :: "string option"

record import_row =
  ir_job_id :: string
  ir_workspace_id :: string
  ir_row_number :: nat
  ir_normalized_payload :: parsed_row
  ir_status :: ImportRowStatus
  ir_error_message :: "string option"
  ir_journal_entry_id :: "string option"

record import_db =
  ledger :: db
  import_jobs :: "import_job list"
  import_rows :: "import_row list"

record create_import_dto =
  ci_format :: statement_format
  ci_content :: string
  ci_filename :: string
  ci_account_id :: string
  ci_expense_category_id :: string
  ci_income_category_id :: "string option"
  ci_idempotency_key :: string

definition on_ledger :: "(db, 'a) api \<Rightarrow> (import_db, 'a) api" where
  "on_ledger m s = (case m (ledger s) of (r, l) \<Rightarrow> (r, s\<lparr>ledger := l\<rparr>))"

definition imp_stmt :: "(import_db \<Rightarrow> pg_error + 'a \<times> import_db) \<Rightarrow> (import_db, pg_error + 'a) api" where
  "imp_stmt = fault_stmt ledger ledger_update"

lemma imp_stmt_unfold:
  "imp_stmt f s =
     (let t = s\<lparr>ledger := (ledger s)\<lparr>faults := tl (faults (ledger s))\<rparr>\<rparr> in
      if faults (ledger s) \<noteq> [] \<and> hd (faults (ledger s)) \<noteq> None
      then (Inr (Inl (the (hd (faults (ledger s))))), t)
      else (case f t of Inl e \<Rightarrow> (Inr (Inl e), t) | Inr (x, u) \<Rightarrow> (Inr (Inr x), u)))"
proof -
  have "ledger_update drop_fault s = s\<lparr>ledger := (ledger s)\<lparr>faults := tl (faults (ledger s))\<rparr>\<rparr>"
    by (cases s) (simp add: drop_fault_def)
  then show ?thesis by (simp only: imp_stmt_def fault_stmt_def)
qed

text \<open>The policies: a job is its creator's, while an active member; a row is its job's.\<close>

definition job_visible :: "string \<Rightarrow> import_db \<Rightarrow> import_job \<Rightarrow> bool" where
  "job_visible uid s j \<longleftrightarrow> ij_created_by j = uid \<and> is_member uid (ledger s) (ij_workspace_id j)"

definition row_visible :: "string \<Rightarrow> import_db \<Rightarrow> import_row \<Rightarrow> bool" where
  "row_visible uid s r \<longleftrightarrow> list_ex (\<lambda>j. ij_id j = ir_job_id r \<and> job_visible uid s j) (import_jobs s)"

definition job_conflicts :: "import_job \<Rightarrow> import_job \<Rightarrow> bool" where
  "job_conflicts new old \<longleftrightarrow> ij_id new = ij_id old
     \<or> (ij_workspace_id new = ij_workspace_id old \<and> ij_created_by new = ij_created_by old
         \<and> ij_idempotency_key new = ij_idempotency_key old)"

definition insert_job :: "string \<Rightarrow> import_job \<Rightarrow> import_db \<Rightarrow> pg_error + import_job \<times> import_db" where
  "insert_job uid j s =
     (if \<not> job_visible uid s j then Inl (pg RLS_VIOLATION)
      else if list_ex (job_conflicts j) (import_jobs s) then Inl (pg UNIQUE_VIOLATION)
      else if ij_filename j = [] \<or> 180 < length (ij_filename j) then Inl (pg CHECK_VIOLATION)
      else Inr (j, s\<lparr>import_jobs := import_jobs s @ [j]\<rparr>))"

definition update_job ::
    "string \<Rightarrow> string \<Rightarrow> (import_job \<Rightarrow> import_job) \<Rightarrow> import_db \<Rightarrow> pg_error + import_job list \<times> import_db" where
  "update_job uid jid patch s =
     (let hit = (\<lambda>j. ij_id j = jid \<and> job_visible uid s j) in
      Inr (map patch (filter hit (import_jobs s)),
           s\<lparr>import_jobs := map (\<lambda>j. if hit j then patch j else j) (import_jobs s)\<rparr>))"

definition same_row :: "import_row \<Rightarrow> import_row \<Rightarrow> bool" where
  "same_row a b \<longleftrightarrow> ir_job_id a = ir_job_id b \<and> ir_row_number a = ir_row_number b"

definition insert_rows :: "string \<Rightarrow> import_row list \<Rightarrow> import_db \<Rightarrow> pg_error + unit \<times> import_db" where
  "insert_rows uid rs s =
     (if \<not> list_all (row_visible uid s) rs then Inl (pg RLS_VIOLATION)
      else if \<not> distinct (map (\<lambda>r. (ir_job_id r, ir_row_number r)) rs)
          \<or> list_ex (\<lambda>r. list_ex (same_row r) (import_rows s)) rs then Inl (pg UNIQUE_VIOLATION)
      else Inr ((), s\<lparr>import_rows := import_rows s @ rs\<rparr>))"

text \<open>The foreign key of a row: its entry exists in its workspace.\<close>

definition row_entry_ok :: "db \<Rightarrow> import_row \<Rightarrow> bool" where
  "row_entry_ok l r \<longleftrightarrow> (case ir_journal_entry_id r of None \<Rightarrow> True
     | Some e \<Rightarrow> list_ex (\<lambda>x. je_id x = e \<and> je_workspace_id x = ir_workspace_id r) (journal_entries l))"

definition update_row ::
    "string \<Rightarrow> string \<Rightarrow> nat \<Rightarrow> (import_row \<Rightarrow> import_row) \<Rightarrow> import_db \<Rightarrow> pg_error + unit \<times> import_db" where
  "update_row uid jid n patch s =
     (let hit = (\<lambda>r. ir_job_id r = jid \<and> ir_row_number r = n \<and> row_visible uid s r) in
      if \<not> list_all (\<lambda>r. row_entry_ok (ledger s) (patch r)) (filter hit (import_rows s)) then Inl (pg FK_VIOLATION)
      else Inr ((), s\<lparr>import_rows := map (\<lambda>r. if hit r then patch r else r) (import_rows s)\<rparr>))"

section \<open>Reading jobs\<close>

definition imports_list :: "string \<Rightarrow> string \<Rightarrow> (import_db, import_job list) api" where
  "imports_list ws uid =
     api_bind (imp_stmt (\<lambda>s. Inr (take 20 (rev [j \<leftarrow> import_jobs s. job_visible uid s j
         \<and> ij_workspace_id j = ws \<and> ij_created_by j = uid]), s))) (\<lambda>r.
     case r of Inl e \<Rightarrow> api_throw (Js_error (pg_message e)) | Inr jobs \<Rightarrow> api_return jobs)"

definition imports_get :: "string \<Rightarrow> string \<Rightarrow> string \<Rightarrow> (import_db, import_job \<times> import_row list) api" where
  "imports_get ws jid uid =
     api_bind (imp_stmt (\<lambda>s. case maybe_single [j \<leftarrow> import_jobs s. job_visible uid s j \<and> ij_id j = jid
         \<and> ij_workspace_id j = ws \<and> ij_created_by j = uid] of Inl e \<Rightarrow> Inl e | Inr x \<Rightarrow> Inr (x, s))) (\<lambda>found.
     case data_maybe found of
       None \<Rightarrow> api_throw (Not_found ''IMPORT_NOT_FOUND'' ''Import job not found'')
     | Some job \<Rightarrow>
         api_bind (imp_stmt (\<lambda>s. Inr (take 500 (sort_key ir_row_number
             [r \<leftarrow> import_rows s. row_visible uid s r \<and> ir_job_id r = jid]), s))) (\<lambda>rows.
         api_return (job, data_list rows)))"

section \<open>Creating an import\<close>

definition byte_length :: "string \<Rightarrow> nat" where
  "byte_length s = sum_list (map (\<lambda>c. if cu c < 128 then 1 else 2) s)"

definition jobs_of_key :: "string \<Rightarrow> string \<Rightarrow> string \<Rightarrow> import_db \<Rightarrow> import_job list" where
  "jobs_of_key ws uid key s = [j \<leftarrow> import_jobs s. job_visible uid s j \<and> ij_workspace_id j = ws
     \<and> ij_created_by j = uid \<and> ij_idempotency_key j = key]"

definition find_job :: "string \<Rightarrow> string \<Rightarrow> string \<Rightarrow> (import_db, import_job option) api" where
  "find_job ws uid key =
     api_bind (imp_stmt (\<lambda>s. case maybe_single (jobs_of_key ws uid key s) of Inl e \<Rightarrow> Inl e | Inr x \<Rightarrow> Inr (x, s)))
       (\<lambda>r. api_return (data_maybe r))"

definition import_accounts :: "string \<Rightarrow> string \<Rightarrow> string \<Rightarrow> db \<Rightarrow> ledger_account list" where
  "import_accounts uid ws acc s = [a \<leftarrow> visible_accounts uid s. la_id a = acc \<and> la_workspace_id a = ws
     \<and> la_deleted_at a = None]"

definition new_job :: "env \<Rightarrow> string \<Rightarrow> string \<Rightarrow> create_import_dto \<Rightarrow> string \<Rightarrow> import_job" where
  "new_job E ws uid dto jid = \<lparr>ij_id = jid, ij_workspace_id = ws, ij_created_by = uid,
     ij_idempotency_key = ci_idempotency_key dto, ij_format = ci_format dto, ij_filename = ci_filename dto,
     ij_status = IS_PROCESSING, ij_total_rows = 0, ij_imported_rows = 0, ij_failed_rows = 0,
     ij_error_message = None, ij_started_at = Some (env_now E), ij_completed_at = None\<rparr>"

definition fail_job :: "env \<Rightarrow> string \<Rightarrow> string \<Rightarrow> string \<Rightarrow> (import_db, pg_error + import_job list) api" where
  "fail_job E uid jid message = imp_stmt (update_job uid jid (\<lambda>j. j\<lparr>ij_status := IS_FAILED,
     ij_error_message := Some message, ij_completed_at := Some (env_now E)\<rparr>))"

definition parsed_rows :: "create_import_dto \<Rightarrow> string + parsed_row list" where
  "parsed_rows dto =
     (case parse (ci_format dto) (ci_content dto) of
        Inl e \<Rightarrow> Inl e
      | Inr parsed \<Rightarrow>
          if parsed = [] then Inl ''No transaction rows were found''
          else if 5000 < length parsed then Inl ''An import may contain at most 5,000 rows''
          else Inr parsed)"

definition staged_rows :: "string \<Rightarrow> string \<Rightarrow> parsed_row list \<Rightarrow> import_row list" where
  "staged_rows jid ws parsed = map (\<lambda>(i, row). \<lparr>ir_job_id = jid, ir_workspace_id = ws, ir_row_number = i + 1,
     ir_normalized_payload = row, ir_status = IR_PENDING, ir_error_message = None, ir_journal_entry_id = None\<rparr>)
     (enumerate 0 parsed)"

function chunks :: "nat \<Rightarrow> 'a list \<Rightarrow> 'a list list" where
  "chunks n xs = (if xs = [] \<or> n = 0 then [] else take n xs # chunks n (drop n xs))"
  by pat_completeness auto

termination by (relation "measure (\<lambda>(_, xs). length xs)") auto

declare chunks.simps [simp del]

definition stage :: "env \<Rightarrow> string \<Rightarrow> string \<Rightarrow> import_row list \<Rightarrow> (import_db, unit list) api" where
  "stage E uid jid staged =
     api_map (\<lambda>chunk.
       api_bind (imp_stmt (insert_rows uid chunk)) (\<lambda>r.
       case r of
         Inl e \<Rightarrow> api_bind (fail_job E uid jid (take 500 (pg_message e))) (\<lambda>_.
           api_throw (Bad_request ''IMPORT_STAGE_FAILED'' (pg_message e)))
       | Inr _ \<Rightarrow> api_return ())) (chunks 500 staged)"

definition rowKey :: "env \<Rightarrow> string \<Rightarrow> nat \<Rightarrow> string" where
  "rowKey E jobId row =
     (let hex = take 32 (env_sha256 E (jobId @ '':'' @ show_nat row)) in
      js_slice 0 8 hex @ ''-'' @ js_slice 8 12 hex @ ''-4'' @ js_slice 13 16 hex @ ''-a'' @ js_slice 17 20 hex
        @ ''-'' @ drop 20 hex)"

text \<open>What a row asks of \<open>createTransaction\<close>, or why it cannot.\<close>

definition row_request ::
    "env \<Rightarrow> create_import_dto \<Rightarrow> string \<Rightarrow> string \<Rightarrow> nat \<Rightarrow> parsed_row \<Rightarrow> string + create_transaction_dto" where
  "row_request E dto cur jid n row =
     (let expense = starts_with (pr_amount row) ''-'';
        categoryId = (if expense then truthy (Some (ci_expense_category_id dto)) else truthy (ci_income_category_id dto)) in
      case categoryId of
        None \<Rightarrow> Inl (if expense then ''No expense category was selected for a negative row''
                   else ''No income category was selected for a positive row'')
      | Some c \<Rightarrow>
          (case decimalToMinor (pr_amount row) cur of
             Inl e \<Rightarrow> Inl e
           | Inr minor \<Rightarrow>
               if MAX_SAFE_INTEGER < int minor \<or> minor = 0 then Inl ''Amount is not a positive representable value''
               else (case pr_note row of
                   None \<Rightarrow> Inl (type_error ''slice'')
                 | Some note \<Rightarrow> Inr \<lparr>ct_type = (if expense then ''EXPENSE'' else ''INCOME''),
                     ct_amount = show_nat minor, ct_account_id = ci_account_id dto, ct_category_id = Some c,
                     ct_transfer_to_account_id = None, ct_occurred_at = Some (pr_date row),
                     ct_payee = Some (take 200 (pr_payee row)), ct_note = Some (take 500 note), ct_tags = [],
                     ct_idempotency_key = rowKey E jid n\<rparr>)))"

definition import_row_of ::
    "env \<Rightarrow> string \<Rightarrow> string \<Rightarrow> create_import_dto \<Rightarrow> string \<Rightarrow> string \<Rightarrow> nat \<Rightarrow> parsed_row \<Rightarrow> (import_db, bool) api" where
  "import_row_of E ws uid dto cur jid n row =
     api_catch
       (api_bind (case row_request E dto cur jid n row of
            Inl e \<Rightarrow> api_throw (Js_error e)
          | Inr tx \<Rightarrow> on_ledger (createTransaction E (api_return ()) IMPORT False ws uid tx)) (\<lambda>created.
        api_bind (imp_stmt (update_row uid jid n (\<lambda>r. r\<lparr>ir_status := IR_IMPORTED,
          ir_journal_entry_id := Some (je_id (tv_entry created))\<rparr>))) (\<lambda>_.
        api_return True)))
       (\<lambda>e. api_bind (imp_stmt (update_row uid jid n (\<lambda>r. r\<lparr>ir_status := IR_FAILED,
          ir_error_message := Some (take 500 (exn_message e))\<rparr>))) (\<lambda>_.
        api_return False))"

fun import_loop ::
    "(nat \<Rightarrow> parsed_row \<Rightarrow> (import_db, bool) api) \<Rightarrow> nat \<Rightarrow> parsed_row list \<Rightarrow> nat \<Rightarrow> nat \<Rightarrow> (import_db, nat \<times> nat) api" where
  "import_loop f index [] imported failed = api_return (imported, failed)"
| "import_loop f index (row # rows) imported failed =
     api_bind (f (index + 1) row) (\<lambda>ok.
       if ok then import_loop f (index + 1) rows (imported + 1) failed
       else import_loop f (index + 1) rows imported (failed + 1))"

definition final_status :: "nat \<Rightarrow> nat \<Rightarrow> ImportStatus" where
  "final_status imported failed =
     (if failed = 0 then IS_COMPLETED else if 0 < imported then IS_COMPLETED_WITH_ERRORS else IS_FAILED)"

definition run_import ::
    "env \<Rightarrow> string \<Rightarrow> string \<Rightarrow> create_import_dto \<Rightarrow> string \<Rightarrow> import_job \<Rightarrow> parsed_row list \<Rightarrow> (import_db, import_job option) api" where
  "run_import E ws uid dto cur job parsed =
     api_bind (stage E uid (ij_id job) (staged_rows (ij_id job) ws parsed)) (\<lambda>_.
     api_bind (imp_stmt (update_job uid (ij_id job) (\<lambda>j. j\<lparr>ij_total_rows := length parsed\<rparr>))) (\<lambda>_.
     api_bind (import_loop (import_row_of E ws uid dto cur (ij_id job)) 0 parsed 0 0) (\<lambda>(imported, failed).
     api_bind (imp_stmt (update_job uid (ij_id job) (\<lambda>j. j\<lparr>ij_status := final_status imported failed,
         ij_imported_rows := imported, ij_failed_rows := failed, ij_completed_at := Some (env_now E)\<rparr>))) (\<lambda>r.
     api_return (case r of Inl e \<Rightarrow> None | Inr rows \<Rightarrow> data_of (single rows))))))"

definition createImport ::
    "env \<Rightarrow> string \<Rightarrow> string \<Rightarrow> create_import_dto \<Rightarrow> (import_db, import_job option) api" where
  "createImport E ws uid dto =
     (if 5 * 1024 * 1024 < byte_length (ci_content dto)
      then api_throw (Bad_request ''IMPORT_PARSE_FAILED'' ''Statement must be no larger than 5 MB'')
      else
        api_bind (find_job ws uid (ci_idempotency_key dto)) (\<lambda>existing.
        case existing of
          Some job \<Rightarrow> api_return (Some job)
        | None \<Rightarrow>
            api_bind (on_ledger (select_maybe (import_accounts uid ws (ci_account_id dto)))) (\<lambda>found.
            case data_maybe found of
              None \<Rightarrow> api_throw (Bad_request ''INVALID_REFERENCE'' ''Import account is not available'')
            | Some account \<Rightarrow>
                api_bind (on_ledger (randomUUID E)) (\<lambda>jid.
                api_bind (imp_stmt (insert_job uid (new_job E ws uid dto jid))) (\<lambda>inserted.
                api_bind (case inserted of
                    Inl e \<Rightarrow> if pg_code e = UNIQUE_VIOLATION then find_job ws uid (ci_idempotency_key dto)
                             else api_return None
                  | Inr _ \<Rightarrow> api_return None) (\<lambda>raced.
                case raced of
                  Some job \<Rightarrow> api_return (Some job)
                | None \<Rightarrow>
                    (case inserted of
                       Inl e \<Rightarrow> api_throw (Bad_request ''IMPORT_CREATE_FAILED'' (pg_message e))
                     | Inr job \<Rightarrow>
                         (case parsed_rows dto of
                            Inl message \<Rightarrow>
                              api_bind (fail_job E uid (ij_id job) message) (\<lambda>_.
                              api_throw (Bad_request ''IMPORT_PARSE_FAILED'' message))
                          | Inr parsed \<Rightarrow> run_import E ws uid dto (la_currency_code account) job parsed))))))))"

section \<open>Invariants of the import tables\<close>

definition jobs_unique :: "import_job list \<Rightarrow> bool" where
  "jobs_unique js \<longleftrightarrow> sorted_wrt (\<lambda>old new. \<not> job_conflicts new old) js"

definition import_ok :: "import_db \<Rightarrow> bool" where
  "import_ok s \<longleftrightarrow> ledger_ok (ledger s) \<and> list_all (row_entry_ok (ledger s)) (import_rows s)
     \<and> jobs_unique (import_jobs s)"

definition journal_grows :: "db \<Rightarrow> db \<Rightarrow> bool" where
  "journal_grows l m \<longleftrightarrow> (\<exists>es. journal_entries m = journal_entries l @ es)"

lemma row_entry_grows: "journal_grows l m \<Longrightarrow> row_entry_ok l r \<Longrightarrow> row_entry_ok m r"
  by (auto simp: journal_grows_def row_entry_ok_def split: option.splits)

lemma row_entry_None: "ir_journal_entry_id r = None \<Longrightarrow> row_entry_ok l r"
  by (simp add: row_entry_ok_def)

lemma journal_grows_create: "guar journal_grows (createTransaction E (api_return ()) src ev ws uid dto)"
proof (rule guarI)
  fix l
  obtain r m where run: "createTransaction E (api_return ()) src ev ws uid dto l = (r, m)" by fastforce
  have "case r of Inl e \<Rightarrow> create_threw l m | Inr v \<Rightarrow> create_returned E src ws uid dto l v m"
    by (rule create_effect [OF ledger_silent_return run])
  then show "journal_grows l (snd (createTransaction E (api_return ()) src ev ws uid dto l))"
    by (auto simp: run journal_grows_def create_threw_def create_returned_def same_ledger_def split: sum.splits)
qed

lemma ledger_ok_faults [simp]: "ledger_ok (l\<lparr>faults := fs\<rparr>) = ledger_ok l"
  by (simp add: ledger_ok_def ledger_wf_def ledger_balanced_def)

lemma row_entry_ok_faults [simp]: "row_entry_ok (l\<lparr>faults := fs\<rparr>) = row_entry_ok l"
  by (rule ext) (simp add: row_entry_ok_def split: option.split)

lemma keeps_imp_stmt:
  assumes "\<And>s fs. P (s\<lparr>ledger := (ledger s)\<lparr>faults := fs\<rparr>\<rparr>) = P s"
    and "\<And>s x t. P s \<Longrightarrow> f s = Inr (x, t) \<Longrightarrow> P t"
  shows "keeps P (imp_stmt f)"
  unfolding imp_stmt_def
proof (rule keeps_fault_stmt [OF _ assms(2)])
  fix s
  assume "P s"
  moreover have "ledger_update drop_fault s = s\<lparr>ledger := (ledger s)\<lparr>faults := tl (faults (ledger s))\<rparr>\<rparr>"
    by (cases s) (simp add: drop_fault_def)
  ultimately show "P (ledger_update drop_fault s)" by (simp only: assms(1))
qed

lemma keeps_import_stmt:
  assumes "\<And>s x t. import_ok s \<Longrightarrow> f s = Inr (x, t) \<Longrightarrow> import_ok t"
  shows "keeps import_ok (imp_stmt f)"
  using assms by (rule keeps_imp_stmt [rotated]) (simp_all add: import_ok_def)

lemma keeps_import_read: "(\<And>s x t. f s = Inr (x, t) \<Longrightarrow> t = s) \<Longrightarrow> keeps import_ok (imp_stmt f)"
  by (rule keeps_import_stmt) blast

lemma keeps_import_ledger:
  assumes "keeps ledger_ok m" "guar journal_grows m"
  shows "keeps import_ok (on_ledger m)"
proof (rule keepsI)
  fix s
  assume ok: "import_ok s"
  obtain r l where run: "m (ledger s) = (r, l)" by fastforce
  have "ledger_ok l" using keeps_run [OF assms(1) _ run] ok by (simp add: import_ok_def)
  moreover have "journal_grows (ledger s) l" by (rule guar_run [OF assms(2) run])
  ultimately show "import_ok (snd (on_ledger m s))"
    using ok by (auto simp: on_ledger_def run import_ok_def list_all_iff intro: row_entry_grows)
qed

lemma keeps_find_job [keeps_intros]: "keeps import_ok (find_job ws uid key)"
  unfolding find_job_def
  by (intro keeps_intros keeps_import_read) (auto split: sum.splits)

lemma keeps_insert_job [keeps_intros]: "keeps import_ok (imp_stmt (insert_job uid j))"
  by (rule keeps_import_stmt)
    (auto simp: insert_job_def import_ok_def jobs_unique_def sorted_wrt_append list_ex_iff split: if_splits)

lemma jobs_unique_map:
  assumes "\<And>j. ij_id (f j) = ij_id j" "\<And>j. ij_workspace_id (f j) = ij_workspace_id j"
    "\<And>j. ij_created_by (f j) = ij_created_by j" "\<And>j. ij_idempotency_key (f j) = ij_idempotency_key j"
  shows "jobs_unique (map f js) = jobs_unique js"
  by (simp add: jobs_unique_def sorted_wrt_map job_conflicts_def assms)

definition keeps_identity :: "(import_job \<Rightarrow> import_job) \<Rightarrow> bool" where
  "keeps_identity f \<longleftrightarrow> (\<forall>j. ij_id (f j) = ij_id j \<and> ij_workspace_id (f j) = ij_workspace_id j
     \<and> ij_created_by (f j) = ij_created_by j \<and> ij_idempotency_key (f j) = ij_idempotency_key j)"

lemma keeps_update_job: "keeps_identity patch \<Longrightarrow> keeps import_ok (imp_stmt (update_job uid jid patch))"
  by (rule keeps_import_stmt)
    (auto simp: update_job_def import_ok_def Let_def keeps_identity_def intro!: jobs_unique_map [THEN iffD2])

lemma keeps_fail_job [keeps_intros]: "keeps import_ok (fail_job E uid jid m)"
  unfolding fail_job_def by (rule keeps_update_job) (simp add: keeps_identity_def)

lemma keeps_update_row [keeps_intros]: "keeps import_ok (imp_stmt (update_row uid jid n patch))"
  by (rule keeps_import_stmt)
    (auto simp: update_row_def import_ok_def Let_def list_all_iff split: if_splits)

definition fresh_rows :: "import_row list \<Rightarrow> bool" where
  "fresh_rows rs \<longleftrightarrow> list_all (\<lambda>r. ir_journal_entry_id r = None) rs"

lemma keeps_insert_rows: "fresh_rows rs \<Longrightarrow> keeps import_ok (imp_stmt (insert_rows uid rs))"
  by (rule keeps_import_stmt)
    (auto simp: insert_rows_def import_ok_def fresh_rows_def list_all_iff row_entry_None split: if_splits)

lemma set_chunks: "c \<in> set (chunks n xs) \<Longrightarrow> set c \<subseteq> set xs"
  by (induction n xs rule: chunks.induct) (subst (asm) (2) chunks.simps, fastforce split: if_splits
      dest: in_set_takeD in_set_dropD)

lemma keeps_stage [keeps_intros]: "keeps import_ok (stage E uid jid (staged_rows jid ws parsed))"
proof -
  have "fresh_rows c" if "c \<in> set (chunks 500 (staged_rows jid ws parsed))" for c
    using set_chunks [OF that] by (fastforce simp: fresh_rows_def list_all_iff staged_rows_def)
  then show ?thesis unfolding stage_def by (intro keeps_map_set keeps_intros keeps_insert_rows)
qed

lemma keeps_create_on_ledger [keeps_intros]:
  "keeps import_ok (on_ledger (createTransaction E (api_return ()) src ev ws uid dto))"
  by (intro keeps_import_ledger journal_grows_create keeps_createTransaction keeps_intros)

lemma keeps_import_row_of [keeps_intros]: "keeps import_ok (import_row_of E ws uid dto cur jid n row)"
  unfolding import_row_of_def by (intro keeps_intros)

lemma keeps_import_loop:
  assumes "\<And>n row. keeps P (f n row)"
  shows "keeps P (import_loop f i rows a b)"
  by (induction rows arbitrary: i a b) (auto intro!: keeps_intros assms)

lemma keeps_run_import [keeps_intros]: "keeps import_ok (run_import E ws uid dto cur job parsed)"
  unfolding run_import_def case_prod_unfold
  by (intro keeps_intros keeps_import_loop keeps_update_job) (simp_all add: keeps_identity_def)

lemma keeps_createImport: "keeps import_ok (createImport E ws uid dto)"
proof -
  have "keeps import_ok (on_ledger (select_maybe q))" "keeps import_ok (on_ledger (randomUUID E))" for q :: "db \<Rightarrow> 'a list"
    by (auto simp: keeps_def on_ledger_def select_maybe_def stmt_def randomUUID_def import_ok_def ledger_ok_def
        ledger_wf_def ledger_balanced_def Let_def list_all_iff row_entry_ok_def split: sum.splits option.splits)
  then show ?thesis unfolding createImport_def by (intro keeps_intros)
qed

text \<open>
  Importing a statement keeps the ledger balanced and well formed, whatever fails on the way;
  every row that names an entry names one that exists in its workspace, and a key has one job.
\<close>

theorem createImport_keeps_ledger:
  assumes "import_ok s"
  shows "import_ok (snd (createImport E ws uid dto s))"
  by (rule keepsD [OF keeps_createImport assms])

section \<open>The counts of a job\<close>

lemma total_imp_stmt [total_intros]: "total_call (imp_stmt f)"
  unfolding imp_stmt_def by (rule total_fault_stmt)

lemma total_import_row_of: "total_call (import_row_of E ws uid dto cur jid n row)"
  unfolding import_row_of_def by (intro total_intros)

lemma import_loop_counts:
  "yields (\<lambda>(a', b'). a' + b' = a + b + length rows) (import_loop f i rows a b)"
proof (induction rows arbitrary: i a b)
  case (Cons row rows)
  have "yields (\<lambda>(a', b'). a' + b' = a + b + length (row # rows))
      (if ok then import_loop f (i + 1) rows (a + 1) b else import_loop f (i + 1) rows a (b + 1))" for ok
    using Cons.IH [where i = "i + 1" and a = "a + 1" and b = b] Cons.IH [where i = "i + 1" and a = a and b = "b + 1"] by (auto simp: yields_def)
  then show ?case by (auto intro: yields_bind [OF yields_True])
qed (auto intro: yields_return)

definition counted :: "parsed_row list \<Rightarrow> import_job \<Rightarrow> bool" where
  "counted parsed j \<longleftrightarrow> ij_imported_rows j + ij_failed_rows j = length parsed
     \<and> ij_status j = final_status (ij_imported_rows j) (ij_failed_rows j) \<and> ij_completed_at j \<noteq> None"

lemma update_job_yields:
  assumes "\<And>j. Q (patch j)"
  shows "yields (\<lambda>r. case r of Inl e \<Rightarrow> True | Inr js \<Rightarrow> list_all Q js) (imp_stmt (update_job uid jid patch))"
  using assms by (auto simp: yields_def imp_stmt_unfold update_job_def Let_def list_all_iff split: if_splits)

lemma run_import_counted:
  "yields (\<lambda>r. case r of None \<Rightarrow> True | Some j \<Rightarrow> counted parsed j) (run_import E ws uid dto cur job parsed)"
proof -
  let ?last = "\<lambda>a b. imp_stmt (update_job uid (ij_id job) (\<lambda>j. j\<lparr>ij_status := final_status a b,
         ij_imported_rows := a, ij_failed_rows := b, ij_completed_at := Some (env_now E)\<rparr>))"
  have last: "yields (\<lambda>r. case r of Inl e \<Rightarrow> True | Inr js \<Rightarrow> list_all (counted parsed) js) (?last a b)"
    if "a + b = length parsed" for a b
    using that by (intro update_job_yields) (simp add: counted_def)
  have fin: "yields (\<lambda>r. case r of None \<Rightarrow> True | Some j \<Rightarrow> counted parsed j)
      (api_return (case r of Inl e \<Rightarrow> None | Inr rows \<Rightarrow> data_of (single rows)))"
    if "case r of Inl e \<Rightarrow> True | Inr js \<Rightarrow> list_all (counted parsed) js" for r :: "pg_error + import_job list"
    using that by (intro yields_return) (auto simp: single_def data_of_def split: sum.splits list.splits)
  have loop: "yields (\<lambda>(a, b). a + b = length parsed)
      (import_loop (import_row_of E ws uid dto cur (ij_id job)) 0 parsed 0 0)"
    using import_loop_counts [of 0 0 parsed] by simp
  show ?thesis
    unfolding run_import_def
    by (intro yields_bind [OF yields_True] yields_bind [OF loop]) (auto intro: yields_bind [OF last] fin)
qed

definition of_key :: "string \<Rightarrow> string \<Rightarrow> string \<Rightarrow> import_job \<Rightarrow> bool" where
  "of_key ws uid key j \<longleftrightarrow> ij_workspace_id j = ws \<and> ij_created_by j = uid \<and> ij_idempotency_key j = key"

lemma jobs_of_key_single: "jobs_of_key ws uid key s = [j] \<Longrightarrow> of_key ws uid key j"
proof -
  assume "jobs_of_key ws uid key s = [j]"
  then have "j \<in> set (jobs_of_key ws uid key s)" by simp
  then show ?thesis by (simp add: jobs_of_key_def of_key_def)
qed

lemma find_job_yields: "yields (\<lambda>r. case r of None \<Rightarrow> True | Some j \<Rightarrow> of_key ws uid key j) (find_job ws uid key)"
  by (rule yieldsI) (auto simp: find_job_def api_bind_Inr api_return_def imp_stmt_unfold Let_def data_maybe_def maybe_single_def
      split: if_splits sum.splits option.splits list.splits dest: jobs_of_key_single)


section \<open>Submitting an import again\<close>

definition untouched :: "import_db \<Rightarrow> import_db \<Rightarrow> bool" where
  "untouched s t \<longleftrightarrow> same_ledger (ledger s) (ledger t) \<and> import_jobs t = import_jobs s \<and> import_rows t = import_rows s"

lemma untouched_faults [simp]: "untouched s (t\<lparr>ledger := (ledger t)\<lparr>faults := fs\<rparr>\<rparr>) = untouched s t"
  by (simp add: untouched_def same_ledger_def)

lemma jobs_of_key_set: "jobs_of_key ws uid key t = [j] \<Longrightarrow> j \<in> set (import_jobs t)"
proof -
  assume "jobs_of_key ws uid key t = [j]"
  then have "j \<in> set (jobs_of_key ws uid key t)" by simp
  then show ?thesis by (simp add: jobs_of_key_def)
qed

lemma triple_find_job:
  "triple (untouched s) (find_job ws uid key)
     (\<lambda>r t. untouched s t \<and> (case r of None \<Rightarrow> True | Some j \<Rightarrow> j \<in> set (import_jobs s))) (untouched s)"
  by (rule tripleI) (auto simp: find_job_def api_bind_def api_return_def imp_stmt_unfold Let_def data_maybe_def maybe_single_def
      untouched_def same_ledger_def split: sum.split list.split option.split dest!: jobs_of_key_set)

lemma insert_existing_fails:
  assumes "list_ex (of_key ws uid (ci_idempotency_key dto)) (import_jobs u)"
  shows "\<exists>e. insert_job uid (new_job E ws uid dto jid) u = Inl e"
proof -
  have "list_ex (job_conflicts (new_job E ws uid dto jid)) (import_jobs u)"
    using assms by (auto simp: list_ex_iff of_key_def job_conflicts_def new_job_def)
  then show ?thesis by (simp add: insert_job_def)
qed

lemma import_job_unchanged: "import_jobs (u\<lparr>ledger := l\<rparr>) = import_jobs u"
  by simp

lemma triple_insert_existing:
  assumes "list_ex (of_key ws uid (ci_idempotency_key dto)) (import_jobs s)"
  shows "triple (untouched s) (imp_stmt (insert_job uid (new_job E ws uid dto jid)))
     (\<lambda>r t. untouched s t \<and> isl r) X"
proof (rule tripleI)
  fix u
  assume u: "untouched s u"
  obtain e where e: "insert_job uid (new_job E ws uid dto jid) (u\<lparr>ledger := (ledger u)\<lparr>faults := tl (faults (ledger u))\<rparr>\<rparr>) = Inl e"
    using insert_existing_fails assms u by (metis import_job_unchanged untouched_def)
  then show "case imp_stmt (insert_job uid (new_job E ws uid dto jid)) u of
      (Inl e, t) \<Rightarrow> X t | (Inr r, t) \<Rightarrow> untouched s t \<and> isl r"
    unfolding imp_stmt_unfold Let_def e using u by simp
qed

lemma keeps_untouched_ledger:
  "keeps (untouched s) (on_ledger (select_maybe q))" "keeps (untouched s) (on_ledger (randomUUID E))"
  by (auto simp: keeps_def on_ledger_def select_maybe_def stmt_def randomUUID_def untouched_def same_ledger_def Let_def
      split: sum.splits)

lemma resubmitted:
  assumes "list_ex (of_key ws uid (ci_idempotency_key dto)) (import_jobs s)"
  shows "triple (untouched s) (createImport E ws uid dto)
     (\<lambda>r t. untouched s t \<and> (case r of None \<Rightarrow> False | Some j \<Rightarrow> j \<in> set (import_jobs s))) (untouched s)"
  unfolding createImport_def
  apply (rule triple_if, rule triple_throw, assumption)
  apply (rule triple_bind [OF triple_find_job])
  apply (rule triple_assume)
  apply (rule triple_case_option)
   apply (rule triple_bind [OF triple_keeps [OF keeps_untouched_ledger(1)]])
   apply (rule triple_case_option, rule triple_throw, assumption)
   apply (rule triple_bind [OF triple_keeps [OF keeps_untouched_ledger(2)]])
   apply (rule triple_bind [OF triple_insert_existing [OF assms]])
   apply (rule triple_assume)
   apply (rule triple_bind [where R = "\<lambda>r t. untouched s t \<and> (case r of None \<Rightarrow> True | Some j \<Rightarrow> j \<in> set (import_jobs s))"])
    apply (auto simp: isl_def intro!: triple_if triple_find_job triple_return)[1]
   apply (rule triple_assume)
   apply (rule triple_case_option)
    apply (auto simp: isl_def intro!: triple_throw)[1]
   apply (rule triple_return, simp)+
  done

text \<open>
  Once an import of a key exists, submitting it again writes neither a transaction nor a job nor
  a row and can only return that job, whatever fails. So an import that died while it was
  \<open>PROCESSING\<close> is never taken up again under its key.
\<close>

theorem resubmitted_import_writes_nothing:
  assumes "list_ex (of_key ws uid (ci_idempotency_key dto)) (import_jobs s)"
    and "createImport E ws uid dto s = (r, t)"
  shows "untouched s t \<and> (case r of Inl e \<Rightarrow> True | Inr None \<Rightarrow> False | Inr (Some job) \<Rightarrow> job \<in> set (import_jobs s))"
proof -
  have "untouched s s" by (simp add: untouched_def same_ledger_def)
  then have "case createImport E ws uid dto s of (Inl e, t) \<Rightarrow> untouched s t
      | (Inr r, t) \<Rightarrow> untouched s t \<and> (case r of None \<Rightarrow> False | Some j \<Rightarrow> j \<in> set (import_jobs s))"
    by (rule tripleD [OF resubmitted [OF assms(1)]])
  then show ?thesis unfolding assms(2) prod.case by (cases r) (auto split: option.splits)
qed

section \<open>A concrete import\<close>

definition demo_import_dto :: create_import_dto where
  "demo_import_dto = \<lparr>ci_format = QIF, ci_content = ''D01/02/26'', ci_filename = ''a.qif'', ci_account_id = ''cash'',
     ci_expense_category_id = ''food'', ci_income_category_id = None, ci_idempotency_key = ''k1''\<rparr>"

definition demo_imports :: import_db where
  "demo_imports = \<lparr>ledger = demo_db, import_jobs = [new_job demo_env ''w1'' ''u1'' demo_import_dto ''j1''], import_rows = []\<rparr>"

lemma demo_imports_no_faults [simp]: "faults (ledger demo_imports) = []"
  by (simp add: demo_imports_def)

lemma demo_import_ok: "import_ok demo_imports"
  by (simp add: demo_imports_def import_ok_def jobs_unique_def)

lemma imp_stmt_no_fault:
  assumes "faults (ledger s) = []"
  shows "imp_stmt f s = (case f s of Inl e \<Rightarrow> (Inr (Inl e), s) | Inr (x, u) \<Rightarrow> (Inr (Inr x), u))"
proof -
  have same: "s\<lparr>ledger := (ledger s)\<lparr>faults := []\<rparr>\<rparr> = s" using assms by simp
  show ?thesis by (simp only: imp_stmt_unfold assms same Let_def list.sel) (simp add: case_prod_unfold)
qed

lemma demo_job_found: "jobs_of_key ''w1'' ''u1'' ''k1'' demo_imports = import_jobs demo_imports"
  by (simp add: jobs_of_key_def demo_imports_def job_visible_def new_job_def demo_import_dto_def)

lemma demo_import_run:
  "createImport demo_env ''w1'' ''u1'' demo_import_dto demo_imports
     = (Inr (Some (new_job demo_env ''w1'' ''u1'' demo_import_dto ''j1'')), demo_imports)"
proof -
  have "find_job ''w1'' ''u1'' ''k1'' demo_imports = (Inr (Some (new_job demo_env ''w1'' ''u1'' demo_import_dto ''j1'')), demo_imports)"
    by (simp add: find_job_def api_bind_def api_return_def imp_stmt_no_fault demo_job_found data_maybe_def maybe_single_def)
      (simp add: demo_imports_def api_return_def)
  moreover have "\<not> 5 * 1024 * 1024 < byte_length (ci_content demo_import_dto)" by (simp add: byte_length_def demo_import_dto_def)
  moreover have "ci_idempotency_key demo_import_dto = ''k1''" by (simp add: demo_import_dto_def)
  ultimately show ?thesis by (simp add: createImport_def api_bind_def api_return_def)
qed

theorem createImport_keeps_ledger_witness:
  "import_ok (snd (createImport demo_env ''w1'' ''u1'' demo_import_dto demo_imports))"
  by (rule createImport_keeps_ledger [OF demo_import_ok])


theorem resubmitted_import_writes_nothing_witness:
  "untouched demo_imports demo_imports
    \<and> (case Inr (Some (new_job demo_env ''w1'' ''u1'' demo_import_dto ''j1'')) :: api_exn + import_job option of
        Inl e \<Rightarrow> True | Inr None \<Rightarrow> False | Inr (Some job) \<Rightarrow> job \<in> set (import_jobs demo_imports))"
proof -
  have "list_ex (of_key ''w1'' ''u1'' (ci_idempotency_key demo_import_dto)) (import_jobs demo_imports)"
    by (simp add: demo_imports_def of_key_def new_job_def)
  then show ?thesis using resubmitted_import_writes_nothing [OF _ demo_import_run] by blast
qed

end
