(* ===== verification/WorkspaceExport.thy ===== *)
theory WorkspaceExport
  imports Statements TransactionReads
begin

text \<open>
  \<open>apps/api/src/imports/workspace-export.service.ts\<close>: reading all transactions of a workspace page
  by page, and writing them as CSV and as a PDF document. The CSV writer is related to the CSV
  reader of the imports; the cross-reference table of the PDF to the bytes of its objects.
\<close>

section \<open>Rows\<close>

record export_row =
  xr_entry :: journal_entry
  xr_amount_minor :: int
  xr_currency :: string

definition PAGE_SIZE :: nat where "PAGE_SIZE = 1000"

definition export_page :: "string \<Rightarrow> string \<Rightarrow> nat \<Rightarrow> db \<Rightarrow> (journal_entry \<times> journal_posting list) list" where
  "export_page uid ws offset s =
     map (\<lambda>e. (e, entry_postings uid (je_id e) s)) (take PAGE_SIZE (drop offset (matching_entries uid ws None s)))"

type_synonym export_entries = "(journal_entry \<times> journal_posting list) list"

text \<open>A round of the loop over the pages: its variables are the offset and the entries so far.\<close>

definition export_round ::
    "string \<Rightarrow> string \<Rightarrow> nat \<times> export_entries \<Rightarrow> (db, export_entries + nat \<times> export_entries) api" where
  "export_round uid ws v =
     api_bind (select (export_page uid ws (fst v))) (\<lambda>r.
     case r of
       Inl e \<Rightarrow> api_throw (Js_error (pg_message e))
     | Inr data \<Rightarrow> api_return (if length data < PAGE_SIZE then Inl (snd v @ data)
                    else Inr (fst v + PAGE_SIZE, snd v @ data)))"

definition export_row_of :: "journal_entry \<times> journal_posting list \<Rightarrow> export_row" where
  "export_row_of x = \<lparr>xr_entry = fst x, xr_amount_minor = amount_of (snd x),
     xr_currency = (case snd x of [] \<Rightarrow> [] | p # _ \<Rightarrow> jp_currency_code p)\<rparr>"

definition export_rows :: "string \<Rightarrow> string \<Rightarrow> (db, export_row list option) api" where
  "export_rows uid ws s =
     api_bind (api_loop (Suc (length (journal_entries s))) (export_round uid ws) (0, []))
       (\<lambda>entries. api_return (map_option (map export_row_of) entries)) s"

section \<open>CSV\<close>

definition formula_marker :: "char \<Rightarrow> bool" where
  "formula_marker c \<longleftrightarrow> c \<in> {CHR ''='', CHR ''+'', CHR ''-'', CHR ''@'', CHR 0x09, CHR 0x0D}"

definition inert :: "string \<Rightarrow> string" where
  "inert v = (if v \<noteq> [] \<and> formula_marker (hd v) then CHR 0x27 # v else v)"

definition double_quotes :: "string \<Rightarrow> string" where
  "double_quotes v = concat (map (\<lambda>c. if c = quote then [quote, quote] else [c]) v)"

definition escape_cell :: "string \<Rightarrow> string" where
  "escape_cell v = [quote] @ double_quotes (inert v) @ [quote]"

fun entry_type_text :: "EntryType \<Rightarrow> string" where
  "entry_type_text ET_INCOME = ''INCOME''"
| "entry_type_text ET_EXPENSE = ''EXPENSE''"
| "entry_type_text ET_TRANSFER = ''TRANSFER''"
| "entry_type_text ET_ADJUSTMENT = ''ADJUSTMENT''"
| "entry_type_text ET_OPENING = ''OPENING''"
| "entry_type_text ET_REVERSAL = ''REVERSAL''"

fun entry_status_text :: "EntryStatus \<Rightarrow> string" where
  "entry_status_text DRAFT = ''DRAFT''"
| "entry_status_text PENDING = ''PENDING''"
| "entry_status_text POSTED = ''POSTED''"
| "entry_status_text VOIDED = ''VOIDED''"

fun entry_source_text :: "EntrySource \<Rightarrow> string" where
  "entry_source_text MANUAL = ''MANUAL''"
| "entry_source_text IMPORT = ''IMPORT''"
| "entry_source_text RECURRING = ''RECURRING''"
| "entry_source_text SYSTEM_SOURCE = ''SYSTEM''"

definition or_empty :: "string option \<Rightarrow> string" where
  "or_empty v = (case v of None \<Rightarrow> [] | Some t \<Rightarrow> t)"

definition csv_cells :: "export_row \<Rightarrow> string list" where
  "csv_cells r =
     [je_local_date (xr_entry r), entry_type_text (je_entry_type (xr_entry r)), or_empty (je_payee (xr_entry r)),
      or_empty (je_note (xr_entry r)), show_int (xr_amount_minor r), xr_currency r,
      entry_status_text (je_status (xr_entry r)), entry_source_text (je_source (xr_entry r))]"

definition csv_header_row :: "string list" where
  "csv_header_row = [''date'', ''type'', ''payee'', ''note'', ''amount_minor'', ''currency'', ''status'', ''source'']"

definition csv_text :: "export_row list \<Rightarrow> string" where
  "csv_text rows = js_join [carriage_return, line_feed]
     (js_join [comma] csv_header_row # map (\<lambda>r. js_join [comma] (map escape_cell (csv_cells r))) rows)"

section \<open>PDF\<close>

definition pdf_printable :: "char \<Rightarrow> bool" where
  "pdf_printable c \<longleftrightarrow> 32 \<le> cu c \<and> cu c \<le> 126"

definition pdf_escape :: "string \<Rightarrow> string" where
  "pdf_escape v = map (\<lambda>c. if pdf_printable c then c else CHR ''?'')
     (concat (map (\<lambda>c. if c = char_of (92::nat) \<or> c = CHR ''('' \<or> c = CHR '')'' then [char_of (92::nat), c] else [c]) v))"

function pdf_pages :: "string list \<Rightarrow> string list list" where
  "pdf_pages lines = (if lines = [] then [] else take 48 lines # pdf_pages (drop 48 lines))"
  by pat_completeness auto

termination by (relation "measure length") auto

declare pdf_pages.simps [simp del]

definition page_stream :: "string list \<Rightarrow> string" where
  "page_stream page = ''BT /F1 9 Tf 42 750 Td 12 TL ''
     @ js_join '' '' (map (\<lambda>(i, line). (if 0 < i then ''T* '' else []) @ ''('' @ pdf_escape (take 95 line) @ '') Tj'')
         (enumerate (0::nat) page)) @ '' ET''"

definition page_objects :: "nat \<Rightarrow> string list \<Rightarrow> string list" where
  "page_objects index page =
     (let contentId = 4 + index * 2 + 1; stream = page_stream page in
      [''<< /Type /Page /Parent 2 0 R /MediaBox [0 0 612 792] /Resources << /Font << /F1 3 0 R >> >> /Contents ''
         @ show_nat contentId @ '' 0 R >>'',
       ''<< /Length '' @ show_nat (length stream) @ '' >>'' @ [line_feed] @ ''stream'' @ [line_feed] @ stream
         @ [line_feed] @ ''endstream''])"

definition pdf_objects :: "string list \<Rightarrow> string list" where
  "pdf_objects lines =
     (let pages = pdf_pages lines in
      [''<< /Type /Catalog /Pages 2 0 R >>'',
       ''<< /Type /Pages /Kids ['' @ js_join '' '' (map (\<lambda>i. show_nat (4 + i * 2) @ '' 0 R'') [0..<length pages])
         @ ''] /Count '' @ show_nat (length pages) @ '' >>'',
       ''<< /Type /Font /Subtype /Type1 /BaseFont /Courier >>'']
      @ concat (map (\<lambda>(i, page). page_objects i page) (enumerate 0 pages)))"

text \<open>The loop that writes the objects and notes where each begins.\<close>

fun write_objects :: "nat \<Rightarrow> string list \<Rightarrow> string \<Rightarrow> nat list \<Rightarrow> string \<times> nat list" where
  "write_objects index [] pdf offsets = (pdf, offsets)"
| "write_objects index (object # objects) pdf offsets =
     write_objects (Suc index) objects
       (pdf @ show_nat (Suc index) @ '' 0 obj'' @ [line_feed] @ object @ [line_feed] @ ''endobj'' @ [line_feed])
       (offsets @ [length pdf])"

definition pdf_header :: string where
  "pdf_header = ''%PDF-1.4'' @ [line_feed]"

definition basicPdf :: "string list \<Rightarrow> string" where
  "basicPdf lines =
     (let objects = pdf_objects lines; (pdf, offsets) = write_objects 0 objects pdf_header [] in
      pdf @ ''xref'' @ [line_feed] @ ''0 '' @ show_nat (length objects + 1) @ [line_feed]
        @ ''0000000000 65535 f '' @ [line_feed]
        @ js_join [line_feed] (map (\<lambda>o'. pad_start 10 CHR ''0'' (show_nat o') @ '' 00000 n '') offsets)
        @ [line_feed] @ ''trailer'' @ [line_feed] @ ''<< /Size '' @ show_nat (length objects + 1) @ '' /Root 1 0 R >>''
        @ [line_feed] @ ''startxref'' @ [line_feed] @ show_nat (length pdf) @ [line_feed] @ ''%%EOF'')"

definition pdf_lines :: "string \<Rightarrow> string \<Rightarrow> export_row list \<Rightarrow> string list" where
  "pdf_lines now ws rows =
     [''NoorixFin transaction statement'', ''Generated: '' @ now, ''Workspace: '' @ ws, []]
     @ map (\<lambda>r. je_local_date (xr_entry r) @ ''  '' @ pad_end 8 CHR '' '' (entry_type_text (je_entry_type (xr_entry r)))
         @ ''  '' @ show_int (xr_amount_minor r) @ '' '' @ xr_currency r @ ''  '' @ or_empty (je_payee (xr_entry r))) rows"

section \<open>Reading back what was written\<close>

lemma scan_quoted:
  "rest = [] \<or> hd rest \<noteq> quote \<Longrightarrow>
     csv_scan (double_quotes v @ quote # rest) f row rows True = csv_scan rest (f @ v) row rows False"
proof (induction v arbitrary: f)
  case Nil
  then show ?case by (auto simp: double_quotes_def)
next
  case (Cons c v)
  show ?case
  proof (cases "c = quote")
    case True
    then show ?thesis using Cons by (simp add: double_quotes_def)
  next
    case False
    then show ?thesis using Cons by (simp add: double_quotes_def)
  qed
qed

lemma scan_cell:
  "rest = [] \<or> hd rest \<noteq> quote \<Longrightarrow>
     csv_scan (escape_cell v @ rest) [] row rows False = csv_scan rest (inert v) row rows False"
  using scan_quoted [of rest "inert v" "[]"] by (simp add: escape_cell_def)

lemma scan_row:
  "cells \<noteq> [] \<Longrightarrow> rest = [] \<or> hd rest \<noteq> quote \<Longrightarrow>
     csv_scan (js_join [comma] (map escape_cell cells) @ rest) [] row rows False
   = csv_scan rest (inert (last cells)) (row @ map inert (butlast cells)) rows False"
proof (induction cells arbitrary: row)
  case (Cons v cells)
  show ?case
  proof (cases cells)
    case Nil
    then show ?thesis using scan_cell Cons.prems by simp
  next
    case (Cons w ws)
    have "csv_scan (js_join [comma] (map escape_cell (v # cells)) @ rest) [] row rows False
        = csv_scan (comma # js_join [comma] (map escape_cell cells) @ rest) (inert v) row rows False"
      using scan_cell [of "comma # js_join [comma] (map escape_cell cells) @ rest" v row rows]
      by (simp add: Cons)
    also have "... = csv_scan (js_join [comma] (map escape_cell cells) @ rest) [] (row @ [inert v]) rows False"
      by simp
    also have "... = csv_scan rest (inert (last cells)) ((row @ [inert v]) @ map inert (butlast cells)) rows False"
      using Cons.IH [of "row @ [inert v]"] Cons.prems Cons by simp
    finally show ?thesis by (simp add: Cons)
  qed
qed simp

lemma scan_rows:
  "list_all (\<lambda>cells. 2 \<le> length cells) rows \<Longrightarrow>
     csv_scan (concat (map (\<lambda>cells. [carriage_return, line_feed] @ js_join [comma] (map escape_cell cells)) rows))
       f row done False
   = (if f \<noteq> [] \<or> row \<noteq> [] then Inr (done @ [row @ [f]] @ map (map inert) rows)
      else if rows = [] then Inr done else Inr (done @ [[[]]] @ map (map inert) rows))"
proof (induction rows arbitrary: f row "done")
  case (Cons cells rows)
  let ?rest = "concat (map (\<lambda>cells. [carriage_return, line_feed] @ js_join [comma] (map escape_cell cells)) rows)"
  have ne: "cells \<noteq> []" "butlast cells \<noteq> []" using Cons.prems by (cases cells; cases "tl cells"; auto)+
  have rest: "?rest = [] \<or> hd ?rest \<noteq> quote" by (cases rows) simp_all
  have "csv_scan (js_join [comma] (map escape_cell cells) @ ?rest) [] [] (done @ [row @ [f]]) False
      = csv_scan ?rest (inert (last cells)) (map inert (butlast cells)) (done @ [row @ [f]]) False"
    using scan_row [OF ne(1) rest, of "[]"] by simp
  also have "... = Inr (done @ [row @ [f]] @ [map inert (butlast cells) @ [inert (last cells)]] @ map (map inert) rows)"
    using Cons ne by simp
  also have "map inert (butlast cells) @ [inert (last cells)] = map inert cells"
    using ne by (metis append_butlast_last_id list.simps(8,9) map_append)
  finally show ?case by simp
qed simp

lemma js_join_concat: "js_join sep (w # ws) = w @ concat (map (\<lambda>v. sep @ v) ws)"
  by (induction ws arbitrary: w) simp_all

lemma scan_header:
  "csv_scan (js_join [comma] csv_header_row @ rest) [] [] [] False
     = csv_scan rest ''source'' (butlast csv_header_row) [] False"
  by (simp add: csv_header_row_def)

text \<open>
  C31. Reading back the exported CSV with the importer's own reader gives the header and, for every
  transaction, exactly its cells, whatever quotes, commas or line breaks the user's texts contain;
  a cell that starts like a formula comes back with the apostrophe that makes it inert.
\<close>

theorem csv_roundtrip:
  "csvRecords (csv_text rows) = Inr (csv_header_row # map (\<lambda>r. map inert (csv_cells r)) rows)"
proof -
  let ?cells = "map csv_cells rows"
  have two: "list_all (\<lambda>cells. 2 \<le> length cells) ?cells"
    by (simp add: list_all_iff csv_cells_def)
  have "csv_text rows = js_join [comma] csv_header_row
      @ concat (map (\<lambda>cells. [carriage_return, line_feed] @ js_join [comma] (map escape_cell cells)) ?cells)"
    by (simp add: csv_text_def js_join_concat o_def del: js_join.simps)
  then have "csvRecords (csv_text rows)
      = Inr ([] @ [butlast csv_header_row @ [''source'']] @ map (map inert) ?cells)"
    using scan_rows [OF two, of "''source''" "butlast csv_header_row" "[]"]
    by (simp add: csvRecords_def scan_header)
  also have "butlast csv_header_row @ [''source''] = csv_header_row"
    by (simp add: csv_header_row_def)
  finally show ?thesis by (simp add: o_def)
qed

section \<open>All rows are read\<close>

lemma export_round_Inr:
  assumes "export_round uid ws (off, acc) s = (Inr (Inr (off', acc')), t)"
  shows "off' = off + PAGE_SIZE \<and> off' \<le> length (journal_entries s) \<and> journal_entries t = journal_entries s"
proof -
  obtain r u where r: "select (export_page uid ws off) s = (Inr r, u)"
    and k: "(case r of Inl e \<Rightarrow> api_throw (Js_error (pg_message e))
     | Inr data \<Rightarrow> api_return (if length data < PAGE_SIZE then Inl (acc @ data) else Inr (off + PAGE_SIZE, acc @ data))) u
     = (Inr (Inr (off', acc')), t)"
    using assms unfolding export_round_def fst_conv snd_conv api_bind_Inr by blast
  obtain data where data: "r = Inr data" "\<not> length data < PAGE_SIZE" "off' = off + PAGE_SIZE" "t = u"
    using k by (cases r) (auto simp: api_throw_def api_return_def split: if_splits)
  have sel: "data = export_page uid ws off (s\<lparr>faults := tl (faults s)\<rparr>)" "u = s\<lparr>faults := tl (faults s)\<rparr>"
    using r data(1) by (auto simp: select_def elim!: stmt_cases)
  have "length data \<le> length (journal_entries s) - off"
    using length_filter_le [of _ "journal_entries s"] le_trans
    by (auto simp: sel(1) export_page_def matching_entries_def newest_first_def visible_entries_def
        intro!: diff_le_mono min.coboundedI1 le_trans [OF length_filter_le])
  then show ?thesis using data sel(2) by (simp add: PAGE_SIZE_def)
qed

lemma export_ends: "fst (export_rows uid ws s) \<noteq> Inr None"
proof -
  have "fst (api_loop (Suc (length (journal_entries s))) (export_round uid ws) (0, []) s) \<noteq> Inr None"
  proof (rule api_loop_terminates [where \<mu> = "\<lambda>v s. length (journal_entries s) - fst v"])
    fix a s a' t
    assume r: "export_round uid ws a s = (Inr (Inr a'), t)"
    obtain off acc off' acc' where a: "a = (off, acc)" "a' = (off', acc')" by (cases a; cases a') blast
    have "off' = off + PAGE_SIZE \<and> off' \<le> length (journal_entries s) \<and> journal_entries t = journal_entries s"
      using r unfolding a by (rule export_round_Inr)
    then show "length (journal_entries t) - fst a' < length (journal_entries s) - fst a"
      by (auto simp: a PAGE_SIZE_def)
  qed simp
  then show ?thesis
    by (auto simp: export_rows_def api_bind_def api_return_def simp del: api_loop.simps split: prod.splits sum.splits)
qed

definition all_rows :: "string \<Rightarrow> string \<Rightarrow> db \<Rightarrow> export_row list" where
  "all_rows uid ws s =
     map (\<lambda>e. export_row_of (e, entry_postings uid (je_id e) s)) (matching_entries uid ws None s)"

lemma export_loop_all:
  assumes "faults s = []"
  shows "length (matching_entries uid ws None s) - off < n \<Longrightarrow>
    api_loop n (export_round uid ws) (off, acc) s
    = (Inr (Some (acc @ map (\<lambda>e. (e, entry_postings uid (je_id e) s)) (drop off (matching_entries uid ws None s)))), s)"
proof (induction n arbitrary: off acc)
  case (Suc n)
  let ?es = "matching_entries uid ws None s"
  let ?data = "export_page uid ws off s"
  have round: "export_round uid ws (off, acc) s
      = (Inr (if length ?data < PAGE_SIZE then Inl (acc @ ?data) else Inr (off + PAGE_SIZE, acc @ ?data)), s)"
    using assms by (simp add: export_round_def api_bind_def select_no_fault api_return_def)
  show ?case
  proof (cases "length ?data < PAGE_SIZE")
    case True
    then have "take PAGE_SIZE (drop off ?es) = drop off ?es" by (simp add: export_page_def)
    then show ?thesis using round True by (simp add: api_bind_def api_return_def export_page_def)
  next
    case False
    then have "length ?es - (off + PAGE_SIZE) < n" using Suc.prems by (simp add: export_page_def PAGE_SIZE_def)
    then have "api_loop n (export_round uid ws) (off + PAGE_SIZE, acc @ ?data) s
      = (Inr (Some ((acc @ ?data) @ map (\<lambda>e. (e, entry_postings uid (je_id e) s)) (drop (off + PAGE_SIZE) ?es))), s)"
      by (rule Suc.IH)
    moreover have "?data @ map (\<lambda>e. (e, entry_postings uid (je_id e) s)) (drop (off + PAGE_SIZE) ?es)
        = map (\<lambda>e. (e, entry_postings uid (je_id e) s)) (drop off ?es)"
      by (simp add: export_page_def map_append [symmetric] drop_drop [symmetric] add.commute
          del: map_append drop_drop)
    ultimately show ?thesis using round False by (simp add: api_bind_def)
  qed
qed simp

text \<open>
  Reading a workspace for an export always ends, and without failures it reads every
  transaction of the workspace exactly once, newest first, across all pages.
\<close>

theorem export_reads_all_rows:
  "fst (export_rows uid ws s) \<noteq> Inr None
    \<and> export_rows uid ws (s\<lparr>faults := []\<rparr>) = (Inr (Some (all_rows uid ws (s\<lparr>faults := []\<rparr>))), s\<lparr>faults := []\<rparr>)"
proof
  show "fst (export_rows uid ws s) \<noteq> Inr None" by (rule export_ends)
  let ?s = "s\<lparr>faults := []\<rparr>"
  have "length (matching_entries uid ws None ?s) - 0 < Suc (length (journal_entries ?s))"
    using length_filter_le by (auto simp: matching_entries_def newest_first_def visible_entries_def less_Suc_eq_le
        intro!: le_trans [OF length_filter_le])
  then have "api_loop (Suc (length (journal_entries ?s))) (export_round uid ws) (0, []) ?s
      = (Inr (Some ([] @ map (\<lambda>e. (e, entry_postings uid (je_id e) ?s)) (drop 0 (matching_entries uid ws None ?s)))), ?s)"
    by (intro export_loop_all) simp_all
  then show "export_rows uid ws ?s = (Inr (Some (all_rows uid ws ?s)), ?s)"
    by (simp add: export_rows_def api_bind_def api_return_def all_rows_def o_def del: api_loop.simps)
qed

section \<open>The offsets of the PDF\<close>

lemma write_objects_spec:
  assumes "write_objects k objs pdf offs = (pdf', offs')"
  shows "(\<exists>w. pdf' = pdf @ w) \<and> (\<exists>new. offs' = offs @ new \<and> length new = length objs
    \<and> (\<forall>i < length objs. \<exists>u v. pdf' = u @ show_nat (Suc (k + i)) @ '' 0 obj'' @ v \<and> length u = new ! i))"
  using assms
proof (induction objs arbitrary: k pdf offs)
  case (Cons object objs)
  let ?p = "pdf @ show_nat (Suc k) @ '' 0 obj'' @ [line_feed] @ object @ [line_feed] @ ''endobj'' @ [line_feed]"
  have "write_objects (Suc k) objs ?p (offs @ [length pdf]) = (pdf', offs')" using Cons.prems by simp
  then obtain w new where w: "pdf' = ?p @ w" and new: "offs' = (offs @ [length pdf]) @ new" "length new = length objs"
    "\<forall>i < length objs. \<exists>u v. pdf' = u @ show_nat (Suc (Suc k + i)) @ '' 0 obj'' @ v \<and> length u = new ! i"
    using Cons.IH by blast
  have "\<exists>u v. pdf' = u @ show_nat (Suc (k + i)) @ '' 0 obj'' @ v \<and> length u = (length pdf # new) ! i"
    if "i < length (object # objs)" for i
  proof (cases i)
    case 0
    have "pdf' = pdf @ show_nat (Suc (k + i)) @ '' 0 obj'' @ ([line_feed] @ object @ [line_feed] @ ''endobj'' @ [line_feed] @ w)"
      using w 0 by simp
    then show ?thesis using 0 by (metis nth_Cons_0)
  next
    case (Suc j)
    then have "j < length objs" using that by simp
    then show ?thesis using new(3) Suc by simp
  qed
  moreover have "offs' = offs @ (length pdf # new)" "length (length pdf # new) = length (object # objs)" using new by simp_all
  moreover have "\<exists>w. pdf' = pdf @ w" using w by simp
  ultimately show ?case by blast
qed simp

definition pdf_offsets :: "string list \<Rightarrow> nat list" where
  "pdf_offsets lines = snd (write_objects 0 (pdf_objects lines) pdf_header [])"

definition pdf_body :: "string list \<Rightarrow> string" where
  "pdf_body lines = fst (write_objects 0 (pdf_objects lines) pdf_header [])"

lemma basicPdf_unfold:
  "\<exists>w. basicPdf lines = pdf_body lines @ ''xref'' @ [line_feed] @ ''0 '' @ show_nat (length (pdf_objects lines) + 1) @ [line_feed]
      @ ''0000000000 65535 f '' @ [line_feed]
      @ js_join [line_feed] (map (\<lambda>o'. pad_start 10 CHR ''0'' (show_nat o') @ '' 00000 n '') (pdf_offsets lines)) @ w"
  by (cases "write_objects 0 (pdf_objects lines) pdf_header []")
    (simp add: basicPdf_def pdf_body_def pdf_offsets_def Let_def)

text \<open>
  The cross-reference table of a generated PDF is right: it has one offset per object, and the
  bytes at the offset of object \<open>n\<close> begin with \<open>n 0 obj\<close>.
\<close>

theorem pdf_offsets_correct:
  "length (pdf_offsets lines) = length (pdf_objects lines)
   \<and> list_all (\<lambda>i. starts_with (drop (pdf_offsets lines ! i) (basicPdf lines)) (show_nat (Suc i) @ '' 0 obj''))
       [0..<length (pdf_objects lines)]"
proof -
  obtain w where w: "basicPdf lines = pdf_body lines @ w" using basicPdf_unfold by blast
  have spec: "length (pdf_offsets lines) = length (pdf_objects lines)"
    "\<forall>i < length (pdf_objects lines). \<exists>u v. pdf_body lines = u @ show_nat (Suc i) @ '' 0 obj'' @ v \<and> length u = pdf_offsets lines ! i"
    using write_objects_spec [of 0 "pdf_objects lines" pdf_header "[]" "pdf_body lines" "pdf_offsets lines"]
    by (auto simp: pdf_body_def pdf_offsets_def)
  have "starts_with (drop (pdf_offsets lines ! i) (basicPdf lines)) (show_nat (Suc i) @ '' 0 obj'')"
    if i: "i < length (pdf_objects lines)" for i
  proof -
    obtain u v where u: "pdf_body lines = u @ show_nat (Suc i) @ '' 0 obj'' @ v" "length u = pdf_offsets lines ! i"
      using spec(2) i by blast
    have "drop (pdf_offsets lines ! i) (basicPdf lines) = (show_nat (Suc i) @ '' 0 obj'') @ v @ w"
      by (simp add: w u(1) u(2) [symmetric])
    then show ?thesis by (simp only: starts_with_take take_append length_append) simp
  qed
  then show ?thesis using spec(1) by (simp add: list_all_iff)
qed

end
