(* ===== verification/Accounts.thy ===== *)
theory Accounts
  imports Transactions Demo
begin

text \<open>
  \<open>apps/api/src/accounts/accounts.service.ts\<close>: creating an account with its opening balance, listing
  the accounts with their balances, and updating one. \<open>MAX_ROWS\<close> is the row cap of the data API
  (\<open>max_rows\<close> in \<open>supabase/config.toml\<close>): a query without an explicit range returns at most that many
  rows, here those inserted first. \<open>by_name\<close> is the order of the database's collation.
\<close>

section \<open>Requests\<close>

record create_account_dto =
  ca_name :: string
  ca_class :: AccountClass
  ca_subtype :: AccountSubtype
  ca_currency_code :: "string option"
  ca_normal_balance :: "NormalBalance option"
  ca_include_in_budget :: "bool option"
  ca_include_in_net_worth :: "bool option"
  ca_opening_date :: "string option"
  ca_opening_balance :: "string option"

record update_account_dto =
  ua_name :: "string option"
  ua_include_in_budget :: "bool option"
  ua_include_in_net_worth :: "bool option"
  ua_archived :: "bool option"

record account_view =
  av_account :: ledger_account
  av_balance :: string

fun DEFAULT_NORMAL_BALANCE :: "AccountClass \<Rightarrow> NormalBalance" where
  "DEFAULT_NORMAL_BALANCE ASSET = DEBIT"
| "DEFAULT_NORMAL_BALANCE LIABILITY = CREDIT"
| "DEFAULT_NORMAL_BALANCE INCOME = CREDIT"
| "DEFAULT_NORMAL_BALANCE EXPENSE = DEBIT"
| "DEFAULT_NORMAL_BALANCE EQUITY = CREDIT"

text \<open>\<open>parseInt(s, 10)\<close>: the longest numeral in front; \<open>None\<close> is \<open>NaN\<close>.\<close>

definition parseInt :: "string \<Rightarrow> int option" where
  "parseInt s =
     (let t = trim_start s; digits = takeWhile is_digit (unsigned_part t) in
      if digits = [] then None
      else Some (if starts_with t ''-'' then - dbl (int (digits_val digits)) else dbl (int (digits_val digits))))"

section \<open>The opening entry\<close>

definition opening_entry :: "env \<Rightarrow> string \<Rightarrow> string \<Rightarrow> string \<Rightarrow> string \<Rightarrow> journal_entry" where
  "opening_entry E ws uid accountId entryId =
     \<lparr>je_id = entryId, je_workspace_id = ws, je_entry_type = ET_OPENING, je_occurred_at = env_now E,
      je_local_date = hd (js_split CHR ''T'' (env_now E)), je_payee = None, je_note = Some ''Opening balance'',
      je_status = POSTED, je_source = SYSTEM_SOURCE, je_client_entry_id = entryId,
      je_idempotency_key_hash = Some (env_sha256 E (uid @ '':opening:'' @ accountId)),
      je_reverses_entry_id = None, je_created_by = uid, je_posted_at = Some (env_now E), je_version = 1\<rparr>"

definition equity_accounts :: "string \<Rightarrow> string \<Rightarrow> db \<Rightarrow> ledger_account list" where
  "equity_accounts uid ws s = [a \<leftarrow> visible_accounts uid s. la_workspace_id a = ws \<and> la_subtype a = SYSTEM
     \<and> la_class a = EQUITY \<and> la_name a = ''Opening Balance Equity'']"

definition equity_account :: "string \<Rightarrow> string \<Rightarrow> string \<Rightarrow> string \<Rightarrow> ledger_account" where
  "equity_account ws uid cur i = \<lparr>la_id = i, la_workspace_id = ws, la_name = ''Opening Balance Equity'',
     la_class = EQUITY, la_subtype = SYSTEM, la_currency_code = cur, la_normal_balance = CREDIT,
     la_include_in_budget = False, la_include_in_net_worth = False, la_opening_date = None,
     la_archived_at = None, la_deleted_at = None, la_created_by = uid, la_version = 1\<rparr>"

definition insert_account :: "string \<Rightarrow> ledger_account \<Rightarrow> db \<Rightarrow> pg_error + ledger_account \<times> db" where
  "insert_account uid a s = (case insert_accounts uid [a] s of Inl e \<Rightarrow> Inl e | Inr (_, t) \<Rightarrow> Inr (a, t))"

definition find_equity :: "env \<Rightarrow> string \<Rightarrow> string \<Rightarrow> string \<Rightarrow> (db, ledger_account option) api" where
  "find_equity E ws uid cur =
     api_bind (select_single (equity_accounts uid ws)) (\<lambda>found.
     case data_of found of
       Some a \<Rightarrow> api_return (Some a)
     | None \<Rightarrow>
         api_bind (randomUUID E) (\<lambda>i.
         api_bind (stmt (insert_account uid (equity_account ws uid cur i))) (\<lambda>created.
         api_return (data_of created))))"

text \<open>
  \<open>NaN\<close> becomes \<open>null\<close> in the request and violates NOT NULL; a number beyond 64 bits is no BIGINT.
\<close>

definition insert_opening ::
    "string \<Rightarrow> int option \<Rightarrow> journal_posting list \<Rightarrow> db \<Rightarrow> pg_error + journal_posting list \<times> db" where
  "insert_opening uid amount ps s =
     (case amount of
        None \<Rightarrow> Inl (pg ''23502'')
      | Some a \<Rightarrow> if 2 ^ 63 \<le> \<bar>a\<bar> then Inl (pg ''22003'') else insert_postings uid ps s)"

definition createOpeningBalanceEntry ::
    "env \<Rightarrow> string \<Rightarrow> string \<Rightarrow> NormalBalance \<Rightarrow> int option \<Rightarrow> string \<Rightarrow> string \<Rightarrow> (db, unit) api" where
  "createOpeningBalanceEntry E ws accountId normalBalance amount currencyCode uid =
     (if amount = Some 0 then api_return ()
      else
        api_bind (randomUUID E) (\<lambda>entryId.
        api_bind (stmt (insert_entry uid (opening_entry E ws uid accountId entryId))) (\<lambda>r.
        case r of
          Inl e \<Rightarrow> api_return ()
        | Inr _ \<Rightarrow>
            api_bind (find_equity E ws uid currencyCode) (\<lambda>equityAccount.
            case equityAccount of
              None \<Rightarrow> api_return ()
            | Some equity \<Rightarrow>
                let absAmount = (case amount of None \<Rightarrow> 0 | Some a \<Rightarrow> \<bar>a\<bar>);
                    onDebit = (if normalBalance = DEBIT then absAmount else 0);
                    onCredit = (if normalBalance = CREDIT then absAmount else 0) in
                api_bind (posting E entryId ws currencyCode accountId onDebit onCredit absAmount) (\<lambda>p.
                api_bind (posting E entryId ws currencyCode (la_id equity) onCredit onDebit absAmount) (\<lambda>q.
                api_bind (stmt (insert_opening uid amount [p, q])) (\<lambda>_. api_return ())))))))"

section \<open>Operations\<close>

definition account_currency :: "string \<Rightarrow> string \<Rightarrow> create_account_dto \<Rightarrow> (db, string) api" where
  "account_currency ws uid dto =
     (case truthy (ca_currency_code dto) of
        Some c \<Rightarrow> api_return c
      | None \<Rightarrow>
          api_bind (select_single (workspace_rows uid ws)) (\<lambda>workspace.
          api_return (case truthy (map_option ws_base_currency (data_of workspace)) of None \<Rightarrow> ''BDT'' | Some c \<Rightarrow> c)))"

definition normal_balance_of :: "create_account_dto \<Rightarrow> NormalBalance" where
  "normal_balance_of dto =
     (case ca_normal_balance dto of Some n \<Rightarrow> n | None \<Rightarrow> DEFAULT_NORMAL_BALANCE (ca_class dto))"

definition default_true :: "bool option \<Rightarrow> bool" where
  "default_true x = (case x of None \<Rightarrow> True | Some b \<Rightarrow> b)"

definition account_of_dto :: "env \<Rightarrow> string \<Rightarrow> string \<Rightarrow> create_account_dto \<Rightarrow> string \<Rightarrow> string \<Rightarrow> ledger_account" where
  "account_of_dto E ws uid dto cur i = \<lparr>la_id = i, la_workspace_id = ws, la_name = ca_name dto,
     la_class = ca_class dto, la_subtype = ca_subtype dto, la_currency_code = cur,
     la_normal_balance = normal_balance_of dto, la_include_in_budget = default_true (ca_include_in_budget dto),
     la_include_in_net_worth = default_true (ca_include_in_net_worth dto),
     la_opening_date = Some (case truthy (ca_opening_date dto) of None \<Rightarrow> hd (js_split CHR ''T'' (env_now E)) | Some d \<Rightarrow> d),
     la_archived_at = None, la_deleted_at = None, la_created_by = uid, la_version = 1\<rparr>"

definition createAccount :: "env \<Rightarrow> string \<Rightarrow> string \<Rightarrow> create_account_dto \<Rightarrow> (db, ledger_account) api" where
  "createAccount E ws uid dto =
     api_bind (account_currency ws uid dto) (\<lambda>currencyCode.
     api_bind (randomUUID E) (\<lambda>accountId.
     api_bind (stmt (insert_account uid (account_of_dto E ws uid dto currencyCode accountId))) (\<lambda>r.
     case r of
       Inl e \<Rightarrow> api_throw (Bad_request_plain ''Failed to create account'')
     | Inr account \<Rightarrow>
         api_bind (case truthy (ca_opening_balance dto) of
             None \<Rightarrow> api_return ()
           | Some b \<Rightarrow> createOpeningBalanceEntry E ws accountId (normal_balance_of dto) (parseInt b) currencyCode uid) (\<lambda>_.
         api_return account))))"

definition MAX_ROWS :: nat where "MAX_ROWS = 1000"

definition open_accounts :: "string \<Rightarrow> string \<Rightarrow> db \<Rightarrow> ledger_account list" where
  "open_accounts uid ws s = [a \<leftarrow> visible_accounts uid s. la_workspace_id a = ws \<and> la_archived_at a = None
     \<and> la_deleted_at a = None]"

definition postings_on :: "string \<Rightarrow> string list \<Rightarrow> db \<Rightarrow> journal_posting list" where
  "postings_on uid accounts s = [p \<leftarrow> visible_postings uid s. jp_ledger_account_id p \<in> set accounts]"

definition add_posting :: "(string \<Rightarrow> int option) \<Rightarrow> journal_posting \<Rightarrow> (string \<Rightarrow> int option)" where
  "add_posting m p =
     m(jp_ledger_account_id p \<mapsto> dbl ((case m (jp_ledger_account_id p) of None \<Rightarrow> 0 | Some b \<Rightarrow> b)
                                + dbl (jp_debit_minor p - jp_credit_minor p)))"

definition balanceMap :: "journal_posting list \<Rightarrow> (string \<Rightarrow> int option)" where
  "balanceMap ps = foldl add_posting Map.empty ps"

definition view_of :: "journal_posting list \<Rightarrow> ledger_account \<Rightarrow> account_view" where
  "view_of ps account =
     (let rawBalance = (case balanceMap ps (la_id account) of None \<Rightarrow> 0 | Some b \<Rightarrow> b) in
      \<lparr>av_account = account,
       av_balance = show_int (if la_normal_balance account = CREDIT then - rawBalance else rawBalance)\<rparr>)"

definition listAccounts ::
    "(ledger_account list \<Rightarrow> ledger_account list) \<Rightarrow> string \<Rightarrow> string \<Rightarrow> (db, account_view list) api" where
  "listAccounts by_name ws uid =
     api_bind (select (\<lambda>s. take MAX_ROWS (by_name (open_accounts uid ws s)))) (\<lambda>r.
     case r of
       Inl e \<Rightarrow> api_throw (Bad_request_plain ''Failed to list accounts'')
     | Inr accounts \<Rightarrow>
         api_bind (select (\<lambda>s. take MAX_ROWS (postings_on uid (map la_id accounts) s))) (\<lambda>postings.
         api_return (map (view_of (data_list postings)) accounts)))"

definition patched_account :: "env \<Rightarrow> update_account_dto \<Rightarrow> ledger_account \<Rightarrow> ledger_account" where
  "patched_account E dto a = a\<lparr>
     la_name := (case ua_name dto of None \<Rightarrow> la_name a | Some n \<Rightarrow> n),
     la_include_in_budget := (case ua_include_in_budget dto of None \<Rightarrow> la_include_in_budget a | Some b \<Rightarrow> b),
     la_include_in_net_worth := (case ua_include_in_net_worth dto of None \<Rightarrow> la_include_in_net_worth a | Some b \<Rightarrow> b),
     la_archived_at := (case ua_archived dto of None \<Rightarrow> la_archived_at a | Some True \<Rightarrow> Some (env_now E)
       | Some False \<Rightarrow> None)\<rparr>"

definition update_account_row ::
    "string \<Rightarrow> string \<Rightarrow> string \<Rightarrow> (ledger_account \<Rightarrow> ledger_account) \<Rightarrow> db \<Rightarrow> pg_error + ledger_account \<times> db" where
  "update_account_row uid aid ws patch s =
     (let hit = (\<lambda>a. la_id a = aid \<and> la_workspace_id a = ws \<and> is_member uid s (la_workspace_id a)) in
      case single (filter hit (ledger_accounts s)) of
        Inl e \<Rightarrow> Inl e
      | Inr a \<Rightarrow> Inr (patch a, s\<lparr>ledger_accounts := map (\<lambda>b. if hit b then patch b else b) (ledger_accounts s)\<rparr>))"

definition updateAccount ::
    "env \<Rightarrow> string \<Rightarrow> string \<Rightarrow> string \<Rightarrow> update_account_dto \<Rightarrow> (db, ledger_account) api" where
  "updateAccount E aid ws uid dto =
     api_bind (stmt (update_account_row uid aid ws (patched_account E dto))) (\<lambda>r.
     case r of
       Inl e \<Rightarrow> api_throw (Not_found_plain ''Account not found'')
     | Inr account \<Rightarrow> api_return account)"

section \<open>The ledger under account operations\<close>

lemma keeps_insert_account [keeps_intros]: "keeps ledger_ok (stmt (insert_account uid a))"
  by (rule keeps_same_ledger)
    (auto simp: insert_account_def insert_accounts_def same_ledger_def split: if_splits sum.splits prod.splits)

lemma keeps_update_account_row [keeps_intros]: "keeps ledger_ok (stmt (update_account_row uid aid ws patch))"
  by (rule keeps_same_ledger)
    (auto simp: update_account_row_def same_ledger_def Let_def split: sum.splits)

lemma keeps_insert_opening:
  "balanced_batch ps \<Longrightarrow> keeps ledger_ok (stmt (insert_opening uid amount ps))"
  by (rule keeps_stmt) (auto simp: insert_opening_def intro: insert_postings_ok split: option.splits if_splits)

lemma keeps_opening_pair:
  assumes "d1 + d2 = c1 + c2"
  shows "keeps ledger_ok
     (api_bind (posting E eid ws cur a d1 c1 n) (\<lambda>p.
      api_bind (posting E eid ws cur b d2 c2 n) (\<lambda>q.
      api_bind (stmt (insert_opening uid amount [p, q])) (\<lambda>_. api_return ()))))"
  by (rule keeps_bind_yields [OF keeps_posting [OF tables_only_ledger(3)] yields_posting],
      rule keeps_bind_yields [OF keeps_posting [OF tables_only_ledger(3)] yields_posting],
      rule keeps_bind [OF keeps_insert_opening keeps_return], rule two_sided_balanced [of _ eid])
    (use assms in auto)

lemma keeps_createOpening [keeps_intros]:
  "keeps ledger_ok (createOpeningBalanceEntry E ws aid nb amount cur uid)"
  unfolding createOpeningBalanceEntry_def find_equity_def Let_def
  by (intro keeps_intros keeps_opening_pair tables_only_ledger) simp

lemma keeps_createAccount: "keeps ledger_ok (createAccount E ws uid dto)"
  unfolding createAccount_def account_currency_def
  by (intro keeps_intros tables_only_ledger)

lemma keeps_updateAccount: "keeps ledger_ok (updateAccount E aid ws uid dto)"
  unfolding updateAccount_def by (intro keeps_intros)

lemma keeps_listAccounts: "keeps ledger_ok (listAccounts by_name ws uid)"
  unfolding listAccounts_def by (intro keeps_intros tables_only_ledger)

text \<open>
   Creating, updating and listing accounts keep the ledger well formed and balanced, whatever
  statements fail: an opening balance is always two postings that cancel, or none.
\<close>

theorem accounts_keep_ledger:
  assumes "ledger_ok s"
  shows "ledger_ok (snd (createAccount E ws uid dto s)) \<and> ledger_ok (snd (updateAccount E aid ws uid patch s))
    \<and> ledger_ok (snd (listAccounts by_name ws uid s))"
  using assms by (simp add: keepsD [OF keeps_createAccount] keepsD [OF keeps_updateAccount] keepsD [OF keeps_listAccounts])

section \<open>Balances\<close>

text \<open>The balance of an account: debits minus credits, negated for an account that grows by credits.\<close>

definition signed_balance :: "journal_posting list \<Rightarrow> ledger_account \<Rightarrow> int" where
  "signed_balance ps a =
     (let raw = sum_list [jp_debit_minor p - jp_credit_minor p. p \<leftarrow> ps, jp_ledger_account_id p = la_id a] in
      if la_normal_balance a = CREDIT then - raw else raw)"

definition volume :: "journal_posting list \<Rightarrow> int" where
  "volume ps = sum_list (map (\<lambda>p. \<bar>jp_debit_minor p - jp_credit_minor p\<bar>) ps)"

definition moved :: "string \<Rightarrow> journal_posting list \<Rightarrow> int" where
  "moved a ps = sum_list [jp_debit_minor p - jp_credit_minor p. p \<leftarrow> ps, jp_ledger_account_id p = a]"

lemma moved_volume: "\<bar>moved a ps\<bar> \<le> volume ps"
proof (induction ps)
  case (Cons p ps)
  then show ?case by (auto simp: moved_def volume_def)
qed (simp add: moved_def volume_def)

lemma volume_nonneg: "0 \<le> volume ps"
  by (induction ps) (auto simp: volume_def)

lemma balanceMap_exact:
  "volume ps \<le> MAX_SAFE_INTEGER \<Longrightarrow> (case balanceMap ps a of None \<Rightarrow> 0 | Some b \<Rightarrow> b) = moved a ps"
proof (induction ps arbitrary: a rule: rev_induct)
  case (snoc p ps)
  have vol: "volume (ps @ [p]) = volume ps + \<bar>jp_debit_minor p - jp_credit_minor p\<bar>" by (simp add: volume_def)
  then have le: "volume ps \<le> MAX_SAFE_INTEGER" "\<bar>jp_debit_minor p - jp_credit_minor p\<bar> \<le> MAX_SAFE_INTEGER"
    using snoc.prems volume_nonneg [of ps] by simp_all
  have mv: "moved b (ps @ [p]) = moved b ps + (if jp_ledger_account_id p = b then jp_debit_minor p - jp_credit_minor p else 0)" for b
    by (simp add: moved_def)
  have "\<bar>moved (jp_ledger_account_id p) (ps @ [p])\<bar> \<le> MAX_SAFE_INTEGER"
    using moved_volume snoc.prems order_trans by blast
  then have "dbl (moved (jp_ledger_account_id p) ps + dbl (jp_debit_minor p - jp_credit_minor p))
      = moved (jp_ledger_account_id p) (ps @ [p])"
    using le(2) by (simp add: dbl_safe mv)
  then show ?case
    using snoc.IH [OF le(1)] by (simp add: balanceMap_def add_posting_def mv)
qed (simp add: balanceMap_def moved_def)

lemma view_of_exact:
  "volume ps \<le> MAX_SAFE_INTEGER \<Longrightarrow> view_of ps a = \<lparr>av_account = a, av_balance = show_int (signed_balance ps a)\<rparr>"
  using balanceMap_exact [of ps "la_id a"] by (simp add: view_of_def signed_balance_def moved_def Let_def)

lemma list_accounts_run:
  assumes "faults s = []"
  shows "listAccounts by_name ws uid s =
    (let accounts = take MAX_ROWS (by_name (open_accounts uid ws s)) in
     (Inr (map (view_of (take MAX_ROWS (postings_on uid (map la_id accounts) s))) accounts), s))"
  using assms by (simp add: listAccounts_def api_bind_def select_no_fault api_return_def data_list_def Let_def)

text \<open>
  C35. Without failures, and while the listed accounts have at most \<open>MAX_ROWS\<close> postings whose amounts
  add up safely, every listed balance is the signed sum of the account's postings.
\<close>

theorem listAccounts_exact:
  assumes "faults s = []"
    and "accounts = take MAX_ROWS (by_name (open_accounts uid ws s))"
    and "length (postings_on uid (map la_id accounts) s) \<le> MAX_ROWS"
    and "volume (postings_on uid (map la_id accounts) s) \<le> MAX_SAFE_INTEGER"
  shows "listAccounts by_name ws uid s =
    (Inr (map (\<lambda>a. \<lparr>av_account = a,
        av_balance = show_int (signed_balance (postings_on uid (map la_id accounts) s) a)\<rparr>) accounts), s)"
  using view_of_exact [OF assms(4)] assms(3)
  by (simp add: list_accounts_run [OF assms(1)] assms(2) Let_def)

lemma visible_appended:
  "visible_postings uid (s\<lparr>journal_postings := ps @ qs\<rparr>)
     = visible_postings uid (s\<lparr>journal_postings := ps\<rparr>) @ visible_postings uid (s\<lparr>journal_postings := qs\<rparr>)"
  by (simp add: visible_postings_def)

text \<open>
  Once the accounts of a workspace have \<open>MAX_ROWS\<close> postings, further postings no longer change
  any listed balance.
\<close>

theorem listAccounts_ignores_later_postings:
  assumes "faults s = []"
    and "MAX_ROWS \<le> length (postings_on uid (map la_id (take MAX_ROWS (by_name (open_accounts uid ws s)))) s)"
  shows "fst (listAccounts by_name ws uid (s\<lparr>journal_postings := journal_postings s @ later\<rparr>))
    = fst (listAccounts by_name ws uid s)"
proof -
  let ?t = "s\<lparr>journal_postings := journal_postings s @ later\<rparr>"
  have "open_accounts uid ws ?t = open_accounts uid ws s" by (simp add: open_accounts_def visible_accounts_def)
  moreover have "postings_on uid as ?t = postings_on uid as s @ postings_on uid as (s\<lparr>journal_postings := later\<rparr>)" for as
    by (simp add: postings_on_def visible_postings_def)
  ultimately show ?thesis using assms by (simp add: list_accounts_run Let_def)
qed

section \<open>The sign of an opening balance\<close>

lemma opening_sign: "createOpeningBalanceEntry E ws aid nb (Some (- n)) cur uid = createOpeningBalanceEntry E ws aid nb (Some n) cur uid"
proof -
  have insert: "insert_opening uid (Some (- n)) = insert_opening uid (Some n)"
    by (intro ext) (simp add: insert_opening_def)
  have zero: "(Some (- n) = Some 0) = (Some n = Some (0 :: int))" by simp
  show ?thesis unfolding createOpeningBalanceEntry_def insert zero option.case abs_minus_cancel by (rule refl)
qed

text \<open>
   A negative opening balance is posted as the positive one: the sign of the request is lost.
\<close>

theorem opening_balance_sign_lost:
  assumes "parseInt b = Some n" and "parseInt c = Some (- n)"
  shows "createAccount E ws uid (dto\<lparr>ca_opening_balance := Some c\<rparr>) = createAccount E ws uid (dto\<lparr>ca_opening_balance := Some b\<rparr>)"
proof -
  have ne: "truthy (Some b) = Some b" "truthy (Some c) = Some c"
    using assms by (auto simp: parseInt_def truthy_def trim_start_def unsigned_part_def leading_sign_def split: list.splits)
  have normal: "normal_balance_of (dto\<lparr>ca_opening_balance := x\<rparr>) = normal_balance_of dto" for x
    by (cases "ca_normal_balance dto") (simp_all add: normal_balance_of_def)
  have same: "account_currency ws uid (dto\<lparr>ca_opening_balance := x\<rparr>) = account_currency ws uid dto"
    "account_of_dto E ws uid (dto\<lparr>ca_opening_balance := x\<rparr>) = account_of_dto E ws uid dto" for x
    by (simp add: account_currency_def) (intro ext, simp add: account_of_dto_def normal)
  have balance: "ca_opening_balance (dto\<lparr>ca_opening_balance := x\<rparr>) = x" for x by simp
  show ?thesis
    unfolding createAccount_def same normal balance ne option.case assms opening_sign by (rule refl)
qed


section \<open>Concrete accounts\<close>

lemma demo_open: "open_accounts ''u1'' ''w1'' demo_posted = ledger_accounts demo_db"
  by (simp add: open_accounts_def visible_accounts_def demo_db_def demo_account_def)

lemma demo_on: "postings_on ''u1'' (map la_id (ledger_accounts demo_db)) demo_posted = journal_postings demo_posted"
  by (simp add: postings_on_def visible_postings_def demo_posted_def demo_posting_def demo_db_def demo_account_def is_member_def)

theorem accounts_keep_ledger_witness:
  "ledger_ok (snd (createAccount demo_env ''w1'' ''u1'' \<lparr>ca_name = ''Cash'', ca_class = ASSET, ca_subtype = CASH,
      ca_currency_code = None, ca_normal_balance = None, ca_include_in_budget = None, ca_include_in_net_worth = None,
      ca_opening_date = None, ca_opening_balance = Some ''500''\<rparr> demo_posted))
    \<and> ledger_ok (snd (updateAccount demo_env ''cash'' ''w1'' ''u1'' \<lparr>ua_name = None, ua_include_in_budget = None,
      ua_include_in_net_worth = None, ua_archived = Some True\<rparr> demo_posted))
    \<and> ledger_ok (snd (listAccounts id ''w1'' ''u1'' demo_posted))"
  by (rule accounts_keep_ledger [OF demo_posted_ok])

theorem listAccounts_exact_witness:
  "listAccounts id ''w1'' ''u1'' demo_posted =
    (Inr (map (\<lambda>a. \<lparr>av_account = a, av_balance = show_int (signed_balance (journal_postings demo_posted) a)\<rparr>)
       (ledger_accounts demo_db)), demo_posted)"
proof -
  have accounts: "ledger_accounts demo_db = take MAX_ROWS (id (open_accounts ''u1'' ''w1'' demo_posted))"
    by (simp add: demo_open MAX_ROWS_def demo_db_def)
  have "length (journal_postings demo_posted) \<le> MAX_ROWS" "volume (journal_postings demo_posted) \<le> MAX_SAFE_INTEGER"
    by (simp_all add: demo_posted_def demo_posting_def MAX_ROWS_def volume_def MAX_SAFE_INTEGER_def)
  then show ?thesis
    using listAccounts_exact [of demo_posted "ledger_accounts demo_db" id "''u1''" "''w1''", unfolded demo_on, OF _ accounts]
    by simp
qed

definition full_db :: db where
  "full_db = demo_posted\<lparr>journal_postings := replicate MAX_ROWS (demo_posting ''p1'' ''cash'' 0 1250)\<rparr>"

theorem listAccounts_ignores_later_postings_witness:
  "fst (listAccounts id ''w1'' ''u1'' (full_db\<lparr>journal_postings := journal_postings full_db
      @ [demo_posting ''p2'' ''cash'' 900 0]\<rparr>)) = fst (listAccounts id ''w1'' ''u1'' full_db)"
proof (rule listAccounts_ignores_later_postings)
  have "open_accounts ''u1'' ''w1'' full_db = ledger_accounts demo_db"
    using demo_open by (simp add: full_db_def open_accounts_def visible_accounts_def)
  moreover have "filter P (replicate n x) = (if P x then replicate n x else [])" for P n and x :: journal_posting
    by (induction n) auto
  ultimately show "MAX_ROWS \<le> length (postings_on ''u1'' (map la_id
      (take MAX_ROWS (id (open_accounts ''u1'' ''w1'' full_db)))) full_db)"
    by (simp add: postings_on_def visible_postings_def full_db_def demo_posting_def MAX_ROWS_def demo_db_def demo_account_def is_member_def)
qed (simp add: full_db_def)

theorem opening_balance_sign_lost_witness:
  "createAccount E ws uid (dto\<lparr>ca_opening_balance := Some ''-500''\<rparr>)
     = createAccount E ws uid (dto\<lparr>ca_opening_balance := Some ''500''\<rparr>)"
proof (rule opening_balance_sign_lost)
  show "parseInt ''500'' = Some 500"
    by (simp add: parseInt_def trim_start_def unsigned_part_def leading_sign_def is_digit_def js_space_def digits_val_def digit_val_def dbl_exact)
  show "parseInt ''-500'' = Some (- 500)"
    by (simp add: parseInt_def trim_start_def unsigned_part_def leading_sign_def is_digit_def js_space_def digits_val_def digit_val_def dbl_exact)
qed

end
