(* ===== verification/Planning.thy ===== *)
theory Planning
  imports Demo Pagination Json
begin

text \<open>
  \<open>apps/api/src/planning/planning.service.ts\<close>: budgets, goals, debt terms, calendar events and
  recurring rules over the tables of migrations 00015 and 00029. \<open>pl_base\<close> holds the ledger's tables,
  the UUIDs and the schedule of failing statements. The aggregations of migration 00016 are SQL
  functions the service only calls: \<open>aggregate\<close> in the environment. So are the reading of a DATE by
  Postgres (\<open>pg_date\<close>) and \<open>new Date(x).toISOString()\<close> (\<open>date_iso\<close>, \<open>None\<close> where it throws).
\<close>

section \<open>Rows and state\<close>

datatype BudgetCadence = C_MONTHLY | C_WEEKLY
datatype BudgetStatus = BUDGET_ACTIVE | BUDGET_ARCHIVED
datatype GoalStatus = GOAL_ACTIVE | GOAL_ACHIEVED | GOAL_ABANDONED
datatype EventType = EV_BILL | EV_INCOME | EV_GOAL | EV_CUSTOM
datatype EventStatus = EV_UPCOMING | EV_PAID | EV_SKIPPED
datatype RuleFrequency = F_DAILY | F_WEEKLY | F_MONTHLY | F_YEARLY
datatype RuleBehavior = REMIND_ONLY | AUTO_CREATE_DRAFT
datatype RuleStatus = RULE_ACTIVE | RULE_PAUSED | RULE_ENDED

record budget =
  bg_id :: string
  bg_workspace_id :: string
  bg_name :: string
  bg_cadence :: BudgetCadence
  bg_period_start :: string
  bg_rollover :: bool
  bg_status :: BudgetStatus
  bg_created_by :: string

record budget_line =
  bl_budget_id :: string
  bl_workspace_id :: string
  bl_category_id :: string
  bl_planned_minor :: int
  bl_alert_threshold_pct :: int

record savings_goal =
  sg_id :: string
  sg_workspace_id :: string
  sg_name :: string
  sg_target_minor :: int
  sg_currency_code :: string
  sg_target_date :: "string option"
  sg_linked_account_id :: "string option"
  sg_priority :: int
  sg_status :: GoalStatus
  sg_created_by :: string

record debt_details =
  dd_ledger_account_id :: string
  dd_workspace_id :: string
  dd_principal_minor :: int
  dd_annual_rate_bps :: "int option"
  dd_minimum_payment_minor :: "int option"
  dd_due_day :: "int option"

record calendar_event =
  ce_id :: string
  ce_workspace_id :: string
  ce_type :: EventType
  ce_title :: string
  ce_amount_minor :: "int option"
  ce_currency_code :: string
  ce_due_at :: string
  ce_timezone :: string
  ce_local_date :: string
  ce_reminder_offsets :: "int list"
  ce_recurring_rule_id :: "string option"
  ce_journal_entry_id :: "string option"
  ce_savings_goal_id :: "string option"
  ce_status :: EventStatus
  ce_created_by :: string

record recurring_rule =
  rr_id :: string
  rr_workspace_id :: string
  rr_name :: string
  rr_entry_type :: EntryType
  rr_amount_minor :: int
  rr_currency_code :: string
  rr_account_id :: "string option"
  rr_category_id :: "string option"
  rr_payee :: "string option"
  rr_frequency :: RuleFrequency
  rr_interval_count :: int
  rr_timezone :: string
  rr_next_occurrence :: string
  rr_ends_at :: "string option"
  rr_behavior :: RuleBehavior
  rr_status :: RuleStatus
  rr_created_by :: string

record plan_db =
  pl_base :: db
  budgets :: "budget list"
  budget_lines :: "budget_line list"
  savings_goals :: "savings_goal list"
  debts :: "debt_details list"
  calendar_events :: "calendar_event list"
  recurring_rules :: "recurring_rule list"

record plan_world =
  pw_env :: env
  pg_date :: "string \<Rightarrow> string option"
  date_iso :: "string \<Rightarrow> string option"
  aggregate :: "string \<Rightarrow> (string \<times> string) list \<Rightarrow> plan_db \<Rightarrow> pg_error + json"

definition plan_stmt :: "(plan_db \<Rightarrow> pg_error + 'a \<times> plan_db) \<Rightarrow> (plan_db, pg_error + 'a) api" where
  "plan_stmt = fault_stmt pl_base pl_base_update"

definition member_of :: "string \<Rightarrow> plan_db \<Rightarrow> string \<Rightarrow> bool" where
  "member_of uid s w = is_member uid (pl_base s) w"

definition plan_uuid :: "plan_world \<Rightarrow> (plan_db, string) api" where
  "plan_uuid W s = (Inr (env_uuid (pw_env W) (uuids (pl_base s))),
     pl_base_update (\<lambda>l. l\<lparr>uuids := Suc (uuids l)\<rparr>) s)"

definition category_exists :: "plan_db \<Rightarrow> string \<Rightarrow> bool" where
  "category_exists s c = list_ex (\<lambda>x. cat_id x = c) (categories (pl_base s))"

definition account_exists :: "plan_db \<Rightarrow> string \<Rightarrow> bool" where
  "account_exists s a = list_ex (\<lambda>x. la_id x = a) (ledger_accounts (pl_base s))"

text \<open>An optional reference of a row: absent, or a row that exists, in any workspace.\<close>

definition ref_ok :: "(string \<Rightarrow> bool) \<Rightarrow> string option \<Rightarrow> bool" where
  "ref_ok exists' r = (case r of None \<Rightarrow> True | Some i \<Rightarrow> exists' i)"

section \<open>Errors, amounts, aggregations\<close>

definition fail :: "pg_error \<Rightarrow> string \<Rightarrow> api_exn" where
  "fail e what =
     (if pg_code e = FK_VIOLATION
      then Bad_request ''INVALID_REFERENCE'' (what @ '' references something that does not exist in this workspace.'')
      else if pg_code e = CHECK_VIOLATION
      then Bad_request ''INVALID_VALUE'' (what @ '' contains a value the ledger does not allow.'')
      else Bad_request ''PLANNING_WRITE_FAILED'' (pg_message e))"

definition assertDeleted :: "'r list \<Rightarrow> string \<Rightarrow> (plan_db, unit) api" where
  "assertDeleted rows what =
     (if rows = [] then api_throw (Not_found ''NOT_FOUND'' (''That '' @ js_lower what @ '' does not exist in this workspace.''))
      else api_return ())"

text \<open>\<open>Number(value)\<close> of a digit string, rounded as a \<open>number\<close> is.\<close>

definition minor :: "string \<Rightarrow> string \<Rightarrow> api_exn + int" where
  "minor value field =
     (let parsed = dbl (int (digits_val value)) in
      if MAX_SAFE_INTEGER < \<bar>parsed\<bar>
      then Inl (Bad_request ''AMOUNT_TOO_LARGE'' (field @ '' is outside the range this system can represent exactly.''))
      else Inr parsed)"

definition minor_opt :: "string option \<Rightarrow> string \<Rightarrow> api_exn + int option" where
  "minor_opt value field = (case value of None \<Rightarrow> Inr None
     | Some v \<Rightarrow> (case minor v field of Inl e \<Rightarrow> Inl e | Inr n \<Rightarrow> Inr (Some n)))"

definition rpc :: "plan_world \<Rightarrow> string \<Rightarrow> (string \<times> string) list \<Rightarrow> (plan_db, json) api" where
  "rpc W fn args =
     api_bind (plan_stmt (\<lambda>s. case aggregate W fn args s of Inl e \<Rightarrow> Inl e | Inr j \<Rightarrow> Inr (j, s))) (\<lambda>r.
     case r of
       Inl e \<Rightarrow> api_throw (Bad_request ''AGGREGATION_FAILED'' (pg_message e))
     | Inr data \<Rightarrow> api_return data)"

text \<open>A write whose error becomes an HTTP answer.\<close>

definition written :: "string \<Rightarrow> (plan_db \<Rightarrow> pg_error + 'a \<times> plan_db) \<Rightarrow> (plan_db, 'a) api" where
  "written what f =
     api_bind (plan_stmt f) (\<lambda>r. case r of Inl e \<Rightarrow> api_throw (fail e what) | Inr x \<Rightarrow> api_return x)"

definition pick_one :: "'r list \<Rightarrow> plan_db \<Rightarrow> pg_error + 'r \<times> plan_db" where
  "pick_one rows s = (case single rows of Inl e \<Rightarrow> Inl e | Inr r \<Rightarrow> Inr (r, s))"

section \<open>Budgets\<close>

record budget_line_input =
  li_category_id :: string
  li_planned_minor :: string
  li_alert_threshold_pct :: "int option"

record upsert_budget_dto =
  ub_name :: "string option"
  ub_cadence :: "BudgetCadence option"
  ub_rollover :: "bool option"
  ub_lines :: "budget_line_input list"

definition getBudgetStatus :: "plan_world \<Rightarrow> string \<Rightarrow> (plan_db, json) api" where
  "getBudgetStatus W ws = rpc W ''budget_status'' [(''p_workspace_id'', ws)]"

definition active_budgets :: "string \<Rightarrow> string \<Rightarrow> BudgetCadence \<Rightarrow> plan_db \<Rightarrow> budget list" where
  "active_budgets uid ws cadence s = [b \<leftarrow> budgets s. member_of uid s (bg_workspace_id b) \<and> bg_workspace_id b = ws
     \<and> bg_cadence b = cadence \<and> bg_status b = BUDGET_ACTIVE]"

definition update_budget :: "string \<Rightarrow> string \<Rightarrow> upsert_budget_dto \<Rightarrow> plan_db \<Rightarrow> pg_error + unit \<times> plan_db" where
  "update_budget uid bid dto s = Inr ((), s\<lparr>budgets := map (\<lambda>b.
     if bg_id b = bid \<and> member_of uid s (bg_workspace_id b)
     then b\<lparr>bg_name := (case ub_name dto of None \<Rightarrow> bg_name b | Some n \<Rightarrow> n),
            bg_rollover := (case ub_rollover dto of None \<Rightarrow> bg_rollover b | Some r \<Rightarrow> r)\<rparr>
     else b) (budgets s)\<rparr>)"

definition budget_conflicts :: "budget \<Rightarrow> budget \<Rightarrow> bool" where
  "budget_conflicts new old \<longleftrightarrow> bg_id new = bg_id old
     \<or> (bg_status new = BUDGET_ACTIVE \<and> bg_status old = BUDGET_ACTIVE
         \<and> bg_workspace_id new = bg_workspace_id old \<and> bg_cadence new = bg_cadence old)"

definition insert_budget :: "string \<Rightarrow> budget \<Rightarrow> plan_db \<Rightarrow> pg_error + string \<times> plan_db" where
  "insert_budget uid b s =
     (if \<not> member_of uid s (bg_workspace_id b) then Inl (pg RLS_VIOLATION)
      else if list_ex (budget_conflicts b) (budgets s) then Inl (pg UNIQUE_VIOLATION)
      else Inr (bg_id b, s\<lparr>budgets := budgets s @ [b]\<rparr>))"

definition clear_lines :: "string \<Rightarrow> string \<Rightarrow> plan_db \<Rightarrow> pg_error + unit \<times> plan_db" where
  "clear_lines uid bid s = Inr ((), s\<lparr>budget_lines := [l \<leftarrow> budget_lines s.
     \<not> (bl_budget_id l = bid \<and> member_of uid s (bl_workspace_id l))]\<rparr>)"

definition line_ok :: "plan_db \<Rightarrow> budget_line \<Rightarrow> bool" where
  "line_ok s l \<longleftrightarrow> 0 < bl_planned_minor l \<and> 0 \<le> bl_alert_threshold_pct l \<and> bl_alert_threshold_pct l \<le> 100"

definition insert_lines :: "string \<Rightarrow> budget_line list \<Rightarrow> plan_db \<Rightarrow> pg_error + unit \<times> plan_db" where
  "insert_lines uid ls s =
     (let key = (\<lambda>l. (bl_budget_id l, bl_category_id l)) in
      if \<not> list_all (\<lambda>l. member_of uid s (bl_workspace_id l)) ls then Inl (pg RLS_VIOLATION)
      else if \<not> list_all (line_ok s) ls then Inl (pg CHECK_VIOLATION)
      else if \<not> distinct (map key ls) \<or> list_ex (\<lambda>l. key l \<in> set (map key (budget_lines s))) ls
        then Inl (pg UNIQUE_VIOLATION)
      else if \<not> list_all (\<lambda>l. category_exists s (bl_category_id l)
             \<and> list_ex (\<lambda>b. bg_id b = bl_budget_id l) (budgets s)) ls then Inl (pg FK_VIOLATION)
      else Inr ((), s\<lparr>budget_lines := budget_lines s @ ls\<rparr>))"

fun line_rows :: "string \<Rightarrow> string \<Rightarrow> budget_line_input list \<Rightarrow> api_exn + budget_line list" where
  "line_rows bid ws [] = Inr []"
| "line_rows bid ws (i # is) =
     (case minor (li_planned_minor i) ''planned_minor'' of
        Inl e \<Rightarrow> Inl e
      | Inr n \<Rightarrow>
          (case line_rows bid ws is of
             Inl e \<Rightarrow> Inl e
           | Inr ls \<Rightarrow> Inr (\<lparr>bl_budget_id = bid, bl_workspace_id = ws, bl_category_id = li_category_id i,
               bl_planned_minor = n,
               bl_alert_threshold_pct = (case li_alert_threshold_pct i of None \<Rightarrow> 80 | Some t \<Rightarrow> t)\<rparr> # ls)))"

definition budget_id_for ::
    "plan_world \<Rightarrow> string \<Rightarrow> string \<Rightarrow> upsert_budget_dto \<Rightarrow> (plan_db, string) api" where
  "budget_id_for W ws uid dto =
     (let cadence = (case ub_cadence dto of None \<Rightarrow> C_MONTHLY | Some c \<Rightarrow> c) in
      api_bind (plan_stmt (\<lambda>s. case maybe_single (active_budgets uid ws cadence s) of Inl e \<Rightarrow> Inl e
          | Inr x \<Rightarrow> Inr (x, s))) (\<lambda>existing.
      case data_maybe existing of
        Some b \<Rightarrow>
          api_bind (written ''Budget'' (update_budget uid (bg_id b) dto)) (\<lambda>_. api_return (bg_id b))
      | None \<Rightarrow>
          api_bind (plan_uuid W) (\<lambda>i.
          written ''Budget'' (insert_budget uid
            \<lparr>bg_id = i, bg_workspace_id = ws, bg_name = (case ub_name dto of None \<Rightarrow> [] | Some n \<Rightarrow> n),
             bg_cadence = cadence, bg_period_start = js_slice 0 10 (env_now (pw_env W)),
             bg_rollover = (case ub_rollover dto of None \<Rightarrow> False | Some r \<Rightarrow> r), bg_status = BUDGET_ACTIVE,
             bg_created_by = uid\<rparr>))))"

definition upsertBudget ::
    "plan_world \<Rightarrow> string \<Rightarrow> string \<Rightarrow> upsert_budget_dto \<Rightarrow> (plan_db, json) api" where
  "upsertBudget W ws uid dto =
     api_bind (budget_id_for W ws uid dto) (\<lambda>budgetId.
     api_bind (written ''Budget lines'' (clear_lines uid budgetId)) (\<lambda>_.
     api_bind (if ub_lines dto = [] then api_return ()
       else api_bind (api_lift (line_rows budgetId ws (ub_lines dto))) (\<lambda>rows.
         written ''Budget lines'' (insert_lines uid rows))) (\<lambda>_.
     getBudgetStatus W ws)))"

definition delete_budget_rows :: "string \<Rightarrow> string \<Rightarrow> string \<Rightarrow> plan_db \<Rightarrow> pg_error + string list \<times> plan_db" where
  "delete_budget_rows uid bid ws s =
     (let hit = (\<lambda>b. bg_id b = bid \<and> bg_workspace_id b = ws \<and> member_of uid s (bg_workspace_id b));
          gone = map bg_id (filter hit (budgets s)) in
      Inr (gone, s\<lparr>budgets := [b \<leftarrow> budgets s. \<not> hit b],
        budget_lines := [l \<leftarrow> budget_lines s. bl_budget_id l \<notin> set gone]\<rparr>))"

definition deleteBudget :: "string \<Rightarrow> string \<Rightarrow> string \<Rightarrow> (plan_db, bool) api" where
  "deleteBudget ws uid bid =
     api_bind (written ''Budget'' (delete_budget_rows uid bid ws)) (\<lambda>rows.
     api_bind (assertDeleted rows ''Budget'') (\<lambda>_. api_return True))"

section \<open>Goals and debts\<close>

record create_goal_dto =
  cg_name :: string
  cg_target_minor :: string
  cg_currency_code :: "string option"
  cg_target_date :: "string option"
  cg_linked_account_id :: "string option"
  cg_priority :: "int option"

record update_goal_dto =
  ug_name :: "string option"
  ug_target_minor :: "string option"
  ug_target_date :: "string option"
  ug_linked_account_id :: "string option"
  ug_priority :: "int option"
  ug_status :: "GoalStatus option"

record upsert_debt_dto =
  ud_ledger_account_id :: string
  ud_principal_minor :: string
  ud_annual_rate_bps :: "int option"
  ud_minimum_payment_minor :: "string option"
  ud_due_day :: "int option"

definition getGoalsOverview :: "plan_world \<Rightarrow> string \<Rightarrow> (plan_db, json) api" where
  "getGoalsOverview W ws = rpc W ''goals_overview'' [(''p_workspace_id'', ws)]"

text \<open>The date as stored, or Postgres' refusal of the text.\<close>

definition stored_date :: "plan_world \<Rightarrow> string option \<Rightarrow> pg_error + string option" where
  "stored_date W d = (case d of None \<Rightarrow> Inr None
     | Some x \<Rightarrow> (case pg_date W x of None \<Rightarrow> Inl (pg ''22007'') | Some y \<Rightarrow> Inr (Some y)))"

definition goal_ok :: "plan_db \<Rightarrow> savings_goal \<Rightarrow> pg_error option" where
  "goal_ok s g =
     (if \<not> 0 < sg_target_minor g then Some (pg CHECK_VIOLATION)
      else if \<not> ref_ok (account_exists s) (sg_linked_account_id g) then Some (pg FK_VIOLATION) else None)"

definition insert_goal :: "plan_world \<Rightarrow> string \<Rightarrow> savings_goal \<Rightarrow> plan_db \<Rightarrow> pg_error + savings_goal \<times> plan_db" where
  "insert_goal W uid g s =
     (case stored_date W (sg_target_date g) of
        Inl e \<Rightarrow> Inl e
      | Inr d \<Rightarrow>
          let row = g\<lparr>sg_target_date := d\<rparr> in
          if \<not> member_of uid s (sg_workspace_id g) then Inl (pg RLS_VIOLATION)
          else if list_ex (\<lambda>x. sg_id x = sg_id g) (savings_goals s) then Inl (pg UNIQUE_VIOLATION)
          else (case goal_ok s row of Some e \<Rightarrow> Inl e
            | None \<Rightarrow> Inr (row, s\<lparr>savings_goals := savings_goals s @ [row]\<rparr>)))"

definition createGoal :: "plan_world \<Rightarrow> string \<Rightarrow> string \<Rightarrow> create_goal_dto \<Rightarrow> (plan_db, savings_goal) api" where
  "createGoal W ws uid dto =
     api_bind (api_lift (minor (cg_target_minor dto) ''target_minor'')) (\<lambda>n.
     api_bind (plan_uuid W) (\<lambda>i.
     written ''Goal'' (insert_goal W uid
       \<lparr>sg_id = i, sg_workspace_id = ws, sg_name = cg_name dto, sg_target_minor = n,
        sg_currency_code = (case cg_currency_code dto of None \<Rightarrow> ''BDT'' | Some c \<Rightarrow> c),
        sg_target_date = cg_target_date dto, sg_linked_account_id = cg_linked_account_id dto,
        sg_priority = (case cg_priority dto of None \<Rightarrow> 0 | Some p \<Rightarrow> p), sg_status = GOAL_ACTIVE,
        sg_created_by = uid\<rparr>)))"

definition patched_goal :: "update_goal_dto \<Rightarrow> int option \<Rightarrow> string option \<Rightarrow> savings_goal \<Rightarrow> savings_goal" where
  "patched_goal dto target date g = g\<lparr>
     sg_name := (case ug_name dto of None \<Rightarrow> sg_name g | Some n \<Rightarrow> n),
     sg_target_minor := (case target of None \<Rightarrow> sg_target_minor g | Some n \<Rightarrow> n),
     sg_target_date := (case date of None \<Rightarrow> sg_target_date g | Some d \<Rightarrow> Some d),
     sg_linked_account_id := (case ug_linked_account_id dto of None \<Rightarrow> sg_linked_account_id g | Some a \<Rightarrow> Some a),
     sg_priority := (case ug_priority dto of None \<Rightarrow> sg_priority g | Some p \<Rightarrow> p),
     sg_status := (case ug_status dto of None \<Rightarrow> sg_status g | Some t \<Rightarrow> t)\<rparr>"

definition update_goal_row ::
    "plan_world \<Rightarrow> string \<Rightarrow> string \<Rightarrow> string \<Rightarrow> update_goal_dto \<Rightarrow> int option \<Rightarrow> plan_db \<Rightarrow> pg_error + savings_goal \<times> plan_db" where
  "update_goal_row W uid gid ws dto target s =
     (case stored_date W (ug_target_date dto) of
        Inl e \<Rightarrow> Inl e
      | Inr d \<Rightarrow>
          let hit = (\<lambda>g. sg_id g = gid \<and> sg_workspace_id g = ws \<and> member_of uid s (sg_workspace_id g));
              patch = patched_goal dto target d in
          (case single (filter hit (savings_goals s)) of
             Inl e \<Rightarrow> Inl e
           | Inr g \<Rightarrow>
               (case goal_ok s (patch g) of Some e \<Rightarrow> Inl e
                | None \<Rightarrow> Inr (patch g, s\<lparr>savings_goals := map (\<lambda>x. if hit x then patch x else x) (savings_goals s)\<rparr>))))"

definition empty_goal_patch :: "update_goal_dto \<Rightarrow> bool" where
  "empty_goal_patch dto \<longleftrightarrow> ug_name dto = None \<and> ug_target_minor dto = None \<and> ug_target_date dto = None
     \<and> ug_linked_account_id dto = None \<and> ug_priority dto = None \<and> ug_status dto = None"

definition updateGoal ::
    "plan_world \<Rightarrow> string \<Rightarrow> string \<Rightarrow> string \<Rightarrow> update_goal_dto \<Rightarrow> (plan_db, savings_goal) api" where
  "updateGoal W ws uid gid dto =
     api_bind (api_lift (minor_opt (ug_target_minor dto) ''target_minor'')) (\<lambda>target.
     if empty_goal_patch dto then api_throw (Bad_request ''EMPTY_PATCH'' ''Nothing to update.'')
     else written ''Goal'' (update_goal_row W uid gid ws dto target))"

text \<open>The events of a deleted goal go with it.\<close>

definition delete_goal_rows :: "string \<Rightarrow> string \<Rightarrow> string \<Rightarrow> plan_db \<Rightarrow> pg_error + string list \<times> plan_db" where
  "delete_goal_rows uid gid ws s =
     (let hit = (\<lambda>g. sg_id g = gid \<and> sg_workspace_id g = ws \<and> member_of uid s (sg_workspace_id g));
          gone = map sg_id (filter hit (savings_goals s)) in
      Inr (gone, s\<lparr>savings_goals := [g \<leftarrow> savings_goals s. \<not> hit g],
        calendar_events := [e \<leftarrow> calendar_events s. case ce_savings_goal_id e of None \<Rightarrow> True | Some g \<Rightarrow> g \<notin> set gone]\<rparr>))"

definition deleteGoal :: "string \<Rightarrow> string \<Rightarrow> string \<Rightarrow> (plan_db, bool) api" where
  "deleteGoal ws uid gid =
     api_bind (written ''Goal'' (delete_goal_rows uid gid ws)) (\<lambda>rows.
     api_bind (assertDeleted rows ''Goal'') (\<lambda>_. api_return True))"

definition plan_accounts :: "string \<Rightarrow> string \<Rightarrow> string \<Rightarrow> plan_db \<Rightarrow> ledger_account list" where
  "plan_accounts uid aid ws s = [a \<leftarrow> visible_accounts uid (pl_base s). la_id a = aid \<and> la_workspace_id a = ws]"

definition non_negative :: "int option \<Rightarrow> bool" where
  "non_negative n = (case n of None \<Rightarrow> True | Some k \<Rightarrow> 0 \<le> k)"

definition debt_ok :: "plan_db \<Rightarrow> debt_details \<Rightarrow> pg_error option" where
  "debt_ok s d =
     (if \<not> 0 \<le> dd_principal_minor d \<or> \<not> non_negative (dd_annual_rate_bps d)
          \<or> \<not> non_negative (dd_minimum_payment_minor d)
          \<or> (case dd_due_day d of None \<Rightarrow> False | Some k \<Rightarrow> k < 1 \<or> 31 < k) then Some (pg CHECK_VIOLATION)
      else if \<not> account_exists s (dd_ledger_account_id d) then Some (pg FK_VIOLATION) else None)"

text \<open>INSERT ... ON CONFLICT (ledger_account_id) DO UPDATE: the policies apply to the old row too.\<close>

definition upsert_debt_row :: "string \<Rightarrow> debt_details \<Rightarrow> plan_db \<Rightarrow> pg_error + debt_details \<times> plan_db" where
  "upsert_debt_row uid d s =
     (let same = (\<lambda>x. dd_ledger_account_id x = dd_ledger_account_id d) in
      if \<not> member_of uid s (dd_workspace_id d)
          \<or> list_ex (\<lambda>x. same x \<and> \<not> member_of uid s (dd_workspace_id x)) (debts s) then Inl (pg RLS_VIOLATION)
      else (case debt_ok s d of Some e \<Rightarrow> Inl e
        | None \<Rightarrow> Inr (d, s\<lparr>debts := (if list_ex same (debts s) then map (\<lambda>x. if same x then d else x) (debts s)
                              else debts s @ [d])\<rparr>)))"

definition upsertDebt :: "string \<Rightarrow> string \<Rightarrow> upsert_debt_dto \<Rightarrow> (plan_db, debt_details) api" where
  "upsertDebt ws uid dto =
     api_bind (plan_stmt (\<lambda>s. case maybe_single (plan_accounts uid (ud_ledger_account_id dto) ws s) of
         Inl e \<Rightarrow> Inl e | Inr x \<Rightarrow> Inr (x, s))) (\<lambda>found.
     case data_maybe found of
       None \<Rightarrow> api_throw (Not_found ''ACCOUNT_NOT_FOUND'' ''That account does not exist in this workspace.'')
     | Some account \<Rightarrow>
         if la_class account \<noteq> LIABILITY
         then api_throw (Bad_request ''NOT_A_LIABILITY'' ''Debt terms can only be attached to a liability account.'')
         else
           api_bind (api_lift (minor (ud_principal_minor dto) ''principal_minor'')) (\<lambda>principal.
           api_bind (api_lift (minor_opt (ud_minimum_payment_minor dto) ''minimum_payment_minor'')) (\<lambda>payment.
           written ''Debt terms'' (upsert_debt_row uid
             \<lparr>dd_ledger_account_id = ud_ledger_account_id dto, dd_workspace_id = ws, dd_principal_minor = principal,
              dd_annual_rate_bps = ud_annual_rate_bps dto, dd_minimum_payment_minor = payment,
              dd_due_day = ud_due_day dto\<rparr>))))"

definition listDebts :: "plan_world \<Rightarrow> string \<Rightarrow> (plan_db, json \<times> json) api" where
  "listDebts W ws =
     api_bind (getGoalsOverview W ws) (\<lambda>overview.
     api_return
       (case jget overview ''debts'' of None \<Rightarrow> JArr [] | Some d \<Rightarrow> if d = JNull then JArr [] else d,
        case jget overview ''total_debt_minor'' of None \<Rightarrow> JInt 0 | Some n \<Rightarrow> if n = JNull then JInt 0 else n))"

definition delete_debt_rows :: "string \<Rightarrow> string \<Rightarrow> string \<Rightarrow> plan_db \<Rightarrow> pg_error + string list \<times> plan_db" where
  "delete_debt_rows uid aid ws s =
     (let hit = (\<lambda>d. dd_ledger_account_id d = aid \<and> dd_workspace_id d = ws \<and> member_of uid s (dd_workspace_id d)) in
      Inr (map dd_ledger_account_id (filter hit (debts s)), s\<lparr>debts := [d \<leftarrow> debts s. \<not> hit d]\<rparr>))"

definition deleteDebt :: "string \<Rightarrow> string \<Rightarrow> string \<Rightarrow> (plan_db, bool) api" where
  "deleteDebt ws uid aid =
     api_bind (written ''Debt terms'' (delete_debt_rows uid aid ws)) (\<lambda>rows.
     if rows = [] then api_throw (Not_found ''DEBT_TERMS_NOT_FOUND'' ''Debt terms not found'')
     else api_return True)"

section \<open>Calendar\<close>

record create_event_dto =
  cev_type :: EventType
  cev_title :: string
  cev_amount_minor :: "string option"
  cev_currency_code :: "string option"
  cev_due_date :: string
  cev_reminder_offsets :: "int list option"

record update_event_dto =
  uev_title :: "string option"
  uev_amount_minor :: "string option"
  uev_due_date :: "string option"
  uev_status :: "EventStatus option"
  uev_journal_entry_id :: "string option"

definition getCalendarOverview :: "plan_world \<Rightarrow> string \<Rightarrow> nat \<Rightarrow> (plan_db, json) api" where
  "getCalendarOverview W ws days = rpc W ''calendar_overview'' [(''p_workspace_id'', ws), (''p_days'', show_nat days)]"

text \<open>The workspace row both creations read: its timezone and currency, with their defaults.\<close>

definition workspace_settings :: "string \<Rightarrow> string \<Rightarrow> (plan_db, workspace option) api" where
  "workspace_settings ws uid =
     api_bind (plan_stmt (\<lambda>s. pick_one [w \<leftarrow> visible_workspaces uid (pl_base s). ws_id w = ws] s)) (\<lambda>r.
     api_return (data_of r))"

definition timezone_of :: "workspace option \<Rightarrow> string" where
  "timezone_of w = (case w of None \<Rightarrow> ''Asia/Dhaka'' | Some x \<Rightarrow> ws_timezone x)"

definition currency_of :: "string option \<Rightarrow> workspace option \<Rightarrow> string" where
  "currency_of requested w = (case requested of Some c \<Rightarrow> c
     | None \<Rightarrow> (case w of None \<Rightarrow> ''BDT'' | Some x \<Rightarrow> ws_base_currency x))"

definition noon_iso :: "plan_world \<Rightarrow> string \<Rightarrow> api_exn + string" where
  "noon_iso W localDate = (case date_iso W (localDate @ ''T12:00:00Z'') of
     None \<Rightarrow> Inl (Js_error ''Invalid time value'') | Some t \<Rightarrow> Inr t)"

definition event_ok :: "plan_db \<Rightarrow> calendar_event \<Rightarrow> pg_error option" where
  "event_ok s e =
     (if \<not> non_negative (ce_amount_minor e) then Some (pg CHECK_VIOLATION)
      else if \<not> ref_ok (\<lambda>i. list_ex (\<lambda>x. je_id x = i) (journal_entries (pl_base s))) (ce_journal_entry_id e)
        then Some (pg FK_VIOLATION) else None)"

definition insert_event :: "plan_world \<Rightarrow> string \<Rightarrow> calendar_event \<Rightarrow> plan_db \<Rightarrow> pg_error + calendar_event \<times> plan_db" where
  "insert_event W uid e s =
     (case pg_date W (ce_local_date e) of
        None \<Rightarrow> Inl (pg ''22007'')
      | Some d \<Rightarrow>
          let row = e\<lparr>ce_local_date := d\<rparr> in
          if \<not> member_of uid s (ce_workspace_id e) then Inl (pg RLS_VIOLATION)
          else if list_ex (\<lambda>x. ce_id x = ce_id e) (calendar_events s) then Inl (pg UNIQUE_VIOLATION)
          else (case event_ok s row of Some x \<Rightarrow> Inl x
            | None \<Rightarrow> Inr (row, s\<lparr>calendar_events := calendar_events s @ [row]\<rparr>)))"

definition createCalendarEvent ::
    "plan_world \<Rightarrow> string \<Rightarrow> string \<Rightarrow> create_event_dto \<Rightarrow> (plan_db, calendar_event) api" where
  "createCalendarEvent W ws uid dto =
     api_bind (workspace_settings ws uid) (\<lambda>workspace.
     let localDate = js_slice 0 10 (cev_due_date dto) in
     api_bind (api_lift (minor_opt (cev_amount_minor dto) ''amount_minor'')) (\<lambda>amount.
     api_bind (api_lift (noon_iso W localDate)) (\<lambda>due.
     api_bind (plan_uuid W) (\<lambda>i.
     written ''Calendar event'' (insert_event W uid
       \<lparr>ce_id = i, ce_workspace_id = ws, ce_type = cev_type dto, ce_title = cev_title dto, ce_amount_minor = amount,
        ce_currency_code = currency_of (cev_currency_code dto) workspace, ce_due_at = due,
        ce_timezone = timezone_of workspace, ce_local_date = localDate,
        ce_reminder_offsets = (case cev_reminder_offsets dto of None \<Rightarrow> [] | Some os \<Rightarrow> os),
        ce_recurring_rule_id = None, ce_journal_entry_id = None, ce_savings_goal_id = None,
        ce_status = EV_UPCOMING, ce_created_by = uid\<rparr>)))))"

definition patched_event :: "update_event_dto \<Rightarrow> int option \<Rightarrow> (string \<times> string) option \<Rightarrow> calendar_event \<Rightarrow> calendar_event" where
  "patched_event dto amount due e = e\<lparr>
     ce_title := (case uev_title dto of None \<Rightarrow> ce_title e | Some t \<Rightarrow> t),
     ce_amount_minor := (case amount of None \<Rightarrow> ce_amount_minor e | Some n \<Rightarrow> Some n),
     ce_local_date := (case due of None \<Rightarrow> ce_local_date e | Some (d, _) \<Rightarrow> d),
     ce_due_at := (case due of None \<Rightarrow> ce_due_at e | Some (_, t) \<Rightarrow> t),
     ce_status := (case uev_status dto of None \<Rightarrow> ce_status e | Some st \<Rightarrow> st),
     ce_journal_entry_id := (case uev_journal_entry_id dto of None \<Rightarrow> ce_journal_entry_id e | Some j \<Rightarrow> Some j)\<rparr>"

definition update_event_row ::
    "plan_world \<Rightarrow> string \<Rightarrow> string \<Rightarrow> string \<Rightarrow> update_event_dto \<Rightarrow> int option \<Rightarrow> (string \<times> string) option
      \<Rightarrow> plan_db \<Rightarrow> pg_error + calendar_event \<times> plan_db" where
  "update_event_row W uid eid ws dto amount due s =
     (case stored_date W (map_option fst due) of
        Inl e \<Rightarrow> Inl e
      | Inr d \<Rightarrow>
          let stored = (case (d, due) of (Some x, Some (_, t)) \<Rightarrow> Some (x, t) | _ \<Rightarrow> None);
              hit = (\<lambda>e. ce_id e = eid \<and> ce_workspace_id e = ws \<and> member_of uid s (ce_workspace_id e));
              patch = patched_event dto amount stored in
          (case single (filter hit (calendar_events s)) of
             Inl e \<Rightarrow> Inl e
           | Inr x \<Rightarrow>
               (case event_ok s (patch x) of Some e \<Rightarrow> Inl e
                | None \<Rightarrow> Inr (patch x, s\<lparr>calendar_events := map (\<lambda>y. if hit y then patch y else y) (calendar_events s)\<rparr>))))"

definition empty_event_patch :: "update_event_dto \<Rightarrow> bool" where
  "empty_event_patch dto \<longleftrightarrow> uev_title dto = None \<and> uev_amount_minor dto = None \<and> uev_due_date dto = None
     \<and> uev_status dto = None \<and> uev_journal_entry_id dto = None"

definition new_due :: "plan_world \<Rightarrow> string option \<Rightarrow> api_exn + (string \<times> string) option" where
  "new_due W d = (case d of None \<Rightarrow> Inr None
     | Some x \<Rightarrow> (case noon_iso W (js_slice 0 10 x) of Inl e \<Rightarrow> Inl e | Inr t \<Rightarrow> Inr (Some (js_slice 0 10 x, t))))"

definition updateCalendarEvent ::
    "plan_world \<Rightarrow> string \<Rightarrow> string \<Rightarrow> string \<Rightarrow> update_event_dto \<Rightarrow> (plan_db, calendar_event) api" where
  "updateCalendarEvent W ws uid eid dto =
     api_bind (api_lift (minor_opt (uev_amount_minor dto) ''amount_minor'')) (\<lambda>amount.
     api_bind (api_lift (new_due W (uev_due_date dto))) (\<lambda>due.
     if empty_event_patch dto then api_throw (Bad_request ''EMPTY_PATCH'' ''Nothing to update.'')
     else written ''Calendar event'' (update_event_row W uid eid ws dto amount due)))"

definition delete_event_rows :: "string \<Rightarrow> string \<Rightarrow> string \<Rightarrow> plan_db \<Rightarrow> pg_error + string list \<times> plan_db" where
  "delete_event_rows uid eid ws s =
     (let hit = (\<lambda>e. ce_id e = eid \<and> ce_workspace_id e = ws \<and> member_of uid s (ce_workspace_id e)) in
      Inr (map ce_id (filter hit (calendar_events s)), s\<lparr>calendar_events := [e \<leftarrow> calendar_events s. \<not> hit e]\<rparr>))"

definition deleteCalendarEvent :: "string \<Rightarrow> string \<Rightarrow> string \<Rightarrow> (plan_db, bool) api" where
  "deleteCalendarEvent ws uid eid =
     api_bind (written ''Calendar event'' (delete_event_rows uid eid ws)) (\<lambda>rows.
     api_bind (assertDeleted rows ''Calendar event'') (\<lambda>_. api_return True))"

section \<open>Recurring rules\<close>

record create_rule_dto =
  crr_name :: string
  crr_entry_type :: EntryType
  crr_amount_minor :: string
  crr_currency_code :: "string option"
  crr_account_id :: "string option"
  crr_category_id :: "string option"
  crr_payee :: "string option"
  crr_frequency :: RuleFrequency
  crr_interval_count :: "int option"
  crr_next_occurrence :: string
  crr_ends_at :: "string option"
  crr_behavior :: "RuleBehavior option"

definition listRecurringRules :: "string \<Rightarrow> string \<Rightarrow> (plan_db, recurring_rule list) api" where
  "listRecurringRules ws uid =
     written ''Recurring rules'' (\<lambda>s. Inr (sort_key rr_next_occurrence
       [r \<leftarrow> recurring_rules s. member_of uid s (rr_workspace_id r) \<and> rr_workspace_id r = ws], s))"

definition rule_ok :: "plan_db \<Rightarrow> recurring_rule \<Rightarrow> pg_error option" where
  "rule_ok s r =
     (if \<not> 0 < rr_amount_minor r \<or> \<not> 0 < rr_interval_count r \<or> list_all (\<lambda>c. c = CHR '' '') (rr_name r)
          \<or> (case rr_ends_at r of None \<Rightarrow> False | Some d \<Rightarrow> d < rr_next_occurrence r) then Some (pg CHECK_VIOLATION)
      else if \<not> ref_ok (account_exists s) (rr_account_id r) \<or> \<not> ref_ok (category_exists s) (rr_category_id r)
        then Some (pg FK_VIOLATION) else None)"

definition insert_rule :: "plan_world \<Rightarrow> string \<Rightarrow> recurring_rule \<Rightarrow> plan_db \<Rightarrow> pg_error + recurring_rule \<times> plan_db" where
  "insert_rule W uid r s =
     (case (stored_date W (Some (rr_next_occurrence r)), stored_date W (rr_ends_at r)) of
        (Inr (Some d), Inr ends) \<Rightarrow>
          let row = r\<lparr>rr_next_occurrence := d, rr_ends_at := ends\<rparr> in
          if \<not> member_of uid s (rr_workspace_id r) then Inl (pg RLS_VIOLATION)
          else if list_ex (\<lambda>x. rr_id x = rr_id r) (recurring_rules s) then Inl (pg UNIQUE_VIOLATION)
          else (case rule_ok s row of Some e \<Rightarrow> Inl e
            | None \<Rightarrow> Inr (row, s\<lparr>recurring_rules := recurring_rules s @ [row]\<rparr>))
      | _ \<Rightarrow> Inl (pg ''22007''))"

definition createRecurringRule ::
    "plan_world \<Rightarrow> string \<Rightarrow> string \<Rightarrow> create_rule_dto \<Rightarrow> (plan_db, recurring_rule) api" where
  "createRecurringRule W ws uid dto =
     api_bind (workspace_settings ws uid) (\<lambda>workspace.
     api_bind (api_lift (minor (crr_amount_minor dto) ''amount_minor'')) (\<lambda>amount.
     api_bind (plan_uuid W) (\<lambda>i.
     written ''Recurring rule'' (insert_rule W uid
       \<lparr>rr_id = i, rr_workspace_id = ws, rr_name = crr_name dto, rr_entry_type = crr_entry_type dto,
        rr_amount_minor = amount, rr_currency_code = currency_of (crr_currency_code dto) workspace,
        rr_account_id = crr_account_id dto, rr_category_id = crr_category_id dto, rr_payee = crr_payee dto,
        rr_frequency = crr_frequency dto,
        rr_interval_count = (case crr_interval_count dto of None \<Rightarrow> 1 | Some n \<Rightarrow> n),
        rr_timezone = timezone_of workspace, rr_next_occurrence = js_slice 0 10 (crr_next_occurrence dto),
        rr_ends_at = map_option (js_slice 0 10) (crr_ends_at dto),
        rr_behavior = (case crr_behavior dto of None \<Rightarrow> REMIND_ONLY | Some b \<Rightarrow> b),
        rr_status = RULE_ACTIVE, rr_created_by = uid\<rparr>))))"

text \<open>The events of a deleted rule stay, without their reference.\<close>

definition delete_rule_rows :: "string \<Rightarrow> string \<Rightarrow> string \<Rightarrow> plan_db \<Rightarrow> pg_error + string list \<times> plan_db" where
  "delete_rule_rows uid rid ws s =
     (let hit = (\<lambda>r. rr_id r = rid \<and> rr_workspace_id r = ws \<and> member_of uid s (rr_workspace_id r));
          gone = map rr_id (filter hit (recurring_rules s)) in
      Inr (gone, s\<lparr>recurring_rules := [r \<leftarrow> recurring_rules s. \<not> hit r],
        calendar_events := map (\<lambda>e. case ce_recurring_rule_id e of None \<Rightarrow> e
          | Some r \<Rightarrow> if r \<in> set gone then e\<lparr>ce_recurring_rule_id := None\<rparr> else e) (calendar_events s)\<rparr>))"

definition deleteRecurringRule :: "string \<Rightarrow> string \<Rightarrow> string \<Rightarrow> (plan_db, bool) api" where
  "deleteRecurringRule ws uid rid =
     api_bind (written ''Recurring rule'' (delete_rule_rows uid rid ws)) (\<lambda>rows.
     api_bind (assertDeleted rows ''Recurring rule'') (\<lambda>_. api_return True))"

definition update_rule_row :: "string \<Rightarrow> string \<Rightarrow> string \<Rightarrow> RuleStatus \<Rightarrow> plan_db \<Rightarrow> pg_error + recurring_rule \<times> plan_db" where
  "update_rule_row uid rid ws status s =
     (let hit = (\<lambda>r. rr_id r = rid \<and> rr_workspace_id r = ws \<and> member_of uid s (rr_workspace_id r));
          patch = (\<lambda>r. r\<lparr>rr_status := status\<rparr>) in
      case single (filter hit (recurring_rules s)) of
        Inl e \<Rightarrow> Inl e
      | Inr r \<Rightarrow> Inr (patch r, s\<lparr>recurring_rules := map (\<lambda>x. if hit x then patch x else x) (recurring_rules s)\<rparr>))"

definition updateRecurringRule :: "string \<Rightarrow> string \<Rightarrow> string \<Rightarrow> RuleStatus \<Rightarrow> (plan_db, recurring_rule) api" where
  "updateRecurringRule ws uid rid status = written ''Recurring rule'' (update_rule_row uid rid ws status)"

section \<open>Reports\<close>

definition optional_arg :: "string \<Rightarrow> string option \<Rightarrow> (string \<times> string) list" where
  "optional_arg k v = (case truthy v of None \<Rightarrow> [] | Some x \<Rightarrow> [(k, x)])"

definition getCategoryReport :: "plan_world \<Rightarrow> string \<Rightarrow> string option \<Rightarrow> string option \<Rightarrow> (plan_db, json) api" where
  "getCategoryReport W ws from' to' = rpc W ''category_report''
     ([(''p_workspace_id'', ws)] @ optional_arg ''p_from'' from' @ optional_arg ''p_to'' to')"

definition range_report ::
    "string \<Rightarrow> plan_world \<Rightarrow> string \<Rightarrow> string option \<Rightarrow> string option \<Rightarrow> string option \<Rightarrow> (plan_db, json) api" where
  "range_report fn W ws from' to' granularity = rpc W fn
     ([(''p_workspace_id'', ws)] @ optional_arg ''p_from'' from' @ optional_arg ''p_to'' to'
       @ [(''p_granularity'', case granularity of None \<Rightarrow> ''month'' | Some g \<Rightarrow> g)])"

definition getCashFlowReport ::
    "plan_world \<Rightarrow> string \<Rightarrow> string option \<Rightarrow> string option \<Rightarrow> string option \<Rightarrow> (plan_db, json) api" where
  "getCashFlowReport = range_report ''cash_flow_report''"

definition getNetWorthReport ::
    "plan_world \<Rightarrow> string \<Rightarrow> string option \<Rightarrow> string option \<Rightarrow> string option \<Rightarrow> (plan_db, json) api" where
  "getNetWorthReport = range_report ''net_worth_report''"

section \<open>Other workspaces\<close>

definition refers :: "('r \<Rightarrow> string) \<Rightarrow> ('r \<Rightarrow> string) \<Rightarrow> 'r list \<Rightarrow> string option \<Rightarrow> string \<Rightarrow> bool" where
  "refers ident wsp rows i w \<longleftrightarrow> (case i of None \<Rightarrow> True | Some k \<Rightarrow> list_ex (\<lambda>r. ident r = k \<and> wsp r = w) rows)"

text \<open>Ids are unique, and a row belongs to the workspace of the row it refers to.\<close>

definition plan_wf :: "plan_db \<Rightarrow> bool" where
  "plan_wf s \<longleftrightarrow> distinct (map bg_id (budgets s)) \<and> distinct (map sg_id (savings_goals s)) \<and> distinct (map rr_id (recurring_rules s))
     \<and> list_all (\<lambda>l. refers bg_id bg_workspace_id (budgets s) (Some (bl_budget_id l)) (bl_workspace_id l)) (budget_lines s)
     \<and> list_all (\<lambda>e. refers sg_id sg_workspace_id (savings_goals s) (ce_savings_goal_id e) (ce_workspace_id e)
           \<and> refers rr_id rr_workspace_id (recurring_rules s) (ce_recurring_rule_id e) (ce_workspace_id e)) (calendar_events s)"

text \<open>The rows the user may not see.\<close>

definition hidden :: "(string \<Rightarrow> bool) \<Rightarrow> plan_db
    \<Rightarrow> budget list \<times> budget_line list \<times> savings_goal list \<times> debt_details list \<times> calendar_event list \<times> recurring_rule list" where
  "hidden mine s =
     (filter (\<lambda>r. \<not> mine (bg_workspace_id r)) (budgets s), filter (\<lambda>r. \<not> mine (bl_workspace_id r)) (budget_lines s),
      filter (\<lambda>r. \<not> mine (sg_workspace_id r)) (savings_goals s), filter (\<lambda>r. \<not> mine (dd_workspace_id r)) (debts s),
      filter (\<lambda>r. \<not> mine (ce_workspace_id r)) (calendar_events s), filter (\<lambda>r. \<not> mine (rr_workspace_id r)) (recurring_rules s))"

definition isolated :: "string \<Rightarrow> plan_db \<Rightarrow> plan_db \<Rightarrow> bool" where
  "isolated uid s t \<longleftrightarrow> plan_wf t \<and> members (pl_base t) = members (pl_base s) \<and> hidden (member_of uid s) t = hidden (member_of uid s) s"

lemma member_of_same: "members (pl_base t) = members (pl_base s) \<Longrightarrow> member_of uid t = member_of uid s"
  by (simp add: member_of_def is_member_def fun_eq_iff)

lemma isolated_member: "isolated uid s t \<Longrightarrow> member_of uid t = member_of uid s"
  by (rule member_of_same) (simp add: isolated_def)

lemma filter_map_outside:
  "(\<And>x. x \<in> set xs \<Longrightarrow> hit x \<Longrightarrow> \<not> P x \<and> \<not> P (patch x)) \<Longrightarrow> filter P (map (\<lambda>x. if hit x then patch x else x) xs) = filter P xs"
  by (induction xs) auto

lemma filter_filter_outside: "(\<And>x. x \<in> set xs \<Longrightarrow> \<not> keep x \<Longrightarrow> \<not> P x) \<Longrightarrow> filter P (filter keep xs) = filter P xs"
  by (induction xs) auto

lemma refers_append: "refers ident wsp rows i w \<Longrightarrow> refers ident wsp (rows @ new) i w"
  by (auto simp: refers_def split: option.splits)

lemma refers_map:
  "refers ident wsp rows i w \<Longrightarrow> (\<And>r. ident (f r) = ident r) \<Longrightarrow> (\<And>r. wsp (f r) = wsp r) \<Longrightarrow>
     refers ident wsp (map f rows) i w"
  by (auto simp: refers_def list_ex_iff split: option.splits)

lemma refers_filter:
  "refers ident wsp rows i w \<Longrightarrow> (\<And>r. r \<in> set rows \<Longrightarrow> i = Some (ident r) \<Longrightarrow> keep r) \<Longrightarrow> refers ident wsp (filter keep rows) i w"
  by (auto simp: refers_def list_ex_iff split: option.splits)

lemma refers_unique:
  "refers ident wsp rows (Some k) w \<Longrightarrow> distinct (map ident rows) \<Longrightarrow> r \<in> set rows \<Longrightarrow> ident r = k \<Longrightarrow> wsp r = w"
  by (auto simp: refers_def list_ex_iff distinct_map inj_on_def)

lemma keeps_plan_stmt:
  assumes "\<And>u x t. isolated uid s u \<Longrightarrow> f u = Inr (x, t) \<Longrightarrow> isolated uid s t"
  shows "keeps (isolated uid s) (plan_stmt f)"
  unfolding plan_stmt_def
  by (rule keeps_fault_stmt [OF _ assms])
    (simp_all add: isolated_def plan_wf_def hidden_def drop_fault_def)

lemma keeps_plan_read [keeps_intros]:
  "keeps (isolated uid s) (plan_stmt (\<lambda>u. case q u of Inl e \<Rightarrow> Inl e | Inr x \<Rightarrow> Inr (x, u)))"
  by (rule keeps_plan_stmt) (auto split: sum.splits)

lemma keeps_plan_uuid [keeps_intros]: "keeps (isolated uid s) (plan_uuid W)"
  by (rule keepsI) (simp add: plan_uuid_def isolated_def plan_wf_def hidden_def)

lemma keeps_rpc [keeps_intros]: "keeps (isolated uid s) (rpc W fn args)"
  unfolding rpc_def by (intro keeps_intros)

lemma keeps_settings [keeps_intros]: "keeps (isolated uid s) (workspace_settings ws u)"
  unfolding workspace_settings_def
  by (intro keeps_intros keeps_plan_stmt) (auto simp: pick_one_def split: sum.splits)

lemma keeps_written:
  assumes "\<And>u x t. isolated uid s u \<Longrightarrow> f u = Inr (x, t) \<Longrightarrow> isolated uid s t"
  shows "keeps (isolated uid s) (written what f)"
  unfolding written_def
  by (rule keeps_bind [OF keeps_plan_stmt], erule (1) assms) (intro keeps_intros)

named_theorems isolation

lemma isolated_update_budget [isolation]:
  assumes u: "isolated uid s u" and f: "update_budget uid bid dto u = Inr (x, t)"
  shows "isolated uid s t"
proof -
  let ?patch = "\<lambda>b. b\<lparr>bg_name := (case ub_name dto of None \<Rightarrow> bg_name b | Some n \<Rightarrow> n),
            bg_rollover := (case ub_rollover dto of None \<Rightarrow> bg_rollover b | Some r \<Rightarrow> r)\<rparr>"
  let ?f = "\<lambda>b. if bg_id b = bid \<and> member_of uid s (bg_workspace_id b) then ?patch b else b"
  have t: "t = u\<lparr>budgets := map ?f (budgets u)\<rparr>"
    using f by (simp add: update_budget_def isolated_member [OF u])
  have ids: "map bg_id (map ?f (budgets u)) = map bg_id (budgets u)" by simp
  have same: "bg_id (?f b) = bg_id b" "bg_workspace_id (?f b) = bg_workspace_id b" for b by simp_all
  have "filter (\<lambda>r. \<not> member_of uid s (bg_workspace_id r)) (map ?f (budgets u)) = filter (\<lambda>r. \<not> member_of uid s (bg_workspace_id r)) (budgets u)"
    by (rule filter_map_outside) auto
  moreover have "list_all (\<lambda>l. refers bg_id bg_workspace_id (map ?f (budgets u)) (Some (bl_budget_id l)) (bl_workspace_id l)) (budget_lines u)"
    using u same by (auto simp: isolated_def plan_wf_def list_all_iff intro!: refers_map)
  ultimately show ?thesis
    using u ids by (simp add: t isolated_def plan_wf_def hidden_def del: map_map)
qed

lemma isolated_insert_budget [isolation]:
  assumes u: "isolated uid s u" and f: "insert_budget uid b u = Inr (x, t)"
  shows "isolated uid s t"
proof -
  have t: "t = u\<lparr>budgets := budgets u @ [b]\<rparr>" "member_of uid s (bg_workspace_id b)" "bg_id b \<notin> set (map bg_id (budgets u))"
    using f isolated_member [OF u]
    by (auto simp: insert_budget_def budget_conflicts_def list_ex_iff split: if_splits)
  then show ?thesis
    using u by (auto simp: isolated_def plan_wf_def hidden_def list_all_iff intro: refers_append)
qed

lemma isolated_clear_lines [isolation]:
  assumes u: "isolated uid s u" and f: "clear_lines uid bid u = Inr (x, t)"
  shows "isolated uid s t"
proof -
  have t: "t = u\<lparr>budget_lines := [l \<leftarrow> budget_lines u. \<not> (bl_budget_id l = bid \<and> member_of uid s (bl_workspace_id l))]\<rparr>"
    using f isolated_member [OF u] by (simp add: clear_lines_def)
  have "filter (\<lambda>r. \<not> member_of uid s (bl_workspace_id r)) (filter (\<lambda>l. \<not> (bl_budget_id l = bid \<and> member_of uid s (bl_workspace_id l))) (budget_lines u))
      = filter (\<lambda>r. \<not> member_of uid s (bl_workspace_id r)) (budget_lines u)"
    by (rule filter_filter_outside) auto
  then show ?thesis using u by (simp add: t isolated_def plan_wf_def hidden_def list_all_iff del: filter_filter)
qed

lemma isolated_insert_lines:
  assumes u: "isolated uid s u" and f: "insert_lines uid ls u = Inr (x, t)"
    and ref: "list_all (\<lambda>l. refers bg_id bg_workspace_id (budgets u) (Some (bl_budget_id l)) (bl_workspace_id l)) ls"
  shows "isolated uid s t"
proof -
  have t: "t = u\<lparr>budget_lines := budget_lines u @ ls\<rparr>" "list_all (\<lambda>l. member_of uid s (bl_workspace_id l)) ls"
    using f isolated_member [OF u] by (auto simp: insert_lines_def Let_def split: if_splits)
  moreover have "filter (\<lambda>r. \<not> member_of uid s (bl_workspace_id r)) ls = []"
    using t(2) by (auto simp: list_all_iff filter_empty_conv)
  ultimately show ?thesis using u ref by (simp add: isolated_def plan_wf_def hidden_def)
qed

lemma isolated_delete_budget [isolation]:
  assumes u: "isolated uid s u" and f: "delete_budget_rows uid bid ws u = Inr (x, t)"
  shows "isolated uid s t"
proof -
  let ?hit = "\<lambda>b. bg_id b = bid \<and> bg_workspace_id b = ws \<and> member_of uid s (bg_workspace_id b)"
  let ?gone = "map bg_id (filter ?hit (budgets u))"
  have t: "t = u\<lparr>budgets := [b \<leftarrow> budgets u. \<not> ?hit b], budget_lines := [l \<leftarrow> budget_lines u. bl_budget_id l \<notin> set ?gone]\<rparr>"
    using f isolated_member [OF u] by (auto simp: delete_budget_rows_def Let_def)
  have wf: "plan_wf u" using u by (simp add: isolated_def)
  have lines: "member_of uid s (bl_workspace_id l)" if l: "l \<in> set (budget_lines u)" "bl_budget_id l \<in> set ?gone" for l
  proof -
    obtain b where b: "b \<in> set (budgets u)" "?hit b" "bg_id b = bl_budget_id l" using l(2) by auto
    have "refers bg_id bg_workspace_id (budgets u) (Some (bl_budget_id l)) (bl_workspace_id l)"
      using wf l(1) by (simp add: plan_wf_def list_all_iff)
    then have "bg_workspace_id b = bl_workspace_id l"
      using refers_unique [where ident = bg_id and wsp = bg_workspace_id, OF _ _ b(1,3)] wf by (auto simp: plan_wf_def)
    then show ?thesis using b(2) by auto
  qed
  have "filter (\<lambda>r. \<not> member_of uid s (bl_workspace_id r)) [l \<leftarrow> budget_lines u. bl_budget_id l \<notin> set ?gone]
      = filter (\<lambda>r. \<not> member_of uid s (bl_workspace_id r)) (budget_lines u)"
    by (rule filter_filter_outside) (use lines in blast)
  moreover have "filter (\<lambda>r. \<not> member_of uid s (bg_workspace_id r)) [b \<leftarrow> budgets u. \<not> ?hit b]
      = filter (\<lambda>r. \<not> member_of uid s (bg_workspace_id r)) (budgets u)"
    by (rule filter_filter_outside) auto
  moreover have "list_all (\<lambda>l. refers bg_id bg_workspace_id (budgets t) (Some (bl_budget_id l)) (bl_workspace_id l)) (budget_lines t)"
  proof -
    have "refers bg_id bg_workspace_id [b \<leftarrow> budgets u. \<not> ?hit b] (Some (bl_budget_id l)) (bl_workspace_id l)"
      if l: "l \<in> set (budget_lines u)" "bl_budget_id l \<notin> set ?gone" for l
      using wf l by (intro refers_filter) (auto simp: plan_wf_def list_all_iff)
    then show ?thesis by (simp add: t list_all_iff)
  qed
  moreover have "distinct (map bg_id (budgets t))" using wf by (simp add: t plan_wf_def distinct_map_filter)
  ultimately show ?thesis using u by (simp add: isolated_def plan_wf_def hidden_def t del: filter_filter)
qed

lemma isolated_insert_goal [isolation]:
  assumes u: "isolated uid s u" and f: "insert_goal W uid g u = Inr (x, t)"
  shows "isolated uid s t"
proof -
  obtain d where t: "t = u\<lparr>savings_goals := savings_goals u @ [g\<lparr>sg_target_date := d\<rparr>]\<rparr>" "member_of uid s (sg_workspace_id g)"
      "\<forall>y \<in> set (savings_goals u). sg_id y \<noteq> sg_id g"
    using f isolated_member [OF u]
    by (auto simp: insert_goal_def list_ex_iff Let_def split: if_splits sum.splits option.splits)
  then show ?thesis
    using u by (auto simp: isolated_def plan_wf_def hidden_def list_all_iff intro: refers_append)
qed

lemma isolated_update_goal [isolation]:
  assumes u: "isolated uid s u" and f: "update_goal_row W uid gid ws dto target u = Inr (x, t)"
  shows "isolated uid s t"
proof -
  let ?hit = "\<lambda>g. sg_id g = gid \<and> sg_workspace_id g = ws \<and> member_of uid s (sg_workspace_id g)"
  obtain d where t: "t = u\<lparr>savings_goals := map (\<lambda>g. if ?hit g then patched_goal dto target d g else g) (savings_goals u)\<rparr>"
    using f isolated_member [OF u]
    by (auto simp: update_goal_row_def Let_def split: sum.splits option.splits)
  let ?f = "\<lambda>g. if ?hit g then patched_goal dto target d g else g"
  have same: "sg_id (?f g) = sg_id g" "sg_workspace_id (?f g) = sg_workspace_id g" for g
    by (simp_all add: patched_goal_def)
  have "filter (\<lambda>r. \<not> member_of uid s (sg_workspace_id r)) (map ?f (savings_goals u))
      = filter (\<lambda>r. \<not> member_of uid s (sg_workspace_id r)) (savings_goals u)"
    by (rule filter_map_outside) (auto simp: patched_goal_def)
  moreover have "map sg_id (map ?f (savings_goals u)) = map sg_id (savings_goals u)" by (simp add: patched_goal_def)
  moreover have "refers sg_id sg_workspace_id (map ?f (savings_goals u)) i w" if "refers sg_id sg_workspace_id (savings_goals u) i w" for i w
    using that same by (rule refers_map)
  ultimately show ?thesis
    using u by (auto simp: t isolated_def plan_wf_def hidden_def list_all_iff simp del: map_map)
qed

lemma isolated_upsert_debt [isolation]:
  assumes u: "isolated uid s u" and f: "upsert_debt_row uid d u = Inr (x, t)"
  shows "isolated uid s t"
proof -
  let ?same = "\<lambda>x. dd_ledger_account_id x = dd_ledger_account_id d"
  have mine: "member_of uid s (dd_workspace_id d)" "\<And>x. x \<in> set (debts u) \<Longrightarrow> ?same x \<Longrightarrow> member_of uid s (dd_workspace_id x)"
    and t: "t = u\<lparr>debts := (if list_ex ?same (debts u) then map (\<lambda>x. if ?same x then d else x) (debts u) else debts u @ [d])\<rparr>"
    using f isolated_member [OF u]
    by (auto simp: upsert_debt_row_def Let_def list_ex_iff split: if_splits option.splits)
  have "filter (\<lambda>r. \<not> member_of uid s (dd_workspace_id r)) (map (\<lambda>x. if ?same x then (\<lambda>_. d) x else x) (debts u))
      = filter (\<lambda>r. \<not> member_of uid s (dd_workspace_id r)) (debts u)"
    by (rule filter_map_outside) (use mine in auto)
  then show ?thesis using u mine(1) by (simp add: t isolated_def plan_wf_def hidden_def)
qed

lemma isolated_delete_debt [isolation]:
  assumes u: "isolated uid s u" and f: "delete_debt_rows uid aid ws u = Inr (x, t)"
  shows "isolated uid s t"
proof -
  let ?hit = "\<lambda>d. dd_ledger_account_id d = aid \<and> dd_workspace_id d = ws \<and> member_of uid s (dd_workspace_id d)"
  have t: "t = u\<lparr>debts := [d \<leftarrow> debts u. \<not> ?hit d]\<rparr>"
    using f isolated_member [OF u] by (auto simp: delete_debt_rows_def Let_def)
  have "filter (\<lambda>r. \<not> member_of uid s (dd_workspace_id r)) [d \<leftarrow> debts u. \<not> ?hit d]
      = filter (\<lambda>r. \<not> member_of uid s (dd_workspace_id r)) (debts u)"
    by (rule filter_filter_outside) auto
  then show ?thesis using u by (simp add: t isolated_def plan_wf_def hidden_def del: filter_filter)
qed

lemma isolated_insert_event [isolation]:
  assumes u: "isolated uid s u" and f: "insert_event W uid e u = Inr (x, t)"
    and refs: "ce_savings_goal_id e = None" "ce_recurring_rule_id e = None"
  shows "isolated uid s t"
proof -
  obtain d where t: "t = u\<lparr>calendar_events := calendar_events u @ [e\<lparr>ce_local_date := d\<rparr>]\<rparr>" "member_of uid s (ce_workspace_id e)"
    using f isolated_member [OF u]
    by (auto simp: insert_event_def Let_def split: if_splits option.splits)
  then show ?thesis
    using u refs by (simp add: isolated_def plan_wf_def hidden_def refers_def)
qed

lemma isolated_update_event [isolation]:
  assumes u: "isolated uid s u" and f: "update_event_row W uid eid ws dto amount due u = Inr (x, t)"
  shows "isolated uid s t"
proof -
  let ?hit = "\<lambda>e. ce_id e = eid \<and> ce_workspace_id e = ws \<and> member_of uid s (ce_workspace_id e)"
  obtain d where t: "t = u\<lparr>calendar_events := map (\<lambda>e. if ?hit e then patched_event dto amount d e else e) (calendar_events u)\<rparr>"
    using f isolated_member [OF u]
    by (auto simp: update_event_row_def Let_def split: sum.splits option.splits)
  have "filter (\<lambda>r. \<not> member_of uid s (ce_workspace_id r)) (map (\<lambda>e. if ?hit e then patched_event dto amount d e else e) (calendar_events u))
      = filter (\<lambda>r. \<not> member_of uid s (ce_workspace_id r)) (calendar_events u)"
    by (rule filter_map_outside) (auto simp: patched_event_def)
  then show ?thesis
    using u by (auto simp: t isolated_def plan_wf_def hidden_def list_all_iff patched_event_def simp del: filter_map)
qed

lemma isolated_delete_event [isolation]:
  assumes u: "isolated uid s u" and f: "delete_event_rows uid eid ws u = Inr (x, t)"
  shows "isolated uid s t"
proof -
  let ?hit = "\<lambda>e. ce_id e = eid \<and> ce_workspace_id e = ws \<and> member_of uid s (ce_workspace_id e)"
  have t: "t = u\<lparr>calendar_events := [e \<leftarrow> calendar_events u. \<not> ?hit e]\<rparr>"
    using f isolated_member [OF u] by (auto simp: delete_event_rows_def Let_def)
  have "filter (\<lambda>r. \<not> member_of uid s (ce_workspace_id r)) [e \<leftarrow> calendar_events u. \<not> ?hit e]
      = filter (\<lambda>r. \<not> member_of uid s (ce_workspace_id r)) (calendar_events u)"
    by (rule filter_filter_outside) auto
  then show ?thesis using u by (simp add: t isolated_def plan_wf_def hidden_def list_all_iff del: filter_filter)
qed

lemma isolated_insert_rule [isolation]:
  assumes u: "isolated uid s u" and f: "insert_rule W uid r u = Inr (x, t)"
  shows "isolated uid s t"
proof -
  obtain d ends where t: "t = u\<lparr>recurring_rules := recurring_rules u @ [r\<lparr>rr_next_occurrence := d, rr_ends_at := ends\<rparr>]\<rparr>"
      "member_of uid s (rr_workspace_id r)" "\<forall>y \<in> set (recurring_rules u). rr_id y \<noteq> rr_id r"
    using f isolated_member [OF u]
    by (auto simp: insert_rule_def list_ex_iff Let_def split: if_splits sum.splits option.splits)
  then show ?thesis
    using u by (auto simp: isolated_def plan_wf_def hidden_def list_all_iff intro: refers_append)
qed

lemma isolated_update_rule [isolation]:
  assumes u: "isolated uid s u" and f: "update_rule_row uid rid ws status u = Inr (x, t)"
  shows "isolated uid s t"
proof -
  let ?hit = "\<lambda>r. rr_id r = rid \<and> rr_workspace_id r = ws \<and> member_of uid s (rr_workspace_id r)"
  let ?f = "\<lambda>r. if ?hit r then r\<lparr>rr_status := status\<rparr> else r"
  have t: "t = u\<lparr>recurring_rules := map ?f (recurring_rules u)\<rparr>"
    using f isolated_member [OF u] by (auto simp: update_rule_row_def Let_def split: sum.splits)
  have same: "rr_id (?f r) = rr_id r" "rr_workspace_id (?f r) = rr_workspace_id r" for r by simp_all
  have "filter (\<lambda>r. \<not> member_of uid s (rr_workspace_id r)) (map ?f (recurring_rules u))
      = filter (\<lambda>r. \<not> member_of uid s (rr_workspace_id r)) (recurring_rules u)"
    by (rule filter_map_outside) auto
  moreover have "map rr_id (map ?f (recurring_rules u)) = map rr_id (recurring_rules u)" by simp
  moreover have "refers rr_id rr_workspace_id (map ?f (recurring_rules u)) i w" if "refers rr_id rr_workspace_id (recurring_rules u) i w" for i w
    using that same by (rule refers_map)
  ultimately show ?thesis
    using u by (auto simp: t isolated_def plan_wf_def hidden_def list_all_iff simp del: map_map)
qed

lemma isolated_delete_goal [isolation]:
  assumes u: "isolated uid s u" and f: "delete_goal_rows uid gid ws u = Inr (x, t)"
  shows "isolated uid s t"
proof -
  let ?hit = "\<lambda>g. sg_id g = gid \<and> sg_workspace_id g = ws \<and> member_of uid s (sg_workspace_id g)"
  let ?gone = "set (map sg_id (filter ?hit (savings_goals u)))"
  let ?keep = "\<lambda>e. case ce_savings_goal_id e of None \<Rightarrow> True | Some g \<Rightarrow> g \<notin> ?gone"
  have t: "t = u\<lparr>savings_goals := [g \<leftarrow> savings_goals u. \<not> ?hit g], calendar_events := filter ?keep (calendar_events u)\<rparr>"
    using f isolated_member [OF u] by (auto simp: delete_goal_rows_def Let_def)
  have wf: "plan_wf u" using u by (simp add: isolated_def)
  have events: "member_of uid s (ce_workspace_id e)" if e: "e \<in> set (calendar_events u)" "\<not> ?keep e" for e
  proof -
    obtain g where g: "g \<in> set (savings_goals u)" "?hit g" "ce_savings_goal_id e = Some (sg_id g)"
      using e(2) by (auto split: option.splits)
    have "refers sg_id sg_workspace_id (savings_goals u) (Some (sg_id g)) (ce_workspace_id e)"
      using wf e(1) g(3) by (auto simp: plan_wf_def list_all_iff)
    then have "sg_workspace_id g = ce_workspace_id e"
      using refers_unique [where ident = sg_id and wsp = sg_workspace_id, OF _ _ g(1)] wf by (auto simp: plan_wf_def)
    then show ?thesis using g(2) by auto
  qed
  have "filter (\<lambda>r. \<not> member_of uid s (ce_workspace_id r)) (filter ?keep (calendar_events u))
      = filter (\<lambda>r. \<not> member_of uid s (ce_workspace_id r)) (calendar_events u)"
    by (rule filter_filter_outside) (use events in blast)
  moreover have "filter (\<lambda>r. \<not> member_of uid s (sg_workspace_id r)) [g \<leftarrow> savings_goals u. \<not> ?hit g]
      = filter (\<lambda>r. \<not> member_of uid s (sg_workspace_id r)) (savings_goals u)"
    by (rule filter_filter_outside) auto
  moreover have "refers sg_id sg_workspace_id [g \<leftarrow> savings_goals u. \<not> ?hit g] (ce_savings_goal_id e) (ce_workspace_id e)"
    if e: "e \<in> set (calendar_events u)" "?keep e" for e
    using wf e by (intro refers_filter) (auto simp: plan_wf_def list_all_iff split: option.splits)
  moreover have "distinct (map sg_id [g \<leftarrow> savings_goals u. \<not> ?hit g])" using wf by (simp add: plan_wf_def distinct_map_filter)
  ultimately show ?thesis using u by (auto simp: isolated_def plan_wf_def hidden_def t list_all_iff simp del: filter_filter)
qed

lemma isolated_delete_rule [isolation]:
  assumes u: "isolated uid s u" and run: "delete_rule_rows uid rid ws u = Inr (x, t)"
  shows "isolated uid s t"
proof -
  define hit where "hit = (\<lambda>r::recurring_rule. rr_id r = rid \<and> rr_workspace_id r = ws \<and> member_of uid s (rr_workspace_id r))"
  define gone where "gone = set (map rr_id (filter hit (recurring_rules u)))"
  define cut where "cut = (\<lambda>e::calendar_event. case ce_recurring_rule_id e of None \<Rightarrow> False | Some r \<Rightarrow> r \<in> gone)"
  define f where "f = (\<lambda>e::calendar_event. if cut e then e\<lparr>ce_recurring_rule_id := None\<rparr> else e)"
  let ?g = "\<lambda>e. case ce_recurring_rule_id e of None \<Rightarrow> e | Some r \<Rightarrow> if r \<in> gone then e\<lparr>ce_recurring_rule_id := None\<rparr> else e"
  have eq: "?g = f" by (rule ext) (simp add: f_def cut_def split: option.split)
  have "t = u\<lparr>recurring_rules := [r \<leftarrow> recurring_rules u. \<not> hit r], calendar_events := map ?g (calendar_events u)\<rparr>"
    using run unfolding delete_rule_rows_def Let_def isolated_member [OF u] gone_def hit_def by simp
  then have t: "t = u\<lparr>recurring_rules := [r \<leftarrow> recurring_rules u. \<not> hit r], calendar_events := map f (calendar_events u)\<rparr>"
    by (simp only: eq)
  have wf: "plan_wf u" using u by (simp add: isolated_def)
  have events: "member_of uid s (ce_workspace_id e)" if e: "e \<in> set (calendar_events u)" "cut e" for e
  proof -
    obtain r where r: "r \<in> set (recurring_rules u)" "hit r" "ce_recurring_rule_id e = Some (rr_id r)"
      using e(2) by (auto simp: cut_def gone_def split: option.splits)
    have "refers rr_id rr_workspace_id (recurring_rules u) (Some (rr_id r)) (ce_workspace_id e)"
      using wf e(1) r(3) by (auto simp: plan_wf_def list_all_iff)
    then have "rr_workspace_id r = ce_workspace_id e"
      using refers_unique [where ident = rr_id and wsp = rr_workspace_id, OF _ _ r(1)] wf by (auto simp: plan_wf_def)
    then show ?thesis using r(2) by (auto simp: hit_def)
  qed
  have "filter (\<lambda>r. \<not> member_of uid s (ce_workspace_id r)) (map f (calendar_events u))
      = filter (\<lambda>r. \<not> member_of uid s (ce_workspace_id r)) (calendar_events u)"
    unfolding f_def by (rule filter_map_outside) (use events in auto)
  moreover have "filter (\<lambda>r. \<not> member_of uid s (rr_workspace_id r)) [r \<leftarrow> recurring_rules u. \<not> hit r]
      = filter (\<lambda>r. \<not> member_of uid s (rr_workspace_id r)) (recurring_rules u)"
    by (rule filter_filter_outside) (auto simp: hit_def)
  moreover have "refers rr_id rr_workspace_id [r \<leftarrow> recurring_rules u. \<not> hit r] (ce_recurring_rule_id (f e)) (ce_workspace_id (f e))
      \<and> refers sg_id sg_workspace_id (savings_goals u) (ce_savings_goal_id (f e)) (ce_workspace_id (f e))"
    if e: "e \<in> set (calendar_events u)" for e
  proof (cases "cut e")
    case True
    then show ?thesis using wf e by (simp add: f_def plan_wf_def list_all_iff refers_def [of rr_id])
  next
    case False
    then have "refers rr_id rr_workspace_id [r \<leftarrow> recurring_rules u. \<not> hit r] (ce_recurring_rule_id e) (ce_workspace_id e)"
      using wf e by (intro refers_filter) (auto simp: plan_wf_def list_all_iff cut_def gone_def)
    then show ?thesis using False wf e by (simp add: f_def plan_wf_def list_all_iff)
  qed
  moreover have "distinct (map rr_id [r \<leftarrow> recurring_rules u. \<not> hit r])" using wf by (simp add: plan_wf_def distinct_map_filter)
  ultimately show ?thesis using u
    by (auto simp: isolated_def plan_wf_def hidden_def t list_all_iff simp del: filter_filter filter_map)
qed

lemma keeps_assertDeleted [keeps_intros]: "keeps P (assertDeleted rows what)"
  unfolding assertDeleted_def by (intro keeps_intros)

lemma keeps_deletes [keeps_intros]:
  "keeps (isolated uid s) (deleteBudget ws uid i)" "keeps (isolated uid s) (deleteGoal ws uid i)"
  "keeps (isolated uid s) (deleteDebt ws uid i)" "keeps (isolated uid s) (deleteCalendarEvent ws uid i)"
  "keeps (isolated uid s) (deleteRecurringRule ws uid i)"
  unfolding deleteBudget_def deleteGoal_def deleteDebt_def deleteCalendarEvent_def deleteRecurringRule_def
  by (auto intro!: keeps_bind keeps_written keeps_if keeps_return keeps_throw keeps_assertDeleted intro: isolation)

lemma keeps_creates [keeps_intros]:
  "keeps (isolated uid s) (createGoal W ws uid g)" "keeps (isolated uid s) (createCalendarEvent W ws uid e)"
  "keeps (isolated uid s) (createRecurringRule W ws uid r)" "keeps (isolated uid s) (upsertDebt ws uid d)"
  unfolding createGoal_def createCalendarEvent_def createRecurringRule_def upsertDebt_def Let_def
  by (auto intro!: keeps_bind keeps_lift keeps_plan_uuid keeps_settings keeps_plan_read keeps_written keeps_case_option
      keeps_if keeps_throw intro: isolation isolated_insert_event)

lemma keeps_updates [keeps_intros]:
  "keeps (isolated uid s) (updateGoal W ws uid i g)" "keeps (isolated uid s) (updateCalendarEvent W ws uid i e)"
  "keeps (isolated uid s) (updateRecurringRule ws uid i st)"
  unfolding updateGoal_def updateCalendarEvent_def updateRecurringRule_def
  by (auto intro!: keeps_bind keeps_lift keeps_written keeps_if keeps_throw intro: isolation)

text \<open>The budget that \<open>upsertBudget\<close> writes lines to belongs to the workspace.\<close>

definition own_budget :: "string \<Rightarrow> plan_db \<Rightarrow> string \<Rightarrow> string \<Rightarrow> plan_db \<Rightarrow> bool" where
  "own_budget uid s ws bid u \<longleftrightarrow> isolated uid s u \<and> refers bg_id bg_workspace_id (budgets u) (Some bid) ws"

lemma plan_stmt_run: "plan_stmt f u = (r, t) \<Longrightarrow>
    (\<exists>e. r = Inr (Inl e) \<and> t = pl_base_update drop_fault u) \<or> (\<exists>x. r = Inr (Inr x) \<and> f (pl_base_update drop_fault u) = Inr (x, t))"
  by (auto simp: plan_stmt_def fault_stmt_def Let_def split: if_splits sum.splits)

lemma isolated_drop [simp]: "isolated uid s (pl_base_update drop_fault u) = isolated uid s u"
  by (simp add: isolated_def plan_wf_def hidden_def drop_fault_def)

lemma triple_written:
  assumes "\<And>u. P u \<Longrightarrow> P (pl_base_update drop_fault u) \<and> X (pl_base_update drop_fault u)"
    and "\<And>u x t. P u \<Longrightarrow> f u = Inr (x, t) \<Longrightarrow> Q x t"
  shows "triple P (written what f) Q X"
proof (rule tripleI)
  fix u
  assume P: "P u"
  obtain r t where run: "plan_stmt f u = (r, t)" by fastforce
  show "case written what f u of (Inl e, t) \<Rightarrow> X t | (Inr x, t) \<Rightarrow> Q x t"
    using plan_stmt_run [OF run] assms(1) [OF P] assms(2)
    by (auto simp: written_def api_bind_def run api_throw_def api_return_def)
qed

lemma own_active: "b \<in> set (active_budgets uid ws c u) \<Longrightarrow> refers bg_id bg_workspace_id (budgets u) (Some (bg_id b)) ws"
  by (auto simp: active_budgets_def refers_def list_ex_iff)

lemma triple_active:
  "triple (isolated uid s) (plan_stmt (\<lambda>s. case maybe_single (active_budgets uid ws c s) of Inl e \<Rightarrow> Inl e | Inr x \<Rightarrow> Inr (x, s)))
     (\<lambda>r u. case data_maybe r of None \<Rightarrow> isolated uid s u | Some b \<Rightarrow> own_budget uid s ws (bg_id b) u) X"
proof (rule tripleI)
  fix u
  assume P: "isolated uid s u"
  let ?q = "\<lambda>s. case maybe_single (active_budgets uid ws c s) of Inl e \<Rightarrow> Inl e | Inr x \<Rightarrow> Inr (x, s)"
  obtain r t where run: "plan_stmt ?q u = (r, t)" by fastforce
  have "maybe_single xs = Inr (Some b) \<Longrightarrow> b \<in> set xs" for xs and b :: budget
    by (auto simp: maybe_single_def split: list.splits)
  then show "case plan_stmt ?q u of (Inl e, t) \<Rightarrow> X t
      | (Inr r, u) \<Rightarrow> (case data_maybe r of None \<Rightarrow> isolated uid s u | Some b \<Rightarrow> own_budget uid s ws (bg_id b) u)"
    using plan_stmt_run [OF run] P
    by (auto simp: run data_maybe_def own_budget_def split: sum.splits option.splits intro: own_active)
qed

lemma own_update_budget:
  assumes "own_budget uid s ws i u" and "update_budget uid bid dto u = Inr (x, t)"
  shows "own_budget uid s ws i t"
  using assms isolated_update_budget [OF _ assms(2)]
  by (auto simp: own_budget_def update_budget_def intro!: refers_map)

lemma triple_budget_id:
  "triple (isolated uid s) (budget_id_for W ws uid dto) (\<lambda>bid. own_budget uid s ws bid) (isolated uid s)"
  unfolding budget_id_for_def Let_def
  apply (rule triple_bind [OF triple_active])
  apply (rule triple_split_option)
   apply (rule triple_bind [OF triple_keeps [OF keeps_plan_uuid]])
   apply (rule triple_written, simp)
   apply (frule (1) isolated_insert_budget)
   apply (auto simp: own_budget_def insert_budget_def refers_def split: if_splits)[1]
  apply (rule triple_bind [OF triple_written [where Q = "\<lambda>_. own_budget uid s ws (bg_id x)" for x]])
    apply (simp add: own_budget_def)
   apply (erule (1) own_update_budget)
  apply (rule triple_return)
  apply assumption
  done

lemma line_rows_refs:
  "line_rows bid ws is = Inr ls \<Longrightarrow> list_all (\<lambda>l. bl_budget_id l = bid \<and> bl_workspace_id l = ws) ls"
  by (induction "is" arbitrary: ls) (auto split: sum.splits)

lemma own_clear:
  "own_budget uid s ws i u \<Longrightarrow> clear_lines uid bid u = Inr (x, t) \<Longrightarrow> own_budget uid s ws i t"
  using isolated_clear_lines by (fastforce simp: own_budget_def clear_lines_def)

lemma own_insert_lines:
  assumes "own_budget uid s ws bid u" and "insert_lines uid ls u = Inr (x, t)"
    and "list_all (\<lambda>l. bl_budget_id l = bid \<and> bl_workspace_id l = ws) ls"
  shows "isolated uid s t"
  using assms by (intro isolated_insert_lines [OF _ assms(2)]) (auto simp: own_budget_def list_all_iff)

lemma isolated_upsertBudget:
  "triple (isolated uid s) (upsertBudget W ws uid dto) (\<lambda>_. isolated uid s) (isolated uid s)"
proof -
  have lines: "triple (own_budget uid s ws bid)
      (if ub_lines dto = [] then api_return ()
       else api_bind (api_lift (line_rows bid ws (ub_lines dto))) (\<lambda>rows. written ''Budget lines'' (insert_lines uid rows)))
      (\<lambda>_. isolated uid s) (isolated uid s)" for bid
  proof (cases "line_rows bid ws (ub_lines dto)")
    case (Inl e)
    then have "api_lift (line_rows bid ws (ub_lines dto)) = (api_throw e :: (plan_db, budget_line list) api)"
      by (intro ext) (simp add: api_lift_def api_throw_def)
    then show ?thesis by (auto simp: own_budget_def intro!: triple_return triple_throw)
  next
    case (Inr rows)
    then have lift: "api_lift (line_rows bid ws (ub_lines dto)) = (api_return rows :: (plan_db, budget_line list) api)"
      by (intro ext) (simp add: api_lift_def api_return_def)
    have "triple (own_budget uid s ws bid) (written ''Budget lines'' (insert_lines uid rows)) (\<lambda>_. isolated uid s) (isolated uid s)"
      by (rule triple_written) (auto simp: own_budget_def [of _ _ _ _ "pl_base_update drop_fault _"]
          intro: own_insert_lines line_rows_refs [OF Inr] simp: own_budget_def)
    then show ?thesis by (auto simp: lift own_budget_def intro!: triple_return)
  qed
  show ?thesis
    unfolding upsertBudget_def
    apply (rule triple_bind [OF triple_budget_id])
    apply (rule triple_bind [OF triple_written [where Q = "\<lambda>_. own_budget uid s ws bid" for bid]])
      apply (simp add: own_budget_def)
     apply (erule (1) own_clear)
    apply (rule triple_bind [OF lines])
    apply (rule triple_keeps)
    apply (simp add: getBudgetStatus_def keeps_rpc)
    done
qed

section \<open>What a user can do\<close>

text \<open>The writes the controller offers, each for a workspace.\<close>

datatype plan_request =
    Put_budget upsert_budget_dto
  | Delete_budget string
  | Post_goal create_goal_dto
  | Patch_goal string update_goal_dto
  | Delete_goal string
  | Put_debt upsert_debt_dto
  | Delete_debt string
  | Post_event create_event_dto
  | Patch_event string update_event_dto
  | Delete_event string
  | Post_rule create_rule_dto
  | Patch_rule string RuleStatus
  | Delete_rule string

fun serve :: "plan_world \<Rightarrow> string \<Rightarrow> string \<Rightarrow> plan_request \<Rightarrow> plan_db \<Rightarrow> plan_db" where
  "serve W uid ws (Put_budget d) s = snd (upsertBudget W ws uid d s)"
| "serve W uid ws (Delete_budget i) s = snd (deleteBudget ws uid i s)"
| "serve W uid ws (Post_goal d) s = snd (createGoal W ws uid d s)"
| "serve W uid ws (Patch_goal i d) s = snd (updateGoal W ws uid i d s)"
| "serve W uid ws (Delete_goal i) s = snd (deleteGoal ws uid i s)"
| "serve W uid ws (Put_debt d) s = snd (upsertDebt ws uid d s)"
| "serve W uid ws (Delete_debt i) s = snd (deleteDebt ws uid i s)"
| "serve W uid ws (Post_event d) s = snd (createCalendarEvent W ws uid d s)"
| "serve W uid ws (Patch_event i d) s = snd (updateCalendarEvent W ws uid i d s)"
| "serve W uid ws (Delete_event i) s = snd (deleteCalendarEvent ws uid i s)"
| "serve W uid ws (Post_rule d) s = snd (createRecurringRule W ws uid d s)"
| "serve W uid ws (Patch_rule i st) s = snd (updateRecurringRule ws uid i st s)"
| "serve W uid ws (Delete_rule i) s = snd (deleteRecurringRule ws uid i s)"

definition serve_all :: "plan_world \<Rightarrow> string \<Rightarrow> (string \<times> plan_request) list \<Rightarrow> plan_db \<Rightarrow> plan_db" where
  "serve_all W uid rs s = fold (\<lambda>(ws, r). serve W uid ws r) rs s"

lemma serve_isolated: "isolated uid s u \<Longrightarrow> isolated uid s (serve W uid ws r u)"
  by (cases r)
    (auto intro: keepsD keeps_creates keeps_updates keeps_deletes keepsD [OF keeps_triple [OF isolated_upsertBudget]])

lemma serve_all_isolated: "isolated uid s u \<Longrightarrow> isolated uid s (serve_all W uid rs u)"
  by (induction rs arbitrary: u) (auto simp: serve_all_def serve_isolated)

text \<open>
  C33. No sequence of planning requests of a user, whatever workspaces and ids they name and whatever
  fails, changes a row of a workspace the user is not an active member of; and every line and event
  stays in the workspace of the budget, goal or rule it belongs to.
\<close>

theorem planning_tenant_isolation:
  assumes "plan_wf s"
  shows "plan_wf (serve_all W uid rs s) \<and> hidden (member_of uid s) (serve_all W uid rs s) = hidden (member_of uid s) s"
proof -
  have "isolated uid s s" using assms by (simp add: isolated_def)
  then have "isolated uid s (serve_all W uid rs s)" by (rule serve_all_isolated)
  then show ?thesis by (simp add: isolated_def)
qed

section \<open>Deletes\<close>

definition same_plan :: "plan_db \<Rightarrow> plan_db \<Rightarrow> bool" where
  "same_plan s t \<longleftrightarrow> t = s\<lparr>pl_base := pl_base t\<rparr>"

lemma same_plan_drop: "same_plan s (pl_base_update drop_fault s)"
  by (cases s) (simp add: same_plan_def)

text \<open>A delete that ends with \<open>assertDeleted\<close> reports success exactly when a row went.\<close>

lemma delete_honest:
  assumes "api_bind (written what f) (\<lambda>rows. api_bind (assertDeleted rows name) (\<lambda>_. api_return True)) s = (r, t)"
    and "\<And>u v. f u = Inr ([], v) \<Longrightarrow> same_plan u v"
  shows "case r of Inl e \<Rightarrow> same_plan s t | Inr b \<Rightarrow> b \<and> (\<exists>rows. rows \<noteq> [] \<and> f (pl_base_update drop_fault s) = Inr (rows, t))"
proof -
  obtain q v where run: "plan_stmt f s = (q, v)" by fastforce
  have trans: "same_plan (pl_base_update drop_fault s) w \<Longrightarrow> same_plan s w" for w
    by (cases s; cases w) (simp add: same_plan_def)
  have none: "f (pl_base_update drop_fault s) = Inr ([], w) \<Longrightarrow> same_plan s w" for w
    by (rule trans, rule assms(2))
  consider (failed) e where "q = Inr (Inl e)" "v = pl_base_update drop_fault s"
    | (ran) x where "q = Inr (Inr x)" "f (pl_base_update drop_fault s) = Inr (x, v)"
    using plan_stmt_run [OF run] by blast
  then show ?thesis
  proof cases
    case failed
    then show ?thesis using assms(1) by (auto simp: written_def api_bind_def run api_throw_def same_plan_drop)
  next
    case ran
    then show ?thesis using assms(1) none
      by (cases "x = []") (auto simp: written_def api_bind_def run api_throw_def api_return_def assertDeleted_def)
  qed
qed

lemma filter_none: "filter P xs = [] \<Longrightarrow> filter (\<lambda>x. \<not> P x) xs = xs"
  by (induction xs) (auto split: if_splits)

definition scoped :: "string \<Rightarrow> plan_db \<Rightarrow> ('r \<Rightarrow> string) \<Rightarrow> ('r \<Rightarrow> string) \<Rightarrow> string \<Rightarrow> string \<Rightarrow> 'r \<Rightarrow> bool" where
  "scoped uid s ident wsp i ws r \<longleftrightarrow> ident r = i \<and> wsp r = ws \<and> member_of uid s (wsp r)"

lemma scoped_drop [simp]: "scoped uid (pl_base_update drop_fault s) = scoped uid s"
  by (intro ext) (simp add: scoped_def member_of_def is_member_def drop_fault_def)

lemma delete_rows_scoped:
  "delete_budget_rows uid i ws u =
     (let gone = map bg_id (filter (scoped uid u bg_id bg_workspace_id i ws) (budgets u)) in
      Inr (gone, u\<lparr>budgets := [b \<leftarrow> budgets u. \<not> scoped uid u bg_id bg_workspace_id i ws b],
        budget_lines := [l \<leftarrow> budget_lines u. bl_budget_id l \<notin> set gone]\<rparr>))"
  "delete_goal_rows uid i ws u =
     (let gone = map sg_id (filter (scoped uid u sg_id sg_workspace_id i ws) (savings_goals u)) in
      Inr (gone, u\<lparr>savings_goals := [g \<leftarrow> savings_goals u. \<not> scoped uid u sg_id sg_workspace_id i ws g],
        calendar_events := [e \<leftarrow> calendar_events u. case ce_savings_goal_id e of None \<Rightarrow> True | Some g \<Rightarrow> g \<notin> set gone]\<rparr>))"
  "delete_event_rows uid i ws u =
     Inr (map ce_id (filter (scoped uid u ce_id ce_workspace_id i ws) (calendar_events u)),
       u\<lparr>calendar_events := [e \<leftarrow> calendar_events u. \<not> scoped uid u ce_id ce_workspace_id i ws e]\<rparr>)"
  "delete_rule_rows uid i ws u =
     (let gone = map rr_id (filter (scoped uid u rr_id rr_workspace_id i ws) (recurring_rules u)) in
      Inr (gone, u\<lparr>recurring_rules := [r \<leftarrow> recurring_rules u. \<not> scoped uid u rr_id rr_workspace_id i ws r],
        calendar_events := map (\<lambda>e. case ce_recurring_rule_id e of None \<Rightarrow> e
          | Some r \<Rightarrow> if r \<in> set gone then e\<lparr>ce_recurring_rule_id := None\<rparr> else e) (calendar_events u)\<rparr>))"
  unfolding delete_budget_rows_def delete_goal_rows_def delete_event_rows_def delete_rule_rows_def scoped_def
    Let_def by (rule refl)+

lemma map_option_id: "map (\<lambda>e. case g e of None \<Rightarrow> e | Some r \<Rightarrow> if r \<in> set (map h []) then k e else e) xs = xs"
  by (rule map_idI) (simp split: option.split)

lemma keep_option: "(case x of None \<Rightarrow> True | Some g \<Rightarrow> g \<notin> set (map h [])) = True"
  by (simp split: option.split)

lemma delete_none:
  "delete_budget_rows uid i ws u = Inr ([], v) \<Longrightarrow> same_plan u v"
  "delete_goal_rows uid i ws u = Inr ([], v) \<Longrightarrow> same_plan u v"
  "delete_event_rows uid i ws u = Inr ([], v) \<Longrightarrow> same_plan u v"
  "delete_rule_rows uid i ws u = Inr ([], v) \<Longrightarrow> same_plan u v"
proof -
  assume A: "delete_budget_rows uid i ws u = Inr ([], v)"
  then have none: "filter (scoped uid u bg_id bg_workspace_id i ws) (budgets u) = []"
    by (simp add: delete_rows_scoped Let_def del: filter_empty_conv)
  show "same_plan u v"
    using A unfolding delete_rows_scoped Let_def none by (auto simp: same_plan_def filter_none [OF none])
next
  assume A: "delete_goal_rows uid i ws u = Inr ([], v)"
  then have none: "filter (scoped uid u sg_id sg_workspace_id i ws) (savings_goals u) = []"
    by (simp add: delete_rows_scoped Let_def)
  show "same_plan u v"
    using A unfolding delete_rows_scoped Let_def none by (auto simp: same_plan_def filter_none [OF none] keep_option)
next
  assume A: "delete_event_rows uid i ws u = Inr ([], v)"
  then have none: "filter (scoped uid u ce_id ce_workspace_id i ws) (calendar_events u) = []"
    by (simp add: delete_rows_scoped)
  show "same_plan u v"
    using A unfolding delete_rows_scoped none by (auto simp: same_plan_def filter_none [OF none])
next
  assume A: "delete_rule_rows uid i ws u = Inr ([], v)"
  then have none: "filter (scoped uid u rr_id rr_workspace_id i ws) (recurring_rules u) = []"
    by (simp add: delete_rows_scoped Let_def)
  show "same_plan u v"
    using A unfolding delete_rows_scoped Let_def none
    by (auto simp: same_plan_def filter_none [OF none] map_option_id)
qed

lemma scoped_gone:
  "map ident (filter (scoped uid s ident wsp i ws) xs) \<noteq> [] \<Longrightarrow>
     member_of uid s ws \<and> list_ex (\<lambda>x. ident x = i \<and> wsp x = ws) xs
     \<and> \<not> list_ex (\<lambda>x. ident x = i \<and> wsp x = ws) [x \<leftarrow> xs. \<not> scoped uid s ident wsp i ws x]"
  by (auto simp: scoped_def list_ex_iff filter_empty_conv)

text \<open>
  A planning delete that reports \<open>deleted\<close> removed the row of that id from the workspace, and one
  that is refused or fails changed nothing; a row of another workspace is never reported deleted.
\<close>

theorem deletes_report_the_truth:
  "(case deleteBudget ws uid i s of (Inl e, t) \<Rightarrow> same_plan s t
     | (Inr b, t) \<Rightarrow> b \<and> member_of uid s ws \<and> list_ex (\<lambda>x. bg_id x = i \<and> bg_workspace_id x = ws) (budgets s)
         \<and> \<not> list_ex (\<lambda>x. bg_id x = i \<and> bg_workspace_id x = ws) (budgets t))
   \<and> (case deleteGoal ws uid i s of (Inl e, t) \<Rightarrow> same_plan s t
     | (Inr b, t) \<Rightarrow> b \<and> member_of uid s ws \<and> list_ex (\<lambda>x. sg_id x = i \<and> sg_workspace_id x = ws) (savings_goals s)
         \<and> \<not> list_ex (\<lambda>x. sg_id x = i \<and> sg_workspace_id x = ws) (savings_goals t))
   \<and> (case deleteCalendarEvent ws uid i s of (Inl e, t) \<Rightarrow> same_plan s t
     | (Inr b, t) \<Rightarrow> b \<and> member_of uid s ws \<and> list_ex (\<lambda>x. ce_id x = i \<and> ce_workspace_id x = ws) (calendar_events s)
         \<and> \<not> list_ex (\<lambda>x. ce_id x = i \<and> ce_workspace_id x = ws) (calendar_events t))
   \<and> (case deleteRecurringRule ws uid i s of (Inl e, t) \<Rightarrow> same_plan s t
     | (Inr b, t) \<Rightarrow> b \<and> member_of uid s ws \<and> list_ex (\<lambda>x. rr_id x = i \<and> rr_workspace_id x = ws) (recurring_rules s)
         \<and> \<not> list_ex (\<lambda>x. rr_id x = i \<and> rr_workspace_id x = ws) (recurring_rules t))"
proof -
  obtain r1 t1 r2 t2 r3 t3 r4 t4 where run: "deleteBudget ws uid i s = (r1, t1)" "deleteGoal ws uid i s = (r2, t2)"
      "deleteCalendarEvent ws uid i s = (r3, t3)" "deleteRecurringRule ws uid i s = (r4, t4)" by fastforce
  have 1: "case r1 of Inl e \<Rightarrow> same_plan s t1 | Inr b \<Rightarrow> b \<and> (\<exists>rows. rows \<noteq> []
      \<and> delete_budget_rows uid i ws (pl_base_update drop_fault s) = Inr (rows, t1))"
    by (rule delete_honest [OF run(1) [unfolded deleteBudget_def]])
      (rule delete_none)
  have 2: "case r2 of Inl e \<Rightarrow> same_plan s t2 | Inr b \<Rightarrow> b \<and> (\<exists>rows. rows \<noteq> []
      \<and> delete_goal_rows uid i ws (pl_base_update drop_fault s) = Inr (rows, t2))"
    by (rule delete_honest [OF run(2) [unfolded deleteGoal_def]])
      (rule delete_none)
  have 3: "case r3 of Inl e \<Rightarrow> same_plan s t3 | Inr b \<Rightarrow> b \<and> (\<exists>rows. rows \<noteq> []
      \<and> delete_event_rows uid i ws (pl_base_update drop_fault s) = Inr (rows, t3))"
    by (rule delete_honest [OF run(3) [unfolded deleteCalendarEvent_def]])
      (rule delete_none)
  have 4: "case r4 of Inl e \<Rightarrow> same_plan s t4 | Inr b \<Rightarrow> b \<and> (\<exists>rows. rows \<noteq> []
      \<and> delete_rule_rows uid i ws (pl_base_update drop_fault s) = Inr (rows, t4))"
    by (rule delete_honest [OF run(4) [unfolded deleteRecurringRule_def]])
      (rule delete_none)
  have budget: "case (r1, t1) of (Inl e, t) \<Rightarrow> same_plan s t
     | (Inr b, t) \<Rightarrow> b \<and> member_of uid s ws \<and> list_ex (\<lambda>x. bg_id x = i \<and> bg_workspace_id x = ws) (budgets s)
         \<and> \<not> list_ex (\<lambda>x. bg_id x = i \<and> bg_workspace_id x = ws) (budgets t)"
  proof (cases r1)
    case (Inr b)
    then obtain rows where "b" "rows \<noteq> []" "delete_budget_rows uid i ws (pl_base_update drop_fault s) = Inr (rows, t1)"
      using 1 by auto
    then have "b" "map bg_id (filter (scoped uid s bg_id bg_workspace_id i ws) (budgets s)) \<noteq> []"
      "budgets t1 = [x \<leftarrow> budgets s. \<not> scoped uid s bg_id bg_workspace_id i ws x]"
      by (auto simp: delete_rows_scoped Let_def)
    then show ?thesis using scoped_gone [of bg_id uid s bg_workspace_id i ws "budgets s"] Inr by simp
  qed (use 1 in simp)
  have goal: "case (r2, t2) of (Inl e, t) \<Rightarrow> same_plan s t
     | (Inr b, t) \<Rightarrow> b \<and> member_of uid s ws \<and> list_ex (\<lambda>x. sg_id x = i \<and> sg_workspace_id x = ws) (savings_goals s)
         \<and> \<not> list_ex (\<lambda>x. sg_id x = i \<and> sg_workspace_id x = ws) (savings_goals t)"
  proof (cases r2)
    case (Inr b)
    then obtain rows where "b" "rows \<noteq> []" "delete_goal_rows uid i ws (pl_base_update drop_fault s) = Inr (rows, t2)"
      using 2 by auto
    then have "b" "map sg_id (filter (scoped uid s sg_id sg_workspace_id i ws) (savings_goals s)) \<noteq> []"
      "savings_goals t2 = [x \<leftarrow> savings_goals s. \<not> scoped uid s sg_id sg_workspace_id i ws x]"
      by (auto simp: delete_rows_scoped Let_def)
    then show ?thesis using scoped_gone [of sg_id uid s sg_workspace_id i ws "savings_goals s"] Inr by simp
  qed (use 2 in simp)
  have event: "case (r3, t3) of (Inl e, t) \<Rightarrow> same_plan s t
     | (Inr b, t) \<Rightarrow> b \<and> member_of uid s ws \<and> list_ex (\<lambda>x. ce_id x = i \<and> ce_workspace_id x = ws) (calendar_events s)
         \<and> \<not> list_ex (\<lambda>x. ce_id x = i \<and> ce_workspace_id x = ws) (calendar_events t)"
  proof (cases r3)
    case (Inr b)
    then obtain rows where "b" "rows \<noteq> []" "delete_event_rows uid i ws (pl_base_update drop_fault s) = Inr (rows, t3)"
      using 3 by auto
    then have "b" "map ce_id (filter (scoped uid s ce_id ce_workspace_id i ws) (calendar_events s)) \<noteq> []"
      "calendar_events t3 = [x \<leftarrow> calendar_events s. \<not> scoped uid s ce_id ce_workspace_id i ws x]"
      by (auto simp: delete_rows_scoped Let_def)
    then show ?thesis using scoped_gone [of ce_id uid s ce_workspace_id i ws "calendar_events s"] Inr by simp
  qed (use 3 in simp)
  have rule: "case (r4, t4) of (Inl e, t) \<Rightarrow> same_plan s t
     | (Inr b, t) \<Rightarrow> b \<and> member_of uid s ws \<and> list_ex (\<lambda>x. rr_id x = i \<and> rr_workspace_id x = ws) (recurring_rules s)
         \<and> \<not> list_ex (\<lambda>x. rr_id x = i \<and> rr_workspace_id x = ws) (recurring_rules t)"
  proof (cases r4)
    case (Inr b)
    then obtain rows where "b" "rows \<noteq> []" "delete_rule_rows uid i ws (pl_base_update drop_fault s) = Inr (rows, t4)"
      using 4 by auto
    then have "b" "map rr_id (filter (scoped uid s rr_id rr_workspace_id i ws) (recurring_rules s)) \<noteq> []"
      "recurring_rules t4 = [x \<leftarrow> recurring_rules s. \<not> scoped uid s rr_id rr_workspace_id i ws x]"
      by (auto simp: delete_rows_scoped Let_def)
    then show ?thesis using scoped_gone [of rr_id uid s rr_workspace_id i ws "recurring_rules s"] Inr by simp
  qed (use 4 in simp)
  show ?thesis unfolding run using budget goal event rule by (intro conjI)
qed

section \<open>Saving a budget\<close>

lemma pl_no_fault: "faults (pl_base s) = [] \<Longrightarrow> pl_base_update drop_fault s = s"
  by (cases s) (simp add: drop_no_fault)

lemma written_no_fault:
  "faults (pl_base s) = [] \<Longrightarrow>
     written what f s = (case f s of Inl e \<Rightarrow> (Inl (fail e what), s) | Inr (x, t) \<Rightarrow> (Inr x, t))"
  by (auto simp: written_def plan_stmt_def fault_stmt_no_fault pl_no_fault api_bind_def api_throw_def api_return_def
      split: sum.split)

definition lines_of :: "string \<Rightarrow> plan_db \<Rightarrow> string \<Rightarrow> budget_line list" where
  "lines_of uid s bid = [l \<leftarrow> budget_lines s. bl_budget_id l = bid \<and> member_of uid s (bl_workspace_id l)]"

definition other_lines :: "string \<Rightarrow> plan_db \<Rightarrow> string \<Rightarrow> budget_line list" where
  "other_lines uid s bid = [l \<leftarrow> budget_lines s. \<not> (bl_budget_id l = bid \<and> member_of uid s (bl_workspace_id l))]"

definition cadence_of :: "upsert_budget_dto \<Rightarrow> BudgetCadence" where
  "cadence_of dto = (case ub_cadence dto of None \<Rightarrow> C_MONTHLY | Some c \<Rightarrow> c)"

text \<open>The state after the two statements before the lines: the budget updated, its lines gone.\<close>

definition cleared :: "string \<Rightarrow> upsert_budget_dto \<Rightarrow> string \<Rightarrow> plan_db \<Rightarrow> plan_db" where
  "cleared uid dto bid s =
     (case update_budget uid bid dto s of Inl e \<Rightarrow> s | Inr (_, t) \<Rightarrow> t\<lparr>budget_lines := other_lines uid s bid\<rparr>)"

lemma cleared_fields [simp]:
  "pl_base (cleared uid dto bid s) = pl_base s" "budget_lines (cleared uid dto bid s) = other_lines uid s bid"
  by (simp_all add: cleared_def update_budget_def)

lemma budget_id_existing:
  assumes "faults (pl_base s) = []" and "active_budgets uid ws (cadence_of dto) s = [b]"
  shows "budget_id_for W ws uid dto s = (Inr (bg_id b), snd (projr (update_budget uid (bg_id b) dto s)))"
  using assms unfolding budget_id_for_def Let_def cadence_of_def [symmetric]
  by (simp add: api_bind_def plan_stmt_def fault_stmt_no_fault pl_no_fault
      maybe_single_def data_maybe_def written_no_fault update_budget_def api_return_def)

lemma upsert_existing:
  assumes "faults (pl_base s) = []" and "active_budgets uid ws (cadence_of dto) s = [b]"
  shows "upsertBudget W ws uid dto s =
    api_bind (if ub_lines dto = [] then api_return ()
       else api_bind (api_lift (line_rows (bg_id b) ws (ub_lines dto))) (\<lambda>rows.
         written ''Budget lines'' (insert_lines uid rows))) (\<lambda>_. getBudgetStatus W ws) (cleared uid dto (bg_id b) s)"
proof -
  let ?t = "snd (projr (update_budget uid (bg_id b) dto s))"
  have mem: "member_of uid ?t = member_of uid s" by (rule member_of_same) (simp add: update_budget_def)
  have "written ''Budget lines'' (clear_lines uid (bg_id b)) ?t = (Inr (), cleared uid dto (bg_id b) s)"
    using mem assms(1) by (simp add: written_no_fault clear_lines_def cleared_def other_lines_def update_budget_def)
  then show ?thesis
    by (simp add: upsertBudget_def api_bind_def budget_id_existing [OF assms])
qed

text \<open>
  Saving the active budget with an amount beyond the representable range is refused, after all
  lines of the budget were deleted: the refused save leaves a budget without lines.
\<close>

theorem refused_budget_loses_lines:
  assumes "faults (pl_base s) = []" and "active_budgets uid ws (cadence_of dto) s = [b]"
    and "line_rows (bg_id b) ws (ub_lines dto) = Inl e"
  shows "fst (upsertBudget W ws uid dto s) = Inl e \<and> lines_of uid (snd (upsertBudget W ws uid dto s)) (bg_id b) = []"
proof -
  have "upsertBudget W ws uid dto s = (Inl e, cleared uid dto (bg_id b) s)"
    using assms(3) by (auto simp: upsert_existing [OF assms(1,2)] api_bind_def api_lift_def split: list.splits)
  moreover have "member_of uid (cleared uid dto (bg_id b) s) = member_of uid s" by (rule member_of_same) simp
  ultimately show ?thesis by (simp add: lines_of_def other_lines_def filter_empty_conv)
qed

text \<open>
   Saving the active budget with valid lines replaces exactly its lines by those of the request
  and leaves every other line as it was. A category only has to exist, in whatever workspace.
\<close>

theorem upsertBudget_replaces_lines:
  assumes "faults (pl_base s) = []" and "active_budgets uid ws (cadence_of dto) s = [b]" and "member_of uid s ws"
    and "line_rows (bg_id b) ws (ub_lines dto) = Inr rows"
    and "list_all (\<lambda>l. 0 < bl_planned_minor l \<and> 0 \<le> bl_alert_threshold_pct l \<and> bl_alert_threshold_pct l \<le> 100
          \<and> category_exists s (bl_category_id l)) rows"
    and "distinct (map bl_category_id rows)"
    and "list_all (\<lambda>l. bl_budget_id l = bg_id b \<longrightarrow> member_of uid s (bl_workspace_id l)) (budget_lines s)"
  shows "budget_lines (snd (upsertBudget W ws uid dto s)) = other_lines uid s (bg_id b) @ rows"
proof -
  let ?c = "cleared uid dto (bg_id b) s"
  have mem: "member_of uid ?c = member_of uid s" by (rule member_of_same) simp
  have nf: "faults (pl_base ?c) = []" using assms(1) by simp
  have of: "list_all (\<lambda>l. bl_budget_id l = bg_id b \<and> bl_workspace_id l = ws) rows" by (rule line_rows_refs [OF assms(4)])
  have b: "b \<in> set (budgets s)"
  proof -
    have "b \<in> set (active_budgets uid ws (cadence_of dto) s)" by (simp add: assms(2))
    then show ?thesis by (simp add: active_budgets_def)
  qed
  then have ref: "list_ex (\<lambda>x. bg_id x = bg_id b) (budgets ?c)"
    by (simp add: cleared_def update_budget_def list_ex_iff del: if_image_distrib) (rule bexI [of _ b], simp_all)
  have status: "budget_lines (snd (getBudgetStatus W ws u)) = budget_lines u" for u
    by (auto simp: getBudgetStatus_def rpc_def api_bind_def plan_stmt_def fault_stmt_def Let_def api_throw_def api_return_def
        split: sum.splits)
  have keys: "distinct (map (\<lambda>l. (bl_budget_id l, bl_category_id l)) rows)"
    using assms(6) by (auto simp: distinct_map inj_on_def)
  have fresh: "\<not> list_ex (\<lambda>l. (bl_budget_id l, bl_category_id l) \<in> set (map (\<lambda>l. (bl_budget_id l, bl_category_id l)) (budget_lines ?c))) rows"
    using of assms(7) by (auto simp: other_lines_def list_ex_iff list_all_iff)
  have ok: "list_all (line_ok ?c) rows" "list_all (\<lambda>l. category_exists ?c (bl_category_id l) \<and> list_ex (\<lambda>b. bg_id b = bl_budget_id l) (budgets ?c)) rows"
    "list_all (\<lambda>l. member_of uid ?c (bl_workspace_id l)) rows"
    using assms(3,5) of ref mem by (auto simp: list_all_iff line_ok_def category_exists_def)
  have "insert_lines uid rows ?c = Inr ((), ?c\<lparr>budget_lines := budget_lines ?c @ rows\<rparr>)"
    unfolding insert_lines_def Let_def using ok keys fresh by simp
  then have ins: "written ''Budget lines'' (insert_lines uid rows) ?c = (Inr (), ?c\<lparr>budget_lines := other_lines uid s (bg_id b) @ rows\<rparr>)"
    using nf by (simp add: written_no_fault)
  show ?thesis
  proof (cases "ub_lines dto = []")
    case True
    then have "rows = []" using assms(4) by simp
    then show ?thesis using True by (simp add: upsert_existing [OF assms(1,2)] api_bind_def api_return_def status)
  next
    case False
    then show ?thesis
      by (simp add: upsert_existing [OF assms(1,2)] api_bind_def api_lift_def assms(4) ins status)
  qed
qed

section \<open>A missing goal\<close>

text \<open>
  Updating a goal that is not in the workspace answers 400 \<open>PLANNING_WRITE_FAILED\<close>: the 404
  \<open>GOAL_NOT_FOUND\<close> behind it is never reached, because \<open>.single()\<close> already reports the missing row.
\<close>

theorem missing_goal_is_bad_request:
  assumes "faults (pl_base s) = []" and "\<not> empty_goal_patch dto"
    and "minor_opt (ug_target_minor dto) ''target_minor'' = Inr target"
    and "stored_date W (ug_target_date dto) = Inr d"
    and "\<not> list_ex (\<lambda>g. sg_id g = i \<and> sg_workspace_id g = ws) (savings_goals s)"
  shows "updateGoal W ws uid i dto s = (Inl (Bad_request ''PLANNING_WRITE_FAILED'' ''''), s)"
proof -
  have "[g \<leftarrow> savings_goals s. sg_id g = i \<and> sg_workspace_id g = ws \<and> member_of uid s (sg_workspace_id g)] = []"
    using assms(5) by (auto simp: filter_empty_conv list_ex_iff)
  then have "update_goal_row W uid i ws dto target s = Inl (pg NOT_ONE_ROW)"
    unfolding update_goal_row_def assms(4) by (simp add: single_def)
  then show ?thesis
    using assms(1-3) by (simp add: updateGoal_def api_bind_def api_lift_def written_no_fault fail_def pg_codes)
qed

section \<open>A concrete workspace\<close>

definition demo_world :: plan_world where
  "demo_world = \<lparr>pw_env = demo_env, pg_date = Some, date_iso = Some, aggregate = (\<lambda>_ _ _. Inr JNull)\<rparr>"

definition demo_budget :: budget where
  "demo_budget = \<lparr>bg_id = ''b1'', bg_workspace_id = ''w1'', bg_name = [], bg_cadence = C_MONTHLY,
     bg_period_start = ''2026-08-01'', bg_rollover = False, bg_status = BUDGET_ACTIVE, bg_created_by = ''u1''\<rparr>"

definition demo_plan :: plan_db where
  "demo_plan = \<lparr>pl_base = demo_db, budgets = [demo_budget],
     budget_lines = [\<lparr>bl_budget_id = ''b1'', bl_workspace_id = ''w1'', bl_category_id = ''food'',
       bl_planned_minor = 500, bl_alert_threshold_pct = 80\<rparr>],
     savings_goals = [], debts = [], calendar_events = [], recurring_rules = []\<rparr>"

definition demo_save :: "string \<Rightarrow> upsert_budget_dto" where
  "demo_save amount = \<lparr>ub_name = None, ub_cadence = None, ub_rollover = None,
     ub_lines = [\<lparr>li_category_id = ''food'', li_planned_minor = amount, li_alert_threshold_pct = None\<rparr>]\<rparr>"

lemma demo_plan_facts:
  "faults (pl_base demo_plan) = []" "active_budgets ''u1'' ''w1'' (cadence_of (demo_save a)) demo_plan = [demo_budget]"
  "member_of ''u1'' demo_plan ''w1''" "plan_wf demo_plan"
  by (simp_all add: demo_plan_def active_budgets_def demo_budget_def cadence_of_def demo_save_def member_of_def
      plan_wf_def refers_def)

theorem planning_tenant_isolation_witness:
  "plan_wf (serve_all demo_world ''u2'' [(''w1'', Delete_budget ''b1'')] demo_plan)
    \<and> hidden (member_of ''u2'' demo_plan) (serve_all demo_world ''u2'' [(''w1'', Delete_budget ''b1'')] demo_plan)
      = hidden (member_of ''u2'' demo_plan) demo_plan"
  by (rule planning_tenant_isolation [OF demo_plan_facts(4)])

lemma too_large: "line_rows ''b1'' ''w1'' (ub_lines (demo_save ''9007199254740993''))
    = Inl (Bad_request ''AMOUNT_TOO_LARGE'' ''planned_minor is outside the range this system can represent exactly.'')"
  by (simp add: demo_save_def minor_def Let_def dbl_unsafe_iff [unfolded MAX_SAFE_INTEGER_def, simplified] digits_val_def digit_val_def MAX_SAFE_INTEGER_def)

theorem refused_budget_loses_lines_witness:
  "fst (upsertBudget demo_world ''w1'' ''u1'' (demo_save ''9007199254740993'') demo_plan)
     = Inl (Bad_request ''AMOUNT_TOO_LARGE'' ''planned_minor is outside the range this system can represent exactly.'')
   \<and> lines_of ''u1'' (snd (upsertBudget demo_world ''w1'' ''u1'' (demo_save ''9007199254740993'') demo_plan)) ''b1'' = []"
  using refused_budget_loses_lines [OF demo_plan_facts(1) demo_plan_facts(2) [of "''9007199254740993''"], where W = demo_world] too_large
  by (simp add: demo_budget_def)

theorem upsertBudget_replaces_lines_witness:
  "budget_lines (snd (upsertBudget demo_world ''w1'' ''u1'' (demo_save ''700'') demo_plan))
     = other_lines ''u1'' demo_plan (bg_id demo_budget)
       @ [\<lparr>bl_budget_id = ''b1'', bl_workspace_id = ''w1'', bl_category_id = ''food'', bl_planned_minor = 700, bl_alert_threshold_pct = 80\<rparr>]"
proof (rule upsertBudget_replaces_lines [OF demo_plan_facts(1,2,3)])
  show "line_rows (bg_id demo_budget) ''w1'' (ub_lines (demo_save ''700'')) = Inr [\<lparr>bl_budget_id = ''b1'',
      bl_workspace_id = ''w1'', bl_category_id = ''food'', bl_planned_minor = 700, bl_alert_threshold_pct = 80\<rparr>]"
    by (simp add: demo_save_def demo_budget_def minor_def Let_def digits_val_def digit_val_def dbl_exact MAX_SAFE_INTEGER_def)
qed (simp_all add: demo_plan_def demo_budget_def category_exists_def demo_db_def demo_category_def member_of_def is_member_def)

theorem missing_goal_is_bad_request_witness:
  "updateGoal demo_world ''w1'' ''u1'' ''g9'' \<lparr>ug_name = Some ''Trip'', ug_target_minor = None, ug_target_date = None,
      ug_linked_account_id = None, ug_priority = None, ug_status = None\<rparr> demo_plan
    = (Inl (Bad_request ''PLANNING_WRITE_FAILED'' ''''), demo_plan)"
  by (rule missing_goal_is_bad_request [where target = None and d = None])
    (simp_all add: demo_plan_facts empty_goal_patch_def minor_opt_def stored_date_def demo_plan_def)

end
