(* ===== verification/PlanningTypes.thy ===== *)
theory PlanningTypes imports Planning begin

text \<open>
  The storage types of the planning tables. The CHECK constraints, unique indexes and references of
  migration 00015 are tested by the single statements of \<^verbatim>\<open>Planning\<close>; here they become
  an invariant of the stored data that every handler of the service keeps, in any sequence.
  The handlers are the clients of the statements: the locale collects what a property of the data
  needs of every statement, and the theorem on handlers is proved once from it.
\<close>

section \<open>The statements as an interface\<close>

locale plan_statements =
  fixes good :: "plan_db \<Rightarrow> bool"
  assumes good_drop: "good s \<Longrightarrow> good (pl_base_update drop_fault s)"
    and good_uuid: "good s \<Longrightarrow> good (snd (plan_uuid W s))"
    and good_update_budget: "good s \<Longrightarrow> update_budget uid bid bdto s = Inr (u, t) \<Longrightarrow> good t"
    and good_insert_budget: "good s \<Longrightarrow> insert_budget uid b s = Inr (i, t) \<Longrightarrow> good t"
    and good_clear_lines: "good s \<Longrightarrow> clear_lines uid bid s = Inr (u, t) \<Longrightarrow> good t"
    and good_insert_lines: "good s \<Longrightarrow> insert_lines uid ls s = Inr (u, t) \<Longrightarrow> good t"
    and good_delete_budget: "good s \<Longrightarrow> delete_budget_rows uid i ws s = Inr (ids, t) \<Longrightarrow> good t"
    and good_insert_goal: "good s \<Longrightarrow> insert_goal W uid g s = Inr (g', t) \<Longrightarrow> good t"
    and good_update_goal: "good s \<Longrightarrow> update_goal_row W uid i ws gdto n s = Inr (g', t) \<Longrightarrow> good t"
    and good_delete_goal: "good s \<Longrightarrow> delete_goal_rows uid i ws s = Inr (ids, t) \<Longrightarrow> good t"
    and good_upsert_debt: "good s \<Longrightarrow> upsert_debt_row uid d s = Inr (d', t) \<Longrightarrow> good t"
    and good_delete_debt: "good s \<Longrightarrow> delete_debt_rows uid i ws s = Inr (ids, t) \<Longrightarrow> good t"
    and good_insert_event: "good s \<Longrightarrow> insert_event W uid e s = Inr (e', t) \<Longrightarrow> good t"
    and good_update_event: "good s \<Longrightarrow> update_event_row W uid i ws edto n due s = Inr (e', t) \<Longrightarrow> good t"
    and good_delete_event: "good s \<Longrightarrow> delete_event_rows uid i ws s = Inr (ids, t) \<Longrightarrow> good t"
    and good_insert_rule: "good s \<Longrightarrow> insert_rule W uid r s = Inr (r', t) \<Longrightarrow> good t"
    and good_update_rule: "good s \<Longrightarrow> update_rule_row uid i ws st s = Inr (r', t) \<Longrightarrow> good t"
    and good_delete_rule: "good s \<Longrightarrow> delete_rule_rows uid i ws s = Inr (ids, t) \<Longrightarrow> good t"
begin

lemma stmt: "(\<And>u x t. good u \<Longrightarrow> f u = Inr (x, t) \<Longrightarrow> good t) \<Longrightarrow> keeps good (plan_stmt f)"
  unfolding plan_stmt_def by (rule keeps_fault_stmt) (auto intro: good_drop)

lemma read: "keeps good (plan_stmt (\<lambda>u. case q u of Inl e \<Rightarrow> Inl e | Inr x \<Rightarrow> Inr (x, u)))"
  by (rule stmt) (auto split: sum.splits)

lemma fresh: "keeps good (plan_uuid W)"
  by (rule keepsI) (rule good_uuid)

lemma writes: "(\<And>u x t. good u \<Longrightarrow> f u = Inr (x, t) \<Longrightarrow> good t) \<Longrightarrow> keeps good (written what f)"
  unfolding written_def by (rule keeps_bind [OF stmt]) (blast, intro keeps_intros)

lemma reports: "keeps good (rpc W fn args)" "keeps good (workspace_settings ws u)"
  unfolding rpc_def workspace_settings_def
  by (auto intro!: keeps_bind stmt keeps_intros simp: pick_one_def split: sum.splits)

lemmas pieces = keeps_bind keeps_lift fresh read reports keeps_case_option keeps_if keeps_return keeps_throw keeps_assertDeleted writes

lemma budgets_saved: "keeps good (upsertBudget W ws uid dto)"
  unfolding upsertBudget_def budget_id_for_def getBudgetStatus_def Let_def
  by (auto intro!: pieces
      intro: good_update_budget good_insert_budget good_clear_lines good_insert_lines)

lemma created:
  "keeps good (createGoal W ws uid g)" "keeps good (createCalendarEvent W ws uid e)"
  "keeps good (createRecurringRule W ws uid r)" "keeps good (upsertDebt ws uid d)"
  unfolding createGoal_def createCalendarEvent_def createRecurringRule_def upsertDebt_def Let_def
  by (auto intro!: pieces intro: good_insert_goal good_insert_event good_insert_rule good_upsert_debt)

lemma updated:
  "keeps good (updateGoal W ws uid i g)" "keeps good (updateCalendarEvent W ws uid i e)"
  "keeps good (updateRecurringRule ws uid i st)"
  unfolding updateGoal_def updateCalendarEvent_def updateRecurringRule_def
  by (auto intro!: pieces intro: good_update_goal good_update_event good_update_rule)

lemma deleted:
  "keeps good (deleteBudget ws uid i)" "keeps good (deleteGoal ws uid i)" "keeps good (deleteDebt ws uid i)"
  "keeps good (deleteCalendarEvent ws uid i)" "keeps good (deleteRecurringRule ws uid i)"
  unfolding deleteBudget_def deleteGoal_def deleteDebt_def deleteCalendarEvent_def deleteRecurringRule_def
  by (auto intro!: pieces
      intro: good_delete_budget good_delete_goal good_delete_debt good_delete_event good_delete_rule)

lemma served: "good s \<Longrightarrow> good (serve W uid ws r s)"
  by (cases r) (auto intro: keepsD budgets_saved created updated deleted)

lemma served_all: "good s \<Longrightarrow> good (serve_all W uid rs s)"
  by (induction rs arbitrary: s) (auto simp: serve_all_def served)

end

section \<open>The storage types\<close>

text \<open>
  The rows satisfy the constraints of their tables: amounts are positive or non-negative, thresholds
  are percentages, due days are days of a month, a rule does not end before its next occurrence,
  optional references are rows that exist; keys are unique; a workspace has at most one active
  budget of each cadence.
\<close>

definition active_key :: "budget \<Rightarrow> (string \<times> BudgetCadence) option" where
  "active_key b = (if bg_status b = BUDGET_ACTIVE then Some (bg_workspace_id b, bg_cadence b) else None)"

definition one_active :: "budget list \<Rightarrow> bool" where
  "one_active bs \<longleftrightarrow> distinct (map active_key (filter (\<lambda>b. active_key b \<noteq> None) bs))"

definition plan_rows_ok :: "plan_db \<Rightarrow> bool" where
  "plan_rows_ok s \<longleftrightarrow> list_all (line_ok s) (budget_lines s) \<and> list_all (\<lambda>l. category_exists s (bl_category_id l)) (budget_lines s)
     \<and> list_all (\<lambda>g. goal_ok s g = None) (savings_goals s) \<and> list_all (\<lambda>d. debt_ok s d = None) (debts s)
     \<and> list_all (\<lambda>e. event_ok s e = None) (calendar_events s) \<and> list_all (\<lambda>r. rule_ok s r = None) (recurring_rules s)"

definition plan_keys_ok :: "plan_db \<Rightarrow> bool" where
  "plan_keys_ok s \<longleftrightarrow> one_active (budgets s) \<and> distinct (map bg_id (budgets s))
     \<and> distinct (map (\<lambda>l. (bl_budget_id l, bl_category_id l)) (budget_lines s))
     \<and> distinct (map sg_id (savings_goals s)) \<and> distinct (map dd_ledger_account_id (debts s))
     \<and> distinct (map ce_id (calendar_events s)) \<and> distinct (map rr_id (recurring_rules s))"

definition plan_typed :: "plan_db \<Rightarrow> bool" where
  "plan_typed s \<longleftrightarrow> plan_rows_ok s \<and> plan_keys_ok s"

lemma ok_same_base:
  assumes "categories (pl_base t) = categories (pl_base s)" "ledger_accounts (pl_base t) = ledger_accounts (pl_base s)"
    "journal_entries (pl_base t) = journal_entries (pl_base s)"
  shows "line_ok t = line_ok s" "category_exists t = category_exists s" "goal_ok t = goal_ok s"
    "debt_ok t = debt_ok s" "event_ok t = event_ok s" "rule_ok t = rule_ok s"
proof -
  have refs: "category_exists t = category_exists s" "account_exists t = account_exists s"
    by (simp_all add: fun_eq_iff category_exists_def account_exists_def assms)
  show "category_exists t = category_exists s" by (rule refs)
  show "line_ok t = line_ok s" "goal_ok t = goal_ok s" "debt_ok t = debt_ok s" "event_ok t = event_ok s" "rule_ok t = rule_ok s"
    by (rule ext, simp only: line_ok_def goal_ok_def debt_ok_def event_ok_def rule_ok_def refs assms)+
qed

lemma typed_same_base:
  assumes "pl_base t = pl_base s"
  shows "plan_typed t \<longleftrightarrow> plan_keys_ok t \<and> list_all (line_ok s) (budget_lines t)
     \<and> list_all (\<lambda>l. category_exists s (bl_category_id l)) (budget_lines t)
     \<and> list_all (\<lambda>g. goal_ok s g = None) (savings_goals t) \<and> list_all (\<lambda>d. debt_ok s d = None) (debts t)
     \<and> list_all (\<lambda>e. event_ok s e = None) (calendar_events t) \<and> list_all (\<lambda>r. rule_ok s r = None) (recurring_rules t)"
  by (auto simp: plan_typed_def plan_rows_ok_def ok_same_base [of t s] assms)

lemmas typedD = typed_same_base [of s s for s, OF refl, THEN iffD1]
lemmas typed_budgets = typed_same_base [of "s\<lparr>budgets := x\<rparr>" s for s x]
lemmas typed_lines = typed_same_base [of "s\<lparr>budget_lines := x\<rparr>" s for s x]
lemmas typed_goals = typed_same_base [of "s\<lparr>savings_goals := x\<rparr>" s for s x]
lemmas typed_debts = typed_same_base [of "s\<lparr>debts := x\<rparr>" s for s x]
lemmas typed_events = typed_same_base [of "s\<lparr>calendar_events := x\<rparr>" s for s x]
lemmas typed_rules = typed_same_base [of "s\<lparr>recurring_rules := x\<rparr>" s for s x]
lemmas typed_budget_gone = typed_same_base [of "s\<lparr>budgets := x, budget_lines := y\<rparr>" s for s x y]
lemmas typed_goal_gone = typed_same_base [of "s\<lparr>savings_goals := x, calendar_events := y\<rparr>" s for s x y]
lemmas typed_rule_gone = typed_same_base [of "s\<lparr>recurring_rules := x, calendar_events := y\<rparr>" s for s x y]

lemma one_active_same:
  "map active_key bs = map active_key cs \<Longrightarrow> one_active bs = one_active cs"
proof -
  have "map active_key (filter (\<lambda>b. active_key b \<noteq> None) xs) = filter (\<lambda>k. k \<noteq> None) (map active_key xs)" for xs
    by (simp add: filter_map comp_def)
  then show "map active_key bs = map active_key cs \<Longrightarrow> one_active bs = one_active cs" by (simp add: one_active_def)
qed

lemma one_active_filter:
  assumes "one_active bs"
  shows "one_active (filter p bs)"
proof -
  have "filter (\<lambda>b. active_key b \<noteq> None) (filter p bs) = filter p (filter (\<lambda>b. active_key b \<noteq> None) bs)"
    by (simp add: conj_commute)
  then show ?thesis using assms by (simp only: one_active_def distinct_map_filter)
qed

lemma distinct_append_keys:
  "distinct (map f xs) \<Longrightarrow> distinct (map f ys) \<Longrightarrow> \<not> list_ex (\<lambda>y. f y \<in> set (map f xs)) ys \<Longrightarrow> distinct (map f (xs @ ys))"
  by (fastforce simp: list_ex_iff image_iff)

lemma list_all_patch:
  "list_all P xs \<Longrightarrow> (\<And>x. x \<in> set xs \<Longrightarrow> hit x \<Longrightarrow> P (patch x)) \<Longrightarrow> list_all P (map (\<lambda>x. if hit x then patch x else x) xs)"
  by (induction xs) auto

lemma typed_update_budget:
  assumes s: "plan_typed s" and f: "update_budget uid bid dto s = Inr (u, t)"
  shows "plan_typed t"
proof -
  obtain g where t: "t = s\<lparr>budgets := map g (budgets s)\<rparr>"
    and g: "\<And>b. active_key (g b) = active_key b \<and> bg_id (g b) = bg_id b"
    using f by (auto simp: update_budget_def active_key_def)
  have "one_active (map g (budgets s)) = one_active (budgets s)" by (rule one_active_same) (simp add: g)
  then show ?thesis using typedD [OF s] by (simp add: typed_budgets plan_keys_ok_def t g comp_def)
qed

lemma typed_insert_budget:
  assumes s: "plan_typed s" and f: "insert_budget uid b s = Inr (i, t)"
  shows "plan_typed t"
proof -
  have t: "t = s\<lparr>budgets := budgets s @ [b]\<rparr>" and no: "\<And>x. x \<in> set (budgets s) \<Longrightarrow> \<not> budget_conflicts b x"
    using f by (auto simp: insert_budget_def list_ex_iff split: if_splits)
  have "one_active (budgets s @ [b])"
    using typedD [OF s] no by (auto simp: plan_keys_ok_def one_active_def active_key_def budget_conflicts_def)
  moreover have "bg_id b \<notin> bg_id ` set (budgets s)" using no by (auto simp: budget_conflicts_def)
  ultimately show ?thesis
    using typedD [OF s] by (simp add: typed_budgets plan_keys_ok_def t)
qed

lemma typed_clear_lines: "plan_typed s \<Longrightarrow> clear_lines uid bid s = Inr (u, t) \<Longrightarrow> plan_typed t"
  by (auto dest!: typedD simp: clear_lines_def typed_lines plan_keys_ok_def list_all_iff
      intro: distinct_map_filter)

lemma typed_insert_lines:
  assumes s: "plan_typed s" and f: "insert_lines uid ls s = Inr (u, t)"
  shows "plan_typed t"
proof -
  let ?key = "\<lambda>l. (bl_budget_id l, bl_category_id l)"
  have t: "t = s\<lparr>budget_lines := budget_lines s @ ls\<rparr>" and ok: "list_all (line_ok s) ls" "distinct (map ?key ls)"
      "\<not> list_ex (\<lambda>l. ?key l \<in> set (map ?key (budget_lines s))) ls" "list_all (\<lambda>l. category_exists s (bl_category_id l)) ls"
    using f unfolding insert_lines_def Let_def by (auto simp: list_all_iff split: if_splits)
  have "distinct (map ?key (budget_lines s @ ls))"
    using typedD [OF s] by (intro distinct_append_keys ok(2,3)) (simp add: plan_keys_ok_def)
  then show ?thesis
    using typedD [OF s] ok by (simp add: typed_lines plan_keys_ok_def t)
qed

lemma typed_delete_budget: "plan_typed s \<Longrightarrow> delete_budget_rows uid i ws s = Inr (ids, t) \<Longrightarrow> plan_typed t"
  by (auto dest!: typedD simp: delete_budget_rows_def Let_def typed_budget_gone plan_keys_ok_def list_all_iff
      intro: distinct_map_filter one_active_filter)

lemma typed_insert_goal: "plan_typed s \<Longrightarrow> insert_goal W uid g s = Inr (g', t) \<Longrightarrow> plan_typed t"
  by (auto dest!: typedD simp: insert_goal_def Let_def typed_goals plan_keys_ok_def list_ex_iff
      split: if_splits sum.splits option.splits) blast+

lemma typed_delete_goal: "plan_typed s \<Longrightarrow> delete_goal_rows uid i ws s = Inr (ids, t) \<Longrightarrow> plan_typed t"
  by (auto dest!: typedD simp: delete_goal_rows_def Let_def typed_goal_gone plan_keys_ok_def list_all_iff
      intro: distinct_map_filter)

lemma typed_delete_debt: "plan_typed s \<Longrightarrow> delete_debt_rows uid i ws s = Inr (ids, t) \<Longrightarrow> plan_typed t"
  by (auto dest!: typedD simp: delete_debt_rows_def Let_def typed_debts plan_keys_ok_def list_all_iff
      intro: distinct_map_filter)

lemma typed_insert_event: "plan_typed s \<Longrightarrow> insert_event W uid e s = Inr (e', t) \<Longrightarrow> plan_typed t"
  by (auto dest!: typedD simp: insert_event_def Let_def typed_events plan_keys_ok_def list_ex_iff
      split: if_splits option.splits) blast+

lemma typed_delete_event: "plan_typed s \<Longrightarrow> delete_event_rows uid i ws s = Inr (ids, t) \<Longrightarrow> plan_typed t"
  by (auto dest!: typedD simp: delete_event_rows_def Let_def typed_events plan_keys_ok_def list_all_iff
      intro: distinct_map_filter)

lemma typed_insert_rule: "plan_typed s \<Longrightarrow> insert_rule W uid r s = Inr (r', t) \<Longrightarrow> plan_typed t"
  by (auto dest!: typedD simp: insert_rule_def Let_def typed_rules plan_keys_ok_def list_ex_iff
      split: if_splits sum.splits option.splits) blast+
lemma single_hit: "single (filter hit xs) = Inr x \<Longrightarrow> y \<in> set xs \<Longrightarrow> hit y \<Longrightarrow> y = x"
  by (auto simp: single_def filter_eq_Cons_iff split: list.splits dest: arg_cong [where f = set])

lemma typed_update_goal:
  assumes s: "plan_typed s" and f: "update_goal_row W uid i ws dto n s = Inr (g', t)"
  shows "plan_typed t"
proof -
  obtain hit d g where t: "t = s\<lparr>savings_goals := map (\<lambda>x. if hit x then patched_goal dto n d x else x) (savings_goals s)\<rparr>"
    and g: "single (filter hit (savings_goals s)) = Inr g" "goal_ok s (patched_goal dto n d g) = None"
    using f by (auto simp: update_goal_row_def Let_def split: sum.splits option.splits)
  have "list_all (\<lambda>g. goal_ok s g = None) (savings_goals t)"
    unfolding t using typedD [OF s] single_hit [OF g(1)] g(2) by (auto intro!: list_all_patch)
  moreover have "map sg_id (savings_goals t) = map sg_id (savings_goals s)" by (simp add: t patched_goal_def)
  ultimately show ?thesis using typedD [OF s] by (simp add: t typed_goals plan_keys_ok_def del: map_map)
qed

lemma typed_update_event:
  assumes s: "plan_typed s" and f: "update_event_row W uid i ws dto n due s = Inr (e', t)"
  shows "plan_typed t"
proof -
  obtain hit d e where t: "t = s\<lparr>calendar_events := map (\<lambda>x. if hit x then patched_event dto n d x else x) (calendar_events s)\<rparr>"
    and e: "single (filter hit (calendar_events s)) = Inr e" "event_ok s (patched_event dto n d e) = None"
    using f by (auto simp: update_event_row_def Let_def split: sum.splits option.splits)
  have "list_all (\<lambda>e. event_ok s e = None) (calendar_events t)"
    unfolding t using typedD [OF s] single_hit [OF e(1)] e(2) by (auto intro!: list_all_patch)
  moreover have "map ce_id (calendar_events t) = map ce_id (calendar_events s)" by (simp add: t patched_event_def)
  ultimately show ?thesis using typedD [OF s] by (simp add: t typed_events plan_keys_ok_def del: map_map)
qed

lemma typed_update_rule:
  assumes s: "plan_typed s" and f: "update_rule_row uid i ws st s = Inr (r', t)"
  shows "plan_typed t"
proof -
  obtain hit where t: "t = s\<lparr>recurring_rules := map (\<lambda>x. if hit x then x\<lparr>rr_status := st\<rparr> else x) (recurring_rules s)\<rparr>"
    using f by (auto simp: update_rule_row_def Let_def split: sum.splits)
  have "rule_ok s (r\<lparr>rr_status := st\<rparr>) = rule_ok s r" for r
    by (simp add: rule_ok_def cong: option.case_cong)
  then have "list_all (\<lambda>r. rule_ok s r = None) (recurring_rules t)"
    unfolding t using typedD [OF s] by (auto intro!: list_all_patch simp: list_all_iff)
  moreover have "map rr_id (recurring_rules t) = map rr_id (recurring_rules s)" by (simp add: t)
  ultimately show ?thesis using typedD [OF s] by (simp add: t typed_rules plan_keys_ok_def del: map_map)
qed

lemma typed_upsert_debt:
  assumes s: "plan_typed s" and f: "upsert_debt_row uid d s = Inr (d', t)"
  shows "plan_typed t"
proof -
  let ?same = "\<lambda>x. dd_ledger_account_id x = dd_ledger_account_id d"
  have t: "t = s\<lparr>debts := (if list_ex ?same (debts s) then map (\<lambda>x. if ?same x then d else x) (debts s) else debts s @ [d])\<rparr>"
    and ok: "debt_ok s d = None"
    using f by (auto simp: upsert_debt_row_def Let_def split: if_splits option.splits)
  have "list_all (\<lambda>d. debt_ok s d = None) (map (\<lambda>x. if ?same x then (\<lambda>_. d) x else x) (debts s))"
    using typedD [OF s] ok by (intro list_all_patch) auto
  moreover have "map dd_ledger_account_id (map (\<lambda>x. if ?same x then d else x) (debts s)) = map dd_ledger_account_id (debts s)"
    by (auto simp: if_distrib)
  ultimately show ?thesis
    using typedD [OF s] ok by (auto simp: t typed_debts plan_keys_ok_def list_ex_iff image_iff simp del: map_map)
qed

text \<open>The statement that deletes a rule also cuts the reference of its events.\<close>

lemma typed_delete_rule:
  assumes s: "plan_typed s" and f: "delete_rule_rows uid i ws s = Inr (ids, t)"
  shows "plan_typed t"
proof -
  obtain hit cut where t: "t = s\<lparr>recurring_rules := filter hit (recurring_rules s),
      calendar_events := map (\<lambda>e. case ce_recurring_rule_id e of None \<Rightarrow> e
          | Some r \<Rightarrow> if r \<in> cut then e\<lparr>ce_recurring_rule_id := None\<rparr> else e) (calendar_events s)\<rparr>"
    using f by (auto simp: delete_rule_rows_def Let_def)
  have "map ce_id (calendar_events t) = map ce_id (calendar_events s)"
    by (auto simp: t split: option.split)
  moreover have "event_ok s (e\<lparr>ce_recurring_rule_id := None\<rparr>) = event_ok s e" for e by (simp add: event_ok_def)
  then have "list_all (\<lambda>e. event_ok s e = None) (calendar_events t)"
    using typedD [OF s] by (auto simp: t list_all_iff split: option.split)
  ultimately show ?thesis
    using typedD [OF s]
    by (auto simp: t typed_rule_gone plan_keys_ok_def list_all_iff simp del: map_map intro: distinct_map_filter)
qed

section \<open>Every handler keeps the types\<close>

interpretation plan_types: plan_statements plan_typed
proof unfold_locales
  fix s W
  assume "plan_typed s"
  then show "plan_typed (pl_base_update drop_fault s)" "plan_typed (snd (plan_uuid W s))"
    by (simp_all add: plan_typed_def plan_rows_ok_def plan_keys_ok_def plan_uuid_def drop_fault_def
        ok_same_base [of "pl_base_update f s" s for f])
qed (fact typed_update_budget typed_insert_budget typed_clear_lines typed_insert_lines typed_delete_budget
    typed_insert_goal typed_update_goal typed_delete_goal typed_upsert_debt typed_delete_debt
    typed_insert_event typed_update_event typed_delete_event typed_insert_rule typed_update_rule typed_delete_rule)+



end
