(* ===== verification/JsFloat.thy ===== *)
theory JsFloat
  imports JsNumber
begin

text \<open>
  Division and multiplication of JavaScript numbers. A positive \<open>number\<close> in the normal range is a
  rational with a 53-bit significand; the result of an operation is the exact rational result
  rounded to the nearest such number, ties to even, which is \<open>dbl_rat\<close>. Underflow and overflow
  are outside the range of the values here (quotients of amounts below \<open>2 ^ 53\<close>, times 100).
\<close>

definition round_even :: "rat \<Rightarrow> int" where
  "round_even x = (let f = \<lfloor>x\<rfloor>; r = x - of_int f in if r < 1 / 2 \<or> (r = 1 / 2 \<and> even f) then f else f + 1)"

text \<open>The exponent of the last place: the significand \<open>q / 2 ^ e\<close> is between \<open>2 ^ 52\<close> and \<open>2 ^ 53\<close>.\<close>

definition dbl_exp :: "rat \<Rightarrow> int" where
  "dbl_exp q =
     (let (n, d) = quotient_of q; e = int (floorlog 2 (nat n)) - int (floorlog 2 (nat d)) - 53 in
      if 2 ^ 53 * 2 powi e \<le> q then e + 1 else e)"

definition dbl_pos :: "rat \<Rightarrow> rat" where
  "dbl_pos q = (let e = dbl_exp q in of_int (round_even (q / 2 powi e)) * 2 powi e)"

definition dbl_rat :: "rat \<Rightarrow> rat" where
  "dbl_rat q = (if q = 0 then 0 else if q < 0 then - dbl_pos (- q) else dbl_pos q)"

lemma round_even_near: "\<bar>of_int (round_even x) - x\<bar> \<le> 1 / 2"
  unfolding round_even_def Let_def by (auto simp: abs_if) linarith+

lemma round_even_ge:
  assumes "of_int k \<le> x"
  shows "k \<le> round_even x"
proof -
  have "k \<le> \<lfloor>x\<rfloor>" using assms by (simp add: le_floor_iff)
  then show ?thesis by (simp add: round_even_def Let_def)
qed

lemma round_even_le:
  assumes "x \<le> of_int k"
  shows "round_even x \<le> k"
proof (cases "\<lfloor>x\<rfloor> = k")
  case True
  then have "x = of_int k" using assms of_int_floor_le [of x] by simp
  then show ?thesis by (simp add: round_even_def)
next
  case False
  then have "\<lfloor>x\<rfloor> + 1 \<le> k" using assms floor_mono [OF assms] by simp
  then show ?thesis by (simp add: round_even_def Let_def)
qed

lemma floorlog_rat_bounds:
  assumes "0 < n"
  shows "2 powi (int (floorlog 2 n) - 1) \<le> (of_nat n :: rat)" "(of_nat n :: rat) < 2 powi int (floorlog 2 n)"
proof -
  have b: "2 ^ (floorlog 2 n - 1) \<le> n" "n < 2 ^ floorlog 2 n"
    using assms floorlog_bounds [of n 2] by auto
  have pos: "0 < floorlog 2 n" using assms b(2) by (cases "floorlog 2 n = 0") auto
  have "(2 ^ (floorlog 2 n - 1) :: rat) \<le> of_nat n"
    using b(1) by (metis of_nat_le_iff of_nat_numeral of_nat_power)
  moreover have "int (floorlog 2 n) - 1 = int (floorlog 2 n - 1)" using pos by simp
  ultimately show "2 powi (int (floorlog 2 n) - 1) \<le> (of_nat n :: rat)" by (simp only: power_int_of_nat)
  have "(of_nat n :: rat) < 2 ^ floorlog 2 n"
    using b(2) by (metis of_nat_less_iff of_nat_numeral of_nat_power)
  then show "(of_nat n :: rat) < 2 powi int (floorlog 2 n)" by simp
qed

lemma powi_shift: "(2::rat) powi (numeral m + e) = 2 ^ numeral m * 2 powi e"
  by (subst power_int_add) simp_all

lemma powi_sum: "(2::rat) powi (a + b) = 2 powi a * 2 powi b"
  by (rule power_int_add) simp

lemma dbl_exp_bounds:
  assumes "0 < q"
  shows "2 ^ 52 * 2 powi dbl_exp q \<le> q" "q < 2 ^ 53 * 2 powi dbl_exp q"
proof -
  obtain n d where nd: "quotient_of q = (n, d)" by fastforce
  then have d: "0 < d" and q: "q = of_int n / of_int d" by (auto intro: quotient_of_denom_pos quotient_of_div)
  have n: "0 < n" using assms d by (auto simp: q zero_less_divide_iff)
  define a b where "a = int (floorlog 2 (nat n))" and "b = int (floorlog 2 (nat d))"
  have na: "2 powi (a - 1) \<le> (of_int n :: rat)" "(of_int n :: rat) < 2 powi a"
    using floorlog_rat_bounds [of "nat n"] n by (simp_all add: a_def)
  have db: "2 powi (b - 1) \<le> (of_int d :: rat)" "(of_int d :: rat) < 2 powi b"
    using floorlog_rat_bounds [of "nat d"] d by (simp_all add: b_def)
  define e where "e = a - b - 53"
  have low: "2 ^ 52 * 2 powi e \<le> q"
  proof -
    have "2 ^ 52 * (2::rat) powi e * 2 powi b = 2 powi (52 + (e + b))"
      by (simp only: powi_shift powi_sum [of e] mult.assoc)
    also have "\<dots> = 2 powi (a - 1)" by (simp add: e_def)
    finally have eq: "2 ^ 52 * (2::rat) powi e * 2 powi b = 2 powi (a - 1)" .
    have "2 ^ 52 * (2::rat) powi e * of_int d \<le> 2 ^ 52 * 2 powi e * 2 powi b"
      using db(2) by (intro mult_left_mono) auto
    then have "2 ^ 52 * (2::rat) powi e * of_int d \<le> of_int n" using na(1) unfolding eq by (rule order_trans)
    then show ?thesis using d by (simp add: q pos_le_divide_eq)
  qed
  have high: "q < 2 ^ 54 * 2 powi e"
  proof -
    have "2 ^ 54 * (2::rat) powi e * 2 powi (b - 1) = 2 powi (54 + (e + (b - 1)))"
      by (simp only: powi_shift powi_sum [of e] mult.assoc)
    also have "\<dots> = 2 powi a" by (simp add: e_def)
    finally have eq: "2 ^ 54 * (2::rat) powi e * 2 powi (b - 1) = 2 powi a" .
    have "2 ^ 54 * (2::rat) powi e * 2 powi (b - 1) \<le> 2 ^ 54 * 2 powi e * of_int d"
      using db(1) by (intro mult_left_mono) auto
    then have "of_int n < 2 ^ 54 * (2::rat) powi e * of_int d" using na(2) unfolding eq by (rule less_le_trans [rotated])
    then show ?thesis using d by (simp add: q pos_divide_less_eq)
  qed
  have ex: "dbl_exp q = (if 2 ^ 53 * 2 powi e \<le> q then e + 1 else e)"
    by (simp add: dbl_exp_def nd Let_def e_def a_def b_def)
  have step: "(2::rat) powi (e + 1) = 2 * 2 powi e" by (simp add: power_int_add)
  show "2 ^ 52 * 2 powi dbl_exp q \<le> q" "q < 2 ^ 53 * 2 powi dbl_exp q"
    using low high by (auto simp: ex step)
qed

lemma dbl_pos_error:
  assumes "0 < q"
  shows "\<bar>dbl_pos q - q\<bar> \<le> q / 2 ^ 53"
proof -
  define e where "e = dbl_exp q"
  have p: "0 < (2::rat) powi e" by simp
  have "dbl_pos q - q = (of_int (round_even (q / 2 powi e)) - q / 2 powi e) * 2 powi e"
    by (simp add: dbl_pos_def Let_def e_def algebra_simps)
  then have "\<bar>dbl_pos q - q\<bar> = \<bar>of_int (round_even (q / 2 powi e)) - q / 2 powi e\<bar> * 2 powi e"
    by (simp add: abs_mult)
  also have "\<dots> \<le> 1 / 2 * 2 powi e" using round_even_near p by (intro mult_right_mono) auto
  also have "\<dots> \<le> q / 2 ^ 53" using dbl_exp_bounds(1) [OF assms] by (simp add: e_def)
  finally show ?thesis .
qed

text \<open>A rational with a 53-bit significand, and on which side of it a value is rounded to.\<close>

definition is_double :: "rat \<Rightarrow> bool" where
  "is_double r \<longleftrightarrow> (\<exists>m k. r = of_int m * 2 powi k \<and> 0 < m \<and> m \<le> 2 ^ 53)"

lemma double_on_grid:
  assumes "is_double r" and "2 ^ 52 * 2 powi e \<le> r"
  obtains i where "r = of_int i * 2 powi e"
proof -
  obtain m k where r: "r = of_int m * 2 powi k" and m: "0 < m" "m \<le> 2 ^ 53"
    using assms(1) by (auto simp: is_double_def)
  have "(of_int m :: rat) \<le> 2 ^ 53" using m(2) by (metis of_int_le_iff of_int_numeral of_int_power)
  then have "r \<le> 2 ^ 53 * 2 powi k" by (simp add: r)
  then have "(2::rat) powi (52 + e) \<le> 2 powi (53 + k)"
    using assms(2) by (simp only: powi_shift order_trans)
  then have "52 + e \<le> 53 + k"
    using power_int_strict_increasing [of "53 + k" "52 + e" "2 :: rat"] by (cases "52 + e \<le> 53 + k") auto
  then consider "e \<le> k" | "k = e - 1" by linarith
  then show ?thesis
  proof cases
    case 1
    then have "(2::rat) powi k = 2 powi (k - e) * 2 powi e" by (simp add: power_int_diff)
    moreover have "(2::rat) powi (k - e) = of_int (2 ^ nat (k - e))" using 1 by (simp add: power_int_def)
    ultimately have "r = of_int (m * 2 ^ nat (k - e)) * 2 powi e" by (simp add: r)
    then show ?thesis by (rule that)
  next
    case 2
    then have half: "(2::rat) powi k = 2 powi e / 2" by (simp add: power_int_diff)
    have "2 ^ 52 * 2 powi e \<le> (of_int m :: rat) * (2 powi e / 2)" using assms(2) by (simp add: r half)
    then have "(2 ^ 53 :: rat) \<le> of_int m" by simp
    then have "m = 2 ^ 53" using m(2) by (metis antisym of_int_le_iff of_int_numeral of_int_power)
    then have "r = of_int (2 ^ 52) * 2 powi e" by (simp add: r half)
    then show ?thesis by (rule that)
  qed
qed

lemma dbl_pos_ge:
  assumes r: "is_double r" and le: "r \<le> q"
  shows "r \<le> dbl_pos q"
proof -
  have "0 < r" using r by (auto simp: is_double_def)
  then have q: "0 < q" using le by simp
  define e where "e = dbl_exp q"
  have p: "0 < (2::rat) powi e" by simp
  show ?thesis
  proof (cases "2 ^ 52 * 2 powi e \<le> r")
    case True
    then obtain i where i: "r = of_int i * 2 powi e" using double_on_grid [OF r] by blast
    then have "of_int i \<le> q / 2 powi e" using le p by (simp add: pos_le_divide_eq)
    then have "i \<le> round_even (q / 2 powi e)" by (rule round_even_ge)
    then show ?thesis using p by (simp add: i dbl_pos_def Let_def e_def)
  next
    case False
    have "of_int (2 ^ 52) \<le> q / 2 powi e"
      using dbl_exp_bounds(1) [OF q] p by (simp add: e_def pos_le_divide_eq)
    then have "2 ^ 52 \<le> round_even (q / 2 powi e)" by (rule round_even_ge)
    then have "(of_int (2 ^ 52) :: rat) * 2 powi e \<le> dbl_pos q"
      unfolding dbl_pos_def Let_def e_def [symmetric] using p by (intro mult_right_mono) (simp_all only: of_int_le_iff less_imp_le)
    then show ?thesis using False by simp
  qed
qed

lemma dbl_pos_le:
  assumes r: "is_double r" and q: "0 < q" and le: "q \<le> r"
  shows "dbl_pos q \<le> r"
proof -
  define e where "e = dbl_exp q"
  have p: "0 < (2::rat) powi e" by simp
  have "2 ^ 52 * 2 powi e \<le> r" using dbl_exp_bounds(1) [OF q] le by (simp add: e_def)
  then obtain i where i: "r = of_int i * 2 powi e" using double_on_grid [OF r] by blast
  then have "q / 2 powi e \<le> of_int i" using le p by (simp add: pos_divide_le_eq)
  then have "round_even (q / 2 powi e) \<le> i" by (rule round_even_le)
  then show ?thesis using p by (simp add: i dbl_pos_def Let_def e_def)
qed

lemma is_double_int: "0 < n \<Longrightarrow> n \<le> 2 ^ 53 \<Longrightarrow> is_double (of_int n)"
  unfolding is_double_def by (intro exI [of _ n] exI [of _ 0]) simp

lemma dbl_rat_int:
  assumes "0 \<le> n" and "n \<le> 2 ^ 53"
  shows "dbl_rat (of_int n) = of_int n"
proof (cases "n = 0")
  case False
  then have "is_double (of_int n)" using assms by (intro is_double_int) auto
  then have "dbl_pos (of_int n) = of_int n"
    using False assms by (intro antisym dbl_pos_ge dbl_pos_le) auto
  then show ?thesis using False assms by (simp add: dbl_rat_def)
qed (simp add: dbl_rat_def)

end
