(* ===== verification/NotifyRules.thy ===== *)
theory NotifyRules
  imports JsFloat Json
begin

text \<open>
  The rules of the notification service (\<^verbatim>\<open>notifications.service.ts\<close>, its DTO): categories and
  their default channels, preferences, quiet hours, the retry delay, the escaping of the mail, and
  the thresholds at which a budget or a goal is worth a notification.
\<close>

section \<open>Categories, severities, preferences\<close>

datatype NotificationCategory =
    N_security | N_budget | N_goal | N_recurring | N_transaction | N_sync | N_account | N_system | N_operator

datatype NotificationSeverity = SEV_INFO | SEV_SUCCESS | SEV_WARNING | SEV_CRITICAL

datatype Digest = D_NONE | D_DAILY | D_WEEKLY

definition NOTIFICATION_CATEGORIES :: "NotificationCategory list" where
  "NOTIFICATION_CATEGORIES =
     [N_security, N_budget, N_goal, N_recurring, N_transaction, N_sync, N_account, N_system, N_operator]"

record preference =
  pr_category :: NotificationCategory
  pr_in_app :: bool
  pr_push :: bool
  pr_email :: bool
  pr_digest :: Digest

fun DEFAULTS :: "NotificationCategory \<Rightarrow> bool \<times> bool \<times> bool \<times> Digest" where
  "DEFAULTS N_security = (True, True, True, D_NONE)"
| "DEFAULTS N_budget = (True, True, False, D_NONE)"
| "DEFAULTS N_goal = (True, True, False, D_NONE)"
| "DEFAULTS N_recurring = (True, True, False, D_NONE)"
| "DEFAULTS N_transaction = (True, False, False, D_NONE)"
| "DEFAULTS N_sync = (True, True, False, D_NONE)"
| "DEFAULTS N_account = (True, False, True, D_NONE)"
| "DEFAULTS N_system = (True, False, False, D_NONE)"
| "DEFAULTS N_operator = (True, True, True, D_NONE)"

definition default_preference :: "NotificationCategory \<Rightarrow> preference" where
  "default_preference c = (case DEFAULTS c of (i, p, e, d) \<Rightarrow>
     \<lparr>pr_category = c, pr_in_app = i, pr_push = p, pr_email = e, pr_digest = d\<rparr>)"

definition resolvePreference :: "NotificationCategory \<Rightarrow> preference option \<Rightarrow> preference" where
  "resolvePreference c stored =
     (if c = N_security then default_preference c
      else case stored of None \<Rightarrow> default_preference c | Some p \<Rightarrow> p\<lparr>pr_category := c\<rparr>)"

definition suppressionReason :: "bool \<Rightarrow> bool \<Rightarrow> bool \<Rightarrow> string option" where
  "suppressionReason enabled quiet digesting =
     (if \<not> enabled then Some ''Disabled by user preference''
      else if digesting then Some ''Deferred to digest''
      else if quiet then Some ''Suppressed during quiet hours'' else None)"

section \<open>Retries\<close>

definition MAX_DELIVERY_ATTEMPTS :: nat where "MAX_DELIVERY_ATTEMPTS = 5"
definition DELIVERY_LEASE_SECONDS :: int where "DELIVERY_LEASE_SECONDS = 300"
definition DELIVERY_TIMEOUT_MS :: int where "DELIVERY_TIMEOUT_MS = 30000"

definition deliveryBackoffSeconds :: "nat \<Rightarrow> int" where
  "deliveryBackoffSeconds attempts = min (30 * 2 ^ (attempts - 1)) (60 * 60)"

section \<open>Quiet hours\<close>

text \<open>
  \<open>value.split(':').map(Number)\<close>, the first two parts; \<open>None\<close> is \<open>NaN\<close>. The column is a
  PostgreSQL \<open>TIME\<close>, so the parts are digits.
\<close>

definition time_part :: "string list \<Rightarrow> nat \<Rightarrow> int option" where
  "time_part parts i =
     (if i < length parts \<and> list_all is_digit (parts ! i) then Some (int (digits_val (parts ! i))) else None)"

definition toMinutes :: "string \<Rightarrow> int option" where
  "toMinutes v =
     (let parts = js_split CHR '':'' v in
      case (time_part parts 0, time_part parts 1) of (Some hour, Some minute) \<Rightarrow> Some (hour * 60 + minute) | _ \<Rightarrow> None)"

text \<open>Comparisons with \<open>NaN\<close> are false.\<close>

definition num_le :: "int option \<Rightarrow> int option \<Rightarrow> bool" where
  "num_le a b = (case (a, b) of (Some x, Some y) \<Rightarrow> x \<le> y | _ \<Rightarrow> False)"

definition num_less :: "int option \<Rightarrow> int option \<Rightarrow> bool" where
  "num_less a b = (case (a, b) of (Some x, Some y) \<Rightarrow> x < y | _ \<Rightarrow> False)"

record quiet_profile =
  qp_start :: "string option"
  qp_end :: "string option"
  qp_tz :: "string option"

text \<open>
  \<open>local_time tz\<close> is the hour and minute \<open>Intl.DateTimeFormat\<close> gives for the current time in
  that zone, \<open>None\<close> when the zone is unknown and the constructor throws.
\<close>

definition isInQuietHours :: "(string \<Rightarrow> (int \<times> int) option) \<Rightarrow> quiet_profile option \<Rightarrow> bool" where
  "isInQuietHours local_time profile =
     (case profile of
        None \<Rightarrow> False
      | Some p \<Rightarrow>
          (case (truthy (qp_start p), truthy (qp_end p)) of
             (Some start_text, Some end_text) \<Rightarrow>
               (case local_time (case qp_tz p of None \<Rightarrow> ''UTC'' | Some z \<Rightarrow> z) of
                  None \<Rightarrow> False
                | Some (hour, minute) \<Rightarrow>
                    let now = Some (hour * 60 + minute); start = toMinutes start_text; stop = toMinutes end_text in
                    if num_le start stop then num_le start now \<and> num_less now stop
                    else num_le start now \<or> num_less now stop)
           | _ \<Rightarrow> False))"

section \<open>Escaping\<close>

definition escape_html_char :: "char \<Rightarrow> string" where
  "escape_html_char c =
     (if c = CHR ''&'' then ''&amp;'' else if c = CHR ''<'' then ''&lt;'' else if c = CHR ''>'' then ''&gt;''
      else if c = CHR 34 then ''&quot;'' else if c = CHR 39 then ''&#39;'' else [c])"

definition escapeHtml :: "string \<Rightarrow> string" where
  "escapeHtml v = concat (map escape_html_char v)"

section \<open>Thresholds\<close>

text \<open>
  A \<open>number\<close> read from an aggregation is an integer below \<open>2 ^ 53\<close> or, for text that is no
  number, \<open>NaN\<close> (\<open>None\<close>); so is a percentage.
\<close>

definition percent_of :: "int option \<Rightarrow> int option \<Rightarrow> int option" where
  "percent_of part whole =
     (case (part, whole) of
        (Some p, Some w) \<Rightarrow> Some \<lfloor>dbl_rat (dbl_rat (of_int p / of_int w) * 100)\<rfloor>
      | _ \<Rightarrow> None)"

definition below_fraction :: "int option \<Rightarrow> int option \<Rightarrow> rat \<Rightarrow> bool" where
  "below_fraction part whole f =
     (case (part, whole) of (Some p, Some w) \<Rightarrow> of_int p < of_int w * f | _ \<Rightarrow> False)"

definition num_max :: "int \<Rightarrow> int option \<Rightarrow> int option" where
  "num_max a b = (case b of None \<Rightarrow> None | Some y \<Rightarrow> Some (max a y))"

definition budget_threshold :: "int option \<Rightarrow> int option \<Rightarrow> int option" where
  "budget_threshold percent configured =
     (if num_le (Some 100) percent then Some 100
      else if num_le (num_max 80 configured) percent then num_max 80 configured
      else Some 50)"

definition goal_milestone :: "int option \<Rightarrow> int" where
  "goal_milestone percent =
     (if num_le (Some 100) percent then 100 else if num_le (Some 75) percent then 75
      else if num_le (Some 50) percent then 50 else 25)"

text \<open>What a budget line is worth: nothing, or its percentage and the threshold that names the alert.\<close>

definition budget_alert :: "int option \<Rightarrow> int option \<Rightarrow> int option \<Rightarrow> (int option \<times> int option) option" where
  "budget_alert planned spent configured =
     (if num_le planned (Some 0) \<or> below_fraction spent planned (1 / 2) then None
      else let percent = percent_of spent planned in Some (percent, budget_threshold percent configured))"

definition goal_alert :: "int option \<Rightarrow> int option \<Rightarrow> (int option \<times> int) option" where
  "goal_alert target current =
     (if num_le target (Some 0) \<or> below_fraction current target (1 / 4) then None
      else let percent = percent_of current target in Some (percent, goal_milestone percent))"

section \<open>Properties of the rules\<close>

text \<open>
  Quiet hours are the half-open interval from start to end on the circle of the day: a time is
  quiet exactly when it is fewer minutes after the start than the end is, so an interval may span
  midnight and one with equal ends is empty.
\<close>

theorem quiet_hours_circular:
  assumes "toMinutes a = Some start" "0 \<le> start" "start < 1440" and "toMinutes b = Some stop" "0 \<le> stop" "stop < 1440"
    and "local_time zone = Some (h, m)" "0 \<le> h" "h < 24" "0 \<le> m" "m < 60" and "a \<noteq> []" "b \<noteq> []"
  shows "isInQuietHours local_time (Some \<lparr>qp_start = Some a, qp_end = Some b, qp_tz = Some zone\<rparr>)
    = ((h * 60 + m - start) mod 1440 < (stop - start) mod 1440)"
proof -
  define now where "now = h * 60 + m"
  have range: "0 \<le> now" "now < 1440" using assms by (simp_all add: now_def)
  have wrap: "x mod 1440 = (if 0 \<le> x then x else x + 1440)" if "-1440 < x" "x < 1440" for x :: int
    using that mod_pos_pos_trivial [of x 1440] mod_pos_pos_trivial [of "x + 1440" 1440] by auto
  have "isInQuietHours local_time (Some \<lparr>qp_start = Some a, qp_end = Some b, qp_tz = Some zone\<rparr>)
      = (if start \<le> stop then start \<le> now \<and> now < stop else start \<le> now \<or> now < stop)"
    using assms by (cases a; cases b) (simp_all add: isInQuietHours_def truthy_def num_le_def num_less_def now_def)
  also have "\<dots> = ((now - start) mod 1440 < (stop - start) mod 1440)"
    using wrap [of "now - start"] wrap [of "stop - start"] range assms(2,3,5,6) by (auto split: if_splits)
  finally show ?thesis by (simp add: now_def)
qed

theorem quiet_hours_circular_witness:
  "isInQuietHours (\<lambda>z. Some (23, 30)) (Some \<lparr>qp_start = Some ''22:00'', qp_end = Some ''07:00'', qp_tz = Some ''UTC''\<rparr>)
    = ((23 * 60 + 30 - 22 * 60) mod 1440 < (7 * 60 - 22 * 60) mod (1440 :: int))"
  by (rule quiet_hours_circular [where zone = "''UTC''"])
    (simp_all add: toMinutes_def time_part_def is_digit_def digits_val_def digit_val_def)

text \<open>What a reader of the mail sees again: the five entities are the characters they stand for.\<close>

fun unescape_html :: "string \<Rightarrow> string" where
  "unescape_html [] = []"
| "unescape_html (c # s) =
     (if c = CHR ''&'' then
        if starts_with s ''amp;'' then CHR ''&'' # unescape_html (drop 4 s)
        else if starts_with s ''lt;'' then CHR ''<'' # unescape_html (drop 3 s)
        else if starts_with s ''gt;'' then CHR ''>'' # unescape_html (drop 3 s)
        else if starts_with s ''quot;'' then CHR 34 # unescape_html (drop 5 s)
        else if starts_with s ''#39;'' then CHR 39 # unescape_html (drop 4 s)
        else c # unescape_html s
      else c # unescape_html s)"

lemma unescape_char: "unescape_html (escape_html_char c @ s) = c # unescape_html s"
  by (simp add: escape_html_char_def)

definition markup :: "char \<Rightarrow> bool" where
  "markup c \<longleftrightarrow> c \<in> {CHR ''<'', CHR ''>'', CHR 34, CHR 39}"

lemma escaped_char_safe: "x \<in> set (escape_html_char c) \<Longrightarrow> \<not> markup x"
  by (auto simp: escape_html_char_def markup_def split: if_splits)

text \<open>
  Text put into the mail body cannot open a tag or leave an attribute, and is read back
  unchanged: the escaped text has no angle bracket and no quote, and unescaping it gives the text.
\<close>

theorem escapeHtml_roundtrip:
  "unescape_html (escapeHtml v) = v \<and> list_all (\<lambda>c. \<not> markup c) (escapeHtml v)"
proof
  show "unescape_html (escapeHtml v) = v"
    by (induction v) (simp_all add: escapeHtml_def unescape_char)
  show "list_all (\<lambda>c. \<not> markup c) (escapeHtml v)"
    by (auto simp: escapeHtml_def list_all_iff dest: escaped_char_safe)
qed

section \<open>Percentages in floating point\<close>

lemma dbl_rat_pos: "0 < q \<Longrightarrow> dbl_rat q = dbl_pos q"
  by (simp add: dbl_rat_def)

lemma one_le_double: "1 \<le> q \<Longrightarrow> 1 \<le> dbl_pos q"
  using dbl_pos_ge [of 1 q] is_double_int [of 1] by simp

lemma percent_reaches_100:
  assumes "0 < w" and "w \<le> p"
  shows "100 \<le> \<lfloor>dbl_rat (dbl_rat (of_int p / of_int w) * 100)\<rfloor>"
proof -
  have "(1 :: rat) \<le> of_int p / of_int w" using assms by simp
  then have a: "1 \<le> dbl_pos (of_int p / of_int w)" by (rule one_le_double)
  have "is_double (of_int 100)" by (rule is_double_int) simp_all
  then have "100 \<le> dbl_pos (dbl_pos (of_int p / of_int w) * 100)"
    using dbl_pos_ge [of 100] a by simp
  moreover have "0 < (of_int p :: rat) / of_int w" using assms by simp
  ultimately show ?thesis using a by (simp add: dbl_rat_pos le_floor_iff)
qed

lemma percent_below_100:
  assumes "0 < p" and "p < w" and "w \<le> 2 ^ 53"
  shows "\<lfloor>dbl_rat (dbl_rat (of_int p / of_int w) * 100)\<rfloor> < 100"
proof -
  define q :: rat where "q = of_int p / of_int w"
  define r :: rat where "r = of_int (2 ^ 53 - 1) * 2 powi (- 53)"
  have r: "r = 1 - 1 / 2 ^ 53" by (simp add: r_def power_int_minus)
  have q: "0 < q" using assms by (simp add: q_def)
  have w: "0 < w" using assms by simp
  have "(of_int w :: rat) \<le> 2 ^ 53" using assms(3) by (metis of_int_le_iff of_int_numeral of_int_power)
  then have inv: "(1 :: rat) / 2 ^ 53 \<le> 1 / of_int w" using w by (intro frac_le) simp_all
  have "p \<le> w - 1" using assms(2) by simp
  then have "(of_int p :: rat) \<le> of_int (w - 1)" by (rule of_int_le_iff [THEN iffD2])
  then have "q \<le> of_int (w - 1) / of_int w" using w unfolding q_def by (intro divide_right_mono) auto
  also have "\<dots> = 1 - 1 / of_int w" using w by (simp add: diff_divide_distrib)
  also have "\<dots> \<le> r" unfolding r by (intro diff_left_mono inv)
  finally have "q \<le> r" .
  moreover have "is_double r" unfolding is_double_def r_def by (rule exI, rule exI, rule conjI, rule refl) simp
  ultimately have le: "dbl_pos q \<le> r" using q dbl_pos_le by blast
  have "q / 2 ^ 53 < q" using q by simp
  then have "\<bar>dbl_pos q - q\<bar> < q" using dbl_pos_error [OF q] by (rule le_less_trans [rotated])
  then have pos: "0 < dbl_pos q * 100" by (simp add: abs_less_iff)
  have "dbl_pos (dbl_pos q * 100) \<le> dbl_pos q * 100 + dbl_pos q * 100 / 2 ^ 53"
    using abs_le_D1 [OF dbl_pos_error [OF pos]] by linarith
  also have "\<dots> \<le> r * 100 + r * 100 / 2 ^ 53" using le by simp
  also have "\<dots> < 100" by (simp add: r)
  finally show ?thesis using q pos by (simp add: q_def [symmetric] dbl_rat_pos floor_less_iff)
qed

text \<open>
   In spite of floating point a budget line raises an alert exactly from half of the planned
  amount on, and the alert is the "limit reached" one exactly when the whole amount is spent.
\<close>

theorem budget_alert_exact:
  assumes "0 < planned" "planned \<le> MAX_SAFE_INTEGER" and "0 \<le> spent" and "0 \<le> configured" "configured \<le> 100"
  shows "(budget_alert (Some planned) (Some spent) (Some configured) = None) = (2 * spent < planned)
     \<and> (case budget_alert (Some planned) (Some spent) (Some configured) of
          None \<Rightarrow> True | Some (_, threshold) \<Rightarrow> (threshold = Some 100) = (planned \<le> spent))"
proof
  let ?a = "budget_alert (Some planned) (Some spent) (Some configured)"
  have half: "below_fraction (Some spent) (Some planned) (1 / 2) = (2 * spent < planned)"
  proof -
    have "(of_int spent < (of_int planned :: rat) * (1 / 2)) = (of_int (2 * spent) < (of_int planned :: rat))"
      by simp linarith
    also have "\<dots> = (2 * spent < planned)" by (simp only: of_int_less_iff)
    finally show ?thesis by (simp add: below_fraction_def)
  qed
  show "(?a = None) = (2 * spent < planned)"
    using assms(1) by (simp add: budget_alert_def half num_le_def Let_def)
  show "case ?a of None \<Rightarrow> True | Some (_, threshold) \<Rightarrow> (threshold = Some 100) = (planned \<le> spent)"
  proof (cases "2 * spent < planned")
    case True
    then show ?thesis by (simp add: budget_alert_def half)
  next
    case False
    then have s: "0 < spent" using assms(1) by simp
    define percent where "percent = \<lfloor>dbl_rat (dbl_rat (of_int spent / of_int planned) * 100)\<rfloor>"
    have "(100 \<le> percent) = (planned \<le> spent)"
      using percent_reaches_100 [OF assms(1), of spent] percent_below_100 [OF s, of planned] assms(2)
      by (cases "planned \<le> spent") (auto simp: percent_def MAX_SAFE_INTEGER_def)
    then show ?thesis
      using False assms(1,4,5)
      by (auto simp: budget_alert_def half num_le_def Let_def percent_of_def percent_def [symmetric] budget_threshold_def num_max_def)
  qed
qed

theorem budget_alert_exact_witness:
  "(budget_alert (Some 1000) (Some 1050) (Some 80) = None) = (2 * 1050 < (1000 :: int))
     \<and> (case budget_alert (Some 1000) (Some 1050) (Some 80) of
          None \<Rightarrow> True | Some (_, threshold) \<Rightarrow> (threshold = Some 100) = (1000 \<le> (1050 :: int)))"
  by (rule budget_alert_exact) (simp_all add: MAX_SAFE_INTEGER_def)

text \<open>
   A threshold the user set below 80 per cent is never honoured: the alerts are those of 80.
\<close>

theorem low_thresholds_ignored:
  "budget_alert planned spent (Some (min configured 80)) = budget_alert planned spent (Some 80)"
proof -
  have "num_max 80 (Some (min configured 80)) = num_max 80 (Some 80)" by (simp add: num_max_def)
  then show ?thesis by (simp only: budget_alert_def budget_threshold_def)
qed

end
