(* ===== verification/Notifications.thy ===== *)
theory Notifications
  imports NotifyRules PlanningTypes Accounts
begin

text \<open>
  The notification service (\<^verbatim>\<open>notifications.service.ts\<close>): the durable notification with its
  deliveries, the user's notification centre and preferences, operator campaigns and templates,
  and the rules that raise notifications. The delivery worker is in \<^verbatim>\<open>Delivery\<close>.

  The tables of migrations 00022, 00023 and 00033 join those of the planning service. Times are
  milliseconds (a \<open>TIMESTAMPTZ\<close> written with \<open>toISOString\<close> and read back is the same instant);
  \<open>nt_clock\<close> is the one clock, \<open>nt_calls\<close> counts the calls to providers and \<open>nt_sent\<close> records
  the deliveries a provider accepted (both are not part of the program's state). Statements fail on the schedule of \<open>faults\<close>, which also stands for
  values PostgreSQL cannot read as the type of their column. The three parallel reads of \<open>create\<close>
  and the calls of a batch are taken in their order. Bengali texts are lists of code points.
\<close>

section \<open>Rows\<close>

type_synonym ucs = "nat list"
type_synonym time = int

datatype ProfileStatus = PF_ACTIVE | PF_SUSPENDED | PF_PENDING_DELETION

text \<open>The columns of a profile, and of a device, this service does not read.\<close>

record profile_columns =
  pc_display_name :: string
  pc_locale :: string
  pc_timezone :: string
  pc_base_currency :: string
  pc_week_starts_on :: int
  pc_amount_privacy_default :: bool
  pc_theme_preference :: string
  pc_onboarding_status :: string
  pc_persona :: "string option"
  pc_suspended_at :: "time option"
  pc_suspended_reason :: "string option"
  pc_deletion_requested_at :: "time option"
  pc_deletion_scheduled_for :: "time option"
  pc_created_at :: time
  pc_updated_at :: time

record profile =
  pf_id :: string
  pf_status :: ProfileStatus
  pf_is_super_admin :: bool
  pf_quiet :: quiet_profile
  pf_columns :: profile_columns

record device_columns =
  dc_device_id :: string
  dc_platform :: string
  dc_device_name :: "string option"
  dc_os_version :: "string option"
  dc_app_version :: "string option"
  dc_last_seen_at :: time
  dc_last_ip :: "string option"
  dc_first_seen_at :: time

record user_device =
  ud_id :: string
  ud_user_id :: string
  ud_push_token :: "string option"
  ud_push_provider :: "string option"
  ud_revoked_at :: "time option"
  ud_columns :: device_columns

record notification =
  nf_id :: string
  nf_user_id :: string
  nf_workspace_id :: "string option"
  nf_category :: NotificationCategory
  nf_severity :: NotificationSeverity
  nf_title_en :: string
  nf_title_bn :: "ucs option"
  nf_body_en :: string
  nf_body_bn :: "ucs option"
  nf_action_url :: "string option"
  nf_resource_type :: "string option"
  nf_resource_id :: "string option"
  nf_metadata :: json
  nf_dedupe_key :: "string option"
  nf_expires_at :: "string option"
  nf_read_at :: "time option"
  nf_archived_at :: "time option"
  nf_created_at :: time
  nf_deleted_at :: "time option"

datatype Channel = CH_in_app | CH_push | CH_email | CH_webpush
datatype DeliveryStatus = DLV_PENDING | DLV_SENT | DLV_DELIVERED | DLV_FAILED | DLV_SUPPRESSED

record delivery =
  dl_id :: string
  dl_notification_id :: string
  dl_device_id :: "string option"
  dl_channel :: Channel
  dl_status :: DeliveryStatus
  dl_provider_id :: "string option"
  dl_error :: "string option"
  dl_attempts :: nat
  dl_sent_at :: "time option"
  dl_created_at :: time
  dl_next_attempt_at :: time
  dl_lease_owner :: "string option"
  dl_lease_expires_at :: "time option"
  dl_last_attempt_at :: "time option"
  dl_dead_lettered_at :: "time option"

datatype Audience = AUD_ALL | AUD_OPERATORS
datatype CampaignStatus = CAMP_SCHEDULED | CAMP_PROCESSING | CAMP_SENT | CAMP_FAILED

record campaign =
  cp_id :: string
  cp_created_by :: string
  cp_audience :: Audience
  cp_category :: NotificationCategory
  cp_severity :: NotificationSeverity
  cp_title_en :: string
  cp_title_bn :: "ucs option"
  cp_body_en :: string
  cp_body_bn :: "ucs option"
  cp_action_url :: "string option"
  cp_scheduled_for :: time
  cp_expires_at :: "string option"
  cp_status :: CampaignStatus
  cp_recipient_count :: nat
  cp_error :: "string option"
  cp_created_at :: time

record template =
  tp_id :: string
  tp_key :: string
  tp_category :: NotificationCategory
  tp_title_en :: string
  tp_title_bn :: "ucs option"
  tp_body_en :: string
  tp_body_bn :: "ucs option"
  tp_action_url :: "string option"
  tp_created_by :: string

record audit_event =
  ae_actor_id :: string
  ae_action :: string
  ae_resource_type :: string
  ae_resource_id :: "string option"
  ae_metadata :: json

record notif_db =
  nt_plan :: plan_db
  nt_profiles :: "profile list"
  nt_devices :: "user_device list"
  nt_prefs :: "(string \<times> preference) list"
  notifications :: "notification list"
  deliveries :: "delivery list"
  campaigns :: "campaign list"
  templates :: "template list"
  alerts :: "(string \<times> bool \<times> string option) list"
  audit_events :: "audit_event list"
  nt_clock :: time
  nt_calls :: nat
  nt_sent :: "string list"

text \<open>
  What the service takes from outside: the planning world (ids, the aggregations of the database),
  the zone rules of \<open>Intl\<close>, the texts of instants, and base64url. \<open>pg_time\<close> is PostgreSQL reading a
  text as a time, \<open>date_parse_ok\<close> is \<open>!Number.isNaN(Date.parse(text))\<close>.
\<close>

record notif_world =
  nw_plan :: plan_world
  nw_local_time :: "time \<Rightarrow> string \<Rightarrow> (int \<times> int) option"
  nw_iso :: "time \<Rightarrow> string"
  nw_rendered :: "time \<Rightarrow> string"
  nw_pg_time :: "string \<Rightarrow> time option"
  nw_date_parse_ok :: "string \<Rightarrow> bool"
  nw_b64_encode :: "string \<Rightarrow> string"
  nw_b64_decode :: "string \<Rightarrow> string"

section \<open>Statements\<close>

definition nt_base :: "notif_db \<Rightarrow> db" where
  "nt_base s = pl_base (nt_plan s)"

definition nt_base_update :: "(db \<Rightarrow> db) \<Rightarrow> notif_db \<Rightarrow> notif_db" where
  "nt_base_update f s = nt_plan_update (pl_base_update f) s"

definition nt_stmt :: "(notif_db \<Rightarrow> pg_error + 'a \<times> notif_db) \<Rightarrow> (notif_db, pg_error + 'a) api" where
  "nt_stmt = fault_stmt nt_base nt_base_update"

definition nt_read :: "(notif_db \<Rightarrow> pg_error + 'a) \<Rightarrow> (notif_db, pg_error + 'a) api" where
  "nt_read q = nt_stmt (\<lambda>s. case q s of Inl e \<Rightarrow> Inl e | Inr x \<Rightarrow> Inr (x, s))"

definition nt_rows :: "(notif_db \<Rightarrow> 'r list) \<Rightarrow> (notif_db, pg_error + 'r list) api" where
  "nt_rows q = nt_read (\<lambda>s. Inr (take MAX_ROWS (q s)))"

text \<open>\<open>if (error) throw error\<close>.\<close>

definition or_throw :: "(notif_db, pg_error + 'a) api \<Rightarrow> (notif_db, 'a) api" where
  "or_throw m = api_bind m (\<lambda>r. case r of Inl e \<Rightarrow> api_throw (Js_error (pg_message e)) | Inr x \<Rightarrow> api_return x)"

text \<open>Ids the database gives to new rows.\<close>

definition new_ids :: "notif_world \<Rightarrow> nat \<Rightarrow> (notif_db, string list) api" where
  "new_ids W n s =
     (Inr (map (\<lambda>i. env_uuid (pw_env (nw_plan W)) (uuids (nt_base s) + i)) [0..<n]),
      nt_base_update (\<lambda>l. l\<lparr>uuids := uuids l + n\<rparr>) s)"

definition write_audit :: "audit_event \<Rightarrow> (notif_db, bool) api" where
  "write_audit e =
     api_bind (nt_stmt (\<lambda>s. Inr ((), s\<lparr>audit_events := audit_events s @ [e]\<rparr>))) (\<lambda>r.
     api_return (case r of Inl _ \<Rightarrow> False | Inr _ \<Rightarrow> True))"

section \<open>Creating a notification\<close>

record create_notification_input =
  ci_user_id :: string
  ci_workspace_id :: "string option"
  ci_category :: NotificationCategory
  ci_severity :: "NotificationSeverity option"
  ci_title_en :: string
  ci_title_bn :: "ucs option"
  ci_body_en :: string
  ci_body_bn :: "ucs option"
  ci_action_url :: "string option"
  ci_resource_type :: "string option"
  ci_resource_id :: "string option"
  ci_metadata :: "json option"
  ci_dedupe_key :: "string option"
  ci_expires_at :: "string option"

definition prefs_of :: "string \<Rightarrow> NotificationCategory \<Rightarrow> notif_db \<Rightarrow> preference list" where
  "prefs_of uid c s = [p. (u, p) \<leftarrow> nt_prefs s, u = uid \<and> pr_category p = c]"

definition push_devices :: "string \<Rightarrow> notif_db \<Rightarrow> user_device list" where
  "push_devices uid s = [d \<leftarrow> nt_devices s. ud_user_id d = uid \<and> ud_revoked_at d = None \<and> ud_push_token d \<noteq> None]"

definition notification_row ::
    "create_notification_input \<Rightarrow> preference \<Rightarrow> NotificationSeverity \<Rightarrow> string \<Rightarrow> time \<Rightarrow> notification" where
  "notification_row i pref severity nid now =
     \<lparr>nf_id = nid, nf_user_id = ci_user_id i, nf_workspace_id = ci_workspace_id i, nf_category = ci_category i,
      nf_severity = severity, nf_title_en = ci_title_en i, nf_title_bn = ci_title_bn i, nf_body_en = ci_body_en i,
      nf_body_bn = ci_body_bn i, nf_action_url = ci_action_url i, nf_resource_type = ci_resource_type i,
      nf_resource_id = ci_resource_id i,
      nf_metadata = (case ci_metadata i of None \<Rightarrow> JObj [] | Some m \<Rightarrow> m), nf_dedupe_key = ci_dedupe_key i,
      nf_expires_at = ci_expires_at i, nf_read_at = None,
      nf_archived_at = (if pr_in_app pref then None else Some now), nf_created_at = now, nf_deleted_at = None\<rparr>"

text \<open>\<open>idx_notif_dedupe\<close> and the primary key.\<close>

definition notification_conflicts :: "notification \<Rightarrow> notification \<Rightarrow> bool" where
  "notification_conflicts new old \<longleftrightarrow> nf_id new = nf_id old
     \<or> (nf_dedupe_key new \<noteq> None \<and> nf_user_id new = nf_user_id old \<and> nf_dedupe_key new = nf_dedupe_key old)"

definition insert_notification :: "notification \<Rightarrow> notif_db \<Rightarrow> pg_error + notification \<times> notif_db" where
  "insert_notification n s =
     (if list_ex (notification_conflicts n) (notifications s) then Inl (pg UNIQUE_VIOLATION)
      else Inr (n, s\<lparr>notifications := notifications s @ [n]\<rparr>))"

definition delivery_row :: "string \<Rightarrow> Channel \<Rightarrow> string option \<Rightarrow> DeliveryStatus \<Rightarrow> string option \<Rightarrow> time \<Rightarrow> delivery" where
  "delivery_row nid channel device status err now =
     \<lparr>dl_id = [], dl_notification_id = nid, dl_device_id = device, dl_channel = channel, dl_status = status,
      dl_provider_id = None, dl_error = err, dl_attempts = 0, dl_sent_at = None, dl_created_at = now,
      dl_next_attempt_at = now, dl_lease_owner = None, dl_lease_expires_at = None, dl_last_attempt_at = None,
      dl_dead_lettered_at = None\<rparr>"

definition in_app_delivery :: "preference \<Rightarrow> string \<Rightarrow> time \<Rightarrow> delivery" where
  "in_app_delivery pref nid now =
     (if pr_in_app pref then (delivery_row nid CH_in_app None DLV_SENT None now)\<lparr>dl_sent_at := Some now\<rparr>
      else delivery_row nid CH_in_app None DLV_SUPPRESSED (Some ''Disabled by user preference'') now)"

fun device_deliveries :: "preference \<Rightarrow> bool \<Rightarrow> bool \<Rightarrow> string \<Rightarrow> time \<Rightarrow> user_device list \<Rightarrow> delivery list" where
  "device_deliveries pref quiet digesting nid now [] = []"
| "device_deliveries pref quiet digesting nid now (d # ds) =
     (case (truthy (ud_push_token d), truthy (ud_push_provider d)) of
        (Some _, Some provider) \<Rightarrow>
          delivery_row nid (if provider = ''webpush'' then CH_webpush else CH_push) (Some (ud_id d))
            (if pr_push pref \<and> \<not> (quiet \<or> digesting) then DLV_PENDING else DLV_SUPPRESSED)
            (suppressionReason (pr_push pref) quiet digesting) now
          # device_deliveries pref quiet digesting nid now ds
      | _ \<Rightarrow> device_deliveries pref quiet digesting nid now ds)"

definition email_deliveries :: "preference \<Rightarrow> NotificationCategory \<Rightarrow> bool \<Rightarrow> bool \<Rightarrow> string \<Rightarrow> time \<Rightarrow> delivery list" where
  "email_deliveries pref c quiet digesting nid now =
     (if pr_email pref \<or> c = N_security
      then [delivery_row nid CH_email None (if \<not> (quiet \<or> digesting) then DLV_PENDING else DLV_SUPPRESSED)
              (suppressionReason True quiet digesting) now]
      else [])"

text \<open>\<open>idx_deliveries_device_channel\<close>, \<open>idx_deliveries_user_channel\<close>, the foreign keys.\<close>

definition delivery_key :: "delivery \<Rightarrow> string \<times> Channel \<times> string option" where
  "delivery_key d = (dl_notification_id d, dl_channel d, dl_device_id d)"

definition insert_deliveries :: "delivery list \<Rightarrow> notif_db \<Rightarrow> pg_error + unit \<times> notif_db" where
  "insert_deliveries ds s =
     (if \<not> distinct (map delivery_key ds) \<or> \<not> distinct (map dl_id ds)
         \<or> list_ex (\<lambda>d. list_ex (\<lambda>e. delivery_key e = delivery_key d \<or> dl_id e = dl_id d) (deliveries s)) ds
      then Inl (pg UNIQUE_VIOLATION)
      else if \<not> list_all (\<lambda>d. list_ex (\<lambda>n. nf_id n = dl_notification_id d) (notifications s)
             \<and> (case dl_device_id d of None \<Rightarrow> True | Some i \<Rightarrow> list_ex (\<lambda>v. ud_id v = i) (nt_devices s))) ds
      then Inl (pg FK_VIOLATION)
      else Inr ((), s\<lparr>deliveries := deliveries s @ ds\<rparr>))"

definition with_ids :: "string list \<Rightarrow> delivery list \<Rightarrow> delivery list" where
  "with_ids ids ds = map2 (\<lambda>i d. d\<lparr>dl_id := i\<rparr>) ids ds"

definition existing_notification :: "string \<Rightarrow> string \<Rightarrow> notif_db \<Rightarrow> pg_error + notification option" where
  "existing_notification uid key s =
     maybe_single [n \<leftarrow> notifications s. nf_user_id n = uid \<and> nf_dedupe_key n = Some key]"

definition delivery_rows ::
    "preference \<Rightarrow> NotificationCategory \<Rightarrow> bool \<Rightarrow> bool \<Rightarrow> user_device list \<Rightarrow> string \<Rightarrow> time \<Rightarrow> delivery list" where
  "delivery_rows pref c quiet digesting devices nid now =
     in_app_delivery pref nid now # device_deliveries pref quiet digesting nid now devices
     @ email_deliveries pref c quiet digesting nid now"

text \<open>The writes of \<open>create\<close>: the notification, and the deliveries unless it was there already.\<close>

definition file_notification ::
    "notif_world \<Rightarrow> create_notification_input \<Rightarrow> preference \<Rightarrow> NotificationSeverity \<Rightarrow> bool \<Rightarrow> bool \<Rightarrow> user_device list
      \<Rightarrow> time \<Rightarrow> (notif_db, notification option) api" where
  "file_notification W i pref severity quiet digesting devices now =
     api_bind (new_ids W 1) (\<lambda>ids.
     api_bind (nt_stmt (insert_notification (notification_row i pref severity (hd ids) now))) (\<lambda>r.
     case r of
       Inl e \<Rightarrow>
         (case truthy (ci_dedupe_key i) of
            None \<Rightarrow> api_return None
          | Some key \<Rightarrow>
              if pg_code e = UNIQUE_VIOLATION
              then api_bind (nt_read (existing_notification (ci_user_id i) key)) (\<lambda>found. api_return (data_maybe found))
              else api_return None)
     | Inr n \<Rightarrow>
         let rows = delivery_rows pref (ci_category i) quiet digesting devices (nf_id n) now in
         api_bind (new_ids W (length rows)) (\<lambda>dids.
         api_bind (nt_stmt (insert_deliveries (with_ids dids rows))) (\<lambda>_.
         api_return (Some n)))))"

definition quiet_at :: "notif_world \<Rightarrow> time \<Rightarrow> profile option \<Rightarrow> bool" where
  "quiet_at W now p = isInQuietHours (nw_local_time W now) (map_option pf_quiet p)"

definition createNotification ::
    "notif_world \<Rightarrow> create_notification_input \<Rightarrow> (notif_db, notification option) api" where
  "createNotification W i =
     api_bind (nt_rows (prefs_of (ci_user_id i) (ci_category i))) (\<lambda>prefRows.
     api_bind (nt_read (\<lambda>s. maybe_single [p \<leftarrow> nt_profiles s. pf_id p = ci_user_id i])) (\<lambda>profile.
     api_bind (nt_rows (push_devices (ci_user_id i))) (\<lambda>devices.
     api_bind (api_reads nt_clock) (\<lambda>now.
     let pref = resolvePreference (ci_category i) (case data_list prefRows of [] \<Rightarrow> None | p # _ \<Rightarrow> Some p);
         severity = (case ci_severity i of None \<Rightarrow> SEV_INFO | Some v \<Rightarrow> v) in
     file_notification W i pref severity
       (severity \<noteq> SEV_CRITICAL \<and> quiet_at W now (data_maybe profile))
       (pr_digest pref \<noteq> D_NONE \<and> severity \<noteq> SEV_CRITICAL) (data_list devices) now))))"

section \<open>The notification centre\<close>

text \<open>The policies of \<open>notifications\<close> let a user read and update the own rows.\<close>

datatype ListStatus = ST_unread | ST_all | ST_archived

record list_notifications =
  ln_status :: "ListStatus option"
  ln_category :: "NotificationCategory option"
  ln_cursor :: "string option"
  ln_limit :: "nat option"

record notification_page =
  np_items :: "notification list"
  np_next_cursor :: "string option"
  np_has_more :: bool

definition own_notifications :: "string \<Rightarrow> notif_db \<Rightarrow> notification list" where
  "own_notifications uid s = [n \<leftarrow> notifications s. nf_user_id n = uid]"

definition decode_notification_cursor :: "notif_world \<Rightarrow> string \<Rightarrow> string option" where
  "decode_notification_cursor W c =
     (let v = nw_b64_decode W c in if nw_date_parse_ok W v then Some v else None)"

definition status_filter :: "ListStatus option \<Rightarrow> notification \<Rightarrow> bool" where
  "status_filter st n =
     (case st of
        Some ST_unread \<Rightarrow> nf_read_at n = None \<and> nf_archived_at n = None
      | Some ST_archived \<Rightarrow> nf_archived_at n \<noteq> None
      | _ \<Rightarrow> nf_archived_at n = None)"

text \<open>Newest first, ties by descending id.\<close>

definition notification_order :: "notification list \<Rightarrow> notification list" where
  "notification_order ns = rev (sort_key nf_created_at (sort_key nf_id ns))"

definition created_before :: "notif_world \<Rightarrow> string option \<Rightarrow> pg_error + (notification \<Rightarrow> bool)" where
  "created_before W cursor =
     (case cursor of
        None \<Rightarrow> Inr (\<lambda>_. True)
      | Some c \<Rightarrow>
          (case decode_notification_cursor W c of
             None \<Rightarrow> Inr (\<lambda>_. True)
           | Some v \<Rightarrow> (case nw_pg_time W v of None \<Rightarrow> Inl (pg ''22007'') | Some t \<Rightarrow> Inr (\<lambda>n. nf_created_at n < t))))"

definition notification_query ::
    "notif_world \<Rightarrow> string \<Rightarrow> list_notifications \<Rightarrow> nat \<Rightarrow> notif_db \<Rightarrow> pg_error + notification list" where
  "notification_query W uid opts limit s =
     (case created_before W (truthy (ln_cursor opts)) of
        Inl e \<Rightarrow> Inl e
      | Inr before_cursor \<Rightarrow>
          Inr (take (limit + 1) (notification_order [n \<leftarrow> own_notifications uid s. nf_deleted_at n = None
            \<and> status_filter (ln_status opts) n
            \<and> (case ln_category opts of None \<Rightarrow> True | Some c \<Rightarrow> nf_category n = c) \<and> before_cursor n])))"

definition listNotifications ::
    "notif_world \<Rightarrow> string \<Rightarrow> list_notifications \<Rightarrow> (notif_db, notification_page) api" where
  "listNotifications W uid opts =
     (let limit = (case ln_limit opts of None \<Rightarrow> 20 | Some n \<Rightarrow> n) in
      api_bind (or_throw (nt_read (notification_query W uid opts limit))) (\<lambda>rows.
      let hasMore = limit < length rows; items = (if hasMore then butlast rows else rows) in
      api_return \<lparr>np_items = items,
        np_next_cursor = (if hasMore \<and> items \<noteq> [] then Some (nw_b64_encode W (nw_rendered W (nf_created_at (last items)))) else None),
        np_has_more = hasMore\<rparr>))"

definition unreadCount :: "string \<Rightarrow> (notif_db, nat) api" where
  "unreadCount uid = or_throw (nt_read (\<lambda>s. Inr (length [n \<leftarrow> own_notifications uid s.
     nf_read_at n = None \<and> nf_archived_at n = None \<and> nf_deleted_at n = None])))"

text \<open>An UPDATE of the own rows that match.\<close>

definition update_own ::
    "string \<Rightarrow> (notification \<Rightarrow> bool) \<Rightarrow> (notification \<Rightarrow> notification) \<Rightarrow> notif_db \<Rightarrow> pg_error + unit \<times> notif_db" where
  "update_own uid hit patch s =
     Inr ((), s\<lparr>notifications := map (\<lambda>n. if nf_user_id n = uid \<and> hit n then patch n else n) (notifications s)\<rparr>)"

definition markRead :: "string \<Rightarrow> string option \<Rightarrow> (notif_db, unit) api" where
  "markRead uid i =
     api_bind (api_reads nt_clock) (\<lambda>now.
     or_throw (nt_stmt (update_own uid
       (\<lambda>n. nf_read_at n = None \<and> nf_deleted_at n = None \<and> (case truthy i of None \<Rightarrow> True | Some k \<Rightarrow> nf_id n = k))
       (\<lambda>n. n\<lparr>nf_read_at := Some now\<rparr>))))"

definition archiveNotification :: "string \<Rightarrow> string \<Rightarrow> (notif_db, unit) api" where
  "archiveNotification uid i =
     api_bind (api_reads nt_clock) (\<lambda>now.
     or_throw (nt_stmt (update_own uid (\<lambda>n. nf_id n = i \<and> nf_deleted_at n = None) (\<lambda>n. n\<lparr>nf_archived_at := Some now\<rparr>))))"

definition deleteNotification :: "string \<Rightarrow> string \<Rightarrow> (notif_db, unit) api" where
  "deleteNotification uid i =
     api_bind (api_reads nt_clock) (\<lambda>now.
     or_throw (nt_stmt (update_own uid (\<lambda>n. nf_id n = i) (\<lambda>n. n\<lparr>nf_deleted_at := Some now\<rparr>))))"

section \<open>Preferences\<close>

record preferences_view =
  pv_preferences :: "preference list"
  pv_quiet_hours_start :: "string option"
  pv_quiet_hours_end :: "string option"
  pv_quiet_hours_tz :: "string option"

definition stored_preference :: "preference list \<Rightarrow> NotificationCategory \<Rightarrow> preference option" where
  "stored_preference ps c = find (\<lambda>p. pr_category p = c) (rev ps)"

definition getPreferences :: "string \<Rightarrow> (notif_db, preferences_view) api" where
  "getPreferences uid =
     api_bind (nt_rows (\<lambda>s. [p. (u, p) \<leftarrow> nt_prefs s, u = uid])) (\<lambda>prefs.
     api_bind (nt_read (\<lambda>s. single [p \<leftarrow> nt_profiles s. pf_id p = uid])) (\<lambda>profile.
     api_bind (or_throw (api_return prefs)) (\<lambda>stored.
     api_bind (or_throw (api_return profile)) (\<lambda>p.
     api_return
       \<lparr>pv_preferences = map (\<lambda>c. resolvePreference c (stored_preference stored c)) NOTIFICATION_CATEGORIES,
        pv_quiet_hours_start = map_option (js_slice 0 5) (qp_start (pf_quiet p)),
        pv_quiet_hours_end = map_option (js_slice 0 5) (qp_end (pf_quiet p)),
        pv_quiet_hours_tz = qp_tz (pf_quiet p)\<rparr>))))"

record update_preferences_dto =
  upd_preferences :: "preference list"
  upd_quiet :: quiet_profile

definition preference_row :: "preference list \<Rightarrow> NotificationCategory \<Rightarrow> preference" where
  "preference_row supplied c =
     (if c = N_security then \<lparr>pr_category = c, pr_in_app = True, pr_push = True, pr_email = True, pr_digest = D_NONE\<rparr>
      else case stored_preference supplied c of None \<Rightarrow> default_preference c | Some p \<Rightarrow> p)"

fun upsert_preference :: "string \<Rightarrow> preference \<Rightarrow> (string \<times> preference) list \<Rightarrow> (string \<times> preference) list" where
  "upsert_preference uid p [] = [(uid, p)]"
| "upsert_preference uid p ((u, q) # qs) =
     (if u = uid \<and> pr_category q = pr_category p then (uid, p) # qs else (u, q) # upsert_preference uid p qs)"

definition upsert_preferences :: "string \<Rightarrow> preference list \<Rightarrow> notif_db \<Rightarrow> pg_error + unit \<times> notif_db" where
  "upsert_preferences uid ps s = Inr ((), s\<lparr>nt_prefs := fold (upsert_preference uid) ps (nt_prefs s)\<rparr>)"

definition update_quiet_hours :: "string \<Rightarrow> quiet_profile \<Rightarrow> notif_db \<Rightarrow> pg_error + unit \<times> notif_db" where
  "update_quiet_hours uid q s =
     Inr ((), s\<lparr>nt_profiles := map (\<lambda>p. if pf_id p = uid then p\<lparr>pf_quiet := q\<rparr> else p) (nt_profiles s)\<rparr>)"

definition updatePreferences :: "string \<Rightarrow> update_preferences_dto \<Rightarrow> (notif_db, unit) api" where
  "updatePreferences uid dto =
     api_bind (nt_stmt (upsert_preferences uid (map (preference_row (upd_preferences dto)) NOTIFICATION_CATEGORIES))) (\<lambda>stored.
     api_bind (nt_stmt (update_quiet_hours uid (upd_quiet dto))) (\<lambda>profile.
     api_bind (or_throw (api_return stored)) (\<lambda>_.
     or_throw (api_return profile))))"

section \<open>Batches\<close>

text \<open>\<open>Promise.all\<close> over slices: here one after the other.\<close>

function mapBatches :: "('r \<Rightarrow> ('s, 'a) api) \<Rightarrow> nat \<Rightarrow> 'r list \<Rightarrow> ('s, unit) api" where
  "mapBatches work n rows =
     (if rows = [] \<or> n = 0 then api_return ()
      else api_bind (api_map work (take n rows)) (\<lambda>_. mapBatches work n (drop n rows)))"
  by pat_completeness auto
termination by (relation "measure (\<lambda>(work, n, rows). length rows)") auto

declare mapBatches.simps [simp del]

section \<open>Campaigns, templates, broadcasts\<close>

record compose_dto =
  cn_audience :: Audience
  cn_category :: NotificationCategory
  cn_severity :: NotificationSeverity
  cn_title_en :: string
  cn_title_bn :: "ucs option"
  cn_body_en :: string
  cn_body_bn :: "ucs option"
  cn_action_url :: "string option"
  cn_scheduled_for :: "string option"
  cn_expires_at :: "string option"

definition active_profiles :: "bool \<Rightarrow> notif_db \<Rightarrow> profile list" where
  "active_profiles only_operators s = [p \<leftarrow> nt_profiles s. pf_status p = PF_ACTIVE \<and> (only_operators \<longrightarrow> pf_is_super_admin p)]"

definition campaign_input :: "campaign \<Rightarrow> profile \<Rightarrow> create_notification_input" where
  "campaign_input c p =
     \<lparr>ci_user_id = pf_id p, ci_workspace_id = None, ci_category = cp_category c, ci_severity = Some (cp_severity c),
      ci_title_en = cp_title_en c, ci_title_bn = cp_title_bn c, ci_body_en = cp_body_en c, ci_body_bn = cp_body_bn c,
      ci_action_url = cp_action_url c, ci_resource_type = None, ci_resource_id = None,
      ci_metadata = Some (JObj [(''campaign_id'', JStr (cp_id c))]), ci_dedupe_key = Some (''campaign:'' @ cp_id c),
      ci_expires_at = cp_expires_at c\<rparr>"

definition update_campaign ::
    "(campaign \<Rightarrow> bool) \<Rightarrow> (campaign \<Rightarrow> campaign) \<Rightarrow> notif_db \<Rightarrow> pg_error + campaign list \<times> notif_db" where
  "update_campaign hit patch s =
     Inr (map patch (filter hit (campaigns s)),
       s\<lparr>campaigns := map (\<lambda>c. if hit c then patch c else c) (campaigns s)\<rparr>)"

definition claim_campaign :: "string \<Rightarrow> notif_db \<Rightarrow> pg_error + campaign option \<times> notif_db" where
  "claim_campaign i s =
     (case update_campaign (\<lambda>c. cp_id c = i \<and> cp_status c = CAMP_SCHEDULED)
            (\<lambda>c. c\<lparr>cp_status := CAMP_PROCESSING, cp_error := None\<rparr>) s of
        Inl e \<Rightarrow> Inl e
      | Inr (rows, t) \<Rightarrow> (case maybe_single rows of Inl e \<Rightarrow> Inl e | Inr x \<Rightarrow> Inr (x, t)))"

definition dispatchCampaign :: "notif_world \<Rightarrow> string \<Rightarrow> (notif_db, unit) api" where
  "dispatchCampaign W i =
     api_bind (or_throw (nt_stmt (claim_campaign i))) (\<lambda>claimed.
     case claimed of
       None \<Rightarrow> api_return ()
     | Some c \<Rightarrow>
         api_catch
           (api_bind (or_throw (nt_rows (active_profiles (cp_audience c = AUD_OPERATORS)))) (\<lambda>ps.
            api_bind (mapBatches (\<lambda>p. createNotification W (campaign_input c p)) 25 ps) (\<lambda>_.
            api_bind (nt_stmt (update_campaign (\<lambda>x. cp_id x = i)
              (\<lambda>x. x\<lparr>cp_status := CAMP_SENT, cp_recipient_count := length ps\<rparr>))) (\<lambda>_. api_return ()))))
           (\<lambda>e. api_bind (nt_stmt (update_campaign (\<lambda>x. cp_id x = i)
              (\<lambda>x. x\<lparr>cp_status := CAMP_FAILED, cp_error := Some (exn_message e)\<rparr>))) (\<lambda>_. api_throw e)))"

definition insert_campaign :: "campaign \<Rightarrow> notif_db \<Rightarrow> pg_error + campaign \<times> notif_db" where
  "insert_campaign c s =
     (if list_ex (\<lambda>x. cp_id x = cp_id c) (campaigns s) then Inl (pg UNIQUE_VIOLATION)
      else Inr (c, s\<lparr>campaigns := campaigns s @ [c]\<rparr>))"

definition campaign_of :: "string \<Rightarrow> compose_dto \<Rightarrow> string \<Rightarrow> time \<Rightarrow> time \<Rightarrow> campaign" where
  "campaign_of actor dto i scheduled now =
     \<lparr>cp_id = i, cp_created_by = actor, cp_audience = cn_audience dto, cp_category = cn_category dto,
      cp_severity = cn_severity dto, cp_title_en = cn_title_en dto, cp_title_bn = cn_title_bn dto,
      cp_body_en = cn_body_en dto, cp_body_bn = cn_body_bn dto, cp_action_url = cn_action_url dto,
      cp_scheduled_for = scheduled, cp_expires_at = cn_expires_at dto, cp_status = CAMP_SCHEDULED,
      cp_recipient_count = 0, cp_error = None, cp_created_at = now\<rparr>"

definition scheduled_time :: "notif_world \<Rightarrow> string option \<Rightarrow> time \<Rightarrow> pg_error + time" where
  "scheduled_time W t now = (case t of None \<Rightarrow> Inr now
     | Some v \<Rightarrow> (case nw_pg_time W v of None \<Rightarrow> Inl (pg ''22007'') | Some x \<Rightarrow> Inr x))"

definition composeCampaign :: "notif_world \<Rightarrow> string \<Rightarrow> compose_dto \<Rightarrow> (notif_db, campaign option) api" where
  "composeCampaign W actor dto =
     api_bind (api_reads nt_clock) (\<lambda>now.
     api_bind (new_ids W 1) (\<lambda>ids.
     api_bind (or_throw (nt_stmt (\<lambda>s. case scheduled_time W (cn_scheduled_for dto) now of
         Inl e \<Rightarrow> Inl e | Inr t \<Rightarrow> insert_campaign (campaign_of actor dto (hd ids) t now) s))) (\<lambda>c.
     api_bind (write_audit \<lparr>ae_actor_id = actor, ae_action = ''ADMIN_NOTIFICATION_COMPOSED'',
         ae_resource_type = ''notification_campaign'', ae_resource_id = Some (cp_id c),
         ae_metadata = JObj [(''audience'', JStr (if cp_audience c = AUD_ALL then ''ALL'' else ''OPERATORS'')),
           (''category'', JStr (if cp_category c = N_system then ''system'' else ''operator'')),
           (''scheduled_for'', JStr (nw_rendered W (cp_scheduled_for c)))]\<rparr>) (\<lambda>_.
     if cp_scheduled_for c \<le> now
     then api_bind (dispatchCampaign W (cp_id c)) (\<lambda>_.
          api_bind (nt_read (\<lambda>s. single [x \<leftarrow> campaigns s. cp_id x = cp_id c])) (\<lambda>r. api_return (data_of r)))
     else api_return (Some c)))))"

definition listCampaigns :: "(notif_db, campaign list) api" where
  "listCampaigns = or_throw (nt_read (\<lambda>s. Inr (take 200 (rev (sort_key cp_created_at (campaigns s))))))"

text \<open>\<open>metadata @> { campaign_id }\<close>; the counts of deliveries per channel and status.\<close>

definition of_campaign :: "string \<Rightarrow> notification \<Rightarrow> bool" where
  "of_campaign i n \<longleftrightarrow> jget (nf_metadata n) ''campaign_id'' = Some (JStr i)"

definition count_delivery ::
    "(Channel \<times> DeliveryStatus \<Rightarrow> nat) \<Rightarrow> delivery \<Rightarrow> (Channel \<times> DeliveryStatus \<Rightarrow> nat)" where
  "count_delivery m d = m((dl_channel d, dl_status d) := m (dl_channel d, dl_status d) + 1)"

definition getCampaignDeliveries ::
    "string \<Rightarrow> (notif_db, string \<times> nat \<times> (Channel \<times> DeliveryStatus \<Rightarrow> nat)) api" where
  "getCampaignDeliveries i =
     api_bind (or_throw (nt_rows (\<lambda>s. map nf_id (filter (of_campaign i) (notifications s))))) (\<lambda>ids.
     if ids = [] then api_return (i, 0, \<lambda>_. 0)
     else api_bind (or_throw (nt_rows (\<lambda>s. [d \<leftarrow> deliveries s. dl_notification_id d \<in> set ids]))) (\<lambda>ds.
       api_return (i, length ids, foldl count_delivery (\<lambda>_. 0) ds)))"

record template_dto =
  td_key :: string
  td_category :: NotificationCategory
  td_title_en :: string
  td_title_bn :: "ucs option"
  td_body_en :: string
  td_body_bn :: "ucs option"
  td_action_url :: "string option"

definition listTemplates :: "(notif_db, template list) api" where
  "listTemplates = or_throw (nt_rows (\<lambda>s. sort_key tp_key (templates s)))"

definition template_row :: "string \<Rightarrow> template_dto \<Rightarrow> string \<Rightarrow> template" where
  "template_row actor dto i =
     \<lparr>tp_id = i, tp_key = td_key dto, tp_category = td_category dto, tp_title_en = td_title_en dto,
      tp_title_bn = td_title_bn dto, tp_body_en = td_body_en dto, tp_body_bn = td_body_bn dto,
      tp_action_url = td_action_url dto, tp_created_by = actor\<rparr>"

text \<open>INSERT ... ON CONFLICT (key) DO UPDATE: a row that is there keeps its id.\<close>

definition upsert_template :: "template \<Rightarrow> notif_db \<Rightarrow> pg_error + template \<times> notif_db" where
  "upsert_template t s =
     (case find (\<lambda>x. tp_key x = tp_key t) (templates s) of
        None \<Rightarrow> Inr (t, s\<lparr>templates := templates s @ [t]\<rparr>)
      | Some old \<Rightarrow>
          let new = t\<lparr>tp_id := tp_id old\<rparr> in
          Inr (new, s\<lparr>templates := map (\<lambda>x. if tp_key x = tp_key t then new else x) (templates s)\<rparr>))"

definition template_audit :: "string \<Rightarrow> string \<Rightarrow> string \<Rightarrow> json \<Rightarrow> audit_event" where
  "template_audit actor action i meta =
     \<lparr>ae_actor_id = actor, ae_action = action, ae_resource_type = ''notification_template'',
      ae_resource_id = Some i, ae_metadata = meta\<rparr>"

fun category_name :: "NotificationCategory \<Rightarrow> string" where
  "category_name N_security = ''security''"
| "category_name N_budget = ''budget''"
| "category_name N_goal = ''goal''"
| "category_name N_recurring = ''recurring''"
| "category_name N_transaction = ''transaction''"
| "category_name N_sync = ''sync''"
| "category_name N_account = ''account''"
| "category_name N_system = ''system''"
| "category_name N_operator = ''operator''"

definition saveTemplate :: "notif_world \<Rightarrow> string \<Rightarrow> template_dto \<Rightarrow> (notif_db, template) api" where
  "saveTemplate W actor dto =
     api_bind (new_ids W 1) (\<lambda>ids.
     api_bind (or_throw (nt_stmt (upsert_template (template_row actor dto (hd ids))))) (\<lambda>t.
     api_bind (write_audit (template_audit actor ''ADMIN_NOTIFICATION_TEMPLATE_SAVED'' (tp_id t)
       (JObj [(''key'', JStr (tp_key t)), (''category'', JStr (category_name (tp_category t)))]))) (\<lambda>_.
     api_return t)))"

definition deleteTemplate :: "string \<Rightarrow> string \<Rightarrow> (notif_db, unit) api" where
  "deleteTemplate actor i =
     api_bind (or_throw (nt_stmt (\<lambda>s. case maybe_single [t \<leftarrow> templates s. tp_id t = i] of
         Inl e \<Rightarrow> Inl e | Inr t \<Rightarrow> Inr (t, s\<lparr>templates := [x \<leftarrow> templates s. tp_id x \<noteq> i]\<rparr>)))) (\<lambda>gone.
     case gone of
       None \<Rightarrow> api_throw (Not_found_plain ''Notification template not found'')
     | Some t \<Rightarrow>
         api_bind (write_audit (template_audit actor ''ADMIN_NOTIFICATION_TEMPLATE_DELETED'' i
           (JObj [(''key'', JStr (tp_key t))]))) (\<lambda>_. api_return ()))"

record broadcast =
  br_id :: string
  br_super_admins :: bool
  br_severity :: NotificationSeverity
  br_title_en :: string
  br_title_bn :: ucs
  br_body_en :: "string option"
  br_body_bn :: "ucs option"
  br_link_url :: "string option"
  br_expires_at :: "string option"

definition broadcast_input :: "broadcast \<Rightarrow> profile \<Rightarrow> create_notification_input" where
  "broadcast_input b p =
     \<lparr>ci_user_id = pf_id p, ci_workspace_id = None,
      ci_category = (if br_super_admins b then N_operator else N_system), ci_severity = Some (br_severity b),
      ci_title_en = br_title_en b, ci_title_bn = Some (br_title_bn b),
      ci_body_en = (case br_body_en b of None \<Rightarrow> br_title_en b | Some t \<Rightarrow> t),
      ci_body_bn = Some (case br_body_bn b of None \<Rightarrow> br_title_bn b | Some t \<Rightarrow> t),
      ci_action_url = br_link_url b, ci_resource_type = Some ''broadcast'', ci_resource_id = Some (br_id b),
      ci_metadata = None, ci_dedupe_key = Some (''broadcast:'' @ br_id b), ci_expires_at = br_expires_at b\<rparr>"

definition notifyBroadcast :: "notif_world \<Rightarrow> broadcast \<Rightarrow> (notif_db, unit) api" where
  "notifyBroadcast W b =
     api_bind (or_throw (nt_rows (active_profiles (br_super_admins b)))) (\<lambda>ps.
     mapBatches (\<lambda>p. createNotification W (broadcast_input b p)) 25 ps)"

definition notifyOperators :: "notif_world \<Rightarrow> create_notification_input \<Rightarrow> (notif_db, unit) api" where
  "notifyOperators W input =
     api_bind (or_throw (nt_rows (active_profiles True))) (\<lambda>ps.
     mapBatches (\<lambda>p. createNotification W (input\<lparr>ci_user_id := pf_id p, ci_category := N_operator\<rparr>)) 25 ps)"

section \<open>Budget and goal milestones\<close>

definition bn_limit :: ucs where
  "bn_limit =
     [2476, 2494, 2460, 2503, 2463, 32, 2488, 2496, 2478, 2494, 32, 2474, 2498, 2480, 2509, 2467, 32,
      2489, 2479, 2492, 2503, 2459, 2503]"

definition bn_of_budget :: ucs where
  "bn_of_budget =
     [2476, 2494, 2460, 2503, 2463, 2503, 2480, 32]"

definition bn_used :: ucs where
  "bn_used =
     [37, 32, 2476, 2509, 2479, 2476, 2489, 2499, 2468, 32, 2489, 2479, 2492, 2503, 2459, 2503]"

definition bn_current_budget :: ucs where
  "bn_current_budget =
     [32, 2476, 2480, 2509, 2468, 2478, 2494, 2472, 32, 2476, 2494, 2460, 2503, 2463, 2503, 2480, 32]"

definition bn_has_used :: ucs where
  "bn_has_used =
     [37, 32, 2476, 2509, 2479, 2476, 2489, 2494, 2480, 32, 2453, 2480, 2503, 2459, 2503, 2404]"

definition bn_goal_reached :: ucs where
  "bn_goal_reached =
     [2488, 2462, 2509, 2458, 2479, 2492, 2503, 2480, 32, 2482, 2453, 2509, 2487, 2509, 2479, 32, 2474,
      2498, 2480, 2467, 32, 2489, 2479, 2492, 2503, 2459, 2503]"

definition bn_goal :: ucs where
  "bn_goal =
     [2488, 2462, 2509, 2458, 2479, 2492, 2503, 2480, 32, 2482, 2453, 2509, 2487, 2509, 2479, 32]"

definition bn_filled :: ucs where
  "bn_filled =
     [37, 32, 2474, 2498, 2480, 2467, 32, 2489, 2479, 2492, 2503, 2459, 2503]"

definition bn_now :: ucs where
  "bn_now =
     [32, 2447, 2454, 2472, 32]"

definition bn_funded :: ucs where
  "bn_funded =
     [37, 32, 2437, 2480, 2509, 2469, 2494, 2479, 2492, 2495, 2468, 2404]"

definition bn_alert :: ucs where
  "bn_alert =
     [2437, 2474, 2494, 2480, 2503, 2463, 2480, 32, 2488, 2468, 2480, 2509, 2453, 2468, 2494, 32, 2488,
      2453, 2509, 2480, 2495, 2479, 2492]"

definition bn_attention :: ucs where
  "bn_attention =
     [32, 2478, 2472, 2507, 2479, 2507, 2455, 32, 2474, 2509, 2480, 2479, 2492, 2507, 2460, 2472, 2404]"

definition bn_recurring :: ucs where
  "bn_recurring =
     [2474, 2497, 2472, 2480, 2494, 2476, 2499, 2468, 2509, 2468, 32, 2438, 2439, 2463, 2503, 2478, 32,
      2488, 2494, 2478, 2472, 2503, 32, 2438, 2488, 2459, 2503]"

definition bn_scheduled :: ucs where
  "bn_scheduled =
     [32, 2468, 2494, 2480, 2495, 2454, 2503, 32, 2472, 2495, 2480, 2509, 2471, 2494, 2480, 2495, 2468,
      2404]"


definition ucs_of :: "string \<Rightarrow> ucs" where
  "ucs_of s = map of_char s"

text \<open>
  \<open>Number(v ?? d)\<close> of a field of an aggregation. The functions of the database give integers;
  decimal text counts as its number, other text and nested values as \<open>NaN\<close>.
\<close>

definition js_Number :: "json \<Rightarrow> int option" where
  "js_Number j = (case j of
       JInt n \<Rightarrow> Some n
     | JNull \<Rightarrow> Some 0
     | JBool b \<Rightarrow> Some (if b then 1 else 0)
     | JStr s \<Rightarrow> (if s \<noteq> [] \<and> list_all is_digit s then Some (dbl (int (digits_val s))) else None)
     | _ \<Rightarrow> None)"

definition number_field :: "fields \<Rightarrow> string \<Rightarrow> int \<Rightarrow> int option" where
  "number_field fs k d = (case map_of fs k of None \<Rightarrow> Some d | Some JNull \<Rightarrow> Some d | Some v \<Rightarrow> js_Number v)"

definition asRecord :: "json option \<Rightarrow> fields option" where
  "asRecord v = (case v of Some (JObj fs) \<Rightarrow> Some fs | _ \<Rightarrow> None)"

definition asArray :: "json option \<Rightarrow> json list" where
  "asArray v = (case v of Some (JArr xs) \<Rightarrow> xs | _ \<Rightarrow> [])"

definition show_num :: "int option \<Rightarrow> string" where
  "show_num n = (case n of None \<Rightarrow> ''NaN'' | Some i \<Rightarrow> show_int i)"

definition name_or :: "string \<Rightarrow> fields \<Rightarrow> string" where
  "name_or d fs = (case map_of fs ''name'' of Some (JStr n) \<Rightarrow> n | _ \<Rightarrow> d)"

definition budget_input ::
    "string \<Rightarrow> string \<Rightarrow> json option \<Rightarrow> fields \<Rightarrow> int option \<times> int option \<Rightarrow> create_notification_input" where
  "budget_input uid ws period line alert =
     (let (percent, threshold) = alert; reached = num_le (Some 100) threshold;
          lineName = name_or ''A category'' line; line_id = js_String (map_of line ''line_id'') in
      \<lparr>ci_user_id = uid, ci_workspace_id = Some ws, ci_category = N_budget,
       ci_severity = Some (if reached then SEV_WARNING else SEV_INFO),
       ci_title_en = (if reached then ''Budget limit reached'' else ''Budget is '' @ show_num threshold @ ''% used''),
       ci_title_bn = Some (if reached then bn_limit else bn_of_budget @ ucs_of (show_num threshold) @ bn_used),
       ci_body_en = lineName @ '' has used '' @ show_num percent @ ''% of its current budget.'',
       ci_body_bn = Some (ucs_of lineName @ bn_current_budget @ ucs_of (show_num percent) @ bn_has_used),
       ci_action_url = Some ''/dashboard/budgets'', ci_resource_type = Some ''budget_line'',
       ci_resource_id = Some line_id, ci_metadata = None,
       ci_dedupe_key = Some (''budget:'' @ line_id @ '':'' @ js_String period @ '':'' @ show_num threshold),
       ci_expires_at = None\<rparr>)"

definition goal_input :: "string \<Rightarrow> string \<Rightarrow> fields \<Rightarrow> int option \<times> int \<Rightarrow> create_notification_input" where
  "goal_input uid ws goal alert =
     (let (percent, milestone) = alert; goalName = name_or ''Your goal'' goal; gid = js_String (map_of goal ''id'') in
      \<lparr>ci_user_id = uid, ci_workspace_id = Some ws, ci_category = N_goal,
       ci_severity = Some (if milestone = 100 then SEV_SUCCESS else SEV_INFO),
       ci_title_en = (if milestone = 100 then ''Savings goal reached'' else ''Savings goal reached '' @ show_int milestone @ ''%''),
       ci_title_bn = Some (if milestone = 100 then bn_goal_reached else bn_goal @ ucs_of (show_int milestone) @ bn_filled),
       ci_body_en = goalName @ '' is now '' @ show_num percent @ ''% funded.'',
       ci_body_bn = Some (ucs_of goalName @ bn_now @ ucs_of (show_num percent) @ bn_funded),
       ci_action_url = Some ''/dashboard/goals'', ci_resource_type = Some ''savings_goal'',
       ci_resource_id = Some gid, ci_metadata = None,
       ci_dedupe_key = Some (''goal:'' @ gid @ '':'' @ show_int milestone), ci_expires_at = None\<rparr>)"

definition budget_inputs :: "string \<Rightarrow> string \<Rightarrow> json option \<Rightarrow> create_notification_input list" where
  "budget_inputs uid ws data =
     (case asRecord data of
        None \<Rightarrow> []
      | Some budget \<Rightarrow>
          [budget_input uid ws (map_of budget ''period_start'') line a.
             Some line \<leftarrow> map (\<lambda>v. asRecord (Some v)) (asArray (map_of budget ''lines'')),
             Some a \<leftarrow> [budget_alert (number_field line ''planned_minor'' 0) (number_field line ''spent_minor'' 0)
               (number_field line ''alert_threshold_pct'' 80)]])"

definition goal_inputs :: "string \<Rightarrow> string \<Rightarrow> json option \<Rightarrow> create_notification_input list" where
  "goal_inputs uid ws data =
     (case asRecord data of
        None \<Rightarrow> []
      | Some goals \<Rightarrow>
          [goal_input uid ws goal a.
             Some goal \<leftarrow> map (\<lambda>v. asRecord (Some v)) (asArray (map_of goals ''goals'')),
             Some a \<leftarrow> [goal_alert (number_field goal ''target_minor'' 0) (number_field goal ''current_minor'' 0)]])"

definition nt_rpc :: "notif_world \<Rightarrow> string \<Rightarrow> string \<Rightarrow> (notif_db, pg_error + json) api" where
  "nt_rpc W fn ws = nt_read (\<lambda>s. aggregate (nw_plan W) fn [(''p_workspace_id'', ws)] (nt_plan s))"

definition evaluateFinancialRules :: "notif_world \<Rightarrow> string \<Rightarrow> string \<Rightarrow> (notif_db, unit) api" where
  "evaluateFinancialRules W uid ws =
     api_bind (nt_rpc W ''budget_status'' ws) (\<lambda>budget.
     api_bind (nt_rpc W ''goals_overview'' ws) (\<lambda>goals.
     api_bind (api_map (createNotification W) (budget_inputs uid ws (data_of budget))) (\<lambda>_.
     api_bind (api_map (createNotification W) (goal_inputs uid ws (data_of goals))) (\<lambda>_. api_return ()))))"

section \<open>Evaluation without failures\<close>

lemma nt_base_simps [simp]:
  "nt_base (s\<lparr>notifications := x\<rparr>) = nt_base s" "nt_base (s\<lparr>deliveries := y\<rparr>) = nt_base s"
  "nt_base (s\<lparr>campaigns := z\<rparr>) = nt_base s" "nt_base (s\<lparr>nt_prefs := p\<rparr>) = nt_base s"
  "nt_base (s\<lparr>nt_profiles := q\<rparr>) = nt_base s" "nt_base (s\<lparr>templates := t\<rparr>) = nt_base s"
  "nt_base (s\<lparr>audit_events := a\<rparr>) = nt_base s" "nt_base (s\<lparr>nt_clock := c\<rparr>) = nt_base s"
  "nt_base (s\<lparr>nt_devices := d\<rparr>) = nt_base s"
  by (simp_all add: nt_base_def)

lemma nt_base_update_drop: "faults (nt_base s) = [] \<Longrightarrow> nt_base_update drop_fault s = s"
  by (cases s, cases "nt_plan s") (simp add: nt_base_def nt_base_update_def drop_no_fault)

lemma nt_stmt_no_fault:
  "faults (nt_base s) = [] \<Longrightarrow>
     nt_stmt f s = (case f s of Inl e \<Rightarrow> (Inr (Inl e), s) | Inr (x, u) \<Rightarrow> (Inr (Inr x), u))"
  unfolding nt_stmt_def by (rule fault_stmt_no_fault) (auto simp: nt_base_update_drop)

lemma nt_read_no_fault: "faults (nt_base s) = [] \<Longrightarrow> nt_read q s = (Inr (q s), s)"
  by (simp add: nt_read_def nt_stmt_no_fault split: sum.split)

lemma nt_rows_no_fault: "faults (nt_base s) = [] \<Longrightarrow> nt_rows q s = (Inr (Inr (take MAX_ROWS (q s))), s)"
  by (simp add: nt_rows_def nt_read_no_fault)

section \<open>The tables stay well formed\<close>

text \<open>
  Notifications have unique ids and at most one row per user and key; deliveries have unique ids,
  one row per notification, channel and device, and belong to a notification.
\<close>

definition notifications_ok :: "notification list \<Rightarrow> bool" where
  "notifications_ok ns \<longleftrightarrow> sorted_wrt (\<lambda>old new. \<not> notification_conflicts new old) ns"

definition tables_ok :: "notif_db \<Rightarrow> bool" where
  "tables_ok s \<longleftrightarrow> notifications_ok (notifications s) \<and> distinct (map dl_id (deliveries s))
     \<and> distinct (map delivery_key (deliveries s))
     \<and> list_all (\<lambda>d. dl_notification_id d \<in> nf_id ` set (notifications s)) (deliveries s)"

lemma keeps_nt_stmt:
  assumes "\<And>s. P s \<Longrightarrow> P (nt_base_update drop_fault s)" and "\<And>s x t. P s \<Longrightarrow> f s = Inr (x, t) \<Longrightarrow> P t"
  shows "keeps P (nt_stmt f)"
  unfolding nt_stmt_def
proof (rule keeps_fault_stmt)
  fix s
  assume "P s"
  then show "P (nt_base_update drop_fault s)" by (rule assms(1))
next
  fix s x t
  assume "P s" "f s = Inr (x, t)"
  then show "P t" by (rule assms(2))
qed

text \<open>Predicates on the tables of this service only.\<close>

definition own_tables :: "(notif_db \<Rightarrow> bool) \<Rightarrow> bool" where
  "own_tables P \<longleftrightarrow> (\<forall>s f. P (nt_base_update f s) = P s)"

lemma own_tables_stmt:
  assumes "own_tables P" and "\<And>s x t. P s \<Longrightarrow> f s = Inr (x, t) \<Longrightarrow> P t"
  shows "keeps P (nt_stmt f)"
  by (rule keeps_nt_stmt) (use assms in \<open>simp_all add: own_tables_def\<close>)

lemma own_tables_read [keeps_intros]: "own_tables P \<Longrightarrow> keeps P (nt_read q)"
  unfolding nt_read_def by (rule own_tables_stmt) (auto split: sum.splits)

lemma own_tables_rows [keeps_intros]: "own_tables P \<Longrightarrow> keeps P (nt_rows q)"
  unfolding nt_rows_def by (rule own_tables_read)

lemma own_tables_ids [keeps_intros]: "own_tables P \<Longrightarrow> keeps P (new_ids W n)"
  by (rule keepsI) (simp add: own_tables_def new_ids_def)

lemma keeps_or_throw [keeps_intros]: "keeps P m \<Longrightarrow> keeps P (or_throw m)"
  unfolding or_throw_def by (intro keeps_intros)

lemma keeps_mapBatches [keeps_intros]:
  assumes "\<And>x. keeps P (f x)"
  shows "keeps P (mapBatches f n xs)"
  using assms
proof (induction f n xs rule: mapBatches.induct)
  case (1 work n rows)
  then show ?case by (subst mapBatches.simps) (auto intro!: keeps_return keeps_bind keeps_map)
qed

lemma own_tables_ok [simp]: "own_tables tables_ok"
  by (simp add: own_tables_def tables_ok_def nt_base_update_def)

lemma ok_insert_notification: "tables_ok s \<Longrightarrow> insert_notification n s = Inr (x, t) \<Longrightarrow> tables_ok t"
  by (auto simp: insert_notification_def tables_ok_def notifications_ok_def sorted_wrt_append list_ex_iff list_all_iff split: if_splits)

lemma ok_insert_deliveries: "tables_ok s \<Longrightarrow> insert_deliveries ds s = Inr (x, t) \<Longrightarrow> tables_ok t"
proof -
  assume ok: "tables_ok s" and run: "insert_deliveries ds s = Inr (x, t)"
  have t: "t = s\<lparr>deliveries := deliveries s @ ds\<rparr>" and fresh: "distinct (map delivery_key ds)" "distinct (map dl_id ds)"
      "\<not> list_ex (\<lambda>d. list_ex (\<lambda>e. delivery_key e = delivery_key d \<or> dl_id e = dl_id d) (deliveries s)) ds"
    and found: "\<forall>d \<in> set ds. \<exists>n \<in> set (notifications s). nf_id n = dl_notification_id d"
    using run by (auto simp: insert_deliveries_def list_all_iff list_ex_iff split: if_splits)
  have refs: "list_all (\<lambda>d. dl_notification_id d \<in> nf_id ` set (notifications s)) ds"
    unfolding list_all_iff using found by (metis image_eqI)
  have "\<not> list_ex (\<lambda>d. delivery_key d \<in> set (map delivery_key (deliveries s))) ds"
      "\<not> list_ex (\<lambda>d. dl_id d \<in> set (map dl_id (deliveries s))) ds"
    using fresh(3) by (auto simp: list_ex_iff; metis)+
  then show ?thesis
    using ok refs by (simp add: tables_ok_def t distinct_append_keys [of delivery_key] distinct_append_keys [of dl_id] fresh del: map_append)
qed

lemma keeps_write_audit [keeps_intros]: "own_tables P \<Longrightarrow> (\<And>s x. P s \<Longrightarrow> P (s\<lparr>audit_events := x\<rparr>)) \<Longrightarrow> keeps P (write_audit e)"
  unfolding write_audit_def by (intro keeps_bind own_tables_stmt keeps_return) auto

lemma keeps_create:
  assumes "own_tables P" and "\<And>n s x t. P s \<Longrightarrow> insert_notification n s = Inr (x, t) \<Longrightarrow> P t"
    and "\<And>ds s x t. P s \<Longrightarrow> insert_deliveries ds s = Inr (x, t) \<Longrightarrow> P t"
  shows "keeps P (createNotification W i)"
  unfolding createNotification_def file_notification_def Let_def
  by (intro keeps_bind own_tables_rows own_tables_read own_tables_ids keeps_reads keeps_case_sum keeps_case_option keeps_if
      keeps_return own_tables_stmt [OF assms(1)] assms(1)) (fact assms(2), fact assms(3))

lemma ok_create [keeps_intros]: "keeps tables_ok (createNotification W i)"
  by (rule keeps_create) (auto intro: ok_insert_notification ok_insert_deliveries)

lemma ok_fields [simp]:
  "tables_ok (s\<lparr>audit_events := a\<rparr>) = tables_ok s" "tables_ok (s\<lparr>campaigns := c\<rparr>) = tables_ok s"
  "tables_ok (s\<lparr>templates := t\<rparr>) = tables_ok s" "tables_ok (s\<lparr>nt_prefs := p\<rparr>) = tables_ok s"
  "tables_ok (s\<lparr>nt_profiles := q\<rparr>) = tables_ok s"
  by (simp_all add: tables_ok_def)

text \<open>The UPDATEs of the notification centre keep ids, users and keys.\<close>

lemma conflicts_patch:
  assumes "\<And>n. nf_id (patch n) = nf_id n \<and> nf_user_id (patch n) = nf_user_id n \<and> nf_dedupe_key (patch n) = nf_dedupe_key n"
  shows "notifications_ok (map (\<lambda>n. if hit n then patch n else n) ns) = notifications_ok ns"
  using assms by (simp add: notifications_ok_def sorted_wrt_map notification_conflicts_def if_distrib cong: if_cong)

lemma ok_update_own:
  assumes "\<And>n. nf_id (patch n) = nf_id n \<and> nf_user_id (patch n) = nf_user_id n \<and> nf_dedupe_key (patch n) = nf_dedupe_key n"
    and "tables_ok s" and "update_own uid hit patch s = Inr (x, t)"
  shows "tables_ok t"
proof -
  let ?f = "\<lambda>n. if nf_user_id n = uid \<and> hit n then patch n else n"
  have t: "t = s\<lparr>notifications := map ?f (notifications s)\<rparr>" using assms(3) by (simp add: update_own_def)
  have "map nf_id (map ?f (notifications s)) = map nf_id (notifications s)" using assms(1) by simp
  then have "nf_id ` set (map ?f (notifications s)) = nf_id ` set (notifications s)" by (metis list.set_map)
  then show ?thesis using assms(2) conflicts_patch [OF assms(1)] by (simp add: tables_ok_def t del: list.set_map set_map)
qed

lemma ok_centre [keeps_intros]:
  "keeps tables_ok (markRead uid k)" "keeps tables_ok (archiveNotification uid i)" "keeps tables_ok (deleteNotification uid i)"
  unfolding markRead_def archiveNotification_def deleteNotification_def
  by (intro keeps_bind keeps_reads keeps_or_throw own_tables_stmt own_tables_ok, (erule (1) ok_update_own [rotated], simp))+

lemma ok_preferences [keeps_intros]: "keeps tables_ok (updatePreferences uid dto)"
  unfolding updatePreferences_def
  by (intro keeps_bind keeps_or_throw keeps_return own_tables_stmt own_tables_ok)
    (auto simp: upsert_preferences_def update_quiet_hours_def)

lemma ok_claim: "tables_ok s \<Longrightarrow> claim_campaign i s = Inr (x, t) \<Longrightarrow> tables_ok t"
  by (auto simp: claim_campaign_def update_campaign_def split: sum.splits)

lemma ok_update_campaign: "tables_ok s \<Longrightarrow> update_campaign hit patch s = Inr (x, t) \<Longrightarrow> tables_ok t"
  by (auto simp: update_campaign_def)

lemma ok_dispatch [keeps_intros]: "keeps tables_ok (dispatchCampaign W i)"
  unfolding dispatchCampaign_def
  by (intro keeps_bind keeps_or_throw own_tables_stmt own_tables_ok keeps_case_option keeps_catch own_tables_rows
      keeps_mapBatches ok_create keeps_return keeps_throw)
    (fact ok_claim ok_update_campaign)+

lemma ok_compose [keeps_intros]: "keeps tables_ok (composeCampaign W actor dto)"
  unfolding composeCampaign_def
  by (intro keeps_bind keeps_reads keeps_or_throw own_tables_stmt own_tables_ok own_tables_ids keeps_write_audit keeps_if
      ok_dispatch own_tables_read keeps_return)
    (auto simp: insert_campaign_def split: sum.splits if_splits)

lemma ok_templates [keeps_intros]: "keeps tables_ok (saveTemplate W actor td)" "keeps tables_ok (deleteTemplate actor i)"
  unfolding saveTemplate_def deleteTemplate_def
  by (intro keeps_bind keeps_or_throw own_tables_stmt own_tables_ok own_tables_ids keeps_write_audit keeps_case_option
      keeps_throw keeps_return; auto simp: upsert_template_def Let_def split: sum.splits option.splits)+

lemma ok_raised [keeps_intros]:
  "keeps tables_ok (notifyBroadcast W b)" "keeps tables_ok (notifyOperators W i)" "keeps tables_ok (evaluateFinancialRules W uid ws)"
  unfolding notifyBroadcast_def notifyOperators_def evaluateFinancialRules_def nt_rpc_def
  by (intro keeps_bind keeps_or_throw own_tables_rows own_tables_read own_tables_ok keeps_mapBatches keeps_map ok_create keeps_return)+

section \<open>One notification per event\<close>

lemma existing_unique:
  assumes "notifications_ok (notifications s)" and "n \<in> set (notifications s)" and "nf_dedupe_key n = Some k"
  shows "[m \<leftarrow> notifications s. nf_user_id m = nf_user_id n \<and> nf_dedupe_key m = Some k] = [n]"
proof -
  obtain xs ys where split: "notifications s = xs @ n # ys" using assms(2) by (auto simp: in_set_conv_decomp)
  have "\<not> notification_conflicts n x" if "x \<in> set xs" for x
    using assms(1) that by (auto simp: notifications_ok_def split sorted_wrt_append)
  then have xs: "[m \<leftarrow> xs. nf_user_id m = nf_user_id n \<and> nf_dedupe_key m = Some k] = []"
    using assms(3) by (fastforce simp: filter_empty_conv notification_conflicts_def)
  have "\<not> notification_conflicts y n" if "y \<in> set ys" for y
    using assms(1) that by (auto simp: notifications_ok_def split sorted_wrt_append)
  then have ys: "[m \<leftarrow> ys. nf_user_id m = nf_user_id n \<and> nf_dedupe_key m = Some k] = []"
    using assms(3) by (fastforce simp: filter_empty_conv notification_conflicts_def)
  show ?thesis using assms(3) by (simp add: split xs ys)
qed

text \<open>The notifications and deliveries are those of \<open>s\<close>.\<close>

definition same_rows :: "notif_db \<Rightarrow> notif_db \<Rightarrow> bool" where
  "same_rows s t \<longleftrightarrow> notifications t = notifications s \<and> deliveries t = deliveries s"

lemma own_same_rows [simp]: "own_tables (same_rows s)"
  by (simp add: own_tables_def same_rows_def nt_base_update_def)

lemma create_duplicate:
  assumes n: "n \<in> set (notifications s)" "nf_user_id n = ci_user_id i" "nf_dedupe_key n = Some k" "ci_dedupe_key i = Some k"
  shows "triple (same_rows s) (createNotification W i) (\<lambda>r t. same_rows s t) (same_rows s)"
proof -
  have clash: "insert_notification (notification_row i pref severity nid now) u = Inl (pg UNIQUE_VIOLATION)"
    if "same_rows s u" for u pref severity nid now
  proof -
    have "notification_conflicts (notification_row i pref severity nid now) n"
      using n by (simp add: notification_conflicts_def notification_row_def)
    then show ?thesis using that n(1) by (auto simp: insert_notification_def list_ex_iff same_rows_def)
  qed
  have ins: "triple (same_rows s) (nt_stmt (insert_notification (notification_row i pref severity nid now)))
      (\<lambda>r t. same_rows s t \<and> isl r) (same_rows s)" for pref severity nid now
  proof (rule tripleI)
    fix u
    assume u: "same_rows s u"
    then have u': "same_rows s (nt_base_update drop_fault u)" using own_same_rows [of s] by (simp add: own_tables_def)
    show "case nt_stmt (insert_notification (notification_row i pref severity nid now)) u of
        (Inl e, t) \<Rightarrow> same_rows s t | (Inr r, t) \<Rightarrow> same_rows s t \<and> isl r"
      using u' by (simp add: nt_stmt_def fault_stmt_def Let_def clash [OF u'])
  qed
  show ?thesis
    unfolding createNotification_def file_notification_def Let_def
    apply (rule triple_bind [OF triple_keeps [OF own_tables_rows [OF own_same_rows]]])
    apply (rule triple_bind [OF triple_keeps [OF own_tables_read [OF own_same_rows]]])
    apply (rule triple_bind [OF triple_keeps [OF own_tables_rows [OF own_same_rows]]])
    apply (rule triple_bind [OF triple_keeps [OF keeps_reads]])
    apply (rule triple_bind [OF triple_keeps [OF own_tables_ids [OF own_same_rows]]])
    apply (rule triple_bind [OF ins])
    apply (rule triple_assume)
    apply (rule triple_case_sum)
     apply (rule triple_keeps)
     apply (intro keeps_case_option keeps_return keeps_if keeps_bind own_tables_read own_same_rows)
    apply simp
    done
qed

text \<open>
   An event that already raised a notification for a user, as its key tells, raises no second
  one: however often it is reported and whatever fails, no notification and no delivery is added.
\<close>

theorem duplicate_notification_dropped:
  assumes "n \<in> set (notifications s)" and "nf_user_id n = ci_user_id i" and "nf_dedupe_key n = Some k" and "ci_dedupe_key i = Some k"
  shows "same_rows s (snd (createNotification W i s))"
proof -
  have "same_rows s s" by (simp add: same_rows_def)
  from tripleD [OF create_duplicate [OF assms] this, of W] show ?thesis
    by (auto split: prod.splits sum.splits)
qed

section \<open>Preferences and quiet hours\<close>

definition stored_pref :: "create_notification_input \<Rightarrow> notif_db \<Rightarrow> preference" where
  "stored_pref i s = resolvePreference (ci_category i)
     (case take MAX_ROWS (prefs_of (ci_user_id i) (ci_category i) s) of [] \<Rightarrow> None | p # _ \<Rightarrow> Some p)"

definition severity_of :: "create_notification_input \<Rightarrow> NotificationSeverity" where
  "severity_of i = (case ci_severity i of None \<Rightarrow> SEV_INFO | Some v \<Rightarrow> v)"

definition quiet_now :: "notif_world \<Rightarrow> string \<Rightarrow> notif_db \<Rightarrow> bool" where
  "quiet_now W uid s = quiet_at W (nt_clock s) (data_maybe (maybe_single [p \<leftarrow> nt_profiles s. pf_id p = uid]))"

text \<open>The channels a preference opens.\<close>

definition opens :: "preference \<Rightarrow> Channel \<Rightarrow> bool" where
  "opens p c = (case c of CH_push \<Rightarrow> pr_push p | CH_webpush \<Rightarrow> pr_push p | CH_email \<Rightarrow> pr_email p | CH_in_app \<Rightarrow> False)"

definition allowed_delivery :: "notif_world \<Rightarrow> create_notification_input \<Rightarrow> notif_db \<Rightarrow> delivery \<Rightarrow> bool" where
  "allowed_delivery W i s d \<longleftrightarrow> (dl_status d = DLV_PENDING \<longrightarrow> opens (stored_pref i s) (dl_channel d)
     \<and> (severity_of i \<noteq> SEV_CRITICAL \<longrightarrow> \<not> quiet_now W (ci_user_id i) s \<and> pr_digest (stored_pref i s) = D_NONE))"

lemma with_ids_in: "d \<in> set (with_ids ids ds) \<Longrightarrow> \<exists>e \<in> set ds. \<exists>i. d = e\<lparr>dl_id := i\<rparr>"
  by (auto simp: with_ids_def dest!: set_zip_rightD)

lemma device_deliveries_in:
  "d \<in> set (device_deliveries pref quiet digesting nid now ds) \<Longrightarrow>
     dl_channel d \<in> {CH_push, CH_webpush} \<and> (dl_status d = DLV_PENDING \<longrightarrow> pr_push pref \<and> \<not> quiet \<and> \<not> digesting)"
  by (induction ds) (auto simp: delivery_row_def split: option.splits if_splits)

lemma security_pref: "ci_category i = N_security \<Longrightarrow> pr_email (stored_pref i s)"
  by (simp add: stored_pref_def resolvePreference_def default_preference_def)

lemma file_deliveries:
  "triple (\<lambda>s. deliveries s = D) (file_notification W i pref severity quiet digesting devices now)
     (\<lambda>_ t. deliveries t = D \<or> (\<exists>ids nid. deliveries t = D @ with_ids ids (delivery_rows pref (ci_category i) quiet digesting devices nid now)))
     (\<lambda>t. deliveries t = D)"
proof -
  have own: "own_tables (\<lambda>s. deliveries s = D)" by (simp add: own_tables_def nt_base_update_def)
  have ins: "keeps (\<lambda>s. deliveries s = D) (nt_stmt (insert_notification n))" for n
    by (rule own_tables_stmt [OF own]) (auto simp: insert_notification_def split: if_splits)
  have rows: "triple (\<lambda>s. deliveries s = D) (nt_stmt (insert_deliveries ds)) (\<lambda>_ t. deliveries t = D \<or> deliveries t = D @ ds)
      (\<lambda>t. deliveries t = D)" for ds
    by (rule tripleI) (auto simp: nt_stmt_def fault_stmt_def Let_def nt_base_update_def insert_deliveries_def split: if_splits)
  show ?thesis
    unfolding file_notification_def Let_def
    apply (rule triple_bind [OF triple_keeps [OF own_tables_ids [OF own]]])
    apply (rule triple_bind [OF triple_keeps [OF ins]])
    apply (rule triple_case_sum)
     apply (rule triple_weaken [OF triple_keeps [where P = "\<lambda>s. deliveries s = D"]])
        apply (intro keeps_case_option keeps_return keeps_if keeps_bind own_tables_read own)
       apply simp_all [3]
    apply (rule triple_bind [OF triple_keeps [OF own_tables_ids [OF own]]])
    apply (rule triple_bind [OF rows])
    apply (rule triple_return)
    apply blast
    done
qed

lemma create_no_fault:
  assumes "faults (nt_base s) = []"
  shows "createNotification W i s = file_notification W i (stored_pref i s) (severity_of i)
    (severity_of i \<noteq> SEV_CRITICAL \<and> quiet_now W (ci_user_id i) s)
    (pr_digest (stored_pref i s) \<noteq> D_NONE \<and> severity_of i \<noteq> SEV_CRITICAL) (take MAX_ROWS (push_devices (ci_user_id i) s)) (nt_clock s) s"
  by (simp add: createNotification_def api_bind_def nt_rows_no_fault nt_read_no_fault assms api_reads_def Let_def
      data_list_def stored_pref_def severity_of_def quiet_now_def)


section \<open>Users that get nothing\<close>

definition rows_of :: "string \<Rightarrow> notif_db \<Rightarrow> notification list" where
  "rows_of uid s = [n \<leftarrow> notifications s. nf_user_id n = uid]"

definition untouched :: "profile list \<Rightarrow> string \<Rightarrow> notification list \<Rightarrow> notif_db \<Rightarrow> bool" where
  "untouched ps uid ns s \<longleftrightarrow> nt_profiles s = ps \<and> rows_of uid s = ns"

lemma own_untouched [simp]: "own_tables (untouched ps uid ns)"
  by (simp add: own_tables_def untouched_def rows_of_def nt_base_update_def)

lemma untouched_create:
  assumes "ci_user_id i \<noteq> uid"
  shows "keeps (untouched ps uid ns) (createNotification W i)"
proof -
  have ins: "keeps (untouched ps uid ns) (nt_stmt (insert_notification (notification_row i pref severity k now)))" for pref severity k now
    by (rule own_tables_stmt [OF own_untouched])
      (use assms in \<open>auto simp: insert_notification_def untouched_def rows_of_def notification_row_def split: if_splits\<close>)
  have rows: "keeps (untouched ps uid ns) (nt_stmt (insert_deliveries ds))" for ds
    by (rule own_tables_stmt [OF own_untouched]) (auto simp: insert_deliveries_def untouched_def rows_of_def split: if_splits)
  show ?thesis
    unfolding createNotification_def file_notification_def Let_def
    by (intro keeps_bind own_tables_rows own_tables_read own_tables_ids own_untouched keeps_reads keeps_case_sum keeps_case_option
        keeps_if keeps_return ins rows)
qed

lemma untouched_map:
  "list_all (\<lambda>p. pf_id p \<noteq> uid) xs \<Longrightarrow> (\<And>p. ci_user_id (input p) = pf_id p) \<Longrightarrow>
     keeps (untouched ps uid ns) (api_map (\<lambda>p. createNotification W (input p)) xs)"
  by (rule keeps_map_set, rule untouched_create) (auto simp: list_all_iff)

lemma untouched_batches:
  "list_all (\<lambda>p. pf_id p \<noteq> uid) xs \<Longrightarrow> (\<And>p. ci_user_id (input p) = pf_id p) \<Longrightarrow>
     keeps (untouched ps uid ns) (mapBatches (\<lambda>p. createNotification W (input p)) n xs)"
proof (induction "\<lambda>p. createNotification W (input p)" n xs rule: mapBatches.induct)
  case (1 n rows)
  have "list_all (\<lambda>p. pf_id p \<noteq> uid) (take n rows)" "list_all (\<lambda>p. pf_id p \<noteq> uid) (drop n rows)"
    using 1(2) by (auto simp: list_all_iff dest: in_set_takeD in_set_dropD)
  then show ?case
    by (subst mapBatches.simps) (auto intro!: keeps_return keeps_bind untouched_map 1)
qed

lemma triple_nt_rows:
  assumes "own_tables P" and "\<And>s f. q (nt_base_update f s) = q s"
  shows "triple P (or_throw (nt_rows q)) (\<lambda>xs t. P t \<and> xs = take MAX_ROWS (q t)) P"
  using assms
  by (auto simp: triple_def or_throw_def nt_rows_def nt_read_def nt_stmt_def fault_stmt_def Let_def api_bind_def own_tables_def
      api_return_def api_throw_def)

text \<open>
  A campaign reaches only the users among the first 1000 rows the profile query returns: any
  other active user gets no notification from it, although the campaign is recorded as sent.
\<close>

theorem campaign_skips_users_beyond_cap:
  assumes "list_all (\<lambda>c. cp_id c = i \<longrightarrow> list_all (\<lambda>p. pf_id p \<noteq> uid)
      (take MAX_ROWS (active_profiles (cp_audience c = AUD_OPERATORS) s))) (campaigns s)"
  shows "rows_of uid (snd (dispatchCampaign W i s)) = rows_of uid s"
proof -
  let ?P = "untouched (nt_profiles s) uid (rows_of uid s)"
  let ?skips = "\<lambda>b. list_all (\<lambda>p. pf_id p \<noteq> uid) (take MAX_ROWS (active_profiles b s))"
  let ?Q = "\<lambda>r t. ?P t \<and> (case r of None \<Rightarrow> True | Some c \<Rightarrow> ?skips (cp_audience c = AUD_OPERATORS))"
  have active: "?P t \<Longrightarrow> active_profiles b t = active_profiles b s" for t b by (simp add: untouched_def active_profiles_def)
  have upd: "keeps ?P (nt_stmt (update_campaign hit patch))" for hit patch
    by (rule own_tables_stmt [OF own_untouched]) (auto simp: update_campaign_def untouched_def rows_of_def)
  have own: "own_tables (\<lambda>t. ?P t \<and> campaigns t = campaigns s)"
    by (simp add: own_tables_def untouched_def rows_of_def nt_base_update_def)
  have claim: "triple (\<lambda>t. ?P t \<and> campaigns t = campaigns s) (or_throw (nt_stmt (claim_campaign i))) ?Q ?P"
  proof (rule tripleI)
    fix u
    assume u: "?P u \<and> campaigns u = campaigns s"
    let ?u = "nt_base_update drop_fault u"
    have u': "?P ?u \<and> campaigns ?u = campaigns s" using u own by (simp add: own_tables_def)
    have "?Q r t" if run: "claim_campaign i ?u = Inr (r, t)" for r t
    proof -
      have "?P t" using run u' by (auto simp: claim_campaign_def update_campaign_def untouched_def rows_of_def split: sum.splits)
      moreover have "?skips (cp_audience c = AUD_OPERATORS)" if "r = Some c" for c
      proof -
        have "\<exists>c' \<in> set (campaigns s). cp_id c' = i \<and> cp_audience c' = cp_audience c"
          using run that u' by (auto simp: claim_campaign_def update_campaign_def maybe_single_def filter_eq_Cons_iff
              split: sum.splits list.splits)
        then obtain c' where c': "c' \<in> set (campaigns s)" "cp_id c' = i" "cp_audience c' = cp_audience c" by blast
        then have "?skips (cp_audience c' = AUD_OPERATORS)" using assms by (simp add: list_all_iff)
        then show ?thesis by (simp add: c'(3))
      qed
      ultimately show ?thesis by (auto split: option.split)
    qed
    then show "case or_throw (nt_stmt (claim_campaign i)) u of (Inl e, t) \<Rightarrow> ?P t | (Inr r, t) \<Rightarrow> ?Q r t"
      using u' by (auto simp: or_throw_def nt_stmt_def fault_stmt_def Let_def api_bind_def api_throw_def api_return_def split: sum.splits prod.splits)
  qed
  have body: "triple ?P (api_bind (or_throw (nt_rows (active_profiles b))) (\<lambda>ps.
      api_bind (mapBatches (\<lambda>p. createNotification W (campaign_input c p)) 25 ps) (\<lambda>_.
      api_bind (nt_stmt (update_campaign (\<lambda>x. cp_id x = i) (done ps))) (\<lambda>_. api_return ())))) (\<lambda>_. ?P) ?P"
    if "?skips b" for b c "done"
  proof (rule triple_bind [OF triple_nt_rows [OF own_untouched]])
    show "active_profiles b (nt_base_update f u) = active_profiles b u" for f u
      by (simp add: active_profiles_def nt_base_update_def)
    fix ps
    have "keeps ?P (api_bind (mapBatches (\<lambda>p. createNotification W (campaign_input c p)) 25 ps) (\<lambda>_.
        api_bind (nt_stmt (update_campaign (\<lambda>x. cp_id x = i) (done ps))) (\<lambda>_. api_return ())))"
      if "list_all (\<lambda>p. pf_id p \<noteq> uid) ps"
      by (intro keeps_bind untouched_batches upd keeps_return that) (simp add: campaign_input_def)
    then have "triple (\<lambda>t. ?P t \<and> list_all (\<lambda>p. pf_id p \<noteq> uid) ps) (api_bind (mapBatches (\<lambda>p. createNotification W (campaign_input c p)) 25 ps) (\<lambda>_.
        api_bind (nt_stmt (update_campaign (\<lambda>x. cp_id x = i) (done ps))) (\<lambda>_. api_return ()))) (\<lambda>_. ?P) ?P"
      by (intro triple_assume triple_keeps)
    then show "triple (\<lambda>t. ?P t \<and> ps = take MAX_ROWS (active_profiles b t)) (api_bind (mapBatches (\<lambda>p. createNotification W (campaign_input c p)) 25 ps) (\<lambda>_.
        api_bind (nt_stmt (update_campaign (\<lambda>x. cp_id x = i) (done ps))) (\<lambda>_. api_return ()))) (\<lambda>_. ?P) ?P"
      by (rule triple_weaken) (use that active in auto)
  qed
  have "triple (\<lambda>t. ?P t \<and> campaigns t = campaigns s) (dispatchCampaign W i) (\<lambda>_. ?P) ?P"
    unfolding dispatchCampaign_def
  proof (rule triple_bind [OF claim])
    fix r
    show "triple (?Q r) (case r of None \<Rightarrow> api_return ()
        | Some c \<Rightarrow> api_catch
           (api_bind (or_throw (nt_rows (active_profiles (cp_audience c = AUD_OPERATORS)))) (\<lambda>ps.
            api_bind (mapBatches (\<lambda>p. createNotification W (campaign_input c p)) 25 ps) (\<lambda>_.
            api_bind (nt_stmt (update_campaign (\<lambda>x. cp_id x = i)
              (\<lambda>x. x\<lparr>cp_status := CAMP_SENT, cp_recipient_count := length ps\<rparr>))) (\<lambda>_. api_return ()))))
           (\<lambda>e. api_bind (nt_stmt (update_campaign (\<lambda>x. cp_id x = i)
              (\<lambda>x. x\<lparr>cp_status := CAMP_FAILED, cp_error := Some (exn_message e)\<rparr>))) (\<lambda>_. api_throw e))) (\<lambda>_. ?P) ?P"
    proof (cases r)
      case None
      then show ?thesis by (simp add: triple_return)
    next
      case (Some c)
      have handler: "triple ?P (api_bind (nt_stmt (update_campaign (\<lambda>x. cp_id x = i)
          (\<lambda>x. x\<lparr>cp_status := CAMP_FAILED, cp_error := Some (exn_message e)\<rparr>))) (\<lambda>_. api_throw e)) (\<lambda>_. ?P) ?P" for e
        by (rule triple_keeps) (intro keeps_bind upd keeps_throw)
      show ?thesis
        unfolding Some option.case
        by (rule triple_assume, rule triple_catch [OF body handler])
    qed
  qed
  from tripleD [OF this, of s] show ?thesis
    by (auto simp: untouched_def split: prod.splits sum.splits)
qed

section \<open>A concrete service\<close>

definition demo_notif_world :: notif_world where
  "demo_notif_world = \<lparr>nw_plan = demo_world, nw_local_time = (\<lambda>t z. Some ((t div 3600000) mod 24, (t div 60000) mod 60)),
     nw_iso = (\<lambda>_. ''2026-08-01T12:00:00.000Z''), nw_rendered = show_int, nw_pg_time = (\<lambda>t. Some (int (digits_val t))),
     nw_date_parse_ok = (\<lambda>_. True), nw_b64_encode = id, nw_b64_decode = id\<rparr>"

definition demo_columns :: profile_columns where
  "demo_columns = \<lparr>pc_display_name = ''Demo'', pc_locale = ''bn'', pc_timezone = ''Asia/Dhaka'', pc_base_currency = ''BDT'',
     pc_week_starts_on = 0, pc_amount_privacy_default = False, pc_theme_preference = ''SYSTEM'', pc_onboarding_status = ''COMPLETED'',
     pc_persona = None, pc_suspended_at = None, pc_suspended_reason = None, pc_deletion_requested_at = None,
     pc_deletion_scheduled_for = None, pc_created_at = 0, pc_updated_at = 0\<rparr>"

definition demo_profile :: profile where
  "demo_profile = \<lparr>pf_id = ''u1'', pf_status = PF_ACTIVE, pf_is_super_admin = False,
     pf_quiet = \<lparr>qp_start = Some ''22:00:00'', qp_end = Some ''07:00:00'', qp_tz = None\<rparr>, pf_columns = demo_columns\<rparr>"

definition demo_device :: user_device where
  "demo_device = \<lparr>ud_id = ''d1'', ud_user_id = ''u1'', ud_push_token = Some ''token'', ud_push_provider = Some ''expo'', ud_revoked_at = None,
     ud_columns = \<lparr>dc_device_id = ''phone'', dc_platform = ''android'', dc_device_name = None, dc_os_version = None, dc_app_version = None,
       dc_last_seen_at = 0, dc_last_ip = None, dc_first_seen_at = 0\<rparr>\<rparr>"

text \<open>The user has turned push off for budgets; the clock stands at noon.\<close>

definition demo_notif :: notif_db where
  "demo_notif = \<lparr>nt_plan = demo_plan, nt_profiles = [demo_profile], nt_devices = [demo_device],
     nt_prefs = [(''u1'', \<lparr>pr_category = N_budget, pr_in_app = True, pr_push = False, pr_email = False, pr_digest = D_NONE\<rparr>)],
     notifications = [], deliveries = [], campaigns = [], templates = [], alerts = [], audit_events = [],
     nt_clock = 43200000, nt_calls = 0, nt_sent = []\<rparr>"

definition demo_input :: create_notification_input where
  "demo_input = \<lparr>ci_user_id = ''u1'', ci_workspace_id = None, ci_category = N_budget, ci_severity = None,
     ci_title_en = ''Budget'', ci_title_bn = None, ci_body_en = ''Body'', ci_body_bn = None, ci_action_url = None,
     ci_resource_type = None, ci_resource_id = None, ci_metadata = None, ci_dedupe_key = Some ''k'', ci_expires_at = None\<rparr>"

definition demo_row :: notification where
  "demo_row = notification_row demo_input (default_preference N_budget) SEV_INFO ''n1'' 0"

lemma demo_notif_faults [simp]: "faults (nt_base demo_notif) = []"
  by (simp add: nt_base_def demo_notif_def demo_plan_def)

theorem duplicate_notification_dropped_witness:
  "same_rows (demo_notif\<lparr>notifications := [demo_row]\<rparr>)
     (snd (createNotification demo_notif_world demo_input (demo_notif\<lparr>notifications := [demo_row]\<rparr>)))"
  by (rule duplicate_notification_dropped [where n = demo_row and k = "''k''"])
    (simp_all add: demo_row_def demo_input_def notification_row_def)


theorem campaign_skips_users_beyond_cap_witness:
  "rows_of ''u9'' (snd (dispatchCampaign demo_notif_world ''c1'' demo_notif)) = rows_of ''u9'' demo_notif"
  by (rule campaign_skips_users_beyond_cap) (simp add: demo_notif_def)

text \<open>
   The reads of preferences do not look at their error: when the read fails, the defaults decide,
  and a user who turned push off for a category is sent a push.
\<close>

theorem failed_preference_read_ignored:
  "list_ex (\<lambda>d. dl_channel d = CH_push \<and> dl_status d = DLV_PENDING)
     (deliveries (snd (createNotification demo_notif_world demo_input
       (nt_base_update (\<lambda>l. l\<lparr>faults := [Some (pg ''57014'')]\<rparr>) demo_notif))))
   \<and> \<not> list_ex (\<lambda>d. dl_channel d = CH_push \<and> dl_status d = DLV_PENDING)
     (deliveries (snd (createNotification demo_notif_world demo_input demo_notif)))"
proof -
  let ?s = "nt_base_update (\<lambda>l. l\<lparr>faults := [Some (pg ''57014'')]\<rparr>) demo_notif"
  have quiet: "quiet_at demo_notif_world 43200000 (Some demo_profile) = False"
    by (simp add: quiet_at_def isInQuietHours_def demo_notif_world_def demo_profile_def truthy_def toMinutes_def time_part_def
        is_digit_def digits_val_def digit_val_def num_le_def num_less_def)
  have ids: "env_uuid demo_env i = env_uuid demo_env j \<longleftrightarrow> i = j" for i j using inj_demo_uuid by (auto simp: inj_def)
  have ids': "env_uuid (pw_env demo_world) i = env_uuid (pw_env demo_world) j \<longleftrightarrow> i = j" for i j
    using ids by (simp add: demo_world_def)
  note run = createNotification_def api_bind_def nt_rows_def nt_read_def nt_stmt_def fault_stmt_def Let_def api_reads_def
    nt_base_def nt_base_update_def demo_notif_def demo_input_def prefs_of_def push_devices_def maybe_single_def demo_device_def
    demo_profile_def drop_fault_def demo_plan_def MAX_ROWS_def data_list_def data_maybe_def resolvePreference_def
    file_notification_def new_ids_def insert_notification_def demo_notif_world_def
    delivery_rows_def email_deliveries_def in_app_delivery_def delivery_row_def truthy_def insert_deliveries_def with_ids_def
    delivery_key_def notification_row_def quiet_at_def suppressionReason_def api_return_def
    quiet [unfolded quiet_at_def demo_notif_world_def demo_profile_def, simplified]
  have failed: "list_ex (\<lambda>d. dl_channel d = CH_push \<and> dl_status d = DLV_PENDING)
     (deliveries (snd (createNotification demo_notif_world demo_input ?s)))"
    by (simp add: run ids' default_preference_def)
  have fine: "\<not> list_ex (\<lambda>d. dl_channel d = CH_push \<and> dl_status d = DLV_PENDING)
     (deliveries (snd (createNotification demo_notif_world demo_input demo_notif)))"
    by (simp add: run ids')
  show ?thesis using failed fine by blast
qed

end
