(* ===== verification/Delivery.thy ===== *)
theory Delivery
  imports Notifications
begin

text \<open>
  The delivery worker of the notification service: claiming deliveries under a lease
  (\<^verbatim>\<open>claim_notification_deliveries\<close>, migration 00033), sending them to the providers, recording
  the outcome, releasing what quiet hours held back, and the receipts of Expo. How the workers of
  several replicas interleave is in \<^verbatim>\<open>Fleet\<close>.
\<close>

section \<open>Providers\<close>

record mail =
  ml_from :: string
  ml_to :: string
  ml_subject :: string
  ml_text :: string
  ml_html :: string
  ml_notification_id :: string

text \<open>
  The providers answer call number \<open>n\<close>: \<open>Inl\<close> is the message of a thrown error (connection, timeout,
  a refused message). \<open>dw_took\<close> is the time a call takes. \<open>dw_url\<close> is \<open>new URL(a, base).toString()\<close>,
  \<open>dw_parse\<close> is \<open>JSON.parse\<close>; both may throw. The configuration is the environment of the process.
\<close>

record delivery_world =
  dw_notif :: notif_world
  dw_worker_id :: string
  dw_http :: "nat \<Rightarrow> string \<Rightarrow> json \<Rightarrow> string + nat \<times> json option"
  dw_smtp :: "nat \<Rightarrow> mail \<Rightarrow> string + string"
  dw_webpush :: "nat \<Rightarrow> json \<Rightarrow> json \<Rightarrow> string \<Rightarrow> string + string option"
  dw_took :: "nat \<Rightarrow> nat"
  dw_parse :: "string \<Rightarrow> json option"
  dw_url :: "string \<Rightarrow> string \<Rightarrow> string option"
  dw_email_of :: "string \<Rightarrow> string + string option"
  dw_web_url :: "string option"
  dw_email_from :: "string option"
  dw_vapid_keys :: "(string \<times> string) option"

definition provider :: "delivery_world \<Rightarrow> (nat \<Rightarrow> string + 'a) \<Rightarrow> (notif_db, 'a) api" where
  "provider D answer s =
     (case answer (nt_calls s) of Inl m \<Rightarrow> Inl (Js_error m) | Inr x \<Rightarrow> Inr x,
      s\<lparr>nt_calls := Suc (nt_calls s), nt_clock := nt_clock s + int (dw_took D (nt_calls s))\<rparr>)"

definition jopt :: "string option \<Rightarrow> json" where
  "jopt v = (case v of None \<Rightarrow> JNull | Some s \<Rightarrow> JStr s)"

text \<open>\<open>sendExpoPush\<close>: what the answer of Expo means.\<close>

definition expo_ticket :: "nat \<times> json option \<Rightarrow> string + string option" where
  "expo_ticket answer =
     (let (status, body) = answer in
      if \<not> (200 \<le> status \<and> status \<le> 299) then Inl (''Expo Push returned HTTP '' @ show_nat status)
      else case body of
        None \<Rightarrow> Inl ''Unexpected token in JSON''
      | Some JNull \<Rightarrow> Inl ''Cannot read properties of null''
      | Some payload \<Rightarrow>
          (case jget payload ''data'' of
             None \<Rightarrow> Inr None
           | Some ticket \<Rightarrow>
               if jget ticket ''status'' = Some (JStr ''error'')
               then Inl (case jget ticket ''message'' of Some (JStr m) \<Rightarrow> m | _ \<Rightarrow> ''Expo Push rejected message'')
               else Inr (case jget ticket ''id'' of Some (JStr i) \<Rightarrow> Some i | _ \<Rightarrow> None)))"

definition expo_message :: "string \<Rightarrow> notification \<Rightarrow> json" where
  "expo_message token n = JObj
     [(''to'', JStr token), (''title'', JStr (nf_title_en n)), (''body'', JStr (nf_body_en n)),
      (''data'', JObj [(''notificationId'', JStr (nf_id n)), (''actionUrl'', jopt (nf_action_url n))]),
      (''channelId'', JStr (category_name (nf_category n))), (''sound'', JStr ''default'')]"

definition sendExpoPush :: "delivery_world \<Rightarrow> string \<Rightarrow> notification \<Rightarrow> (notif_db, string option) api" where
  "sendExpoPush D token n =
     provider D (\<lambda>k. case dw_http D k ''https://exp.host/--/api/v2/push/send'' (expo_message token n) of
       Inl m \<Rightarrow> Inl m | Inr answer \<Rightarrow> expo_ticket answer)"

definition mail_of :: "delivery_world \<Rightarrow> string \<Rightarrow> notification \<Rightarrow> string \<Rightarrow> mail" where
  "mail_of D to n action =
     \<lparr>ml_from = (case dw_email_from D of None \<Rightarrow> ''NoorixFin <notifications@localhost>'' | Some f \<Rightarrow> f),
      ml_to = to, ml_subject = nf_title_en n,
      ml_text = nf_body_en n @ [CHR 10, CHR 10] @ ''Open NoorixFin: '' @ action,
      ml_html = ''<h2>'' @ escapeHtml (nf_title_en n) @ ''</h2><p>'' @ escapeHtml (nf_body_en n)
        @ ''</p><p><a href='' @ [CHR 34] @ escapeHtml action @ [CHR 34] @ ''>Open NoorixFin</a></p>'',
      ml_notification_id = nf_id n\<rparr>"

definition sendEmail :: "delivery_world \<Rightarrow> string \<Rightarrow> notification \<Rightarrow> (notif_db, string) api" where
  "sendEmail D to n =
     (let baseUrl = (case dw_web_url D of None \<Rightarrow> ''http://localhost:3000'' | Some u \<Rightarrow> u) in
      case (case truthy (nf_action_url n) of None \<Rightarrow> Some (baseUrl @ ''/dashboard/notifications'')
              | Some a \<Rightarrow> dw_url D a baseUrl) of
        None \<Rightarrow> api_throw (Js_error ''Invalid URL'')
      | Some action \<Rightarrow> provider D (\<lambda>k. dw_smtp D k (mail_of D to n action)))"

definition webpush_message :: "notification \<Rightarrow> json" where
  "webpush_message n = JObj
     [(''notificationId'', JStr (nf_id n)), (''title'', JStr (nf_title_en n)), (''body'', JStr (nf_body_en n)),
      (''actionUrl'', JStr (case nf_action_url n of None \<Rightarrow> ''/dashboard/notifications'' | Some a \<Rightarrow> a)),
      (''category'', JStr (category_name (nf_category n)))]"

definition sendWebPush :: "delivery_world \<Rightarrow> json \<Rightarrow> notification \<Rightarrow> (notif_db, string option) api" where
  "sendWebPush D subscription n =
     (case dw_vapid_keys D of
        None \<Rightarrow> api_throw (Js_error ''VAPID keys are not configured'')
      | Some _ \<Rightarrow> provider D (\<lambda>k. dw_webpush D k subscription (webpush_message n)
          (if nf_category n = N_security then ''high'' else ''normal'')))"

section \<open>Leases\<close>

definition claimable :: "time \<Rightarrow> delivery \<Rightarrow> bool" where
  "claimable now d \<longleftrightarrow> dl_status d = DLV_PENDING \<and> dl_attempts d < 5 \<and> dl_next_attempt_at d \<le> now
     \<and> (case dl_lease_expires_at d of None \<Rightarrow> True | Some t \<Rightarrow> t \<le> now)"

definition claim_order :: "delivery list \<Rightarrow> delivery list" where
  "claim_order ds = sort_key dl_next_attempt_at (sort_key dl_created_at (sort_key dl_id ds))"

definition leased :: "string \<Rightarrow> int \<Rightarrow> time \<Rightarrow> delivery \<Rightarrow> delivery" where
  "leased w seconds now d = d\<lparr>dl_lease_owner := Some w,
     dl_lease_expires_at := Some (now + 1000 * min (max seconds 30) 900), dl_last_attempt_at := Some now\<rparr>"

definition claim_deliveries ::
    "string \<Rightarrow> nat \<Rightarrow> int \<Rightarrow> time \<Rightarrow> delivery list \<Rightarrow> delivery list \<times> delivery list" where
  "claim_deliveries w batch seconds now rows =
     (let chosen = take (min (max batch 1) 100) (claim_order (filter (claimable now) rows)) in
      (map (leased w seconds now) chosen,
       map (\<lambda>d. if dl_id d \<in> dl_id ` set chosen then leased w seconds now d else d) rows))"

text \<open>The UPDATEs that record an outcome reach the row only while the worker still owns it.\<close>

definition update_leased :: "string \<Rightarrow> string \<Rightarrow> (delivery \<Rightarrow> delivery) \<Rightarrow> delivery list \<Rightarrow> delivery list" where
  "update_leased w i patch rows = map (\<lambda>d. if dl_id d = i \<and> dl_lease_owner d = Some w then patch d else d) rows"

definition record_sent :: "string \<Rightarrow> delivery \<Rightarrow> string option \<Rightarrow> time \<Rightarrow> delivery list \<Rightarrow> delivery list" where
  "record_sent w d pid now = update_leased w (dl_id d) (\<lambda>x. x\<lparr>dl_status := DLV_SENT,
     dl_attempts := dl_attempts d + 1, dl_provider_id := pid, dl_sent_at := Some now, dl_error := None,
     dl_lease_owner := None, dl_lease_expires_at := None\<rparr>)"

definition record_failure :: "string \<Rightarrow> delivery \<Rightarrow> string \<Rightarrow> time \<Rightarrow> delivery list \<Rightarrow> delivery list" where
  "record_failure w d msg now =
     (let attempts = dl_attempts d + 1; failed = MAX_DELIVERY_ATTEMPTS \<le> attempts in
      update_leased w (dl_id d) (\<lambda>x. x\<lparr>dl_status := (if failed then DLV_FAILED else DLV_PENDING),
        dl_attempts := attempts, dl_error := Some (js_slice 0 1000 msg),
        dl_next_attempt_at := now + deliveryBackoffSeconds attempts * 1000,
        dl_lease_owner := None, dl_lease_expires_at := None,
        dl_dead_lettered_at := (if failed then Some now else None)\<rparr>))"

text \<open>The UPDATE that ends a suppression has no condition but the id.\<close>

definition release_row :: "string \<Rightarrow> time \<Rightarrow> delivery list \<Rightarrow> delivery list" where
  "release_row i now rows = map (\<lambda>d. if dl_id d = i then d\<lparr>dl_status := DLV_PENDING, dl_error := None,
     dl_next_attempt_at := now, dl_lease_owner := None, dl_lease_expires_at := None\<rparr> else d) rows"

definition held_back :: "delivery \<Rightarrow> bool" where
  "held_back d \<longleftrightarrow> dl_status d = DLV_SUPPRESSED \<and> dl_error d = Some ''Suppressed during quiet hours''"

section \<open>The worker\<close>

definition device_of :: "delivery \<Rightarrow> notif_db \<Rightarrow> pg_error + user_device" where
  "device_of d s = single [v \<leftarrow> nt_devices s. Some (ud_id v) = dl_device_id d \<and> ud_revoked_at v = None]"

definition accepted :: "string \<Rightarrow> (notif_db, unit) api" where
  "accepted i s = (Inr (), s\<lparr>nt_sent := nt_sent s @ [i]\<rparr>)"

definition send_delivery :: "delivery_world \<Rightarrow> delivery \<Rightarrow> notification \<Rightarrow> (notif_db, string option) api" where
  "send_delivery D d n =
     (case dl_channel d of
        CH_push \<Rightarrow>
          api_bind (or_throw (nt_read (device_of d))) (\<lambda>v.
          case (truthy (ud_push_token v), ud_push_provider v = Some ''expo'') of
            (Some token, True) \<Rightarrow> sendExpoPush D token n
          | _ \<Rightarrow> api_throw (Js_error ''Unsupported or missing mobile push provider''))
      | CH_email \<Rightarrow>
          (case dw_email_of D (nf_user_id n) of
             Inl m \<Rightarrow> api_throw (Js_error m)
           | Inr address \<Rightarrow>
               (case truthy address of
                  None \<Rightarrow> api_throw (Js_error ''Recipient email missing'')
                | Some to \<Rightarrow> api_bind (sendEmail D to n) (\<lambda>i. api_return (Some i))))
      | CH_webpush \<Rightarrow>
          api_bind (or_throw (nt_read (device_of d))) (\<lambda>v.
          case truthy (ud_push_token v) of
            None \<Rightarrow> api_throw (Js_error ''Web Push subscription missing'')
          | Some token \<Rightarrow>
              (case dw_parse D token of
                 None \<Rightarrow> api_throw (Js_error ''Unexpected token in JSON'')
               | Some subscription \<Rightarrow> sendWebPush D subscription n))
      | CH_in_app \<Rightarrow> api_return None)"

definition on_deliveries :: "(time \<Rightarrow> delivery list \<Rightarrow> delivery list) \<Rightarrow> (notif_db, unit) api" where
  "on_deliveries f =
     api_bind (api_reads nt_clock) (\<lambda>now.
     api_bind (nt_stmt (\<lambda>s. Inr ((), s\<lparr>deliveries := f now (deliveries s)\<rparr>))) (\<lambda>_. api_return ()))"

definition deliver :: "delivery_world \<Rightarrow> delivery \<Rightarrow> (notif_db, unit) api" where
  "deliver D d =
     api_bind (or_throw (nt_read (\<lambda>s. single [n \<leftarrow> notifications s. nf_id n = dl_notification_id d]))) (\<lambda>n.
     api_catch
       (api_bind (send_delivery D d n) (\<lambda>pid.
        api_bind (accepted (dl_id d)) (\<lambda>_.
        on_deliveries (record_sent (dw_worker_id D) d pid))))
       (\<lambda>cause. on_deliveries (record_failure (dw_worker_id D) d (exn_message cause))))"

definition processPendingDeliveries :: "delivery_world \<Rightarrow> (notif_db, unit) api" where
  "processPendingDeliveries D =
     api_bind (api_reads nt_clock) (\<lambda>now.
     api_bind (or_throw (nt_stmt (\<lambda>s.
       case claim_deliveries (dw_worker_id D) 50 DELIVERY_LEASE_SECONDS now (deliveries s) of
         (claimed, rows) \<Rightarrow> Inr (claimed, s\<lparr>deliveries := rows\<rparr>)))) (\<lambda>claimed.
     api_bind (api_map (deliver D) claimed) (\<lambda>_. api_return ())))"

definition release_one :: "delivery_world \<Rightarrow> string \<times> string \<Rightarrow> (notif_db, unit) api" where
  "release_one D row =
     api_bind (or_throw (nt_read (\<lambda>s. single [p \<leftarrow> nt_profiles s. pf_id p = snd row]))) (\<lambda>p.
     api_bind (api_reads nt_clock) (\<lambda>now.
     if quiet_at (dw_notif D) now (Some p) then api_return () else on_deliveries (release_row (fst row))))"

definition held_back_rows :: "notif_db \<Rightarrow> (string \<times> string) list" where
  "held_back_rows s = [(dl_id d, nf_user_id n). d \<leftarrow> filter held_back (deliveries s),
     n \<leftarrow> filter (\<lambda>n. nf_id n = dl_notification_id d) (notifications s)]"

definition releaseQuietHourDeliveries :: "delivery_world \<Rightarrow> (notif_db, unit) api" where
  "releaseQuietHourDeliveries D =
     api_bind (or_throw (nt_read (\<lambda>s. Inr (take 100 (held_back_rows s))))) (\<lambda>rows.
     api_bind (api_map (release_one D) rows) (\<lambda>_. api_return ()))"

definition receipt_update :: "json \<Rightarrow> delivery \<Rightarrow> delivery" where
  "receipt_update receipt d =
     (if jget receipt ''status'' = Some (JStr ''ok'') then d\<lparr>dl_status := DLV_DELIVERED, dl_error := None\<rparr>
      else d\<lparr>dl_status := DLV_FAILED,
        dl_error := Some (case jget receipt ''message'' of Some (JStr m) \<Rightarrow> m | _ \<Rightarrow> ''Expo delivery failed'')\<rparr>)"

definition apply_receipt :: "json option \<Rightarrow> string \<times> string \<Rightarrow> (notif_db, unit) api" where
  "apply_receipt receipts row =
     (case receipts of
        None \<Rightarrow> api_return ()
      | Some rs \<Rightarrow>
          (case (if snd row = [] then None else jget rs (snd row)) of
             None \<Rightarrow> api_return ()
           | Some receipt \<Rightarrow>
               if json_truthy receipt
               then on_deliveries (\<lambda>_. map (\<lambda>d. if dl_id d = fst row then receipt_update receipt d else d))
               else api_return ()))"

definition awaiting_receipt :: "notif_db \<Rightarrow> (string \<times> string) list" where
  "awaiting_receipt s = [(dl_id d, p). d \<leftarrow> filter (\<lambda>d. dl_channel d = CH_push \<and> dl_status d = DLV_SENT) (deliveries s),
     Some p \<leftarrow> [dl_provider_id d]]"

definition processExpoReceipts :: "delivery_world \<Rightarrow> (notif_db, unit) api" where
  "processExpoReceipts D =
     api_bind (or_throw (nt_read (\<lambda>s. Inr (take 100 (awaiting_receipt s))))) (\<lambda>rows.
     if rows = [] then api_return ()
     else
       api_bind (provider D (\<lambda>k. dw_http D k ''https://exp.host/--/api/v2/push/getReceipts''
         (JObj [(''ids'', JArr (map (JStr \<circ> snd) rows))]))) (\<lambda>answer.
       if \<not> (200 \<le> fst answer \<and> fst answer \<le> 299) then api_return ()
       else case snd answer of
         None \<Rightarrow> api_throw (Js_error ''Unexpected token in JSON'')
       | Some JNull \<Rightarrow> api_throw (Js_error ''Cannot read properties of null'')
       | Some body \<Rightarrow> api_bind (api_map (apply_receipt (jget body ''data'')) rows) (\<lambda>_. api_return ())))"

definition alert_input :: "string \<times> string option \<Rightarrow> profile \<Rightarrow> create_notification_input" where
  "alert_input alert p =
     (let (key, fired) = alert in
      \<lparr>ci_user_id = pf_id p, ci_workspace_id = None, ci_category = N_operator, ci_severity = Some SEV_CRITICAL,
       ci_title_en = ''Operator alert firing'', ci_title_bn = Some bn_alert,
       ci_body_en = key @ '' requires attention.'', ci_body_bn = Some (ucs_of key @ bn_attention),
       ci_action_url = Some ''/admin/monitoring/alerts'', ci_resource_type = Some ''alert_state'',
       ci_resource_id = None, ci_metadata = Some (JObj [(''alert_key'', JStr key)]),
       ci_dedupe_key = Some (''alert:'' @ key @ '':'' @ (case fired of None \<Rightarrow> ''active'' | Some t \<Rightarrow> t)),
       ci_expires_at = None\<rparr>)"

definition routeFiringAlerts :: "notif_world \<Rightarrow> (notif_db, unit) api" where
  "routeFiringAlerts W =
     api_bind (nt_rows (\<lambda>s. [(k, t). (k, firing, t) \<leftarrow> alerts s, firing])) (\<lambda>firing.
     api_bind (nt_rows (active_profiles True)) (\<lambda>operators.
     api_bind (or_throw (api_return firing)) (\<lambda>as.
     api_bind (or_throw (api_return operators)) (\<lambda>ps.
     api_bind (api_map (\<lambda>a. mapBatches (\<lambda>p. createNotification W (alert_input a p)) 25 ps) as) (\<lambda>_. api_return ())))))"

definition upcoming_events :: "string \<Rightarrow> string \<Rightarrow> notif_db \<Rightarrow> calendar_event list" where
  "upcoming_events today through s = [e \<leftarrow> calendar_events (nt_plan s). ce_status e = EV_UPCOMING
     \<and> ce_recurring_rule_id e \<noteq> None \<and> today \<le> ce_local_date e \<and> ce_local_date e \<le> through]"

definition reminder_input :: "calendar_event \<Rightarrow> member \<Rightarrow> create_notification_input" where
  "reminder_input e m =
     \<lparr>ci_user_id = mb_user_id m, ci_workspace_id = Some (ce_workspace_id e), ci_category = N_recurring,
      ci_severity = Some SEV_INFO, ci_title_en = ''Recurring item coming up'', ci_title_bn = Some bn_recurring,
      ci_body_en = ce_title e @ '' is due on '' @ ce_local_date e @ ''.'',
      ci_body_bn = Some (ucs_of (ce_title e @ '' '' @ ce_local_date e) @ bn_scheduled),
      ci_action_url = Some ''/dashboard/calendar'', ci_resource_type = Some ''calendar_event'',
      ci_resource_id = Some (ce_id e), ci_metadata = None,
      ci_dedupe_key = Some (''recurring-upcoming:'' @ ce_id e @ '':'' @ ce_local_date e), ci_expires_at = None\<rparr>"

definition remind :: "notif_world \<Rightarrow> calendar_event \<Rightarrow> (notif_db, unit) api" where
  "remind W e =
     api_bind (or_throw (nt_rows (\<lambda>s. [m \<leftarrow> members (nt_base s). mb_workspace_id m = ce_workspace_id e
       \<and> mb_status m = MEMBER_ACTIVE]))) (\<lambda>ms.
     mapBatches (\<lambda>m. createNotification W (reminder_input e m)) 25 ms)"

definition routeUpcomingRecurringEvents :: "notif_world \<Rightarrow> (notif_db, unit) api" where
  "routeUpcomingRecurringEvents W =
     api_bind (api_reads nt_clock) (\<lambda>now.
     let today = js_slice 0 10 (nw_iso W now); through = js_slice 0 10 (nw_iso W (now + 3 * 86400000)) in
     api_bind (or_throw (nt_read (\<lambda>s. Inr (take 200 (upcoming_events today through s))))) (\<lambda>events.
     api_bind (api_map (remind W) events) (\<lambda>_. api_return ())))"

definition dispatchDueCampaigns :: "notif_world \<Rightarrow> (notif_db, unit) api" where
  "dispatchDueCampaigns W =
     api_bind (api_reads nt_clock) (\<lambda>now.
     api_bind (or_throw (nt_read (\<lambda>s. Inr (take 10 [cp_id c. c \<leftarrow> campaigns s,
       cp_status c = CAMP_SCHEDULED \<and> cp_scheduled_for c \<le> now])))) (\<lambda>ids.
     api_bind (api_map (dispatchCampaign W) ids) (\<lambda>_. api_return ())))"

text \<open>One tick of the timer: a step that throws ends the tick; nothing is thrown further.\<close>

definition runWorker :: "delivery_world \<Rightarrow> (notif_db, unit) api" where
  "runWorker D =
     (let W = dw_notif D in
      api_catch
        (api_bind (dispatchDueCampaigns W) (\<lambda>_.
         api_bind (routeFiringAlerts W) (\<lambda>_.
         api_bind (routeUpcomingRecurringEvents W) (\<lambda>_.
         api_bind (releaseQuietHourDeliveries D) (\<lambda>_.
         api_bind (processPendingDeliveries D) (\<lambda>_.
         processExpoReceipts D))))))
        (\<lambda>_. api_return ()))"

end
