(* ===== verification/Fleet.thy ===== *)
theory Fleet
  imports Delivery
begin

text \<open>
  The delivery workers of several replicas as one state machine: events of the workers interleave
  on the one table of deliveries, time passes, and a replica may die between any two of its steps.
  A worker's steps are those of \<open>processPendingDeliveries\<close>, \<open>releaseQuietHourDeliveries\<close> and
  \<open>processExpoReceipts\<close>: what it has read and not yet acted on is kept beside the table, so a row
  may change in between. \<open>fl_sent\<close> lists the ids of the deliveries the providers accepted.
\<close>

section \<open>States and events\<close>

record job =
  jb_worker :: string
  jb_row :: delivery
  jb_result :: "(string + string option) option"

record fleet =
  fl_rows :: "delivery list"
  fl_clock :: time
  fl_jobs :: "job list"
  fl_looked :: "(string \<times> string) list"
  fl_asked :: "(string \<times> string) list"
  fl_sent :: "string list"

datatype event =
    Claim string
  | Send string string "string + string option"
  | Settle string string bool
  | Look string "string list"
  | Release string string bool
  | Ask string "string list"
  | Receipt string string json bool
  | Abandon string
  | File "delivery list"
  | Tick nat

definition empty_fleet :: "time \<Rightarrow> fleet" where
  "empty_fleet t = \<lparr>fl_rows = [], fl_clock = t, fl_jobs = [], fl_looked = [], fl_asked = [], fl_sent = []\<rparr>"

definition jb_id :: "job \<Rightarrow> string" where
  "jb_id j = dl_id (jb_row j)"

definition jb_expires :: "job \<Rightarrow> time" where
  "jb_expires j = (case dl_lease_expires_at (jb_row j) of None \<Rightarrow> 0 | Some t \<Rightarrow> t)"

definition is_job :: "string \<Rightarrow> string \<Rightarrow> job \<Rightarrow> bool" where
  "is_job w i j \<longleftrightarrow> jb_worker j = w \<and> jb_id j = i"

definition has_row :: "(delivery \<Rightarrow> bool) \<Rightarrow> string \<Rightarrow> fleet \<Rightarrow> bool" where
  "has_row P i s \<longleftrightarrow> list_ex (\<lambda>d. dl_id d = i \<and> P d) (fl_rows s)"

definition fresh_rows :: "delivery list \<Rightarrow> fleet \<Rightarrow> bool" where
  "fresh_rows ds s \<longleftrightarrow> distinct (map dl_id ds) \<and> list_all (\<lambda>d. \<not> has_row (\<lambda>_. True) (dl_id d) s
     \<and> dl_attempts d = 0 \<and> dl_lease_owner d = None \<and> dl_lease_expires_at d = None \<and> dl_provider_id d = None
     \<and> dl_dead_lettered_at d = None \<and> dl_status d \<in> {DLV_PENDING, DLV_SENT, DLV_SUPPRESSED}) ds"

definition settle_row :: "job \<Rightarrow> string + string option \<Rightarrow> time \<Rightarrow> delivery list \<Rightarrow> delivery list" where
  "settle_row j r now =
     (case r of
        Inl msg \<Rightarrow> record_failure (jb_worker j) (jb_row j) msg now
      | Inr pid \<Rightarrow> record_sent (jb_worker j) (jb_row j) pid now)"

definition receive :: "string \<Rightarrow> json \<Rightarrow> delivery list \<Rightarrow> delivery list" where
  "receive i receipt = map (\<lambda>d. if dl_id d = i then receipt_update receipt d else d)"

text \<open>
  \<open>None\<close>: the event cannot happen in this state. The flag of \<open>Settle\<close>, \<open>Release\<close> and \<open>Receipt\<close> tells
  whether the row is written: the statement may fail, unnoticed, and a worker may find nothing to do.
\<close>

fun exec :: "event \<Rightarrow> fleet \<Rightarrow> fleet option" where
  "exec (Claim w) s =
     (if list_ex (\<lambda>j. jb_worker j = w) (fl_jobs s) then None
      else (case claim_deliveries w 50 DELIVERY_LEASE_SECONDS (fl_clock s) (fl_rows s) of
        (claimed, rows) \<Rightarrow> Some (s\<lparr>fl_rows := rows,
          fl_jobs := fl_jobs s @ map (\<lambda>d. \<lparr>jb_worker = w, jb_row = d, jb_result = None\<rparr>) claimed\<rparr>)))"
| "exec (Send w i r) s =
     (if list_ex (\<lambda>j. is_job w i j \<and> jb_result j = None) (fl_jobs s)
      then Some (s\<lparr>fl_jobs := map (\<lambda>j. if is_job w i j \<and> jb_result j = None then j\<lparr>jb_result := Some r\<rparr> else j) (fl_jobs s),
        fl_sent := fl_sent s @ (case r of Inl _ \<Rightarrow> [] | Inr _ \<Rightarrow> [i])\<rparr>)
      else None)"
| "exec (Settle w i ok) s =
     (case filter (\<lambda>j. is_job w i j \<and> jb_result j \<noteq> None) (fl_jobs s) of
        [] \<Rightarrow> None
      | j # _ \<Rightarrow> Some (s\<lparr>fl_jobs := filter (\<lambda>k. \<not> is_job w i k) (fl_jobs s),
          fl_rows := (if ok then settle_row j (the (jb_result j)) (fl_clock s) (fl_rows s) else fl_rows s)\<rparr>))"
| "exec (Look w is) s =
     (if list_all (\<lambda>i. has_row held_back i s) is then Some (s\<lparr>fl_looked := fl_looked s @ map (Pair w) is\<rparr>) else None)"
| "exec (Release w i ok) s =
     (if (w, i) \<in> set (fl_looked s)
      then Some (s\<lparr>fl_looked := remove1 (w, i) (fl_looked s),
        fl_rows := (if ok then release_row i (fl_clock s) (fl_rows s) else fl_rows s)\<rparr>)
      else None)"
| "exec (Ask w is) s =
     (if list_all (\<lambda>i. has_row (\<lambda>d. dl_channel d = CH_push \<and> dl_status d = DLV_SENT \<and> dl_provider_id d \<noteq> None) i s) is
      then Some (s\<lparr>fl_asked := fl_asked s @ map (Pair w) is\<rparr>) else None)"
| "exec (Receipt w i receipt ok) s =
     (if (w, i) \<in> set (fl_asked s)
      then Some (s\<lparr>fl_asked := remove1 (w, i) (fl_asked s),
        fl_rows := (if ok then receive i receipt (fl_rows s) else fl_rows s)\<rparr>)
      else None)"
| "exec (Abandon w) s = Some (s\<lparr>fl_jobs := [j \<leftarrow> fl_jobs s. jb_worker j \<noteq> w],
     fl_looked := [x \<leftarrow> fl_looked s. fst x \<noteq> w], fl_asked := [x \<leftarrow> fl_asked s. fst x \<noteq> w]\<rparr>)"
| "exec (File ds) s = (if fresh_rows ds s then Some (s\<lparr>fl_rows := fl_rows s @ ds\<rparr>) else None)"
| "exec (Tick n) s = Some (s\<lparr>fl_clock := fl_clock s + int n\<rparr>)"

fun exec_all :: "event list \<Rightarrow> fleet \<Rightarrow> fleet option" where
  "exec_all [] s = Some s"
| "exec_all (e # es) s = (case exec e s of None \<Rightarrow> None | Some t \<Rightarrow> exec_all es t)"

text \<open>The runs in which every event is of a kind.\<close>

inductive reachable :: "(fleet \<Rightarrow> event \<Rightarrow> bool) \<Rightarrow> fleet \<Rightarrow> bool" for ok where
  reachable_init: "reachable ok (empty_fleet t)"
| reachable_step: "reachable ok s \<Longrightarrow> ok s e \<Longrightarrow> exec e s = Some t \<Longrightarrow> reachable ok t"

definition always :: "fleet \<Rightarrow> event \<Rightarrow> bool" where
  "always s e = True"

text \<open>A release is prompt when the row is still suppressed as it was when the worker looked.\<close>

fun prompt :: "fleet \<Rightarrow> event \<Rightarrow> bool" where
  "prompt s (Release w i ok) = (\<not> ok \<or> has_row (\<lambda>d. dl_status d = DLV_SUPPRESSED) i s)"
| "prompt s _ = True"

definition accepted_job :: "job \<Rightarrow> bool" where
  "accepted_job j = (case jb_result j of Some (Inr _) \<Rightarrow> True | _ \<Rightarrow> False)"

text \<open>
  Timely: prompt, a message goes out under a lease that still holds, and what a provider accepted
  is recorded before that lease ends.
\<close>

fun timely :: "fleet \<Rightarrow> event \<Rightarrow> bool" where
  "timely s (Send w i r) = list_all (\<lambda>j. is_job w i j \<longrightarrow> fl_clock s < jb_expires j) (fl_jobs s)"
| "timely s (Settle w i ok) = (ok \<or> list_all (\<lambda>j. is_job w i j \<longrightarrow> \<not> accepted_job j) (fl_jobs s))"
| "timely s (Abandon w) = list_all (\<lambda>j. jb_worker j = w \<longrightarrow> \<not> accepted_job j) (fl_jobs s)"
| "timely s (Tick n) = list_all (\<lambda>j. accepted_job j \<longrightarrow> fl_clock s + int n < jb_expires j) (fl_jobs s)"
| "timely s e = prompt s e"

fun all_events :: "(fleet \<Rightarrow> event \<Rightarrow> bool) \<Rightarrow> event list \<Rightarrow> fleet \<Rightarrow> bool" where
  "all_events ok [] s = True"
| "all_events ok (e # es) s = (ok s e \<and> (case exec e s of None \<Rightarrow> False | Some t \<Rightarrow> all_events ok es t))"

lemma reachable_run:
  "all_events ok es s \<Longrightarrow> reachable ok s \<Longrightarrow> exec_all es s = Some t \<Longrightarrow> reachable ok t"
  by (induction es arbitrary: s) (auto split: option.splits intro: reachable_step)

lemma reachable_mono: "reachable p s \<Longrightarrow> (\<And>u e. p u e \<Longrightarrow> q u e) \<Longrightarrow> reachable q s"
  by (induction rule: reachable.induct) (auto intro: reachable.intros)

section \<open>Leases\<close>

text \<open>While its lease lasts, a job's row stays as the worker claimed it.\<close>

definition holds_lease :: "job \<Rightarrow> delivery \<Rightarrow> bool" where
  "holds_lease j d \<longleftrightarrow> dl_id d = jb_id j \<and> dl_status d = DLV_PENDING \<and> dl_lease_owner d = Some (jb_worker j)
     \<and> dl_lease_expires_at d = Some (jb_expires j) \<and> dl_attempts d = dl_attempts (jb_row j)"

definition final :: "delivery \<Rightarrow> bool" where
  "final d \<longleftrightarrow> dl_status d \<in> {DLV_SENT, DLV_DELIVERED, DLV_FAILED}"

definition jobs_distinct :: "job list \<Rightarrow> bool" where
  "jobs_distinct js \<longleftrightarrow> distinct (map (\<lambda>j. (jb_worker j, jb_id j)) js)"

definition owned_pending :: "delivery list \<Rightarrow> bool" where
  "owned_pending ds \<longleftrightarrow> (\<forall>d \<in> set ds. dl_lease_owner d \<noteq> None \<longrightarrow> dl_status d = DLV_PENDING)"

definition leases_hold :: "fleet \<Rightarrow> bool" where
  "leases_hold s \<longleftrightarrow> (\<forall>j \<in> set (fl_jobs s). fl_clock s < jb_expires j \<longrightarrow> (\<exists>d \<in> set (fl_rows s). holds_lease j d))"

definition asked_final :: "fleet \<Rightarrow> bool" where
  "asked_final s \<longleftrightarrow> (\<forall>x \<in> set (fl_asked s). \<exists>d \<in> set (fl_rows s). dl_id d = snd x \<and> final d)"

definition fleet_inv :: "fleet \<Rightarrow> bool" where
  "fleet_inv s \<longleftrightarrow> distinct (map dl_id (fl_rows s)) \<and> jobs_distinct (fl_jobs s) \<and> owned_pending (fl_rows s)
     \<and> leases_hold s \<and> asked_final s"

lemma same_id_same_row:
  "distinct (map dl_id ds) \<Longrightarrow> d \<in> set ds \<Longrightarrow> e \<in> set ds \<Longrightarrow> dl_id d = dl_id e \<Longrightarrow> d = e"
  by (metis distinct_map inj_onD)

lemma jb_simps [simp]:
  "jb_id (j\<lparr>jb_result := r\<rparr>) = jb_id j" "jb_expires (j\<lparr>jb_result := r\<rparr>) = jb_expires j"
  "holds_lease (j\<lparr>jb_result := r\<rparr>) d = holds_lease j d" "is_job w i (j\<lparr>jb_result := r\<rparr>) = is_job w i j"
  by (simp_all add: jb_id_def jb_expires_def holds_lease_def is_job_def)

lemma leased_simps [simp]:
  "dl_id (leased w n t d) = dl_id d" "dl_status (leased w n t d) = dl_status d" "dl_attempts (leased w n t d) = dl_attempts d"
  "dl_lease_owner (leased w n t d) = Some w"
  by (simp_all add: leased_def)

lemma set_claim_order [simp]: "set (claim_order ds) = set ds"
  by (simp add: claim_order_def)

lemma claimed_rows:
  "claim_deliveries w n k t rows = (claimed, rows') \<Longrightarrow> \<exists>chosen. set chosen \<subseteq> {d \<in> set rows. claimable t d}
     \<and> claimed = map (leased w k t) chosen
     \<and> rows' = map (\<lambda>d. if dl_id d \<in> dl_id ` set chosen then leased w k t d else d) rows
     \<and> (distinct (map dl_id rows) \<longrightarrow> distinct (map dl_id chosen))"
  unfolding claim_deliveries_def Let_def
  apply (rule exI [of _ "take (min (max n 1) 100) (claim_order (filter (claimable t) rows))"])
  apply (auto dest: in_set_takeD simp: take_map [symmetric] claim_order_def)
  apply (intro distinct_take)
  apply (simp add: distinct_map inj_on_def distinct_map_filter)
  done

text \<open>Every write to the table keeps the ids; what it must respect is stated on the row's function.\<close>

lemma map_rows_inv:
  assumes inv: "fleet_inv s" and id: "\<And>d. dl_id (f d) = dl_id d"
    and owned: "\<And>d. d \<in> set (fl_rows s) \<Longrightarrow> (dl_lease_owner d \<noteq> None \<Longrightarrow> dl_status d = DLV_PENDING)
        \<Longrightarrow> dl_lease_owner (f d) \<noteq> None \<Longrightarrow> dl_status (f d) = DLV_PENDING"
    and held: "\<And>j d. j \<in> set js \<Longrightarrow> fl_clock s < jb_expires j \<Longrightarrow> d \<in> set (fl_rows s) \<Longrightarrow> holds_lease j d \<Longrightarrow> holds_lease j (f d)"
    and asked: "\<And>x d. x \<in> set as \<Longrightarrow> d \<in> set (fl_rows s) \<Longrightarrow> dl_id d = snd x \<Longrightarrow> final d \<Longrightarrow> final (f d)"
    and "set js \<subseteq> set (fl_jobs s)" "jobs_distinct js" "set as \<subseteq> set (fl_asked s)"
  shows "fleet_inv (s\<lparr>fl_rows := map f (fl_rows s), fl_jobs := js, fl_asked := as\<rparr>)"
proof -
  have "dl_id \<circ> f = dl_id" using id by (simp add: fun_eq_iff)
  then have "distinct (map dl_id (map f (fl_rows s)))" using inv by (simp add: fleet_inv_def)
  moreover have "owned_pending (map f (fl_rows s))" using inv owned by (auto simp: fleet_inv_def owned_pending_def)
  moreover have "leases_hold (s\<lparr>fl_rows := map f (fl_rows s), fl_jobs := js, fl_asked := as\<rparr>)"
    using inv held assms(6) by (fastforce simp: fleet_inv_def leases_hold_def)
  moreover have "asked_final (s\<lparr>fl_rows := map f (fl_rows s), fl_jobs := js, fl_asked := as\<rparr>)"
    using inv asked assms(8) id by (fastforce simp: fleet_inv_def asked_final_def)
  ultimately show ?thesis using inv assms(7) by (simp add: fleet_inv_def)
qed

lemma inv_job_unique:
  "fleet_inv s \<Longrightarrow> j \<in> set (fl_jobs s) \<Longrightarrow> k \<in> set (fl_jobs s) \<Longrightarrow> jb_worker j = jb_worker k \<Longrightarrow> jb_id j = jb_id k \<Longrightarrow> j = k"
  by (auto simp: fleet_inv_def jobs_distinct_def distinct_map inj_on_def)

lemma inv_row_unique:
  "fleet_inv s \<Longrightarrow> d \<in> set (fl_rows s) \<Longrightarrow> e \<in> set (fl_rows s) \<Longrightarrow> dl_id d = dl_id e \<Longrightarrow> d = e"
  by (auto simp: fleet_inv_def intro: same_id_same_row)

lemma jobs_distinct_filter: "jobs_distinct js \<Longrightarrow> jobs_distinct (filter P js)"
  by (simp add: jobs_distinct_def distinct_map_filter)

lemma inv_claim:
  assumes inv: "fleet_inv s" and run: "exec (Claim w) s = Some t"
  shows "fleet_inv t"
proof -
  let ?now = "fl_clock s" and ?k = DELIVERY_LEASE_SECONDS
  obtain claimed rows' where c: "claim_deliveries w 50 ?k ?now (fl_rows s) = (claimed, rows')" by fastforce
  obtain chosen where sub: "set chosen \<subseteq> {d \<in> set (fl_rows s). claimable ?now d}"
    and claimed: "claimed = map (leased w ?k ?now) chosen"
    and rows': "rows' = map (\<lambda>d. if dl_id d \<in> dl_id ` set chosen then leased w ?k ?now d else d) (fl_rows s)"
    and "distinct (map dl_id (fl_rows s)) \<longrightarrow> distinct (map dl_id chosen)"
    using claimed_rows [OF c] by blast
  then have dist: "distinct (map dl_id chosen)" using inv by (simp add: fleet_inv_def)
  have chosen: "\<forall>d \<in> set chosen. d \<in> set (fl_rows s) \<and> claimable ?now d" using sub by auto
  let ?f = "\<lambda>d. if dl_id d \<in> dl_id ` set chosen then leased w ?k ?now d else d"
  let ?new = "map (\<lambda>d. \<lparr>jb_worker = w, jb_row = d, jb_result = None\<rparr>) claimed"
  have idle: "\<forall>j \<in> set (fl_jobs s). jb_worker j \<noteq> w"
    and t: "t = s\<lparr>fl_rows := map ?f (fl_rows s), fl_jobs := fl_jobs s @ ?new\<rparr>"
    using run c rows' by (auto simp: list_ex_iff split: if_splits)
  have in_chosen: "d \<in> set chosen" if "d \<in> set (fl_rows s)" "dl_id d \<in> dl_id ` set chosen" for d
    using that chosen inv_row_unique [OF inv] by blast
  have old: "fleet_inv (s\<lparr>fl_rows := map ?f (fl_rows s), fl_jobs := fl_jobs s, fl_asked := fl_asked s\<rparr>)"
  proof (rule map_rows_inv [OF inv])
    fix j d
    assume "fl_clock s < jb_expires j" "d \<in> set (fl_rows s)" and d: "holds_lease j d"
    then have "\<not> claimable ?now d" by (simp add: claimable_def holds_lease_def)
    then show "holds_lease j (?f d)" using in_chosen [OF \<open>d \<in> set (fl_rows s)\<close>] chosen d by auto
  next
    fix x d
    assume "d \<in> set (fl_rows s)" and "final d"
    then show "final (?f d)" by (auto simp: final_def)
  next
    fix d
    assume d: "d \<in> set (fl_rows s)" "dl_lease_owner d \<noteq> None \<Longrightarrow> dl_status d = DLV_PENDING" "dl_lease_owner (?f d) \<noteq> None"
    then show "dl_status (?f d) = DLV_PENDING"
      using in_chosen [OF d(1)] chosen by (auto simp: claimable_def)
  qed (use inv in \<open>auto simp: fleet_inv_def\<close>)
  have "\<exists>d \<in> set (fl_rows t). holds_lease j d" if new: "j \<in> set ?new" for j
  proof -
    obtain c where c: "c \<in> set chosen" "j = \<lparr>jb_worker = w, jb_row = leased w ?k ?now c, jb_result = None\<rparr>"
      using new claimed by auto
    then have "?f c = leased w ?k ?now c" "c \<in> set (fl_rows s)" "dl_status c = DLV_PENDING"
      using chosen by (auto simp: claimable_def)
    moreover have "holds_lease j (leased w ?k ?now c)"
      using c(2) \<open>dl_status c = DLV_PENDING\<close> by (simp add: holds_lease_def jb_id_def jb_expires_def) (simp add: leased_def)
    moreover have "?f c \<in> set (map ?f (fl_rows s))" using \<open>c \<in> set (fl_rows s)\<close> by (intro list.set_map [THEN equalityD2, THEN subsetD] imageI)
    moreover have "fl_rows t = map ?f (fl_rows s)" unfolding t by simp
    ultimately have "leased w ?k ?now c \<in> set (fl_rows t)" by (simp only:)
    then show ?thesis using \<open>holds_lease j (leased w ?k ?now c)\<close> by blast
  qed
  then have "leases_hold t" using old by (auto simp: fleet_inv_def leases_hold_def t)
  moreover have "jobs_distinct (fl_jobs t)"
    using inv idle dist unfolding t claimed
    by (auto simp: fleet_inv_def jobs_distinct_def distinct_map inj_on_def jb_id_def)
  ultimately show ?thesis
    using old by (auto simp: fleet_inv_def asked_final_def t)
qed

lemma inv_send:
  assumes inv: "fleet_inv s" and run: "exec (Send w i r) s = Some t"
  shows "fleet_inv t"
proof -
  let ?g = "\<lambda>j. if is_job w i j \<and> jb_result j = None then j\<lparr>jb_result := Some r\<rparr> else j"
  have t: "t = s\<lparr>fl_jobs := map ?g (fl_jobs s), fl_sent := fl_sent t\<rparr>" using run by (auto split: if_splits)
  have "(\<lambda>j. (jb_worker j, jb_id j)) \<circ> ?g = (\<lambda>j. (jb_worker j, jb_id j))" by (auto simp: fun_eq_iff)
  then have "jobs_distinct (map ?g (fl_jobs s))" using inv by (simp add: fleet_inv_def jobs_distinct_def)
  moreover have "leases_hold (s\<lparr>fl_jobs := map ?g (fl_jobs s), fl_sent := x\<rparr>)" for x
    using inv by (auto simp: fleet_inv_def leases_hold_def)
  ultimately show ?thesis using inv by (subst t) (simp add: fleet_inv_def asked_final_def)
qed

lemma update_leased_map: "update_leased w i patch = map (\<lambda>d. if dl_id d = i \<and> dl_lease_owner d = Some w then patch d else d)"
  by (rule ext) (simp add: update_leased_def)

lemma settle_map: "\<exists>f. settle_row j r now = map f \<and> (\<forall>d. dl_id (f d) = dl_id d)
    \<and> (\<forall>d. dl_id d = jb_id j \<and> dl_lease_owner d = Some (jb_worker j) \<or> f d = d)
    \<and> (\<forall>d. dl_lease_owner (f d) = None \<or> f d = d)"
proof (cases r)
  case (Inl m)
  show ?thesis unfolding Inl settle_row_def sum.case record_failure_def Let_def update_leased_map jb_id_def
    by (rule exI, intro conjI, rule refl) auto
next
  case (Inr p)
  show ?thesis unfolding Inr settle_row_def sum.case record_sent_def update_leased_map jb_id_def
    by (rule exI, intro conjI, rule refl) auto
qed

lemma settled_job:
  assumes "exec (Settle w i ok) s = Some t"
  shows "\<exists>j \<in> set (fl_jobs s). is_job w i j \<and> jb_result j \<noteq> None
    \<and> t = s\<lparr>fl_jobs := filter (\<lambda>k. \<not> is_job w i k) (fl_jobs s),
          fl_rows := (if ok then settle_row j (the (jb_result j)) (fl_clock s) (fl_rows s) else fl_rows s)\<rparr>"
proof (cases "filter (\<lambda>j. is_job w i j \<and> jb_result j \<noteq> None) (fl_jobs s)")
  case Nil
  then show ?thesis using assms by simp
next
  case (Cons j js)
  then have "j \<in> set (filter (\<lambda>j. is_job w i j \<and> jb_result j \<noteq> None) (fl_jobs s))" by simp
  then show ?thesis using assms Cons by auto
qed

lemma inv_settle:
  assumes inv: "fleet_inv s" and run: "exec (Settle w i ok) s = Some t"
  shows "fleet_inv t"
proof -
  obtain j where j: "j \<in> set (fl_jobs s)" "is_job w i j" "jb_result j \<noteq> None"
    and t: "t = s\<lparr>fl_jobs := filter (\<lambda>k. \<not> is_job w i k) (fl_jobs s),
          fl_rows := (if ok then settle_row j (the (jb_result j)) (fl_clock s) (fl_rows s) else fl_rows s)\<rparr>"
    using settled_job [OF run] by blast
  obtain f where f: "settle_row j (the (jb_result j)) (fl_clock s) = map f" "\<And>d. dl_id (f d) = dl_id d"
    "\<And>d. dl_id d = jb_id j \<and> dl_lease_owner d = Some (jb_worker j) \<or> f d = d" "\<And>d. dl_lease_owner (f d) = None \<or> f d = d"
    using settle_map by metis
  let ?h = "\<lambda>d. if ok then f d else d"
  have "fleet_inv (s\<lparr>fl_rows := map ?h (fl_rows s), fl_jobs := filter (\<lambda>k. \<not> is_job w i k) (fl_jobs s), fl_asked := fl_asked s\<rparr>)"
  proof (rule map_rows_inv [OF inv])
    fix k d
    assume k: "k \<in> set (filter (\<lambda>k. \<not> is_job w i k) (fl_jobs s))" and "holds_lease k d"
    then have "f d = d" using f(3) [of d] j(2) by (auto simp: holds_lease_def is_job_def)
    then show "holds_lease k (?h d)" using \<open>holds_lease k d\<close> by simp
  next
    fix x d
    assume d: "d \<in> set (fl_rows s)" "final d"
    then have "dl_lease_owner d = None" using inv by (auto simp: fleet_inv_def owned_pending_def final_def)
    then show "final (?h d)" using f(3) [of d] d(2) by auto
  next
    fix d
    assume "dl_lease_owner d \<noteq> None \<Longrightarrow> dl_status d = DLV_PENDING" "dl_lease_owner (?h d) \<noteq> None"
    then show "dl_status (?h d) = DLV_PENDING" using f(4) [of d] by (auto split: if_splits)
  qed (use f(2) inv in \<open>auto simp: fleet_inv_def jobs_distinct_filter\<close>)
  moreover have "t = s\<lparr>fl_rows := map ?h (fl_rows s), fl_jobs := filter (\<lambda>k. \<not> is_job w i k) (fl_jobs s), fl_asked := fl_asked s\<rparr>"
    unfolding t f(1) by simp
  ultimately show ?thesis by simp
qed

lemma inv_release:
  assumes inv: "fleet_inv s" and run: "exec (Release w i ok) s = Some t" and "prompt s (Release w i ok)"
  shows "fleet_inv t"
proof -
  let ?f = "\<lambda>d. if ok \<and> dl_id d = i then d\<lparr>dl_status := DLV_PENDING, dl_error := None,
     dl_next_attempt_at := fl_clock s, dl_lease_owner := None, dl_lease_expires_at := None\<rparr> else d"
  have suppressed: "dl_status d = DLV_SUPPRESSED" if sent: "ok" and d: "d \<in> set (fl_rows s)" "dl_id d = i" for d
  proof -
    obtain e where "e \<in> set (fl_rows s)" "dl_id e = i" "dl_status e = DLV_SUPPRESSED"
      using assms(3) sent by (auto simp: has_row_def list_ex_iff)
    then show ?thesis using inv_row_unique [OF inv d(1)] d(2) by metis
  qed
  have "fleet_inv (s\<lparr>fl_rows := map ?f (fl_rows s), fl_jobs := fl_jobs s, fl_asked := fl_asked s\<rparr>)"
    by (rule map_rows_inv [OF inv]) (use inv suppressed in \<open>auto simp: holds_lease_def final_def fleet_inv_def\<close>)
  moreover have "fl_rows t = map ?f (fl_rows s)" "fl_jobs t = fl_jobs s" "fl_asked t = fl_asked s" "fl_clock t = fl_clock s"
    using run by (auto simp: release_row_def split: if_splits)
  ultimately show ?thesis by (simp add: fleet_inv_def leases_hold_def asked_final_def)
qed

lemma inv_receipt:
  assumes inv: "fleet_inv s" and run: "exec (Receipt w i r ok) s = Some t"
  shows "fleet_inv t"
proof -
  let ?f = "\<lambda>d. if ok \<and> dl_id d = i then receipt_update r d else d"
  have asked: "(w, i) \<in> set (fl_asked s)" using run by (simp split: if_splits)
  then obtain e where e: "e \<in> set (fl_rows s)" "dl_id e = i" "final e"
    using inv by (fastforce simp: fleet_inv_def asked_final_def)
  have final: "final d" if "d \<in> set (fl_rows s)" "dl_id d = i" for d
    using inv_row_unique [OF inv that(1) e(1)] that(2) e by simp
  have kept: "dl_id (receipt_update r d) = dl_id d" "dl_lease_owner (receipt_update r d) = dl_lease_owner d" "final (receipt_update r d)" for d
    by (auto simp: receipt_update_def final_def)
  have "fleet_inv (s\<lparr>fl_rows := map ?f (fl_rows s), fl_jobs := fl_jobs s, fl_asked := remove1 (w, i) (fl_asked s)\<rparr>)"
  proof (rule map_rows_inv [OF inv])
    fix d
    assume d: "d \<in> set (fl_rows s)" "dl_lease_owner d \<noteq> None \<Longrightarrow> dl_status d = DLV_PENDING" "dl_lease_owner (?f d) \<noteq> None"
    then show "dl_status (?f d) = DLV_PENDING" using final [OF d(1)] kept by (auto simp: final_def split: if_splits)
  next
    fix j d
    assume "d \<in> set (fl_rows s)" "holds_lease j d"
    then show "holds_lease j (?f d)" using final [OF \<open>d \<in> set (fl_rows s)\<close>] by (auto simp: final_def holds_lease_def)
  qed (use inv kept in \<open>auto simp: fleet_inv_def intro: subsetD [OF set_remove1_subset]\<close>)
  moreover have "fl_rows t = map ?f (fl_rows s)" "fl_jobs t = fl_jobs s" "fl_asked t = remove1 (w, i) (fl_asked s)" "fl_clock t = fl_clock s"
    using run by (auto simp: receive_def split: if_splits)
  ultimately show ?thesis by (simp add: fleet_inv_def leases_hold_def asked_final_def)
qed

lemma inv_rest:
  assumes inv: "fleet_inv s"
  shows "exec (Look w is) s = Some t \<Longrightarrow> fleet_inv t" "exec (Ask w is) s = Some t \<Longrightarrow> fleet_inv t"
    "exec (Abandon w) s = Some t \<Longrightarrow> fleet_inv t" "exec (File ds) s = Some t \<Longrightarrow> fleet_inv t" "exec (Tick n) s = Some t \<Longrightarrow> fleet_inv t"
proof -
  note defs = fleet_inv_def leases_hold_def asked_final_def owned_pending_def
  show "exec (Look w is) s = Some t \<Longrightarrow> fleet_inv t" using inv by (fastforce simp: defs split: if_splits)
  show "exec (Ask w is) s = Some t \<Longrightarrow> fleet_inv t"
    using inv by (fastforce simp: defs list_all_iff has_row_def list_ex_iff final_def split: if_splits)
  show "exec (Abandon w) s = Some t \<Longrightarrow> fleet_inv t" using inv by (fastforce simp: defs jobs_distinct_filter)
  show "exec (File ds) s = Some t \<Longrightarrow> fleet_inv t"
    using inv by (fastforce simp: defs fresh_rows_def has_row_def list_ex_iff list_all_iff split: if_splits)
  show "exec (Tick n) s = Some t \<Longrightarrow> fleet_inv t" using inv by (fastforce simp: defs)
qed

lemma inv_step: "fleet_inv s \<Longrightarrow> prompt s e \<Longrightarrow> exec e s = Some t \<Longrightarrow> fleet_inv t"
  by (cases e) (blast intro: inv_claim inv_send inv_settle inv_release inv_receipt inv_rest)+

lemma inv_reachable: "reachable prompt s \<Longrightarrow> fleet_inv s"
proof (induction rule: reachable.induct)
  case (reachable_init t)
  then show ?case
    by (simp add: empty_fleet_def fleet_inv_def jobs_distinct_def owned_pending_def leases_hold_def asked_final_def)
qed (blast intro: inv_step)

text \<open>
  C38. No two workers ever hold a lease of one delivery that has not ended, however their steps and
  failures interleave, as long as suppressed rows are released promptly.
\<close>

theorem lease_exclusive:
  assumes "reachable prompt s"
  shows "list_all (\<lambda>j. list_all (\<lambda>k. jb_id j \<noteq> jb_id k \<or> jb_worker j = jb_worker k
      \<or> jb_expires j \<le> fl_clock s \<or> jb_expires k \<le> fl_clock s) (fl_jobs s)) (fl_jobs s)"
proof (unfold list_all_iff, intro ballI)
  fix j k
  assume jk: "j \<in> set (fl_jobs s)" "k \<in> set (fl_jobs s)"
  have inv: "fleet_inv s" by (rule inv_reachable [OF assms])
  show "jb_id j \<noteq> jb_id k \<or> jb_worker j = jb_worker k \<or> jb_expires j \<le> fl_clock s \<or> jb_expires k \<le> fl_clock s"
  proof (rule ccontr)
    assume "\<not> ?thesis"
    then have same: "jb_id j = jb_id k" "jb_worker j \<noteq> jb_worker k" and live: "fl_clock s < jb_expires j" "fl_clock s < jb_expires k"
      by auto
    then obtain d e where "d \<in> set (fl_rows s)" "holds_lease j d" "e \<in> set (fl_rows s)" "holds_lease k e"
      using inv jk unfolding fleet_inv_def leases_hold_def by blast
    then show False using inv_row_unique [OF inv, of d e] same by (auto simp: holds_lease_def)
  qed
qed

section \<open>At most one message per delivery\<close>

definition settled_or_held :: "fleet \<Rightarrow> string \<Rightarrow> bool" where
  "settled_or_held s i \<longleftrightarrow> (\<exists>d \<in> set (fl_rows s). dl_id d = i \<and> final d)
     \<or> (\<exists>j \<in> set (fl_jobs s). jb_id j = i \<and> accepted_job j)"

definition once :: "fleet \<Rightarrow> bool" where
  "once s \<longleftrightarrow> distinct (fl_sent s) \<and> (\<forall>i \<in> set (fl_sent s). settled_or_held s i)
     \<and> (\<forall>j \<in> set (fl_jobs s). accepted_job j \<longrightarrow> fl_clock s < jb_expires j)"

lemma sent_state:
  assumes inv: "fleet_inv s" and once: "once s" and i: "i \<in> set (fl_sent s)" and d: "d \<in> set (fl_rows s)" "dl_id d = i"
  shows "final d \<or> (\<exists>j \<in> set (fl_jobs s). accepted_job j \<and> holds_lease j d)"
proof (cases "\<exists>j \<in> set (fl_jobs s). jb_id j = i \<and> accepted_job j")
  case True
  then obtain j where j: "j \<in> set (fl_jobs s)" "jb_id j = i" "accepted_job j" by blast
  then obtain e where "e \<in> set (fl_rows s)" "holds_lease j e"
    using inv once unfolding fleet_inv_def leases_hold_def once_def by blast
  moreover from this have "e = d" using inv_row_unique [OF inv, of e d] d j(2) by (simp add: holds_lease_def)
  ultimately show ?thesis using j by blast
next
  case False
  then obtain e where "e \<in> set (fl_rows s)" "dl_id e = i" "final e"
    using i once by (auto simp: once_def settled_or_held_def)
  then show ?thesis using inv_row_unique [OF inv, of e d] d by simp
qed

text \<open>A write leaves what was sent settled when it keeps final rows final.\<close>

lemma once_rows:
  assumes "once s" and rows: "\<And>d. d \<in> set (fl_rows s) \<Longrightarrow> final d \<Longrightarrow> \<exists>e \<in> set (fl_rows t). dl_id e = dl_id d \<and> final e"
    and jobs: "\<And>j. j \<in> set (fl_jobs s) \<Longrightarrow> accepted_job j \<Longrightarrow> settled_or_held t (jb_id j)"
    and "fl_sent t = fl_sent s" "{j \<in> set (fl_jobs t). accepted_job j} \<subseteq> set (fl_jobs s)" "fl_clock t = fl_clock s"
  shows "once t"
proof -
  have "settled_or_held t i" if "settled_or_held s i" for i
    using that rows jobs unfolding settled_or_held_def by (metis (no_types, lifting))
  then show ?thesis using assms by (auto simp: once_def)
qed

lemma job_stays: "j \<in> set (fl_jobs t) \<Longrightarrow> accepted_job j \<Longrightarrow> settled_or_held t (jb_id j)"
  by (auto simp: settled_or_held_def)

lemma final_map:
  "fl_rows t = map f (fl_rows s) \<Longrightarrow> (\<And>d. dl_id (f d) = dl_id d) \<Longrightarrow> (\<And>d. d \<in> set (fl_rows s) \<Longrightarrow> final d \<Longrightarrow> final (f d)) \<Longrightarrow>
     d \<in> set (fl_rows s) \<Longrightarrow> final d \<Longrightarrow> \<exists>e \<in> set (fl_rows t). dl_id e = dl_id d \<and> final e"
  by auto

lemma once_claim:
  assumes inv: "fleet_inv s" and once: "once s" and run: "exec (Claim w) s = Some t"
  shows "once t"
proof -
  obtain claimed rows' where c: "claim_deliveries w 50 DELIVERY_LEASE_SECONDS (fl_clock s) (fl_rows s) = (claimed, rows')" by fastforce
  then have t: "t = s\<lparr>fl_rows := rows', fl_jobs := fl_jobs s @ map (\<lambda>d. \<lparr>jb_worker = w, jb_row = d, jb_result = None\<rparr>) claimed\<rparr>"
    using run by (auto split: if_splits)
  obtain chosen :: "delivery list" where rows': "rows' = map (\<lambda>d. if dl_id d \<in> dl_id ` set chosen then leased w DELIVERY_LEASE_SECONDS (fl_clock s) d else d) (fl_rows s)"
    using claimed_rows [OF c] by blast
  show ?thesis
  proof (rule once_rows [OF once])
    fix d
    assume "d \<in> set (fl_rows s)" "final d"
    then show "\<exists>e \<in> set (fl_rows t). dl_id e = dl_id d \<and> final e"
      by (intro final_map [where f = "\<lambda>d. if dl_id d \<in> dl_id ` set chosen then leased w DELIVERY_LEASE_SECONDS (fl_clock s) d else d"])
        (auto simp: t rows' final_def)
  qed (auto simp: t accepted_job_def intro: job_stays)
qed

lemma once_send:
  assumes inv: "fleet_inv s" and once: "once s" and run: "exec (Send w i r) s = Some t" and on_time: "timely s (Send w i r)"
  shows "once t"
proof -
  let ?g = "\<lambda>j. if is_job w i j \<and> jb_result j = None then j\<lparr>jb_result := Some r\<rparr> else j"
  obtain j where j: "j \<in> set (fl_jobs s)" "is_job w i j" "jb_result j = None" and t: "fl_jobs t = map ?g (fl_jobs s)"
    "fl_rows t = fl_rows s" "fl_clock t = fl_clock s" "fl_sent t = fl_sent s @ (case r of Inl _ \<Rightarrow> [] | Inr _ \<Rightarrow> [i])"
    using run by (auto simp: list_ex_iff split: if_splits)
  have live: "fl_clock s < jb_expires j" using on_time j by (auto simp: list_all_iff)
  then obtain d where d: "d \<in> set (fl_rows s)" "holds_lease j d" using inv j(1) unfolding fleet_inv_def leases_hold_def by blast
  have unsent: "i \<notin> set (fl_sent s)"
  proof
    assume "i \<in> set (fl_sent s)"
    then have "final d \<or> (\<exists>k \<in> set (fl_jobs s). accepted_job k \<and> holds_lease k d)"
      using sent_state [OF inv once _ d(1)] d(2) j(2) by (auto simp: holds_lease_def is_job_def)
    then obtain k where "k \<in> set (fl_jobs s)" "accepted_job k" "holds_lease k d" using d(2) by (auto simp: final_def holds_lease_def)
    then have "k = j" using inv_job_unique [OF inv _ j(1)] d(2) by (simp add: holds_lease_def)
    then show False using j(3) \<open>accepted_job k\<close> by (simp add: accepted_job_def)
  qed
  have old: "?g k = k" if "accepted_job k" for k using that by (auto simp: accepted_job_def)
  have kept: "settled_or_held t x" if "settled_or_held s x" for x
  proof -
    have "k \<in> set (fl_jobs t)" if "k \<in> set (fl_jobs s)" "accepted_job k" for k
      using imageI [OF that(1), of ?g] old [OF that(2)] unfolding t by simp
    then show ?thesis using that t(2) unfolding settled_or_held_def by auto
  qed
  have "accepted_job (?g j)" if "r = Inr p" for p using that j by (simp add: accepted_job_def)
  moreover have "?g j \<in> set (fl_jobs t)" "jb_id (?g j) = i" using j by (auto simp: t is_job_def)
  ultimately have new: "settled_or_held t i" if "r = Inr p" for p using that unfolding settled_or_held_def by blast
  have expiry: "fl_clock s < jb_expires (?g k)" if "k \<in> set (fl_jobs s)" "accepted_job (?g k)" for k
    using that once on_time by (auto simp: once_def list_all_iff split: if_splits)
  then have expiry': "\<forall>k \<in> set (fl_jobs t). accepted_job k \<longrightarrow> fl_clock s < jb_expires k"
    unfolding t(1) set_map by blast
  show ?thesis
    using once kept new unsent expiry' t(3,4) unfolding once_def by (auto split: sum.splits)
qed

lemma once_settle:
  assumes inv: "fleet_inv s" and once: "once s" and run: "exec (Settle w i ok) s = Some t" and on_time: "timely s (Settle w i ok)"
  shows "once t"
proof -
  obtain j where j: "j \<in> set (fl_jobs s)" "is_job w i j" "jb_result j \<noteq> None"
    and t: "t = s\<lparr>fl_jobs := filter (\<lambda>k. \<not> is_job w i k) (fl_jobs s),
          fl_rows := (if ok then settle_row j (the (jb_result j)) (fl_clock s) (fl_rows s) else fl_rows s)\<rparr>"
    using settled_job [OF run] by blast
  obtain f where f: "settle_row j (the (jb_result j)) (fl_clock s) = map f" "\<And>d. dl_id (f d) = dl_id d"
    "\<And>d. dl_id d = jb_id j \<and> dl_lease_owner d = Some (jb_worker j) \<or> f d = d"
    using settle_map by metis
  have final: "final ((if ok then f else id) d)" if "d \<in> set (fl_rows s)" "final d" for d
  proof -
    have "dl_lease_owner d = None" using inv that by (auto simp: fleet_inv_def owned_pending_def final_def)
    then show ?thesis using f(3) [of d] that(2) by auto
  qed
  have rows: "fl_rows t = map (if ok then f else id) (fl_rows s)" unfolding t f(1) by simp
  have this_job: "k = j" if "k \<in> set (fl_jobs s)" "is_job w i k" for k
    using inv_job_unique [OF inv that(1) j(1)] that(2) j(2) by (simp add: is_job_def)
  show ?thesis
  proof (rule once_rows [OF once])
    fix d
    assume "d \<in> set (fl_rows s)" "final d"
    then show "\<exists>e \<in> set (fl_rows t). dl_id e = dl_id d \<and> final e"
      using f(2) final by (intro final_map [OF rows]) auto
  next
    fix k
    assume k: "k \<in> set (fl_jobs s)" "accepted_job k"
    show "settled_or_held t (jb_id k)"
    proof (cases "is_job w i k")
      case False
      then show ?thesis using k by (intro job_stays) (auto simp: t)
    next
      case True
      then have kj: "k = j" using this_job k by blast
      then have ok: "ok" using on_time j k by (auto simp: list_all_iff)
      obtain p where p: "the (jb_result j) = Inr p" using k kj by (auto simp: accepted_job_def split: option.splits sum.splits)
      have "fl_clock s < jb_expires j" using once k kj by (auto simp: once_def)
      then obtain d where d: "d \<in> set (fl_rows s)" "holds_lease j d" using inv j(1) unfolding fleet_inv_def leases_hold_def by blast
      have "f d \<in> set (fl_rows t)" using d(1) ok rows by simp
      moreover have "f d = hd (settle_row j (the (jb_result j)) (fl_clock s) [d])" unfolding f(1) by simp
      then have "final (f d)" using d(2) p
        by (simp add: settle_row_def record_sent_def update_leased_def holds_lease_def jb_id_def final_def)
      ultimately show ?thesis using f(2) d(2) kj unfolding settled_or_held_def by (auto simp: holds_lease_def)
    qed
  qed (auto simp: t)
qed

lemma once_release:
  assumes inv: "fleet_inv s" and once: "once s" and run: "exec (Release w i ok) s = Some t" and "timely s (Release w i ok)"
  shows "once t"
proof -
  have kept: "\<exists>e \<in> set (fl_rows t). dl_id e = dl_id d \<and> final e" if "d \<in> set (fl_rows s)" "final d" for d
  proof -
    have "ok \<longrightarrow> dl_id d \<noteq> i"
      using assms(4) inv_row_unique [OF inv that(1)] that(2) by (auto simp: has_row_def list_ex_iff final_def)
    then have "d \<in> set (fl_rows t)" using run that(1) by (force simp: release_row_def image_iff split: if_splits)
    then show ?thesis using that by blast
  qed
  show ?thesis
    by (rule once_rows [OF once kept]) (use run in \<open>auto split: if_splits intro: job_stays\<close>)
qed

lemma once_receipt:
  assumes inv: "fleet_inv s" and once: "once s" and run: "exec (Receipt w i r ok) s = Some t"
  shows "once t"
proof -
  have rows: "fl_rows t = map (\<lambda>d. if ok \<and> dl_id d = i then receipt_update r d else d) (fl_rows s)"
    using run by (auto simp: receive_def split: if_splits)
  show ?thesis
  proof (rule once_rows [OF once])
    fix d
    assume "d \<in> set (fl_rows s)" "final d"
    then show "\<exists>e \<in> set (fl_rows t). dl_id e = dl_id d \<and> final e"
      by (intro final_map [OF rows]) (auto simp: receipt_update_def final_def)
  qed (use run in \<open>auto split: if_splits intro: job_stays\<close>)
qed

lemma once_rest:
  assumes once: "once s"
  shows "exec (Look w is) s = Some t \<Longrightarrow> once t" "exec (Ask w is) s = Some t \<Longrightarrow> once t"
    "exec (Abandon w) s = Some t \<Longrightarrow> timely s (Abandon w) \<Longrightarrow> once t" "exec (File ds) s = Some t \<Longrightarrow> once t"
    "exec (Tick n) s = Some t \<Longrightarrow> timely s (Tick n) \<Longrightarrow> once t"
proof -
  note defs = once_def settled_or_held_def
  show "exec (Look w is) s = Some t \<Longrightarrow> once t" using once by (fastforce simp: defs split: if_splits)
  show "exec (Ask w is) s = Some t \<Longrightarrow> once t" using once by (fastforce simp: defs split: if_splits)
  show "exec (Abandon w) s = Some t \<Longrightarrow> timely s (Abandon w) \<Longrightarrow> once t"
    using once by (fastforce simp: defs list_all_iff)
  show "exec (File ds) s = Some t \<Longrightarrow> once t" using once by (fastforce simp: defs split: if_splits)
  show "exec (Tick n) s = Some t \<Longrightarrow> timely s (Tick n) \<Longrightarrow> once t" using once by (fastforce simp: defs list_all_iff)
qed

lemma once_step: "fleet_inv s \<Longrightarrow> once s \<Longrightarrow> timely s e \<Longrightarrow> exec e s = Some t \<Longrightarrow> once t"
  by (cases e) (blast intro: once_claim once_send once_settle once_release once_receipt once_rest)+

lemma timely_prompt: "timely s e \<Longrightarrow> prompt s e"
  by (cases e) simp_all

lemma timely_once: "reachable timely s \<Longrightarrow> fleet_inv s \<and> once s"
proof (induction rule: reachable.induct)
  case (reachable_init t)
  then show ?case
    using inv_reachable [OF reachable.reachable_init] by (simp add: once_def empty_fleet_def)
qed (blast intro: inv_step once_step timely_prompt)

text \<open>
  C37. No delivery is accepted twice by its provider when releases are prompt, messages leave under
  a lease that still holds, and the outcome of an accepted message is recorded before its lease ends.
\<close>

theorem sent_at_most_once:
  assumes "reachable timely s"
  shows "distinct (fl_sent s)"
  using timely_once [OF assms] by (simp add: once_def)

section \<open>Attempts are bounded\<close>

definition row_attempts_ok :: "delivery \<Rightarrow> bool" where
  "row_attempts_ok d \<longleftrightarrow> dl_attempts d \<le> MAX_DELIVERY_ATTEMPTS
     \<and> (dl_dead_lettered_at d \<noteq> None \<longrightarrow> dl_attempts d = MAX_DELIVERY_ATTEMPTS)
     \<and> (dl_lease_owner d \<noteq> None \<longrightarrow> dl_dead_lettered_at d = None)"

definition attempts_ok :: "fleet \<Rightarrow> bool" where
  "attempts_ok s \<longleftrightarrow> distinct (map dl_id (fl_rows s)) \<and> (\<forall>d \<in> set (fl_rows s). row_attempts_ok d)
     \<and> (\<forall>j \<in> set (fl_jobs s). dl_attempts (jb_row j) < MAX_DELIVERY_ATTEMPTS)"

lemma attempts_map:
  assumes "attempts_ok s" and "\<And>d. dl_id (f d) = dl_id d" and "\<And>d. d \<in> set (fl_rows s) \<Longrightarrow> row_attempts_ok d \<Longrightarrow> row_attempts_ok (f d)"
    and "fl_rows t = map f (fl_rows s)" and "\<forall>j \<in> set (fl_jobs t). dl_attempts (jb_row j) < MAX_DELIVERY_ATTEMPTS"
  shows "attempts_ok t"
proof -
  have "dl_id \<circ> f = dl_id" using assms(2) by (simp add: fun_eq_iff)
  then show ?thesis using assms by (auto simp: attempts_ok_def)
qed

lemma attempts_claim:
  assumes ok: "attempts_ok s" and run: "exec (Claim w) s = Some t"
  shows "attempts_ok t"
proof -
  obtain claimed rows' where c: "claim_deliveries w 50 DELIVERY_LEASE_SECONDS (fl_clock s) (fl_rows s) = (claimed, rows')" by fastforce
  then have t: "t = s\<lparr>fl_rows := rows', fl_jobs := fl_jobs s @ map (\<lambda>d. \<lparr>jb_worker = w, jb_row = d, jb_result = None\<rparr>) claimed\<rparr>"
    using run by (auto split: if_splits)
  obtain chosen :: "delivery list" where sub: "set chosen \<subseteq> {d \<in> set (fl_rows s). claimable (fl_clock s) d}"
    and claimed: "claimed = map (leased w DELIVERY_LEASE_SECONDS (fl_clock s)) chosen"
    and rows': "rows' = map (\<lambda>d. if dl_id d \<in> dl_id ` set chosen then leased w DELIVERY_LEASE_SECONDS (fl_clock s) d else d) (fl_rows s)"
    using claimed_rows [OF c] by blast
  have few: "claimable n d \<Longrightarrow> dl_attempts d < MAX_DELIVERY_ATTEMPTS" for n d by (simp add: claimable_def MAX_DELIVERY_ATTEMPTS_def)
  have chosen: "claimable (fl_clock s) d" if "d \<in> set (fl_rows s)" "dl_id d \<in> dl_id ` set chosen" for d
    using that sub ok same_id_same_row [of "fl_rows s" d] by (auto simp: attempts_ok_def)
  show ?thesis
  proof (rule attempts_map [OF ok])
    show "fl_rows t = map (\<lambda>d. if dl_id d \<in> dl_id ` set chosen then leased w DELIVERY_LEASE_SECONDS (fl_clock s) d else d) (fl_rows s)"
      by (simp add: t rows')
    show "\<forall>j \<in> set (fl_jobs t). dl_attempts (jb_row j) < MAX_DELIVERY_ATTEMPTS"
      using ok sub few unfolding t claimed by (fastforce simp: attempts_ok_def)
    fix d
    assume "d \<in> set (fl_rows s)" "row_attempts_ok d"
    then show "row_attempts_ok (if dl_id d \<in> dl_id ` set chosen then leased w DELIVERY_LEASE_SECONDS (fl_clock s) d else d)"
      using chosen few by (fastforce simp: row_attempts_ok_def leased_def)
  qed simp
qed

lemma attempts_settle:
  assumes ok: "attempts_ok s" and run: "exec (Settle w i rec) s = Some t"
  shows "attempts_ok t"
proof -
  obtain j where j: "j \<in> set (fl_jobs s)"
    and t: "t = s\<lparr>fl_jobs := filter (\<lambda>k. \<not> is_job w i k) (fl_jobs s),
          fl_rows := (if rec then settle_row j (the (jb_result j)) (fl_clock s) (fl_rows s) else fl_rows s)\<rparr>"
    using settled_job [OF run] by blast
  have few: "dl_attempts (jb_row j) < MAX_DELIVERY_ATTEMPTS" using ok j by (simp add: attempts_ok_def)
  obtain f where f: "settle_row j (the (jb_result j)) (fl_clock s) = map f" "\<And>d. dl_id (f d) = dl_id d" using settle_map by metis
  show ?thesis
  proof (rule attempts_map [OF ok])
    show "fl_rows t = map (if rec then f else id) (fl_rows s)" unfolding t f(1) by simp
    show "\<forall>j \<in> set (fl_jobs t). dl_attempts (jb_row j) < MAX_DELIVERY_ATTEMPTS" using ok unfolding t by (auto simp: attempts_ok_def)
    fix d
    assume d: "row_attempts_ok d"
    have "f d = hd (settle_row j (the (jb_result j)) (fl_clock s) [d])" unfolding f(1) by simp
    then have "row_attempts_ok (f d)" using d few
      by (auto simp: settle_row_def record_sent_def record_failure_def update_leased_def row_attempts_ok_def Let_def split: sum.splits)
    then show "row_attempts_ok ((if rec then f else id) d)" using d by simp
  qed (use f(2) in simp)
qed

lemma attempts_step:
  assumes ok: "attempts_ok s" and run: "exec e s = Some t"
  shows "attempts_ok t"
proof (cases e)
  case (Release w i rec)
  show ?thesis
    by (rule attempts_map [OF ok, where f = "\<lambda>d. if rec \<and> dl_id d = i then hd (release_row i (fl_clock s) [d]) else d"])
      (use ok run Release in \<open>auto simp: release_row_def row_attempts_ok_def attempts_ok_def split: if_splits\<close>)
next
  case (Receipt w i r rec)
  show ?thesis
    by (rule attempts_map [OF ok, where f = "\<lambda>d. if rec \<and> dl_id d = i then receipt_update r d else d"])
      (use ok run Receipt in \<open>auto simp: receive_def receipt_update_def row_attempts_ok_def attempts_ok_def split: if_splits\<close>)
next
  case (File ds)
  then show ?thesis
    using ok run by (fastforce simp: attempts_ok_def row_attempts_ok_def fresh_rows_def has_row_def list_ex_iff list_all_iff split: if_splits)
next
  case (Claim w)
  then show ?thesis using attempts_claim ok run by blast
next
  case (Settle w i rec)
  then show ?thesis using attempts_settle ok run by blast
qed (use ok run in \<open>auto simp: attempts_ok_def split: if_splits\<close>)

text \<open>
   Whatever the workers do, crash, overlap or race, a delivery is attempted at most five times,
  a dead-lettered delivery has had its five attempts, and a worker never claims one beyond them.
\<close>

theorem attempts_bounded:
  assumes "reachable always s"
  shows "list_all (\<lambda>d. dl_attempts d \<le> 5 \<and> (dl_dead_lettered_at d = None \<or> dl_attempts d = 5)) (fl_rows s)
    \<and> list_all (\<lambda>j. dl_attempts (jb_row j) < 5) (fl_jobs s)"
proof -
  from assms have "attempts_ok s"
  proof induction
    case (reachable_init t)
    show ?case by (simp add: empty_fleet_def attempts_ok_def)
  qed (blast intro: attempts_step)
  then show ?thesis
    by (auto simp: attempts_ok_def row_attempts_ok_def list_all_iff MAX_DELIVERY_ATTEMPTS_def)
qed

section \<open>Concrete runs\<close>

definition demo_pending :: "string \<Rightarrow> delivery" where
  "demo_pending i = (delivery_row ''n1'' CH_push (Some ''d1'') DLV_PENDING None 0)\<lparr>dl_id := i\<rparr>"

text \<open>
  A worker claims two deliveries; the first waits for its provider longer than the lease (a batch
  has fifty, each with a timeout of 30 seconds), and a second worker claims the other.
\<close>

definition slow_run :: "event list" where
  "slow_run = [File [demo_pending ''a'', demo_pending ''b''], Claim ''w1'', Send ''w1'' ''a'' (Inl ''timeout''), Tick 301000,
     Settle ''w1'' ''a'' True, Claim ''w2'', Send ''w1'' ''b'' (Inr None), Send ''w2'' ''b'' (Inr None)]"

text \<open>Two workers see the same suppressed delivery; the second releases it after the first has sent it.\<close>

definition stale_release_run :: "event list" where
  "stale_release_run = [File [(demo_pending ''a'')\<lparr>dl_status := DLV_SUPPRESSED, dl_error := Some ''Suppressed during quiet hours''\<rparr>],
     Look ''w1'' [''a''], Look ''w2'' [''a''], Release ''w1'' ''a'' True, Claim ''w1'', Send ''w1'' ''a'' (Inr None),
     Settle ''w1'' ''a'' True, Release ''w2'' ''a'' True, Claim ''w2'', Send ''w2'' ''a'' (Inr None), Settle ''w2'' ''a'' True]"

definition good_run :: "event list" where
  "good_run = [File [demo_pending ''a'', demo_pending ''b''], Claim ''w1'', Claim ''w2'', Send ''w1'' ''a'' (Inr None), Tick 30000,
     Settle ''w1'' ''a'' True, Send ''w1'' ''b'' (Inl ''timeout'')]"

lemmas run_defs = empty_fleet_def fresh_rows_def has_row_def held_back_def release_row_def demo_pending_def delivery_row_def
  claim_deliveries_def claim_order_def claimable_def leased_def DELIVERY_LEASE_SECONDS_def is_job_def jb_id_def jb_expires_def
  settle_row_def record_failure_def record_sent_def update_leased_def accepted_job_def MAX_DELIVERY_ATTEMPTS_def
  deliveryBackoffSeconds_def Let_def

lemma run_reachable:
  assumes "all_events ok es (empty_fleet t)"
  shows "\<exists>s. exec_all es (empty_fleet t) = Some s \<and> reachable ok s"
proof -
  have "\<exists>s. exec_all es u = Some s" if "all_events ok es u" for u
    using that by (induction es arbitrary: u) (auto split: option.splits)
  then show ?thesis using assms reachable_run [OF assms reachable_init] by blast
qed

lemma good_timely: "all_events timely good_run (empty_fleet 0)"
  by (simp add: good_run_def run_defs)

theorem sent_at_most_once_witness:
  "case exec_all good_run (empty_fleet 0) of None \<Rightarrow> False | Some s \<Rightarrow> distinct (fl_sent s)"
  using run_reachable [OF good_timely] sent_at_most_once by fastforce

theorem lease_exclusive_witness:
  "case exec_all good_run (empty_fleet 0) of None \<Rightarrow> False | Some s \<Rightarrow>
     list_all (\<lambda>j. list_all (\<lambda>k. jb_id j \<noteq> jb_id k \<or> jb_worker j = jb_worker k
      \<or> jb_expires j \<le> fl_clock s \<or> jb_expires k \<le> fl_clock s) (fl_jobs s)) (fl_jobs s)"
  using run_reachable [OF good_timely] lease_exclusive [OF reachable_mono [OF _ timely_prompt]] by fastforce

theorem attempts_bounded_witness:
  "case exec_all slow_run (empty_fleet 0) of None \<Rightarrow> False | Some s \<Rightarrow>
     list_all (\<lambda>d. dl_attempts d \<le> 5 \<and> (dl_dead_lettered_at d = None \<or> dl_attempts d = 5)) (fl_rows s)
       \<and> list_all (\<lambda>j. dl_attempts (jb_row j) < 5) (fl_jobs s)"
proof -
  have "all_events always slow_run (empty_fleet 0)"
    by (simp add: slow_run_def run_defs always_def)
  from run_reachable [OF this] show ?thesis using attempts_bounded by fastforce
qed

text \<open>
   The lease is shorter than a batch may take: fifty messages with 30 seconds each outlast its
  300 seconds, another worker claims the rest of the batch, and a delivery is accepted twice.
\<close>

theorem slow_batch_sends_twice:
  "DELIVERY_LEASE_SECONDS < 50 * 30 \<and> all_events prompt slow_run (empty_fleet 0)
     \<and> map_option fl_sent (exec_all slow_run (empty_fleet 0)) = Some [''b'', ''b'']"
  by (simp add: slow_run_def run_defs)

text \<open>
  The UPDATE that ends a suppression looks at the id alone: a worker that read the delivery
  before another released and sent it makes it pending again, and it is sent a second time.
\<close>

theorem stale_release_sends_twice:
  "map_option fl_sent (exec_all stale_release_run (empty_fleet 0)) = Some [''a'', ''a'']"
  by (simp add: stale_release_run_def run_defs)

section \<open>Suppressed for good\<close>

text \<open>
  A delivery suppressed for another reason than quiet hours: the user closed the channel, or its
  category is collected into a digest.
\<close>

definition dead_end :: "delivery \<Rightarrow> bool" where
  "dead_end d \<longleftrightarrow> dl_status d = DLV_SUPPRESSED \<and> dl_error d \<noteq> Some ''Suppressed during quiet hours''"

definition in_use :: "fleet \<Rightarrow> string set" where
  "in_use s = jb_id ` set (fl_jobs s) \<union> snd ` set (fl_looked s) \<union> snd ` set (fl_asked s) \<union> set (fl_sent s)"

definition unowned :: "delivery list \<Rightarrow> bool" where
  "unowned ds \<longleftrightarrow> (\<forall>d \<in> set ds. dead_end d \<longrightarrow> dl_lease_owner d = None)"

definition ends_alone :: "fleet \<Rightarrow> bool" where
  "ends_alone s \<longleftrightarrow> distinct (map dl_id (fl_rows s)) \<and> in_use s \<subseteq> dl_id ` set (fl_rows s)
     \<and> (\<forall>d \<in> set (fl_rows s). dead_end d \<longrightarrow> dl_id d \<notin> in_use s)"

text \<open>A write by a worker touches rows in use only and never makes a dead end.\<close>

lemma ends_map:
  assumes ends: "ends_alone s" and rows: "fl_rows t = map f (fl_rows s)" and id: "\<And>d. dl_id (f d) = dl_id d"
    and touched: "\<And>d. d \<in> set (fl_rows s) \<Longrightarrow> f d = d \<or> \<not> dead_end (f d) \<and> \<not> dead_end d"
    and used: "in_use t \<subseteq> in_use s \<union> {dl_id d | d. d \<in> set (fl_rows s) \<and> \<not> dead_end d}"
  shows "ends_alone t \<and> (\<forall>d \<in> set (fl_rows s). dead_end d \<longrightarrow> d \<in> set (fl_rows t))"
proof -
  have "dl_id \<circ> f = dl_id" using id by (simp add: fun_eq_iff)
  then have "distinct (map dl_id (fl_rows t))" using ends rows by (simp add: ends_alone_def)
  moreover have "dl_id ` set (fl_rows t) = dl_id ` set (fl_rows s)" using id by (auto simp: rows image_iff)
  then have "in_use t \<subseteq> dl_id ` set (fl_rows t)" using ends used by (auto simp: ends_alone_def)
  moreover have same: "f d = d" if "d \<in> set (fl_rows s)" "dead_end d" for d using touched that by blast
  have "dl_id e \<notin> in_use t" if e: "e \<in> set (fl_rows t)" "dead_end e" for e
  proof -
    obtain d where d: "d \<in> set (fl_rows s)" "e = f d" using e(1) rows by auto
    then have "e = d" "dead_end d" using touched [OF d(1)] e(2) by auto
    then have "dl_id d \<notin> in_use s" using ends d(1) by (auto simp: ends_alone_def)
    moreover have "dl_id d \<noteq> dl_id c" if "c \<in> set (fl_rows s)" "\<not> dead_end c" for c
      using ends that d(1) \<open>dead_end d\<close> same_id_same_row [of "fl_rows s" d c] by (auto simp: ends_alone_def)
    ultimately show ?thesis using used \<open>e = d\<close> by auto
  qed
  moreover have "\<forall>d \<in> set (fl_rows s). dead_end d \<longrightarrow> d \<in> set (fl_rows t)"
    using same by (force simp: rows image_iff)
  ultimately show ?thesis by (simp add: ends_alone_def)
qed

lemma in_use_row: "ends_alone s \<Longrightarrow> d \<in> set (fl_rows s) \<Longrightarrow> dl_id d \<in> in_use s \<Longrightarrow> \<not> dead_end d"
  by (auto simp: ends_alone_def)

lemma settle_dead_end:
  assumes "settle_row j r now = map f"
  shows "f d = d \<or> dl_id d = jb_id j \<and> \<not> dead_end (f d)"
proof -
  have "f d = hd (settle_row j r now [d])" by (simp add: assms)
  then show ?thesis
    by (cases r) (auto simp: settle_row_def record_sent_def record_failure_def update_leased_def Let_def dead_end_def jb_id_def)
qed

lemma ends_claim:
  assumes ends: "ends_alone s" and run: "exec (Claim w) s = Some t"
  shows "ends_alone t \<and> (\<forall>d \<in> set (fl_rows s). dead_end d \<longrightarrow> d \<in> set (fl_rows t))"
proof -
  obtain claimed rows' where c: "claim_deliveries w 50 DELIVERY_LEASE_SECONDS (fl_clock s) (fl_rows s) = (claimed, rows')" by fastforce
  then have t: "t = s\<lparr>fl_rows := rows', fl_jobs := fl_jobs s @ map (\<lambda>d. \<lparr>jb_worker = w, jb_row = d, jb_result = None\<rparr>) claimed\<rparr>"
    using run by (auto split: if_splits)
  obtain chosen :: "delivery list" where sub: "set chosen \<subseteq> {d \<in> set (fl_rows s). claimable (fl_clock s) d}"
    and claimed: "claimed = map (leased w DELIVERY_LEASE_SECONDS (fl_clock s)) chosen"
    and rows': "rows' = map (\<lambda>d. if dl_id d \<in> dl_id ` set chosen then leased w DELIVERY_LEASE_SECONDS (fl_clock s) d else d) (fl_rows s)"
    using claimed_rows [OF c] by blast
  have pending: "dl_status c = DLV_PENDING" if "c \<in> set chosen" for c using sub that by (auto simp: claimable_def)
  have chosen: "d \<in> set chosen" if "d \<in> set (fl_rows s)" "dl_id d \<in> dl_id ` set chosen" for d
    using that sub ends same_id_same_row [of "fl_rows s" d] by (auto simp: ends_alone_def)
  show ?thesis
  proof (rule ends_map [OF ends, where f = "\<lambda>d. if dl_id d \<in> dl_id ` set chosen then leased w DELIVERY_LEASE_SECONDS (fl_clock s) d else d"])
    fix d
    assume "d \<in> set (fl_rows s)"
    then show "(if dl_id d \<in> dl_id ` set chosen then leased w DELIVERY_LEASE_SECONDS (fl_clock s) d else d) = d
        \<or> \<not> dead_end (if dl_id d \<in> dl_id ` set chosen then leased w DELIVERY_LEASE_SECONDS (fl_clock s) d else d) \<and> \<not> dead_end d"
      using chosen pending by (auto simp: dead_end_def)
  next
    have "jb_id ` set (fl_jobs t) = jb_id ` set (fl_jobs s) \<union> dl_id ` set chosen"
      unfolding t claimed by (simp add: image_Un image_image jb_id_def)
    moreover have "dl_id ` set chosen \<subseteq> {dl_id d | d. d \<in> set (fl_rows s) \<and> \<not> dead_end d}"
      using sub pending by (auto simp: dead_end_def)
    ultimately show "in_use t \<subseteq> in_use s \<union> {dl_id d | d. d \<in> set (fl_rows s) \<and> \<not> dead_end d}"
      unfolding in_use_def by (auto simp: t)
  qed (auto simp: t rows')
qed

lemma ends_settle:
  assumes ends: "ends_alone s" and run: "exec (Settle w i ok) s = Some t"
  shows "ends_alone t \<and> (\<forall>d \<in> set (fl_rows s). dead_end d \<longrightarrow> d \<in> set (fl_rows t))"
proof -
  obtain j where j: "j \<in> set (fl_jobs s)"
    and t: "t = s\<lparr>fl_jobs := filter (\<lambda>k. \<not> is_job w i k) (fl_jobs s),
          fl_rows := (if ok then settle_row j (the (jb_result j)) (fl_clock s) (fl_rows s) else fl_rows s)\<rparr>"
    using settled_job [OF run] by blast
  obtain f where f: "settle_row j (the (jb_result j)) (fl_clock s) = map f" "\<And>d. dl_id (f d) = dl_id d" using settle_map by metis
  have "jb_id j \<in> in_use s" using j by (simp add: in_use_def)
  then have "f d = d \<or> \<not> dead_end (f d) \<and> \<not> dead_end d" if "d \<in> set (fl_rows s)" for d
    using settle_dead_end [OF f(1), of d] in_use_row [OF ends that] by auto
  then show ?thesis
    by (intro ends_map [OF ends, where f = "if ok then f else id"]) (auto simp: t f in_use_def)
qed

lemma ends_touch:
  assumes ends: "ends_alone s" and i: "i \<in> in_use s"
    and rows: "fl_rows t = map (\<lambda>d. if ok \<and> dl_id d = i then g d else d) (fl_rows s)"
    and g: "\<And>d. dl_id d = i \<Longrightarrow> dl_id (g d) = i" "\<And>d. dl_id d = i \<Longrightarrow> \<not> dead_end (g d)" and used: "in_use t \<subseteq> in_use s"
  shows "ends_alone t \<and> (\<forall>d \<in> set (fl_rows s). dead_end d \<longrightarrow> d \<in> set (fl_rows t))"
proof (rule ends_map [OF ends rows])
  fix d
  assume "d \<in> set (fl_rows s)"
  then show "(if ok \<and> dl_id d = i then g d else d) = d \<or> \<not> dead_end (if ok \<and> dl_id d = i then g d else d) \<and> \<not> dead_end d"
    using in_use_row [OF ends] i g(2) by auto
qed (use g(1) used in auto)

lemma ends_step:
  assumes ends: "ends_alone s" and run: "exec e s = Some t"
  shows "ends_alone t \<and> (\<forall>d \<in> set (fl_rows s). dead_end d \<longrightarrow> d \<in> set (fl_rows t))"
proof (cases e)
  case (Claim w)
  then show ?thesis using ends_claim ends run by blast
next
  case (Settle w i ok)
  then show ?thesis using ends_settle ends run by blast
next
  case (Send w i r)
  let ?g = "\<lambda>j. if is_job w i j \<and> jb_result j = None then j\<lparr>jb_result := Some r\<rparr> else j"
  obtain j where j: "j \<in> set (fl_jobs s)" "jb_id j = i" and t: "fl_jobs t = map ?g (fl_jobs s)" "fl_rows t = fl_rows s"
    "\<forall>x \<in> set (fl_sent t). x = i \<or> x \<in> set (fl_sent s)" "fl_looked t = fl_looked s" "fl_asked t = fl_asked s"
    using run Send by (auto simp: list_ex_iff is_job_def split: if_splits sum.splits)
  have "jb_id ` set (fl_jobs t) = jb_id ` set (fl_jobs s)" unfolding t(1) set_map image_image by (rule image_cong) auto
  then have "in_use t \<subseteq> in_use s" using j t by (auto simp: in_use_def)
  then show ?thesis by (intro ends_map [OF ends, where f = id]) (auto simp: t(2))
next
  case (Look w "is")
  then have "in_use t = in_use s \<union> set is" and rows: "fl_rows t = fl_rows s" and found: "\<forall>i \<in> set is. \<exists>d \<in> set (fl_rows s). dl_id d = i \<and> \<not> dead_end d"
    using run by (auto simp: in_use_def image_Un image_image list_all_iff has_row_def list_ex_iff held_back_def dead_end_def split: if_splits)
  then have sub: "in_use t \<subseteq> in_use s \<union> {dl_id d | d. d \<in> set (fl_rows s) \<and> \<not> dead_end d}"
    by (metis (mono_tags, lifting) Un_mono mem_Collect_eq order_refl subsetI)
  show ?thesis by (rule ends_map [OF ends _ _ _ sub, where f = id]) (simp_all add: rows)
next
  case (Ask w "is")
  then have "in_use t = in_use s \<union> set is" and rows: "fl_rows t = fl_rows s" and found: "\<forall>i \<in> set is. \<exists>d \<in> set (fl_rows s). dl_id d = i \<and> \<not> dead_end d"
    using run by (auto simp: in_use_def image_Un image_image list_all_iff has_row_def list_ex_iff dead_end_def split: if_splits) fastforce
  then have sub: "in_use t \<subseteq> in_use s \<union> {dl_id d | d. d \<in> set (fl_rows s) \<and> \<not> dead_end d}"
    by (metis (mono_tags, lifting) Un_mono mem_Collect_eq order_refl subsetI)
  show ?thesis by (rule ends_map [OF ends _ _ _ sub, where f = id]) (simp_all add: rows)
next
  case (Release w i ok)
  then have looked: "(w, i) \<in> set (fl_looked s)"
    and t: "t = s\<lparr>fl_looked := remove1 (w, i) (fl_looked s), fl_rows := (if ok then release_row i (fl_clock s) (fl_rows s) else fl_rows s)\<rparr>"
    using run by (simp_all split: if_splits)
  have "i \<in> in_use s" using looked unfolding in_use_def by force
  then show ?thesis
  proof (rule ends_touch [OF ends])
    show "in_use t \<subseteq> in_use s" using set_remove1_subset [of "(w, i)" "fl_looked s"] unfolding t in_use_def by auto
    show "fl_rows t = map (\<lambda>d. if ok \<and> dl_id d = i then hd (release_row i (fl_clock s) [d]) else d) (fl_rows s)"
      by (simp add: t release_row_def)
  qed (simp_all add: release_row_def dead_end_def)
next
  case (Receipt w i r ok)
  then have asked: "(w, i) \<in> set (fl_asked s)"
    and t: "t = s\<lparr>fl_asked := remove1 (w, i) (fl_asked s), fl_rows := (if ok then receive i r (fl_rows s) else fl_rows s)\<rparr>"
    using run by (simp_all split: if_splits)
  have "i \<in> in_use s" using asked unfolding in_use_def by force
  then show ?thesis
  proof (rule ends_touch [OF ends])
    show "in_use t \<subseteq> in_use s" using set_remove1_subset [of "(w, i)" "fl_asked s"] unfolding t in_use_def by auto
    show "fl_rows t = map (\<lambda>d. if ok \<and> dl_id d = i then receipt_update r d else d) (fl_rows s)"
      by (simp add: t receive_def)
  qed (simp_all add: receipt_update_def dead_end_def)
next
  case (Abandon w)
  then show ?thesis
    using run by (intro ends_map [OF ends, where f = id]) (auto simp: in_use_def)
next
  case (Tick n)
  then show ?thesis
    using run by (intro ends_map [OF ends, where f = id]) (auto simp: in_use_def)
next
  case (File ds)
  then have t: "t = s\<lparr>fl_rows := fl_rows s @ ds\<rparr>" and fresh: "fresh_rows ds s" using run by (auto split: if_splits)
  have differ: "\<forall>d \<in> set ds. \<forall>e \<in> set (fl_rows s). dl_id d \<noteq> dl_id e"
    using fresh by (simp add: fresh_rows_def has_row_def list_all_iff list_ex_iff) metis
  have new: "\<forall>i \<in> dl_id ` set ds. i \<notin> dl_id ` set (fl_rows s)"
  proof
    fix i
    assume "i \<in> dl_id ` set ds"
    then obtain d where "d \<in> set ds" "i = dl_id d" by blast
    then show "i \<notin> dl_id ` set (fl_rows s)" using differ by auto
  qed
  then have apart: "dl_id ` set (fl_rows s) \<inter> dl_id ` set ds = {}" by blast
  have used: "in_use t = in_use s" by (simp add: t in_use_def)
  have rows: "fl_rows t = fl_rows s @ ds" by (simp add: t)
  have known: "in_use s \<subseteq> dl_id ` set (fl_rows s)" and "distinct (map dl_id (fl_rows s))"
    and old: "\<forall>d \<in> set (fl_rows s). dead_end d \<longrightarrow> dl_id d \<notin> in_use s"
    using ends by (simp_all add: ends_alone_def)
  then have "distinct (map dl_id (fl_rows t))" using fresh apart by (simp add: rows fresh_rows_def)
  moreover have "\<forall>d \<in> set (fl_rows t). dead_end d \<longrightarrow> dl_id d \<notin> in_use t"
  proof
    fix d
    assume "d \<in> set (fl_rows t)"
    then have "d \<in> set (fl_rows s) \<or> d \<in> set ds" by (simp add: rows)
    then show "dead_end d \<longrightarrow> dl_id d \<notin> in_use t"
    proof
      assume "d \<in> set (fl_rows s)"
      then show ?thesis using old used by simp
    next
      assume "d \<in> set ds"
      then have "dl_id d \<notin> dl_id ` set (fl_rows s)" using new by blast
      then show ?thesis using known used by blast
    qed
  qed
  moreover have "in_use t \<subseteq> dl_id ` set (fl_rows t)" using known by (auto simp: used rows)
  ultimately show ?thesis by (simp add: ends_alone_def rows)
qed


definition digest_run :: "event list" where
  "digest_run = [File [(demo_pending ''a'')\<lparr>dl_status := DLV_SUPPRESSED, dl_error := Some ''Deferred to digest''\<rparr>]]"


end
