(* ===== verification/FleetRefinement.thy ===== *)
theory FleetRefinement
  imports Fleet
begin

text \<open>
  One tick of a worker's timer (\<open>runWorker\<close> of \<^verbatim>\<open>Delivery\<close>), whatever statements and providers do, is a run
  of that worker's events in \<^verbatim>\<open>Fleet\<close>. The assertion \<open>ran\<close> says which events led to a state; it is
  carried through the worker's code by the rules of the prelude.
\<close>

definition fleet_of :: "notif_db \<Rightarrow> job list \<Rightarrow> (string \<times> string) list \<Rightarrow> (string \<times> string) list \<Rightarrow> fleet" where
  "fleet_of s js L A = \<lparr>fl_rows = deliveries s, fl_clock = nt_clock s, fl_jobs = js, fl_looked = L, fl_asked = A, fl_sent = nt_sent s\<rparr>"

text \<open>The events of one worker; rows are filed and time passes for everyone.\<close>

fun of_worker :: "string \<Rightarrow> event \<Rightarrow> bool" where
  "of_worker w (Claim v) = (v = w)"
| "of_worker w (Send v i r) = (v = w)"
| "of_worker w (Settle v i ok) = (v = w)"
| "of_worker w (Look v is) = (v = w)"
| "of_worker w (Release v i ok) = (v = w)"
| "of_worker w (Ask v is) = (v = w)"
| "of_worker w (Receipt v i r ok) = (v = w)"
| "of_worker w (Abandon v) = (v = w)"
| "of_worker w (File ds) = True"
| "of_worker w (Tick n) = True"

definition ran :: "fleet \<Rightarrow> string \<Rightarrow> job list \<Rightarrow> (string \<times> string) list \<Rightarrow> (string \<times> string) list \<Rightarrow> notif_db \<Rightarrow> bool" where
  "ran S w js L A t \<longleftrightarrow> tables_ok t \<and> (\<exists>es. list_all (of_worker w) es \<and> exec_all es S = Some (fleet_of t js L A))"

definition idle :: "string \<Rightarrow> job list \<Rightarrow> (string \<times> string) list \<Rightarrow> (string \<times> string) list \<Rightarrow> bool" where
  "idle w js L A \<longleftrightarrow> (\<forall>j \<in> set js. jb_worker j \<noteq> w) \<and> (\<forall>x \<in> set L. fst x \<noteq> w) \<and> (\<forall>x \<in> set A. fst x \<noteq> w)"

lemma exec_all_append: "exec_all (es @ fs) s = (case exec_all es s of None \<Rightarrow> None | Some t \<Rightarrow> exec_all fs t)"
  by (induction es arbitrary: s) (auto split: option.splits)

lemma ran_start: "tables_ok s \<Longrightarrow> ran (fleet_of s js L A) w js L A s"
  by (auto simp: ran_def intro: exI [of _ "[]"])

lemma ran_step:
  assumes "ran S w js L A s" and "exec e (fleet_of s js L A) = Some (fleet_of t js' L' A')" and "of_worker w e" and "tables_ok t"
  shows "ran S w js' L' A' t"
proof -
  obtain es where "list_all (of_worker w) es" "exec_all es S = Some (fleet_of s js L A)" using assms(1) by (auto simp: ran_def)
  then have "list_all (of_worker w) (es @ [e]) \<and> exec_all (es @ [e]) S = Some (fleet_of t js' L' A')"
    using assms(2,3) by (simp add: exec_all_append)
  then show ?thesis using assms(4) unfolding ran_def by blast
qed

lemma ran_same:
  "ran S w js L A s \<Longrightarrow> deliveries t = deliveries s \<Longrightarrow> nt_clock t = nt_clock s \<Longrightarrow> nt_sent t = nt_sent s \<Longrightarrow> tables_ok t \<Longrightarrow> ran S w js L A t"
  by (simp add: ran_def fleet_of_def)

lemma ran_ok: "ran S w js L A s \<Longrightarrow> tables_ok s"
  by (simp add: ran_def)

lemma own_ran [simp]: "own_tables (ran S w js L A)"
  by (simp add: own_tables_def ran_def fleet_of_def tables_ok_def nt_base_update_def)

lemma ran_stmt:
  assumes "\<And>s x t. tables_ok s \<Longrightarrow> f s = Inr (x, t) \<Longrightarrow>
    tables_ok t \<and> deliveries t = deliveries s \<and> nt_clock t = nt_clock s \<and> nt_sent t = nt_sent s"
  shows "keeps (ran S w js L A) (nt_stmt f)"
  using assms by (intro own_tables_stmt [OF own_ran]) (metis ran_ok ran_same)

section \<open>Filing notifications\<close>

definition blank :: "delivery \<Rightarrow> bool" where
  "blank d \<longleftrightarrow> dl_attempts d = 0 \<and> dl_lease_owner d = None \<and> dl_lease_expires_at d = None \<and> dl_provider_id d = None
     \<and> dl_dead_lettered_at d = None \<and> dl_status d \<in> {DLV_PENDING, DLV_SENT, DLV_SUPPRESSED}"

lemma blank_row: "st \<in> {DLV_PENDING, DLV_SENT, DLV_SUPPRESSED} \<Longrightarrow> blank (delivery_row nid ch dev st err now)"
  by (simp add: blank_def delivery_row_def)

lemma blank_sent [simp]: "blank (d\<lparr>dl_sent_at := t\<rparr>) = blank d"
  by (simp add: blank_def)

lemma device_deliveries_blank: "list_all blank (device_deliveries pref quiet digesting nid now ds)"
  by (induction ds) (auto intro: blank_row split: option.splits)

lemma delivery_row_fresh: "d \<in> set (delivery_rows pref c quiet digesting devices nid now) \<Longrightarrow> blank d"
  using device_deliveries_blank [of pref quiet digesting nid now devices]
  by (auto simp: delivery_rows_def in_app_delivery_def email_deliveries_def list_all_iff blank_row split: if_splits)

lemma ran_file:
  assumes ran: "ran S w js L A s" and run: "insert_deliveries (with_ids ids (delivery_rows pref c quiet digesting devices nid now)) s = Inr (x, t)"
  shows "ran S w js L A t"
proof -
  let ?ds = "with_ids ids (delivery_rows pref c quiet digesting devices nid now)"
  have t: "t = s\<lparr>deliveries := deliveries s @ ?ds\<rparr>" and ids: "distinct (map dl_id ?ds)"
    and new: "\<not> list_ex (\<lambda>d. list_ex (\<lambda>e. delivery_key e = delivery_key d \<or> dl_id e = dl_id d) (deliveries s)) ?ds"
    using run by (auto simp: insert_deliveries_def split: if_splits)
  have "fresh_rows ?ds (fleet_of s js L A)"
    using ids new by (auto simp: fresh_rows_def fleet_of_def has_row_def list_all_iff list_ex_iff blank_def dest!: with_ids_in delivery_row_fresh)
  then have "exec (File ?ds) (fleet_of s js L A) = Some (fleet_of t js L A)" by (simp add: fleet_of_def t)
  moreover have "tables_ok t" by (rule ok_insert_deliveries [OF ran_ok [OF ran] run])
  ultimately show ?thesis by (rule ran_step [OF ran _ of_worker.simps(9) [THEN iffD2, OF TrueI]])
qed

lemma ran_create [keeps_intros]: "keeps (ran S w js L A) (createNotification W i)"
proof -
  have ins: "keeps (ran S w js L A) (nt_stmt (insert_notification n))" for n
    by (rule ran_stmt) (auto dest: ok_insert_notification simp: insert_notification_def split: if_splits)
  have rows: "keeps (ran S w js L A) (nt_stmt (insert_deliveries (with_ids ids (delivery_rows pref c quiet digesting devices nid now))))"
    for ids pref c quiet digesting devices nid now
    by (rule own_tables_stmt [OF own_ran]) (rule ran_file)
  show ?thesis
    unfolding createNotification_def file_notification_def Let_def
    by (intro keeps_bind own_tables_rows own_tables_read own_tables_ids own_ran keeps_reads keeps_case_sum keeps_case_option
        keeps_if keeps_return ins rows)
qed

lemma ran_dispatch [keeps_intros]: "keeps (ran S w js L A) (dispatchCampaign W i)"
proof -
  have upd: "keeps (ran S w js L A) (nt_stmt (update_campaign hit patch))" for hit patch
    by (rule ran_stmt) (auto simp: update_campaign_def)
  have claim: "keeps (ran S w js L A) (nt_stmt (claim_campaign i))"
    by (rule ran_stmt) (auto simp: claim_campaign_def update_campaign_def split: sum.splits)
  show ?thesis
    unfolding dispatchCampaign_def
    by (intro keeps_bind keeps_or_throw claim upd own_ran keeps_case_option keeps_catch own_tables_rows
        keeps_mapBatches ran_create keeps_return keeps_throw)
qed

lemma ran_routes [keeps_intros]:
  "keeps (ran S w js L A) (dispatchDueCampaigns W)" "keeps (ran S w js L A) (routeFiringAlerts W)"
  "keeps (ran S w js L A) (routeUpcomingRecurringEvents W)"
  unfolding dispatchDueCampaigns_def routeFiringAlerts_def routeUpcomingRecurringEvents_def remind_def Let_def
  by (intro keeps_bind keeps_reads keeps_or_throw own_tables_read own_tables_rows own_ran keeps_map keeps_mapBatches ran_dispatch
      ran_create keeps_return)+

section \<open>Sending what was claimed\<close>

definition held_job :: "delivery_world \<Rightarrow> delivery \<Rightarrow> job" where
  "held_job D d = \<lparr>jb_worker = dw_worker_id D, jb_row = d, jb_result = None\<rparr>"

lemma ran_provider: "keeps (ran S w js L A) (provider D answer)"
proof (rule keepsI)
  fix s
  assume ran: "ran S w js L A s"
  let ?t = "snd (provider D answer s)"
  have "exec (Tick (dw_took D (nt_calls s))) (fleet_of s js L A) = Some (fleet_of ?t js L A)"
    by (simp add: fleet_of_def provider_def)
  moreover have "tables_ok ?t" using ran_ok [OF ran] by (simp add: provider_def tables_ok_def)
  ultimately show "ran S w js L A ?t" by (rule ran_step [OF ran _ of_worker.simps(10) [THEN iffD2, OF TrueI]])
qed

lemma ran_send: "keeps (ran S w js L A) (send_delivery D d n)"
  unfolding send_delivery_def sendExpoPush_def sendEmail_def sendWebPush_def Let_def
  by (cases "dl_channel d")
    (auto intro!: keeps_bind keeps_or_throw own_tables_read own_ran keeps_throw keeps_return keeps_case_sum keeps_case_option
      ran_provider split: bool.split option.split sum.split prod.split)

lemma others_not_job:
  "idle w js L A \<Longrightarrow> filter (\<lambda>k. \<not> is_job w i k) js = js"
  by (auto simp: idle_def is_job_def filter_id_conv)

lemma rest_not_job:
  "dl_id d \<notin> dl_id ` set ds \<Longrightarrow> filter (\<lambda>k. \<not> is_job w (dl_id d) k) (map (held_job D) ds) = map (held_job D) ds"
  by (force simp: is_job_def held_job_def jb_id_def filter_id_conv)

lemma mark_others:
  "idle w js L A \<Longrightarrow> map (\<lambda>k. if is_job w i k \<and> jb_result k = None then k\<lparr>jb_result := Some r\<rparr> else k) js = js"
  by (auto simp: idle_def is_job_def intro: map_idI)

lemma mark_rest:
  "dl_id d \<notin> dl_id ` set ds \<Longrightarrow>
     map (\<lambda>k. if is_job w (dl_id d) k \<and> jb_result k = None then k\<lparr>jb_result := Some r\<rparr> else k) (map (held_job D) ds) = map (held_job D) ds"
  by (rule map_idI) (force simp: is_job_def held_job_def jb_id_def)

text \<open>The outcome of a call to a provider, and what is recorded of it.\<close>

lemma ran_outcome:
  assumes ran: "ran S (dw_worker_id D) (js @ held_job D d # map (held_job D) ds) L A s"
    and idle: "idle (dw_worker_id D) js L A" and new: "dl_id d \<notin> dl_id ` set ds"
    and sent: "nt_sent t = nt_sent s @ (case r of Inl _ \<Rightarrow> [] | Inr _ \<Rightarrow> [dl_id d])" "deliveries t = deliveries s" "nt_clock t = nt_clock s" "tables_ok t"
  shows "ran S (dw_worker_id D) (js @ (held_job D d)\<lparr>jb_result := Some r\<rparr> # map (held_job D) ds) L A t"
proof (rule ran_step [OF ran])
  have job: "is_job (dw_worker_id D) (dl_id d) (held_job D d) \<and> jb_result (held_job D d) = None"
    by (simp add: is_job_def held_job_def jb_id_def)
  show "exec (Send (dw_worker_id D) (dl_id d) r) (fleet_of s (js @ held_job D d # map (held_job D) ds) L A)
      = Some (fleet_of t (js @ (held_job D d)\<lparr>jb_result := Some r\<rparr> # map (held_job D) ds) L A)"
    using job sent by (simp add: fleet_of_def mark_others [OF idle] mark_rest [OF new] del: map_map)
qed (simp_all add: sent)

lemma ok_rows:
  assumes "tables_ok s" and "notifications u = notifications s" and "deliveries u = map f (deliveries s)"
    and kept: "\<And>d. dl_id (f d) = dl_id d \<and> delivery_key (f d) = delivery_key d"
  shows "tables_ok u"
proof -
  have "dl_id \<circ> f = dl_id" "delivery_key \<circ> f = delivery_key" using kept by (simp_all add: fun_eq_iff)
  moreover have "dl_notification_id (f d) = dl_notification_id d" for d using kept [of d] by (simp add: delivery_key_def)
  ultimately show ?thesis using assms(1-3) by (simp add: tables_ok_def list.pred_map comp_def list_all_iff)
qed

lemma settle_keys: "\<exists>f. settle_row j r now = map f \<and> (\<forall>d. dl_id (f d) = dl_id d \<and> delivery_key (f d) = delivery_key d)"
  by (cases r) (auto simp: settle_row_def record_failure_def record_sent_def update_leased_map Let_def delivery_key_def)

lemma on_deliveries_cases:
  "\<exists>u ok. on_deliveries f s = (Inr (), u) \<and> nt_clock u = nt_clock s \<and> nt_sent u = nt_sent s
     \<and> deliveries u = (if ok then f (nt_clock s) (deliveries s) else deliveries s) \<and> notifications u = notifications s"
proof (cases "faults (nt_base s) \<noteq> [] \<and> hd (faults (nt_base s)) \<noteq> None")
  case True
  then show ?thesis
    by (intro exI [of _ "nt_base_update drop_fault s"] exI [of _ False])
      (auto simp: on_deliveries_def api_bind_def api_reads_def nt_stmt_def fault_stmt_def Let_def api_return_def nt_base_update_def)
next
  case False
  then show ?thesis
    by (intro exI [of _ "nt_base_update drop_fault s\<lparr>deliveries := f (nt_clock s) (deliveries s)\<rparr>"] exI [of _ True])
      (auto simp: on_deliveries_def api_bind_def api_reads_def nt_stmt_def fault_stmt_def Let_def api_return_def nt_base_update_def)
qed

lemma ran_record:
  assumes idle: "idle (dw_worker_id D) js L A" and new: "dl_id d \<notin> dl_id ` set ds"
    and upd: "\<And>now. f now = settle_row (held_job D d) r now"
  shows "triple (ran S (dw_worker_id D) (js @ (held_job D d)\<lparr>jb_result := Some r\<rparr> # map (held_job D) ds) L A)
    (on_deliveries f) (\<lambda>_. ran S (dw_worker_id D) (js @ map (held_job D) ds) L A) (\<lambda>_. False)"
proof (rule tripleI)
  fix s
  assume ran: "ran S (dw_worker_id D) (js @ (held_job D d)\<lparr>jb_result := Some r\<rparr> # map (held_job D) ds) L A s"
  let ?j = "(held_job D d)\<lparr>jb_result := Some r\<rparr>"
  have job: "is_job (dw_worker_id D) (dl_id d) ?j \<and> jb_result ?j = Some r" by (simp add: is_job_def held_job_def jb_id_def)
  have none: "filter (\<lambda>k. is_job (dw_worker_id D) (dl_id d) k \<and> jb_result k \<noteq> None) js = []"
    using idle by (auto simp: idle_def is_job_def filter_empty_conv)
  have rows: "settle_row ?j r now = settle_row (held_job D d) r now" for now
    by (simp add: settle_row_def held_job_def split: sum.split)
  obtain u ok where run: "on_deliveries f s = (Inr (), u)" and "nt_clock u = nt_clock s" "nt_sent u = nt_sent s"
    "deliveries u = (if ok then f (nt_clock s) (deliveries s) else deliveries s)" "notifications u = notifications s"
    using on_deliveries_cases [of f s] by blast
  then have u: "nt_clock u = nt_clock s" "nt_sent u = nt_sent s" "notifications u = notifications s"
    "deliveries u = (if ok then settle_row ?j r (nt_clock s) (deliveries s) else deliveries s)"
    by (simp_all add: upd rows)
  obtain g where "settle_row ?j r (nt_clock s) = map g" "\<And>d. dl_id (g d) = dl_id d \<and> delivery_key (g d) = delivery_key d"
    using settle_keys by metis
  then have "tables_ok u"
    using u ran_ok [OF ran] by (intro ok_rows [of s u "if ok then g else id"]) auto
  moreover have "exec (Settle (dw_worker_id D) (dl_id d) ok) (fleet_of s (js @ ?j # map (held_job D) ds) L A)
      = Some (fleet_of u (js @ map (held_job D) ds) L A)"
    using none job u by (simp add: fleet_of_def others_not_job [OF idle] rest_not_job [OF new] del: map_map)
  ultimately have "ran S (dw_worker_id D) (js @ map (held_job D) ds) L A u"
    by (intro ran_step [OF ran, where e = "Settle (dw_worker_id D) (dl_id d) ok"]) simp_all
  then show "case on_deliveries f s of (Inl e, t) \<Rightarrow> False | (Inr x, t) \<Rightarrow> ran S (dw_worker_id D) (js @ map (held_job D) ds) L A t"
    by (simp add: run)
qed

lemma ran_accepted:
  assumes "idle (dw_worker_id D) js L A" and "dl_id d \<notin> dl_id ` set ds"
  shows "triple (ran S (dw_worker_id D) (js @ held_job D d # map (held_job D) ds) L A) (accepted (dl_id d))
    (\<lambda>_. ran S (dw_worker_id D) (js @ (held_job D d)\<lparr>jb_result := Some (Inr pid)\<rparr> # map (held_job D) ds) L A) X"
proof (rule tripleI)
  fix s
  assume ran: "ran S (dw_worker_id D) (js @ held_job D d # map (held_job D) ds) L A s"
  have "ran S (dw_worker_id D) (js @ (held_job D d)\<lparr>jb_result := Some (Inr pid)\<rparr> # map (held_job D) ds) L A (snd (accepted (dl_id d) s))"
    by (rule ran_outcome [OF ran assms]) (use ran_ok [OF ran] in \<open>simp_all add: accepted_def tables_ok_def\<close>)
  then show "case accepted (dl_id d) s of (Inl e, t) \<Rightarrow> X t
      | (Inr x, t) \<Rightarrow> ran S (dw_worker_id D) (js @ (held_job D d)\<lparr>jb_result := Some (Inr pid)\<rparr> # map (held_job D) ds) L A t"
    by (simp add: accepted_def)
qed

lemma ran_deliver:
  assumes idle: "idle (dw_worker_id D) js L A" and new: "dl_id d \<notin> dl_id ` set ds"
  shows "triple (ran S (dw_worker_id D) (js @ held_job D d # map (held_job D) ds) L A) (deliver D d)
    (\<lambda>_. ran S (dw_worker_id D) (js @ map (held_job D) ds) L A)
    (ran S (dw_worker_id D) (js @ held_job D d # map (held_job D) ds) L A)"
proof -
  let ?w = "dw_worker_id D"
  let ?P = "ran S ?w (js @ held_job D d # map (held_job D) ds) L A" and ?Q = "ran S ?w (js @ map (held_job D) ds) L A"
  have settled: "record_sent ?w d pid now = settle_row (held_job D d) (Inr pid) now"
    "record_failure ?w d msg now = settle_row (held_job D d) (Inl msg) now" for pid msg now
    by (simp_all add: settle_row_def held_job_def)
  have failed: "triple ?P (on_deliveries (record_failure ?w d msg)) (\<lambda>_. ?Q) ?P" for msg
  proof (rule tripleI)
    fix s
    assume s: "?P s"
    have "ran S ?w (js @ (held_job D d)\<lparr>jb_result := Some (Inl msg)\<rparr> # map (held_job D) ds) L A s"
      by (rule ran_outcome [OF s idle new]) (use ran_ok [OF s] in simp_all)
    from tripleD [OF ran_record [OF idle new, of "record_failure ?w d msg" "Inl msg"] this]
    show "case on_deliveries (record_failure ?w d msg) s of (Inl e, t) \<Rightarrow> ?P t | (Inr x, t) \<Rightarrow> ?Q t"
      by (simp add: settled split: prod.splits sum.splits)
  qed
  have sent: "triple ?P (api_bind (accepted (dl_id d)) (\<lambda>_. on_deliveries (record_sent ?w d pid))) (\<lambda>_. ?Q) (\<lambda>_. False)" for pid
    by (rule triple_bind [OF ran_accepted [OF idle new] ran_record [OF idle new]]) (simp add: settled)
  have attempt: "triple ?P (api_bind (send_delivery D d n) (\<lambda>pid. api_bind (accepted (dl_id d)) (\<lambda>_.
      on_deliveries (record_sent ?w d pid)))) (\<lambda>_. ?Q) ?P" for n
    by (rule triple_bind [OF triple_keeps [OF ran_send]]) (rule triple_weaken [OF sent], simp_all)
  show ?thesis
    unfolding deliver_def
    by (rule triple_bind [OF triple_keeps [OF keeps_or_throw [OF own_tables_read [OF own_ran]]]])
      (rule triple_catch [OF attempt failed])
qed

lemma ran_abandon:
  assumes ran: "ran S w (js @ ks) (L @ M) (A @ B) s" and idle: "idle w js L A"
    and mine: "list_all (\<lambda>j. jb_worker j = w) ks" "list_all (\<lambda>x. fst x = w) M" "list_all (\<lambda>x. fst x = w) B"
  shows "ran S w js L A s"
proof (rule ran_step [OF ran, where e = "Abandon w"])
  show "exec (Abandon w) (fleet_of s (js @ ks) (L @ M) (A @ B)) = Some (fleet_of s js L A)"
    using idle mine by (auto simp: fleet_of_def idle_def filter_id_conv filter_empty_conv list_all_iff)
qed (simp_all add: ran_ok [OF ran])

lemma ran_batch:
  assumes idle: "idle (dw_worker_id D) js L A"
  shows "distinct (map dl_id ds) \<Longrightarrow> triple (ran S (dw_worker_id D) (js @ map (held_job D) ds) L A) (api_map (deliver D) ds)
    (\<lambda>_. ran S (dw_worker_id D) js L A) (ran S (dw_worker_id D) js L A)"
proof (induction ds)
  case Nil
  show ?case by (simp add: triple_return)
next
  case (Cons d ds)
  have mine: "list_all (\<lambda>j. jb_worker j = dw_worker_id D) (map (held_job D) es)" for es
    by (simp add: list_all_iff held_job_def)
  have abandon: "ran S (dw_worker_id D) (js @ map (held_job D) es) L A s \<Longrightarrow> ran S (dw_worker_id D) js L A s" for es s
    using ran_abandon [of S "dw_worker_id D" js _ L "[]" A "[]", OF _ idle mine] by simp
  have first: "triple (ran S (dw_worker_id D) (js @ map (held_job D) (d # ds)) L A) (deliver D d)
      (\<lambda>_. ran S (dw_worker_id D) (js @ map (held_job D) ds) L A) (ran S (dw_worker_id D) js L A)"
    by (rule triple_weaken [OF ran_deliver [OF idle, of d ds]]) (use Cons.prems abandon [of "d # ds"] in auto)
  have rest: "triple (ran S (dw_worker_id D) (js @ map (held_job D) ds) L A) (api_map (deliver D) ds)
      (\<lambda>_. ran S (dw_worker_id D) js L A) (ran S (dw_worker_id D) js L A)"
    using Cons by simp
  show ?case
    unfolding api_map.simps
    by (rule triple_bind [OF first], rule triple_bind [OF rest]) (rule triple_return)
qed

lemma ran_claim:
  assumes idle: "idle (dw_worker_id D) js L A"
  shows "triple (\<lambda>s. ran S (dw_worker_id D) js L A s \<and> nt_clock s = now)
    (nt_stmt (\<lambda>s. case claim_deliveries (dw_worker_id D) 50 DELIVERY_LEASE_SECONDS now (deliveries s) of
         (claimed, rows) \<Rightarrow> Inr (claimed, s\<lparr>deliveries := rows\<rparr>)))
    (\<lambda>r s. case r of Inl _ \<Rightarrow> ran S (dw_worker_id D) js L A s
       | Inr ds \<Rightarrow> distinct (map dl_id ds) \<and> ran S (dw_worker_id D) (js @ map (held_job D) ds) L A s) X"
proof (rule tripleI)
  fix s
  let ?w = "dw_worker_id D"
  assume s: "ran S ?w js L A s \<and> nt_clock s = now"
  let ?s = "nt_base_update drop_fault s"
  obtain ds rows where c: "claim_deliveries ?w 50 DELIVERY_LEASE_SECONDS now (deliveries s) = (ds, rows)" by fastforce
  have s': "ran S ?w js L A ?s" using s own_ran [of S ?w js L A] by (simp add: own_tables_def)
  have same: "deliveries ?s = deliveries s" "nt_clock ?s = now" "nt_sent ?s = nt_sent s" using s by (simp_all add: nt_base_update_def)
  obtain chosen :: "delivery list" where ds: "ds = map (leased ?w DELIVERY_LEASE_SECONDS now) chosen"
    and rows: "rows = map (\<lambda>d. if dl_id d \<in> dl_id ` set chosen then leased ?w DELIVERY_LEASE_SECONDS now d else d) (deliveries s)"
    and "distinct (map dl_id (deliveries s)) \<longrightarrow> distinct (map dl_id chosen)"
    using claimed_rows [OF c] by blast
  then have "distinct (map dl_id ds)" using ran_ok [of S ?w js L A s] s by (simp add: tables_ok_def comp_def)
  moreover have "ran S ?w (js @ map (held_job D) ds) L A (?s\<lparr>deliveries := rows\<rparr>)"
  proof (rule ran_step [OF s', where e = "Claim ?w"])
    show "exec (Claim ?w) (fleet_of ?s js L A) = Some (fleet_of (?s\<lparr>deliveries := rows\<rparr>) (js @ map (held_job D) ds) L A)"
      using idle c same by (auto simp: fleet_of_def idle_def list_ex_iff held_job_def)
    show "tables_ok (?s\<lparr>deliveries := rows\<rparr>)"
      by (rule ok_rows [OF ran_ok [OF s'], where f = "\<lambda>d. if dl_id d \<in> dl_id ` set chosen then leased ?w DELIVERY_LEASE_SECONDS now d else d"])
        (use same rows in \<open>auto simp: delivery_key_def leased_def\<close>)
  qed simp
  ultimately show "case nt_stmt (\<lambda>s. case claim_deliveries ?w 50 DELIVERY_LEASE_SECONDS now (deliveries s) of
         (claimed, rows) \<Rightarrow> Inr (claimed, s\<lparr>deliveries := rows\<rparr>)) s of (Inl e, t) \<Rightarrow> X t
      | (Inr r, t) \<Rightarrow> (case r of Inl _ \<Rightarrow> ran S ?w js L A t
         | Inr ds \<Rightarrow> distinct (map dl_id ds) \<and> ran S ?w (js @ map (held_job D) ds) L A t)"
    using s' same c by (auto simp: nt_stmt_def fault_stmt_def Let_def split: option.splits)
qed

lemma ran_process:
  assumes idle: "idle (dw_worker_id D) js L A"
  shows "keeps (ran S (dw_worker_id D) js L A) (processPendingDeliveries D)"
proof -
  let ?P = "ran S (dw_worker_id D) js L A"
  have now: "triple ?P (api_reads nt_clock) (\<lambda>now s. ?P s \<and> nt_clock s = now) ?P"
    by (simp add: triple_def api_reads_def)
  have claimed: "triple (\<lambda>s. ?P s \<and> nt_clock s = now) (or_throw (nt_stmt (\<lambda>s.
       case claim_deliveries (dw_worker_id D) 50 DELIVERY_LEASE_SECONDS now (deliveries s) of
         (claimed, rows) \<Rightarrow> Inr (claimed, s\<lparr>deliveries := rows\<rparr>))))
     (\<lambda>ds s. ran S (dw_worker_id D) (js @ map (held_job D) ds) L A s \<and> distinct (map dl_id ds)) ?P" for now
    unfolding or_throw_def
  proof (rule triple_bind [OF ran_claim [OF idle, where X = ?P]])
    fix r :: "pg_error + delivery list"
    show "triple (\<lambda>s. case r of Inl _ \<Rightarrow> ?P s | Inr ds \<Rightarrow> distinct (map dl_id ds) \<and> ran S (dw_worker_id D) (js @ map (held_job D) ds) L A s)
        (case r of Inl e \<Rightarrow> api_throw (Js_error (pg_message e)) | Inr x \<Rightarrow> api_return x)
        (\<lambda>ds s. ran S (dw_worker_id D) (js @ map (held_job D) ds) L A s \<and> distinct (map dl_id ds)) ?P"
      by (cases r) (simp_all add: triple_def api_throw_def api_return_def)
  qed
  have batch: "triple (\<lambda>s. ran S (dw_worker_id D) (js @ map (held_job D) ds) L A s \<and> distinct (map dl_id ds))
      (api_bind (api_map (deliver D) ds) (\<lambda>_. api_return ())) (\<lambda>_. ?P) ?P" for ds
    by (intro triple_assume triple_bind [OF ran_batch [OF idle]] triple_return) simp_all
  have "triple ?P (processPendingDeliveries D) (\<lambda>_. ?P) ?P"
    unfolding processPendingDeliveries_def by (rule triple_bind [OF now], rule triple_bind [OF claimed], rule batch)
  then show ?thesis by (rule keeps_triple)
qed

section \<open>Releases and receipts\<close>

text \<open>Rows a worker has read and acts on one by one, giving up the rest when a step throws.\<close>

lemma triple_each:
  assumes "\<And>x xs. triple (P (x # xs)) (f x) (\<lambda>_. P xs) X" and "\<And>s. P [] s \<Longrightarrow> Q s"
  shows "triple (P xs) (api_bind (api_map f xs) (\<lambda>_. api_return ())) (\<lambda>_. Q) X"
proof -
  have "triple (P xs) (api_map f xs) (\<lambda>_. P []) X"
  proof (induction xs)
    case Nil
    show ?case by (simp add: triple_return)
  next
    case (Cons x xs)
    show ?case
      unfolding api_map.simps by (rule triple_bind [OF assms(1)], rule triple_bind [OF Cons.IH]) (rule triple_return)
  qed
  then show ?thesis by (rule triple_bind) (simp add: triple_return assms(2))
qed

lemma triple_read_rows:
  assumes "own_tables P" and "\<And>s f. q (nt_base_update f s) = q s"
  shows "triple P (or_throw (nt_read (\<lambda>s. Inr (q s)))) (\<lambda>xs s. P s \<and> xs = q s) P"
  using assms
  by (auto simp: triple_def or_throw_def nt_read_def nt_stmt_def fault_stmt_def Let_def api_bind_def own_tables_def
      api_return_def api_throw_def)

definition looking :: "fleet \<Rightarrow> string \<Rightarrow> job list \<Rightarrow> (string \<times> string) list \<Rightarrow> (string \<times> string) list \<Rightarrow> (string \<times> string) list \<Rightarrow> notif_db \<Rightarrow> bool" where
  "looking S w js L A rows = ran S w js (L @ map (Pair w \<circ> fst) rows) A"

definition asking :: "fleet \<Rightarrow> string \<Rightarrow> job list \<Rightarrow> (string \<times> string) list \<Rightarrow> (string \<times> string) list \<Rightarrow> (string \<times> string) list \<Rightarrow> notif_db \<Rightarrow> bool" where
  "asking S w js L A rows = ran S w js L (A @ map (Pair w \<circ> fst) rows)"

lemma give_up:
  assumes "idle w js L A"
  shows "looking S w js L A rows s \<Longrightarrow> ran S w js L A s" "asking S w js L A rows s \<Longrightarrow> ran S w js L A s"
  using ran_abandon [of S w js "[]" L "map (Pair w \<circ> fst) rows" A "[]"] ran_abandon [of S w js "[]" L "[]" A "map (Pair w \<circ> fst) rows"] assms
  by (simp_all add: looking_def asking_def list_all_iff)

lemma remove_mine: "\<forall>x \<in> set L. fst x \<noteq> w \<Longrightarrow> remove1 (w, i) (L @ (w, i) # M) = L @ M"
  by (induction L) auto

lemma release_cases:
  "\<exists>u ok. (if quiet then api_return () else on_deliveries f) s = (Inr (), u) \<and> nt_clock u = nt_clock s \<and> nt_sent u = nt_sent s
     \<and> notifications u = notifications s \<and> deliveries u = (if ok then f (nt_clock s) (deliveries s) else deliveries s)"
proof (cases quiet)
  case True
  then show ?thesis by (intro exI [of _ s] exI [of _ False]) (simp add: api_return_def)
next
  case False
  show ?thesis using on_deliveries_cases [of f s] by (simp only: False if_False) blast
qed

lemma ran_release_row:
  assumes idle: "idle w js L A"
  shows "triple (looking S w js L A (row # rows)) (if quiet then api_return () else on_deliveries (release_row (fst row)))
    (\<lambda>_. looking S w js L A rows) (ran S w js L A)"
proof (rule tripleI)
  fix s
  assume s: "looking S w js L A (row # rows) s"
  obtain u ok where run: "(if quiet then api_return () else on_deliveries (release_row (fst row))) s = (Inr (), u)"
    and u: "nt_clock u = nt_clock s" "nt_sent u = nt_sent s" "notifications u = notifications s"
      "deliveries u = (if ok then release_row (fst row) (nt_clock s) (deliveries s) else deliveries s)"
    using release_cases [of quiet "release_row (fst row)" s] by blast
  have "tables_ok u"
    using u ran_ok s
    by (intro ok_rows [of s u "\<lambda>d. if ok then hd (release_row (fst row) (nt_clock s) [d]) else d"])
      (auto simp: looking_def release_row_def delivery_key_def)
  moreover have "exec (Release w (fst row) ok) (fleet_of s js (L @ map (Pair w \<circ> fst) (row # rows)) A)
      = Some (fleet_of u js (L @ map (Pair w \<circ> fst) rows) A)"
    using u idle remove_mine [of L w "fst row"] by (simp add: fleet_of_def idle_def comp_def)
  ultimately have "looking S w js L A rows u"
    using s unfolding looking_def by (rule_tac ran_step [OF _ _ of_worker.simps(5) [THEN iffD2, OF refl]])
  then show "case (if quiet then api_return () else on_deliveries (release_row (fst row))) s of
      (Inl e, t) \<Rightarrow> ran S w js L A t | (Inr x, t) \<Rightarrow> looking S w js L A rows t"
    by (simp add: run)
qed

lemma own_looking [simp]: "own_tables (looking S w js L A rows)" "own_tables (asking S w js L A rows)"
  by (simp_all add: looking_def asking_def)

lemma ran_release:
  assumes idle: "idle (dw_worker_id D) js L A"
  shows "keeps (ran S (dw_worker_id D) js L A) (releaseQuietHourDeliveries D)"
proof -
  let ?w = "dw_worker_id D"
  let ?P = "ran S ?w js L A" and ?q = "\<lambda>s. take 100 (held_back_rows s)"
  have one: "triple (looking S ?w js L A (row # rows)) (release_one D row) (\<lambda>_. looking S ?w js L A rows) ?P" for row rows
    unfolding release_one_def
  proof (rule triple_bind)
    show "triple (looking S ?w js L A (row # rows)) (or_throw (nt_read (\<lambda>s. single [p \<leftarrow> nt_profiles s. pf_id p = snd row])))
        (\<lambda>_. looking S ?w js L A (row # rows)) ?P"
      by (rule triple_weaken [OF triple_keeps [OF keeps_or_throw [OF own_tables_read [OF own_looking(1)]]]]) (auto intro: give_up(1) [OF idle])
    fix p
    show "triple (looking S ?w js L A (row # rows)) (api_bind (api_reads nt_clock) (\<lambda>now.
        if quiet_at (dw_notif D) now (Some p) then api_return () else on_deliveries (release_row (fst row))))
        (\<lambda>_. looking S ?w js L A rows) ?P"
      by (rule triple_bind [where R = "\<lambda>_. looking S ?w js L A (row # rows)"])
        (simp add: triple_def api_reads_def, rule ran_release_row [OF idle])
  qed
  have look: "looking S ?w js L A (?q s) s" if "?P s" for s
    unfolding looking_def
  proof (rule ran_step [OF that, where e = "Look ?w (map fst (?q s))"])
    show "exec (Look ?w (map fst (?q s))) (fleet_of s js L A) = Some (fleet_of s js (L @ map (Pair ?w \<circ> fst) (?q s)) A)"
      by (auto simp: fleet_of_def list_all_iff has_row_def list_ex_iff held_back_rows_def dest!: in_set_takeD)
  qed (use ran_ok [OF that] in simp_all)
  have "triple ?P (releaseQuietHourDeliveries D) (\<lambda>_. ?P) ?P"
    unfolding releaseQuietHourDeliveries_def
  proof (rule triple_bind [OF triple_read_rows [OF own_ran]])
    fix rows
    show "triple (\<lambda>s. ?P s \<and> rows = ?q s) (api_bind (api_map (release_one D) rows) (\<lambda>_. api_return ())) (\<lambda>_. ?P) ?P"
      by (rule triple_weaken [OF triple_each [where P = "looking S ?w js L A" and Q = ?P, OF one give_up(1) [OF idle]]]) (auto intro: look)
  qed (simp add: held_back_rows_def nt_base_update_def)
  then show ?thesis by (rule keeps_triple)
qed

lemma ran_receipt_row:
  assumes idle: "idle w js L A"
  shows "triple (asking S w js L A (row # rows)) (apply_receipt receipts row) (\<lambda>_. asking S w js L A rows) (ran S w js L A)"
proof (rule tripleI)
  fix s
  assume s: "asking S w js L A (row # rows) s"
  have "\<exists>quiet receipt. apply_receipt receipts row = (if quiet then api_return () else on_deliveries (\<lambda>_. receive (fst row) receipt))"
    unfolding apply_receipt_def receive_def by (auto split: option.splits intro: exI [of _ True] exI [of _ False])
  then obtain quiet receipt where call: "apply_receipt receipts row = (if quiet then api_return () else on_deliveries (\<lambda>_. receive (fst row) receipt))"
    by blast
  obtain u ok where run: "apply_receipt receipts row s = (Inr (), u)"
    and u: "nt_clock u = nt_clock s" "nt_sent u = nt_sent s" "notifications u = notifications s"
      "deliveries u = (if ok then receive (fst row) receipt (deliveries s) else deliveries s)"
    unfolding call using release_cases [of quiet "\<lambda>_. receive (fst row) receipt" s] by blast
  have "tables_ok u"
    using u ran_ok s
    by (intro ok_rows [of s u "\<lambda>d. if ok \<and> dl_id d = fst row then receipt_update receipt d else d"])
      (auto simp: asking_def receive_def receipt_update_def delivery_key_def)
  moreover have "exec (Receipt w (fst row) receipt ok) (fleet_of s js L (A @ map (Pair w \<circ> fst) (row # rows)))
      = Some (fleet_of u js L (A @ map (Pair w \<circ> fst) rows))"
    using u idle remove_mine [of A w "fst row"] by (simp add: fleet_of_def idle_def comp_def)
  ultimately have "asking S w js L A rows u"
    using s unfolding asking_def by (rule_tac ran_step [OF _ _ of_worker.simps(7) [THEN iffD2, OF refl]])
  then show "case apply_receipt receipts row s of (Inl e, t) \<Rightarrow> ran S w js L A t | (Inr x, t) \<Rightarrow> asking S w js L A rows t"
    by (simp add: run)
qed

lemma asking_provider: "keeps (asking S w js L A rows) (provider D answer)"
  unfolding asking_def by (rule ran_provider)

lemma ran_receipts:
  assumes idle: "idle w js L A"
  shows "keeps (ran S w js L A) (processExpoReceipts D)"
proof -
  let ?P = "ran S w js L A" and ?q = "\<lambda>s. take 100 (awaiting_receipt s)"
  have ask: "asking S w js L A (?q s) s" if "?P s" for s
    unfolding asking_def
  proof (rule ran_step [OF that, where e = "Ask w (map fst (?q s))"])
    show "exec (Ask w (map fst (?q s))) (fleet_of s js L A) = Some (fleet_of s js L (A @ map (Pair w \<circ> fst) (?q s)))"
      by (auto simp: fleet_of_def list_all_iff has_row_def list_ex_iff awaiting_receipt_def split: option.splits dest!: in_set_takeD) metis
  qed (use ran_ok [OF that] in simp_all)
  have each: "triple (asking S w js L A rows) (api_bind (api_map (apply_receipt receipts) rows) (\<lambda>_. api_return ())) (\<lambda>_. ?P) ?P" for rows receipts
    by (rule triple_each [where P = "asking S w js L A" and Q = ?P, OF ran_receipt_row [OF idle] give_up(2) [OF idle]])
  have quit: "triple (asking S w js L A rows) (api_return ()) (\<lambda>_. ?P) ?P" "triple (asking S w js L A rows) (api_throw e) (\<lambda>_. ?P) ?P" for rows e
    by (rule triple_return triple_throw, erule give_up(2) [OF idle])+
  have reply: "triple (asking S w js L A rows) (if \<not> (200 \<le> fst answer \<and> fst answer \<le> 299) then api_return ()
       else case snd answer of
         None \<Rightarrow> api_throw (Js_error ''Unexpected token in JSON'')
       | Some JNull \<Rightarrow> api_throw (Js_error ''Cannot read properties of null'')
       | Some body \<Rightarrow> api_bind (api_map (apply_receipt (jget body ''data'')) rows) (\<lambda>_. api_return ())) (\<lambda>_. ?P) ?P"
    for answer :: "nat \<times> json option" and rows
    by (intro triple_if quit) (auto split: option.split json.split intro: quit each)
  have call: "triple (asking S w js L A rows) (provider D g) (\<lambda>_. asking S w js L A rows) ?P" for g :: "nat \<Rightarrow> string + nat \<times> json option" and rows
    by (rule triple_weaken [OF triple_keeps [OF asking_provider]]) (auto intro: give_up(2) [OF idle])
  have "triple ?P (processExpoReceipts D) (\<lambda>_. ?P) ?P"
    unfolding processExpoReceipts_def
  proof (rule triple_bind [OF triple_read_rows [OF own_ran]])
    fix rows
    have "triple (asking S w js L A rows) (if rows = [] then api_return ()
     else
       api_bind (provider D (\<lambda>k. dw_http D k ''https://exp.host/--/api/v2/push/getReceipts''
         (JObj [(''ids'', JArr (map (JStr \<circ> snd) rows))]))) (\<lambda>answer.
       if \<not> (200 \<le> fst answer \<and> fst answer \<le> 299) then api_return ()
       else case snd answer of
         None \<Rightarrow> api_throw (Js_error ''Unexpected token in JSON'')
       | Some JNull \<Rightarrow> api_throw (Js_error ''Cannot read properties of null'')
       | Some body \<Rightarrow> api_bind (api_map (apply_receipt (jget body ''data'')) rows) (\<lambda>_. api_return ()))) (\<lambda>_. ?P) ?P"
      using triple_bind [OF call reply] quit(1) by simp
    then show "triple (\<lambda>s. ?P s \<and> rows = ?q s) (if rows = [] then api_return ()
     else
       api_bind (provider D (\<lambda>k. dw_http D k ''https://exp.host/--/api/v2/push/getReceipts''
         (JObj [(''ids'', JArr (map (JStr \<circ> snd) rows))]))) (\<lambda>answer.
       if \<not> (200 \<le> fst answer \<and> fst answer \<le> 299) then api_return ()
       else case snd answer of
         None \<Rightarrow> api_throw (Js_error ''Unexpected token in JSON'')
       | Some JNull \<Rightarrow> api_throw (Js_error ''Cannot read properties of null'')
       | Some body \<Rightarrow> api_bind (api_map (apply_receipt (jget body ''data'')) rows) (\<lambda>_. api_return ()))) (\<lambda>_. ?P) ?P"
      by (rule triple_weaken) (auto intro: ask)
  qed (simp add: awaiting_receipt_def nt_base_update_def)
  then show ?thesis by (rule keeps_triple)
qed

section \<open>A tick of the timer\<close>

lemma ran_tick:
  assumes idle: "idle (dw_worker_id D) js L A"
  shows "keeps (ran S (dw_worker_id D) js L A) (runWorker D)"
  unfolding runWorker_def Let_def
  by (intro keeps_catch keeps_bind ran_routes ran_release [OF idle] ran_process [OF idle] ran_receipts [OF idle] keeps_return)

text \<open>
  C36. One tick of the worker's timer, with any answers of providers, failures of statements and
  exceptions, does to the tables exactly what some run of that worker's events does to the fleet,
  and leaves the worker with nothing in hand; so what holds of every run of the fleet holds of the code.
\<close>

theorem worker_tick_refines_fleet:
  assumes "tables_ok s" and "idle (dw_worker_id D) js L A"
  shows "\<exists>es. list_all (of_worker (dw_worker_id D)) es
    \<and> exec_all es (fleet_of s js L A) = Some (fleet_of (snd (runWorker D s)) js L A)"
  using keepsD [OF ran_tick [OF assms(2)] ran_start [OF assms(1)]] by (simp add: ran_def)

text \<open>
   A tick keeps the tables of notifications and deliveries well formed: unique ids, one
  notification per user and key, one delivery per notification, channel and device, and every
  delivery belongs to a notification.
\<close>

theorem worker_keeps_tables:
  assumes "tables_ok s"
  shows "tables_ok (snd (runWorker D s))"
  using keepsD [OF ran_tick [of D "[]" "[]" "[]"] ran_start [OF assms]] by (simp add: ran_def idle_def)

section \<open>A concrete worker\<close>

definition demo_delivery_world :: delivery_world where
  "demo_delivery_world = \<lparr>dw_notif = demo_notif_world, dw_worker_id = ''w1'', dw_http = (\<lambda>_ _ _. Inl ''timeout''),
     dw_smtp = (\<lambda>_ _. Inr ''m1''), dw_webpush = (\<lambda>_ _ _ _. Inr None), dw_took = (\<lambda>_. 30000), dw_parse = (\<lambda>_. None),
     dw_url = (\<lambda>a b. Some (b @ a)), dw_email_of = (\<lambda>_. Inr None), dw_web_url = None, dw_email_from = None, dw_vapid_keys = None\<rparr>"

definition demo_pending_db :: notif_db where
  "demo_pending_db = demo_notif\<lparr>notifications := [demo_row], deliveries := [(demo_pending ''a''), demo_pending ''b''\<lparr>dl_device_id := None\<rparr>]\<rparr>"

lemma demo_pending_ok: "tables_ok demo_pending_db"
  by (simp add: demo_pending_db_def tables_ok_def notifications_ok_def demo_pending_def delivery_row_def delivery_key_def
      demo_row_def notification_row_def)

theorem worker_tick_refines_fleet_witness:
  "\<exists>es. list_all (of_worker (dw_worker_id demo_delivery_world)) es
    \<and> exec_all es (fleet_of demo_pending_db [] [] []) = Some (fleet_of (snd (runWorker demo_delivery_world demo_pending_db)) [] [] [])"
  by (rule worker_tick_refines_fleet [OF demo_pending_ok]) (simp add: idle_def)

theorem worker_keeps_tables_witness: "tables_ok (snd (runWorker demo_delivery_world demo_pending_db))"
  by (rule worker_keeps_tables [OF demo_pending_ok])

end
