(* ===== verification/AccountExport.thy ===== *)
theory AccountExport
  imports Demo Json "HOL-Library.Sublist" "HOL-Library.Multiset" "HOL-Library.Char_ord" "HOL-Library.List_Lexorder"
begin

text \<open>
  \<open>apps/api/src/account/export.service.ts\<close>: the export of everything an account owns as an
  artifact of NDJSON lines in bounded chunks, its completion with size, row count and SHA-256, its
  download and its deletion, on the tables of migration 00034.

  The rows the caller may read under row-level security are the source tables of the state, with
  the key the service orders them by. Texts are the Latin-1 strings of JsText, counted in UTF-8.
  Rows of one query are sorted by its order key only: among rows of an equal key PostgreSQL may take
  any order, a different one for every query, which is the parameter \<open>xw_arrange\<close> (by the number of
  the query). Times are milliseconds.
\<close>

section \<open>State\<close>

datatype ArtifactStatus = AT_PROCESSING | AT_READY | AT_FAILED | AT_EXPIRED

record artifact =
  at_id :: string
  at_user_id :: string
  at_status :: ArtifactStatus
  at_size_bytes :: nat
  at_row_count :: nat
  at_checksum :: "string option"
  at_error :: "string option"
  at_expires_at :: int
  at_created_at :: int
  at_completed_at :: "int option"

record chunk =
  ck_artifact_id :: string
  ck_sequence :: nat
  ck_content :: string
  ck_byte_length :: nat

text \<open>The variables \<open>chunk\<close>, \<open>chunkBytes\<close>, \<open>sequence\<close>, \<open>rowCount\<close>, \<open>sizeBytes\<close> and what \<open>hash\<close> was fed.\<close>

record writer =
  wr_chunk :: string
  wr_chunk_bytes :: nat
  wr_sequence :: nat
  wr_row_count :: nat
  wr_size_bytes :: nat
  wr_hashed :: string

type_synonym keyed_rows = "(string \<times> json) list"

record export_source =
  xs_profiles :: keyed_rows
  xs_members :: "(string \<times> string \<times> json) list"
  xs_workspaces :: keyed_rows
  xs_tables :: "string \<Rightarrow> (string \<times> string \<times> json) list"

record export_db =
  xd_base :: db
  xd_source :: export_source
  artifacts :: "artifact list"
  chunks :: "chunk list"
  xd_writer :: writer
  xd_audit :: "(string \<times> string \<times> string \<times> json) list"
  xd_clock :: int
  xd_queries :: nat

record export_world =
  xw_env :: env
  xw_iso :: "int \<Rightarrow> string"
  xw_arrange :: "nat \<Rightarrow> keyed_rows \<Rightarrow> keyed_rows"
  xw_base64_of_hex :: "string \<Rightarrow> string"

definition EXPORT_PAGE_SIZE :: nat where "EXPORT_PAGE_SIZE = 500"
definition CHUNK_BYTES :: nat where "CHUNK_BYTES = 512 * 1024"
definition MAX_LINE_BYTES :: nat where "MAX_LINE_BYTES = 1024 * 1024"

definition EXPORT_TABLES :: "string list" where
  "EXPORT_TABLES = [''ledger_accounts'', ''categories'', ''journal_entries'', ''journal_postings'', ''budgets'',
     ''budget_lines'', ''savings_goals'', ''debt_details'', ''calendar_events'', ''recurring_rules'', ''tags'',
     ''journal_entry_tags'']"

text \<open>\<open>Buffer.byteLength\<close>.\<close>

definition utf8_length :: "string \<Rightarrow> nat" where
  "utf8_length s = sum_list (map (\<lambda>c. if cu c < 128 then 1 else 2) s)"

section \<open>Statements\<close>

definition ex_stmt :: "(export_db \<Rightarrow> pg_error + 'a \<times> export_db) \<Rightarrow> (export_db, pg_error + 'a) api" where
  "ex_stmt = fault_stmt xd_base xd_base_update"

definition ex_read :: "(export_db \<Rightarrow> 'a) \<Rightarrow> (export_db, pg_error + 'a) api" where
  "ex_read q = ex_stmt (\<lambda>s. Inr (q s, s))"

text \<open>\<open>.order(key).range(offset, offset + PAGE_SIZE - 1)\<close>.\<close>

definition ex_range :: "export_world \<Rightarrow> (export_db \<Rightarrow> keyed_rows) \<Rightarrow> nat \<Rightarrow> (export_db, pg_error + keyed_rows) api" where
  "ex_range W q offset =
     ex_stmt (\<lambda>s. Inr (take EXPORT_PAGE_SIZE (drop offset (xw_arrange W (xd_queries s) (q s))), s\<lparr>xd_queries := Suc (xd_queries s)\<rparr>))"

definition or_error :: "(export_db, pg_error + 'a) api \<Rightarrow> (export_db, 'a) api" where
  "or_error m = api_bind m (\<lambda>r. case r of Inl e \<Rightarrow> api_throw (Js_error (pg_message e)) | Inr x \<Rightarrow> api_return x)"

definition insert_artifact :: "artifact \<Rightarrow> export_db \<Rightarrow> pg_error + unit \<times> export_db" where
  "insert_artifact a s =
     (if list_ex (\<lambda>b. at_id b = at_id a) (artifacts s) then Inl (pg UNIQUE_VIOLATION)
      else Inr ((), s\<lparr>artifacts := artifacts s @ [a]\<rparr>))"

definition update_artifact :: "string \<Rightarrow> string \<Rightarrow> (artifact \<Rightarrow> artifact) \<Rightarrow> export_db \<Rightarrow> pg_error + unit \<times> export_db" where
  "update_artifact i uid patch s =
     Inr ((), s\<lparr>artifacts := map (\<lambda>a. if at_id a = i \<and> at_user_id a = uid then patch a else a) (artifacts s)\<rparr>)"

text \<open>Chunks go with their artifact (\<open>ON DELETE CASCADE\<close>).\<close>

definition delete_artifact :: "string \<Rightarrow> string \<Rightarrow> export_db \<Rightarrow> pg_error + unit \<times> export_db" where
  "delete_artifact i uid s =
     (let gone = (\<lambda>a. at_id a = i \<and> at_user_id a = uid) in
      Inr ((), s\<lparr>artifacts := filter (\<lambda>a. \<not> gone a) (artifacts s),
        chunks := filter (\<lambda>c. \<not> list_ex (\<lambda>a. gone a \<and> at_id a = ck_artifact_id c) (artifacts s)) (chunks s)\<rparr>))"

definition insert_chunk :: "chunk \<Rightarrow> export_db \<Rightarrow> pg_error + unit \<times> export_db" where
  "insert_chunk c s =
     (if 1048576 < ck_byte_length c then Inl (pg CHECK_VIOLATION)
      else if list_ex (\<lambda>d. ck_artifact_id d = ck_artifact_id c \<and> ck_sequence d = ck_sequence c) (chunks s) then Inl (pg UNIQUE_VIOLATION)
      else if \<not> list_ex (\<lambda>a. at_id a = ck_artifact_id c) (artifacts s) then Inl (pg FK_VIOLATION)
      else Inr ((), s\<lparr>chunks := chunks s @ [c]\<rparr>))"

definition delete_chunks :: "string \<Rightarrow> export_db \<Rightarrow> pg_error + unit \<times> export_db" where
  "delete_chunks i s = Inr ((), s\<lparr>chunks := filter (\<lambda>c. ck_artifact_id c \<noteq> i) (chunks s)\<rparr>)"

text \<open>\<open>purge_expired_data_exports\<close>, run every hour.\<close>

definition purge_expired :: "export_db \<Rightarrow> export_db" where
  "purge_expired s =
     (let gone = (\<lambda>a. at_expires_at a \<le> xd_clock s) in
      s\<lparr>artifacts := filter (\<lambda>a. \<not> gone a) (artifacts s),
        chunks := filter (\<lambda>c. \<not> list_ex (\<lambda>a. gone a \<and> at_id a = ck_artifact_id c) (artifacts s)) (chunks s)\<rparr>)"

definition export_audit :: "string \<Rightarrow> string \<Rightarrow> string \<Rightarrow> json \<Rightarrow> (export_db, bool) api" where
  "export_audit uid action i meta =
     api_bind (ex_stmt (\<lambda>s. Inr ((), s\<lparr>xd_audit := xd_audit s @ [(uid, action, i, meta)]\<rparr>))) (\<lambda>r.
     api_return (case r of Inl _ \<Rightarrow> False | Inr _ \<Rightarrow> True))"

definition export_fail :: "string \<Rightarrow> (export_db, 'a) api" where
  "export_fail m = api_throw (Service_unavailable ''EXPORT_FAILED'' (''The export artifact could not be created: '' @ m))"

section \<open>Writing lines\<close>

definition empty_writer :: writer where
  "empty_writer = \<lparr>wr_chunk = [], wr_chunk_bytes = 0, wr_sequence = 0, wr_row_count = 0, wr_size_bytes = 0, wr_hashed = []\<rparr>"

definition set_writer :: "(writer \<Rightarrow> writer) \<Rightarrow> (export_db, unit) api" where
  "set_writer f s = (Inr (), s\<lparr>xd_writer := f (xd_writer s)\<rparr>)"

definition flush_chunk :: "string \<Rightarrow> (export_db, unit) api" where
  "flush_chunk aid =
     api_bind (api_reads xd_writer) (\<lambda>w.
     if wr_chunk_bytes w = 0 then api_return ()
     else
       api_bind (or_error (ex_stmt (insert_chunk \<lparr>ck_artifact_id = aid, ck_sequence = wr_sequence w,
         ck_content = wr_chunk w, ck_byte_length = wr_chunk_bytes w\<rparr>))) (\<lambda>_.
       set_writer (\<lambda>w. w\<lparr>wr_sequence := wr_sequence w + 1, wr_chunk := [], wr_chunk_bytes := 0\<rparr>)))"

definition export_line :: "string \<Rightarrow> json \<Rightarrow> string option \<Rightarrow> string" where
  "export_line type data ws =
     stringify (JObj (defined_fields [(''type'', Some (JStr type)), (''workspace_id'', map_option JStr ws), (''data'', Some data)]))
     @ [CHR 10]"

definition append_line :: "string \<Rightarrow> writer \<Rightarrow> writer" where
  "append_line line w = w\<lparr>wr_chunk := wr_chunk w @ line, wr_chunk_bytes := wr_chunk_bytes w + utf8_length line,
     wr_size_bytes := wr_size_bytes w + utf8_length line, wr_row_count := wr_row_count w + 1, wr_hashed := wr_hashed w @ line\<rparr>"

definition emit_line :: "string \<Rightarrow> string \<Rightarrow> (export_db, unit) api" where
  "emit_line aid line =
     (let bytes = utf8_length line in
      if MAX_LINE_BYTES < bytes then api_throw (Js_error ''One export row exceeded the 1 MiB artifact chunk limit.'')
      else
        api_bind (api_reads xd_writer) (\<lambda>w.
        api_bind (if wr_chunk_bytes w \<noteq> 0 \<and> CHUNK_BYTES < wr_chunk_bytes w + bytes then flush_chunk aid else api_return ()) (\<lambda>_.
        set_writer (append_line line))))"

definition emit :: "string \<Rightarrow> string \<Rightarrow> json \<Rightarrow> string option \<Rightarrow> (export_db, unit) api" where
  "emit aid type data ws = emit_line aid (export_line type data ws)"

section \<open>Reading page by page\<close>

text \<open>A round of \<open>for (let offset = 0; ; offset += PAGE_SIZE)\<close>.\<close>

definition paged_round ::
    "export_world \<Rightarrow> (export_db \<Rightarrow> keyed_rows) \<Rightarrow> (string \<times> json \<Rightarrow> (export_db, unit) api) \<Rightarrow> nat \<Rightarrow> (export_db, unit + nat) api" where
  "paged_round W q f offset =
     api_bind (or_error (ex_range W q offset)) (\<lambda>rows.
     api_bind (api_map f rows) (\<lambda>_.
     api_return (if length rows < EXPORT_PAGE_SIZE then Inl () else Inr (offset + EXPORT_PAGE_SIZE))))"

definition paged :: "export_world \<Rightarrow> (export_db \<Rightarrow> keyed_rows) \<Rightarrow> (string \<times> json \<Rightarrow> (export_db, unit) api) \<Rightarrow> (export_db, unit option) api" where
  "paged W q f s = api_loop (Suc (length (q s))) (paged_round W q f) 0 s"

definition rows_in :: "string \<Rightarrow> string \<Rightarrow> export_db \<Rightarrow> keyed_rows" where
  "rows_in table ws s = [(k, row). (w, k, row) \<leftarrow> xs_tables (xd_source s) table, w = ws]"

definition emitTable :: "export_world \<Rightarrow> string \<Rightarrow> string \<Rightarrow> string \<Rightarrow> (export_db, unit) api" where
  "emitTable W aid ws table =
     api_bind (paged W (rows_in table ws) (\<lambda>x. emit aid table (snd x) (Some ws))) (\<lambda>_. api_return ())"

definition export_workspace :: "export_world \<Rightarrow> string \<Rightarrow> string \<times> json \<Rightarrow> (export_db, unit) api" where
  "export_workspace W aid x =
     (let ws = fst x in
      api_bind (emit aid ''workspace_member'' (snd x) (Some ws)) (\<lambda>_.
      api_bind (or_error (ex_read (\<lambda>s. map_of (xs_workspaces (xd_source s)) ws))) (\<lambda>w.
      case w of
        None \<Rightarrow> api_return ()
      | Some row \<Rightarrow>
          api_bind (emit aid ''workspace'' row (Some ws)) (\<lambda>_.
          api_bind (api_map (emitTable W aid ws) EXPORT_TABLES) (\<lambda>_.
          emitTable W aid ws ''transaction_attachments'')))))"

definition members_of :: "string \<Rightarrow> export_db \<Rightarrow> keyed_rows" where
  "members_of uid s = [(ws, row). (u, ws, row) \<leftarrow> xs_members (xd_source s), u = uid]"

definition manifest :: "string \<Rightarrow> json" where
  "manifest generated_at = JObj [(''format_version'', JInt 2), (''generated_at'', JStr generated_at),
     (''scope'', JStr ''Every row this account owns. Operational system and audit events are excluded.'')]"

definition emit_account :: "export_world \<Rightarrow> string \<Rightarrow> string \<Rightarrow> int \<Rightarrow> (export_db, unit) api" where
  "emit_account W aid uid now =
     api_bind (emit aid ''manifest'' (manifest (xw_iso W now)) None) (\<lambda>_.
     api_bind (or_error (ex_read (\<lambda>s. map_of (xs_profiles (xd_source s)) uid))) (\<lambda>p.
     api_bind (case p of None \<Rightarrow> api_return () | Some row \<Rightarrow> emit aid ''profile'' row None) (\<lambda>_.
     api_bind (paged W (members_of uid) (export_workspace W aid)) (\<lambda>_.
     flush_chunk aid))))"

section \<open>The handlers\<close>

record artifact_view =
  av_id :: string
  av_status :: ArtifactStatus
  av_size_bytes :: nat
  av_row_count :: nat
  av_checksum :: "string option"
  av_expires_at :: int
  av_created_at :: int
  av_completed_at :: "int option"
  av_download_url :: "string option"

definition download_url :: "string \<Rightarrow> string" where
  "download_url i = ''/me/exports/'' @ i @ ''/download''"

definition finish_artifact :: "export_world \<Rightarrow> string \<Rightarrow> string \<Rightarrow> int \<Rightarrow> (export_db, artifact_view) api" where
  "finish_artifact W aid uid createdAt =
     api_bind (api_reads xd_writer) (\<lambda>w.
     api_bind (api_reads xd_clock) (\<lambda>completedAt.
     let checksum = env_sha256 (xw_env W) (wr_hashed w) in
     api_bind (or_error (ex_stmt (update_artifact aid uid (\<lambda>a. a\<lparr>at_status := AT_READY, at_size_bytes := wr_size_bytes w,
       at_row_count := wr_row_count w, at_checksum := Some checksum, at_completed_at := Some completedAt, at_error := None\<rparr>)))) (\<lambda>_.
     api_bind (export_audit uid ''DATA_EXPORT_CREATED'' aid (JObj [(''size_bytes'', JInt (int (wr_size_bytes w))),
       (''row_count'', JInt (int (wr_row_count w))), (''checksum'', JStr checksum)])) (\<lambda>_.
     api_return \<lparr>av_id = aid, av_status = AT_READY, av_size_bytes = wr_size_bytes w, av_row_count = wr_row_count w,
       av_checksum = Some checksum, av_expires_at = createdAt + 86400000, av_created_at = createdAt,
       av_completed_at = Some completedAt, av_download_url = Some (download_url aid)\<rparr>))))"

definition fail_artifact :: "string \<Rightarrow> string \<Rightarrow> string \<Rightarrow> (export_db, 'a) api" where
  "fail_artifact aid uid message =
     api_bind (ex_stmt (delete_chunks aid)) (\<lambda>_.
     api_bind (ex_stmt (update_artifact aid uid (\<lambda>a. a\<lparr>at_status := AT_FAILED, at_error := Some message\<rparr>))) (\<lambda>_.
     export_fail message))"

definition new_artifact_id :: "export_world \<Rightarrow> (export_db, string) api" where
  "new_artifact_id W s = (Inr (env_uuid (xw_env W) (uuids (xd_base s))), xd_base_update (\<lambda>l. l\<lparr>uuids := Suc (uuids l)\<rparr>) s)"

definition createArtifact :: "export_world \<Rightarrow> string \<Rightarrow> (export_db, artifact_view) api" where
  "createArtifact W uid =
     api_bind (new_artifact_id W) (\<lambda>aid.
     api_bind (api_reads xd_clock) (\<lambda>now.
     api_bind (ex_stmt (insert_artifact \<lparr>at_id = aid, at_user_id = uid, at_status = AT_PROCESSING, at_size_bytes = 0,
       at_row_count = 0, at_checksum = None, at_error = None, at_expires_at = now + 86400000, at_created_at = now,
       at_completed_at = None\<rparr>)) (\<lambda>r.
     case r of
       Inl e \<Rightarrow> export_fail (pg_message e)
     | Inr _ \<Rightarrow>
         api_bind (set_writer (\<lambda>_. empty_writer)) (\<lambda>_.
         api_catch (api_bind (emit_account W aid uid now) (\<lambda>_. finish_artifact W aid uid now))
           (\<lambda>cause. fail_artifact aid uid (js_slice 0 500 (exn_message cause)))))))"

definition ownedArtifact :: "string \<Rightarrow> string \<Rightarrow> (export_db, artifact) api" where
  "ownedArtifact uid i =
     api_bind (ex_stmt (\<lambda>s. case maybe_single [a \<leftarrow> artifacts s. at_id a = i \<and> at_user_id a = uid] of
         Inl e \<Rightarrow> Inl e | Inr a \<Rightarrow> Inr (a, s))) (\<lambda>r.
     case r of
       Inl e \<Rightarrow> export_fail (pg_message e)
     | Inr None \<Rightarrow> api_throw (Not_found ''EXPORT_NOT_FOUND'' ''Export artifact not found.'')
     | Inr (Some a) \<Rightarrow>
         api_bind (api_reads xd_clock) (\<lambda>now.
         if at_expires_at a \<le> now
         then api_bind (ex_stmt (delete_artifact i uid)) (\<lambda>_.
              api_throw (Gone ''EXPORT_EXPIRED'' ''The export artifact expired and was deleted.''))
         else api_return a))"

definition artifact_response :: "artifact \<Rightarrow> artifact_view" where
  "artifact_response a = \<lparr>av_id = at_id a, av_status = at_status a, av_size_bytes = at_size_bytes a, av_row_count = at_row_count a,
     av_checksum = at_checksum a, av_expires_at = at_expires_at a, av_created_at = at_created_at a, av_completed_at = at_completed_at a,
     av_download_url = (if at_status a = AT_READY then Some (download_url (at_id a)) else None)\<rparr>"

definition getArtifact :: "string \<Rightarrow> string \<Rightarrow> (export_db, artifact_view) api" where
  "getArtifact uid i = api_bind (ownedArtifact uid i) (\<lambda>a. api_return (artifact_response a))"

text \<open>The download: headers, then the chunks by 32. \<open>Inl\<close>: the stream broke off after \<open>body\<close>.\<close>

record download =
  dn_headers :: "(string \<times> string) list"
  dn_body :: string

definition download_headers :: "export_world \<Rightarrow> artifact \<Rightarrow> (string \<times> string) list" where
  "download_headers W a =
     (let checksum = (case at_checksum a of None \<Rightarrow> ''null'' | Some c \<Rightarrow> c) in
      [(''Content-Type'', ''application/x-ndjson; charset=utf-8''),
       (''Content-Disposition'', ''attachment; filename='' @ [CHR 34] @ ''noorixfin-export-'' @ js_slice 0 10 (xw_iso W (at_created_at a))
          @ ''.ndjson'' @ [CHR 34]),
       (''Content-Length'', show_nat (at_size_bytes a)),
       (''Content-Digest'', ''sha-256=:'' @ xw_base64_of_hex W checksum @ '':''),
       (''X-Checksum-SHA256'', checksum),
       (''Cache-Control'', ''no-store, no-cache, must-revalidate, private'')])"

definition chunks_of :: "string \<Rightarrow> export_db \<Rightarrow> chunk list" where
  "chunks_of i s = [c \<leftarrow> chunks s. ck_artifact_id c = i]"

definition stream_round :: "string \<Rightarrow> nat \<times> string \<Rightarrow> (export_db, (bool \<times> string) + nat \<times> string) api" where
  "stream_round i v =
     api_bind (ex_read (\<lambda>s. take 32 (drop (fst v) (sort_key ck_sequence (chunks_of i s))))) (\<lambda>r.
     case r of
       Inl e \<Rightarrow> api_return (Inl (False, snd v))
     | Inr page \<Rightarrow>
         let body = snd v @ concat (map ck_content page) in
         api_return (if length page < 32 then Inl (True, body) else Inr (fst v + 32, body)))"

definition streamArtifact :: "export_world \<Rightarrow> string \<Rightarrow> string \<Rightarrow> (export_db, download + download) api" where
  "streamArtifact W uid i =
     api_bind (ownedArtifact uid i) (\<lambda>a.
     if at_status a \<noteq> AT_READY
     then api_throw (Service_unavailable ''EXPORT_NOT_READY'' ''The export artifact is not ready.'')
     else
       api_bind (\<lambda>s. api_loop (Suc (length (chunks s))) (stream_round i) (0, []) s) (\<lambda>r.
       api_return (case r of
          None \<Rightarrow> Inl \<lparr>dn_headers = download_headers W a, dn_body = []\<rparr>
        | Some (True, body) \<Rightarrow> Inr \<lparr>dn_headers = download_headers W a, dn_body = body\<rparr>
        | Some (False, body) \<Rightarrow> Inl \<lparr>dn_headers = download_headers W a, dn_body = body\<rparr>)))"

definition deleteArtifact :: "string \<Rightarrow> string \<Rightarrow> (export_db, bool) api" where
  "deleteArtifact uid i =
     api_bind (ownedArtifact uid i) (\<lambda>_.
     api_bind (ex_stmt (delete_artifact i uid)) (\<lambda>r.
     case r of
       Inl e \<Rightarrow> export_fail (pg_message e)
     | Inr _ \<Rightarrow> api_bind (export_audit uid ''DATA_EXPORT_DELETED'' i (JObj [])) (\<lambda>_. api_return True)))"

section \<open>Lines\<close>

definition line_count :: "string \<Rightarrow> nat" where
  "line_count t = length (filter (\<lambda>c. c = CHR 10) t)"

lemma line_count_append [simp]: "line_count (s @ t) = line_count s + line_count t"
  by (simp add: line_count_def)

lemma utf8_length_append [simp]: "utf8_length (s @ t) = utf8_length s + utf8_length t"
  by (simp add: utf8_length_def)

lemma utf8_length_Nil [simp]: "utf8_length [] = 0" "line_count [] = 0"
  by (simp_all add: utf8_length_def line_count_def)

lemma utf8_length_0 [simp]: "utf8_length s = 0 \<longleftrightarrow> s = []"
  by (cases s) (auto simp: utf8_length_def)

lemma no_newline_hex: "n < 16 \<Longrightarrow> hex_char n \<noteq> CHR 10"
proof -
  assume n: "n < 16"
  then have "cu (hex_char n) \<noteq> 10" by (auto simp: hex_char_def digit_char_def)
  then show ?thesis by auto
qed

lemma cu_newline: "cu c = 10 \<longleftrightarrow> c = CHR 10"
proof
  assume "cu c = 10"
  then have "cu c = cu (CHR 10)" by simp
  then show "c = CHR 10" by (metis char_of_char)
qed simp

lemma newline_char_of [simp]: "CHR 10 = char_of (n::nat) \<longleftrightarrow> n mod 256 = 10"
  using cu_newline [of "char_of n"] by auto

lemma json_char_no_newline: "CHR 10 \<notin> set (json_char c)"
proof -
  have "cu c < 32 \<Longrightarrow> cu c div 16 < 16" by linarith
  then show ?thesis
    using no_newline_hex [of "cu c div 16"] no_newline_hex [of "cu c mod 16"] cu_newline [of c]
    by (auto simp: json_char_def)
qed

lemma json_string_no_newline: "CHR 10 \<notin> set (json_string s)"
  using json_char_no_newline by (auto simp: json_string_def)

lemma show_nat_no_newline: "CHR 10 \<notin> set (show_nat n)"
  using show_nat_digits [of "CHR 10" n] by (auto simp: is_digit_def)

lemma js_join_no_newline: "CHR 10 \<notin> set sep \<Longrightarrow> \<forall>x \<in> set xs. CHR 10 \<notin> set x \<Longrightarrow> CHR 10 \<notin> set (js_join sep xs)"
  by (induction sep xs rule: js_join.induct) auto

lemma stringify_no_newline: "CHR 10 \<notin> set (stringify j)"
proof (induction j rule: stringify.induct)
  case (3 i)
  show ?case using show_nat_no_newline by (auto simp: show_int_def)
next
  case (5 xs)
  then show ?case using js_join_no_newline [of "'',''" "map stringify xs"] by auto
next
  case (6 fs)
  have "\<forall>x \<in> set (map (\<lambda>(k, v). json_string k @ '':'' @ stringify v) fs). CHR 10 \<notin> set x"
    using 6 json_string_no_newline by fastforce
  then show ?case using js_join_no_newline [of "'',''" "map (\<lambda>(k, v). json_string k @ '':'' @ stringify v) fs"] by auto
qed (auto simp: json_string_no_newline)

lemma export_line_count: "line_count (export_line type data ws) = 1"
proof -
  have none: "filter (\<lambda>c. c = CHR 10) (stringify j) = []" for j
    using stringify_no_newline [of j] by (auto simp: filter_empty_conv)
  show ?thesis by (simp add: export_line_def line_count_def none del: stringify.simps)
qed

section \<open>Artifacts are what they say\<close>

definition text_of :: "string \<Rightarrow> export_db \<Rightarrow> string" where
  "text_of i s = concat (map ck_content (chunks_of i s))"

definition well_chunked :: "chunk list \<Rightarrow> bool" where
  "well_chunked cs \<longleftrightarrow> map ck_sequence cs = [0..<length cs]
     \<and> list_all (\<lambda>c. ck_byte_length c = utf8_length (ck_content c) \<and> ck_byte_length c \<le> 1048576) cs"

definition artifact_whole :: "export_world \<Rightarrow> artifact \<Rightarrow> string \<Rightarrow> bool" where
  "artifact_whole W a t \<longleftrightarrow> at_status a = AT_READY \<longrightarrow> at_size_bytes a = utf8_length t \<and> at_row_count a = line_count t
     \<and> at_checksum a = Some (env_sha256 (xw_env W) t)"

definition exports_ok :: "export_world \<Rightarrow> export_db \<Rightarrow> bool" where
  "exports_ok W s \<longleftrightarrow> distinct (map at_id (artifacts s))
     \<and> list_all (\<lambda>c. ck_artifact_id c \<in> at_id ` set (artifacts s)) (chunks s)
     \<and> list_all (\<lambda>a. well_chunked (chunks_of (at_id a) s) \<and> artifact_whole W a (text_of (at_id a) s)) (artifacts s)"

definition writer_ok :: "string \<Rightarrow> export_db \<Rightarrow> bool" where
  "writer_ok aid s \<longleftrightarrow> (let w = xd_writer s in
     wr_sequence w = length (chunks_of aid s) \<and> wr_hashed w = text_of aid s @ wr_chunk w
     \<and> wr_chunk_bytes w = utf8_length (wr_chunk w) \<and> wr_size_bytes w = utf8_length (wr_hashed w)
     \<and> wr_row_count w = line_count (wr_hashed w) \<and> wr_chunk_bytes w \<le> MAX_LINE_BYTES)"

definition running :: "export_world \<Rightarrow> string \<Rightarrow> export_db \<Rightarrow> bool" where
  "running W aid s \<longleftrightarrow> exports_ok W s \<and> list_ex (\<lambda>a. at_id a = aid) (artifacts s)
     \<and> list_all (\<lambda>a. at_id a = aid \<longrightarrow> at_status a = AT_PROCESSING) (artifacts s) \<and> writer_ok aid s"

text \<open>Predicates that look at neither the base tables, the query counter nor the audit log.\<close>

definition export_tables :: "(export_db \<Rightarrow> bool) \<Rightarrow> bool" where
  "export_tables P \<longleftrightarrow> (\<forall>s f n x. P (xd_base_update f s) = P s \<and> P (s\<lparr>xd_queries := n\<rparr>) = P s \<and> P (s\<lparr>xd_audit := x\<rparr>) = P s)"

lemma export_tables_running [simp]: "export_tables (running W aid)" "export_tables (exports_ok W)"
  by (simp_all add: export_tables_def running_def exports_ok_def writer_ok_def chunks_of_def text_of_def)

lemma keeps_ex_stmt:
  assumes "export_tables P" and "\<And>s x t. P s \<Longrightarrow> f s = Inr (x, t) \<Longrightarrow> P t"
  shows "keeps P (ex_stmt f)"
  unfolding ex_stmt_def by (rule keeps_fault_stmt) (use assms in \<open>auto simp: export_tables_def\<close>)

lemma keeps_ex_reads [keeps_intros]:
  assumes "export_tables P"
  shows "keeps P (ex_read q)" "keeps P (ex_range W g n)" "keeps P (export_audit uid action i meta)" "keeps P (new_artifact_id W)"
proof -
  show "keeps P (ex_read q)" unfolding ex_read_def by (rule keeps_ex_stmt [OF assms]) simp
  show "keeps P (ex_range W g n)" unfolding ex_range_def
    by (rule keeps_ex_stmt [OF assms]) (use assms in \<open>auto simp: export_tables_def\<close>)
  show "keeps P (export_audit uid action i meta)" unfolding export_audit_def
    by (intro keeps_bind keeps_ex_stmt [OF assms] keeps_return) (use assms in \<open>auto simp: export_tables_def\<close>)
  show "keeps P (new_artifact_id W)" by (rule keepsI) (use assms in \<open>simp add: export_tables_def new_artifact_id_def\<close>)
qed

lemma keeps_or_error [keeps_intros]: "keeps P m \<Longrightarrow> keeps P (or_error m)"
  unfolding or_error_def by (intro keeps_intros)

lemma chunks_of_append: "chunks_of i (s\<lparr>chunks := chunks s @ [c]\<rparr>) = chunks_of i s @ (if ck_artifact_id c = i then [c] else [])"
  by (simp add: chunks_of_def)

lemma exports_insert_chunk:
  assumes ok: "exports_ok W s" and run: "insert_chunk c s = Inr (x, t)"
    and last: "ck_sequence c = length (chunks_of (ck_artifact_id c) s)" and bytes: "ck_byte_length c = utf8_length (ck_content c)"
    and open_artifact: "list_all (\<lambda>a. at_id a = ck_artifact_id c \<longrightarrow> at_status a = AT_PROCESSING) (artifacts s)"
  shows "exports_ok W t"
proof -
  have t: "t = s\<lparr>chunks := chunks s @ [c]\<rparr>" and small: "ck_byte_length c \<le> 1048576"
    and "list_ex (\<lambda>a. at_id a = ck_artifact_id c) (artifacts s)"
    using run by (auto simp: insert_chunk_def split: if_splits)
  then have found: "ck_artifact_id c \<in> at_id ` set (artifacts s)" by (force simp: list_ex_iff)
  have "well_chunked (chunks_of (at_id a) t) \<and> artifact_whole W a (text_of (at_id a) t)" if a: "a \<in> set (artifacts s)" for a
  proof (cases "at_id a = ck_artifact_id c")
    case True
    then have "at_status a = AT_PROCESSING" using open_artifact a by (auto simp: list_all_iff)
    moreover have "well_chunked (chunks_of (at_id a) s)" using ok a by (simp add: exports_ok_def list_all_iff)
    ultimately show ?thesis using True last bytes small
      by (simp add: t chunks_of_append well_chunked_def artifact_whole_def)
  next
    case False
    then show ?thesis using ok a by (simp add: t chunks_of_append exports_ok_def list_all_iff text_of_def)
  qed
  then show ?thesis using ok found by (simp add: exports_ok_def list_all_iff t)
qed

lemma running_flush: "keeps (running W aid) (flush_chunk aid)"
proof (rule keepsI)
  fix s
  assume run: "running W aid s"
  let ?w = "xd_writer s"
  let ?c = "\<lparr>ck_artifact_id = aid, ck_sequence = wr_sequence ?w, ck_content = wr_chunk ?w, ck_byte_length = wr_chunk_bytes ?w\<rparr>"
  have w: "wr_sequence ?w = length (chunks_of aid s)" "wr_hashed ?w = text_of aid s @ wr_chunk ?w"
    "wr_chunk_bytes ?w = utf8_length (wr_chunk ?w)" "wr_size_bytes ?w = utf8_length (wr_hashed ?w)"
    "wr_row_count ?w = line_count (wr_hashed ?w)"
    using run by (auto simp: running_def writer_ok_def Let_def)
  let ?s = "xd_base_update drop_fault s"
  have s': "running W aid ?s" using run export_tables_running(1) [of W aid] by (simp add: export_tables_def)
  have "running W aid (t\<lparr>xd_writer := (xd_writer t)\<lparr>wr_sequence := wr_sequence (xd_writer t) + 1, wr_chunk := [], wr_chunk_bytes := 0\<rparr>\<rparr>)"
    if ins: "insert_chunk ?c ?s = Inr (x, t)" for x t
  proof -
    have t: "t = ?s\<lparr>chunks := chunks s @ [?c]\<rparr>" using ins by (auto simp: insert_chunk_def split: if_splits)
    have "exports_ok W t"
      by (rule exports_insert_chunk [OF _ ins]) (use s' w in \<open>simp_all add: running_def chunks_of_def\<close>)
    moreover have "chunks_of aid t = chunks_of aid s @ [?c]" by (simp add: t chunks_of_def)
    moreover have "text_of aid t = text_of aid s @ wr_chunk ?w" using calculation(2) by (simp add: text_of_def)
    ultimately show ?thesis
      using run w by (simp add: running_def writer_ok_def Let_def t exports_ok_def chunks_of_def text_of_def)
  qed
  then show "running W aid (snd (flush_chunk aid s))"
    using run s' by (auto simp: flush_chunk_def api_bind_def api_reads_def or_error_def ex_stmt_def fault_stmt_def Let_def set_writer_def
        api_return_def api_throw_def split: sum.splits prod.splits)
qed

lemma running_append:
  assumes "running W aid s" "line_count line = 1" "wr_chunk_bytes (xd_writer s) + utf8_length line \<le> MAX_LINE_BYTES"
  shows "running W aid (s\<lparr>xd_writer := append_line line (xd_writer s)\<rparr>)"
  using assms by (simp add: running_def writer_ok_def Let_def append_line_def exports_ok_def chunks_of_def text_of_def)

section \<open>An export in progress\<close>

lemma flush_done: "flush_chunk aid s = (Inr x, t) \<Longrightarrow> wr_chunk_bytes (xd_writer t) = 0 \<and> (wr_chunk_bytes (xd_writer s) \<noteq> 0 \<longrightarrow> wr_chunk (xd_writer t) = [])"
  by (auto simp: flush_chunk_def api_bind_def api_reads_def or_error_def ex_stmt_def fault_stmt_def Let_def set_writer_def
      api_return_def api_throw_def split: sum.splits prod.splits if_splits)

lemma triple_flush: "triple (running W aid) (flush_chunk aid) (\<lambda>_ s. running W aid s \<and> wr_chunk (xd_writer s) = []) (running W aid)"
proof (rule tripleI)
  fix s
  assume run: "running W aid s"
  obtain r t where f: "flush_chunk aid s = (r, t)" by (cases "flush_chunk aid s")
  then have "running W aid t" using keeps_run [OF running_flush run] by simp
  moreover have "wr_chunk (xd_writer t) = []" if r: "r = Inr x" for x
    using flush_done [of aid s x t] f r \<open>running W aid t\<close> by (simp add: running_def writer_ok_def Let_def)
  ultimately show "case flush_chunk aid s of (Inl e, t) \<Rightarrow> running W aid t
      | (Inr x, t) \<Rightarrow> running W aid t \<and> wr_chunk (xd_writer t) = []"
    by (simp add: f split: sum.split)
qed

lemma running_bytes: "running W aid s \<Longrightarrow> wr_chunk (xd_writer s) = [] \<Longrightarrow> wr_chunk_bytes (xd_writer s) = 0"
  by (simp add: running_def writer_ok_def Let_def)

lemma triple_emit_line:
  assumes "line_count line = 1"
  shows "triple (running W aid) (emit_line aid line) (\<lambda>_. running W aid) (running W aid)"
proof -
  let ?fits = "\<lambda>_ s. running W aid s \<and> wr_chunk_bytes (xd_writer s) + utf8_length line \<le> MAX_LINE_BYTES"
  have append: "triple (?fits x) (set_writer (append_line line)) (\<lambda>_. running W aid) (running W aid)" for x :: unit
    by (rule tripleI) (simp add: set_writer_def running_append assms)
  have room: "triple (\<lambda>s. running W aid s \<and> xd_writer s = w)
      (if wr_chunk_bytes w \<noteq> 0 \<and> CHUNK_BYTES < wr_chunk_bytes w + utf8_length line then flush_chunk aid else api_return ())
      ?fits (running W aid)" if small: "utf8_length line \<le> MAX_LINE_BYTES" for w
  proof (rule triple_if)
    show "triple (\<lambda>s. running W aid s \<and> xd_writer s = w) (flush_chunk aid) ?fits (running W aid)"
      by (rule triple_weaken [OF triple_flush]) (auto simp: running_bytes small)
    assume "\<not> (wr_chunk_bytes w \<noteq> 0 \<and> CHUNK_BYTES < wr_chunk_bytes w + utf8_length line)"
    then show "triple (\<lambda>s. running W aid s \<and> xd_writer s = w) (api_return ()) ?fits (running W aid)"
      using small by (intro triple_return) (auto simp: CHUNK_BYTES_def MAX_LINE_BYTES_def)
  qed
  have "triple (running W aid) (api_reads xd_writer) (\<lambda>w s. running W aid s \<and> xd_writer s = w) (running W aid)"
    by (rule tripleI) (simp add: api_reads_def)
  then show ?thesis unfolding emit_line_def Let_def
    by (intro triple_if triple_throw triple_bind [OF _ triple_bind [OF room append]]) auto
qed

lemma running_emit [keeps_intros]: "keeps (running W aid) (emit aid type data ws)"
  unfolding emit_def by (rule keeps_triple [OF triple_emit_line]) (rule export_line_count)

lemma keeps_paged:
  assumes "export_tables P" "\<And>x. keeps P (f x)"
  shows "keeps P (paged W q f)"
proof (rule keepsI)
  fix s
  assume P: "P s"
  have "keeps P (paged_round W q f offset)" for offset
    unfolding paged_round_def by (intro keeps_intros assms)
  then have "keeps P (api_loop n (paged_round W q f) 0)" for n
    by (intro keeps_loop)
  then show "P (snd (paged W q f s))"
    unfolding paged_def using P by (metis keepsD)
qed

lemma running_account [keeps_intros]:
  "keeps (running W aid) (emitTable W aid ws table)"
  "keeps (running W aid) (export_workspace W aid x)"
  "keeps (running W aid) (emit_account W aid uid now)"
proof -
  show "keeps (running W aid) (emitTable W aid ws table)" for ws table
    unfolding emitTable_def by (intro keeps_intros keeps_paged) simp
  then show "keeps (running W aid) (export_workspace W aid x)" for x
    unfolding export_workspace_def Let_def by (intro keeps_intros) simp_all
  then show "keeps (running W aid) (emit_account W aid uid now)"
    unfolding emit_account_def by (intro keeps_intros keeps_paged running_flush) simp_all
qed

lemma triple_emit_account:
  "triple (running W aid) (emit_account W aid uid now) (\<lambda>_ s. running W aid s \<and> wr_chunk (xd_writer s) = []) (running W aid)"
  unfolding emit_account_def
  by (intro triple_bind [OF triple_keeps] triple_flush keeps_intros keeps_paged) simp_all

section \<open>The invariant\<close>

definition opened :: "export_world \<Rightarrow> string \<Rightarrow> export_db \<Rightarrow> bool" where
  "opened W aid s \<longleftrightarrow> exports_ok W s \<and> list_ex (\<lambda>a. at_id a = aid) (artifacts s)
     \<and> list_all (\<lambda>a. at_id a = aid \<longrightarrow> at_status a = AT_PROCESSING) (artifacts s) \<and> chunks_of aid s = []"

lemma no_chunks_of_new:
  "exports_ok W s \<Longrightarrow> \<not> list_ex (\<lambda>b. at_id b = i) (artifacts s) \<Longrightarrow> chunks_of i s = []"
  by (force simp: exports_ok_def chunks_of_def filter_empty_conv list_all_iff list_ex_iff)

lemma opened_insert:
  assumes ok: "exports_ok W s" and run: "insert_artifact a s = Inr (x, t)" and "at_status a = AT_PROCESSING"
  shows "opened W (at_id a) t"
proof -
  have t: "t = s\<lparr>artifacts := artifacts s @ [a]\<rparr>" and new: "\<not> list_ex (\<lambda>b. at_id b = at_id a) (artifacts s)"
    using run by (auto simp: insert_artifact_def split: if_splits)
  have none: "chunks_of (at_id a) s = []" by (rule no_chunks_of_new [OF ok new])
  have same: "chunks_of i t = chunks_of i s" "text_of i t = text_of i s" for i by (simp_all add: t chunks_of_def text_of_def)
  have "exports_ok W t"
    using ok new none assms(3)
    by (auto simp: exports_ok_def t same [unfolded t] list_all_iff list_ex_iff) (simp_all add: well_chunked_def artifact_whole_def text_of_def)
  then show ?thesis using new none assms(3) by (auto simp: opened_def t chunks_of_def list_all_iff list_ex_iff)
qed

lemma running_start: "opened W aid s \<Longrightarrow> running W aid (s\<lparr>xd_writer := empty_writer\<rparr>)"
  by (simp add: opened_def running_def writer_ok_def Let_def empty_writer_def exports_ok_def chunks_of_def text_of_def)

lemma artifacts_update:
  assumes "update_artifact i uid patch s = Inr (x, t)"
  shows "artifacts t = map (\<lambda>a. if at_id a = i \<and> at_user_id a = uid then patch a else a) (artifacts s)"
    and "chunks t = chunks s" and "xd_writer t = xd_writer s"
  using assms by (auto simp: update_artifact_def)

lemma exports_update:
  assumes ok: "exports_ok W s" and run: "update_artifact i uid patch s = Inr (x, t)"
    and patch: "\<And>a. at_id (patch a) = at_id a" "\<And>a. a \<in> set (artifacts s) \<Longrightarrow> at_id a = i \<Longrightarrow> artifact_whole W (patch a) (text_of i s)"
  shows "exports_ok W t"
proof -
  note new = artifacts_update [OF run]
  have same: "chunks_of j t = chunks_of j s" "text_of j t = text_of j s" for j by (simp_all add: new chunks_of_def text_of_def)
  have ids: "map at_id (artifacts t) = map at_id (artifacts s)" using patch(1) by (simp add: new(1))
  then have "at_id ` set (artifacts t) = at_id ` set (artifacts s)" by (metis set_map)
  moreover have "well_chunked (chunks_of (at_id b) t) \<and> artifact_whole W b (text_of (at_id b) t)" if b: "b \<in> set (artifacts t)" for b
  proof -
    obtain a where a: "a \<in> set (artifacts s)" "b = (if at_id a = i \<and> at_user_id a = uid then patch a else a)"
      using b by (auto simp: new(1))
    have id: "at_id b = at_id a" using a(2) patch(1) by simp
    have "well_chunked (chunks_of (at_id a) s)" "artifact_whole W a (text_of (at_id a) s)"
      using ok a(1) by (auto simp: exports_ok_def list_all_iff)
    then show ?thesis using a patch(2) [OF a(1)] patch(1) by (auto simp: id same)
  qed
  ultimately show ?thesis using ok by (simp add: exports_ok_def list_all_iff ids new(2) del: set_map)
qed

lemma exports_remove:
  assumes ok: "exports_ok W s"
  shows "exports_ok W (s\<lparr>artifacts := filter (\<lambda>a. \<not> gone a) (artifacts s),
     chunks := filter (\<lambda>c. \<not> list_ex (\<lambda>a. gone a \<and> at_id a = ck_artifact_id c) (artifacts s)) (chunks s)\<rparr>)" (is "exports_ok W ?t")
proof -
  have dist: "distinct (map at_id (artifacts s))" using ok by (simp add: exports_ok_def)
  have same: "chunks_of (at_id a) ?t = chunks_of (at_id a) s" if "a \<in> set (artifacts s)" "\<not> gone a" for a
  proof -
    have "\<not> (gone b \<and> at_id b = at_id a)" if "b \<in> set (artifacts s)" for b
      using dist that \<open>a \<in> set (artifacts s)\<close> \<open>\<not> gone a\<close> by (metis distinct_map inj_onD)
    then show ?thesis by (auto simp: chunks_of_def list_ex_iff intro!: filter_cong)
  qed
  have kept: "ck_artifact_id c \<in> at_id ` {a \<in> set (artifacts s). \<not> gone a}"
    if "c \<in> set (chunks s)" "\<not> list_ex (\<lambda>a. gone a \<and> at_id a = ck_artifact_id c) (artifacts s)" for c
    using ok that by (force simp: exports_ok_def list_all_iff list_ex_iff)
  show ?thesis
    using ok dist kept same
    by (auto simp: exports_ok_def list_all_iff text_of_def distinct_map_filter)
qed

lemma exports_delete: "exports_ok W s \<Longrightarrow> delete_artifact i uid s = Inr (x, t) \<Longrightarrow> exports_ok W t"
  using exports_remove [of W s "\<lambda>a. at_id a = i \<and> at_user_id a = uid"] by (simp add: delete_artifact_def Let_def)

lemma exports_purge: "exports_ok W s \<Longrightarrow> exports_ok W (purge_expired s)"
  using exports_remove [of W s "\<lambda>a. at_expires_at a \<le> xd_clock s"] by (simp add: purge_expired_def Let_def)

lemma triple_or_error:
  assumes "export_tables P" and "\<And>s x t. P s \<Longrightarrow> f s = Inr (x, t) \<Longrightarrow> Q t"
  shows "triple P (or_error (ex_stmt f)) (\<lambda>_. Q) P"
proof (rule tripleI)
  fix s
  assume "P s"
  then have "P (xd_base_update drop_fault s)" using assms(1) by (simp add: export_tables_def)
  then show "case or_error (ex_stmt f) s of (Inl e, t) \<Rightarrow> P t | (Inr x, t) \<Rightarrow> Q t"
    using assms(2) by (auto simp: or_error_def api_bind_def ex_stmt_def fault_stmt_def Let_def api_throw_def api_return_def split: sum.split)
qed

lemma exports_finish: "triple (\<lambda>s. running W aid s \<and> wr_chunk (xd_writer s) = []) (finish_artifact W aid uid now) (\<lambda>_. exports_ok W) (running W aid)"
proof -
  let ?P = "\<lambda>w s. running W aid s \<and> wr_chunk (xd_writer s) = [] \<and> xd_writer s = w"
  have tables: "export_tables (?P w)" for w
    using export_tables_running(1) [of W aid] by (simp add: export_tables_def)
  let ?ready = "\<lambda>w c a. a\<lparr>at_status := AT_READY, at_size_bytes := wr_size_bytes w, at_row_count := wr_row_count w,
    at_checksum := Some (env_sha256 (xw_env W) (wr_hashed w)), at_completed_at := Some c, at_error := None\<rparr>"
  have updated: "exports_ok W t" if "?P w s" "update_artifact aid uid (?ready w c) s = Inr (x, t)" for w s c x t
    by (rule exports_update [OF _ that(2)]) (use that(1) in \<open>auto simp: running_def artifact_whole_def writer_ok_def Let_def\<close>)
  have update: "triple (?P w) (or_error (ex_stmt (update_artifact aid uid (?ready w c)))) (\<lambda>_. exports_ok W) (running W aid)" for w c
    by (rule triple_weaken [OF triple_or_error [where P = "?P w" and Q = "exports_ok W", OF tables updated]]) (assumption | blast)+
  have audit: "triple (exports_ok W) (api_bind (export_audit uid action i meta) (\<lambda>_. api_return v)) (\<lambda>_. exports_ok W) (running W aid)" for action i meta v
    unfolding export_audit_def ex_stmt_def
    by (intro triple_keeps_total total_intros keeps_bind keeps_return keeps_ex_stmt [unfolded ex_stmt_def])
      (auto simp: export_tables_def exports_ok_def chunks_of_def text_of_def split: sum.split)
  have reads: "triple (\<lambda>s. running W aid s \<and> wr_chunk (xd_writer s) = []) (api_reads xd_writer) ?P (running W aid)"
    "triple (?P w) (api_reads xd_clock) (\<lambda>_. ?P w) (running W aid)" for w
    by (rule tripleI, clarsimp simp: api_reads_def)+
  show ?thesis unfolding finish_artifact_def Let_def
    by (intro triple_bind [OF reads(1)] triple_bind [OF reads(2)] triple_bind [OF update] audit)
qed

lemma exports_fail: "keeps (exports_ok W) m \<Longrightarrow> keeps (exports_ok W) (api_bind m (\<lambda>_. export_fail msg))"
  unfolding export_fail_def by (intro keeps_intros)

lemma triple_fail_artifact: "triple (running W aid) (fail_artifact aid uid msg) (\<lambda>_. exports_ok W) (exports_ok W)"
proof (rule tripleI)
  fix s
  assume run: "running W aid s"
  let ?P = "\<lambda>s. exports_ok W s \<and> list_all (\<lambda>a. at_id a = aid \<longrightarrow> at_status a = AT_PROCESSING) (artifacts s)"
  have tables: "export_tables ?P"
    using export_tables_running(2) [of W] by (simp add: export_tables_def)
  have chunks: "keeps ?P (ex_stmt (delete_chunks aid))"
  proof (rule keeps_ex_stmt [OF tables])
    fix s x t
    assume s: "?P s" and "delete_chunks aid s = Inr (x, t)"
    then have t: "t = s\<lparr>chunks := filter (\<lambda>c. ck_artifact_id c \<noteq> aid) (chunks s)\<rparr>" by (simp add: delete_chunks_def)
    have "chunks_of i t = (if i = aid then [] else chunks_of i s)" for i
      by (auto simp: t chunks_of_def filter_empty_conv intro!: filter_cong)
    then show "?P t" using s
      by (auto simp: t exports_ok_def list_all_iff text_of_def) (auto simp: well_chunked_def artifact_whole_def)
  qed
  have status: "keeps (exports_ok W) (ex_stmt (update_artifact aid uid (\<lambda>a. a\<lparr>at_status := AT_FAILED, at_error := Some msg\<rparr>)))"
    by (rule keeps_ex_stmt) (auto simp: artifact_whole_def intro: exports_update)
  have "triple ?P (fail_artifact aid uid msg) (\<lambda>_. exports_ok W) (exports_ok W)"
    unfolding fail_artifact_def
    by (rule triple_bind [where R = "\<lambda>_. ?P"])
      (auto intro!: triple_weaken [OF triple_keeps [OF chunks]] triple_weaken [OF triple_keeps [OF exports_fail [OF status]]])
  moreover have "?P s" using run by (simp add: running_def)
  ultimately show "case fail_artifact aid uid msg s of (Inl e, t) \<Rightarrow> exports_ok W t | (Inr x, t) \<Rightarrow> exports_ok W t"
    by (rule tripleD)
qed

lemma keeps_createArtifact: "keeps (exports_ok W) (createArtifact W uid)"
proof (rule keeps_triple)
  have inserted: "triple (exports_ok W) (ex_stmt (insert_artifact a)) (\<lambda>r s. exports_ok W s \<and> (\<not> isl r \<longrightarrow> opened W (at_id a) s)) (exports_ok W)"
    if "at_status a = AT_PROCESSING" for a
  proof (rule tripleI)
    fix s
    assume "exports_ok W s"
    then have "exports_ok W (xd_base_update drop_fault s)" using export_tables_running(2) [of W] by (simp add: export_tables_def)
    then show "case ex_stmt (insert_artifact a) s of (Inl e, t) \<Rightarrow> exports_ok W t
        | (Inr r, t) \<Rightarrow> exports_ok W t \<and> (\<not> isl r \<longrightarrow> opened W (at_id a) t)"
      using opened_insert [OF _ _ that] by (auto simp: ex_stmt_def fault_stmt_def Let_def opened_def split: sum.split)
  qed
  have start: "triple (opened W aid) (set_writer (\<lambda>_. empty_writer)) (\<lambda>_. running W aid) (exports_ok W)" for aid
    by (rule tripleI) (simp add: set_writer_def running_start)
  have body: "triple (running W aid) (api_catch (api_bind (emit_account W aid uid now) (\<lambda>_. finish_artifact W aid uid now)) (\<lambda>cause. fail_artifact aid uid (f cause)))
      (\<lambda>_. exports_ok W) (exports_ok W)" for aid now f
    by (rule triple_catch [OF triple_bind [OF triple_emit_account exports_finish] triple_fail_artifact])
  have failed: "triple (exports_ok W) (export_fail msg) (\<lambda>_. exports_ok W) (exports_ok W)" for msg
    unfolding export_fail_def by (rule triple_throw)
  have rest: "triple (\<lambda>s. exports_ok W s \<and> (\<not> isl r \<longrightarrow> opened W aid s))
      (case r of Inl e \<Rightarrow> export_fail (pg_message e) | Inr _ \<Rightarrow>
         api_bind (set_writer (\<lambda>_. empty_writer)) (\<lambda>_.
         api_catch (api_bind (emit_account W aid uid now) (\<lambda>_. finish_artifact W aid uid now)) (\<lambda>cause. fail_artifact aid uid (f cause))))
      (\<lambda>_. exports_ok W) (exports_ok W)" for r aid now f
    by (intro triple_case_sum)
      (auto intro: triple_weaken [OF failed] triple_weaken [OF triple_bind [OF start body]])
  have new: "triple (exports_ok W) (new_artifact_id W) (\<lambda>_. exports_ok W) (exports_ok W)"
    and clock: "triple (exports_ok W) (api_reads xd_clock) (\<lambda>_. exports_ok W) (exports_ok W)"
    by (intro triple_keeps keeps_intros; simp)+
  show "triple (exports_ok W) (createArtifact W uid) (\<lambda>_. exports_ok W) (exports_ok W)"
    unfolding createArtifact_def
    by (intro triple_bind [OF new] triple_bind [OF clock], rule triple_bind [OF inserted]) (simp, simp only: artifact.simps, rule rest)
qed

section \<open>Requests\<close>

lemma exports_ownedArtifact: "keeps (exports_ok W) (ownedArtifact uid i)"
  unfolding ownedArtifact_def export_fail_def
  by (intro keeps_intros keeps_ex_stmt) (auto split: sum.splits intro: exports_delete)

lemma keeps_stream_loop: "export_tables P \<Longrightarrow> keeps P (api_loop n (stream_round i) v)"
  by (intro keeps_loop) (auto simp: stream_round_def Let_def intro!: keeps_intros)

lemma exports_streamArtifact: "keeps (exports_ok W) (streamArtifact W uid i)"
proof -
  have loop: "keeps (exports_ok W) (\<lambda>s. api_loop (Suc (length (chunks s))) (stream_round i) (0, []) s)"
    by (rule keepsI) (rule keepsD [OF keeps_stream_loop], simp)
  show ?thesis unfolding streamArtifact_def
    by (intro keeps_bind exports_ownedArtifact keeps_if keeps_throw loop keeps_return)
qed

lemma exports_deleteArtifact: "keeps (exports_ok W) (deleteArtifact uid i)"
  unfolding deleteArtifact_def export_fail_def
  by (intro keeps_intros keeps_ex_stmt exports_ownedArtifact) (auto intro: exports_delete)

lemma exports_getArtifact: "keeps (exports_ok W) (getArtifact uid i)"
  unfolding getArtifact_def by (intro keeps_intros exports_ownedArtifact)

datatype export_request = Post_export | Get_export string | Download_export string | Delete_export string

text \<open>A request, the hourly purge, or time passing.\<close>

datatype export_event = Export_request string export_request | Hourly_purge | Time_passes nat

definition serve_export :: "export_world \<Rightarrow> string \<Rightarrow> export_request \<Rightarrow> export_db \<Rightarrow> export_db" where
  "serve_export W uid r s = (case r of
     Post_export \<Rightarrow> snd (createArtifact W uid s)
   | Get_export i \<Rightarrow> snd (getArtifact uid i s)
   | Download_export i \<Rightarrow> snd (streamArtifact W uid i s)
   | Delete_export i \<Rightarrow> snd (deleteArtifact uid i s))"

definition export_step :: "export_world \<Rightarrow> export_event \<Rightarrow> export_db \<Rightarrow> export_db" where
  "export_step W e s = (case e of
     Export_request uid r \<Rightarrow> serve_export W uid r s
   | Hourly_purge \<Rightarrow> purge_expired s
   | Time_passes d \<Rightarrow> s\<lparr>xd_clock := xd_clock s + int d\<rparr>)"

definition export_history :: "export_world \<Rightarrow> export_event list \<Rightarrow> export_db \<Rightarrow> export_db" where
  "export_history W es s = fold (export_step W) es s"

lemma exports_step: "exports_ok W s \<Longrightarrow> exports_ok W (export_step W e s)"
  by (auto simp: export_step_def serve_export_def exports_purge keepsD [OF keeps_createArtifact] keepsD [OF exports_getArtifact]
      keepsD [OF exports_streamArtifact] keepsD [OF exports_deleteArtifact] split: export_event.split export_request.split)
    (simp add: exports_ok_def chunks_of_def text_of_def)

lemma exports_history: "exports_ok W s \<Longrightarrow> exports_ok W (export_history W es s)"
  unfolding export_history_def by (induction es arbitrary: s) (simp_all add: exports_step)

section \<open>Downloads\<close>

definition stored :: "string \<Rightarrow> export_db \<Rightarrow> string list" where
  "stored i s = map ck_content (sort_key ck_sequence (chunks_of i s))"

lemma stored_text: "well_chunked (chunks_of i s) \<Longrightarrow> concat (stored i s) = text_of i s"
  by (simp add: stored_def text_of_def well_chunked_def sort_key_id_if_sorted)

lemma stream_round_cases:
  assumes "stream_round i (p, body) s = (r, t)"
  obtains (broken) "r = Inr (Inl (False, body))" "faults (xd_base s) \<noteq> []"
  | (last) "r = Inr (Inl (True, body @ concat (drop p (stored i s))))"
  | (again) "r = Inr (Inr (p + 32, body @ concat (take 32 (drop p (stored i s)))))" "p + 32 \<le> length (stored i s)"
      "stored i t = stored i s" "faults (xd_base s) = [] \<Longrightarrow> faults (xd_base t) = []"
proof -
  define page where "page = take 32 (drop p (sort_key ck_sequence (chunks_of i s)))"
  have same: "sort_key ck_sequence (chunks_of i (xd_base_update f s)) = sort_key ck_sequence (chunks_of i s)" for f
    by (simp add: chunks_of_def)
  have content: "map ck_content page = take 32 (drop p (stored i s))" by (simp add: page_def stored_def take_map drop_map)
  have len: "length page = min 32 (length (stored i s) - p)" by (simp add: page_def stored_def)
  have run: "stream_round i (p, body) s =
     (if faults (xd_base s) \<noteq> [] \<and> hd (faults (xd_base s)) \<noteq> None then (Inr (Inl (False, body)), xd_base_update drop_fault s)
      else (Inr (if length page < 32 then Inl (True, body @ concat (map ck_content page))
        else Inr (p + 32, body @ concat (map ck_content page))), xd_base_update drop_fault s))"
    by (simp add: stream_round_def api_bind_def ex_read_def ex_stmt_def fault_stmt_def Let_def api_return_def same page_def)
  show ?thesis
  proof (cases "faults (xd_base s) \<noteq> [] \<and> hd (faults (xd_base s)) \<noteq> None")
    case True
    then show ?thesis using broken assms by (simp add: run)
  next
    case works: False
    show ?thesis
    proof (cases "length page < 32")
      case True
      then have "map ck_content page = drop p (stored i s)" by (simp add: content len)
      then show ?thesis using last assms True works by (auto simp: run)
    next
      case False
      then show ?thesis using again assms works len
        by (auto simp: run content stored_def same drop_fault_def)
    qed
  qed
qed

lemma stream_loop:
  assumes "length (stored i s) < n + p" "p \<le> length (stored i s)"
  shows "case api_loop n (stream_round i) (p, body) s of
      (Inr (Some (whole, text)), t) \<Rightarrow> (if whole then text = body @ concat (drop p (stored i s))
          else prefix text (body @ concat (drop p (stored i s))) \<and> faults (xd_base s) \<noteq> [])
    | _ \<Rightarrow> False"
  using assms
proof (induction n arbitrary: p body s)
  case (Suc n)
  obtain r t where round: "stream_round i (p, body) s = (r, t)" by (cases "stream_round i (p, body) s")
  then show ?case
  proof (cases rule: stream_round_cases)
    case again
    have "take 32 (drop p (stored i s)) @ drop (p + 32) (stored i s) = drop p (stored i s)"
      by (metis append_take_drop_id drop_drop add.commute)
    then have split: "concat (take 32 (drop p (stored i s))) @ concat (drop (p + 32) (stored i s)) = concat (drop p (stored i s))"
      by (metis concat_append)
    have "length (stored i t) < n + (p + 32)" "p + 32 \<le> length (stored i t)" using Suc.prems again(2,3) by simp_all
    note IH = Suc.IH [OF this, of "body @ concat (take 32 (drop p (stored i s)))"]
    have "faults (xd_base t) \<noteq> [] \<Longrightarrow> faults (xd_base s) \<noteq> []" using again(4) by blast
    then show ?thesis using IH
      by (auto simp: api_bind_def round again(1,3) split split: prod.splits sum.splits option.splits if_splits)
  qed (simp_all add: api_bind_def round api_return_def)
qed simp

lemma ownedArtifact_cases:
  assumes "ownedArtifact uid i s = (r, t)"
  obtains (fails) e where "r = Inl e" "faults (xd_base s) \<noteq> []"
  | (absent) "r = Inl (Not_found ''EXPORT_NOT_FOUND'' ''Export artifact not found.'')"
      "\<not> list_ex (\<lambda>a. at_id a = i \<and> at_user_id a = uid) (artifacts s)"
  | (several) e where "r = Inl e" "1 < length [a \<leftarrow> artifacts s. at_id a = i \<and> at_user_id a = uid]"
  | (expired) a where "r = Inl (Gone ''EXPORT_EXPIRED'' ''The export artifact expired and was deleted.'')"
      "[a \<leftarrow> artifacts s. at_id a = i \<and> at_user_id a = uid] = [a]" "at_expires_at a \<le> xd_clock s"
      "faults (xd_base s) = [] \<Longrightarrow> artifacts t = [a \<leftarrow> artifacts s. \<not> (at_id a = i \<and> at_user_id a = uid)]"
  | (found) a where "r = Inr a" "[a \<leftarrow> artifacts s. at_id a = i \<and> at_user_id a = uid] = [a]" "xd_clock s < at_expires_at a"
      "t = xd_base_update drop_fault s"
proof -
  let ?mine = "[a \<leftarrow> artifacts s. at_id a = i \<and> at_user_id a = uid]"
  consider (none) "?mine = []" | (one) a where "?mine = [a]" | (two) a b as where "?mine = a # b # as"
    by (metis list.exhaust)
  then show ?thesis
  proof cases
    case none
    then show ?thesis using assms fails absent
      by (auto simp: ownedArtifact_def api_bind_def ex_stmt_def fault_stmt_def Let_def maybe_single_def export_fail_def api_throw_def
          filter_empty_conv list_ex_iff split: if_splits)
  next
    case one
    then show ?thesis using assms fails expired [OF _ one] found [OF _ one]
      by (cases "faults (xd_base s)") (auto simp: ownedArtifact_def api_bind_def ex_stmt_def fault_stmt_def Let_def maybe_single_def export_fail_def api_throw_def
          api_reads_def api_return_def delete_artifact_def drop_fault_def split: if_splits)
  next
    case two
    then show ?thesis using assms fails several
      by (auto simp: ownedArtifact_def api_bind_def ex_stmt_def fault_stmt_def Let_def maybe_single_def export_fail_def api_throw_def
          split: if_splits)
  qed
qed

lemma ids_one: "distinct (map at_id as) \<Longrightarrow> length [a \<leftarrow> as. at_id a = i \<and> P a] \<le> 1"
  by (induction as) (auto simp: filter_empty_conv image_iff)

lemma only_mine: "[a \<leftarrow> xs. P a] = [a] \<Longrightarrow> b \<in> set xs \<Longrightarrow> P b \<Longrightarrow> b = a"
proof -
  assume one: "[a \<leftarrow> xs. P a] = [a]" and b: "b \<in> set xs" "P b"
  have "b \<in> set [a \<leftarrow> xs. P a]" using b by simp
  from this [unfolded one] show "b = a" by simp
qed

definition downloadable :: "string \<Rightarrow> string \<Rightarrow> export_db \<Rightarrow> bool" where
  "downloadable uid i s \<longleftrightarrow>
     list_ex (\<lambda>a. at_id a = i \<and> at_user_id a = uid \<and> at_status a = AT_READY \<and> xd_clock s < at_expires_at a) (artifacts s)"

definition announces :: "export_world \<Rightarrow> (string \<times> string) list \<Rightarrow> string \<Rightarrow> bool" where
  "announces W headers t \<longleftrightarrow> map_of headers ''Content-Length'' = Some (show_nat (utf8_length t))
     \<and> map_of headers ''X-Checksum-SHA256'' = Some (env_sha256 (xw_env W) t)
     \<and> map_of headers ''Content-Digest'' = Some (''sha-256=:'' @ xw_base64_of_hex W (env_sha256 (xw_env W) t) @ '':'')"

lemma complete_announces: "artifact_whole W a t \<Longrightarrow> at_status a = AT_READY \<Longrightarrow> announces W (download_headers W a) t"
  by (simp add: artifact_whole_def announces_def download_headers_def Let_def)

lemma streamed:
  assumes ok: "exports_ok W s"
  shows "case streamArtifact W uid i s of
      (Inr (Inr d), t) \<Rightarrow> downloadable uid i s \<and> dn_body d = text_of i s \<and> announces W (dn_headers d) (text_of i s)
    | (Inr (Inl d), t) \<Rightarrow> downloadable uid i s \<and> faults (xd_base s) \<noteq> [] \<and> prefix (dn_body d) (text_of i s)
        \<and> announces W (dn_headers d) (text_of i s)
    | (Inl e, t) \<Rightarrow> downloadable uid i s \<longrightarrow> faults (xd_base s) \<noteq> []"
proof -
  obtain r t where o: "ownedArtifact uid i s = (r, t)" by (cases "ownedArtifact uid i s")
  then show ?thesis
  proof (cases rule: ownedArtifact_cases)
    case fails
    then show ?thesis by (simp add: streamArtifact_def api_bind_def o)
  next
    case absent
    then show ?thesis by (auto simp: streamArtifact_def api_bind_def o downloadable_def list_ex_iff)
  next
    case several
    then show ?thesis using ids_one [of "artifacts s" i "\<lambda>a. at_user_id a = uid"] ok by (simp add: exports_ok_def)
  next
    case (expired a)
    have "b = a" if "b \<in> set (artifacts s)" "at_id b = i" "at_user_id b = uid" for b
      using only_mine [OF expired(2)] that by simp
    then show ?thesis using expired(3) by (auto simp: streamArtifact_def api_bind_def o expired(1) downloadable_def list_ex_iff)
  next
    case (found a)
    have "a \<in> set [a \<leftarrow> artifacts s. at_id a = i \<and> at_user_id a = uid]" by (simp add: found(2))
    then have a: "a \<in> set (artifacts s)" "at_id a = i" "at_user_id a = uid" by simp_all
    have only: "b = a" if "b \<in> set (artifacts s)" "at_id b = i" "at_user_id b = uid" for b
      using only_mine [OF found(2)] that by simp
    have well: "well_chunked (chunks_of i s)" "artifact_whole W a (text_of i s)" using ok a by (auto simp: exports_ok_def list_all_iff)
    have st: "stored i t = stored i s" "faults (xd_base t) \<noteq> [] \<Longrightarrow> faults (xd_base s) \<noteq> []"
      by (auto simp: found(4) stored_def chunks_of_def drop_fault_def)
    show ?thesis
    proof (cases "at_status a = AT_READY")
      case False
      then have "\<not> downloadable uid i s" using only by (auto simp: downloadable_def list_ex_iff)
      then show ?thesis by (simp add: streamArtifact_def api_bind_def o found(1) False api_throw_def)
    next
      case True
      have down: "downloadable uid i s" using a found(3) True by (auto simp: downloadable_def list_ex_iff)
      have few: "length (stored i t) < Suc (length (chunks t)) + 0" by (simp add: stored_def chunks_of_def less_Suc_eq_le)
      have whole: "[] @ concat (drop 0 (stored i t)) = text_of i s" by (simp add: st(1) stored_text [OF well(1)])
      note loop = stream_loop [OF few, of "[]", unfolded whole, OF le0]
      show ?thesis using loop down st(2) complete_announces [OF well(2) True]
        by (auto simp: streamArtifact_def api_bind_def o found(1) True api_return_def simp del: api_loop.simps
            split: prod.splits sum.splits option.splits bool.splits if_splits)
    qed
  qed
qed

section \<open>The reference export\<close>

text \<open>Without failures a call writes the lines \<open>ls\<close>, and nothing else the export can see.\<close>

definition exporting :: "export_world \<Rightarrow> string \<Rightarrow> export_source \<Rightarrow> string \<Rightarrow> export_db \<Rightarrow> bool" where
  "exporting W aid src out s \<longleftrightarrow> running W aid s \<and> faults (xd_base s) = [] \<and> xd_source s = src \<and> wr_hashed (xd_writer s) = out"

definition writes :: "export_world \<Rightarrow> string \<Rightarrow> export_source \<Rightarrow> string list \<Rightarrow> (export_db, 'a) api \<Rightarrow> bool" where
  "writes W aid src ls m \<longleftrightarrow> (\<forall>s out. exporting W aid src out s \<longrightarrow>
     (\<exists>x t. m s = (Inr x, t) \<and> exporting W aid src (out @ concat ls) t \<and> xd_clock t = xd_clock s))"

lemma writes_return: "writes W aid src [] (api_return x)"
  by (simp add: writes_def api_return_def)

lemma writesI:
  assumes "\<And>s out. exporting W aid src out s \<Longrightarrow> \<exists>x t. m s = (Inr x, t) \<and> exporting W aid src (out @ concat ls) t \<and> xd_clock t = xd_clock s"
  shows "writes W aid src ls m"
  using assms by (simp add: writes_def)

lemma writesD:
  assumes "writes W aid src ls m" "exporting W aid src out s"
  obtains x t where "m s = (Inr x, t)" "exporting W aid src (out @ concat ls) t" "xd_clock t = xd_clock s"
  using assms unfolding writes_def by blast

lemma writes_bind:
  assumes "writes W aid src ls m" "\<And>x. writes W aid src ks (f x)"
  shows "writes W aid src (ls @ ks) (api_bind m f)"
proof (rule writesI)
  fix s :: export_db and out
  assume "exporting W aid src out s"
  then obtain x u where m: "m s = (Inr x, u)" "exporting W aid src (out @ concat ls) u" "xd_clock u = xd_clock s"
    by (rule writesD [OF assms(1)])
  obtain y t where "f x u = (Inr y, t)" "exporting W aid src ((out @ concat ls) @ concat ks) t" "xd_clock t = xd_clock u"
    by (rule writesD [OF assms(2) m(2)])
  then show "\<exists>x t. api_bind m f s = (Inr x, t) \<and> exporting W aid src (out @ concat (ls @ ks)) t \<and> xd_clock t = xd_clock s"
    using m by (simp add: api_bind_def)
qed

lemma writes_map:
  assumes "\<And>x. x \<in> set xs \<Longrightarrow> writes W aid src (ls x) (f x)"
  shows "writes W aid src (concat (map ls xs)) (api_map f xs)"
  using assms
proof (induction xs)
  case (Cons x xs)
  have "writes W aid src (ls x @ concat (map ls xs) @ []) (api_map f (x # xs))"
    unfolding api_map.simps using Cons by (intro writes_bind writes_return) simp_all
  then show ?case by simp
qed (simp add: writes_return)

lemma no_fault_ex: "faults (xd_base s) = [] \<Longrightarrow> ex_stmt f s = (case f s of Inl e \<Rightarrow> (Inr (Inl e), s) | Inr (x, u) \<Rightarrow> (Inr (Inr x), u))"
  unfolding ex_stmt_def by (rule fault_stmt_no_fault) (simp_all add: drop_no_fault)

text \<open>A read of the source.\<close>

lemma writes_read:
  assumes "\<And>out s. exporting W aid src out s \<Longrightarrow> q s = v" "writes W aid src ls (f v)"
  shows "writes W aid src ls (api_bind (or_error (ex_read q)) f)"
proof (rule writesI)
  fix s :: export_db and out
  assume s: "exporting W aid src out s"
  then have "api_bind (or_error (ex_read q)) f s = f v s"
    using assms(1) [OF s] by (simp add: api_bind_def or_error_def ex_read_def no_fault_ex exporting_def api_return_def)
  then show "\<exists>x t. api_bind (or_error (ex_read q)) f s = (Inr x, t) \<and> exporting W aid src (out @ concat ls) t \<and> xd_clock t = xd_clock s"
    using writesD [OF assms(2) s] by metis
qed

lemma writes_flush: "writes W aid src [] (flush_chunk aid)"
proof (rule writesI)
  fix s :: export_db and out
  assume s: "exporting W aid src out s"
  let ?w = "xd_writer s"
  let ?c = "\<lparr>ck_artifact_id = aid, ck_sequence = wr_sequence ?w, ck_content = wr_chunk ?w, ck_byte_length = wr_chunk_bytes ?w\<rparr>"
  have run: "running W aid s" and none: "faults (xd_base s) = []" using s by (simp_all add: exporting_def)
  obtain r t where f: "flush_chunk aid s = (r, t)" by (cases "flush_chunk aid s")
  have "running W aid t" using keeps_run [OF running_flush run f] .
  moreover have "\<exists>x. r = Inr x \<and> faults (xd_base t) = [] \<and> xd_source t = xd_source s \<and> wr_hashed (xd_writer t) = wr_hashed ?w
      \<and> xd_clock t = xd_clock s"
  proof (cases "wr_chunk_bytes ?w = 0")
    case True
    then show ?thesis using f none by (auto simp: flush_chunk_def api_bind_def api_reads_def api_return_def)
  next
    case False
    have "list_ex (\<lambda>a. at_id a = aid) (artifacts s)" and bytes: "wr_chunk_bytes ?w \<le> 1048576" and "wr_sequence ?w = length (chunks_of aid s)"
      and chunked: "map ck_sequence (chunks_of aid s) = [0..<length (chunks_of aid s)]"
      using run by (auto simp: running_def writer_ok_def Let_def MAX_LINE_BYTES_def exports_ok_def well_chunked_def list_all_iff list_ex_iff)
    moreover have "ck_sequence d < length (chunks_of aid s)" if "d \<in> set (chunks s)" "ck_artifact_id d = aid" for d
    proof -
      have "ck_sequence d \<in> set (map ck_sequence (chunks_of aid s))" using that by (simp add: chunks_of_def)
      then show ?thesis by (simp only: chunked) simp
    qed
    ultimately have "\<not> list_ex (\<lambda>d. ck_artifact_id d = aid \<and> ck_sequence d = wr_sequence ?w) (chunks s)"
      by (force simp: list_ex_iff)
    then have "insert_chunk ?c s = Inr ((), s\<lparr>chunks := chunks s @ [?c]\<rparr>)"
      using bytes \<open>list_ex (\<lambda>a. at_id a = aid) (artifacts s)\<close> by (simp add: insert_chunk_def)
    then show ?thesis using f none False
      by (auto simp: flush_chunk_def api_bind_def api_reads_def or_error_def no_fault_ex set_writer_def api_return_def)
  qed
  ultimately show "\<exists>x t. flush_chunk aid s = (Inr x, t) \<and> exporting W aid src (out @ concat []) t \<and> xd_clock t = xd_clock s"
    using s f by (auto simp: exporting_def)
qed

lemma writes_emit:
  assumes "utf8_length (export_line type data ws) \<le> MAX_LINE_BYTES"
  shows "writes W aid src [export_line type data ws] (emit aid type data ws)"
proof (rule writesI)
  fix s :: export_db and out
  let ?line = "export_line type data ws" and ?w = "xd_writer s"
  assume s: "exporting W aid src out s"
  let ?m = "if wr_chunk_bytes ?w \<noteq> 0 \<and> CHUNK_BYTES < wr_chunk_bytes ?w + utf8_length ?line then flush_chunk aid else api_return ()"
  have "writes W aid src [] ?m" by (simp add: writes_flush writes_return)
  then obtain x u where u: "?m s = (Inr x, u)" "exporting W aid src (out @ concat []) u" "xd_clock u = xd_clock s"
    by (rule writesD [OF _ s])
  have e: "emit aid type data ws s = (Inr (), u\<lparr>xd_writer := append_line ?line (xd_writer u)\<rparr>)"
    using assms u(1) by (simp add: emit_def emit_line_def Let_def api_bind_def api_reads_def set_writer_def)
  have "running W aid (snd (emit aid type data ws s))" using s by (auto intro: keepsD [OF running_emit] simp: exporting_def)
  then show "\<exists>x t. emit aid type data ws s = (Inr x, t) \<and> exporting W aid src (out @ concat [?line]) t \<and> xd_clock t = xd_clock s"
    using u by (auto simp: e exporting_def append_line_def)
qed

definition arranges :: "export_world \<Rightarrow> bool" where
  "arranges W \<longleftrightarrow> (\<forall>n rows. mset (xw_arrange W n rows) = mset rows \<and> sorted (map fst (xw_arrange W n rows)))"

lemma arranges_sort:
  assumes "arranges W" "distinct (map fst rows)"
  shows "xw_arrange W n rows = sort_key fst rows"
  using assms sort_key_inj_key_eq [of rows "xw_arrange W n rows" fst] by (simp add: arranges_def distinct_map)

lemma writes_range:
  assumes "\<And>out s. exporting W aid src out s \<Longrightarrow> q s = rows" "\<And>n. xw_arrange W n rows = S"
    and "writes W aid src ls (f (take EXPORT_PAGE_SIZE (drop offset S)))"
  shows "writes W aid src ls (api_bind (or_error (ex_range W q offset)) f)"
proof (rule writesI)
  fix s :: export_db and out
  assume s: "exporting W aid src out s"
  let ?s = "s\<lparr>xd_queries := Suc (xd_queries s)\<rparr>"
  have run: "api_bind (or_error (ex_range W q offset)) f s = f (take EXPORT_PAGE_SIZE (drop offset S)) ?s"
    using assms(1) [OF s] assms(2) s by (simp add: api_bind_def or_error_def ex_range_def no_fault_ex exporting_def api_return_def)
  have s': "exporting W aid src out ?s"
    using s export_tables_running(1) [of W aid] by (simp add: exporting_def export_tables_def)
  obtain x t where "f (take EXPORT_PAGE_SIZE (drop offset S)) ?s = (Inr x, t)" "exporting W aid src (out @ concat ls) t" "xd_clock t = xd_clock ?s"
    by (rule writesD [OF assms(3) s'])
  then show "\<exists>x t. api_bind (or_error (ex_range W q offset)) f s = (Inr x, t) \<and> exporting W aid src (out @ concat ls) t \<and> xd_clock t = xd_clock s"
    by (simp add: run)
qed

lemma writes_loop:
  assumes q: "\<And>out s. exporting W aid src out s \<Longrightarrow> q s = rows" and arr: "\<And>n. xw_arrange W n rows = S"
    and f: "\<And>x. x \<in> set S \<Longrightarrow> writes W aid src (ls x) (f x)"
  shows "length S < n + offset \<Longrightarrow> offset \<le> length S \<Longrightarrow>
    writes W aid src (concat (map ls (drop offset S))) (api_loop n (paged_round W q f) offset)"
proof (induction n arbitrary: offset)
  case (Suc n)
  let ?page = "take EXPORT_PAGE_SIZE (drop offset S)"
  have page: "writes W aid src (concat (map ls ?page)) (api_map f ?page)"
    by (rule writes_map) (meson f in_set_dropD in_set_takeD)
  have rest: "writes W aid src (concat (map ls (drop (offset + EXPORT_PAGE_SIZE) S)))
     (if length ?page < EXPORT_PAGE_SIZE then api_return (Some ()) else api_loop n (paged_round W q f) (offset + EXPORT_PAGE_SIZE))"
  proof (cases "length ?page < EXPORT_PAGE_SIZE")
    case True
    then have "length S - offset < EXPORT_PAGE_SIZE" by (simp add: min_def split: if_splits)
    then show ?thesis by (simp add: writes_return)
  next
    case False
    then have "offset + EXPORT_PAGE_SIZE \<le> length S" by (simp add: EXPORT_PAGE_SIZE_def)
    then show ?thesis using Suc.IH [of "offset + EXPORT_PAGE_SIZE"] Suc.prems False by (simp add: EXPORT_PAGE_SIZE_def)
  qed
  have "drop offset S = ?page @ drop (offset + EXPORT_PAGE_SIZE) S"
    by (metis append_take_drop_id drop_drop add.commute)
  then have whole: "concat (map ls (drop offset S)) = concat (map ls ?page) @ concat (map ls (drop (offset + EXPORT_PAGE_SIZE) S))"
    by (metis concat_append map_append)
  have "api_loop (Suc n) (paged_round W q f) offset =
     api_bind (or_error (ex_range W q offset)) (\<lambda>rows. api_bind (api_map f rows) (\<lambda>_.
       if length rows < EXPORT_PAGE_SIZE then api_return (Some ()) else api_loop n (paged_round W q f) (offset + EXPORT_PAGE_SIZE)))"
    by (simp add: paged_round_def api_bind_assoc if_distrib [of "case_sum _ _"] cong: if_cong)
  moreover have "writes W aid src (concat (map ls (drop offset S)))
     (api_bind (or_error (ex_range W q offset)) (\<lambda>rows. api_bind (api_map f rows) (\<lambda>_.
       if length rows < EXPORT_PAGE_SIZE then api_return (Some ()) else api_loop n (paged_round W q f) (offset + EXPORT_PAGE_SIZE))))"
    unfolding whole by (rule writes_range, erule q, rule arr, rule writes_bind [OF page rest])
  ultimately show ?case by (simp only:)
qed simp

lemma writes_paged:
  assumes q: "\<And>out s. exporting W aid src out s \<Longrightarrow> q s = rows" and arr: "\<And>n. xw_arrange W n rows = S"
    and f: "\<And>x. x \<in> set S \<Longrightarrow> writes W aid src (ls x) (f x)" and len: "length S = length rows"
  shows "writes W aid src (concat (map ls S)) (paged W q f)"
proof (rule writesI)
  fix s :: export_db and out
  assume s: "exporting W aid src out s"
  have "writes W aid src (concat (map ls (drop 0 S))) (api_loop (Suc (length rows)) (paged_round W q f) 0)"
    by (rule writes_loop [OF q arr f]) (simp_all add: len)
  from writesD [OF this s] obtain x t where "api_loop (Suc (length rows)) (paged_round W q f) 0 s = (Inr x, t)"
    "exporting W aid src (out @ concat (concat (map ls S))) t" "xd_clock t = xd_clock s" by (metis drop_0)
  then show "\<exists>x t. paged W q f s = (Inr x, t) \<and> exporting W aid src (out @ concat (concat (map ls S))) t \<and> xd_clock t = xd_clock s"
    unfolding paged_def q [OF s] by blast
qed

text \<open>The lines an export should have, without pages, chunks or database calls.\<close>

definition table_lines :: "export_db \<Rightarrow> string \<Rightarrow> string \<Rightarrow> string list" where
  "table_lines s ws table = map (\<lambda>(k, row). export_line table row (Some ws)) (sort_key fst (rows_in table ws s))"

definition all_tables :: "string list" where
  "all_tables = EXPORT_TABLES @ [''transaction_attachments'']"

definition workspace_lines :: "export_db \<Rightarrow> string \<times> json \<Rightarrow> string list" where
  "workspace_lines s x = (let ws = fst x in
     export_line ''workspace_member'' (snd x) (Some ws)
     # (case map_of (xs_workspaces (xd_source s)) ws of
          None \<Rightarrow> []
        | Some row \<Rightarrow> export_line ''workspace'' row (Some ws) # concat (map (table_lines s ws) all_tables)))"

definition account_lines :: "export_world \<Rightarrow> string \<Rightarrow> export_db \<Rightarrow> string list" where
  "account_lines W uid s =
     export_line ''manifest'' (manifest (xw_iso W (xd_clock s))) None
     # (case map_of (xs_profiles (xd_source s)) uid of None \<Rightarrow> [] | Some row \<Rightarrow> [export_line ''profile'' row None])
     @ concat (map (workspace_lines s) (sort_key fst (members_of uid s)))"

text \<open>Every query orders its rows by a key of their own.\<close>

definition keyed :: "string \<Rightarrow> export_db \<Rightarrow> bool" where
  "keyed uid s \<longleftrightarrow> distinct (map fst (members_of uid s))
     \<and> list_all (\<lambda>m. list_all (\<lambda>table. distinct (map fst (rows_in table (fst m) s))) all_tables) (members_of uid s)"

definition fits :: "string list \<Rightarrow> bool" where
  "fits ls \<longleftrightarrow> list_all (\<lambda>l. utf8_length l \<le> MAX_LINE_BYTES) ls"

lemma fits_simps [simp]: "fits []" "fits (l # ls) \<longleftrightarrow> utf8_length l \<le> MAX_LINE_BYTES \<and> fits ls" "fits (ks @ ls) \<longleftrightarrow> fits ks \<and> fits ls"
    "fits (concat lls) \<longleftrightarrow> (\<forall>ls \<in> set lls. fits ls)"
  by (auto simp: fits_def list_all_iff)

lemma writes_table:
  assumes "arranges W" "distinct (map fst (rows_in table ws s0))" "fits (table_lines s0 ws table)"
  shows "writes W aid (xd_source s0) (table_lines s0 ws table) (emitTable W aid ws table)"
proof -
  let ?S = "sort_key fst (rows_in table ws s0)" and ?line = "\<lambda>x. export_line table (snd x) (Some ws)"
  have lines: "table_lines s0 ws table = map ?line ?S" by (simp add: table_lines_def case_prod_unfold)
  have "writes W aid (xd_source s0) (concat (map (\<lambda>x. [?line x]) ?S)) (paged W (rows_in table ws) (\<lambda>x. emit aid table (snd x) (Some ws)))"
  proof (rule writes_paged)
    show "xw_arrange W n (rows_in table ws s0) = ?S" for n by (rule arranges_sort [OF assms(1,2)])
    show "rows_in table ws s = rows_in table ws s0" if "exporting W aid (xd_source s0) out s" for out s
      using that by (simp add: exporting_def rows_in_def)
    show "writes W aid (xd_source s0) [?line x] (emit aid table (snd x) (Some ws))" if "x \<in> set ?S" for x
      using assms(3) that unfolding lines by (intro writes_emit) (simp add: fits_def list_all_iff)
  qed simp
  then have "writes W aid (xd_source s0) (concat (map (\<lambda>x. [?line x]) ?S) @ []) (emitTable W aid ws table)"
    unfolding emitTable_def by (intro writes_bind writes_return)
  then show ?thesis by (simp add: lines)
qed

lemma writes_workspace:
  assumes "arranges W" "keyed uid s0" "x \<in> set (members_of uid s0)" "fits (workspace_lines s0 x)"
  shows "writes W aid (xd_source s0) (workspace_lines s0 x) (export_workspace W aid x)"
proof -
  let ?ws = "fst x"
  have member: "writes W aid (xd_source s0) [export_line ''workspace_member'' (snd x) (Some ?ws)] (emit aid ''workspace_member'' (snd x) (Some ?ws))"
    using assms(4) by (intro writes_emit) (simp add: workspace_lines_def Let_def)
  have rest: "writes W aid (xd_source s0) (tl (workspace_lines s0 x)) (api_bind (or_error (ex_read (\<lambda>s. map_of (xs_workspaces (xd_source s)) ?ws)))
    (\<lambda>w. case w of None \<Rightarrow> api_return () | Some row \<Rightarrow>
       api_bind (emit aid ''workspace'' row (Some ?ws)) (\<lambda>_. api_bind (api_map (emitTable W aid ?ws) EXPORT_TABLES) (\<lambda>_.
       emitTable W aid ?ws ''transaction_attachments''))))"
  proof (rule writes_read [where v = "map_of (xs_workspaces (xd_source s0)) ?ws"])
    show "map_of (xs_workspaces (xd_source s)) ?ws = map_of (xs_workspaces (xd_source s0)) ?ws" if "exporting W aid (xd_source s0) out s" for out s
      using that by (simp add: exporting_def)
    show "writes W aid (xd_source s0) (tl (workspace_lines s0 x)) (case map_of (xs_workspaces (xd_source s0)) ?ws of None \<Rightarrow> api_return () | Some row \<Rightarrow>
       api_bind (emit aid ''workspace'' row (Some ?ws)) (\<lambda>_. api_bind (api_map (emitTable W aid ?ws) EXPORT_TABLES) (\<lambda>_.
       emitTable W aid ?ws ''transaction_attachments'')))"
    proof (cases "map_of (xs_workspaces (xd_source s0)) ?ws")
      case None
      then show ?thesis by (simp add: workspace_lines_def Let_def writes_return)
    next
      case (Some row)
      have table: "writes W aid (xd_source s0) (table_lines s0 ?ws t) (emitTable W aid ?ws t)" if t: "t \<in> set all_tables" for t
      proof (rule writes_table [OF assms(1)])
        show "distinct (map fst (rows_in t ?ws s0))" using assms(2,3) t by (simp add: keyed_def list_all_iff)
        show "fits (table_lines s0 ?ws t)" using assms(4) t by (simp add: workspace_lines_def Let_def Some)
      qed
      have "writes W aid (xd_source s0) ([export_line ''workspace'' row (Some ?ws)] @ concat (map (table_lines s0 ?ws) EXPORT_TABLES)
          @ table_lines s0 ?ws ''transaction_attachments'')
        (api_bind (emit aid ''workspace'' row (Some ?ws)) (\<lambda>_. api_bind (api_map (emitTable W aid ?ws) EXPORT_TABLES) (\<lambda>_.
       emitTable W aid ?ws ''transaction_attachments'')))"
        using assms(4) by (intro writes_bind writes_emit writes_map table) (simp_all add: workspace_lines_def Let_def Some all_tables_def)
      then show ?thesis by (simp add: workspace_lines_def Let_def Some all_tables_def)
    qed
  qed
  have "workspace_lines s0 x = [export_line ''workspace_member'' (snd x) (Some ?ws)] @ tl (workspace_lines s0 x)"
    by (simp add: workspace_lines_def Let_def)
  then show ?thesis using writes_bind [OF member rest] by (simp add: export_workspace_def Let_def)
qed

lemma writes_account:
  assumes "arranges W" "keyed uid s0" "fits (account_lines W uid s0)"
  shows "writes W aid (xd_source s0) (account_lines W uid s0) (emit_account W aid uid (xd_clock s0))"
proof -
  let ?p = "map_of (xs_profiles (xd_source s0)) uid"
  let ?profile = "case ?p of None \<Rightarrow> [] | Some row \<Rightarrow> [export_line ''profile'' row None]"
  let ?S = "sort_key fst (members_of uid s0)"
  have profile: "writes W aid (xd_source s0) ?profile (case ?p of None \<Rightarrow> api_return () | Some row \<Rightarrow> emit aid ''profile'' row None)"
    using assms(3) by (cases ?p) (simp_all add: writes_return account_lines_def writes_emit)
  have members: "writes W aid (xd_source s0) (concat (map (workspace_lines s0) ?S)) (paged W (members_of uid) (export_workspace W aid))"
  proof (rule writes_paged)
    show "xw_arrange W n (members_of uid s0) = ?S" for n using arranges_sort [OF assms(1)] assms(2) by (simp add: keyed_def)
    show "members_of uid s = members_of uid s0" if "exporting W aid (xd_source s0) out s" for out s
      using that by (simp add: exporting_def members_of_def)
    show "writes W aid (xd_source s0) (workspace_lines s0 x) (export_workspace W aid x)" if "x \<in> set ?S" for x
      using that assms(3) by (intro writes_workspace [OF assms(1,2)]) (simp_all add: account_lines_def)
  qed simp
  have "writes W aid (xd_source s0) ([export_line ''manifest'' (manifest (xw_iso W (xd_clock s0))) None] @ ?profile @ concat (map (workspace_lines s0) ?S) @ [])
     (emit_account W aid uid (xd_clock s0))"
    unfolding emit_account_def
    by (intro writes_bind writes_emit writes_read [where v = ?p] profile members writes_flush)
      (use assms(3) in \<open>simp_all add: account_lines_def exporting_def\<close>)
  then show ?thesis by (simp add: account_lines_def)
qed

lemma keeps_emitting:
  assumes "export_tables P" "\<And>s w. P (s\<lparr>xd_writer := w\<rparr>) = P s" "\<And>s cs. P (s\<lparr>chunks := cs\<rparr>) = P s"
  shows "keeps P (flush_chunk aid)" "keeps P (emit aid type data ws)" "keeps P (emit_account W aid uid now)"
proof -
  have writer: "keeps P (set_writer f)" for f by (rule keepsI) (simp add: set_writer_def assms(2))
  have ins: "keeps P (ex_stmt (insert_chunk c))" for c
    by (rule keeps_ex_stmt [OF assms(1)]) (auto simp: insert_chunk_def assms(3) split: if_splits)
  show flush: "keeps P (flush_chunk aid)" unfolding flush_chunk_def by (intro keeps_intros ins writer)
  show line: "keeps P (emit aid type data ws)" for type data ws
    unfolding emit_def emit_line_def Let_def by (intro keeps_intros flush writer)
  have table: "keeps P (emitTable W aid ws table)" for ws table
    unfolding emitTable_def by (intro keeps_intros keeps_paged line assms(1))
  have workspace: "keeps P (export_workspace W aid x)" for x
    unfolding export_workspace_def Let_def by (intro keeps_intros line table assms(1))
  show "keeps P (emit_account W aid uid now)"
    unfolding emit_account_def by (intro keeps_intros line keeps_paged workspace flush assms(1))
qed

lemma account_lines_count: "line_count (concat (account_lines W uid s)) = length (account_lines W uid s)"
proof -
  have one: "list_all (\<lambda>l. line_count l = 1) (account_lines W uid s)"
    by (auto simp: account_lines_def workspace_lines_def table_lines_def Let_def list_all_iff export_line_count split: option.splits)
  have "list_all (\<lambda>l. line_count l = 1) ls \<Longrightarrow> line_count (concat ls) = length ls" for ls by (induction ls) simp_all
  then show ?thesis using one by simp
qed

lemma finished:
  assumes "exporting W aid src out s" "wr_chunk (xd_writer s) = []"
  obtains v t where "finish_artifact W aid uid now s = (Inr v, t)" "av_id v = aid" "av_status v = AT_READY"
    "av_size_bytes v = utf8_length out" "av_row_count v = line_count out" "text_of aid t = out" "xd_clock t = xd_clock s"
    "artifacts t = map (\<lambda>a. if at_id a = aid \<and> at_user_id a = uid then a\<lparr>at_status := AT_READY, at_size_bytes := utf8_length out,
       at_row_count := line_count out, at_checksum := Some (env_sha256 (xw_env W) out), at_completed_at := Some (xd_clock s), at_error := None\<rparr> else a) (artifacts s)"
proof -
  have none: "faults (xd_base s) = []" using assms(1) by (simp add: exporting_def)
  have w: "wr_hashed (xd_writer s) = out" "text_of aid s = out" "wr_size_bytes (xd_writer s) = utf8_length out" "wr_row_count (xd_writer s) = line_count out"
    using assms by (auto simp: exporting_def running_def writer_ok_def Let_def)
  let ?done = "s\<lparr>artifacts := map (\<lambda>a. if at_id a = aid \<and> at_user_id a = uid then a\<lparr>at_status := AT_READY, at_size_bytes := utf8_length out,
       at_row_count := line_count out, at_checksum := Some (env_sha256 (xw_env W) out), at_completed_at := Some (xd_clock s), at_error := None\<rparr> else a) (artifacts s)\<rparr>"
  have "finish_artifact W aid uid now s = (Inr \<lparr>av_id = aid, av_status = AT_READY, av_size_bytes = utf8_length out, av_row_count = line_count out,
       av_checksum = Some (env_sha256 (xw_env W) out), av_expires_at = now + 86400000, av_created_at = now,
       av_completed_at = Some (xd_clock s), av_download_url = Some (download_url aid)\<rparr>,
     ?done\<lparr>xd_audit := xd_audit s @ [(uid, ''DATA_EXPORT_CREATED'', aid, JObj [(''size_bytes'', JInt (int (utf8_length out))),
       (''row_count'', JInt (int (line_count out))), (''checksum'', JStr (env_sha256 (xw_env W) out))])]\<rparr>)"
    by (simp add: finish_artifact_def api_bind_def api_reads_def or_error_def no_fault_ex none update_artifact_def
      export_audit_def api_return_def Let_def w)
  then show ?thesis by (rule that) (use w(2) in \<open>simp_all add: text_of_def chunks_of_def\<close>)
qed

lemma export_created:
  assumes ok: "exports_ok W s" and none: "faults (xd_base s) = []" and "arranges W" "keyed uid s" "fits (account_lines W uid s)"
    and new: "\<not> list_ex (\<lambda>a. at_id a = env_uuid (xw_env W) (uuids (xd_base s))) (artifacts s)"
  shows "case createArtifact W uid s of
      (Inr v, t) \<Rightarrow> av_status v = AT_READY \<and> text_of (av_id v) t = concat (account_lines W uid s)
        \<and> av_row_count v = length (account_lines W uid s) \<and> av_size_bytes v = utf8_length (concat (account_lines W uid s))
        \<and> downloadable uid (av_id v) t
    | (Inl e, t) \<Rightarrow> False"
proof -
  define aid where "aid = env_uuid (xw_env W) (uuids (xd_base s))"
  let ?a = "\<lparr>at_id = aid, at_user_id = uid, at_status = AT_PROCESSING, at_size_bytes = 0, at_row_count = 0, at_checksum = None,
    at_error = None, at_expires_at = xd_clock s + 86400000, at_created_at = xd_clock s, at_completed_at = None\<rparr>"
  let ?s1 = "xd_base_update (\<lambda>l. l\<lparr>uuids := Suc (uuids l)\<rparr>) s"
  let ?s2 = "?s1\<lparr>artifacts := artifacts s @ [?a]\<rparr>" and ?out = "concat (account_lines W uid s)"
  let ?s3 = "?s2\<lparr>xd_writer := empty_writer\<rparr>"
  have "exports_ok W ?s1" using ok export_tables_running(2) [of W] by (simp add: export_tables_def)
  then have "opened W aid ?s2" using opened_insert [of W ?s1 ?a "()" ?s2] new by (simp add: insert_artifact_def aid_def)
  then have "exporting W aid (xd_source s) [] ?s3" using running_start none by (simp add: exporting_def empty_writer_def)
  from writesD [OF writes_account [OF assms(3-5)] this] obtain x u where
    u: "emit_account W aid uid (xd_clock s) ?s3 = (Inr x, u)" "exporting W aid (xd_source s) ?out u" "xd_clock u = xd_clock s" by auto
  have run: "running W aid ?s3" using \<open>exporting W aid (xd_source s) [] ?s3\<close> by (simp add: exporting_def)
  have "wr_chunk (xd_writer u) = []" using triple_Inr [OF triple_emit_account run u(1)] by simp
  then obtain v t where fin: "finish_artifact W aid uid (xd_clock s) u = (Inr v, t)" "av_id v = aid" "av_status v = AT_READY"
    "av_size_bytes v = utf8_length ?out" "av_row_count v = line_count ?out" "text_of aid t = ?out" "xd_clock t = xd_clock u"
    and arts: "artifacts t = map (\<lambda>a. if at_id a = aid \<and> at_user_id a = uid then a\<lparr>at_status := AT_READY, at_size_bytes := utf8_length ?out,
       at_row_count := line_count ?out, at_checksum := Some (env_sha256 (xw_env W) ?out), at_completed_at := Some (xd_clock u), at_error := None\<rparr> else a) (artifacts u)"
    by (rule finished [OF u(2)])
  have "keeps (\<lambda>s. artifacts s = as) (emit_account W aid uid now)" for as now
    by (rule keeps_emitting) (simp_all add: export_tables_def)
  from keeps_run [OF this _ u(1), of "artifacts ?s2"] have "artifacts u = artifacts s @ [?a]" by simp
  then have "downloadable uid aid t" by (simp add: downloadable_def arts fin(7) u(3))
  moreover have "createArtifact W uid s = (Inr v, t)"
    using new none u(1) fin(1)
    by (simp add: createArtifact_def api_bind_def new_artifact_id_def api_reads_def aid_def no_fault_ex insert_artifact_def set_writer_def api_catch_def)
  ultimately show ?thesis using fin account_lines_count by simp
qed

section \<open>A small account\<close>

definition demo_export_world :: export_world where
  "demo_export_world = \<lparr>xw_env = demo_env, xw_iso = (\<lambda>t. ''2026-08-01T00:00:00.000Z''), xw_arrange = (\<lambda>n rows. sort_key fst rows),
     xw_base64_of_hex = (\<lambda>h. h)\<rparr>"

definition demo_source :: export_source where
  "demo_source = \<lparr>xs_profiles = [(''u1'', JObj [(''id'', JStr ''u1'')])],
     xs_members = [(''u1'', ''w1'', JObj [(''workspace_id'', JStr ''w1'')])],
     xs_workspaces = [(''w1'', JObj [(''id'', JStr ''w1''), (''name'', JStr ''Home'')])],
     xs_tables = (\<lambda>t. if t = ''tags'' then [(''w1'', ''t1'', JObj [(''name'', JStr ''food'')])] else [])\<rparr>"

definition demo_exports :: export_db where
  "demo_exports = \<lparr>xd_base = demo_db, xd_source = demo_source, artifacts = [], chunks = [], xd_writer = empty_writer, xd_audit = [],
     xd_clock = 0, xd_queries = 0\<rparr>"

lemma demo_exports_ok: "exports_ok demo_export_world demo_exports"
  by (simp add: exports_ok_def demo_exports_def)

lemma demo_arranges: "arranges demo_export_world"
  by (simp add: arranges_def demo_export_world_def)

lemma rows_in_demo: "rows_in t w demo_exports = (if t = ''tags'' \<and> w = ''w1'' then [(''t1'', JObj [(''name'', JStr ''food'')])] else [])"
  by (simp add: rows_in_def demo_exports_def demo_source_def)

lemma members_of_demo: "members_of ''u1'' demo_exports = [(''w1'', JObj [(''workspace_id'', JStr ''w1'')])]"
  by (simp add: members_of_def demo_exports_def demo_source_def)

lemma demo_keyed: "keyed ''u1'' demo_exports"
  by (simp add: keyed_def members_of_demo rows_in_demo list_all_iff)

lemma length_json_char: "length (json_char c) \<le> 6"
  by (simp add: json_char_def)

lemma length_json_string: "length (json_string s) \<le> 2 + 6 * length s"
proof -
  have "length (concat (map json_char s)) \<le> 6 * length s"
    by (induction s) (auto intro: add_mono length_json_char [THEN le_trans])
  then show ?thesis by (simp add: json_string_def)
qed

lemma utf8_length_le: "utf8_length s \<le> 2 * length s"
  by (induction s) (auto simp: utf8_length_def)

lemma demo_fields [simp]:
  "xd_clock demo_exports = 0" "faults (xd_base demo_exports) = []" "artifacts demo_exports = []" "xw_iso demo_export_world = (\<lambda>t. ''2026-08-01T00:00:00.000Z'')"
  "xs_profiles (xd_source demo_exports) = [(''u1'', JObj [(''id'', JStr ''u1'')])]"
  "xs_workspaces (xd_source demo_exports) = [(''w1'', JObj [(''id'', JStr ''w1''), (''name'', JStr ''Home'')])]"
  by (simp_all add: demo_exports_def demo_source_def demo_export_world_def)

lemma demo_account_lines: "account_lines demo_export_world ''u1'' demo_exports =
   [export_line ''manifest'' (manifest ''2026-08-01T00:00:00.000Z'') None, export_line ''profile'' (JObj [(''id'', JStr ''u1'')]) None,
    export_line ''workspace_member'' (JObj [(''workspace_id'', JStr ''w1'')]) (Some ''w1''),
    export_line ''workspace'' (JObj [(''id'', JStr ''w1''), (''name'', JStr ''Home'')]) (Some ''w1''),
    export_line ''tags'' (JObj [(''name'', JStr ''food'')]) (Some ''w1'')]"
  by (simp add: account_lines_def members_of_demo workspace_lines_def table_lines_def rows_in_demo Let_def all_tables_def EXPORT_TABLES_def)

lemma short_line_fits: "length l \<le> 10000 \<Longrightarrow> utf8_length l \<le> MAX_LINE_BYTES"
  using utf8_length_le [of l] by (simp add: MAX_LINE_BYTES_def)

lemma demo_fits: "fits (account_lines demo_export_world ''u1'' demo_exports)"
  unfolding demo_account_lines fits_def list.pred_inject
  by (intro conjI short_line_fits; simp add: export_line_def defined_fields_def manifest_def json_string_def json_char_def show_int_def show_nat.simps)

section \<open>Two pages of tags of one entry\<close>

text \<open>PostgreSQL is free to return the rows of one entry in another order for the second page.\<close>

definition lossy_world :: export_world where
  "lossy_world = demo_export_world\<lparr>xw_arrange := (\<lambda>n rows. sort_key fst (if n = 1 then rev rows else rows))\<rparr>"

definition tag_row :: "nat \<Rightarrow> string \<times> json" where
  "tag_row i = (''e1'', JObj [(''journal_entry_id'', JStr ''e1''), (''tag_id'', JStr (show_nat i))])"

definition tag_line :: "nat \<Rightarrow> string" where
  "tag_line i = export_line ''journal_entry_tags'' (snd (tag_row i)) (Some ''w1'')"

definition tagged_exports :: export_db where
  "tagged_exports = demo_exports\<lparr>
     xd_source := demo_source\<lparr>xs_tables := (\<lambda>t. if t = ''journal_entry_tags'' then map (\<lambda>i. (''w1'', tag_row i)) [0..<501] else [])\<rparr>,
     artifacts := [\<lparr>at_id = ''a1'', at_user_id = ''u1'', at_status = AT_PROCESSING, at_size_bytes = 0, at_row_count = 0, at_checksum = None,
       at_error = None, at_expires_at = 86400000, at_created_at = 0, at_completed_at = None\<rparr>]\<rparr>"

lemma lossy_arranges: "arranges lossy_world"
  by (simp add: arranges_def lossy_world_def)

lemma sort_key_const: "sort_key fst (map tag_row ids) = map tag_row ids"
  by (rule sort_key_id_if_sorted) (simp add: tag_row_def comp_def sorted_replicate map_replicate_const)

lemma tagged_rows: "rows_in ''journal_entry_tags'' ''w1'' tagged_exports = map tag_row [0..<501]"
proof -
  have "[(k, row). (w, k, row) \<leftarrow> map (\<lambda>i. (''w1'', tag_row i)) ids, w = ''w1''] = map tag_row ids" for ids :: "nat list"
    by (induction ids) (simp_all add: tag_row_def)
  from this [of "[0..<501]"] show ?thesis by (simp add: rows_in_def tagged_exports_def)
qed

lemma tag_line_fits: "i < 501 \<Longrightarrow> utf8_length (tag_line i) \<le> MAX_LINE_BYTES"
proof -
  assume "i < 501"
  then have "length (show_nat i) \<le> 3" using length_show_nat [of i 2] by simp
  then have "length (json_string (show_nat i)) \<le> 20" using length_json_string [of "show_nat i"] by linarith
  then have "length (tag_line i) \<le> 1000"
    using length_json_string [of "''journal_entry_tags''"] length_json_string [of "''journal_entry_id''"] length_json_string [of "''tag_id''"]
      length_json_string [of "''type''"] length_json_string [of "''workspace_id''"] length_json_string [of "''data''"]
      length_json_string [of "''w1''"] length_json_string [of "''e1''"]
    by (simp add: tag_line_def tag_row_def export_line_def defined_fields_def)
  then show ?thesis using utf8_length_le [of "tag_line i"] by (simp add: MAX_LINE_BYTES_def)
qed

lemma tagged_exporting: "exporting lossy_world ''a1'' (xd_source tagged_exports) [] tagged_exports"
  by (simp add: exporting_def running_def exports_ok_def writer_ok_def Let_def tagged_exports_def demo_exports_def empty_writer_def chunks_of_def
      text_of_def well_chunked_def artifact_whole_def utf8_length_def line_count_def)

lemma queries_emit: "keeps (\<lambda>s. xd_queries s = n) (emit aid type data ws)"
proof -
  have ex: "keeps (\<lambda>s. xd_queries s = n) (ex_stmt (insert_chunk c))" for c
    unfolding ex_stmt_def by (rule keeps_fault_stmt) (auto simp: insert_chunk_def split: if_splits)
  have writer: "keeps (\<lambda>s. xd_queries s = n) (set_writer f)" for f by (rule keepsI) (simp add: set_writer_def)
  show ?thesis unfolding emit_def emit_line_def flush_chunk_def Let_def by (intro keeps_intros ex writer)
qed

text \<open>One page: the rows \<open>rows\<close> of the query \<open>n\<close> from \<open>offset\<close> on.\<close>

lemma tag_page:
  fixes q :: "export_db \<Rightarrow> keyed_rows"
  assumes s: "exporting W aid src out s" and q: "q s = rows" and n: "xd_queries s = n"
    and page: "take EXPORT_PAGE_SIZE (drop offset (xw_arrange W n rows)) = map tag_row ids" and small: "list_all (\<lambda>i. i < 501) ids"
    and r: "(if length ids < EXPORT_PAGE_SIZE then Inl () else Inr (offset + EXPORT_PAGE_SIZE)) = r" and out': "out @ concat (map tag_line ids) = out'"
  shows "\<exists>t. paged_round W q (\<lambda>x. emit aid ''journal_entry_tags'' (snd x) (Some ''w1'')) offset s = (Inr r, t)
    \<and> exporting W aid src out' t \<and> xd_queries t = Suc n"
proof -
  let ?f = "\<lambda>x. emit aid ''journal_entry_tags'' (snd x) (Some ''w1'')" and ?s = "s\<lparr>xd_queries := Suc n\<rparr>"
  have s': "exporting W aid src out ?s"
    using s export_tables_running(1) [of W aid] by (simp add: exporting_def export_tables_def)
  have "writes W aid src [export_line ''journal_entry_tags'' (snd (tag_row i)) (Some ''w1'')] (?f (tag_row i))" if "i \<in> set ids" for i
    using that small tag_line_fits [of i] by (intro writes_emit) (auto simp: tag_line_def list_all_iff)
  then have "writes W aid src [tag_line i] (?f (tag_row i))" if "i \<in> set ids" for i using that by (simp add: tag_line_def)
  then have "writes W aid src (concat (map (\<lambda>i. [tag_line i]) ids)) (api_map (\<lambda>i. ?f (tag_row i)) ids)" by (rule writes_map)
  moreover have "api_map (\<lambda>i. ?f (tag_row i)) ids = api_map ?f (map tag_row ids)" by (induction ids) simp_all
  ultimately have page_lines: "writes W aid src (map tag_line ids) (api_map ?f (map tag_row ids))" by simp
  from writesD [OF this s'] obtain x t where m: "api_map ?f (map tag_row ids) ?s = (Inr x, t)" "exporting W aid src (out @ concat (map tag_line ids)) t"
    by blast
  have "keeps (\<lambda>s. xd_queries s = Suc n) (api_map ?f (map tag_row ids))" by (intro keeps_map queries_emit)
  from keeps_run [OF this _ m(1)] have "xd_queries t = Suc n" by simp
  moreover have "faults (xd_base s) = []" using s by (simp add: exporting_def)
  ultimately show ?thesis using m r
    by (simp add: paged_round_def api_bind_def or_error_def ex_range_def no_fault_ex q n page api_return_def flip: out')
qed

lemma tags_lost:
  "case emitTable lossy_world ''a1'' ''w1'' ''journal_entry_tags'' tagged_exports of
     (Inr _, t) \<Rightarrow> wr_hashed (xd_writer t) = concat (map tag_line ([0..<500] @ [0])) | _ \<Rightarrow> False"
proof -
  let ?q = "rows_in ''journal_entry_tags'' ''w1''" and ?f = "\<lambda>x. emit ''a1'' ''journal_entry_tags'' (snd x) (Some ''w1'')"
  let ?round = "paged_round lossy_world ?q ?f"
  have arrange: "xw_arrange lossy_world 0 (map tag_row [0..<501]) = map tag_row [0..<501]"
    "xw_arrange lossy_world (Suc 0) (map tag_row [0..<501]) = map tag_row (rev [0..<501])"
    by (simp_all add: lossy_world_def rev_map sort_key_const del: upt_rec_numeral)
  have first: "take EXPORT_PAGE_SIZE (drop 0 (xw_arrange lossy_world 0 (map tag_row [0..<501]))) = map tag_row [0..<500]"
    by (simp only: arrange) (simp add: EXPORT_PAGE_SIZE_def take_map del: upt_rec_numeral)
  have small: "list_all (\<lambda>i. i < 501) [0..<500]" by (rule list_all_iff [THEN iffD2]) (auto simp only: set_upt atLeastLessThan_iff)
  have none: "xd_queries tagged_exports = 0" by (simp only: tagged_exports_def demo_exports_def export_db.simps)
  have full: "(if length [0..<500] < EXPORT_PAGE_SIZE then Inl () else Inr (0 + EXPORT_PAGE_SIZE)) = Inr 500"
    and nil: "[] @ concat (map tag_line [0..<500]) = concat (map tag_line [0..<500])"
    by (simp_all only: EXPORT_PAGE_SIZE_def length_upt append_Nil) simp
  obtain u where u: "?round 0 tagged_exports = (Inr (Inr 500), u)" "exporting lossy_world ''a1'' (xd_source tagged_exports) (concat (map tag_line [0..<500])) u"
    "xd_queries u = Suc 0"
    using tag_page [where q = ?q, OF tagged_exporting tagged_rows none first small full nil] by blast
  have "rev [0..<501] = rev [1..<501] @ [0::nat]" by (subst upt_conv_Cons [of 0 501]) (simp_all del: upt_rec_numeral)
  then have second: "take EXPORT_PAGE_SIZE (drop 500 (xw_arrange lossy_world (Suc 0) (map tag_row [0..<501]))) = map tag_row [0]"
    by (simp only: arrange) (simp add: EXPORT_PAGE_SIZE_def drop_map del: upt_rec_numeral)
  have rows: "?q u = map tag_row [0..<501]" using u(2) tagged_rows by (simp add: exporting_def rows_in_def del: upt_rec_numeral)
  obtain t where t: "?round 500 u = (Inr (Inl ()), t)" "exporting lossy_world ''a1'' (xd_source tagged_exports) (concat (map tag_line [0..<500]) @ concat (map tag_line [0])) t"
    using tag_page [where q = ?q and ids = "[0]" and r = "Inl ()", OF u(2) rows u(3) _ _ _ refl] second by (auto simp: EXPORT_PAGE_SIZE_def simp del: upt_rec_numeral)
  have "api_loop (Suc (Suc k)) ?round 0 tagged_exports = (Inr (Some ()), t)" for k
    using u(1) t(1) by (simp add: api_bind_def api_return_def)
  from this [of 500] have "paged lossy_world ?q ?f tagged_exports = (Inr (Some ()), t)"
    unfolding paged_def tagged_rows by (simp del: upt_rec_numeral api_loop.simps)
  then show ?thesis using t(2) by (simp add: emitTable_def api_bind_def api_return_def exporting_def del: upt_rec_numeral)
qed

section \<open>Properties\<close>

text \<open>
  C2. The export store stays whole: after any history of requests of any users, failing statements, hourly purges and
  time, every artifact that is READY has chunks numbered from 0, each at most 1 MiB, whose text is exactly the one with the
  announced size, number of lines and SHA-256, and no chunk is without its artifact.
\<close>

theorem stored_exports_are_whole:
  assumes "exports_ok W s"
  shows "exports_ok W (export_history W es s)"
  using assms by (rule exports_history)

lemma stored_exports_are_whole_witness:
  "exports_ok demo_export_world (export_history demo_export_world
     [Export_request ''u1'' Post_export, Time_passes 86400000, Export_request ''u1'' (Download_export ''u0''), Hourly_purge] demo_exports)"
  by (rule stored_exports_are_whole [OF demo_exports_ok])

text \<open>
  C4. A download that ends delivers exactly the stored text of the artifact, and its headers announce the length and
  digest of that text; the caller owns the artifact, which is READY and has not expired. If a statement fails the body is a
  prefix of that text, or the request is refused; otherwise a downloadable artifact is never refused.
\<close>

theorem download_is_what_was_announced:
  assumes "exports_ok W s"
  shows "case streamArtifact W uid i s of
      (Inr (Inr d), t) \<Rightarrow> downloadable uid i s \<and> dn_body d = text_of i s \<and> announces W (dn_headers d) (text_of i s)
    | (Inr (Inl d), t) \<Rightarrow> downloadable uid i s \<and> faults (xd_base s) \<noteq> [] \<and> prefix (dn_body d) (text_of i s)
        \<and> announces W (dn_headers d) (text_of i s)
    | (Inl e, t) \<Rightarrow> downloadable uid i s \<longrightarrow> faults (xd_base s) \<noteq> []"
  by (rule streamed [OF assms])



definition demo_exported :: export_db where
  "demo_exported = snd (createArtifact demo_export_world ''u1'' demo_exports)"

lemma demo_exported_ok: "exports_ok demo_export_world demo_exported"
  unfolding demo_exported_def by (rule keepsD [OF keeps_createArtifact demo_exports_ok])

lemma download_is_what_was_announced_witness:
  "case streamArtifact demo_export_world ''u1'' ''u0'' demo_exported of
      (Inr (Inr d), t) \<Rightarrow> announces demo_export_world (dn_headers d) (text_of ''u0'' demo_exported)
    | (Inr (Inl d), t) \<Rightarrow> faults (xd_base demo_exported) \<noteq> []
    | (Inl e, t) \<Rightarrow> downloadable ''u1'' ''u0'' demo_exported \<longrightarrow> faults (xd_base demo_exported) \<noteq> []"
  using download_is_what_was_announced [OF demo_exported_ok, of "''u1''" "''u0''"]
  by (auto split: prod.splits sum.splits)

text \<open>
  The rows of \<open>journal_entry_tags\<close> are ordered by the entry alone. With 501 tags on one entry, and an order of
  PostgreSQL that differs between the two queries, the export has the first tag twice and not the last.
\<close>

theorem export_can_miss_a_tag:
  "arranges lossy_world
   \<and> rows_in ''journal_entry_tags'' ''w1'' tagged_exports = map tag_row [0..<501]
   \<and> (case emitTable lossy_world ''a1'' ''w1'' ''journal_entry_tags'' tagged_exports of
        (Inr _, t) \<Rightarrow> wr_hashed (xd_writer t) = concat (map tag_line ([0..<500] @ [0])) | _ \<Rightarrow> False)"
  using lossy_arranges tagged_rows tags_lost by simp

end
