(* ===== verification/Lifecycle.thy ===== *)
theory Lifecycle
  imports Notifications TransactionReads
begin

text \<open>
  The life of an account: \<open>apps/api/src/account/account.service.ts\<close> (requesting and cancelling the
  deletion), the user management of \<open>apps/api/src/admin/admin.service.ts\<close> (list, edit, suspend,
  reinstate, purge) behind \<open>super-admin.guard.ts\<close>, and the purge of migration 00012.

  The profiles are those of the notification service; the users of the Auth server with their ban
  join them. The calls to the Auth server fail on the same schedule as the statements. Reads of a
  user's own profile go through row-level security, which shows exactly that row. Of the overview of
  a user the counts of workspaces, accounts and entries are kept; what the console only displays of
  the sign-in history is left out.
\<close>

section \<open>State\<close>

text \<open>Two signs outside Latin-1 in messages, as the bytes of their UTF-8 form.\<close>

definition right_arrow :: string where "right_arrow = map char_of [226, 134, 146::nat]"
definition em_dash :: string where "em_dash = map char_of [226, 128, 148::nat]"

record auth_user =
  au_id :: string
  au_email :: string
  au_banned_until :: "time option"

record system_event =
  se_level :: string
  se_event_code :: string
  se_actor_id :: "string option"

record life_db =
  lf_notif :: notif_db
  auth_users :: "auth_user list"
  system_events :: "system_event list"

definition lf_base :: "life_db \<Rightarrow> db" where
  "lf_base s = nt_base (lf_notif s)"

definition lf_base_update :: "(db \<Rightarrow> db) \<Rightarrow> life_db \<Rightarrow> life_db" where
  "lf_base_update f s = lf_notif_update (nt_base_update f) s"

definition lf_profiles :: "life_db \<Rightarrow> profile list" where
  "lf_profiles s = nt_profiles (lf_notif s)"

definition lf_clock :: "life_db \<Rightarrow> time" where
  "lf_clock s = nt_clock (lf_notif s)"

definition lf_stmt :: "(life_db \<Rightarrow> pg_error + 'a \<times> life_db) \<Rightarrow> (life_db, pg_error + 'a) api" where
  "lf_stmt = fault_stmt lf_base lf_base_update"

definition lf_read :: "(life_db \<Rightarrow> pg_error + 'a) \<Rightarrow> (life_db, pg_error + 'a) api" where
  "lf_read q = lf_stmt (\<lambda>s. case q s of Inl e \<Rightarrow> Inl e | Inr x \<Rightarrow> Inr (x, s))"

text \<open>A call of the notification service, the audit service and the event log.\<close>

definition notify :: "(notif_db, 'a) api \<Rightarrow> (life_db, 'a) api" where
  "notify m s = (case m (lf_notif s) of (r, n) \<Rightarrow> (r, s\<lparr>lf_notif := n\<rparr>))"

definition record_event :: "string \<Rightarrow> string \<Rightarrow> string option \<Rightarrow> (life_db, unit) api" where
  "record_event level code actor s =
     (Inr (), s\<lparr>system_events := system_events s @ [\<lparr>se_level = level, se_event_code = code, se_actor_id = actor\<rparr>]\<rparr>)"

definition life_audit :: "string \<Rightarrow> string \<Rightarrow> string option \<Rightarrow> json \<Rightarrow> (life_db, bool) api" where
  "life_audit actor action i meta = notify (write_audit \<lparr>ae_actor_id = actor, ae_action = action, ae_resource_type = ''profile'',
     ae_resource_id = i, ae_metadata = meta\<rparr>)"

definition update_profile :: "string \<Rightarrow> (profile \<Rightarrow> profile) \<Rightarrow> life_db \<Rightarrow> pg_error + unit \<times> life_db" where
  "update_profile uid patch s =
     Inr ((), s\<lparr>lf_notif := (lf_notif s)\<lparr>nt_profiles := map (\<lambda>p. if pf_id p = uid then patch p else p) (lf_profiles s)\<rparr>\<rparr>)"

definition own_profile :: "string \<Rightarrow> life_db \<Rightarrow> pg_error + profile" where
  "own_profile uid s = single [p \<leftarrow> lf_profiles s. pf_id p = uid]"

text \<open>\<open>auth.admin.updateUserById(id, { ban_duration })\<close> and \<open>auth.admin.deleteUser(id)\<close>, whose cascade
  takes the rows a user owns in the tables of the notification service.\<close>

definition BAN_MS :: int where "BAN_MS = 876000 * 3600000"
definition DELETION_GRACE_DAYS :: int where "DELETION_GRACE_DAYS = 30"
definition GRACE_MS :: int where "GRACE_MS = DELETION_GRACE_DAYS * 24 * 60 * 60 * 1000"

definition set_ban :: "string \<Rightarrow> bool \<Rightarrow> life_db \<Rightarrow> pg_error + unit \<times> life_db" where
  "set_ban uid ban s =
     (if \<not> list_ex (\<lambda>u. au_id u = uid) (auth_users s) then Inl \<lparr>pg_code = ''user_not_found'', pg_message = ''User not found''\<rparr>
      else Inr ((), s\<lparr>auth_users := map (\<lambda>u. if au_id u = uid then u\<lparr>au_banned_until := (if ban then Some (lf_clock s + BAN_MS) else None)\<rparr>
                                           else u) (auth_users s)\<rparr>))"

definition delete_auth_user :: "string \<Rightarrow> life_db \<Rightarrow> pg_error + unit \<times> life_db" where
  "delete_auth_user uid s =
     (if \<not> list_ex (\<lambda>u. au_id u = uid) (auth_users s) then Inl \<lparr>pg_code = ''user_not_found'', pg_message = ''User not found''\<rparr>
      else let n = lf_notif s in
        Inr ((), s\<lparr>auth_users := [u \<leftarrow> auth_users s. au_id u \<noteq> uid],
          lf_notif := n\<lparr>nt_profiles := [p \<leftarrow> nt_profiles n. pf_id p \<noteq> uid], nt_devices := [d \<leftarrow> nt_devices n. ud_user_id d \<noteq> uid],
            nt_prefs := [x \<leftarrow> nt_prefs n. fst x \<noteq> uid], notifications := [x \<leftarrow> notifications n. nf_user_id x \<noteq> uid],
            deliveries := [d \<leftarrow> deliveries n. \<not> list_ex (\<lambda>x. nf_user_id x = uid \<and> nf_id x = dl_notification_id d) (notifications n)]\<rparr>\<rparr>))"

section \<open>Deletion by the user\<close>

definition bn_deletion_title :: ucs where
  "bn_deletion_title =
     [2437, 2509, 2479, 2494, 2453, 2494, 2441, 2472, 2509, 2463, 32, 2478, 2497, 2459, 2503, 32,
      2475, 2503, 2482, 2494, 2480, 32, 2488, 2478, 2479, 2492, 32, 2472, 2495, 2480, 2509, 2471,
      2494, 2480, 2495, 2468, 32, 2489, 2479, 2492, 2503, 2459, 2503]"

definition bn_your_account :: ucs where
  "bn_your_account =
     [2438, 2474, 2472, 2494, 2480, 32, 2437, 2509, 2479, 2494, 2453, 2494, 2441, 2472, 2509, 2463,
      32]"

definition bn_will_be_deleted :: ucs where
  "bn_will_be_deleted =
     [32, 2468, 2494, 2480, 2495, 2454, 2503, 32, 2478, 2497, 2459, 2503, 32, 2475, 2503, 2482,
      2494, 2480, 32, 2460, 2472, 2509, 2479, 32, 2472, 2495, 2480, 2509, 2471, 2494, 2480, 2495,
      2468, 2404]"

definition bn_cancelled_title :: ucs where
  "bn_cancelled_title =
     [2437, 2509, 2479, 2494, 2453, 2494, 2441, 2472, 2509, 2463, 32, 2478, 2497, 2459, 2503, 32,
      2475, 2503, 2482, 2494, 32, 2476, 2494, 2468, 2495, 2482, 32, 2489, 2479, 2492, 2503, 2459,
      2503]"

definition bn_stays_active :: ucs where
  "bn_stays_active =
     [2438, 2474, 2472, 2494, 2480, 32, 78, 111, 111, 114, 105, 120, 70, 105, 110, 32, 2437, 2509,
      2479, 2494, 2453, 2494, 2441, 2472, 2509, 2463, 32, 2488, 2453, 2509, 2480, 2495, 2479, 2492,
      32, 2469, 2494, 2453, 2476, 2503, 2404]"

definition bn_suspended_title :: ucs where
  "bn_suspended_title =
     [2438, 2474, 2472, 2494, 2480, 32, 78, 111, 111, 114, 105, 120, 70, 105, 110, 32, 2437, 2509,
      2479, 2494, 2453, 2494, 2441, 2472, 2509, 2463, 32, 2488, 2509, 2469, 2455, 2495, 2468, 32,
      2453, 2480, 2494, 32, 2489, 2479, 2492, 2503, 2459, 2503]"

definition bn_suspended_body :: ucs where
  "bn_suspended_body =
     [2447, 2453, 2460, 2472, 32, 2437, 2474, 2494, 2480, 2503, 2463, 2480, 32, 2438, 2474, 2472,
      2494, 2480, 32, 2437, 2509, 2479, 2494, 2453, 2494, 2441, 2472, 2509, 2463, 32, 2488, 2509,
      2469, 2455, 2495, 2468, 32, 2453, 2480, 2503, 2459, 2503, 2472, 2404, 32, 2447, 2463, 2495,
      32, 2477, 2497, 2482, 32, 2489, 2482, 2503, 32, 2488, 2489, 2494, 2479, 2492, 2468, 2494,
      2480, 32, 2488, 2494, 2469, 2503, 32, 2479, 2507, 2455, 2494, 2479, 2507, 2455, 32, 2453,
      2480, 2497, 2472, 2404]"

definition account_input ::
    "NotificationCategory \<Rightarrow> NotificationSeverity \<Rightarrow> string \<Rightarrow> string \<Rightarrow> ucs \<Rightarrow> string \<Rightarrow> ucs \<Rightarrow> string \<Rightarrow> create_notification_input" where
  "account_input c sev uid title title_bn body body_bn key =
     \<lparr>ci_user_id = uid, ci_workspace_id = None, ci_category = c, ci_severity = Some sev, ci_title_en = title,
      ci_title_bn = Some title_bn, ci_body_en = body, ci_body_bn = Some body_bn, ci_action_url = Some ''/dashboard/settings'',
      ci_resource_type = None, ci_resource_id = None, ci_metadata = None, ci_dedupe_key = Some key, ci_expires_at = None\<rparr>"

definition deletion_notice :: "notif_world \<Rightarrow> string \<Rightarrow> time \<Rightarrow> create_notification_input" where
  "deletion_notice W uid deadline =
     (let day = js_slice 0 10 (nw_iso W deadline) in
      account_input N_account SEV_WARNING uid ''Account deletion scheduled'' bn_deletion_title
        (''Your account is scheduled for deletion on '' @ day @ ''.'') (bn_your_account @ ucs_of day @ bn_will_be_deleted)
        (''deletion-scheduled:'' @ nw_iso W deadline))"

definition mark_for_deletion :: "time \<Rightarrow> profile \<Rightarrow> profile" where
  "mark_for_deletion now p = p\<lparr>pf_status := PF_PENDING_DELETION, pf_columns := (pf_columns p)
     \<lparr>pc_deletion_requested_at := Some now, pc_deletion_scheduled_for := Some (now + GRACE_MS)\<rparr>\<rparr>"

definition active_operators :: "life_db \<Rightarrow> profile list" where
  "active_operators s = [p \<leftarrow> lf_profiles s. pf_is_super_admin p \<and> pf_status p = PF_ACTIVE]"

text \<open>The checks, then the writes: \<open>requestDeletion\<close> up to and from line 100.\<close>

definition deletion_checks :: "string \<Rightarrow> string \<Rightarrow> string \<Rightarrow> (life_db, unit) api" where
  "deletion_checks uid email confirm =
     (if js_lower (js_trim confirm) \<noteq> js_lower (js_trim email)
      then api_throw (Bad_request ''CONFIRMATION_MISMATCH'' ''The confirmation address does not match the signed-in account'')
      else
        api_bind (lf_read (own_profile uid)) (\<lambda>r.
        let profile = data_of r in
        if map_option pf_status profile = Some PF_PENDING_DELETION
        then api_throw (Bad_request ''ALREADY_PENDING'' ''This account is already scheduled for deletion'')
        else if map_option pf_is_super_admin profile = Some True
        then
          api_bind (lf_read (\<lambda>s. Inr (length (active_operators s)))) (\<lambda>count.
          if (case data_of count of None \<Rightarrow> 0 | Some n \<Rightarrow> n) \<le> 1
          then api_throw (Forbidden ''LAST_SUPER_ADMIN''
            ''You are the last active operator. Appoint another super admin before deleting this account.'')
          else api_return ())
        else api_return ()))"

definition deletion_writes :: "notif_world \<Rightarrow> string \<Rightarrow> string \<Rightarrow> (life_db, time) api" where
  "deletion_writes W uid reason =
     api_bind (api_reads lf_clock) (\<lambda>now.
     let deadline = now + GRACE_MS in
     api_bind (lf_stmt (update_profile uid (mark_for_deletion now))) (\<lambda>r.
     case r of
       Inl e \<Rightarrow> api_throw (Bad_request ''DELETION_REQUEST_FAILED'' (pg_message e))
     | Inr _ \<Rightarrow>
         api_bind (lf_stmt (set_ban uid True)) (\<lambda>_.
         api_bind (life_audit uid ''ACCOUNT_DELETION_REQUESTED'' (Some uid) (JObj [(''reason'', JStr reason),
           (''scheduled_for'', JStr (nw_iso W deadline)), (''grace_days'', JInt DELETION_GRACE_DAYS)])) (\<lambda>_.
         api_bind (record_event ''INFO'' ''ACCOUNT_DELETION_REQUESTED'' (Some uid)) (\<lambda>_.
         api_bind (notify (createNotification W (deletion_notice W uid deadline))) (\<lambda>_.
         api_return deadline))))))"

definition requestDeletion :: "notif_world \<Rightarrow> string \<Rightarrow> string \<Rightarrow> string \<Rightarrow> string \<Rightarrow> (life_db, time) api" where
  "requestDeletion W uid email confirm reason =
     api_bind (deletion_checks uid email confirm) (\<lambda>_. deletion_writes W uid reason)"

definition keep_account :: "profile \<Rightarrow> profile" where
  "keep_account p = p\<lparr>pf_status := PF_ACTIVE, pf_columns := (pf_columns p)
     \<lparr>pc_deletion_requested_at := None, pc_deletion_scheduled_for := None\<rparr>\<rparr>"

definition cancelDeletion :: "notif_world \<Rightarrow> string \<Rightarrow> (life_db, ProfileStatus) api" where
  "cancelDeletion W uid =
     api_bind (lf_read (own_profile uid)) (\<lambda>r.
     if map_option pf_status (data_of r) \<noteq> Some PF_PENDING_DELETION
     then api_throw (Bad_request ''NOT_PENDING'' ''This account is not scheduled for deletion'')
     else
       api_bind (lf_stmt (update_profile uid keep_account)) (\<lambda>u.
       case u of
         Inl e \<Rightarrow> api_throw (Bad_request ''CANCEL_FAILED'' (pg_message e))
       | Inr _ \<Rightarrow>
           api_bind (lf_stmt (set_ban uid False)) (\<lambda>_.
           api_bind (life_audit uid ''ACCOUNT_DELETION_CANCELLED'' (Some uid) (JObj [])) (\<lambda>_.
           api_bind (api_reads lf_clock) (\<lambda>now.
           api_bind (notify (createNotification W (account_input N_account SEV_SUCCESS uid ''Account deletion cancelled'' bn_cancelled_title
             ''Your NoorixFin account will remain active.'' bn_stays_active (''deletion-cancelled:'' @ nw_iso W now)))) (\<lambda>_.
           api_return PF_ACTIVE))))))"

section \<open>The console\<close>

text \<open>\<open>super-admin.guard.ts\<close>: \<open>aal\<close> is the claim of the session.\<close>

fun status_name :: "ProfileStatus \<Rightarrow> string" where
  "status_name PF_ACTIVE = ''ACTIVE''"
| "status_name PF_SUSPENDED = ''SUSPENDED''"
| "status_name PF_PENDING_DELETION = ''PENDING_DELETION''"

definition superAdminGuard :: "string \<Rightarrow> string option \<Rightarrow> (life_db, unit) api" where
  "superAdminGuard uid aal =
     api_bind (lf_read (own_profile uid)) (\<lambda>r.
     if (case r of Inl e \<Rightarrow> pg_code e \<noteq> NOT_ONE_ROW | Inr _ \<Rightarrow> False)
     then api_throw (Service_unavailable ''AUTHZ_CHECK_FAILED''
       ''Could not verify administrator privileges. This is a server fault, not a problem with your account.'')
     else (case data_of r of
         None \<Rightarrow> api_throw (Forbidden ''NOT_SUPER_ADMIN'' ''This action requires super admin privileges'')
       | Some p \<Rightarrow>
           if \<not> pf_is_super_admin p
           then api_throw (Forbidden ''NOT_SUPER_ADMIN'' ''This action requires super admin privileges'')
           else if pf_status p \<noteq> PF_ACTIVE
           then api_throw (Forbidden ''ACCOUNT_NOT_ACTIVE''
             (''This account is '' @ js_lower (status_name (pf_status p)) @ '' and cannot use the admin console''))
           else if aal \<noteq> Some ''aal2''
           then api_throw (Forbidden ''MFA_REQUIRED''
             (''The admin console requires a verified second factor for this session. Enrol or confirm your ''
              @ ''authenticator app in Settings '' @ right_arrow
              @ '' Security, then return here.''))
           else api_return ()))"

text \<open>\<open>translate\<close>: an error of PostgreSQL as an exception.\<close>

definition admin_fail :: "pg_error \<Rightarrow> (life_db, 'a) api" where
  "admin_fail e =
     (if pg_code e = RLS_VIOLATION then
        (if js_includes (pg_message e) ''requires super admin privileges''
         then api_throw (Forbidden ''NOT_SUPER_ADMIN'' ''This action requires super admin privileges'')
         else api_bind (record_event ''FATAL'' ''MISSING_DB_GRANT'' None) (\<lambda>_.
           api_throw (Service_unavailable ''DB_PRIVILEGE_MISSING''
             (''The service is missing a required database privilege. This is a ''
              @ ''server configuration fault, not a permissions problem with your account.''))))
      else if pg_code e = NOT_ONE_ROW then api_throw (Not_found ''NOT_FOUND'' ''Resource not found'')
      else api_throw (Bad_request ''ADMIN_OPERATION_FAILED'' (pg_message e)))"

definition or_fail :: "(life_db, pg_error + 'a) api \<Rightarrow> (life_db, 'a) api" where
  "or_fail m = api_bind m (\<lambda>r. case r of Inl e \<Rightarrow> admin_fail e | Inr x \<Rightarrow> api_return x)"

record user_overview =
  uo_profile :: profile
  uo_email :: string
  uo_banned_until :: "time option"
  uo_workspace_count :: nat
  uo_account_count :: nat
  uo_entry_count :: nat

text \<open>\<open>ILIKE '%p%'\<close> for a text without wildcards.\<close>

definition ilike :: "string \<Rightarrow> string \<Rightarrow> bool" where
  "ilike s p = js_includes (js_lower s) (js_lower p)"

definition db_super_admin :: "string \<Rightarrow> life_db \<Rightarrow> bool" where
  "db_super_admin uid s = list_ex (\<lambda>p. pf_id p = uid \<and> pf_is_super_admin p) (lf_profiles s)"

definition overview_row :: "life_db \<Rightarrow> profile \<Rightarrow> auth_user \<Rightarrow> user_overview" where
  "overview_row s p u =
     (let mine = map ws_id [w \<leftarrow> workspaces (lf_base s). ws_created_by w = pf_id p] in
      \<lparr>uo_profile = p, uo_email = au_email u, uo_banned_until = au_banned_until u, uo_workspace_count = length mine,
       uo_account_count = length [a \<leftarrow> ledger_accounts (lf_base s). la_workspace_id a \<in> set mine \<and> la_deleted_at a = None
         \<and> la_subtype a \<noteq> CATEGORY \<and> la_subtype a \<noteq> SYSTEM],
       uo_entry_count = length [e \<leftarrow> journal_entries (lf_base s). je_workspace_id e \<in> set mine]\<rparr>)"

definition matching_users :: "string option \<Rightarrow> ProfileStatus option \<Rightarrow> life_db \<Rightarrow> user_overview list" where
  "matching_users search status s =
     [overview_row s p u. p \<leftarrow> lf_profiles s, u \<leftarrow> auth_users s, au_id u = pf_id p
        \<and> (case status of None \<Rightarrow> True | Some st \<Rightarrow> pf_status p = st)
        \<and> (case search of None \<Rightarrow> True | Some q \<Rightarrow> q = [] \<or> ilike (au_email u) q \<or> ilike (pc_display_name (pf_columns p)) q)]"

text \<open>\<open>admin_user_overview\<close>: newest accounts first, at most 200 rows, and the number of all.\<close>

definition admin_user_overview ::
    "string \<Rightarrow> string option \<Rightarrow> ProfileStatus option \<Rightarrow> nat \<Rightarrow> nat \<Rightarrow> life_db \<Rightarrow> pg_error + (user_overview list \<times> nat)" where
  "admin_user_overview caller search status limit offset s =
     (if \<not> db_super_admin caller s
      then Inl \<lparr>pg_code = RLS_VIOLATION, pg_message = ''admin_user_overview requires super admin privileges''\<rparr>
      else let rows = matching_users search status s in
        Inr (take (max 1 (min limit 200)) (drop offset (sort_key (\<lambda>r. - pc_created_at (pf_columns (uo_profile r))) rows)), length rows))"

record users_page =
  up_items :: "user_overview list"
  up_total :: nat
  up_limit :: nat
  up_offset :: nat

definition listUsers :: "string \<Rightarrow> string option \<Rightarrow> ProfileStatus option \<Rightarrow> nat option \<Rightarrow> nat option \<Rightarrow> (life_db, users_page) api" where
  "listUsers caller search status limit offset =
     (let l = (case limit of None \<Rightarrow> 50 | Some n \<Rightarrow> n); o' = (case offset of None \<Rightarrow> 0 | Some n \<Rightarrow> n) in
      api_bind (or_fail (lf_read (admin_user_overview caller (truthy search) status l o'))) (\<lambda>(rows, total).
      api_return \<lparr>up_items = rows, up_total = (if rows \<noteq> [] then total else 0), up_limit = l, up_offset = o'\<rparr>))"

definition getUser :: "string \<Rightarrow> string \<Rightarrow> (life_db, user_overview) api" where
  "getUser caller uid =
     api_bind (or_fail (lf_read (admin_user_overview caller None None 200 0))) (\<lambda>(rows, total).
     case find (\<lambda>r. pf_id (uo_profile r) = uid) rows of
       None \<Rightarrow> api_throw (Not_found ''USER_NOT_FOUND'' ''No such user'')
     | Some r \<Rightarrow> api_return r)"

record user_patch =
  xp_display_name :: "string option"
  xp_locale :: "string option"
  xp_timezone :: "string option"

definition patched :: "'a option \<Rightarrow> 'a \<Rightarrow> 'a" where
  "patched new old = (case new of None \<Rightarrow> old | Some v \<Rightarrow> v)"

definition apply_user_patch :: "user_patch \<Rightarrow> profile \<Rightarrow> profile" where
  "apply_user_patch d p = p\<lparr>pf_columns := (pf_columns p)\<lparr>pc_display_name := patched (xp_display_name d) (pc_display_name (pf_columns p)),
     pc_locale := patched (xp_locale d) (pc_locale (pf_columns p)), pc_timezone := patched (xp_timezone d) (pc_timezone (pf_columns p))\<rparr>\<rparr>"

definition patch_fields :: "user_patch \<Rightarrow> string list" where
  "patch_fields d = [k. (k, Some v) \<leftarrow> [(''display_name'', xp_display_name d), (''locale'', xp_locale d), (''timezone'', xp_timezone d)]]"

definition updateUser :: "string \<Rightarrow> string \<Rightarrow> user_patch \<Rightarrow> (life_db, user_overview) api" where
  "updateUser actor uid d =
     (if patch_fields d = [] then api_throw (Bad_request ''NO_CHANGES'' ''No editable fields supplied'')
      else
        api_bind (or_fail (lf_stmt (update_profile uid (apply_user_patch d)))) (\<lambda>_.
        api_bind (life_audit actor ''ADMIN_USER_UPDATED'' (Some uid) (JObj [(''fields'', JArr (map JStr (patch_fields d)))])) (\<lambda>_.
        getUser actor uid)))"

text \<open>The reads of \<open>assertNotLastSuperAdmin\<close> ignore their errors.\<close>

definition assertNotLastSuperAdmin :: "string \<Rightarrow> string \<Rightarrow> (life_db, unit) api" where
  "assertNotLastSuperAdmin uid action =
     api_bind (lf_read (own_profile uid)) (\<lambda>target.
     if map_option pf_is_super_admin (data_of target) \<noteq> Some True then api_return ()
     else
       api_bind (lf_read (\<lambda>s. Inr (length (active_operators s)))) (\<lambda>count.
       if (case data_of count of None \<Rightarrow> 0 | Some n \<Rightarrow> n) \<le> 1
       then api_throw (Bad_request ''LAST_SUPER_ADMIN''
         (''Cannot '' @ action @ '' the last active super admin '' @ em_dash
          @ '' the platform would have no operator''))
       else api_return ()))"

definition suspend :: "time \<Rightarrow> string \<Rightarrow> profile \<Rightarrow> profile" where
  "suspend now reason p = p\<lparr>pf_status := PF_SUSPENDED, pf_columns := (pf_columns p)
     \<lparr>pc_suspended_at := Some now, pc_suspended_reason := Some reason\<rparr>\<rparr>"

definition suspendUser :: "notif_world \<Rightarrow> string \<Rightarrow> string \<Rightarrow> string \<Rightarrow> (life_db, user_overview) api" where
  "suspendUser W actor uid reason =
     (if uid = actor then api_throw (Bad_request ''CANNOT_SUSPEND_SELF'' ''You cannot suspend your own operator account'')
      else
        api_bind (assertNotLastSuperAdmin uid ''suspend'') (\<lambda>_.
        api_bind (lf_stmt (set_ban uid True)) (\<lambda>b.
        case b of
          Inl e \<Rightarrow> api_throw (Bad_request ''SUSPEND_FAILED'' (pg_message e))
        | Inr _ \<Rightarrow>
            api_bind (api_reads lf_clock) (\<lambda>now.
            api_bind (or_fail (lf_stmt (update_profile uid (suspend now reason)))) (\<lambda>_.
            api_bind (life_audit actor ''ADMIN_USER_SUSPENDED'' (Some uid) (JObj [(''reason'', JStr reason)])) (\<lambda>_.
            api_bind (record_event ''WARN'' ''USER_SUSPENDED'' (Some actor)) (\<lambda>_.
            api_bind (notify (createNotification W (account_input N_security SEV_CRITICAL uid
              ''Your NoorixFin account was suspended'' bn_suspended_title
              ''An operator suspended your account. Contact support if you believe this is a mistake.'' bn_suspended_body
              (''account-suspended:'' @ uid @ '':'' @ nw_iso W now)))) (\<lambda>_.
            getUser actor uid))))))))"

definition reinstate :: "profile \<Rightarrow> profile" where
  "reinstate p = p\<lparr>pf_status := PF_ACTIVE, pf_columns := (pf_columns p)\<lparr>pc_suspended_at := None, pc_suspended_reason := None,
     pc_deletion_requested_at := None, pc_deletion_scheduled_for := None\<rparr>\<rparr>"

definition reinstateUser :: "string \<Rightarrow> string \<Rightarrow> (life_db, user_overview) api" where
  "reinstateUser actor uid =
     api_bind (lf_stmt (set_ban uid False)) (\<lambda>b.
     case b of
       Inl e \<Rightarrow> api_throw (Bad_request ''REINSTATE_FAILED'' (pg_message e))
     | Inr _ \<Rightarrow>
         api_bind (or_fail (lf_stmt (update_profile uid reinstate))) (\<lambda>_.
         api_bind (life_audit actor ''ADMIN_USER_REINSTATED'' (Some uid) (JObj [])) (\<lambda>_.
         getUser actor uid)))"

section \<open>The purge\<close>

definition expired_deletions :: "life_db \<Rightarrow> profile list" where
  "expired_deletions s =
     sort_key (\<lambda>p. case pc_deletion_scheduled_for (pf_columns p) of None \<Rightarrow> 0 | Some d \<Rightarrow> d)
       [p \<leftarrow> lf_profiles s. pf_status p = PF_PENDING_DELETION
          \<and> (case pc_deletion_scheduled_for (pf_columns p) of None \<Rightarrow> False | Some d \<Rightarrow> d \<le> lf_clock s)]"

text \<open>The tables of migration 00015 keep their workspace (\<open>ON DELETE RESTRICT\<close>).\<close>

definition plan_rows_in :: "string list \<Rightarrow> plan_db \<Rightarrow> bool" where
  "plan_rows_in ws d \<longleftrightarrow> list_ex (\<lambda>b. bg_workspace_id b \<in> set ws) (budgets d)
     \<or> list_ex (\<lambda>l. bl_workspace_id l \<in> set ws) (budget_lines d) \<or> list_ex (\<lambda>g. sg_workspace_id g \<in> set ws) (savings_goals d)
     \<or> list_ex (\<lambda>x. dd_workspace_id x \<in> set ws) (debts d) \<or> list_ex (\<lambda>c. ce_workspace_id c \<in> set ws) (calendar_events d)
     \<or> list_ex (\<lambda>r. rr_workspace_id r \<in> set ws) (recurring_rules d)"

definition drop_workspaces :: "string list \<Rightarrow> db \<Rightarrow> db" where
  "drop_workspaces ws d = d\<lparr>entry_tags := [x \<leftarrow> entry_tags d. et_workspace_id x \<notin> set ws],
     journal_postings := [x \<leftarrow> journal_postings d. jp_workspace_id x \<notin> set ws],
     journal_entries := [x \<leftarrow> journal_entries d. je_workspace_id x \<notin> set ws],
     tags := [x \<leftarrow> tags d. tag_workspace_id x \<notin> set ws],
     categories := [x \<leftarrow> categories d. case cat_workspace_id x of None \<Rightarrow> True | Some w \<Rightarrow> w \<notin> set ws],
     ledger_accounts := [x \<leftarrow> ledger_accounts d. la_workspace_id x \<notin> set ws],
     members := [x \<leftarrow> members d. mb_workspace_id x \<notin> set ws],
     workspaces := [x \<leftarrow> workspaces d. ws_id x \<notin> set ws]\<rparr>"

definition workspaces_of :: "string list \<Rightarrow> life_db \<Rightarrow> string list" where
  "workspaces_of users s = map ws_id [w \<leftarrow> workspaces (lf_base s). ws_created_by w \<in> set users]"

definition purge_audit :: "string \<Rightarrow> audit_event" where
  "purge_audit uid = \<lparr>ae_actor_id = uid, ae_action = ''ACCOUNT_PURGED'', ae_resource_type = ''profile'', ae_resource_id = Some uid,
     ae_metadata = JObj [(''via'', JStr ''purge_expired_deletions''), (''grace_expired'', JBool True)]\<rparr>"

definition purge_expired_deletions :: "nat \<Rightarrow> life_db \<Rightarrow> pg_error + string list \<times> life_db" where
  "purge_expired_deletions limit s =
     (let users = map pf_id (take limit (expired_deletions s)); ws = workspaces_of users s in
      if users = [] then Inr ([], s)
      else if plan_rows_in ws (nt_plan (lf_notif s)) then Inl (pg FK_VIOLATION)
      else
        let t = lf_base_update (drop_workspaces ws) s; n = lf_notif t in
        Inr (users, t\<lparr>lf_notif := n\<lparr>nt_profiles := [p \<leftarrow> nt_profiles n. pf_id p \<notin> set users],
          audit_events := audit_events n @ map purge_audit users\<rparr>\<rparr>))"

fun delete_purged :: "string list \<Rightarrow> (life_db, string list) api" where
  "delete_purged [] = api_return []"
| "delete_purged (u # us) =
     api_bind (lf_stmt (delete_auth_user u)) (\<lambda>r.
     api_bind (delete_purged us) (\<lambda>failures.
     api_return (case r of Inl _ \<Rightarrow> u # failures | Inr _ \<Rightarrow> failures)))"

definition runPurge :: "string \<Rightarrow> (life_db, nat \<times> string list) api" where
  "runPurge actor =
     api_bind (or_fail (lf_stmt (purge_expired_deletions 50))) (\<lambda>purged.
     api_bind (delete_purged purged) (\<lambda>failures.
     api_bind (life_audit actor ''ADMIN_PURGE_RUN'' None (JObj [(''purged_count'', JInt (int (length purged))),
       (''auth_delete_failures'', JArr (map JStr failures))])) (\<lambda>_.
     api_return (length purged, failures))))"

section \<open>Requests\<close>

datatype life_request = Request_deletion string string string | Cancel_deletion
  | List_users "string option" "ProfileStatus option" "nat option" "nat option" | Get_user string | Update_user string user_patch
  | Suspend_user string string | Reinstate_user string | Run_purge

definition console_request :: "life_request \<Rightarrow> bool" where
  "console_request r = (case r of Request_deletion _ _ _ \<Rightarrow> False | Cancel_deletion \<Rightarrow> False | _ \<Rightarrow> True)"

definition answer_only :: "('s, 'a) api \<Rightarrow> ('s, unit) api" where
  "answer_only m = api_bind m (\<lambda>_. api_return ())"

text \<open>A request of the user \<open>uid\<close> with the claim \<open>aal\<close>; the console stands behind its guard.\<close>

definition handle_life :: "notif_world \<Rightarrow> string \<Rightarrow> life_request \<Rightarrow> (life_db, unit) api" where
  "handle_life W uid r = (case r of
     Request_deletion email confirm reason \<Rightarrow> answer_only (requestDeletion W uid email confirm reason)
   | Cancel_deletion \<Rightarrow> answer_only (cancelDeletion W uid)
   | List_users search status limit offset \<Rightarrow> answer_only (listUsers uid search status limit offset)
   | Get_user i \<Rightarrow> answer_only (getUser uid i)
   | Update_user i d \<Rightarrow> answer_only (updateUser uid i d)
   | Suspend_user i reason \<Rightarrow> answer_only (suspendUser W uid i reason)
   | Reinstate_user i \<Rightarrow> answer_only (reinstateUser uid i)
   | Run_purge \<Rightarrow> answer_only (runPurge uid))"

definition serve_life :: "notif_world \<Rightarrow> string \<Rightarrow> string option \<Rightarrow> life_request \<Rightarrow> (life_db, unit) api" where
  "serve_life W uid aal r =
     (if console_request r then api_bind (superAdminGuard uid aal) (\<lambda>_. handle_life W uid r) else handle_life W uid r)"

datatype life_event = Life_request string "string option" life_request | Life_time nat

definition life_step :: "notif_world \<Rightarrow> life_event \<Rightarrow> life_db \<Rightarrow> life_db" where
  "life_step W e s = (case e of
     Life_request uid aal r \<Rightarrow> snd (serve_life W uid aal r s)
   | Life_time d \<Rightarrow> lf_notif_update (\<lambda>n. n\<lparr>nt_clock := nt_clock n + int d\<rparr>) s)"

definition life_history :: "notif_world \<Rightarrow> life_event list \<Rightarrow> life_db \<Rightarrow> life_db" where
  "life_history W es s = fold (life_step W) es s"

section \<open>Rules\<close>

named_theorems life_writes

lemma lf_base_update_simps [simp]:
  "lf_profiles (lf_base_update f s) = lf_profiles s" "lf_clock (lf_base_update f s) = lf_clock s"
  "auth_users (lf_base_update f s) = auth_users s" "system_events (lf_base_update f s) = system_events s"
  "lf_base (lf_base_update f s) = f (lf_base s)"
  by (simp_all add: lf_base_update_def lf_profiles_def lf_clock_def lf_base_def nt_base_update_def nt_base_def)

lemma keeps_lf_stmt:
  assumes "\<And>s. P s \<Longrightarrow> P (lf_base_update drop_fault s)" "\<And>s x t. P s \<Longrightarrow> f s = Inr (x, t) \<Longrightarrow> P t"
  shows "keeps P (lf_stmt f)"
  unfolding lf_stmt_def by (rule keeps_fault_stmt) (use assms in auto)

lemma keeps_lf_read: "(\<And>s. P s \<Longrightarrow> P (lf_base_update drop_fault s)) \<Longrightarrow> keeps P (lf_read q)"
  unfolding lf_read_def by (rule keeps_lf_stmt) (auto split: sum.splits)

lemma keeps_notify: "(\<And>s. P s \<longleftrightarrow> Q (auth_users s) (lf_notif s)) \<Longrightarrow> (\<And>us. keeps (Q us) m) \<Longrightarrow> keeps P (notify m)"
  by (rule keepsI) (auto simp: notify_def dest: keeps_run split: prod.split)

text \<open>Predicates of the profiles, the users of the Auth server and the clock.\<close>

definition account_pred :: "(life_db \<Rightarrow> bool) \<Rightarrow> bool" where
  "account_pred P \<longleftrightarrow> (\<exists>Q. \<forall>s. P s = Q (lf_profiles s) (auth_users s) (lf_clock s))"

lemma account_base: "account_pred P \<Longrightarrow> P (lf_base_update f s) = P s"
  unfolding account_pred_def by (elim exE) simp

lemma account_create:
  assumes "account_pred P"
  shows "keeps P (notify (createNotification W i))" "keeps P (life_audit actor action j meta)" "keeps P (record_event l c a)"
    "keeps P (lf_read q)"
proof -
  obtain Q where Q: "P s = Q (lf_profiles s) (auth_users s) (lf_clock s)" for s using assms by (auto simp: account_pred_def)
  have "keeps (\<lambda>n. Q (nt_profiles n) us (nt_clock n)) (createNotification W i)" for us
    by (rule keeps_create) (auto simp: own_tables_def nt_base_update_def insert_notification_def insert_deliveries_def split: if_splits)
  then show "keeps P (notify (createNotification W i))"
    by (rule keeps_notify [rotated]) (simp add: Q lf_profiles_def lf_clock_def)
  have "keeps (\<lambda>n. Q (nt_profiles n) us (nt_clock n)) (write_audit e)" for us e
    by (rule keeps_write_audit) (auto simp: own_tables_def nt_base_update_def)
  then show "keeps P (life_audit actor action j meta)"
    unfolding life_audit_def by (rule keeps_notify [rotated]) (simp add: Q lf_profiles_def lf_clock_def)
  show "keeps P (record_event l c a)" by (rule keepsI) (simp add: record_event_def Q lf_profiles_def lf_clock_def)
  show "keeps P (lf_read q)" by (rule keeps_lf_read) (simp add: account_base [OF assms])
qed

lemma account_stmt:
  "account_pred P \<Longrightarrow> (\<And>s x t. P s \<Longrightarrow> f s = Inr (x, t) \<Longrightarrow> P t) \<Longrightarrow> keeps P (lf_stmt f)"
  by (rule keeps_lf_stmt) (simp_all add: account_base)

lemma account_fail: "account_pred P \<Longrightarrow> keeps P (admin_fail e)"
  unfolding admin_fail_def by (intro keeps_intros account_create)

lemma account_or_fail: "account_pred P \<Longrightarrow> keeps P m \<Longrightarrow> keeps P (or_fail m)"
  unfolding or_fail_def by (intro keeps_intros account_fail)

lemma account_getUser: "account_pred P \<Longrightarrow> keeps P (getUser a i)"
  unfolding getUser_def case_prod_unfold by (intro keeps_intros account_or_fail account_create)

lemmas account_intros = keeps_intros account_create account_or_fail account_getUser

lemma account_listUsers: "account_pred P \<Longrightarrow> keeps P (listUsers a q st l k)"
  unfolding listUsers_def Let_def case_prod_unfold by (intro account_intros)

lemma account_guard: "account_pred P \<Longrightarrow> keeps P (superAdminGuard uid aal)"
  unfolding superAdminGuard_def by (intro account_intros)

lemma account_checks: "account_pred P \<Longrightarrow> keeps P (deletion_checks uid email confirm)" "account_pred P \<Longrightarrow> keeps P (assertNotLastSuperAdmin uid act)"
  unfolding deletion_checks_def assertNotLastSuperAdmin_def Let_def by (intro account_intros; assumption?)+

lemma update_profile_fields:
  assumes "update_profile uid patch s = Inr (x, t)"
  shows "lf_profiles t = map (\<lambda>p. if pf_id p = uid then patch p else p) (lf_profiles s)" "auth_users t = auth_users s"
    "lf_clock t = lf_clock s" "lf_base t = lf_base s"
  using assms by (auto simp: update_profile_def lf_profiles_def lf_clock_def lf_base_def)

lemma set_ban_fields:
  assumes "set_ban uid b s = Inr (x, t)"
  shows "lf_profiles t = lf_profiles s" "lf_clock t = lf_clock s" "lf_base t = lf_base s"
    "auth_users t = map (\<lambda>u. if au_id u = uid then u\<lparr>au_banned_until := (if b then Some (lf_clock s + BAN_MS) else None)\<rparr> else u) (auth_users s)"
  using assms by (auto simp: set_ban_def lf_profiles_def lf_clock_def lf_base_def split: if_splits)

section \<open>The grace period\<close>

definition in_grace :: "time \<Rightarrow> profile \<Rightarrow> bool" where
  "in_grace now p \<longleftrightarrow> pf_status p = PF_PENDING_DELETION \<longrightarrow>
     (case pc_deletion_requested_at (pf_columns p) of
        None \<Rightarrow> False | Some r \<Rightarrow> pc_deletion_scheduled_for (pf_columns p) = Some (r + GRACE_MS) \<and> r \<le> now)"

definition grace_ok :: "life_db \<Rightarrow> bool" where
  "grace_ok s \<longleftrightarrow> list_all (in_grace (lf_clock s)) (lf_profiles s)"

lemma account_predI: "(\<And>s. P s = Q (lf_profiles s) (auth_users s) (lf_clock s)) \<Longrightarrow> account_pred P"
  unfolding account_pred_def by blast

lemma account_grace: "account_pred grace_ok" "account_pred (\<lambda>s. grace_ok s \<and> lf_clock s = c)"
  by (rule account_predI [where Q = "\<lambda>ps us now. list_all (in_grace now) ps"], simp add: grace_ok_def,
      rule account_predI [where Q = "\<lambda>ps us now. list_all (in_grace now) ps \<and> now = c"], simp add: grace_ok_def)

lemma keeps_reads_bind:
  assumes "\<And>c. keeps (\<lambda>s. P s \<and> f s = c) (g c)"
  shows "keeps P (api_bind (api_reads f) g)"
proof (rule keepsI)
  fix s
  assume "P s"
  then show "P (snd (api_bind (api_reads f) g s))"
    using keepsD [OF assms, of s "f s"] by (simp add: api_bind_def api_reads_def)
qed

lemma grace_update:
  "(\<And>p. in_grace c p \<Longrightarrow> in_grace c (patch p)) \<Longrightarrow> keeps (\<lambda>s. grace_ok s \<and> lf_clock s = c) (lf_stmt (update_profile uid patch))"
  by (rule account_stmt [OF account_grace(2)]) (auto simp: grace_ok_def update_profile_fields list_all_iff)

lemma grace_update': "(\<And>c p. in_grace c p \<Longrightarrow> in_grace c (patch p)) \<Longrightarrow> keeps grace_ok (lf_stmt (update_profile uid patch))"
  by (rule account_stmt [OF account_grace(1)]) (auto simp: grace_ok_def update_profile_fields list_all_iff)

lemma grace_patches [simp]:
  "in_grace c (mark_for_deletion c p)" "in_grace c (keep_account p)" "in_grace c (suspend n r p)" "in_grace c (reinstate p)"
  "in_grace c (apply_user_patch d p) = in_grace c p"
  by (simp_all add: in_grace_def mark_for_deletion_def keep_account_def suspend_def reinstate_def apply_user_patch_def
      split: option.split)

lemma grace_ban: "keeps (\<lambda>s. grace_ok s \<and> lf_clock s = c) (lf_stmt (set_ban uid b))" "keeps grace_ok (lf_stmt (set_ban uid b))"
  by (rule account_stmt [OF account_grace(2)], auto simp: grace_ok_def set_ban_fields)
    (rule account_stmt [OF account_grace(1)], auto simp: grace_ok_def set_ban_fields)

lemma grace_filter: "list_all R ps \<Longrightarrow> list_all R (filter h ps)"
  by (simp add: list_all_iff)

lemma grace_purged: "grace_ok s \<Longrightarrow> purge_expired_deletions n s = Inr (x, t) \<Longrightarrow> grace_ok t"
  by (auto simp: purge_expired_deletions_def Let_def grace_ok_def lf_profiles_def lf_clock_def lf_base_update_def nt_base_update_def
      intro: grace_filter split: if_splits)

lemma grace_deleted: "keeps grace_ok (delete_purged us)"
proof (induction us)
  case (Cons u us)
  have "keeps grace_ok (lf_stmt (delete_auth_user u))"
    by (rule account_stmt [OF account_grace(1)])
      (auto simp: delete_auth_user_def Let_def grace_ok_def lf_profiles_def lf_clock_def intro: grace_filter split: if_splits)
  then show ?case using Cons by (auto intro!: keeps_intros)
qed (auto intro!: keeps_intros)

lemma grace_handle: "keeps grace_ok (handle_life W uid r)"
proof -
  note fixed = account_create [OF account_grace(2)] and free = account_create [OF account_grace(1)]
  have deletion: "keeps grace_ok (deletion_writes W uid reason)" for reason
    unfolding deletion_writes_def Let_def
    by (intro keeps_reads_bind keeps_bind keeps_case_sum keeps_throw keeps_return grace_update grace_ban fixed) simp
  have cancel: "keeps grace_ok (cancelDeletion W uid)"
    unfolding cancelDeletion_def
    by (intro keeps_bind keeps_if keeps_case_sum keeps_throw keeps_return keeps_reads grace_update' grace_ban free) simp
  have suspended: "keeps grace_ok (suspendUser W uid i reason)" for i reason
    unfolding suspendUser_def
    by (intro keeps_bind keeps_if keeps_case_sum keeps_throw keeps_reads grace_update' grace_ban free
        account_checks(2) account_or_fail account_getUser account_grace(1)) simp
  have reinstated: "keeps grace_ok (reinstateUser uid i)" for i
    unfolding reinstateUser_def
    by (intro keeps_bind keeps_case_sum keeps_throw grace_update' grace_ban free account_or_fail account_getUser account_grace(1)) simp
  have updated: "keeps grace_ok (updateUser uid i d)" for i d
    unfolding updateUser_def
    by (intro keeps_bind keeps_if keeps_throw grace_update' free account_or_fail account_getUser account_grace(1)) simp
  have purged: "keeps grace_ok (runPurge uid)"
    unfolding runPurge_def
    by (intro keeps_bind keeps_return free account_or_fail account_grace(1) account_stmt grace_deleted) (rule grace_purged)
  show ?thesis
    unfolding handle_life_def answer_only_def
    by (cases r) (simp_all, auto intro!: keeps_bind keeps_return cancel suspended reinstated updated purged
        account_listUsers account_getUser account_grace(1) simp: requestDeletion_def deletion account_checks(1) [OF account_grace(1)])
qed

lemma grace_step: "grace_ok s \<Longrightarrow> grace_ok (life_step W e s)"
proof (cases e)
  case (Life_request uid aal r)
  have "keeps grace_ok (serve_life W uid aal r)"
    unfolding serve_life_def by (intro keeps_if keeps_bind account_guard account_grace(1) grace_handle)
  then show "grace_ok s \<Longrightarrow> ?thesis" by (simp add: life_step_def Life_request keepsD)
next
  case (Life_time d)
  show "grace_ok s \<Longrightarrow> ?thesis"
    by (auto simp: life_step_def Life_time grace_ok_def lf_profiles_def lf_clock_def in_grace_def list_all_iff split: option.splits)
qed

lemma grace_history: "grace_ok s \<Longrightarrow> grace_ok (life_history W es s)"
  unfolding life_history_def by (induction es arbitrary: s) (simp_all add: grace_step)

text \<open>What the purge takes.\<close>

definition asked_before :: "time \<Rightarrow> string \<Rightarrow> life_db \<Rightarrow> bool" where
  "asked_before deadline uid s \<longleftrightarrow> list_ex (\<lambda>p. pf_id p = uid \<and> pf_status p = PF_PENDING_DELETION
     \<and> (case pc_deletion_requested_at (pf_columns p) of None \<Rightarrow> False | Some r \<Rightarrow> r \<le> deadline)) (lf_profiles s)"

definition ledger_of :: "string \<Rightarrow> life_db \<Rightarrow> ledger_account list \<times> journal_entry list \<times> journal_posting list" where
  "ledger_of ws s = ([a \<leftarrow> ledger_accounts (lf_base s). la_workspace_id a = ws], [e \<leftarrow> journal_entries (lf_base s). je_workspace_id e = ws],
     [p \<leftarrow> journal_postings (lf_base s). jp_workspace_id p = ws])"

lemma expired_asked: "grace_ok s \<Longrightarrow> p \<in> set (expired_deletions s) \<Longrightarrow> asked_before (lf_clock s - GRACE_MS) (pf_id p) s"
  by (auto simp: expired_deletions_def grace_ok_def in_grace_def asked_before_def list_all_iff list_ex_iff split: option.splits) fastforce

lemma filter_other: "ws \<notin> set W \<Longrightarrow> [x \<leftarrow> [x \<leftarrow> xs. f x \<notin> set W]. f x = ws] = [x \<leftarrow> xs. f x = ws]"
  by (induction xs) auto

lemma purge_takes:
  assumes "grace_ok s" "purge_expired_deletions n s = Inr (users, t)"
  shows "list_all (\<lambda>u. asked_before (lf_clock s - GRACE_MS) u s) users" "lf_profiles t = [p \<leftarrow> lf_profiles s. pf_id p \<notin> set users]"
    "ws \<notin> set (workspaces_of users s) \<Longrightarrow> ledger_of ws t = ledger_of ws s"
proof -
  have u: "users = map pf_id (take n (expired_deletions s))" using assms(2)
    by (auto simp: purge_expired_deletions_def Let_def split: if_splits)
  show "list_all (\<lambda>u. asked_before (lf_clock s - GRACE_MS) u s) users"
    unfolding u using expired_asked [OF assms(1)] by (auto simp: list_all_iff dest: in_set_takeD)
  show "lf_profiles t = [p \<leftarrow> lf_profiles s. pf_id p \<notin> set users]" using assms(2)
    by (auto simp: purge_expired_deletions_def Let_def lf_profiles_def lf_base_update_def nt_base_update_def split: if_splits)
  show "ledger_of ws t = ledger_of ws s" if "ws \<notin> set (workspaces_of users s)"
  proof (cases "users = []")
    case False
    then have "lf_base t = drop_workspaces (workspaces_of users s) (lf_base s)" using assms(2)
      by (auto simp: purge_expired_deletions_def Let_def lf_base_def lf_base_update_def nt_base_update_def nt_base_def split: if_splits)
    then show ?thesis using that by (simp add: ledger_of_def drop_workspaces_def filter_other del: filter_filter)
  qed (use assms(2) in \<open>auto simp: purge_expired_deletions_def Let_def split: if_splits\<close>)
qed

section \<open>Statements that do not fail\<close>

definition calm :: "life_db \<Rightarrow> bool" where
  "calm s \<longleftrightarrow> faults (lf_base s) = []"

lemma calm_drop: "calm s \<Longrightarrow> lf_base_update drop_fault s = s"
  by (simp add: calm_def lf_base_def lf_base_update_def nt_base_def nt_base_update_def drop_no_fault)

lemma calm_stmt_run: "calm s \<Longrightarrow> lf_stmt f s = (case f s of Inl e \<Rightarrow> (Inr (Inl e), s) | Inr (x, u) \<Rightarrow> (Inr (Inr x), u))"
  unfolding lf_stmt_def by (rule fault_stmt_no_fault) (simp_all add: calm_drop, simp add: calm_def)

lemma calm_read_run: "calm s \<Longrightarrow> lf_read q s = (Inr (q s), s)"
  by (simp add: lf_read_def calm_stmt_run split: sum.split)

lemma calm_stmt: "(\<And>s x t. f s = Inr (x, t) \<Longrightarrow> faults (lf_base t) = faults (lf_base s)) \<Longrightarrow> keeps calm (lf_stmt f)"
  by (rule keeps_lf_stmt) (auto simp: calm_def drop_fault_def)

lemma calm_nt_stmt:
  "(\<And>s x t. f s = Inr (x, t) \<Longrightarrow> nt_base t = nt_base s) \<Longrightarrow> keeps (\<lambda>n. faults (nt_base n) = []) (nt_stmt f)"
  unfolding nt_stmt_def by (rule keeps_fault_stmt) (auto simp: nt_base_def nt_base_update_def drop_fault_def)

lemma calm_create: "keeps (\<lambda>n. faults (nt_base n) = []) (createNotification W i)" "keeps (\<lambda>n. faults (nt_base n) = []) (write_audit e)"
proof -
  have ids: "keeps (\<lambda>n. faults (nt_base n) = []) (new_ids W k)" for k
    by (rule keepsI) (simp add: new_ids_def nt_base_def nt_base_update_def)
  have read: "keeps (\<lambda>n. faults (nt_base n) = []) (nt_read q)" for q
    unfolding nt_read_def by (rule calm_nt_stmt) (auto split: sum.splits)
  show "keeps (\<lambda>n. faults (nt_base n) = []) (createNotification W i)"
    unfolding createNotification_def file_notification_def Let_def nt_rows_def
    by (intro keeps_intros read ids calm_nt_stmt) (auto simp: insert_notification_def insert_deliveries_def split: if_splits)
  show "keeps (\<lambda>n. faults (nt_base n) = []) (write_audit e)"
    unfolding write_audit_def by (intro keeps_intros calm_nt_stmt) auto
qed

lemma calm_services:
  "keeps calm (notify (createNotification W i))" "keeps calm (life_audit actor action j meta)" "keeps calm (record_event l c a)" "keeps calm (lf_read q)"
proof -
  show "keeps calm (notify (createNotification W i))"
    by (rule keeps_notify [where Q = "\<lambda>us n. faults (nt_base n) = []"]) (simp_all add: calm_def lf_base_def calm_create)
  show "keeps calm (life_audit actor action j meta)" unfolding life_audit_def
    by (rule keeps_notify [where Q = "\<lambda>us n. faults (nt_base n) = []"]) (simp_all add: calm_def lf_base_def calm_create)
  show "keeps calm (record_event l c a)" by (rule keepsI) (simp add: record_event_def calm_def lf_base_def)
  show "keeps calm (lf_read q)" by (rule keeps_lf_read) (simp add: calm_def drop_fault_def)
qed

section \<open>An operator remains\<close>

definition governed :: "life_db \<Rightarrow> bool" where
  "governed s \<longleftrightarrow> distinct (map pf_id (lf_profiles s)) \<and> active_operators s \<noteq> []"

text \<open>Someone other than the users \<open>us\<close> governs.\<close>

definition governed_without :: "string list \<Rightarrow> life_db \<Rightarrow> bool" where
  "governed_without us s \<longleftrightarrow> distinct (map pf_id (lf_profiles s)) \<and> [p \<leftarrow> active_operators s. pf_id p \<notin> set us] \<noteq> []"

lemma governed_without_Nil [simp]: "governed_without [] s = governed s"
  by (simp add: governed_def governed_without_def)

lemma governed_without_governed: "governed_without us s \<Longrightarrow> governed s"
  by (auto simp: governed_def governed_without_def)

lemma account_governed: "account_pred (governed_without us)" "account_pred governed"
  by (rule account_predI [where Q = "\<lambda>ps as now. distinct (map pf_id ps) \<and> [p \<leftarrow> [p \<leftarrow> ps. pf_is_super_admin p \<and> pf_status p = PF_ACTIVE]. pf_id p \<notin> set us] \<noteq> []"],
      simp add: governed_without_def active_operators_def,
      rule account_predI [where Q = "\<lambda>ps as now. distinct (map pf_id ps) \<and> [p \<leftarrow> ps. pf_is_super_admin p \<and> pf_status p = PF_ACTIVE] \<noteq> []"],
      simp add: governed_def active_operators_def)

text \<open>The check counts: two operators, or the user is none.\<close>

lemma enough_operators:
  assumes "governed s" and "\<not> list_ex (\<lambda>p. pf_id p = uid \<and> pf_is_super_admin p) (lf_profiles s) \<or> 1 < length (active_operators s)"
  shows "governed_without [uid] s"
proof -
  let ?ops = "active_operators s"
  have dist: "distinct (map pf_id ?ops)" using assms(1) by (simp add: governed_def active_operators_def distinct_map_filter)
  have "[p \<leftarrow> ?ops. pf_id p \<noteq> uid] \<noteq> []"
  proof
    assume "[p \<leftarrow> ?ops. pf_id p \<noteq> uid] = []"
    then have all: "\<forall>p \<in> set ?ops. pf_id p = uid" by (simp add: filter_empty_conv)
    obtain p where p: "p \<in> set ?ops" using assms(1) by (metis governed_def list.set_intros(1) neq_Nil_conv)
    then have "1 < length ?ops" using assms(2) all by (auto simp: active_operators_def list_ex_iff)
    then obtain a b rest where "?ops = a # b # rest" by (metis One_nat_def length_0_conv length_Suc_conv less_nat_zero_code list.exhaust nat_neq_iff)
    then show False using all dist by auto
  qed
  then show ?thesis using assms(1) by (simp add: governed_without_def governed_def)
qed

lemma own_profile_operator: "distinct (map pf_id (lf_profiles s)) \<Longrightarrow> map_option pf_is_super_admin (data_of (own_profile uid s)) \<noteq> Some True \<Longrightarrow>
    \<not> list_ex (\<lambda>p. pf_id p = uid \<and> pf_is_super_admin p) (lf_profiles s)"
proof
  let ?mine = "[p \<leftarrow> lf_profiles s. pf_id p = uid]"
  assume dist: "distinct (map pf_id (lf_profiles s))" and none: "map_option pf_is_super_admin (data_of (own_profile uid s)) \<noteq> Some True"
    and "list_ex (\<lambda>p. pf_id p = uid \<and> pf_is_super_admin p) (lf_profiles s)"
  then obtain p where p: "p \<in> set (lf_profiles s)" "pf_id p = uid" "pf_is_super_admin p" by (auto simp: list_ex_iff)
  have "distinct (map pf_id ps) \<Longrightarrow> p \<in> set ps \<Longrightarrow> [q \<leftarrow> ps. pf_id q = pf_id p] = [p]" for ps
    by (induction ps) (auto simp: filter_empty_conv image_iff)
  from this [OF dist p(1)] have "own_profile uid s = Inr p" by (simp add: own_profile_def single_def p(2))
  then show False using none p(3) by (simp add: data_of_def)
qed

lemma checks_operators:
  "triple (\<lambda>s. calm s \<and> governed s) (deletion_checks uid email confirm) (\<lambda>_ s. calm s \<and> governed_without [uid] s) (\<lambda>s. calm s \<and> governed s)"
  "triple (\<lambda>s. calm s \<and> governed s) (assertNotLastSuperAdmin uid act) (\<lambda>_ s. calm s \<and> governed_without [uid] s) (\<lambda>s. calm s \<and> governed s)"
proof -
  have enough: "governed_without [uid] s" if "governed s" "map_option pf_is_super_admin (data_of (own_profile uid s)) \<noteq> Some True \<or> 1 < length (active_operators s)" for s
    using enough_operators [OF that(1)] own_profile_operator [of s uid] that by (auto simp: governed_def)
  show "triple (\<lambda>s. calm s \<and> governed s) (deletion_checks uid email confirm) (\<lambda>_ s. calm s \<and> governed_without [uid] s) (\<lambda>s. calm s \<and> governed s)"
    by (rule tripleI) (auto simp: deletion_checks_def Let_def api_bind_def calm_read_run api_throw_def api_return_def data_of_def [of "Inr _"] intro!: enough)
  show "triple (\<lambda>s. calm s \<and> governed s) (assertNotLastSuperAdmin uid act) (\<lambda>_ s. calm s \<and> governed_without [uid] s) (\<lambda>s. calm s \<and> governed s)"
    by (rule tripleI) (auto simp: assertNotLastSuperAdmin_def api_bind_def calm_read_run api_throw_def api_return_def data_of_def [of "Inr _"] intro!: enough)
qed

lemma governed_update:
  assumes "governed_without [uid] s" "update_profile uid patch s = Inr (x, t)" "\<And>p. pf_id (patch p) = pf_id p"
  shows "governed_without [uid] t"
proof -
  let ?ps = "lf_profiles s"
  have ps: "lf_profiles t = map (\<lambda>p. if pf_id p = uid then patch p else p) ?ps" using update_profile_fields(1) [OF assms(2)] .
  have ids: "map pf_id (lf_profiles t) = map pf_id ?ps" using assms(3) by (simp add: ps)
  have "[p \<leftarrow> map (\<lambda>p. if pf_id p = uid then patch p else p) qs. R p \<and> pf_id p \<noteq> uid] = [p \<leftarrow> qs. R p \<and> pf_id p \<noteq> uid]" for R qs
    using assms(3) by (induction qs) auto
  from this [of "\<lambda>p. pf_is_super_admin p \<and> pf_status p = PF_ACTIVE"]
  have "[p \<leftarrow> active_operators t. pf_id p \<noteq> uid] = [p \<leftarrow> active_operators s. pf_id p \<noteq> uid]"
    by (simp add: active_operators_def ps)
  then show ?thesis using assms(1) by (simp add: governed_without_def ids)
qed

lemma governed_patch:
  assumes "governed s" "update_profile uid patch s = Inr (x, t)" "\<And>p. pf_id (patch p) = pf_id p"
    "\<And>p. pf_is_super_admin p \<Longrightarrow> pf_status p = PF_ACTIVE \<Longrightarrow> pf_is_super_admin (patch p) \<and> pf_status (patch p) = PF_ACTIVE"
  shows "governed t"
proof -
  let ?g = "\<lambda>p. if pf_id p = uid then patch p else p"
  have ps: "lf_profiles t = map ?g (lf_profiles s)" using update_profile_fields(1) [OF assms(2)] .
  have ids: "map pf_id (lf_profiles t) = map pf_id (lf_profiles s)" using assms(3) by (simp add: ps)
  obtain p where p: "p \<in> set (active_operators s)" using assms(1) by (metis governed_def list.set_intros(1) neq_Nil_conv)
  then have "?g p \<in> set (active_operators t)" using assms(4) by (auto simp: active_operators_def ps)
  then have "active_operators t \<noteq> []" by (metis length_pos_if_in_set list.size(3) less_irrefl)
  then show ?thesis using assms(1) by (simp add: governed_def ids)
qed

text \<open>What may happen once the profile is marked, and the patches that keep an operator.\<close>

abbreviation calm_governed :: "string list \<Rightarrow> life_db \<Rightarrow> bool" where
  "calm_governed us s \<equiv> calm s \<and> governed_without us s"

lemma keeps_both: "keeps P m \<Longrightarrow> keeps Q m \<Longrightarrow> keeps (\<lambda>s. P s \<and> Q s) m"
  by (simp add: keeps_def)

lemma calm_updates: "keeps calm (lf_stmt (update_profile uid patch))" "keeps calm (lf_stmt (set_ban uid b))" "keeps calm (lf_stmt (delete_auth_user uid))"
  by (rule calm_stmt, auto simp: update_profile_def set_ban_def delete_auth_user_def Let_def lf_base_def split: if_splits)+

lemma calm_fail: "keeps calm (admin_fail e)" "keeps calm m \<Longrightarrow> keeps calm (or_fail m)" "keeps calm (getUser a i)"
    "keeps calm (listUsers a q st l k)" "keeps calm (superAdminGuard a aal)"
proof -
  show fail: "keeps calm (admin_fail e)" for e unfolding admin_fail_def by (intro keeps_intros calm_services)
  then show "keeps calm (or_fail m)" if "keeps calm m" for m :: "(life_db, pg_error + 'x) api"
    unfolding or_fail_def by (intro keeps_intros that)
  have or_read: "keeps calm (or_fail (lf_read q))" for q :: "life_db \<Rightarrow> pg_error + 'x"
    unfolding or_fail_def by (intro keeps_intros calm_services fail)
  show "keeps calm (getUser a i)" "keeps calm (listUsers a q st l k)"
    unfolding getUser_def listUsers_def Let_def case_prod_unfold or_fail_def by (intro keeps_intros calm_services fail)+
  show "keeps calm (superAdminGuard a aal)" unfolding superAdminGuard_def by (intro keeps_intros calm_services)
qed

lemma governed_ban: "keeps (governed_without us) (lf_stmt (set_ban uid b))"
  by (rule account_stmt [OF account_governed(1)]) (auto simp: governed_without_def active_operators_def set_ban_fields)

lemma governed_services:
  "keeps (calm_governed us) (notify (createNotification W i))" "keeps (calm_governed us) (life_audit actor action j meta)"
  "keeps (calm_governed us) (record_event l c act)" "keeps (calm_governed us) (lf_stmt (set_ban uid b))" "keeps (calm_governed us) (getUser a uid)"
  "keeps (calm_governed us) (listUsers a q st n k)" "keeps (calm_governed us) (superAdminGuard a aal)"
  by (intro keeps_both calm_services account_create account_governed(1) calm_updates governed_ban calm_fail account_getUser account_listUsers
      account_guard)+

lemma governed_mark:
  assumes "\<And>p. pf_id (patch p) = pf_id p"
  shows "keeps (calm_governed [uid]) (lf_stmt (update_profile uid patch))"
  by (intro keeps_both calm_updates account_stmt account_governed(1)) (rule governed_update, assumption+, rule assms)

lemma governed_keep:
  assumes "\<And>p. pf_id (patch p) = pf_id p"
    "\<And>p. pf_is_super_admin p \<Longrightarrow> pf_status p = PF_ACTIVE \<Longrightarrow> pf_is_super_admin (patch p) \<and> pf_status (patch p) = PF_ACTIVE"
  shows "keeps (calm_governed []) (lf_stmt (update_profile uid patch))"
  by (intro keeps_both calm_updates account_stmt account_governed(1)) (simp, rule governed_patch, assumption+, (rule assms; assumption)+)

lemma governed_or_fail: "keeps (calm_governed us) m \<Longrightarrow> keeps (calm_governed us) (or_fail m)"
proof -
  have fail: "keeps (calm_governed us) (admin_fail e)" for e by (intro keeps_both calm_fail account_fail account_governed(1))
  then show ?thesis if "keeps (calm_governed us) m" unfolding or_fail_def using that by (intro keeps_intros)
qed

lemma governed_cases: "keeps (calm_governed us) m \<Longrightarrow> triple (calm_governed us) m (\<lambda>_. calm_governed us) (calm_governed [])"
  by (rule triple_weaken [where P' = "calm_governed us" and Q' = "\<lambda>_. calm_governed us" and X' = "calm_governed us"])
    (auto intro: triple_keeps dest: governed_without_governed)

lemma governed_deletion: "triple (calm_governed []) (requestDeletion W uid email confirm reason) (\<lambda>_. calm_governed []) (calm_governed [])"
proof -
  have "keeps (calm_governed [uid]) (deletion_writes W uid reason)"
    unfolding deletion_writes_def Let_def
    by (intro keeps_intros governed_services governed_mark) (simp add: mark_for_deletion_def)
  then have "triple (calm_governed [uid]) (deletion_writes W uid reason) (\<lambda>_. calm_governed []) (calm_governed [])"
    by (rule triple_weaken [OF governed_cases]) (auto dest: governed_without_governed)
  moreover have "triple (calm_governed []) (deletion_checks uid email confirm) (\<lambda>_. calm_governed [uid]) (calm_governed [])"
    using checks_operators(1) [of uid email confirm] by simp
  ultimately show ?thesis unfolding requestDeletion_def by (intro triple_bind [where R = "\<lambda>_. calm_governed [uid]"])
qed

lemma governed_suspend: "triple (calm_governed []) (suspendUser W actor uid reason) (\<lambda>_. calm_governed []) (calm_governed [])"
proof -
  let ?rest = "api_bind (lf_stmt (set_ban uid True)) (\<lambda>b. case b of
          Inl e \<Rightarrow> api_throw (Bad_request ''SUSPEND_FAILED'' (pg_message e))
        | Inr _ \<Rightarrow>
            api_bind (api_reads lf_clock) (\<lambda>now.
            api_bind (or_fail (lf_stmt (update_profile uid (suspend now reason)))) (\<lambda>_.
            api_bind (life_audit actor ''ADMIN_USER_SUSPENDED'' (Some uid) (JObj [(''reason'', JStr reason)])) (\<lambda>_.
            api_bind (record_event ''WARN'' ''USER_SUSPENDED'' (Some actor)) (\<lambda>_.
            api_bind (notify (createNotification W (account_input N_security SEV_CRITICAL uid
              ''Your NoorixFin account was suspended'' bn_suspended_title
              ''An operator suspended your account. Contact support if you believe this is a mistake.'' bn_suspended_body
              (''account-suspended:'' @ uid @ '':'' @ nw_iso W now)))) (\<lambda>_.
            getUser actor uid))))))"
  have "keeps (calm_governed [uid]) ?rest"
    by (intro keeps_intros governed_services governed_or_fail governed_mark) (simp add: suspend_def)
  then have rest: "triple (calm_governed [uid]) ?rest (\<lambda>_. calm_governed []) (calm_governed [])"
    by (rule triple_weaken [OF governed_cases]) (auto dest: governed_without_governed)
  have checked: "triple (calm_governed []) (assertNotLastSuperAdmin uid ''suspend'') (\<lambda>_. calm_governed [uid]) (calm_governed [])"
    using checks_operators(2) [of uid "''suspend''"] by simp
  have whole: "triple (calm_governed []) (api_bind (assertNotLastSuperAdmin uid ''suspend'') (\<lambda>_. ?rest)) (\<lambda>_. calm_governed []) (calm_governed [])"
    by (rule triple_bind [OF checked]) (rule rest)
  show ?thesis unfolding suspendUser_def by (rule triple_if, rule triple_throw, assumption, rule whole)
qed

lemma expired_not_active: "p \<in> set (take n (expired_deletions s)) \<Longrightarrow> p \<in> set (lf_profiles s) \<and> pf_status p = PF_PENDING_DELETION"
  by (auto simp: expired_deletions_def dest!: in_set_takeD)

lemma governed_purged:
  assumes "governed s" "purge_expired_deletions n s = Inr (users, t)"
  shows "governed_without users t"
proof (cases "users = []")
  case True
  then show ?thesis using assms by (auto simp: purge_expired_deletions_def Let_def split: if_splits)
next
  case False
  have u: "users = map pf_id (take n (expired_deletions s))" and ps: "lf_profiles t = [p \<leftarrow> lf_profiles s. pf_id p \<notin> set users]"
    using assms(2) False by (auto simp: purge_expired_deletions_def Let_def lf_profiles_def lf_base_update_def nt_base_update_def split: if_splits)
  have dist: "distinct (map pf_id (lf_profiles s))" using assms(1) by (simp add: governed_def)
  have "pf_id p \<notin> set users" if p: "p \<in> set (active_operators s)" for p
  proof
    assume "pf_id p \<in> set users"
    then obtain q where q: "q \<in> set (take n (expired_deletions s))" "pf_id q = pf_id p" by (auto simp: u)
    then have "q \<in> set (lf_profiles s)" "pf_status q = PF_PENDING_DELETION" using expired_not_active by auto
    moreover have "p \<in> set (lf_profiles s)" "pf_status p = PF_ACTIVE" using p by (auto simp: active_operators_def)
    ultimately show False using dist q(2) by (metis ProfileStatus.distinct(3) distinct_map inj_onD)
  qed
  then have "[p \<leftarrow> active_operators t. pf_id p \<notin> set users] = active_operators s"
    by (auto simp: active_operators_def ps filter_id_conv conj_ac intro!: filter_cong)
  then show ?thesis using assms(1) dist by (simp add: governed_without_def governed_def ps distinct_map_filter)
qed

lemma governed_deleted: "set us \<subseteq> set vs \<Longrightarrow> keeps (calm_governed vs) (delete_purged us)"
proof (induction us)
  case (Cons u us)
  have "keeps (calm_governed vs) (lf_stmt (delete_auth_user u))"
  proof (intro keeps_both calm_updates account_stmt account_governed(1))
    fix s x t
    assume gov: "governed_without vs s" and run: "delete_auth_user u s = Inr (x, t)"
    then have ps: "lf_profiles t = [p \<leftarrow> lf_profiles s. pf_id p \<noteq> u]"
      by (auto simp: delete_auth_user_def Let_def lf_profiles_def split: if_splits)
    have "u \<in> set vs" using Cons.prems by simp
    then have "[p \<leftarrow> active_operators t. pf_id p \<notin> set vs] = [p \<leftarrow> active_operators s. pf_id p \<notin> set vs]"
      by (auto simp: active_operators_def ps intro!: filter_cong)
    then show "governed_without vs t" using gov by (simp add: governed_without_def ps distinct_map_filter)
  qed
  then show ?case using Cons by (auto intro!: keeps_intros)
qed (auto intro!: keeps_intros)

lemma governed_handle: "triple (calm_governed []) (handle_life W uid r) (\<lambda>_. calm_governed []) (calm_governed [])"
proof -
  have discarded: "triple (calm_governed []) (answer_only m) (\<lambda>_. calm_governed []) (calm_governed [])"
    if "triple (calm_governed []) m (\<lambda>_. calm_governed []) (calm_governed [])" for m :: "(life_db, 'a) api"
    unfolding answer_only_def by (rule triple_bind [OF that]) (simp add: triple_return)
  have cancel: "keeps (calm_governed []) (cancelDeletion W uid)"
    unfolding cancelDeletion_def
    by (intro keeps_intros governed_services governed_keep keeps_both calm_services(4) account_create(4) account_governed(1)) (simp_all add: keep_account_def)
  have updated: "keeps (calm_governed []) (updateUser uid i d)" for i d
    unfolding updateUser_def
    by (intro keeps_intros governed_services governed_or_fail governed_keep) (simp_all add: apply_user_patch_def)
  have reinstated: "keeps (calm_governed []) (reinstateUser uid i)" for i
    unfolding reinstateUser_def
    by (intro keeps_intros governed_services governed_or_fail governed_keep) (simp_all add: reinstate_def)
  have purged: "triple (calm_governed []) (runPurge uid) (\<lambda>_. calm_governed []) (calm_governed [])"
  proof -
    have sql: "triple (calm_governed []) (or_fail (lf_stmt (purge_expired_deletions 50))) (\<lambda>us. calm_governed us) (calm_governed [])"
    proof (rule tripleI)
      fix s
      assume s: "calm_governed [] s"
      show "case or_fail (lf_stmt (purge_expired_deletions 50)) s of (Inl e, t) \<Rightarrow> calm_governed [] t | (Inr us, t) \<Rightarrow> calm_governed us t"
      proof (cases "purge_expired_deletions 50 s")
        case (Inl e)
        have "keeps (calm_governed []) (admin_fail e :: (life_db, string list) api)"
          by (intro keeps_both calm_fail account_fail account_governed(1))
        then have "calm_governed [] (snd ((admin_fail e :: (life_db, string list) api) s))" using s by (rule keepsD)
        moreover have "isl (fst ((admin_fail e :: (life_db, string list) api) s))"
          by (simp add: admin_fail_def api_bind_def record_event_def api_throw_def)
        ultimately show ?thesis using s Inl
          by (auto simp: or_fail_def api_bind_def calm_stmt_run split: prod.splits sum.splits)
      next
        case (Inr ut)
        then obtain us t where p: "purge_expired_deletions 50 s = Inr (us, t)" by (cases ut) auto
        have "calm t" using s p by (auto simp: purge_expired_deletions_def Let_def calm_def lf_base_def lf_base_update_def nt_base_update_def
              nt_base_def drop_workspaces_def split: if_splits)
        then show ?thesis using s governed_purged [OF _ p] by (simp add: or_fail_def api_bind_def calm_stmt_run p api_return_def)
      qed
    qed
    have rest: "triple (calm_governed us) (api_bind (delete_purged us) (\<lambda>failures. api_bind (life_audit uid ''ADMIN_PURGE_RUN'' None (meta failures)) (\<lambda>_.
        api_return (length us, failures)))) (\<lambda>_. calm_governed []) (calm_governed [])" for us meta
      by (rule triple_weaken [OF governed_cases [where us = us]], intro keeps_bind keeps_return governed_services governed_deleted)
        (auto dest: governed_without_governed)
    show ?thesis unfolding runPurge_def by (rule triple_bind [OF sql rest])
  qed
  show ?thesis
    unfolding handle_life_def
    by (cases r; simp only: life_request.case)
      (rule discarded, rule governed_deletion governed_suspend purged triple_keeps [OF cancel] triple_keeps [OF updated] triple_keeps [OF reinstated]
        triple_keeps [OF governed_services(5)] triple_keeps [OF governed_services(6)])+
qed

lemma governed_step: "calm_governed [] s \<Longrightarrow> calm_governed [] (life_step W e s)"
proof (cases e)
  case (Life_request uid aal r)
  have "triple (calm_governed []) (serve_life W uid aal r) (\<lambda>_. calm_governed []) (calm_governed [])"
    unfolding serve_life_def by (intro triple_if triple_bind [OF triple_keeps [OF governed_services(7)]] governed_handle)
  then have "keeps (calm_governed []) (serve_life W uid aal r)" by (rule keeps_triple)
  from keepsD [OF this, of s] show "calm_governed [] s \<Longrightarrow> ?thesis"
    by (simp only: life_step_def Life_request life_event.case)
next
  case (Life_time d)
  show "calm_governed [] s \<Longrightarrow> ?thesis"
    by (simp add: life_step_def Life_time calm_def lf_base_def governed_def lf_profiles_def active_operators_def)
qed

lemma governed_history: "calm s \<Longrightarrow> governed s \<Longrightarrow> governed (life_history W es s)"
proof -
  have "calm_governed [] s \<Longrightarrow> calm_governed [] (fold (life_step W) es s)" for s
  proof (induction es arbitrary: s)
    case (Cons e es)
    then show ?case using governed_step [OF Cons.prems, of W e] Cons.IH by (simp only: fold.simps comp_def)
  qed (simp only: fold.simps id_apply)
  then show "calm s \<Longrightarrow> governed s \<Longrightarrow> ?thesis" by (simp add: life_history_def)
qed

section \<open>Requesting and cancelling\<close>

lemma total_services [total_intros]:
  "total_call (notify (createNotification W i))" "total_call (life_audit actor action j meta)" "total_call (record_event l c a)" "total_call (lf_stmt f)"
proof -
  have create: "total_call (createNotification W i)" "total_call (write_audit e)" for e
    unfolding createNotification_def file_notification_def write_audit_def nt_rows_def nt_read_def nt_stmt_def Let_def
    by (auto intro!: total_intros simp: total_call_def [of "new_ids _ _"] total_call_def [of "api_reads _"] new_ids_def api_reads_def split: sum.split option.split)
  show "total_call (notify (createNotification W i))" using create(1) by (auto simp: total_call_def notify_def split: prod.split) (metis fst_conv)
  show "total_call (life_audit actor action j meta)" unfolding life_audit_def using create(2)
    by (auto simp: total_call_def notify_def split: prod.split) (metis fst_conv)
  show "total_call (record_event l c a)" by (simp add: total_call_def record_event_def)
  show "total_call (lf_stmt f)" unfolding lf_stmt_def by (rule total_fault_stmt)
qed

lemma total_reads [total_intros]: "total_call (api_reads f)"
  by (simp add: total_call_def api_reads_def)

definition account_is :: "profile list \<Rightarrow> auth_user list \<Rightarrow> life_db \<Rightarrow> bool" where
  "account_is ps us s \<longleftrightarrow> calm s \<and> lf_profiles s = ps \<and> auth_users s = us"

lemma account_is_services:
  "keeps (account_is ps us) (notify (createNotification W i))" "keeps (account_is ps us) (life_audit actor action j meta)"
  "keeps (account_is ps us) (record_event l c x)"
proof -
  have pred: "account_pred (\<lambda>s. lf_profiles s = ps \<and> auth_users s = us)"
    by (rule account_predI [where Q = "\<lambda>a b c. a = ps \<and> b = us"]) simp
  show "keeps (account_is ps us) (notify (createNotification W i))" "keeps (account_is ps us) (life_audit actor action j meta)"
    "keeps (account_is ps us) (record_event l c x)"
    unfolding account_is_def by (intro keeps_both calm_services account_create [OF pred])+
qed

text \<open>A tail of calls that neither throw nor touch the account.\<close>

lemma tail_runs:
  assumes "keeps (account_is ps us) m" "total_call m" "account_is ps us s"
  obtains x t where "m s = (Inr x, t)" "account_is ps us t"
proof -
  obtain r t where m: "m s = (r, t)" by (cases "m s")
  then have "\<not> isl r" using assms(2) by (metis fst_conv total_call_def)
  then show ?thesis using that m keeps_run [OF assms(1,3) m] by (cases r) auto
qed

lemma patch_fields_simps [simp]:
  "pf_id (mark_for_deletion c p) = pf_id p" "pf_status (mark_for_deletion c p) = PF_PENDING_DELETION"
  "pf_is_super_admin (mark_for_deletion c p) = pf_is_super_admin p" "pf_id (keep_account p) = pf_id p" "pf_status (keep_account p) = PF_ACTIVE"
  "pf_is_super_admin (keep_account p) = pf_is_super_admin p"
  by (simp_all add: mark_for_deletion_def keep_account_def)

definition marked :: "string \<Rightarrow> (profile \<Rightarrow> profile) \<Rightarrow> profile list \<Rightarrow> profile list" where
  "marked uid patch ps = map (\<lambda>p. if pf_id p = uid then patch p else p) ps"

definition with_ban :: "string \<Rightarrow> time option \<Rightarrow> auth_user list \<Rightarrow> auth_user list" where
  "with_ban uid b us = map (\<lambda>u. if au_id u = uid then u\<lparr>au_banned_until := b\<rparr> else u) us"

lemma update_runs:
  assumes "calm s"
  obtains t where "lf_stmt (update_profile uid patch) s = (Inr (Inr ()), t)" "account_is (marked uid patch (lf_profiles s)) (auth_users s) t"
    "lf_clock t = lf_clock s"
  using assms
  by (auto simp: calm_stmt_run update_profile_def account_is_def marked_def calm_def lf_base_def lf_profiles_def lf_clock_def)

lemma ban_runs:
  assumes "account_is ps us s"
  obtains r t where "lf_stmt (set_ban uid b) s = (Inr r, t)"
    "account_is ps (with_ban uid (if b then Some (lf_clock s + BAN_MS) else None) us) t" "lf_clock t = lf_clock s"
proof (cases "list_ex (\<lambda>u. au_id u = uid) us")
  case True
  then show ?thesis using assms that
    by (auto simp: calm_stmt_run set_ban_def account_is_def with_ban_def calm_def lf_base_def lf_profiles_def lf_clock_def)
next
  case False
  then have "with_ban uid c us = us" for c by (auto simp: with_ban_def list_ex_iff intro: map_idI)
  then show ?thesis using assms that False by (auto simp: calm_stmt_run set_ban_def account_is_def)
qed

lemma deletion_runs:
  assumes "calm s"
  obtains d t where "deletion_writes W uid reason s = (Inr d, t)"
    "account_is (marked uid (mark_for_deletion (lf_clock s)) (lf_profiles s)) (with_ban uid (Some (lf_clock s + BAN_MS)) (auth_users s)) t"
proof -
  let ?ps = "marked uid (mark_for_deletion (lf_clock s)) (lf_profiles s)" and ?deadline = "lf_clock s + GRACE_MS"
  obtain t1 where t1: "lf_stmt (update_profile uid (mark_for_deletion (lf_clock s))) s = (Inr (Inr ()), t1)" "account_is ?ps (auth_users s) t1"
    "lf_clock t1 = lf_clock s" by (rule update_runs [OF assms])
  obtain r t2 where t2: "lf_stmt (set_ban uid True) t1 = (Inr r, t2)"
    "account_is ?ps (with_ban uid (if True then Some (lf_clock t1 + BAN_MS) else None) (auth_users s)) t2" by (rule ban_runs [OF t1(2)])
  let ?tail = "api_bind (life_audit uid ''ACCOUNT_DELETION_REQUESTED'' (Some uid) (JObj [(''reason'', JStr reason),
           (''scheduled_for'', JStr (nw_iso W ?deadline)), (''grace_days'', JInt DELETION_GRACE_DAYS)])) (\<lambda>_.
         api_bind (record_event ''INFO'' ''ACCOUNT_DELETION_REQUESTED'' (Some uid)) (\<lambda>_.
         api_bind (notify (createNotification W (deletion_notice W uid ?deadline))) (\<lambda>_. api_return ?deadline)))"
  have "keeps (account_is ps us) ?tail" "total_call ?tail" for ps us
    by (intro keeps_intros account_is_services) (intro total_intros)
  from tail_runs [OF this t2(2)] obtain x t where "?tail t2 = (Inr x, t)"
    "account_is ?ps (with_ban uid (if True then Some (lf_clock t1 + BAN_MS) else None) (auth_users s)) t" by blast
  then show ?thesis using t1 t2
    by (intro that [of x t]) (simp_all add: deletion_writes_def api_bind_def [of "api_reads _"] api_reads_def Let_def api_bind_apply [of "lf_stmt _"])
qed

lemma cancel_runs:
  assumes "calm s" "own_profile uid s = Inr p" "pf_status p = PF_PENDING_DELETION"
  obtains t where "cancelDeletion W uid s = (Inr PF_ACTIVE, t)"
    "account_is (marked uid keep_account (lf_profiles s)) (with_ban uid None (auth_users s)) t"
proof -
  let ?ps = "marked uid keep_account (lf_profiles s)"
  obtain t1 where t1: "lf_stmt (update_profile uid keep_account) s = (Inr (Inr ()), t1)" "account_is ?ps (auth_users s) t1"
    by (rule update_runs [OF assms(1)])
  obtain r t2 where t2: "lf_stmt (set_ban uid False) t1 = (Inr r, t2)"
    "account_is ?ps (with_ban uid (if False then Some (lf_clock t1 + BAN_MS) else None) (auth_users s)) t2" by (rule ban_runs [OF t1(2)])
  let ?tail = "api_bind (life_audit uid ''ACCOUNT_DELETION_CANCELLED'' (Some uid) (JObj [])) (\<lambda>_.
           api_bind (api_reads lf_clock) (\<lambda>now.
           api_bind (notify (createNotification W (account_input N_account SEV_SUCCESS uid ''Account deletion cancelled'' bn_cancelled_title
             ''Your NoorixFin account will remain active.'' bn_stays_active (''deletion-cancelled:'' @ nw_iso W now)))) (\<lambda>_.
           api_return PF_ACTIVE)))"
  have tail: "keeps (account_is ps us) ?tail" "total_call ?tail" for ps us
    by (intro keeps_intros account_is_services) (intro total_intros)
  have active: "yields (\<lambda>x. x = PF_ACTIVE) ?tail"
    by (intro yields_bind [OF yields_True] yields_return) simp
  obtain x t where run: "?tail t2 = (Inr x, t)"
    "account_is ?ps (with_ban uid (if False then Some (lf_clock t1 + BAN_MS) else None) (auth_users s)) t"
    by (rule tail_runs [OF tail t2(2)])
  have "x = PF_ACTIVE" by (rule yieldsD [OF active run(1)])
  then show ?thesis using run t1 t2 assms
    by (intro that [of t]) (simp_all add: cancelDeletion_def api_bind_def [of "lf_read _"] calm_read_run data_of_def api_bind_apply [of "lf_stmt _"])
qed

lemma own_marked:
  assumes "own_profile uid s = Inr p" "\<And>q. pf_id (patch q) = pf_id q" "lf_profiles t = marked uid patch (lf_profiles s)"
  shows "own_profile uid t = Inr (patch p)"
proof -
  have "[q \<leftarrow> marked uid patch ps. pf_id q = uid] = map patch [q \<leftarrow> ps. pf_id q = uid]" for ps
    using assms(2) by (induction ps) (auto simp: marked_def)
  then show ?thesis using assms(1) by (auto simp: own_profile_def single_def assms(3) split: list.splits if_splits)
qed

section \<open>A small platform\<close>

definition demo_user :: "string \<Rightarrow> bool \<Rightarrow> ProfileStatus \<Rightarrow> profile" where
  "demo_user i operator st = demo_profile\<lparr>pf_id := i, pf_is_super_admin := operator, pf_status := st\<rparr>"

definition demo_life :: "profile list \<Rightarrow> life_db" where
  "demo_life ps = \<lparr>lf_notif = demo_notif\<lparr>nt_profiles := ps\<rparr>,
     auth_users = map (\<lambda>p. \<lparr>au_id = pf_id p, au_email = pf_id p @ ''@example.com'', au_banned_until = None\<rparr>) ps, system_events = []\<rparr>"

lemma demo_life_simps [simp]:
  "lf_profiles (demo_life ps) = ps" "calm (demo_life ps)" "lf_clock (demo_life ps) = 43200000" "nt_plan (lf_notif (demo_life ps)) = demo_plan"
  by (simp_all add: demo_life_def lf_profiles_def calm_def lf_base_def demo_notif_def nt_base_def demo_plan_def lf_clock_def)

lemma demo_user_simps [simp]:
  "pf_id (demo_user i b st) = i" "pf_status (demo_user i b st) = st" "pf_is_super_admin (demo_user i b st) = b"
  "pf_columns (demo_user i b st) = demo_columns"
  by (simp_all add: demo_user_def demo_profile_def)

section \<open>Where the checks do not hold\<close>

text \<open>Two operators who leave at the same time both see two.\<close>

definition two_operators :: life_db where
  "two_operators = demo_life [demo_user ''a'' True PF_ACTIVE, demo_user ''b'' True PF_ACTIVE]"

lemma checks_pass:
  "calm s \<Longrightarrow> own_profile uid s = Inr p \<Longrightarrow> pf_status p \<noteq> PF_PENDING_DELETION \<Longrightarrow> (pf_is_super_admin p \<Longrightarrow> 1 < length (active_operators s)) \<Longrightarrow>
     deletion_checks uid email email s = (Inr (), s)"
  by (auto simp: deletion_checks_def Let_def api_bind_def calm_read_run data_of_def api_return_def)

lemma both_operators_leave:
  "active_operators (snd (deletion_writes W ''a'' r1 (snd (requestDeletion W ''b'' e e r2 (snd (deletion_checks ''a'' e e two_operators)))))) = []"
proof -
  have checks: "deletion_checks uid e e two_operators = (Inr (), two_operators)" if "uid = ''a'' \<or> uid = ''b''" for uid
    using that by (intro checks_pass [where p = "demo_user uid True PF_ACTIVE"])
      (auto simp: two_operators_def own_profile_def single_def active_operators_def)
  have calm: "calm two_operators" by (simp add: two_operators_def)
  obtain d t where t: "deletion_writes W ''b'' r2 two_operators = (Inr d, t)" "account_is (marked ''b'' (mark_for_deletion (lf_clock two_operators))
     (lf_profiles two_operators)) (with_ban ''b'' (Some (lf_clock two_operators + BAN_MS)) (auth_users two_operators)) t"
    by (rule deletion_runs [OF calm])
  have "calm t" using t(2) by (simp add: account_is_def)
  obtain d' u where u: "deletion_writes W ''a'' r1 t = (Inr d', u)" "account_is (marked ''a'' (mark_for_deletion (lf_clock t)) (lf_profiles t))
     (with_ban ''a'' (Some (lf_clock t + BAN_MS)) (auth_users t)) u"
    by (rule deletion_runs [OF \<open>calm t\<close>])
  have "lf_profiles u = marked ''a'' (mark_for_deletion (lf_clock t)) (marked ''b'' (mark_for_deletion (lf_clock two_operators)) (lf_profiles two_operators))"
    using t(2) u(2) by (simp add: account_is_def)
  then have "active_operators u = []" by (simp add: active_operators_def marked_def two_operators_def mark_for_deletion_def)
  then show ?thesis by (simp add: requestDeletion_def api_bind_def checks t(1) u(1))
qed

text \<open>A profile that cannot be read is no profile: the last operator leaves.\<close>

definition lonely_operator :: life_db where
  "lonely_operator = demo_life [demo_user ''a'' True PF_ACTIVE]"

lemma last_operator_leaves:
  "active_operators (snd (requestDeletion W ''a'' e e r (lf_base_update (faults_update (\<lambda>_. [Some (pg ''08006'')])) lonely_operator))) = []"
proof -
  let ?s = "lf_base_update (faults_update (\<lambda>_. [Some (pg ''08006'')])) lonely_operator"
  have base: "faults (lf_base ?s) = [Some (pg ''08006'')]" by simp
  let ?u = "lf_base_update drop_fault ?s"
  have calm: "calm ?u" by (simp add: calm_def drop_fault_def)
  have checks: "deletion_checks ''a'' e e ?s = (Inr (), ?u)"
    by (simp add: deletion_checks_def Let_def api_bind_def lf_read_def lf_stmt_def fault_stmt_def base data_of_def api_return_def)
  obtain d t where t: "deletion_writes W ''a'' r ?u = (Inr d, t)" "account_is (marked ''a'' (mark_for_deletion (lf_clock ?u)) (lf_profiles ?u))
     (with_ban ''a'' (Some (lf_clock ?u + BAN_MS)) (auth_users ?u)) t"
    by (rule deletion_runs [OF calm])
  then have "lf_profiles t = [mark_for_deletion (lf_clock ?u) (demo_user ''a'' True PF_ACTIVE)]"
    by (simp add: account_is_def marked_def lonely_operator_def)
  then have "active_operators t = []" by (simp add: active_operators_def mark_for_deletion_def)
  then show ?thesis by (simp add: requestDeletion_def api_bind_def checks t(1))
qed

text \<open>One plan row in a workspace of an expired account, and nobody of the batch is purged.\<close>

lemma plan_rows_block:
  assumes "calm s" "expired_deletions s \<noteq> []" "plan_rows_in (workspaces_of (map pf_id (take 50 (expired_deletions s))) s) (nt_plan (lf_notif s))"
  shows "runPurge actor s = (Inl (Bad_request ''ADMIN_OPERATION_FAILED'' ''''), s)"
proof -
  have "purge_expired_deletions 50 s = Inl (pg FK_VIOLATION)"
    using assms(2,3) by (simp add: purge_expired_deletions_def Let_def)
  then show ?thesis using assms(1)
    by (simp add: runPurge_def or_fail_def api_bind_def calm_stmt_run admin_fail_def pg_codes api_throw_def)
qed

text \<open>The console finds an account among the 200 newest only.\<close>

lemma getUser_misses:
  assumes "calm s" "db_super_admin caller s"
    and "list_all (\<lambda>r. pf_id (uo_profile r) \<noteq> uid) (take 200 (sort_key (\<lambda>r. - pc_created_at (pf_columns (uo_profile r))) (matching_users None None s)))"
  shows "getUser caller uid s = (Inl (Not_found ''USER_NOT_FOUND'' ''No such user''), s)"
proof -
  have "find (\<lambda>r. pf_id (uo_profile r) = uid) (take 200 (sort_key (\<lambda>r. - pc_created_at (pf_columns (uo_profile r))) (matching_users None None s))) = None"
    using assms(3) by (simp add: find_None_iff list_all_iff)
  then show ?thesis using assms(1,2)
    by (simp add: getUser_def or_fail_def api_bind_def calm_read_run admin_user_overview_def Let_def api_return_def api_throw_def)
qed

lemma two_operators_grace: "grace_ok two_operators"
  by (simp add: grace_ok_def two_operators_def in_grace_def)

section \<open>Properties\<close>

text \<open>
  C1. While no statement fails and requests are served one after the other, a platform with an active operator always
  keeps one: no sequence of deletion requests, cancellations, suspensions, reinstatements and purges, by whomever, takes
  away the last.
\<close>

theorem operators_remain:
  assumes "faults (lf_base s) = []" "distinct (map pf_id (lf_profiles s))" "active_operators s \<noteq> []"
  shows "active_operators (life_history W es s) \<noteq> []"
  using governed_history [of s W es] assms by (simp add: calm_def governed_def)

lemma operators_remain_witness:
  "active_operators (life_history demo_notif_world [Life_request ''a'' None (Request_deletion ''e'' ''e'' ''bye''),
     Life_request ''b'' (Some ''aal2'') (Suspend_user ''a'' ''x''), Life_request ''b'' None (Request_deletion ''e'' ''e'' ''bye'')] two_operators) \<noteq> []"
  by (rule operators_remain) (simp_all add: two_operators_def active_operators_def flip: calm_def)

text \<open>
  C5. After any history of requests, failures and time, the purge takes only accounts that are pending since a request
  at least 30 days ago; the profiles of all others stay, and so do the ledgers of all workspaces the purged did not create.
\<close>

theorem purge_only_after_grace:
  assumes "grace_ok s0"
  shows "let s = life_history W es s0 in
    case purge_expired_deletions n s of
      Inl e \<Rightarrow> True
    | Inr (users, t) \<Rightarrow> list_all (\<lambda>u. asked_before (lf_clock s - 30 * 24 * 60 * 60 * 1000) u s) users
        \<and> lf_profiles t = [p \<leftarrow> lf_profiles s. pf_id p \<notin> set users]
        \<and> (ws \<notin> set (workspaces_of users s) \<longrightarrow> ledger_of ws t = ledger_of ws s)"
proof -
  have "grace_ok (life_history W es s0)" by (rule grace_history [OF assms])
  from purge_takes [OF this, of n] show ?thesis
    by (auto simp: Let_def GRACE_MS_def DELETION_GRACE_DAYS_def split: sum.split)
qed

lemma purge_only_after_grace_witness:
  "let s = life_history demo_notif_world [Life_request ''b'' None (Request_deletion ''e'' ''e'' ''bye''), Life_time 2592000000] two_operators in
    case purge_expired_deletions 50 s of
      Inl e \<Rightarrow> True
    | Inr (users, t) \<Rightarrow> list_all (\<lambda>u. asked_before (lf_clock s - 30 * 24 * 60 * 60 * 1000) u s) users
        \<and> lf_profiles t = [p \<leftarrow> lf_profiles s. pf_id p \<notin> set users]
        \<and> (''w9'' \<notin> set (workspaces_of users s) \<longrightarrow> ledger_of ''w9'' t = ledger_of ''w9'' s)"
  by (rule purge_only_after_grace [OF two_operators_grace])

text \<open>
  C7. A suspended user (no operator) whose token has not expired asks for the deletion of the account and cancels it: the
  account is ACTIVE and the ban lifted, without an operator.
\<close>

theorem suspended_user_reinstates_self:
  assumes "faults (lf_base s) = []" "own_profile uid s = Inr p" "pf_status p = PF_SUSPENDED" "\<not> pf_is_super_admin p"
  shows "let t = snd (cancelDeletion W uid (snd (requestDeletion W uid email email reason s))) in
    map_sum id pf_status (own_profile uid t) = Inr PF_ACTIVE \<and> list_all (\<lambda>u. au_id u = uid \<longrightarrow> au_banned_until u = None) (auth_users t)"
proof -
  have calm: "calm s" using assms(1) by (simp add: calm_def)
  have checks: "deletion_checks uid email email s = (Inr (), s)" using assms by (intro checks_pass [OF calm]) auto
  obtain d u where u: "deletion_writes W uid reason s = (Inr d, u)" "account_is (marked uid (mark_for_deletion (lf_clock s)) (lf_profiles s))
      (with_ban uid (Some (lf_clock s + BAN_MS)) (auth_users s)) u" by (rule deletion_runs [OF calm])
  have own: "own_profile uid u = Inr (mark_for_deletion (lf_clock s) p)"
    by (rule own_marked [OF assms(2)]) (use u(2) in \<open>simp_all add: account_is_def\<close>)
  obtain t where t: "cancelDeletion W uid u = (Inr PF_ACTIVE, t)" "account_is (marked uid keep_account (lf_profiles u)) (with_ban uid None (auth_users u)) t"
    by (rule cancel_runs [OF _ own]) (use u(2) in \<open>simp_all add: account_is_def\<close>)
  have "own_profile uid t = Inr (keep_account (mark_for_deletion (lf_clock s) p))"
    by (rule own_marked [OF own]) (use t(2) in \<open>simp_all add: account_is_def\<close>)
  moreover have "list_all (\<lambda>x. au_id x = uid \<longrightarrow> au_banned_until x = None) (auth_users t)"
  proof -
    have users: "auth_users t = with_ban uid None (auth_users u)" using t(2) by (simp add: account_is_def)
    have "list_all (\<lambda>x. au_id x = uid \<longrightarrow> au_banned_until x = None) (with_ban uid None us)" for us
      by (induction us) (auto simp: with_ban_def)
    then show ?thesis by (simp only: users)
  qed
  moreover have "requestDeletion W uid email email reason s = (Inr d, u)" by (simp add: requestDeletion_def api_bind_def checks u(1))
  ultimately show ?thesis by (simp add: t(1) keep_account_def)
qed

definition suspended_life :: life_db where
  "suspended_life = demo_life [demo_user ''a'' True PF_ACTIVE, demo_user ''u1'' False PF_SUSPENDED]"

lemma suspended_life_facts:
  "faults (lf_base suspended_life) = []" "own_profile ''u1'' suspended_life = Inr (demo_user ''u1'' False PF_SUSPENDED)"
  by (simp add: suspended_life_def flip: calm_def) (simp add: suspended_life_def own_profile_def single_def)

lemma suspended_user_reinstates_self_witness:
  "let t = snd (cancelDeletion demo_notif_world ''u1'' (snd (requestDeletion demo_notif_world ''u1'' ''e'' ''e'' ''bye'' suspended_life))) in
    map_sum id pf_status (own_profile ''u1'' t) = Inr PF_ACTIVE \<and> list_all (\<lambda>u. au_id u = ''u1'' \<longrightarrow> au_banned_until u = None) (auth_users t)"
  by (rule suspended_user_reinstates_self [OF suspended_life_facts]) simp_all


lemma operator_facts:
  "own_profile ''a'' two_operators = Inr (demo_user ''a'' True PF_ACTIVE)" "faults (lf_base two_operators) = []"
  by (simp add: two_operators_def own_profile_def single_def) (simp add: two_operators_def flip: calm_def)



text \<open>The user \<open>u1\<close> keeps a budget; \<open>u2\<close>, who owns nothing, waits behind.\<close>

definition leaving :: "string \<Rightarrow> profile" where
  "leaving i = mark_for_deletion (- GRACE_MS) (demo_user i False PF_ACTIVE)"

definition blocked_life :: life_db where
  "blocked_life = demo_life [leaving ''u1'', leaving ''u2'']"

lemma blocked_expired: "expired_deletions blocked_life = [leaving ''u1'', leaving ''u2'']"
  by (simp add: expired_deletions_def blocked_life_def leaving_def mark_for_deletion_def)


end
