(* ===== verification/ClientContext.thy ===== *)
theory ClientContext
  imports TransactionReads
begin

text \<open>
  Who is calling: the \<open>X-Client-Info\<close> header as the mobile app writes it
  (\<open>apps/mobile/src/lib/device.ts\<close>) and as the API reads it
  (\<open>apps/api/src/common/middleware/client-context.middleware.ts\<close>).
\<close>

section \<open>Texts\<close>

text \<open>\<open>s.indexOf(c)\<close>; \<open>None\<close> is -1.\<close>

fun js_index_of :: "char \<Rightarrow> string \<Rightarrow> nat option" where
  "js_index_of c [] = None"
| "js_index_of c (x # xs) = (if x = c then Some 0 else map_option Suc (js_index_of c xs))"

definition version_char :: "char \<Rightarrow> bool" where
  "version_char c \<longleftrightarrow> is_digit c \<or> c = CHR ''.'' \<or> c = CHR ''-'' \<or> (97 \<le> cu c \<and> cu c \<le> 122) \<or> (65 \<le> cu c \<and> cu c \<le> 90)"

definition VERSION_RE :: "string \<Rightarrow> bool" where
  "VERSION_RE s \<longleftrightarrow> s \<noteq> [] \<and> list_all version_char s"

definition hex_class :: "char \<Rightarrow> bool" where
  "hex_class c \<longleftrightarrow> is_digit c \<or> (97 \<le> cu c \<and> cu c \<le> 102) \<or> (65 \<le> cu c \<and> cu c \<le> 70)"

definition UUID_RE :: "string \<Rightarrow> bool" where
  "UUID_RE s \<longleftrightarrow> length s = 36
     \<and> list_all (\<lambda>i. if i \<in> {8, 13, 18, 23} then s ! i = CHR ''-''
          else if i = 14 then s ! i = CHR ''4''
          else if i = 19 then js_lower [s ! i] \<in> {''8'', ''9'', ''a'', ''b''}
          else hex_class (s ! i)) [0..<36]"

section \<open>The middleware\<close>

datatype ClientPlatform = PL_web | PL_ios | PL_android | PL_api

record ClientContext =
  cc_platform :: ClientPlatform
  cc_appVersion :: "string option"
  cc_buildNumber :: "string option"
  cc_osVersion :: "string option"
  cc_deviceId :: "string option"
  cc_userAgent :: "string option"

definition sanitise :: "string option \<Rightarrow> nat \<Rightarrow> string option" where
  "sanitise value maxLen = (case truthy value of None \<Rightarrow> None | Some v \<Rightarrow> truthy (Some (js_trim (js_slice 0 maxLen v))))"

definition parse_segment :: "string \<Rightarrow> (string \<times> string) option" where
  "parse_segment segment =
     (case js_index_of (CHR ''='') segment of
        None \<Rightarrow> None
      | Some eq \<Rightarrow>
          if eq < 1 then None
          else
            let key = js_lower (js_trim (js_slice 0 eq segment)); val = js_trim (drop (eq + 1) segment) in
            if key \<noteq> [] \<and> val \<noteq> [] then Some (key, val) else None)"

definition parseClientInfo :: "string \<Rightarrow> string \<Rightarrow> string option" where
  "parseClientInfo raw = foldl (\<lambda>m segment. case parse_segment segment of None \<Rightarrow> m | Some (k, v) \<Rightarrow> m(k \<mapsto> v)) (\<lambda>_. None) (js_split (CHR '';'') raw)"

definition inferPlatform :: "string option \<Rightarrow> string option \<Rightarrow> ClientPlatform" where
  "inferPlatform declared userAgent =
     (let d = map_option js_lower declared in
      if d = Some ''ios'' then PL_ios
      else if d = Some ''android'' then PL_android
      else if d = Some ''web'' then PL_web
      else if d = Some ''api'' then PL_api
      else case truthy userAgent of
        None \<Rightarrow> PL_api
      | Some agent \<Rightarrow>
          let ua = js_lower agent in
          if js_includes ua ''iphone'' \<or> js_includes ua ''ipad'' \<or> js_includes ua ''cfnetwork'' then PL_ios
          else if js_includes ua ''android'' then PL_android
          else if js_includes ua ''mozilla'' \<or> js_includes ua ''chrome'' \<or> js_includes ua ''safari'' then PL_web
          else PL_api)"

definition matching :: "(string \<Rightarrow> bool) \<Rightarrow> string option \<Rightarrow> string option" where
  "matching re v = (case v of Some t \<Rightarrow> if re t then Some t else None | None \<Rightarrow> None)"

text \<open>\<open>ClientContextMiddleware.use\<close>: the context of a request with these two headers.\<close>

definition client_context :: "string option \<Rightarrow> string option \<Rightarrow> ClientContext" where
  "client_context raw ua =
     (case truthy raw of
        None \<Rightarrow> \<lparr>cc_platform = inferPlatform None ua, cc_appVersion = None, cc_buildNumber = None, cc_osVersion = None,
          cc_deviceId = None, cc_userAgent = ua\<rparr>
      | Some text \<Rightarrow>
          let parsed = parseClientInfo text in
          \<lparr>cc_platform = inferPlatform (parsed ''platform'') ua,
           cc_appVersion = matching VERSION_RE (sanitise (parsed ''app_version'') 32),
           cc_buildNumber = sanitise (parsed ''build'') 16,
           cc_osVersion = sanitise (parsed ''os'') 16,
           cc_deviceId = matching UUID_RE (sanitise (parsed ''device_id'') 36),
           cc_userAgent = map_option (js_slice 0 512) (truthy ua)\<rparr>)"

section \<open>The app\<close>

text \<open>The stored device id, and \<open>Crypto.randomUUID\<close> when there is none yet.\<close>

definition getDeviceId :: "string \<Rightarrow> string option \<Rightarrow> string \<times> string option" where
  "getDeviceId fresh stored = (case truthy stored of Some i \<Rightarrow> (i, stored) | None \<Rightarrow> (fresh, Some fresh))"

record app_constants =
  ac_ios :: bool
  ac_version :: "string option"
  ac_ios_build :: "string option"
  ac_android_code :: "nat option"
  ac_os_version :: string
  ac_session_id :: string

definition getClientInfoHeader :: "app_constants \<Rightarrow> string \<Rightarrow> string" where
  "getClientInfoHeader A deviceId =
     (let platform = (if ac_ios A then ''ios'' else ''android'');
          appVersion = (case ac_version A of None \<Rightarrow> ''0.0.0'' | Some v \<Rightarrow> v);
          build = (if ac_ios A then (case ac_ios_build A of None \<Rightarrow> ''dev'' | Some b \<Rightarrow> b)
                   else (case ac_android_code A of None \<Rightarrow> ''dev'' | Some n \<Rightarrow> show_nat n)) in
      js_join ''; '' [''platform='' @ platform, ''app_version='' @ appVersion, ''build='' @ build, ''os='' @ ac_os_version A,
        ''device_id='' @ deviceId, ''session_id='' @ ac_session_id A])"

section \<open>The header survives\<close>

text \<open>A value the header carries unchanged.\<close>

definition header_value :: "string \<Rightarrow> bool" where
  "header_value v \<longleftrightarrow> v \<noteq> [] \<and> js_trim v = v \<and> CHR '';'' \<notin> set v"

lemma parse_value:
  assumes "header_value v" "js_index_of (CHR ''='') k = None" "js_lower (js_trim k) \<noteq> []"
  shows "parse_segment (k @ CHR ''='' # v) = Some (js_lower (js_trim k), v)"
proof -
  have "js_index_of (CHR ''='') k = None \<Longrightarrow> js_index_of (CHR ''='') (k @ CHR ''='' # v) = Some (length k)" for k
    by (induction k) (auto split: if_splits)
  moreover have "k \<noteq> []" using assms(3) by (auto simp: js_trim_def js_lower_def)
  ultimately show ?thesis
    using assms by (simp add: parse_segment_def Let_def js_slice_def header_value_def Suc_le_eq)
qed

lemma header_text:
  assumes "header_value v" "header_value b" "header_value w" "header_value d" "header_value u" "header_value p"
  shows "parseClientInfo (js_join ''; '' [''platform='' @ p, ''app_version='' @ v, ''build='' @ b, ''os='' @ w, ''device_id='' @ d, ''session_id='' @ u])
    = [''platform'' \<mapsto> p, ''app_version'' \<mapsto> v, ''build'' \<mapsto> b, ''os'' \<mapsto> w, ''device_id'' \<mapsto> d, ''session_id'' \<mapsto> u]"
proof -
  have no: "CHR '';'' \<notin> set x" if "header_value x" for x using that by (simp add: header_value_def)
  let ?segs = "[''platform'' @ CHR ''='' # p, '' app_version'' @ CHR ''='' # v, '' build'' @ CHR ''='' # b, '' os'' @ CHR ''='' # w,
     '' device_id'' @ CHR ''='' # d, '' session_id'' @ CHR ''='' # u]"
  have "js_join ''; '' [''platform='' @ p, ''app_version='' @ v, ''build='' @ b, ''os='' @ w, ''device_id='' @ d, ''session_id='' @ u]
    = (''platform='' @ p) @ CHR '';'' # ('' app_version='' @ v) @ CHR '';'' # ('' build='' @ b) @ CHR '';'' # ('' os='' @ w)
      @ CHR '';'' # ('' device_id='' @ d) @ CHR '';'' # ('' session_id='' @ u)" by simp
  moreover have "js_split (CHR '';'') ... = ?segs"
    by (subst js_split_append, simp add: no assms)+ (simp add: js_split_no_sep no assms)
  ultimately have segs: "js_split (CHR '';'') (js_join ''; '' [''platform='' @ p, ''app_version='' @ v, ''build='' @ b, ''os='' @ w,
     ''device_id='' @ d, ''session_id='' @ u]) = ?segs" by simp
  have keys: "js_lower (js_trim ''platform'') = ''platform''" "js_lower (js_trim '' app_version'') = ''app_version''"
    "js_lower (js_trim '' build'') = ''build''" "js_lower (js_trim '' os'') = ''os''" "js_lower (js_trim '' device_id'') = ''device_id''"
    "js_lower (js_trim '' session_id'') = ''session_id''" by code_simp+
  have parsed: "parse_segment (''platform'' @ CHR ''='' # p) = Some (''platform'', p)"
    "parse_segment ('' app_version'' @ CHR ''='' # v) = Some (''app_version'', v)" "parse_segment ('' build'' @ CHR ''='' # b) = Some (''build'', b)"
    "parse_segment ('' os'' @ CHR ''='' # w) = Some (''os'', w)" "parse_segment ('' device_id'' @ CHR ''='' # d) = Some (''device_id'', d)"
    "parse_segment ('' session_id'' @ CHR ''='' # u) = Some (''session_id'', u)"
    using parse_value [OF assms(6), of "''platform''"] parse_value [OF assms(1), of "'' app_version''"] parse_value [OF assms(2), of "'' build''"]
      parse_value [OF assms(3), of "'' os''"] parse_value [OF assms(4), of "'' device_id''"] parse_value [OF assms(5), of "'' session_id''"]
    by (simp_all only: keys) simp_all
  show ?thesis
    unfolding parseClientInfo_def segs by (simp only: foldl.simps parsed option.case prod.case)
qed

lemma UUID_header: "UUID_RE d \<Longrightarrow> header_value d \<and> length d = 36"
proof -
  assume re: "UUID_RE d"
  then have len: "length d = 36" by (simp add: UUID_RE_def)
  have lower: "cu (lower_char c) = cu c \<or> cu (lower_char c) = cu c + 32 \<and> 65 \<le> cu c" for c
    by (auto simp: lower_char_def)
  have letter: "cu c \<in> {56, 57, 97, 98, 65, 66}" if l: "lower_char c \<in> {CHR ''8'', CHR ''9'', CHR ''a'', CHR ''b''}" for c
  proof -
    have "cu (lower_char c) \<in> {56, 57, 97, 98}" using l by auto
    then show ?thesis using lower [of c] by auto
  qed
  have plain: "c \<noteq> CHR '';'' \<and> \<not> js_space c"
    if "hex_class c \<or> c = CHR ''-'' \<or> c = CHR ''4'' \<or> js_lower [c] \<in> {''8'', ''9'', ''a'', ''b''}" for c
  proof -
    have "cu c \<in> {56, 57, 97, 98, 65, 66} \<or> hex_class c \<or> cu c = 45 \<or> cu c = 52"
      using that letter [of c] by (auto simp: js_lower_def)
    then have "32 < cu c \<and> cu c < 128 \<and> cu c \<noteq> 59" by (auto simp: hex_class_def is_digit_def)
    then show ?thesis by (auto simp: js_space_def)
  qed
  have "d ! i \<noteq> CHR '';'' \<and> \<not> js_space (d ! i)" if "i < 36" for i
  proof (rule plain)
    have "i \<in> set [0..<36]" using that by simp
    then have "if i \<in> {8, 13, 18, 23} then d ! i = CHR ''-'' else if i = 14 then d ! i = CHR ''4''
        else if i = 19 then js_lower [d ! i] \<in> {''8'', ''9'', ''a'', ''b''} else hex_class (d ! i)"
      using re unfolding UUID_RE_def list_all_iff by blast
    then show "hex_class (d ! i) \<or> d ! i = CHR ''-'' \<or> d ! i = CHR ''4'' \<or> js_lower [d ! i] \<in> {''8'', ''9'', ''a'', ''b''}"
      by (cases "i \<in> {8, 13, 18, 23}"; cases "i = 14"; cases "i = 19") simp_all
  qed
  then have all: "c \<noteq> CHR '';'' \<and> \<not> js_space c" if "c \<in> set d" for c
    using that len by (metis in_set_conv_nth)
  have trim: "js_trim x = x" if "\<forall>c \<in> set x. \<not> js_space c" for x
  proof -
    have "dropWhile js_space x = x" "dropWhile js_space (rev x) = rev x" using that
      by (cases x; simp; fail | cases "rev x"; auto simp: dropWhile_eq_self_iff hd_in_set)+
    then show ?thesis by (simp add: js_trim_def)
  qed
  then show ?thesis using all len by (auto simp: header_value_def)
qed

lemma sanitise_value: "header_value v \<Longrightarrow> length v \<le> n \<Longrightarrow> sanitise (Some v) n = Some v"
  by (cases v) (simp_all add: sanitise_def truthy_def header_value_def js_slice_def)

lemma number_value: "n < 10 ^ 10 \<Longrightarrow> header_value (show_nat n) \<and> length (show_nat n) \<le> 16"
proof
  have digit: "\<not> js_space c \<and> c \<noteq> CHR '';''" if "c \<in> set (show_nat n)" for c
    using show_nat_digits [OF that] by (auto simp: is_digit_def js_space_def)
  have "hd (show_nat n) \<in> set (show_nat n)" "hd (rev (show_nat n)) \<in> set (show_nat n)"
    using hd_in_set [of "show_nat n"] hd_in_set [of "rev (show_nat n)"] by simp_all
  then have "dropWhile js_space (show_nat n) = show_nat n" "dropWhile js_space (rev (show_nat n)) = rev (show_nat n)"
    using digit by (auto simp: dropWhile_eq_self_iff)
  then show "header_value (show_nat n)" using digit by (auto simp: header_value_def js_trim_def)
  assume "n < 10 ^ 10"
  then show "length (show_nat n) \<le> 16" using length_show_nat [of n 9] by simp
qed

text \<open>
  C9. The header \<open>X-Client-Info\<close> of the app is read back by the middleware as exactly the values the app wrote, for
  every UUID, every system version and session id without semicolons and surrounding blanks, and versions and builds
  that fit the columns.
\<close>

theorem context_of_app:
  assumes "UUID_RE d" "header_value (ac_os_version A)" "header_value (ac_session_id A)" "length (ac_os_version A) \<le> 16"
    and "case ac_version A of None \<Rightarrow> True | Some v \<Rightarrow> header_value v \<and> VERSION_RE v \<and> length v \<le> 32"
    and "case ac_ios_build A of None \<Rightarrow> True | Some b \<Rightarrow> header_value b \<and> length b \<le> 16"
    and "case ac_android_code A of None \<Rightarrow> True | Some n \<Rightarrow> n < 10 ^ 10"
  shows "client_context (Some (getClientInfoHeader A d)) ua =
    \<lparr>cc_platform = (if ac_ios A then PL_ios else PL_android),
     cc_appVersion = Some (case ac_version A of None \<Rightarrow> ''0.0.0'' | Some v \<Rightarrow> v),
     cc_buildNumber = Some (if ac_ios A then (case ac_ios_build A of None \<Rightarrow> ''dev'' | Some b \<Rightarrow> b)
       else (case ac_android_code A of None \<Rightarrow> ''dev'' | Some n \<Rightarrow> show_nat n)),
     cc_osVersion = Some (ac_os_version A), cc_deviceId = Some d, cc_userAgent = map_option (js_slice 0 512) (truthy ua)\<rparr>"
proof -
  let ?v = "case ac_version A of None \<Rightarrow> ''0.0.0'' | Some v \<Rightarrow> v"
  let ?b = "if ac_ios A then (case ac_ios_build A of None \<Rightarrow> ''dev'' | Some b \<Rightarrow> b)
       else (case ac_android_code A of None \<Rightarrow> ''dev'' | Some n \<Rightarrow> show_nat n)"
  let ?p = "if ac_ios A then ''ios'' else ''android''"
  have plain: "header_value ''ios''" "header_value ''android''" "header_value ''dev''" "header_value ''0.0.0''" "VERSION_RE ''0.0.0''"
    by code_simp+
  have v: "header_value ?v" "VERSION_RE ?v" "length ?v \<le> 32" using assms(5) plain by (auto split: option.splits)
  have b: "header_value ?b \<and> length ?b \<le> 16"
    using assms(6,7) plain(3) number_value by (auto split: option.splits)
  have p: "header_value ?p" using plain by simp
  have d: "header_value d" "length d = 36" using UUID_header [OF assms(1)] by auto
  let ?header = "getClientInfoHeader A d"
  have parsed: "parseClientInfo ?header = [''platform'' \<mapsto> ?p, ''app_version'' \<mapsto> ?v, ''build'' \<mapsto> ?b, ''os'' \<mapsto> ac_os_version A,
      ''device_id'' \<mapsto> d, ''session_id'' \<mapsto> ac_session_id A]"
    unfolding getClientInfoHeader_def Let_def by (rule header_text) (use v b p d assms in auto)
  have "?header \<noteq> []" by (simp add: getClientInfoHeader_def Let_def)
  then have some: "truthy (Some ?header) = Some ?header" by (simp add: truthy_def split: list.split)
  have platform: "inferPlatform (Some ?p) ua = (if ac_ios A then PL_ios else PL_android)"
  proof -
    have "js_lower ''ios'' = ''ios''" "js_lower ''android'' = ''android''" by code_simp+
    then show ?thesis by (simp add: inferPlatform_def Let_def)
  qed
  have clean: "sanitise (Some ?v) 32 = Some ?v" "sanitise (Some ?b) 16 = Some ?b"
    "sanitise (Some (ac_os_version A)) 16 = Some (ac_os_version A)" "sanitise (Some d) 36 = Some d"
    using v b d assms(2,4) by (simp_all add: sanitise_value)
  have "matching VERSION_RE (Some ?v) = Some ?v" "matching UUID_RE (Some d) = Some d"
    using v(2) assms(1) by (simp_all add: matching_def)
  moreover have "parseClientInfo ?header ''platform'' = Some ?p" "parseClientInfo ?header ''app_version'' = Some ?v"
    "parseClientInfo ?header ''build'' = Some ?b" "parseClientInfo ?header ''os'' = Some (ac_os_version A)"
    "parseClientInfo ?header ''device_id'' = Some d"
    unfolding parsed by simp_all
  ultimately show ?thesis
    unfolding client_context_def some option.case Let_def by (simp only: clean platform)
qed


definition demo_app :: app_constants where
  "demo_app = \<lparr>ac_ios = False, ac_version = Some ''1.4.2'', ac_ios_build = None, ac_android_code = Some 142, ac_os_version = ''34'',
     ac_session_id = ''s1''\<rparr>"

definition demo_device_id :: string where
  "demo_device_id = ''0f8fad5b-d9cb-469f-a165-70867728950e''"

theorem context_of_app_witness:
  "client_context (Some (getClientInfoHeader demo_app demo_device_id)) (Some ''okhttp/4.9'') =
    \<lparr>cc_platform = PL_android, cc_appVersion = Some ''1.4.2'', cc_buildNumber = Some ''142'', cc_osVersion = Some ''34'',
     cc_deviceId = Some demo_device_id, cc_userAgent = Some ''okhttp/4.9''\<rparr>"
proof -
  have "UUID_RE demo_device_id" "header_value (ac_os_version demo_app)" "header_value (ac_session_id demo_app)" by code_simp+
  moreover have "header_value ''1.4.2'' \<and> VERSION_RE ''1.4.2''" by code_simp
  moreover have "show_nat 142 = ''142''" "map_option (js_slice 0 512) (truthy (Some ''okhttp/4.9'')) = Some ''okhttp/4.9''" by code_simp+
  ultimately show ?thesis using context_of_app [of demo_device_id demo_app "Some ''okhttp/4.9''"] by (simp add: demo_app_def)
qed

end
