(* ===== verification/Devices.thy ===== *)
theory Devices
  imports Lifecycle ClientContext
begin

text \<open>
  \<open>apps/api/src/devices/devices.service.ts\<close>: registration of devices, signing them out, and the
  one-time pairing codes; and the sessions of the operator console (\<open>admin.service.ts\<close>).

  Registration and signing out work on the device table of the notification service, so that the
  deliveries it prepares follow them. Pairing codes have a state of their own with the memberships
  and workspaces; the two statements of a consumption interleave with those of other callers.
\<close>

section \<open>Registration and signing out\<close>

fun platform_name :: "ClientPlatform \<Rightarrow> string" where
  "platform_name PL_web = ''web''"
| "platform_name PL_ios = ''ios''"
| "platform_name PL_android = ''android''"
| "platform_name PL_api = ''api''"

record register_dto =
  rg_device_id :: string
  rg_device_name :: "string option"
  rg_push_token :: "string option"
  rg_push_provider :: "string option"

definition DEVICE_PLATFORMS :: "string list" where
  "DEVICE_PLATFORMS = [''web'', ''ios'', ''android'']"

definition PUSH_PROVIDERS :: "string list" where
  "PUSH_PROVIDERS = [''expo'', ''fcm'', ''apns'', ''webpush'']"

definition same_device :: "string \<Rightarrow> string \<Rightarrow> user_device \<Rightarrow> bool" where
  "same_device uid did d \<longleftrightarrow> ud_user_id d = uid \<and> dc_device_id (ud_columns d) = did"

definition device_row :: "string \<Rightarrow> register_dto \<Rightarrow> ClientContext option \<Rightarrow> time \<Rightarrow> string \<Rightarrow> user_device" where
  "device_row uid dto ctx now i =
     \<lparr>ud_id = i, ud_user_id = uid, ud_push_token = rg_push_token dto, ud_push_provider = rg_push_provider dto,
      ud_revoked_at = None,
      ud_columns = \<lparr>dc_device_id = rg_device_id dto,
        dc_platform = (case ctx of None \<Rightarrow> ''web'' | Some c \<Rightarrow> platform_name (cc_platform c)),
        dc_device_name = rg_device_name dto, dc_os_version = Option.bind ctx cc_osVersion,
        dc_app_version = Option.bind ctx cc_appVersion, dc_last_seen_at = now, dc_last_ip = None, dc_first_seen_at = now\<rparr>\<rparr>"

text \<open>INSERT ... ON CONFLICT (user_id, device_id) DO UPDATE, under the checks of migration 00022.\<close>

definition upsert_device :: "user_device \<Rightarrow> notif_db \<Rightarrow> pg_error + user_device \<times> notif_db" where
  "upsert_device new s =
     (let here = same_device (ud_user_id new) (dc_device_id (ud_columns new)) in
      if dc_platform (ud_columns new) \<notin> set DEVICE_PLATFORMS
         \<or> (case ud_push_provider new of None \<Rightarrow> False | Some p \<Rightarrow> p \<notin> set PUSH_PROVIDERS)
      then Inl (pg CHECK_VIOLATION)
      else case find here (nt_devices s) of
        Some old \<Rightarrow>
          let row = new\<lparr>ud_id := ud_id old, ud_columns := (ud_columns new)\<lparr>dc_last_ip := dc_last_ip (ud_columns old),
                dc_first_seen_at := dc_first_seen_at (ud_columns old)\<rparr>\<rparr> in
          Inr (row, s\<lparr>nt_devices := map (\<lambda>d. if here d then row else d) (nt_devices s)\<rparr>)
      | None \<Rightarrow>
          if list_ex (\<lambda>d. ud_id d = ud_id new) (nt_devices s) then Inl (pg UNIQUE_VIOLATION)
          else Inr (new, s\<lparr>nt_devices := nt_devices s @ [new]\<rparr>))"

definition bn_new_device_title :: ucs where
  "bn_new_device_title =
     [2472, 2468, 2497, 2472, 32, 2465, 2495, 2477, 2494, 2439, 2488, 2503, 32, 2488, 2494, 2439,
      2472, 32, 2439, 2472, 32, 2489, 2479, 2492, 2503, 2459, 2503]"

definition bn_new_device_a :: ucs where
  "bn_new_device_a =
     [2438, 2474, 2472, 2494, 2480, 32, 2437, 2509, 2479, 2494, 2453, 2494, 2441, 2472, 2509, 2463,
      2503, 32, 2447, 2453, 2463, 2495, 32, 2472, 2468, 2497, 2472, 32]"

definition bn_new_device_b :: ucs where
  "bn_new_device_b =
     [32, 2465, 2495, 2477, 2494, 2439, 2488, 32, 2472, 2495, 2476, 2472, 2509, 2471, 2495, 2468,
      32, 2489, 2479, 2492, 2503, 2459, 2503, 2404]"

definition bn_session_revoked_title :: ucs where
  "bn_session_revoked_title =
     [2447, 2453, 2463, 2495, 32, 2465, 2495, 2477, 2494, 2439, 2488, 32, 2488, 2503, 2486, 2472,
      32, 2476, 2494, 2468, 2495, 2482, 32, 2453, 2480, 2494, 32, 2489, 2479, 2492, 2503, 2459, 2503]"

definition bn_session_revoked_a :: ucs where
  "bn_session_revoked_a =
     [2447, 2453, 2460, 2472, 32, 2437, 2474, 2494, 2480, 2503, 2463, 2480, 32, 2447, 2453, 2463,
      2495, 32, 2488, 2453, 2509, 2480, 2495, 2479, 2492, 32]"

definition bn_session_revoked_b :: ucs where
  "bn_session_revoked_b =
     [32, 2488, 2503, 2486, 2472, 32, 2476, 2494, 2468, 2495, 2482, 32, 2453, 2480, 2503, 2459,
      2503, 2472, 2404]"

definition bn_all_revoked_title :: ucs where
  "bn_all_revoked_title =
     [2488, 2476, 32, 2465, 2495, 2477, 2494, 2439, 2488, 32, 2488, 2503, 2486, 2472, 32, 2476,
      2494, 2468, 2495, 2482, 32, 2453, 2480, 2494, 32, 2489, 2479, 2492, 2503, 2459, 2503]"

definition bn_all_revoked_body :: ucs where
  "bn_all_revoked_body =
     [2447, 2453, 2460, 2472, 32, 2437, 2474, 2494, 2480, 2503, 2463, 2480, 32, 2488, 2476, 32,
      2472, 2495, 2476, 2472, 2509, 2471, 2495, 2468, 32, 2465, 2495, 2477, 2494, 2439, 2488, 2503,
      32, 2438, 2474, 2472, 2494, 2480, 32, 2437, 2509, 2479, 2494, 2453, 2494, 2441, 2472, 2509,
      2463, 32, 2488, 2494, 2439, 2472, 32, 2438, 2441, 2463, 32, 2453, 2480, 2503, 2459, 2503,
      2472, 2404]"

definition device_input ::
    "NotificationSeverity \<Rightarrow> string \<Rightarrow> string \<Rightarrow> ucs \<Rightarrow> string \<Rightarrow> ucs \<Rightarrow> string option \<Rightarrow> string \<Rightarrow> create_notification_input" where
  "device_input sev uid title title_bn body body_bn row key =
     \<lparr>ci_user_id = uid, ci_workspace_id = None, ci_category = N_security, ci_severity = Some sev, ci_title_en = title,
      ci_title_bn = Some title_bn, ci_body_en = body, ci_body_bn = Some body_bn,
      ci_action_url = Some ''/dashboard/settings/sessions'',
      ci_resource_type = map_option (\<lambda>_. ''user_device'') row, ci_resource_id = row, ci_metadata = None,
      ci_dedupe_key = Some key, ci_expires_at = None\<rparr>"

definition new_device_notice :: "string \<Rightarrow> string \<Rightarrow> user_device \<Rightarrow> create_notification_input" where
  "new_device_notice uid did d =
     (let platform = dc_platform (ud_columns d) in
      device_input SEV_WARNING uid ''New device signed in'' bn_new_device_title
        (''A new '' @ platform @ '' device was registered to your account.'')
        (bn_new_device_a @ ucs_of platform @ bn_new_device_b) (Some (ud_id d)) (''new-device:'' @ did))"

definition registerDevice :: "notif_world \<Rightarrow> string \<Rightarrow> register_dto \<Rightarrow> ClientContext option \<Rightarrow> (notif_db, user_device) api" where
  "registerDevice W uid dto ctx =
     api_bind (nt_read (\<lambda>s. maybe_single [d \<leftarrow> nt_devices s. same_device uid (rg_device_id dto) d])) (\<lambda>existing.
     api_bind (api_reads nt_clock) (\<lambda>now.
     api_bind (new_ids W 1) (\<lambda>ids.
     api_bind (or_throw (nt_stmt (upsert_device (device_row uid dto ctx now (hd ids))))) (\<lambda>d.
     api_bind
       (if (case data_maybe existing of None \<Rightarrow> True | Some old \<Rightarrow> ud_revoked_at old \<noteq> None)
        then api_bind (createNotification W (new_device_notice uid (rg_device_id dto) d)) (\<lambda>_. api_return ())
        else api_return ()) (\<lambda>_.
     api_return d)))))"

definition active_devices :: "string \<Rightarrow> notif_db \<Rightarrow> user_device list" where
  "active_devices uid s = [d \<leftarrow> nt_devices s. ud_user_id d = uid \<and> ud_revoked_at d = None]"

definition listDevices :: "string \<Rightarrow> (notif_db, user_device list) api" where
  "listDevices uid = or_throw (nt_rows (\<lambda>s. sort_key (\<lambda>d. - dc_last_seen_at (ud_columns d)) (active_devices uid s)))"

definition update_devices ::
    "(user_device \<Rightarrow> bool) \<Rightarrow> (user_device \<Rightarrow> user_device) \<Rightarrow> notif_db \<Rightarrow> user_device list \<times> notif_db" where
  "update_devices hit patch s =
     (map patch (filter hit (nt_devices s)), s\<lparr>nt_devices := map (\<lambda>d. if hit d then patch d else d) (nt_devices s)\<rparr>)"

text \<open>\<open>.update(...).select(...).single()\<close>: any other number of rows is an error, and nothing is written.\<close>

definition update_one ::
    "(user_device list \<Rightarrow> pg_error + 'a) \<Rightarrow> (user_device \<Rightarrow> bool) \<Rightarrow> (user_device \<Rightarrow> user_device) \<Rightarrow> notif_db \<Rightarrow> pg_error + 'a \<times> notif_db" where
  "update_one pick hit patch s =
     (case update_devices hit patch s of (rows, t) \<Rightarrow> (case pick rows of Inl e \<Rightarrow> Inl e | Inr x \<Rightarrow> Inr (x, t)))"

definition revoked :: "time \<Rightarrow> user_device \<Rightarrow> user_device" where
  "revoked now d = d\<lparr>ud_revoked_at := Some now\<rparr>"

definition revokeDevice :: "string \<Rightarrow> string \<Rightarrow> (notif_db, bool) api" where
  "revokeDevice uid i =
     api_bind (api_reads nt_clock) (\<lambda>now.
     api_bind (nt_stmt (update_one single (\<lambda>d. ud_user_id d = uid \<and> ud_id d = i \<and> ud_revoked_at d = None) (revoked now))) (\<lambda>r.
     case r of
       Inl e \<Rightarrow> api_throw (Not_found_plain ''Device not found or already revoked'')
     | Inr _ \<Rightarrow> api_return True))"

definition revokeCurrentDevice :: "string \<Rightarrow> string \<Rightarrow> (notif_db, bool) api" where
  "revokeCurrentDevice uid did =
     api_bind (api_reads nt_clock) (\<lambda>now.
     api_bind (or_throw (nt_stmt (update_one maybe_single (\<lambda>d. same_device uid did d \<and> ud_revoked_at d = None)
       (\<lambda>d. (revoked now d)\<lparr>ud_push_token := None, ud_push_provider := None\<rparr>)))) (\<lambda>d.
     api_return (d \<noteq> None)))"

definition other_device :: "string \<Rightarrow> string option \<Rightarrow> user_device \<Rightarrow> bool" where
  "other_device uid current d \<longleftrightarrow> ud_user_id d = uid \<and> ud_revoked_at d = None
     \<and> (case truthy current of None \<Rightarrow> True | Some c \<Rightarrow> dc_device_id (ud_columns d) \<noteq> c)"

definition revokeAllOtherDevices :: "string \<Rightarrow> string option \<Rightarrow> (notif_db, bool) api" where
  "revokeAllOtherDevices uid current =
     api_bind (api_reads nt_clock) (\<lambda>now.
     api_bind (or_throw (nt_stmt (update_one Inr (other_device uid current) (revoked now)))) (\<lambda>_.
     api_return True))"

section \<open>The sessions of the console\<close>

definition on_notif :: "(notif_db \<Rightarrow> pg_error + 'a \<times> notif_db) \<Rightarrow> life_db \<Rightarrow> pg_error + 'a \<times> life_db" where
  "on_notif f s = (case f (lf_notif s) of Inl e \<Rightarrow> Inl e | Inr (x, n) \<Rightarrow> Inr (x, s\<lparr>lf_notif := n\<rparr>))"

definition session_audit :: "string \<Rightarrow> string \<Rightarrow> string \<Rightarrow> json \<Rightarrow> (life_db, bool) api" where
  "session_audit actor action i meta = notify (write_audit \<lparr>ae_actor_id = actor, ae_action = action,
     ae_resource_type = ''user_devices'', ae_resource_id = Some i, ae_metadata = meta\<rparr>)"

text \<open>A range that starts behind the last row is refused by PostgREST when the rows are counted.\<close>

definition counted_range :: "nat \<Rightarrow> nat \<Rightarrow> 'r list \<Rightarrow> pg_error + 'r list \<times> nat" where
  "counted_range offset limit rows =
     (if length rows < offset then Inl \<lparr>pg_code = ''PGRST103'', pg_message = ''Requested range not satisfiable''\<rparr>
      else Inr (take MAX_ROWS (take limit (drop offset rows)), length rows))"

record session_page =
  sp_items :: "user_device list"
  sp_total :: nat
  sp_limit :: nat
  sp_offset :: nat

definition getActiveSessions :: "nat option \<Rightarrow> nat option \<Rightarrow> string option \<Rightarrow> (life_db, session_page) api" where
  "getActiveSessions limit offset platform =
     (let l = (case limit of None \<Rightarrow> 50 | Some n \<Rightarrow> n); o' = (case offset of None \<Rightarrow> 0 | Some n \<Rightarrow> n) in
      api_bind (or_fail (lf_read (\<lambda>s. counted_range o' l
        (sort_key (\<lambda>d. - dc_last_seen_at (ud_columns d))
          [d \<leftarrow> nt_devices (lf_notif s). ud_revoked_at d = None
             \<and> (case truthy platform of None \<Rightarrow> True | Some p \<Rightarrow> dc_platform (ud_columns d) = p)])))) (\<lambda>(rows, total).
      api_return \<lparr>sp_items = rows, sp_total = total, sp_limit = l, sp_offset = o'\<rparr>))"

definition revokeSession :: "notif_world \<Rightarrow> string \<Rightarrow> string \<Rightarrow> (life_db, string) api" where
  "revokeSession W actor i =
     api_bind (api_reads lf_clock) (\<lambda>now.
     api_bind (lf_stmt (on_notif (update_one single (\<lambda>d. ud_id d = i \<and> ud_revoked_at d = None) (revoked now)))) (\<lambda>r.
     case r of
       Inl e \<Rightarrow> api_throw (Not_found ''DEVICE_NOT_FOUND'' ''Device not found or already revoked'')
     | Inr d \<Rightarrow>
         let platform = dc_platform (ud_columns d) in
         api_bind (session_audit actor ''ADMIN_SESSION_REVOKED'' i (JObj [(''target_user'', JStr (ud_user_id d)), (''platform'', JStr platform)])) (\<lambda>_.
         api_bind (notify (createNotification W (device_input SEV_WARNING (ud_user_id d) ''A device session was revoked'' bn_session_revoked_title
           (''An operator revoked an active '' @ platform @ '' session.'') (bn_session_revoked_a @ ucs_of platform @ bn_session_revoked_b)
           (Some i) (''session-revoked:'' @ i)))) (\<lambda>_.
         api_return i))))"

definition revokeAllUserSessions :: "notif_world \<Rightarrow> string \<Rightarrow> string \<Rightarrow> (life_db, bool) api" where
  "revokeAllUserSessions W actor uid =
     api_bind (api_reads lf_clock) (\<lambda>now.
     api_bind (or_fail (lf_stmt (on_notif (update_one Inr (\<lambda>d. ud_user_id d = uid \<and> ud_revoked_at d = None) (revoked now))))) (\<lambda>_.
     api_bind (session_audit actor ''ADMIN_ALL_SESSIONS_REVOKED'' uid (JObj [(''target_user'', JStr uid)])) (\<lambda>_.
     api_bind (notify (createNotification W (device_input SEV_CRITICAL uid ''All device sessions were revoked'' bn_all_revoked_title
       ''An operator signed your account out on every registered device.'' bn_all_revoked_body None
       (''all-sessions-revoked:'' @ uid @ '':'' @ nw_iso W now)))) (\<lambda>_.
     api_return True))))"

section \<open>Pairing\<close>

record pairing =
  pt_id :: string
  pt_token_hash :: string
  pt_user_id :: string
  pt_workspace_id :: string
  pt_expires_at :: int
  pt_consumed_at :: "int option"

record pair_db =
  pr_base :: db
  pairings :: "pairing list"
  pr_clock :: int

definition pr_stmt :: "(pair_db \<Rightarrow> pg_error + 'a \<times> pair_db) \<Rightarrow> (pair_db, pg_error + 'a) api" where
  "pr_stmt = fault_stmt pr_base pr_base_update"

definition pr_read :: "(pair_db \<Rightarrow> pg_error + 'a) \<Rightarrow> (pair_db, pg_error + 'a) api" where
  "pr_read q = pr_stmt (\<lambda>s. case q s of Inl e \<Rightarrow> Inl e | Inr x \<Rightarrow> Inr (x, s))"

definition new_pairing_id :: "env \<Rightarrow> (pair_db, string) api" where
  "new_pairing_id E s = (Inr (env_uuid E (uuids (pr_base s))), pr_base_update (\<lambda>l. l\<lparr>uuids := Suc (uuids l)\<rparr>) s)"

definition insert_pairing :: "pairing \<Rightarrow> pair_db \<Rightarrow> pg_error + unit \<times> pair_db" where
  "insert_pairing p s =
     (if list_ex (\<lambda>q. pt_id q = pt_id p \<or> pt_token_hash q = pt_token_hash p) (pairings s) then Inl (pg UNIQUE_VIOLATION)
      else if \<not> list_ex (\<lambda>w. ws_id w = pt_workspace_id p) (workspaces (pr_base s)) then Inl (pg FK_VIOLATION)
      else Inr ((), s\<lparr>pairings := pairings s @ [p]\<rparr>))"

text \<open>\<open>token\<close> is \<open>randomBytes(32).toString('base64url')\<close>.\<close>

definition createPairing :: "env \<Rightarrow> string \<Rightarrow> string \<Rightarrow> string \<Rightarrow> (pair_db, string \<times> int) api" where
  "createPairing E token uid ws =
     api_bind (pr_read (\<lambda>s. maybe_single [m \<leftarrow> members (pr_base s). mb_workspace_id m = ws \<and> mb_user_id m = uid \<and> mb_status m = MEMBER_ACTIVE])) (\<lambda>m.
     if data_maybe m = None then api_throw (Forbidden ''WORKSPACE_ACCESS_DENIED'' ''Workspace is not available to this account'')
     else
       api_bind (api_reads pr_clock) (\<lambda>now.
       api_bind (new_pairing_id E) (\<lambda>i.
       api_bind (pr_stmt (insert_pairing \<lparr>pt_id = i, pt_token_hash = env_sha256 E token, pt_user_id = uid, pt_workspace_id = ws,
         pt_expires_at = now + 10 * 60000, pt_consumed_at = None\<rparr>)) (\<lambda>r.
       case r of Inl e \<Rightarrow> api_throw (Js_error (pg_message e)) | Inr _ \<Rightarrow> api_return (token, now + 10 * 60000)))))"

text \<open>\<open>consumePairing\<close> in its three steps: finding the code, claiming it, reading the workspace.\<close>

definition find_pairing :: "env \<Rightarrow> string \<Rightarrow> string \<Rightarrow> (pair_db, pairing) api" where
  "find_pairing E uid token =
     api_bind (pr_read (\<lambda>s. maybe_single [p \<leftarrow> pairings s. pt_token_hash p = env_sha256 E token])) (\<lambda>r.
     api_bind (api_reads pr_clock) (\<lambda>now.
     case data_maybe r of
       None \<Rightarrow> api_throw (Not_found ''PAIRING_TOKEN_NOT_FOUND'' ''Pairing code is invalid'')
     | Some p \<Rightarrow>
         if pt_user_id p \<noteq> uid then api_throw (Not_found ''PAIRING_TOKEN_NOT_FOUND'' ''Pairing code is invalid'')
         else if pt_consumed_at p \<noteq> None \<or> pt_expires_at p \<le> now
         then api_throw (Gone ''PAIRING_TOKEN_EXPIRED'' ''Pairing code has expired or was already used'')
         else api_return p))"

definition consume :: "string \<Rightarrow> int \<Rightarrow> pair_db \<Rightarrow> pg_error + string option \<times> pair_db" where
  "consume i now s =
     (let hit = (\<lambda>p. pt_id p = i \<and> pt_consumed_at p = None) in
      case maybe_single (map pt_workspace_id (filter hit (pairings s))) of
        Inl e \<Rightarrow> Inl e
      | Inr w \<Rightarrow> Inr (w, s\<lparr>pairings := map (\<lambda>p. if hit p then p\<lparr>pt_consumed_at := Some now\<rparr> else p) (pairings s)\<rparr>))"

definition claim_pairing :: "string \<Rightarrow> (pair_db, string) api" where
  "claim_pairing i =
     api_bind (api_reads pr_clock) (\<lambda>now.
     api_bind (pr_stmt (consume i now)) (\<lambda>r.
     case data_maybe r of
       None \<Rightarrow> api_throw (Gone ''PAIRING_TOKEN_EXPIRED'' ''Pairing code was already used'')
     | Some w \<Rightarrow> api_return w))"

definition paired_workspace :: "string \<Rightarrow> (pair_db, workspace) api" where
  "paired_workspace w =
     api_bind (pr_read (\<lambda>s. single [x \<leftarrow> workspaces (pr_base s). ws_id x = w])) (\<lambda>r.
     case data_of r of
       None \<Rightarrow> api_throw (Not_found ''WORKSPACE_NOT_FOUND'' ''Paired workspace no longer exists'')
     | Some x \<Rightarrow> api_return x)"

definition consumePairing :: "env \<Rightarrow> string \<Rightarrow> string \<Rightarrow> (pair_db, workspace) api" where
  "consumePairing E uid token =
     api_bind (find_pairing E uid token) (\<lambda>p. api_bind (claim_pairing (pt_id p)) paired_workspace)"
section \<open>Requests\<close>

datatype device_request = Register_device register_dto "ClientContext option" | List_devices | Revoke_device string
  | Revoke_current string | Revoke_others "string option"
  | List_sessions "nat option" "nat option" "string option" | Revoke_session string | Revoke_sessions_of string

definition session_request :: "device_request \<Rightarrow> bool" where
  "session_request r = (case r of List_sessions _ _ _ \<Rightarrow> True | Revoke_session _ \<Rightarrow> True | Revoke_sessions_of _ \<Rightarrow> True | _ \<Rightarrow> False)"

definition handle_device :: "notif_world \<Rightarrow> string \<Rightarrow> device_request \<Rightarrow> (life_db, unit) api" where
  "handle_device W uid r = (case r of
     Register_device dto ctx \<Rightarrow> notify (answer_only (registerDevice W uid dto ctx))
   | List_devices \<Rightarrow> notify (answer_only (listDevices uid))
   | Revoke_device i \<Rightarrow> notify (answer_only (revokeDevice uid i))
   | Revoke_current did \<Rightarrow> notify (answer_only (revokeCurrentDevice uid did))
   | Revoke_others current \<Rightarrow> notify (answer_only (revokeAllOtherDevices uid current))
   | List_sessions limit offset platform \<Rightarrow> answer_only (getActiveSessions limit offset platform)
   | Revoke_session i \<Rightarrow> answer_only (revokeSession W uid i)
   | Revoke_sessions_of u \<Rightarrow> answer_only (revokeAllUserSessions W uid u))"

definition serve_device :: "notif_world \<Rightarrow> string \<Rightarrow> string option \<Rightarrow> device_request \<Rightarrow> (life_db, unit) api" where
  "serve_device W uid aal r =
     (if session_request r then api_bind (superAdminGuard uid aal) (\<lambda>_. handle_device W uid r) else handle_device W uid r)"

datatype device_event = Device_request string "string option" device_request | Account_event life_event

definition device_step :: "notif_world \<Rightarrow> device_event \<Rightarrow> life_db \<Rightarrow> life_db" where
  "device_step W e s = (case e of
     Device_request uid aal r \<Rightarrow> snd (serve_device W uid aal r s)
   | Account_event a \<Rightarrow> life_step W a s)"

definition device_history :: "notif_world \<Rightarrow> device_event list \<Rightarrow> life_db \<Rightarrow> life_db" where
  "device_history W es s = fold (device_step W) es s"

section \<open>The device table\<close>

definition device_key :: "user_device \<Rightarrow> string \<times> string" where
  "device_key d = (ud_user_id d, dc_device_id (ud_columns d))"

definition device_typed :: "user_device \<Rightarrow> bool" where
  "device_typed d \<longleftrightarrow> dc_platform (ud_columns d) \<in> set DEVICE_PLATFORMS
     \<and> (case ud_push_provider d of None \<Rightarrow> True | Some p \<Rightarrow> p \<in> set PUSH_PROVIDERS)"

definition devices_ok :: "user_device list \<Rightarrow> bool" where
  "devices_ok ds \<longleftrightarrow> distinct (map ud_id ds) \<and> distinct (map device_key ds) \<and> list_all device_typed ds"

lemma same_device_key: "same_device uid did d \<longleftrightarrow> device_key d = (uid, did)"
  by (simp add: same_device_def device_key_def)

lemma one_device: "distinct (map device_key ds) \<Longrightarrow> d \<in> set ds \<Longrightarrow> device_key d = k \<Longrightarrow> [x \<leftarrow> ds. device_key x = k] = [d]"
  by (induction ds) (auto simp: filter_empty_conv image_iff)

lemma map_replace: "(\<And>x. x \<in> set xs \<Longrightarrow> f (g x) = f x) \<Longrightarrow> map f (map g xs) = map f xs"
  by simp

lemma devices_ok_map:
  assumes "devices_ok ds" "\<And>d. d \<in> set ds \<Longrightarrow> ud_id (g d) = ud_id d \<and> device_key (g d) = device_key d"
    "\<And>d. d \<in> set ds \<Longrightarrow> device_typed (g d)"
  shows "devices_ok (map g ds)"
  using assms unfolding devices_ok_def by (simp add: comp_def list_all_iff cong: map_cong)

lemma devices_ok_filter: "devices_ok ds \<Longrightarrow> devices_ok (filter P ds)"
  by (simp add: devices_ok_def distinct_map_filter list_all_iff)

text \<open>What a registration leaves: the row \<open>d\<close> for the device, and every other row as it was.\<close>

definition stored_device :: "user_device \<Rightarrow> user_device list \<Rightarrow> user_device \<Rightarrow> user_device list \<Rightarrow> bool" where
  "stored_device new ds d es \<longleftrightarrow> device_key d = device_key new \<and> ud_revoked_at d = ud_revoked_at new
     \<and> ud_push_token d = ud_push_token new \<and> ud_push_provider d = ud_push_provider new
     \<and> dc_platform (ud_columns d) = dc_platform (ud_columns new) \<and> dc_last_seen_at (ud_columns d) = dc_last_seen_at (ud_columns new)
     \<and> [x \<leftarrow> es. device_key x = device_key new] = [d]
     \<and> [x \<leftarrow> es. device_key x \<noteq> device_key new] = [x \<leftarrow> ds. device_key x \<noteq> device_key new]"

lemma upsert_stores:
  assumes "devices_ok (nt_devices s)" "upsert_device new s = Inr (d, t)"
  shows "stored_device new (nt_devices s) d (nt_devices t)" "devices_ok (nt_devices t)"
    "\<exists>es. t = s\<lparr>nt_devices := es\<rparr>"
proof -
  let ?ds = "nt_devices s" and ?here = "same_device (ud_user_id new) (dc_device_id (ud_columns new))"
  have here: "?here = (\<lambda>x. device_key x = device_key new)" by (rule ext) (simp add: same_device_def device_key_def)
  have typed: "device_typed new" using assms(2) by (auto simp: upsert_device_def device_typed_def Let_def split: if_splits option.splits)
  have "stored_device new ?ds d (nt_devices t) \<and> devices_ok (nt_devices t) \<and> (\<exists>es. t = s\<lparr>nt_devices := es\<rparr>)"
  proof (cases "find ?here ?ds")
    case None
    then have none: "\<forall>x \<in> set ?ds. device_key x \<noteq> device_key new" by (simp add: here find_None_iff)
    have run: "d = new" "t = s\<lparr>nt_devices := ?ds @ [new]\<rparr>" "\<forall>x \<in> set ?ds. ud_id x \<noteq> ud_id new"
      using assms(2) None by (auto simp: upsert_device_def Let_def list_ex_iff split: if_splits option.splits)
    have "[x \<leftarrow> ?ds. device_key x = device_key new] = []" using none by (simp add: filter_empty_conv)
    then show ?thesis using assms(1) none typed run
      by (auto simp: stored_device_def devices_ok_def)
  next
    case (Some old)
    let ?row = "new\<lparr>ud_id := ud_id old, ud_columns := (ud_columns new)\<lparr>dc_last_ip := dc_last_ip (ud_columns old),
          dc_first_seen_at := dc_first_seen_at (ud_columns old)\<rparr>\<rparr>"
    let ?g = "\<lambda>x. if ?here x then ?row else x"
    have old: "old \<in> set ?ds" "device_key old = device_key new" using Some by (auto simp: here find_Some_iff)
    have run: "d = ?row" "t = s\<lparr>nt_devices := map ?g ?ds\<rparr>"
      using assms(2) Some by (auto simp: upsert_device_def Let_def split: if_splits option.splits)
    have key: "device_key ?row = device_key new" by (simp add: device_key_def)
    have only: "x = old" if "x \<in> set ?ds" "device_key x = device_key new" for x
    proof -
      have "x \<in> set [y \<leftarrow> ?ds. device_key y = device_key new]" using that by simp
      moreover have "distinct (map device_key ?ds)" using assms(1) by (simp add: devices_ok_def)
      ultimately show ?thesis by (simp only: one_device [OF _ old]) simp
    qed
    have keys: "device_key (?g x) = device_key x" for x by (simp add: here key)
    have mine: "[x \<leftarrow> map ?g ?ds. device_key x = device_key new] = map ?g [x \<leftarrow> ?ds. device_key x = device_key new]"
      by (simp only: filter_map comp_def keys)
    have others: "[x \<leftarrow> map ?g ?ds. device_key x \<noteq> device_key new] = map ?g [x \<leftarrow> ?ds. device_key x \<noteq> device_key new]"
      by (simp only: filter_map comp_def keys)
    have "map ?g [x \<leftarrow> ?ds. device_key x \<noteq> device_key new] = [x \<leftarrow> ?ds. device_key x \<noteq> device_key new]"
      by (rule map_idI) (simp add: here)
    moreover have "[x \<leftarrow> ?ds. device_key x = device_key new] = [old]"
      by (rule one_device [OF _ old]) (use assms(1) in \<open>simp add: devices_ok_def\<close>)
    then have "map ?g [x \<leftarrow> ?ds. device_key x = device_key new] = [?row]" using old(2) by (simp add: here)
    moreover have "devices_ok (map ?g ?ds)"
    proof (rule devices_ok_map [OF assms(1)])
      fix x assume x: "x \<in> set ?ds"
      show "ud_id (?g x) = ud_id x \<and> device_key (?g x) = device_key x" using only [OF x] keys by (auto simp: here)
      show "device_typed (?g x)" using x assms(1) typed by (auto simp: devices_ok_def list_all_iff device_typed_def)
    qed
    ultimately show ?thesis using mine others key run by (auto simp: stored_device_def)
  qed
  then show "stored_device new ?ds d (nt_devices t)" "devices_ok (nt_devices t)" "\<exists>es. t = s\<lparr>nt_devices := es\<rparr>" by blast+
qed

text \<open>Predicates of the device table alone.\<close>

lemma device_pred: "own_tables (\<lambda>s. Q (nt_devices s))"
  by (simp add: own_tables_def nt_base_update_def)

lemma devices_create: "keeps (\<lambda>s. Q (nt_devices s)) (createNotification W i)"
  by (rule keeps_create [OF device_pred]) (auto simp: insert_notification_def insert_deliveries_def split: if_splits)

lemma update_one_devices:
  assumes "update_one pick hit patch s = Inr (x, t)"
  shows "t = s\<lparr>nt_devices := map (\<lambda>d. if hit d then patch d else d) (nt_devices s)\<rparr> \<and> pick (map patch (filter hit (nt_devices s))) = Inr x"
  using assms by (auto simp: update_one_def update_devices_def split: sum.splits)

lemma devices_ok_revoke:
  assumes "devices_ok (nt_devices s)" "update_one pick hit patch s = Inr (x, t)"
    and "\<And>d. ud_id (patch d) = ud_id d \<and> ud_user_id (patch d) = ud_user_id d \<and> ud_columns (patch d) = ud_columns d"
    and "\<And>d. ud_push_provider (patch d) \<in> {None, ud_push_provider d}"
  shows "devices_ok (nt_devices t)"
proof -
  have "devices_ok (map (\<lambda>d. if hit d then patch d else d) (nt_devices s))"
  proof (rule devices_ok_map [OF assms(1)])
    fix d assume d: "d \<in> set (nt_devices s)"
    show "ud_id (if hit d then patch d else d) = ud_id d \<and> device_key (if hit d then patch d else d) = device_key d"
      using assms(3) [of d] by (simp add: device_key_def)
    have "device_typed d" using d assms(1) by (simp add: devices_ok_def list_all_iff)
    then show "device_typed (if hit d then patch d else d)"
      using assms(3,4) [of d] by (auto simp: device_typed_def)
  qed
  then show ?thesis using update_one_devices [OF assms(2)] by simp
qed

lemma devices_ok_user:
  "keeps (\<lambda>s. devices_ok (nt_devices s)) (registerDevice W uid dto ctx)"
  "keeps (\<lambda>s. devices_ok (nt_devices s)) (listDevices uid)"
  "keeps (\<lambda>s. devices_ok (nt_devices s)) (revokeDevice uid i)"
  "keeps (\<lambda>s. devices_ok (nt_devices s)) (revokeCurrentDevice uid did)"
  "keeps (\<lambda>s. devices_ok (nt_devices s)) (revokeAllOtherDevices uid current)"
  unfolding registerDevice_def listDevices_def revokeDevice_def revokeCurrentDevice_def revokeAllOtherDevices_def
  by (intro keeps_intros devices_create device_pred own_tables_stmt [OF device_pred [of devices_ok]];
      (erule (1) upsert_stores(2) | erule (1) devices_ok_revoke; simp add: revoked_def))+
lemma devices_ok_life:
  "keeps (\<lambda>s. devices_ok (nt_devices (lf_notif s))) (getActiveSessions limit offset platform)"
  "keeps (\<lambda>s. devices_ok (nt_devices (lf_notif s))) (revokeSession W actor i)"
  "keeps (\<lambda>s. devices_ok (nt_devices (lf_notif s))) (revokeAllUserSessions W actor uid)"
  "keeps (\<lambda>s. devices_ok (nt_devices (lf_notif s))) (superAdminGuard uid' aal)"
proof -
  let ?P = "\<lambda>s. devices_ok (nt_devices (lf_notif s))"
  have base: "?P (lf_base_update f s) = ?P s" for f s by (simp add: lf_base_update_def nt_base_update_def)
  have read: "keeps ?P (lf_read q)" for q by (rule keeps_lf_read) (simp add: base)
  have stmt: "keeps ?P (lf_stmt (on_notif (update_one pick hit (revoked now))))" for pick hit now
  proof (rule keeps_lf_stmt)
    show "?P s \<Longrightarrow> ?P (lf_base_update drop_fault s)" for s by (simp add: base)
    fix s x t assume ok: "?P s" and run: "on_notif (update_one pick hit (revoked now)) s = Inr (x, t)"
    then obtain n where n: "update_one pick hit (revoked now) (lf_notif s) = Inr (x, n)" "t = s\<lparr>lf_notif := n\<rparr>"
      by (auto simp: on_notif_def split: sum.splits)
    have "devices_ok (nt_devices n)" by (rule devices_ok_revoke [OF ok n(1)]) (simp_all add: revoked_def)
    then show "?P t" by (simp add: n(2))
  qed
  have create: "keeps ?P (notify (createNotification W i))" for i
    by (rule keeps_notify [where Q = "\<lambda>us n. devices_ok (nt_devices n)"]) (simp_all add: devices_create)
  have audit: "keeps ?P (notify (write_audit e))" for e
    by (rule keeps_notify [where Q = "\<lambda>us n. devices_ok (nt_devices n)"]) (simp_all add: keeps_write_audit device_pred)
  have event: "keeps ?P (record_event l c a)" for l c a by (rule keepsI) (simp add: record_event_def)
  have fail: "keeps ?P m \<Longrightarrow> keeps ?P (or_fail m)" for m :: "(life_db, pg_error + 'z) api"
    unfolding or_fail_def admin_fail_def by (intro keeps_intros event)
  show "keeps ?P (getActiveSessions limit offset platform)"
    unfolding getActiveSessions_def Let_def case_prod_unfold by (intro keeps_intros read fail)
  show "keeps ?P (revokeSession W actor i)"
    unfolding revokeSession_def session_audit_def Let_def by (intro keeps_intros stmt audit create)
  show "keeps ?P (revokeAllUserSessions W actor uid)"
    unfolding revokeAllUserSessions_def session_audit_def by (intro keeps_intros stmt audit create fail)
  show "keeps ?P (superAdminGuard uid' aal)" unfolding superAdminGuard_def by (intro keeps_intros read)
qed
lemma devices_ok_account: "keeps (\<lambda>s. devices_ok (nt_devices (lf_notif s))) (serve_life W uid aal r)"
proof -
  let ?P = "\<lambda>s. devices_ok (nt_devices (lf_notif s))"
  have base: "?P (lf_base_update f s) = ?P s" for f s by (simp add: lf_base_update_def nt_base_update_def)
  have read: "keeps ?P (lf_read q)" for q by (rule keeps_lf_read) (simp add: base)
  have create: "keeps ?P (notify (createNotification W i))" for i
    by (rule keeps_notify [where Q = "\<lambda>us n. devices_ok (nt_devices n)"]) (simp_all add: devices_create)
  have audit: "keeps ?P (life_audit actor action j meta)" for actor action j meta unfolding life_audit_def
    by (rule keeps_notify [where Q = "\<lambda>us n. devices_ok (nt_devices n)"]) (simp_all add: keeps_write_audit device_pred)
  have event: "keeps ?P (record_event l c a)" for l c a by (rule keepsI) (simp add: record_event_def)
  have fail: "keeps ?P m \<Longrightarrow> keeps ?P (or_fail m)" for m :: "(life_db, pg_error + 'z) api"
    unfolding or_fail_def admin_fail_def by (intro keeps_intros event)
  have stmt: "keeps ?P (lf_stmt (update_profile u patch))" "keeps ?P (lf_stmt (set_ban u b))"
    "keeps ?P (lf_stmt (purge_expired_deletions n))" "keeps ?P (lf_stmt (delete_auth_user u))" for u b n patch
    by (rule keeps_lf_stmt; auto simp: base update_profile_def set_ban_def purge_expired_deletions_def delete_auth_user_def Let_def
        lf_base_update_def nt_base_update_def devices_ok_filter split: if_splits)+
  have deleted: "keeps ?P (delete_purged us)" for us
    by (induction us) (simp_all, intro keeps_intros, intro keeps_intros stmt, assumption)
  have get: "keeps ?P (getUser u i)" for u i unfolding getUser_def case_prod_unfold by (intro keeps_intros fail read)
  note intros = keeps_intros read create audit event fail stmt get
  have deletion: "keeps ?P (requestDeletion W uid email confirm reason)" for email confirm reason
    unfolding requestDeletion_def deletion_checks_def deletion_writes_def Let_def by (intro intros)
  have cancel: "keeps ?P (cancelDeletion W uid)" unfolding cancelDeletion_def by (intro intros)
  have list: "keeps ?P (listUsers uid q st l k)" for q st l k unfolding listUsers_def Let_def case_prod_unfold by (intro intros)
  have suspended: "keeps ?P (suspendUser W uid i reason)" for i reason
    unfolding suspendUser_def assertNotLastSuperAdmin_def by (intro intros)
  have reinstated: "keeps ?P (reinstateUser uid i)" for i unfolding reinstateUser_def by (intro intros)
  have updated: "keeps ?P (updateUser uid i d)" for i d unfolding updateUser_def by (intro intros)
  have purged: "keeps ?P (runPurge uid)" unfolding runPurge_def by (intro intros deleted)
  have "keeps ?P (handle_life W uid r)"
    unfolding handle_life_def answer_only_def
    by (cases r) (simp_all, auto intro!: keeps_bind keeps_return deletion cancel suspended reinstated updated purged list get)
  moreover have "keeps ?P (superAdminGuard uid aal)" by (rule devices_ok_life)
  ultimately show ?thesis unfolding serve_life_def by (intro keeps_intros)
qed

lemma devices_ok_step: "devices_ok (nt_devices (lf_notif s)) \<Longrightarrow> devices_ok (nt_devices (lf_notif (device_step W e s)))"
proof -
  assume ok: "devices_ok (nt_devices (lf_notif s))"
  let ?P = "\<lambda>s. devices_ok (nt_devices (lf_notif s))"
  have lift: "keeps ?P (notify (answer_only m))" if "keeps (\<lambda>n. devices_ok (nt_devices n)) m" for m :: "(notif_db, 'z) api"
    unfolding answer_only_def by (rule keeps_notify [where Q = "\<lambda>us n. devices_ok (nt_devices n)"]) (auto intro!: keeps_intros that)
  have "keeps ?P (handle_device W uid r)" for uid r
    unfolding handle_device_def
    by (cases r; simp only: device_request.case;
        (rule lift, rule devices_ok_user | unfold answer_only_def, intro keeps_intros devices_ok_life))
  then have serve: "keeps ?P (serve_device W uid aal r)" for uid aal r
    unfolding serve_device_def by (intro keeps_intros devices_ok_life)
  show ?thesis
  proof (cases e)
    case (Device_request uid aal r)
    then show ?thesis using keepsD [OF serve ok] by (simp add: device_step_def)
  next
    case (Account_event a)
    then show ?thesis
    proof (cases a)
      case (Life_request uid aal r)
      then show ?thesis using Account_event keepsD [OF devices_ok_account ok] by (simp add: device_step_def life_step_def)
    qed (use ok Account_event in \<open>simp add: device_step_def life_step_def\<close>)
  qed
qed

lemma devices_ok_history: "devices_ok (nt_devices (lf_notif s)) \<Longrightarrow> devices_ok (nt_devices (lf_notif (device_history W es s)))"
  unfolding device_history_def by (induction es arbitrary: s) (simp_all add: devices_ok_step)

section \<open>What a registration does\<close>

lemma triple_nt_stmt:
  assumes "\<And>s f. P (nt_base_update f s) = P s"
    and "\<And>s x t. P s \<Longrightarrow> f s = Inr (x, t) \<Longrightarrow> Q (Inr x) t" "\<And>s e. P s \<Longrightarrow> Q (Inl e) s"
  shows "triple P (nt_stmt f) Q X"
proof (rule tripleI)
  fix s assume "P s"
  then have "P (nt_base_update drop_fault s)" by (simp add: assms(1))
  then show "case nt_stmt f s of (Inl e, t) \<Rightarrow> X t | (Inr x, t) \<Rightarrow> Q x t"
    using assms(2,3) by (auto simp: nt_stmt_def fault_stmt_def Let_def split: sum.split prod.split)
qed

lemma registration:
  assumes "devices_ok (nt_devices s)"
  shows "case registerDevice W uid dto ctx s of
      (Inr d, t) \<Rightarrow> stored_device (device_row uid dto ctx (nt_clock s) []) (nt_devices s) d (nt_devices t)
    | (Inl e, t) \<Rightarrow> nt_devices t = nt_devices s
        \<or> (\<exists>d. stored_device (device_row uid dto ctx (nt_clock s) []) (nt_devices s) d (nt_devices t))"
proof -
  let ?row = "device_row uid dto ctx (nt_clock s)"
  let ?start = "\<lambda>t. nt_devices t = nt_devices s \<and> nt_clock t = nt_clock s"
  let ?stored = "\<lambda>d t. stored_device (?row []) (nt_devices s) d (nt_devices t)"
  let ?X = "\<lambda>t. nt_devices t = nt_devices s \<or> (\<exists>d. ?stored d t)"
  have row: "stored_device (?row i) ds d es = stored_device (?row []) ds d es" for i ds d es
    by (simp add: stored_device_def device_row_def device_key_def)
  have stmt: "triple ?start (or_throw (nt_stmt (upsert_device (?row i)))) ?stored ?X" for i
  proof -
    have "triple ?start (nt_stmt (upsert_device (?row i))) (\<lambda>r t. case r of Inl e \<Rightarrow> nt_devices t = nt_devices s | Inr d \<Rightarrow> ?stored d t) ?X"
    proof (rule triple_nt_stmt)
      fix u d t assume u: "?start u" and run: "upsert_device (?row i) u = Inr (d, t)"
      have "stored_device (?row i) (nt_devices u) d (nt_devices t)" by (rule upsert_stores(1) [OF _ run]) (use u assms in simp)
      then show "case Inr d of Inl e \<Rightarrow> nt_devices t = nt_devices s | Inr d \<Rightarrow> ?stored d t" using u by (simp add: row [of i])
    qed (simp_all add: nt_base_update_def)
    then show ?thesis unfolding or_throw_def
      by (rule triple_bind) (auto simp: triple_def api_throw_def api_return_def split: sum.split)
  qed
  have tail: "triple (?stored d) (if c then api_bind (createNotification W n) (\<lambda>_. api_return ()) else api_return ()) (\<lambda>_. ?stored d) ?X" for d c n
  proof -
    have "keeps (?stored d) (if c then api_bind (createNotification W n) (\<lambda>_. api_return ()) else api_return ())"
      by (intro keeps_intros devices_create)
    then show ?thesis by (rule triple_weaken [OF triple_keeps]) auto
  qed
  have "triple ?start (registerDevice W uid dto ctx) ?stored ?X"
    unfolding registerDevice_def
  proof (rule triple_bind [where R = "\<lambda>_. ?start"])
    have "keeps ?start (nt_read q)" for q by (rule own_tables_read) (simp add: own_tables_def nt_base_update_def)
    then show "triple ?start (nt_read (\<lambda>s. maybe_single (filter (same_device uid (rg_device_id dto)) (nt_devices s)))) (\<lambda>_. ?start) ?X"
      by (rule triple_weaken [OF triple_keeps]) auto
    show "triple ?start (api_bind (api_reads nt_clock) (\<lambda>now. api_bind (new_ids W 1) (\<lambda>ids.
        api_bind (or_throw (nt_stmt (upsert_device (device_row uid dto ctx now (hd ids))))) (\<lambda>d.
        api_bind (if case data_maybe existing of None \<Rightarrow> True | Some old \<Rightarrow> ud_revoked_at old \<noteq> None
          then api_bind (createNotification W (new_device_notice uid (rg_device_id dto) d)) (\<lambda>_. api_return ()) else api_return ())
          (\<lambda>_. api_return d))))) ?stored ?X" for existing
    proof (rule triple_bind [where R = "\<lambda>now t. ?start t \<and> now = nt_clock s"])
      show "triple ?start (api_reads nt_clock) (\<lambda>now t. ?start t \<and> now = nt_clock s) ?X" by (simp add: triple_def api_reads_def)
      fix now
      show "triple (\<lambda>t. ?start t \<and> now = nt_clock s) (api_bind (new_ids W 1) (\<lambda>ids.
        api_bind (or_throw (nt_stmt (upsert_device (device_row uid dto ctx now (hd ids))))) (\<lambda>d.
        api_bind (if case data_maybe existing of None \<Rightarrow> True | Some old \<Rightarrow> ud_revoked_at old \<noteq> None
          then api_bind (createNotification W (new_device_notice uid (rg_device_id dto) d)) (\<lambda>_. api_return ()) else api_return ())
          (\<lambda>_. api_return d)))) ?stored ?X"
      proof (cases "now = nt_clock s")
        case True
        have ids: "triple ?start (new_ids W 1) (\<lambda>_. ?start) ?X" by (simp add: triple_def new_ids_def nt_base_update_def)
        show ?thesis unfolding True
          by (simp only: conj_absorb simp_thms)
            (rule triple_bind [OF ids], rule triple_bind [OF stmt], rule triple_bind [OF tail], rule triple_return)
      qed (simp add: triple_def)
    qed
  qed
  from tripleD [OF this, of s] show ?thesis by simp
qed
section \<open>Pairing codes are used once\<close>

text \<open>Callers at work: who has found which code, and which codes have been claimed by whom.\<close>

record pairing_run =
  pg_db :: pair_db
  pg_found :: "nat \<Rightarrow> (string \<times> string) option"
  pg_won :: "(string \<times> string) list"

inductive pairing_step :: "env \<Rightarrow> pairing_run \<Rightarrow> pairing_run \<Rightarrow> bool" for E where
  issue: "createPairing E token uid ws (pg_db r) = (x, t) \<Longrightarrow> pairing_step E r (r\<lparr>pg_db := t\<rparr>)"
| found: "find_pairing E uid token (pg_db r) = (Inr p, t) \<Longrightarrow>
    pairing_step E r (r\<lparr>pg_db := t, pg_found := (pg_found r)(a \<mapsto> (pt_id p, uid))\<rparr>)"
| not_found: "find_pairing E uid token (pg_db r) = (Inl e, t) \<Longrightarrow> pairing_step E r (r\<lparr>pg_db := t\<rparr>)"
| claimed: "pg_found r a = Some (i, uid) \<Longrightarrow> claim_pairing i (pg_db r) = (Inr w, t) \<Longrightarrow>
    pairing_step E r (r\<lparr>pg_db := t, pg_found := (pg_found r)(a := None), pg_won := pg_won r @ [(i, uid)]\<rparr>)"
| refused: "pg_found r a = Some (i, uid) \<Longrightarrow> claim_pairing i (pg_db r) = (Inl e, t) \<Longrightarrow>
    pairing_step E r (r\<lparr>pg_db := t, pg_found := (pg_found r)(a := None)\<rparr>)"
| time: "pairing_step E r (r\<lparr>pg_db := (pg_db r)\<lparr>pr_clock := pr_clock (pg_db r) + int d\<rparr>\<rparr>)"

inductive pairing_reach :: "env \<Rightarrow> pair_db \<Rightarrow> pairing_run \<Rightarrow> bool" for E s where
  start: "pairing_reach E s \<lparr>pg_db = s, pg_found = (\<lambda>_. None), pg_won = []\<rparr>"
| step: "pairing_reach E s r \<Longrightarrow> pairing_step E r q \<Longrightarrow> pairing_reach E s q"

definition code_of :: "string \<times> string \<Rightarrow> pairing list \<Rightarrow> bool" where
  "code_of x ps \<longleftrightarrow> list_ex (\<lambda>p. pt_id p = fst x \<and> pt_user_id p = snd x) ps"

definition pairing_inv :: "pairing_run \<Rightarrow> bool" where
  "pairing_inv r \<longleftrightarrow> distinct (map pt_id (pairings (pg_db r))) \<and> distinct (map fst (pg_won r))
     \<and> (\<forall>a x. pg_found r a = Some x \<longrightarrow> code_of x (pairings (pg_db r)))
     \<and> (\<forall>x \<in> set (pg_won r). code_of x (pairings (pg_db r))
          \<and> (\<forall>p \<in> set (pairings (pg_db r)). pt_id p = fst x \<longrightarrow> pt_consumed_at p \<noteq> None))"

lemma pr_drop [simp]: "pairings (pr_base_update f s) = pairings s" "pr_clock (pr_base_update f s) = pr_clock s"
  by simp_all

lemma pr_stmt_cases:
  assumes "pr_stmt f s = (r, t)"
  obtains (failed) e where "r = Inr (Inl e)" "t = pr_base_update drop_fault s"
    | (ran) x where "r = Inr (Inr x)" "f (pr_base_update drop_fault s) = Inr (x, t)"
  using assms unfolding pr_stmt_def fault_stmt_def Let_def by (auto split: if_splits sum.splits)

lemma pr_read_cases:
  assumes "pr_read q s = (r, t)"
  obtains (failed) e where "r = Inr (Inl e)" "t = pr_base_update drop_fault s"
    | (ran) x where "r = Inr (Inr x)" "q (pr_base_update drop_fault s) = Inr x" "t = pr_base_update drop_fault s"
  using assms unfolding pr_read_def by (elim pr_stmt_cases) (auto split: sum.splits)

lemma maybe_single_Some: "maybe_single xs = Inr (Some x) \<Longrightarrow> xs = [x]"
  by (auto simp: maybe_single_def split: list.splits)

lemma find_pairing_cases:
  assumes "find_pairing E uid token s = (r, t)"
  shows "pairings t = pairings s \<and> (\<forall>p. r = Inr p \<longrightarrow> p \<in> set (pairings s) \<and> pt_user_id p = uid \<and> pt_consumed_at p = None
    \<and> pt_token_hash p = env_sha256 E token \<and> pr_clock s < pt_expires_at p)"
proof -
  let ?q = "\<lambda>s. maybe_single [p \<leftarrow> pairings s. pt_token_hash p = env_sha256 E token]"
  obtain x u where read: "pr_read ?q s = (x, u)" by (cases "pr_read ?q s")
  note run = assms [unfolded find_pairing_def api_bind_def read]
  from read show ?thesis
  proof (cases rule: pr_read_cases)
    case (failed e)
    then show ?thesis using run by (auto simp: api_reads_def data_maybe_def api_throw_def)
  next
    case (ran y)
    show ?thesis
    proof (cases y)
      case None
      then show ?thesis using run ran by (auto simp: api_reads_def data_maybe_def api_throw_def)
    next
      case (Some p)
      have "[p \<leftarrow> pairings s. pt_token_hash p = env_sha256 E token] = [p]"
        using maybe_single_Some ran(2) Some by simp
      then have "p \<in> set [p \<leftarrow> pairings s. pt_token_hash p = env_sha256 E token]" by simp
      then show ?thesis using run ran Some by (auto simp: api_reads_def data_maybe_def api_throw_def api_return_def split: if_splits)
    qed
  qed
qed

lemma consume_run:
  "consume i now s = Inr (w, t) \<Longrightarrow> (case w of
      None \<Rightarrow> pairings t = pairings s
    | Some v \<Rightarrow> (\<exists>p. [x \<leftarrow> pairings s. pt_id x = i \<and> pt_consumed_at x = None] = [p] \<and> pt_workspace_id p = v)
        \<and> pairings t = map (\<lambda>p. if pt_id p = i \<and> pt_consumed_at p = None then p\<lparr>pt_consumed_at := Some now\<rparr> else p) (pairings s))"
proof -
  let ?hit = "\<lambda>x. pt_id x = i \<and> pt_consumed_at x = None"
  assume run: "consume i now s = Inr (w, t)"
  show ?thesis
  proof (cases "filter ?hit (pairings s)")
    case Nil
    then have "map (\<lambda>p. if ?hit p then p\<lparr>pt_consumed_at := Some now\<rparr> else p) (pairings s) = pairings s"
      by (intro map_idI) (auto simp: filter_empty_conv)
    then show ?thesis using run Nil by (auto simp: consume_def maybe_single_def)
  next
    case (Cons p ps)
    then show ?thesis using run by (cases ps) (auto simp: consume_def maybe_single_def)
  qed
qed

lemma claim_pairing_cases:
  assumes "claim_pairing i s = (r, t)"
  shows "case r of
      Inl e \<Rightarrow> pairings t = pairings s
    | Inr w \<Rightarrow> (\<exists>p. [x \<leftarrow> pairings s. pt_id x = i \<and> pt_consumed_at x = None] = [p] \<and> pt_workspace_id p = w)
        \<and> pairings t = map (\<lambda>p. if pt_id p = i \<and> pt_consumed_at p = None then p\<lparr>pt_consumed_at := Some (pr_clock s)\<rparr> else p) (pairings s)"
proof -
  obtain x u where stmt: "pr_stmt (consume i (pr_clock s)) s = (x, u)" by (cases "pr_stmt (consume i (pr_clock s)) s")
  have run: "(case x of Inl e \<Rightarrow> (Inl e, u) | Inr y \<Rightarrow> (case data_maybe y of None \<Rightarrow>
      api_throw (Gone ''PAIRING_TOKEN_EXPIRED'' ''Pairing code was already used'') | Some w \<Rightarrow> api_return w) u) = (r, t)"
    using assms by (simp add: claim_pairing_def api_bind_def api_reads_def stmt)
  from stmt show ?thesis
  proof (cases rule: pr_stmt_cases)
    case (failed e)
    then show ?thesis using run by (auto simp: data_maybe_def api_throw_def)
  next
    case (ran w)
    then show ?thesis using run consume_run [OF ran(2)]
      by (cases w) (auto simp: data_maybe_def api_throw_def api_return_def)
  qed
qed

lemma create_pairing_cases:
  assumes "createPairing E token uid ws s = (r, t)"
  shows "pairings t = pairings s \<or> (\<exists>p. pairings t = pairings s @ [p] \<and> list_all (\<lambda>q. pt_id q \<noteq> pt_id p) (pairings s))"
proof -
  let ?q = "\<lambda>s. maybe_single [m \<leftarrow> members (pr_base s). mb_workspace_id m = ws \<and> mb_user_id m = uid \<and> mb_status m = MEMBER_ACTIVE]"
  obtain x u where read: "pr_read ?q s = (x, u)" by (cases "pr_read ?q s")
  have u: "pairings u = pairings s" and total: "\<not> isl x" using read by (auto elim!: pr_read_cases)
  define v where "v = pr_base_update (\<lambda>l. l\<lparr>uuids := Suc (uuids l)\<rparr>) u"
  let ?row = "\<lparr>pt_id = env_uuid E (uuids (pr_base u)), pt_token_hash = env_sha256 E token, pt_user_id = uid, pt_workspace_id = ws,
      pt_expires_at = pr_clock u + 10 * 60000, pt_consumed_at = None\<rparr>"
  obtain y w where ins: "pr_stmt (insert_pairing ?row) v = (y, w)" by (cases "pr_stmt (insert_pairing ?row) v")
  have "pairings w = pairings s \<or> (\<exists>p. pairings w = pairings s @ [p] \<and> list_all (\<lambda>q. pt_id q \<noteq> pt_id p) (pairings s))"
    using ins by (rule pr_stmt_cases) (auto simp: v_def u insert_pairing_def list_ex_iff list_all_iff split: if_splits)
  moreover have "t = u \<or> t = w"
    using assms read total ins
    by (auto simp: createPairing_def api_bind_def api_reads_def new_pairing_id_def v_def api_throw_def api_return_def Let_def split: sum.splits if_splits)
  ultimately show ?thesis using u by auto
qed

lemma code_of_mono: "code_of x ps \<Longrightarrow> code_of x (ps @ qs)"
  by (auto simp: code_of_def)

lemma code_of_map: "(\<And>p. pt_id (g p) = pt_id p \<and> pt_user_id (g p) = pt_user_id p) \<Longrightarrow> code_of x (map g ps) = code_of x ps"
  by (auto simp: code_of_def list_ex_iff)

lemma pairing_inv_db:
  assumes "pairing_inv r" "pairings t = pairings (pg_db r)"
  shows "pairing_inv (r\<lparr>pg_db := t\<rparr>)"
  using assms by (simp add: pairing_inv_def)

lemma pairing_inv_step: "pairing_step E r q \<Longrightarrow> pairing_inv r \<Longrightarrow> pairing_inv q"
proof (induction rule: pairing_step.cases)
  case (issue token uid ws r x t)
  from create_pairing_cases [OF issue(3)] show ?case
  proof
    assume "pairings t = pairings (pg_db r)"
    then show ?thesis using issue by (simp add: pairing_inv_db)
  next
    assume "\<exists>p. pairings t = pairings (pg_db r) @ [p] \<and> list_all (\<lambda>q. pt_id q \<noteq> pt_id p) (pairings (pg_db r))"
    then obtain p where p: "pairings t = pairings (pg_db r) @ [p]" "\<forall>q \<in> set (pairings (pg_db r)). pt_id q \<noteq> pt_id p"
      by (auto simp: list_all_iff)
    have "pt_id p \<noteq> fst x" if "x \<in> set (pg_won r)" for x
      using that issue(4) p(2) issue(1) by (fastforce simp: pairing_inv_def code_of_def list_ex_iff)
    then show ?thesis using issue p by (auto simp: pairing_inv_def intro: code_of_mono)
  qed
next
  case (found uid token r p t a)
  then have "pairings t = pairings (pg_db r)" "code_of (pt_id p, uid) (pairings (pg_db r))"
    using find_pairing_cases [OF found(3)] by (auto simp: code_of_def list_ex_iff)
  then show ?case using found by (auto simp: pairing_inv_def)
next
  case (not_found uid token r e t)
  then show ?case using find_pairing_cases [OF not_found(3)] by (simp add: pairing_inv_db)
next
  case (claimed r a i uid w t)
  let ?ps = "pairings (pg_db r)" and ?g = "\<lambda>p. if pt_id p = i \<and> pt_consumed_at p = None then p\<lparr>pt_consumed_at := Some (pr_clock (pg_db r))\<rparr> else p"
  obtain p where p: "[x \<leftarrow> ?ps. pt_id x = i \<and> pt_consumed_at x = None] = [p]" "pairings t = map ?g ?ps"
    using claim_pairing_cases [OF claimed(4)] by auto
  have "p \<in> set [x \<leftarrow> ?ps. pt_id x = i \<and> pt_consumed_at x = None]" by (simp add: p(1))
  then have fresh: "i \<notin> fst ` set (pg_won r)" using claimed(5,1) by (fastforce simp: pairing_inv_def)
  have codes: "code_of y (map ?g ?ps) = code_of y ?ps" for y by (rule code_of_map) simp
  have ids: "map pt_id (map ?g ?ps) = map pt_id ?ps" by auto
  have q: "pg_db q = t" "pg_found q = (pg_found r)(a := None)" "pg_won q = pg_won r @ [(i, uid)]" using claimed(1,2) by simp_all
  have inv: "distinct (map pt_id ?ps)" "distinct (map fst (pg_won r))" "\<And>b x. pg_found r b = Some x \<Longrightarrow> code_of x ?ps"
    "\<And>x. x \<in> set (pg_won r) \<Longrightarrow> code_of x ?ps" "\<And>x p. x \<in> set (pg_won r) \<Longrightarrow> p \<in> set ?ps \<Longrightarrow> pt_id p = fst x \<Longrightarrow> pt_consumed_at p \<noteq> None"
    using claimed(5,1) by (auto simp: pairing_inv_def)
  have used: "pt_consumed_at (?g p) \<noteq> None" if "pt_consumed_at p \<noteq> None \<or> pt_id p = i" for p using that by auto
  show ?case unfolding pairing_inv_def q p(2) ids codes
  proof (intro conjI allI impI ballI)
    show "distinct (map fst (pg_won r @ [(i, uid)]))" using inv(2) fresh by simp
    show "code_of x ?ps" if "((pg_found r)(a := None)) b = Some x" for b x using that inv(3) by (auto split: if_splits)
    fix x assume x: "x \<in> set (pg_won r @ [(i, uid)])"
    show "code_of x ?ps" using x inv(3) [OF claimed(3)] inv(4) [of x] by auto
    fix p assume "p \<in> set (map ?g ?ps)" "pt_id p = fst x"
    then obtain o' where o': "o' \<in> set ?ps" "p = ?g o'" "pt_id o' = fst x" by auto
    have "pt_consumed_at o' \<noteq> None \<or> pt_id o' = i" using x inv(5) [of x, OF _ o'(1)] o'(3) by (cases "x = (i, uid)") simp_all
    then show "pt_consumed_at p \<noteq> None" unfolding o'(2) by (rule used)
  qed (rule inv(1))
next
  case (refused r a i uid e t)
  then show ?case using claim_pairing_cases [OF refused(4)] by (auto simp: pairing_inv_def)
next
  case (time r d)
  then show ?case by (simp add: pairing_inv_db)
qed

lemma pairing_inv_reach: "pairing_reach E s r \<Longrightarrow> distinct (map pt_id (pairings s)) \<Longrightarrow> pairing_inv r"
  by (induction rule: pairing_reach.induct) (simp add: pairing_inv_def, blast intro: pairing_inv_step)

section \<open>Without failures\<close>

lemma pr_calm: "faults (pr_base s) = [] \<Longrightarrow> pr_base_update drop_fault s = s"
  by (cases s) (simp add: drop_no_fault)

lemma pr_calm_stmt: "faults (pr_base s) = [] \<Longrightarrow> pr_stmt f s = (case f s of Inl e \<Rightarrow> (Inr (Inl e), s) | Inr (x, u) \<Rightarrow> (Inr (Inr x), u))"
  unfolding pr_stmt_def by (rule fault_stmt_no_fault) (simp_all add: pr_calm)

lemma pr_calm_read: "faults (pr_base s) = [] \<Longrightarrow> pr_read q s = (Inr (q s), s)"
  by (simp add: pr_read_def pr_calm_stmt split: sum.split)

definition pairing_row :: "env \<Rightarrow> string \<Rightarrow> string \<Rightarrow> string \<Rightarrow> pair_db \<Rightarrow> pairing" where
  "pairing_row E token uid ws s = \<lparr>pt_id = env_uuid E (uuids (pr_base s)), pt_token_hash = env_sha256 E token, pt_user_id = uid,
     pt_workspace_id = ws, pt_expires_at = pr_clock s + 600000, pt_consumed_at = None\<rparr>"

lemma pairing_created:
  assumes "faults (pr_base s) = []"
    and "[m \<leftarrow> members (pr_base s). mb_workspace_id m = ws \<and> mb_user_id m = uid \<and> mb_status m = MEMBER_ACTIVE] = [m]"
    and "[w \<leftarrow> workspaces (pr_base s). ws_id w = ws] = [w]"
    and "\<not> list_ex (\<lambda>p. pt_id p = env_uuid E (uuids (pr_base s)) \<or> pt_token_hash p = env_sha256 E token) (pairings s)"
  obtains t where "createPairing E token uid ws s = (Inr (token, pr_clock s + 600000), t)"
    "pairings t = pairings s @ [pairing_row E token uid ws s]" "pr_clock t = pr_clock s" "faults (pr_base t) = []"
    "workspaces (pr_base t) = workspaces (pr_base s)"
proof -
  have "w \<in> set [w \<leftarrow> workspaces (pr_base s). ws_id w = ws]" by (simp add: assms(3))
  then have "list_ex (\<lambda>w. ws_id w = ws) (workspaces (pr_base s))" by (auto simp: list_ex_iff)
  then show thesis using assms that
    by (simp add: createPairing_def api_bind_def pr_calm_read pr_calm_stmt data_maybe_def maybe_single_def api_reads_def new_pairing_id_def
        insert_pairing_def pairing_row_def api_return_def)
qed

lemma pairing_consumed:
  assumes "faults (pr_base t) = []" "pairings t = ps @ [p]" "pt_user_id p = uid" "pt_consumed_at p = None" "pr_clock t < pt_expires_at p"
    "pt_token_hash p = env_sha256 E token" "\<not> list_ex (\<lambda>q. pt_id q = pt_id p \<or> pt_token_hash q = env_sha256 E token) ps"
    "[w \<leftarrow> workspaces (pr_base t). ws_id w = pt_workspace_id p] = [w]"
  shows "consumePairing E uid token t = (Inr w, t\<lparr>pairings := ps @ [p\<lparr>pt_consumed_at := Some (pr_clock t)\<rparr>]\<rparr>)"
proof -
  have none: "[q \<leftarrow> ps. pt_token_hash q = env_sha256 E token] = []" "[q \<leftarrow> ps. pt_id q = pt_id p \<and> pt_consumed_at q = None] = []"
    using assms(7) by (auto simp: filter_empty_conv list_ex_iff)
  have same: "map (\<lambda>q. if pt_id q = pt_id p \<and> pt_consumed_at q = None then q\<lparr>pt_consumed_at := Some (pr_clock t)\<rparr> else q) ps = ps"
    using assms(7) by (intro map_idI) (auto simp: list_ex_iff)
  have found: "find_pairing E uid token t = (Inr p, t)"
    using assms none by (simp add: find_pairing_def api_bind_def pr_calm_read api_reads_def maybe_single_def data_maybe_def api_return_def)
  have claim: "claim_pairing (pt_id p) t = (Inr (pt_workspace_id p), t\<lparr>pairings := ps @ [p\<lparr>pt_consumed_at := Some (pr_clock t)\<rparr>]\<rparr>)"
    using assms none same
    by (simp add: claim_pairing_def api_bind_def api_reads_def pr_calm_stmt consume_def Let_def maybe_single_def data_maybe_def api_return_def)
  show ?thesis
    using assms(1,8) by (simp add: consumePairing_def api_bind_def found claim paired_workspace_def pr_calm_read single_def data_of_def api_return_def)
qed

lemma used_code_gone:
  assumes "faults (pr_base t) = []" "[q \<leftarrow> pairings t. pt_token_hash q = env_sha256 E token] = [p]" "pt_user_id p = uid" "pt_consumed_at p \<noteq> None"
  shows "consumePairing E uid token t = (Inl (Gone ''PAIRING_TOKEN_EXPIRED'' ''Pairing code has expired or was already used''), t)"
  using assms by (simp add: consumePairing_def find_pairing_def api_bind_def pr_calm_read api_reads_def maybe_single_def data_maybe_def api_throw_def)
section \<open>Which rows a call leaves alone\<close>

lemma unnoticed:
  assumes "n \<in> set (notifications s)" "nf_user_id n = uid" "nf_dedupe_key n = Some (''new-device:'' @ rg_device_id dto)"
  shows "same_rows s (snd (registerDevice W uid dto ctx s))"
proof -
  have create: "keeps (same_rows s) (createNotification W (new_device_notice uid (rg_device_id dto) d))" for d
    by (rule keeps_triple, rule create_duplicate [where n = n and k = "''new-device:'' @ rg_device_id dto"])
      (use assms in \<open>simp_all add: new_device_notice_def device_input_def Let_def\<close>)
  have upsert: "keeps (same_rows s) (nt_stmt (upsert_device new))" for new
    by (rule own_tables_stmt [OF own_same_rows])
      (auto simp: upsert_device_def same_rows_def Let_def split: if_splits option.splits)
  have "keeps (same_rows s) (registerDevice W uid dto ctx)"
    unfolding registerDevice_def by (intro keeps_intros own_same_rows create upsert)
  then show ?thesis by (rule keepsD) (simp add: same_rows_def)
qed

lemma refused_platform:
  assumes "dc_platform (ud_columns (device_row uid dto ctx 0 [])) \<notin> set DEVICE_PLATFORMS"
  shows "isl (fst (registerDevice W uid dto ctx s))
    \<and> nt_devices (snd (registerDevice W uid dto ctx s)) = nt_devices s \<and> same_rows s (snd (registerDevice W uid dto ctx s))"
proof -
  let ?P = "\<lambda>t. nt_devices t = nt_devices s \<and> same_rows s t"
  have own: "own_tables ?P" by (simp add: own_tables_def nt_base_update_def same_rows_def)
  have "dc_platform (ud_columns (device_row uid dto ctx now i)) \<notin> set DEVICE_PLATFORMS" for now i
    using assms by (simp add: device_row_def)
  then have "upsert_device (device_row uid dto ctx now i) u = Inl (pg CHECK_VIOLATION)" for now i u
    by (simp add: upsert_device_def Let_def)
  then have "triple ?P (nt_stmt (upsert_device (device_row uid dto ctx now i))) (\<lambda>r t. isl r \<and> ?P t) ?P" for now i
    by (intro triple_nt_stmt) (auto simp: nt_base_update_def same_rows_def)
  then have stmt: "triple ?P (or_throw (nt_stmt (upsert_device (device_row uid dto ctx now i)))) (\<lambda>_ _. False) ?P" for now i
    unfolding or_throw_def by (rule triple_bind) (auto simp: triple_def api_throw_def split: sum.split)
  have never: "triple (\<lambda>_. False) m Q X" for m :: "(notif_db, 'z) api" and Q X by (simp add: triple_def)
  have "triple ?P (registerDevice W uid dto ctx) (\<lambda>_ _. False) ?P"
    unfolding registerDevice_def
    by (rule triple_bind [OF triple_keeps [OF own_tables_read [OF own]]], rule triple_bind [OF triple_keeps [OF keeps_reads]],
        rule triple_bind [OF triple_keeps [OF own_tables_ids [OF own]]], rule triple_bind [OF stmt], rule never)
  from tripleD [OF this, of s] show ?thesis by (auto simp: same_rows_def split: prod.splits sum.splits)
qed

lemma signing_out:
  assumes "faults (nt_base s) = []"
  shows "revokeAllOtherDevices uid current s =
    (Inr True, s\<lparr>nt_devices := map (\<lambda>d. if other_device uid current d then revoked (nt_clock s) d else d) (nt_devices s)\<rparr>)"
  using assms by (simp add: revokeAllOtherDevices_def api_bind_def api_reads_def nt_stmt_no_fault update_one_def update_devices_def
      or_throw_def api_return_def)

lemma filter_revoked:
  "[d \<leftarrow> map (\<lambda>d. if other_device uid current d then revoked now d else d) ds. ud_user_id d = uid \<and> ud_revoked_at d = None \<and> R d]
   = [d \<leftarrow> [d \<leftarrow> ds. ud_user_id d = uid \<and> ud_revoked_at d = None \<and> R d]. truthy current = Some (dc_device_id (ud_columns d))]"
  by (induction ds) (auto simp: other_device_def revoked_def split: option.splits)

lemma filter_revoked_other:
  "v \<noteq> uid \<Longrightarrow> [d \<leftarrow> map (\<lambda>d. if other_device uid current d then revoked now d else d) ds. ud_user_id d = v \<and> R d]
   = [d \<leftarrow> ds. ud_user_id d = v \<and> R d]"
  by (induction ds) (auto simp: other_device_def revoked_def)

section \<open>Properties\<close>


text \<open>
  C11. A code that was just issued, read back by its user within ten minutes, gives the workspace it was issued for, and
  the second attempt finds it used.
\<close>

theorem pairing_roundtrip:
  assumes "faults (pr_base s) = []"
    and "[m \<leftarrow> members (pr_base s). mb_workspace_id m = ws \<and> mb_user_id m = uid \<and> mb_status m = MEMBER_ACTIVE] = [m]"
    and "[w \<leftarrow> workspaces (pr_base s). ws_id w = ws] = [w]"
    and "\<not> list_ex (\<lambda>p. pt_id p = env_uuid E (uuids (pr_base s)) \<or> pt_token_hash p = env_sha256 E token) (pairings s)"
    and "0 \<le> d" "d < 600000"
  shows "case createPairing E token uid ws s of
      (Inr (code, _), t) \<Rightarrow>
        (case consumePairing E uid code (t\<lparr>pr_clock := pr_clock t + d\<rparr>) of
           (Inr x, u) \<Rightarrow> x = w \<and> consumePairing E uid code u
              = (Inl (Gone ''PAIRING_TOKEN_EXPIRED'' ''Pairing code has expired or was already used''), u)
         | (Inl _, _) \<Rightarrow> False)
    | (Inl _, _) \<Rightarrow> False"
proof -
  let ?p = "pairing_row E token uid ws s"
  obtain t where t: "createPairing E token uid ws s = (Inr (token, pr_clock s + 600000), t)" "pairings t = pairings s @ [?p]"
    "pr_clock t = pr_clock s" "faults (pr_base t) = []" "workspaces (pr_base t) = workspaces (pr_base s)"
    by (rule pairing_created [OF assms(1-4)])
  let ?t = "t\<lparr>pr_clock := pr_clock t + d\<rparr>" and ?used = "?p\<lparr>pt_consumed_at := Some (pr_clock t + d)\<rparr>"
  let ?u = "?t\<lparr>pairings := pairings s @ [?used]\<rparr>"
  have used: "consumePairing E uid token ?t = (Inr w, ?t\<lparr>pairings := pairings s @ [?p\<lparr>pt_consumed_at := Some (pr_clock ?t)\<rparr>]\<rparr>)"
    by (rule pairing_consumed) (use t assms in \<open>simp_all add: pairing_row_def\<close>)
  have "[q \<leftarrow> pairings s. pt_token_hash q = env_sha256 E token] = []" using assms(4) by (auto simp: filter_empty_conv list_ex_iff)
  then have "consumePairing E uid token ?u = (Inl (Gone ''PAIRING_TOKEN_EXPIRED'' ''Pairing code has expired or was already used''), ?u)"
    by (intro used_code_gone [where p = ?used]) (use t in \<open>simp_all add: pairing_row_def\<close>)
  then show ?thesis using used by (simp add: t(1))
qed


text \<open>
   Whatever fails, a registration that returns has left exactly one row for the device of the user, active, with the
  push address and platform of the request and the time of the call, and no other row has changed; one that throws has left
  the table as it was or stored exactly that row.
\<close>

theorem registration_stores_device:
  assumes "devices_ok (nt_devices s)"
  shows "case registerDevice W uid dto ctx s of
      (Inr d, t) \<Rightarrow> stored_device (device_row uid dto ctx (nt_clock s) []) (nt_devices s) d (nt_devices t)
    | (Inl e, t) \<Rightarrow> nt_devices t = nt_devices s
        \<or> (\<exists>d. stored_device (device_row uid dto ctx (nt_clock s) []) (nt_devices s) d (nt_devices t))"
  by (rule registration [OF assms])

text \<open>
  C13. Once a user has the notification of a device (the first registration made it), registering that device again writes
  no notification and no delivery, even when the device had been signed out in between: a signed-out device comes back
  unnoticed.
\<close>

theorem returning_device_unnoticed:
  assumes "n \<in> set (notifications s)" "nf_user_id n = uid" "nf_dedupe_key n = Some (''new-device:'' @ rg_device_id dto)"
  shows "same_rows s (snd (registerDevice W uid dto ctx s))"
  by (rule unnoticed [OF assms])

text \<open>
  A caller whose platform the middleware takes for \<^verbatim>\<open>api\<close> (no header, and a user agent it does not know) can
  never register a device: the table refuses the platform, the raw error is thrown and nothing is stored.
\<close>

theorem api_clients_cannot_register:
  assumes "cc_platform (client_context header agent) = PL_api"
  shows "isl (fst (registerDevice W uid dto (Some (client_context header agent)) s))
    \<and> nt_devices (snd (registerDevice W uid dto (Some (client_context header agent)) s)) = nt_devices s"
  using refused_platform [of uid dto "Some (client_context header agent)" W s] assms
  by (simp add: device_row_def DEVICE_PLATFORMS_def)

text \<open>
   Signing out everywhere else leaves of the user's active devices, and of those that are sent pushes, exactly the
  current one (none, if it is not known), and those of every other user as they were.
\<close>

theorem signed_out_elsewhere:
  assumes "faults (nt_base s) = []"
  shows "case revokeAllOtherDevices uid current s of
      (Inr ok, t) \<Rightarrow> ok
        \<and> active_devices uid t = [d \<leftarrow> active_devices uid s. truthy current = Some (dc_device_id (ud_columns d))]
        \<and> push_devices uid t = [d \<leftarrow> push_devices uid s. truthy current = Some (dc_device_id (ud_columns d))]
        \<and> list_all (\<lambda>v. v = uid \<or> active_devices v t = active_devices v s \<and> push_devices v t = push_devices v s) users
    | (Inl _, _) \<Rightarrow> False"
proof -
  let ?t = "s\<lparr>nt_devices := map (\<lambda>d. if other_device uid current d then revoked (nt_clock s) d else d) (nt_devices s)\<rparr>"
  have "active_devices uid ?t = [d \<leftarrow> active_devices uid s. truthy current = Some (dc_device_id (ud_columns d))]"
    using filter_revoked [where R = "\<lambda>_. True"] by (simp add: active_devices_def)
  moreover have "push_devices uid ?t = [d \<leftarrow> push_devices uid s. truthy current = Some (dc_device_id (ud_columns d))]"
    using filter_revoked [where R = "\<lambda>d. ud_push_token d \<noteq> None"] by (simp add: push_devices_def)
  moreover have "active_devices v ?t = active_devices v s \<and> push_devices v ?t = push_devices v s" if "v \<noteq> uid" for v
    using that by (simp add: active_devices_def push_devices_def filter_revoked_other)
  ultimately show ?thesis by (auto simp: signing_out [OF assms] list_all_iff)
qed
section \<open>Examples\<close>

definition demo_code :: pairing where
  "demo_code = \<lparr>pt_id = ''p1'', pt_token_hash = ''secret'', pt_user_id = ''u1'', pt_workspace_id = ''w1'', pt_expires_at = 600000,
     pt_consumed_at = None\<rparr>"

definition demo_pairs :: pair_db where
  "demo_pairs = \<lparr>pr_base = demo_db, pairings = [demo_code], pr_clock = 0\<rparr>"

text \<open>Two phones of the user find the code; one claims it, the other is refused.\<close>

definition used_pairs :: pair_db where
  "used_pairs = demo_pairs\<lparr>pairings := [demo_code\<lparr>pt_consumed_at := Some 0\<rparr>]\<rparr>"

lemma demo_pairs_calm: "faults (pr_base demo_pairs) = []" "faults (pr_base used_pairs) = []"
  by (simp_all add: demo_pairs_def used_pairs_def demo_db_def empty_db_def)

lemma demo_found: "find_pairing demo_env ''u1'' ''secret'' demo_pairs = (Inr demo_code, demo_pairs)"
  unfolding find_pairing_def api_bind_def pr_calm_read [OF demo_pairs_calm(1)]
  by (simp add: demo_pairs_def demo_code_def demo_env_def maybe_single_def data_maybe_def api_reads_def api_return_def)

lemma demo_claimed:
  "claim_pairing ''p1'' demo_pairs = (Inr ''w1'', used_pairs)"
  "claim_pairing ''p1'' used_pairs = (Inl (Gone ''PAIRING_TOKEN_EXPIRED'' ''Pairing code was already used''), used_pairs)"
  unfolding claim_pairing_def api_bind_def api_reads_def
  by (simp_all add: pr_calm_stmt demo_pairs_calm)
    (simp_all add: demo_pairs_def used_pairs_def demo_code_def consume_def maybe_single_def data_maybe_def api_return_def api_throw_def)

definition raced :: pairing_run where
  "raced = \<lparr>pg_db = used_pairs, pg_found = (\<lambda>_. None), pg_won = [(''p1'', ''u1'')]\<rparr>"

lemma demo_steps:
  "pairing_step demo_env \<lparr>pg_db = demo_pairs, pg_found = f, pg_won = w\<rparr> \<lparr>pg_db = demo_pairs, pg_found = f(a \<mapsto> (''p1'', ''u1'')), pg_won = w\<rparr>"
  "f a = Some (''p1'', ''u1'') \<Longrightarrow> pairing_step demo_env \<lparr>pg_db = demo_pairs, pg_found = f, pg_won = w\<rparr>
    \<lparr>pg_db = used_pairs, pg_found = f(a := None), pg_won = w @ [(''p1'', ''u1'')]\<rparr>"
  "f a = Some (''p1'', ''u1'') \<Longrightarrow> pairing_step demo_env \<lparr>pg_db = used_pairs, pg_found = f, pg_won = w\<rparr>
    \<lparr>pg_db = used_pairs, pg_found = f(a := None), pg_won = w\<rparr>"
  using pairing_step.found [of demo_env "''u1''" "''secret''" "\<lparr>pg_db = demo_pairs, pg_found = f, pg_won = w\<rparr>" demo_code demo_pairs a]
    pairing_step.claimed [of "\<lparr>pg_db = demo_pairs, pg_found = f, pg_won = w\<rparr>" a "''p1''" "''u1''" "''w1''" used_pairs demo_env]
    pairing_step.refused [of "\<lparr>pg_db = used_pairs, pg_found = f, pg_won = w\<rparr>" a "''p1''" "''u1''" _ used_pairs demo_env]
    demo_found demo_claimed by (simp_all add: demo_code_def)

lemma demo_race: "pairing_reach demo_env demo_pairs raced"
proof -
  note start = pairing_reach.start [of demo_env demo_pairs]
  note two = pairing_reach.step [OF pairing_reach.step [OF start demo_steps(1) [where a = 0]] demo_steps(1) [where a = 1]]
  have "pairing_reach demo_env demo_pairs \<lparr>pg_db = used_pairs, pg_found = (Map.empty(0 \<mapsto> (''p1'', ''u1''), 1 \<mapsto> (''p1'', ''u1'')))(0 := None),
      pg_won = [] @ [(''p1'', ''u1'')]\<rparr>" by (rule pairing_reach.step [OF two demo_steps(2)]) simp
  then have "pairing_reach demo_env demo_pairs \<lparr>pg_db = used_pairs,
      pg_found = ((Map.empty(0 \<mapsto> (''p1'', ''u1''), 1 \<mapsto> (''p1'', ''u1'')))(0 := None))(1 := None), pg_won = [] @ [(''p1'', ''u1'')]\<rparr>"
    by (rule pairing_reach.step [OF _ demo_steps(3)]) simp
  moreover have "((Map.empty(0 \<mapsto> (''p1'', ''u1''), 1 \<mapsto> (''p1'', ''u1'')))(0 := None))(1 := None) = (\<lambda>_::nat. None)"
    by (simp add: fun_eq_iff)
  ultimately show ?thesis by (simp add: raced_def)
qed


definition demo_shop :: workspace where
  "demo_shop = \<lparr>ws_id = ''w2'', ws_name = ''Shop'', ws_base_currency = ''BDT'', ws_timezone = ''Asia/Dhaka'', ws_created_by = ''u1'',
     ws_status = WS_ACTIVE\<rparr>"

theorem pairing_roundtrip_witness:
  "case createPairing demo_env ''token'' ''u1'' ''w2'' demo_pairs of
      (Inr (code, _), t) \<Rightarrow>
        (case consumePairing demo_env ''u1'' code (t\<lparr>pr_clock := pr_clock t + 599999\<rparr>) of
           (Inr x, u) \<Rightarrow> x = demo_shop \<and> consumePairing demo_env ''u1'' code u
              = (Inl (Gone ''PAIRING_TOKEN_EXPIRED'' ''Pairing code has expired or was already used''), u)
         | (Inl _, _) \<Rightarrow> False)
    | (Inl _, _) \<Rightarrow> False"
  by (rule pairing_roundtrip [where m = "\<lparr>mb_workspace_id = ''w2'', mb_user_id = ''u1'', mb_status = MEMBER_ACTIVE\<rparr>"])
    (simp_all add: demo_pairs_calm, simp_all add: demo_pairs_def demo_db_def demo_env_def demo_code_def demo_shop_def)

definition demo_registration :: register_dto where
  "demo_registration = \<lparr>rg_device_id = ''phone'', rg_device_name = None, rg_push_token = Some ''new'', rg_push_provider = Some ''expo''\<rparr>"

lemma demo_devices: "devices_ok (nt_devices demo_notif)"
  by (simp add: demo_notif_def demo_device_def devices_ok_def device_typed_def DEVICE_PLATFORMS_def PUSH_PROVIDERS_def)

lemma demo_life_devices: "devices_ok (nt_devices (lf_notif (demo_life ps)))"
  using demo_devices by (simp add: demo_life_def)


theorem registration_stores_device_witness:
  "case registerDevice demo_notif_world ''u1'' demo_registration None demo_notif of
      (Inr d, t) \<Rightarrow> stored_device (device_row ''u1'' demo_registration None (nt_clock demo_notif) []) (nt_devices demo_notif) d (nt_devices t)
    | (Inl e, t) \<Rightarrow> nt_devices t = nt_devices demo_notif
        \<or> (\<exists>d. stored_device (device_row ''u1'' demo_registration None (nt_clock demo_notif) []) (nt_devices demo_notif) d (nt_devices t))"
  by (rule registration_stores_device [OF demo_devices])

definition noticed :: notification where
  "noticed = (notification_row demo_input (default_preference N_security) SEV_WARNING ''n1'' 0)\<lparr>nf_dedupe_key := Some ''new-device:phone''\<rparr>"

definition signed_out :: notif_db where
  "signed_out = demo_notif\<lparr>notifications := [noticed], nt_devices := [revoked 0 demo_device]\<rparr>"

theorem returning_device_unnoticed_witness:
  "same_rows signed_out (snd (registerDevice demo_notif_world ''u1'' demo_registration None signed_out))"
  by (rule returning_device_unnoticed [where n = noticed])
    (simp_all add: signed_out_def noticed_def notification_row_def demo_input_def demo_registration_def)

theorem api_clients_cannot_register_witness:
  "isl (fst (registerDevice demo_notif_world ''u1'' demo_registration (Some (client_context None (Some ''curl/8.5.0''))) demo_notif))
    \<and> nt_devices (snd (registerDevice demo_notif_world ''u1'' demo_registration (Some (client_context None (Some ''curl/8.5.0''))) demo_notif))
      = nt_devices demo_notif"
proof (rule api_clients_cannot_register)
  show "cc_platform (client_context None (Some ''curl/8.5.0'')) = PL_api" by code_simp
qed

theorem signed_out_elsewhere_witness:
  "case revokeAllOtherDevices ''u1'' (Some ''laptop'') demo_notif of
      (Inr ok, t) \<Rightarrow> ok \<and> active_devices ''u1'' t = [] \<and> push_devices ''u1'' t = []
    | (Inl _, _) \<Rightarrow> False"
  using signed_out_elsewhere [of demo_notif "''u1''" "Some ''laptop''" "[]"]
  by (auto simp: truthy_def demo_notif_def [THEN arg_cong, of nt_devices] demo_device_def active_devices_def push_devices_def
      split: prod.splits sum.splits)

end
