(* ===== verification/Identity.thy ===== *)
theory Identity
  imports Lifecycle
begin

text \<open>
  Who a user is and where their data lives: \<open>apps/api/src/profiles/profiles.service.ts\<close> (the profile,
  its preferences, the onboarding steps) and \<open>apps/api/src/workspaces/workspaces.service.ts\<close> (the
  one personal workspace), on the tables, grants and indexes of migrations 00001, 00003, 00004, 00008
  and 00012.

  The user client sees and writes its own profile only. \<open>read_profile\<close>, \<open>create_profile\<close>,
  \<open>onboarding_patch\<close> and \<open>write_profile\<close> are the parts of the handlers between which other requests
  may run.
\<close>

section \<open>Profiles\<close>

definition ONBOARDING_ORDER :: "string list" where
  "ONBOARDING_ORDER = [''LANGUAGE_SELECTED'', ''ACCOUNT_CREATED'', ''PREFERENCES_SET'', ''PERSONA_SELECTED'', ''WORKSPACE_CREATED'',
     ''FIRST_ACCOUNT_ADDED'', ''COMPLETED'']"

text \<open>\<open>indexOf\<close>.\<close>

fun js_list_index :: "'a \<Rightarrow> 'a list \<Rightarrow> int" where
  "js_list_index x [] = -1"
| "js_list_index x (y # ys) = (if x = y then 0 else let i = js_list_index x ys in if i < 0 then -1 else i + 1)"

definition onboarding_rank :: "string \<Rightarrow> int" where
  "onboarding_rank status = js_list_index status ONBOARDING_ORDER"

definition columns_ok :: "profile_columns \<Rightarrow> bool" where
  "columns_ok c \<longleftrightarrow> pc_locale c \<in> {''bn'', ''en''} \<and> 0 \<le> pc_week_starts_on c \<and> pc_week_starts_on c \<le> 6
     \<and> pc_onboarding_status c \<in> set ONBOARDING_ORDER \<and> pc_theme_preference c \<in> {''SYSTEM'', ''LIGHT'', ''DARK''}
     \<and> (case pc_persona c of None \<Rightarrow> True | Some p \<Rightarrow> p \<in> {''INDIVIDUAL'', ''STUDENT'', ''FREELANCER''})"

definition new_profile :: "string \<Rightarrow> string \<Rightarrow> time \<Rightarrow> profile" where
  "new_profile uid email now =
     \<lparr>pf_id = uid, pf_status = PF_ACTIVE, pf_is_super_admin = False, pf_quiet = \<lparr>qp_start = None, qp_end = None, qp_tz = None\<rparr>,
      pf_columns = \<lparr>pc_display_name = hd (js_split (CHR 64) email), pc_locale = ''bn'', pc_timezone = ''Asia/Dhaka'',
        pc_base_currency = ''BDT'', pc_week_starts_on = 0, pc_amount_privacy_default = False, pc_theme_preference = ''SYSTEM'',
        pc_onboarding_status = ''ACCOUNT_CREATED'', pc_persona = None, pc_suspended_at = None, pc_suspended_reason = None,
        pc_deletion_requested_at = None, pc_deletion_scheduled_for = None, pc_created_at = now, pc_updated_at = now\<rparr>\<rparr>"

text \<open>ON CONFLICT (id) DO UPDATE writes the columns of the payload.\<close>

definition overwrite :: "profile \<Rightarrow> profile \<Rightarrow> profile" where
  "overwrite new old = old\<lparr>pf_columns := (pf_columns old)
     \<lparr>pc_display_name := pc_display_name (pf_columns new), pc_locale := pc_locale (pf_columns new),
      pc_timezone := pc_timezone (pf_columns new), pc_base_currency := pc_base_currency (pf_columns new),
      pc_week_starts_on := pc_week_starts_on (pf_columns new), pc_amount_privacy_default := pc_amount_privacy_default (pf_columns new),
      pc_theme_preference := pc_theme_preference (pf_columns new), pc_onboarding_status := pc_onboarding_status (pf_columns new),
      pc_updated_at := pc_updated_at (pf_columns new)\<rparr>\<rparr>"

definition upsert_profile :: "profile \<Rightarrow> notif_db \<Rightarrow> pg_error + profile \<times> notif_db" where
  "upsert_profile new s =
     (if \<not> columns_ok (pf_columns new) then Inl (pg CHECK_VIOLATION)
      else case find (\<lambda>p. pf_id p = pf_id new) (nt_profiles s) of
        None \<Rightarrow> Inr (new, s\<lparr>nt_profiles := nt_profiles s @ [new]\<rparr>)
      | Some old \<Rightarrow>
          if \<not> columns_ok (pf_columns (overwrite new old)) then Inl (pg CHECK_VIOLATION)
          else Inr (overwrite new old, s\<lparr>nt_profiles := map (\<lambda>p. if pf_id p = pf_id new then overwrite new p else p) (nt_profiles s)\<rparr>))"

text \<open>\<open>.update(payload).eq('id', userId).select().single()\<close>.\<close>

definition update_own_profile :: "string \<Rightarrow> (profile_columns \<Rightarrow> profile_columns) \<Rightarrow> notif_db \<Rightarrow> pg_error + profile \<times> notif_db" where
  "update_own_profile uid patch s =
     (let write = (\<lambda>p. p\<lparr>pf_columns := patch (pf_columns p)\<rparr>); rows = map write [p \<leftarrow> nt_profiles s. pf_id p = uid] in
      if \<not> list_all (\<lambda>p. columns_ok (pf_columns p)) rows then Inl (pg CHECK_VIOLATION)
      else case single rows of
        Inl e \<Rightarrow> Inl e
      | Inr row \<Rightarrow> Inr (row, s\<lparr>nt_profiles := map (\<lambda>p. if pf_id p = uid then write p else p) (nt_profiles s)\<rparr>))"

definition read_profile :: "string \<Rightarrow> (notif_db, pg_error + profile) api" where
  "read_profile uid = nt_read (\<lambda>s. single [p \<leftarrow> nt_profiles s. pf_id p = uid])"

definition create_profile :: "string \<Rightarrow> string \<Rightarrow> (notif_db, profile \<times> string option) api" where
  "create_profile uid email =
     api_bind (api_reads nt_clock) (\<lambda>now.
     api_bind (nt_stmt (upsert_profile (new_profile uid email now))) (\<lambda>r.
     case r of
       Inl e \<Rightarrow> api_throw (Js_error ''Failed to create profile'')
     | Inr p \<Rightarrow> api_return (p, Some email)))"

definition getOrCreateProfile :: "string \<Rightarrow> string \<Rightarrow> (notif_db, profile \<times> string option) api" where
  "getOrCreateProfile uid email =
     api_bind (read_profile uid) (\<lambda>r.
     case r of
       Inr p \<Rightarrow> api_return (p, Some email)
     | Inl e \<Rightarrow>
         if pg_code e = NOT_ONE_ROW then create_profile uid email
         else api_throw (Not_found_plain ''Profile not found''))"

record preferences_patch =
  pp_locale :: "string option"
  pp_timezone :: "string option"
  pp_base_currency :: "string option"
  pp_week_starts_on :: "int option"
  pp_amount_privacy_default :: "bool option"
  pp_display_name :: "string option"
  pp_theme_preference :: "string option"

definition no_preferences :: preferences_patch where
  "no_preferences = \<lparr>pp_locale = None, pp_timezone = None, pp_base_currency = None, pp_week_starts_on = None,
     pp_amount_privacy_default = None, pp_display_name = None, pp_theme_preference = None\<rparr>"

definition apply_preferences :: "preferences_patch \<Rightarrow> time \<Rightarrow> profile_columns \<Rightarrow> profile_columns" where
  "apply_preferences d now c = c\<lparr>pc_locale := patched (pp_locale d) (pc_locale c), pc_timezone := patched (pp_timezone d) (pc_timezone c),
     pc_base_currency := patched (pp_base_currency d) (pc_base_currency c),
     pc_week_starts_on := patched (pp_week_starts_on d) (pc_week_starts_on c),
     pc_amount_privacy_default := patched (pp_amount_privacy_default d) (pc_amount_privacy_default c),
     pc_display_name := patched (pp_display_name d) (pc_display_name c),
     pc_theme_preference := patched (pp_theme_preference d) (pc_theme_preference c), pc_updated_at := now\<rparr>"

definition updateProfilePreferences :: "string \<Rightarrow> preferences_patch \<Rightarrow> (notif_db, profile \<times> string option) api" where
  "updateProfilePreferences uid d =
     (if d = no_preferences then getOrCreateProfile uid []
      else
        api_bind (api_reads nt_clock) (\<lambda>now.
        api_bind (nt_stmt (update_own_profile uid (apply_preferences d now))) (\<lambda>r.
        case r of
          Inl e \<Rightarrow> api_throw (Js_error ''Failed to update profile'')
        | Inr p \<Rightarrow> api_return (p, None))))"

text \<open>\<open>updateOnboarding\<close>: the patch from the status that was read, and the write.\<close>

record onboarding_dto =
  od_status :: "string option"
  od_persona :: "string option"

definition onboarding_patch :: "string \<Rightarrow> onboarding_dto \<Rightarrow> (notif_db, onboarding_dto) api" where
  "onboarding_patch uid dto =
     api_bind (read_profile uid) (\<lambda>r.
     case r of
       Inl e \<Rightarrow> api_throw (Not_found_plain ''Profile not found'')
     | Inr current \<Rightarrow>
         api_return (case od_status dto of
           None \<Rightarrow> dto
         | Some st \<Rightarrow>
             if onboarding_rank (pc_onboarding_status (pf_columns current)) < onboarding_rank st then dto
             else dto\<lparr>od_status := None\<rparr>))"

definition apply_onboarding :: "onboarding_dto \<Rightarrow> time \<Rightarrow> profile_columns \<Rightarrow> profile_columns" where
  "apply_onboarding d now c = c\<lparr>pc_onboarding_status := patched (od_status d) (pc_onboarding_status c),
     pc_persona := (case od_persona d of None \<Rightarrow> pc_persona c | Some p \<Rightarrow> Some p), pc_updated_at := now\<rparr>"

definition write_onboarding :: "string \<Rightarrow> onboarding_dto \<Rightarrow> (notif_db, profile \<times> string option) api" where
  "write_onboarding uid d =
     (if od_status d = None \<and> od_persona d = None then getOrCreateProfile uid []
      else
        api_bind (api_reads nt_clock) (\<lambda>now.
        api_bind (nt_stmt (update_own_profile uid (apply_onboarding d now))) (\<lambda>r.
        case r of
          Inl e \<Rightarrow> api_throw (Bad_request ''ONBOARDING_UPDATE_FAILED'' (pg_message e))
        | Inr p \<Rightarrow> api_return (p, None))))"

definition updateOnboarding :: "string \<Rightarrow> onboarding_dto \<Rightarrow> (notif_db, profile \<times> string option) api" where
  "updateOnboarding uid dto = api_bind (onboarding_patch uid dto) (write_onboarding uid)"

section \<open>Workspaces\<close>

record create_workspace_dto =
  cw_name :: string
  cw_base_currency :: "string option"
  cw_timezone :: "string option"

definition owned_personal :: "string \<Rightarrow> db \<Rightarrow> workspace list" where
  "owned_personal uid s = take 1 [w \<leftarrow> visible_workspaces uid s. ws_created_by w = uid \<and> ws_status w = WS_ACTIVE]"

text \<open>\<open>uq_workspaces_one_active_personal_per_user\<close>, \<open>uq_workspace_members_single_owner\<close>, the policies and keys.\<close>

definition insert_workspace :: "string \<Rightarrow> workspace \<Rightarrow> db \<Rightarrow> pg_error + workspace \<times> db" where
  "insert_workspace uid w s =
     (if ws_created_by w \<noteq> uid then Inl (pg RLS_VIOLATION)
      else if list_ex (\<lambda>v. ws_id v = ws_id w
             \<or> (ws_status v = WS_ACTIVE \<and> ws_status w = WS_ACTIVE \<and> ws_created_by v = ws_created_by w)) (workspaces s)
      then Inl (pg UNIQUE_VIOLATION)
      else Inr (w, s\<lparr>workspaces := workspaces s @ [w]\<rparr>))"

definition insert_member :: "string \<Rightarrow> member \<Rightarrow> db \<Rightarrow> pg_error + unit \<times> db" where
  "insert_member uid m s =
     (if mb_user_id m \<noteq> uid then Inl (pg RLS_VIOLATION)
      else if list_ex (\<lambda>v. mb_workspace_id v = mb_workspace_id m) (members s) then Inl (pg UNIQUE_VIOLATION)
      else if \<not> list_ex (\<lambda>w. ws_id w = mb_workspace_id m) (workspaces s) then Inl (pg FK_VIOLATION)
      else Inr ((), s\<lparr>members := members s @ [m]\<rparr>))"

text \<open>\<open>authenticated\<close> has no DELETE privilege on \<open>workspaces\<close>.\<close>

definition delete_workspace :: "string \<Rightarrow> db \<Rightarrow> pg_error + unit \<times> db" where
  "delete_workspace i s = Inl (pg RLS_VIOLATION)"

definition workspace_of_dto :: "create_workspace_dto \<Rightarrow> string \<Rightarrow> string \<Rightarrow> workspace" where
  "workspace_of_dto dto uid i =
     \<lparr>ws_id = i, ws_name = cw_name dto, ws_base_currency = (case truthy (cw_base_currency dto) of None \<Rightarrow> ''BDT'' | Some c \<Rightarrow> c),
      ws_timezone = (case truthy (cw_timezone dto) of None \<Rightarrow> ''Asia/Dhaka'' | Some z \<Rightarrow> z), ws_created_by = uid, ws_status = WS_ACTIVE\<rparr>"

text \<open>The parts of \<open>createWorkspace\<close>: the check, the workspace, the membership.\<close>

definition check_no_workspace :: "string \<Rightarrow> (db, unit) api" where
  "check_no_workspace uid =
     api_bind (select (owned_personal uid)) (\<lambda>r.
     if data_list r \<noteq> [] then api_throw (Conflict ''PERSONAL_WORKSPACE_EXISTS'' ''You already have a personal workspace'')
     else api_return ())"

definition add_workspace :: "env \<Rightarrow> string \<Rightarrow> create_workspace_dto \<Rightarrow> (db, workspace) api" where
  "add_workspace E uid dto =
     api_bind (randomUUID E) (\<lambda>i.
     api_bind (stmt (insert_workspace uid (workspace_of_dto dto uid i))) (\<lambda>r.
     case r of Inl e \<Rightarrow> api_throw (Bad_request_plain ''Failed to create workspace'') | Inr w \<Rightarrow> api_return w))"

definition add_owner :: "string \<Rightarrow> workspace \<Rightarrow> (db, workspace) api" where
  "add_owner uid w =
     api_bind (stmt (insert_member uid \<lparr>mb_workspace_id = ws_id w, mb_user_id = uid, mb_status = MEMBER_ACTIVE\<rparr>)) (\<lambda>r.
     case r of
       Inl e \<Rightarrow> api_bind (stmt (delete_workspace (ws_id w))) (\<lambda>_. api_throw (Bad_request_plain ''Failed to create workspace membership''))
     | Inr _ \<Rightarrow> api_return w)"

definition createWorkspace :: "env \<Rightarrow> string \<Rightarrow> create_workspace_dto \<Rightarrow> (db, workspace) api" where
  "createWorkspace E uid dto =
     api_bind (check_no_workspace uid) (\<lambda>_. api_bind (add_workspace E uid dto) (add_owner uid))"

definition listWorkspaces :: "string \<Rightarrow> (db, workspace list) api" where
  "listWorkspaces uid =
     api_bind (select (\<lambda>s. concat (map (\<lambda>m. [w \<leftarrow> visible_workspaces uid s. ws_id w = mb_workspace_id m])
       [m \<leftarrow> members s. mb_user_id m = uid \<and> mb_status m = MEMBER_ACTIVE]))) (\<lambda>r.
     case r of Inl e \<Rightarrow> api_throw (Bad_request_plain ''Failed to list workspaces'') | Inr ws \<Rightarrow> api_return ws)"
section \<open>Onboarding\<close>

definition rank_of :: "profile \<Rightarrow> int" where
  "rank_of p = onboarding_rank (pc_onboarding_status (pf_columns p))"

text \<open>The user has come as far as step \<open>k\<close>; no failure looks like a missing row.\<close>

definition reached :: "string \<Rightarrow> int \<Rightarrow> profile list \<Rightarrow> bool" where
  "reached uid k ps \<longleftrightarrow> distinct (map pf_id ps) \<and> list_ex (\<lambda>p. pf_id p = uid \<and> k \<le> rank_of p) ps"

definition honest :: "db \<Rightarrow> bool" where
  "honest d \<longleftrightarrow> list_all (\<lambda>f. case f of None \<Rightarrow> True | Some e \<Rightarrow> pg_code e \<noteq> NOT_ONE_ROW) (faults d)"

definition grown :: "string \<Rightarrow> int \<Rightarrow> notif_db \<Rightarrow> bool" where
  "grown uid k s \<longleftrightarrow> reached uid k (nt_profiles s) \<and> honest (nt_base s)"

lemma grown_drop: "grown uid k s \<Longrightarrow> grown uid k (nt_base_update drop_fault s)"
  by (cases "faults (nt_base s)") (auto simp: grown_def honest_def nt_base_update_def nt_base_def drop_fault_def)

lemma own_row:
  assumes "reached uid k ps"
  obtains p where "[p \<leftarrow> ps. pf_id p = uid] = [p]" "k \<le> rank_of p"
proof -
  obtain p where p: "p \<in> set ps" "pf_id p = uid" "k \<le> rank_of p" using assms by (auto simp: reached_def list_ex_iff)
  have "distinct (map pf_id ps)" using assms by (simp add: reached_def)
  then have "[q \<leftarrow> ps. pf_id q = uid] = [p]" using p(1,2)
    by (induction ps) (auto simp: filter_empty_conv image_iff)
  then show thesis using that p(3) by blast
qed

lemma grown_read:
  "triple (grown uid k) (read_profile u) (\<lambda>r s. grown uid k s \<and> (u = uid \<longrightarrow> (case r of Inl e \<Rightarrow> pg_code e \<noteq> NOT_ONE_ROW | Inr p \<Rightarrow> k \<le> rank_of p))) X"
proof (rule tripleI)
  fix s assume g: "grown uid k s"
  obtain p where p: "[p \<leftarrow> nt_profiles s. pf_id p = uid] = [p]" "k \<le> rank_of p"
    using g by (auto simp: grown_def elim: own_row)
  have same: "nt_profiles (nt_base_update drop_fault s) = nt_profiles s" by (simp add: nt_base_update_def)
  show "case read_profile u s of (Inl e, t) \<Rightarrow> X t | (Inr r, t) \<Rightarrow> grown uid k t
      \<and> (u = uid \<longrightarrow> (case r of Inl e \<Rightarrow> pg_code e \<noteq> NOT_ONE_ROW | Inr p \<Rightarrow> k \<le> rank_of p))"
  proof (cases "faults (nt_base s) \<noteq> [] \<and> hd (faults (nt_base s)) \<noteq> None")
    case True
    then obtain e where "hd (faults (nt_base s)) = Some e" "pg_code e \<noteq> NOT_ONE_ROW"
      using g by (cases "faults (nt_base s)") (auto simp: grown_def honest_def)
    then show ?thesis using True grown_drop [OF g]
      by (simp add: read_profile_def nt_read_def nt_stmt_def fault_stmt_def Let_def)
  next
    case False
    then show ?thesis using grown_drop [OF g] p
      by (auto simp: read_profile_def nt_read_def nt_stmt_def fault_stmt_def Let_def same single_def split: sum.splits list.splits)
  qed
qed

lemma keeps_grown_stmt:
  assumes "\<And>s x t. reached uid k (nt_profiles s) \<Longrightarrow> f s = Inr (x, t) \<Longrightarrow> reached uid k (nt_profiles t) \<and> nt_base t = nt_base s"
  shows "keeps (grown uid k) (nt_stmt f)"
  unfolding nt_stmt_def by (rule keeps_fault_stmt) (use assms in \<open>auto simp: grown_drop, auto simp: grown_def\<close>)

lemma reached_map:
  assumes "reached uid k ps" "\<And>p. pf_id (g p) = pf_id p" "\<And>p. p \<in> set ps \<Longrightarrow> pf_id p = uid \<Longrightarrow> k \<le> rank_of p \<Longrightarrow> k \<le> rank_of (g p)"
  shows "reached uid k (map g ps)"
proof -
  have "map pf_id (map g ps) = map pf_id ps" using assms(2) by simp
  moreover have "list_ex (\<lambda>p. pf_id p = uid \<and> k \<le> rank_of p) (map g ps)"
    using assms by (fastforce simp: reached_def list_ex_iff)
  ultimately show ?thesis using assms(1) by (simp only: reached_def)
qed

lemma grown_upsert: "pf_id new \<noteq> uid \<Longrightarrow> keeps (grown uid k) (nt_stmt (upsert_profile new))"
proof (rule keeps_grown_stmt)
  fix s x t
  assume other: "pf_id new \<noteq> uid" and r: "reached uid k (nt_profiles s)" and run: "upsert_profile new s = Inr (x, t)"
  show "reached uid k (nt_profiles t) \<and> nt_base t = nt_base s"
  proof (cases "find (\<lambda>p. pf_id p = pf_id new) (nt_profiles s)")
    case None
    then have "t = s\<lparr>nt_profiles := nt_profiles s @ [new]\<rparr>" using run by (auto simp: upsert_profile_def split: if_splits)
    then show ?thesis using r None by (auto simp: reached_def find_None_iff list_ex_iff)
  next
    case (Some old)
    have "reached uid k (map (\<lambda>p. if pf_id p = pf_id new then overwrite new p else p) (nt_profiles s))"
      by (rule reached_map [OF r]) (use other in \<open>auto simp: overwrite_def\<close>)
    then show ?thesis using run Some by (auto simp: upsert_profile_def split: if_splits)
  qed
qed

lemma grown_update:
  assumes "\<And>c. u = uid \<Longrightarrow> k \<le> onboarding_rank (pc_onboarding_status c) \<Longrightarrow> k \<le> onboarding_rank (pc_onboarding_status (patch c))"
  shows "keeps (grown uid k) (nt_stmt (update_own_profile u patch))"
proof (rule keeps_grown_stmt)
  fix s x t
  assume r: "reached uid k (nt_profiles s)" and run: "update_own_profile u patch s = Inr (x, t)"
  have "reached uid k (map (\<lambda>p. if pf_id p = u then p\<lparr>pf_columns := patch (pf_columns p)\<rparr> else p) (nt_profiles s))"
    by (rule reached_map [OF r]) (use assms in \<open>auto simp: rank_of_def\<close>)
  then show "reached uid k (nt_profiles t) \<and> nt_base t = nt_base s"
    using run by (auto simp: update_own_profile_def Let_def split: if_splits sum.splits)
qed

lemma grown_get: "keeps (grown uid k) (getOrCreateProfile u email)"
proof (rule keeps_triple)
  have create: "keeps (grown uid k) (create_profile u email)" if "u \<noteq> uid"
    unfolding create_profile_def by (intro keeps_intros grown_upsert) (simp add: new_profile_def that)
  show "triple (grown uid k) (getOrCreateProfile u email) (\<lambda>_. grown uid k) (grown uid k)"
    unfolding getOrCreateProfile_def
  proof (rule triple_bind [OF grown_read])
    fix r
    let ?P = "\<lambda>s. grown uid k s \<and> (u = uid \<longrightarrow> (case r of Inl e \<Rightarrow> pg_code e \<noteq> NOT_ONE_ROW | Inr p \<Rightarrow> k \<le> rank_of p))"
    show "triple ?P (case r of Inl e \<Rightarrow> if pg_code e = NOT_ONE_ROW then create_profile u email
        else api_throw (Not_found_plain ''Profile not found'') | Inr p \<Rightarrow> api_return (p, Some email)) (\<lambda>_. grown uid k) (grown uid k)"
    proof (cases r)
      case (Inl e)
      show ?thesis
      proof (cases "u = uid")
        case False
        show ?thesis unfolding Inl sum.case
          by (rule triple_weaken [OF triple_keeps [where P = "grown uid k"]]) (auto intro!: keeps_intros create [OF False])
      qed (auto simp: Inl triple_def api_throw_def)
    qed (auto simp: triple_def api_return_def)
  qed
qed

lemma grown_preferences: "keeps (grown uid k) (updateProfilePreferences u d)"
  unfolding updateProfilePreferences_def by (intro keeps_intros grown_get grown_update) (simp add: apply_preferences_def)

lemma grown_onboarding: "keeps (grown uid k) (updateOnboarding u dto)"
proof (rule keeps_triple)
  have "triple (grown uid k) (onboarding_patch u dto)
      (\<lambda>d s. grown uid k s \<and> (u = uid \<longrightarrow> (case od_status d of None \<Rightarrow> True | Some st \<Rightarrow> k \<le> onboarding_rank st))) (grown uid k)"
    unfolding onboarding_patch_def
    by (rule triple_bind [OF grown_read])
      (auto simp: triple_def api_throw_def api_return_def rank_of_def split: sum.splits option.splits)
  then show "triple (grown uid k) (updateOnboarding u dto) (\<lambda>_. grown uid k) (grown uid k)"
    unfolding updateOnboarding_def
  proof (rule triple_bind)
    fix d
    have written: "keeps (grown uid k) (write_onboarding u d)"
      if "u = uid \<longrightarrow> (case od_status d of None \<Rightarrow> True | Some st \<Rightarrow> k \<le> onboarding_rank st)"
      unfolding write_onboarding_def
      by (intro keeps_intros grown_get grown_update) (use that in \<open>auto simp: apply_onboarding_def patched_def split: option.splits\<close>)
    show "triple (\<lambda>s. grown uid k s \<and> (u = uid \<longrightarrow> (case od_status d of None \<Rightarrow> True | Some st \<Rightarrow> k \<le> onboarding_rank st)))
        (write_onboarding u d) (\<lambda>_. grown uid k) (grown uid k)"
      by (rule triple_assume) (rule triple_keeps [OF written])
  qed
qed

datatype identity_request = Get_profile string | Set_preferences preferences_patch | Advance_onboarding onboarding_dto

definition serve_identity :: "string \<times> identity_request \<Rightarrow> notif_db \<Rightarrow> notif_db" where
  "serve_identity x s = (case x of (uid, r) \<Rightarrow> (case r of
     Get_profile email \<Rightarrow> snd (getOrCreateProfile uid email s)
   | Set_preferences d \<Rightarrow> snd (updateProfilePreferences uid d s)
   | Advance_onboarding dto \<Rightarrow> snd (updateOnboarding uid dto s)))"

definition identity_history :: "(string \<times> identity_request) list \<Rightarrow> notif_db \<Rightarrow> notif_db" where
  "identity_history rs s = fold serve_identity rs s"

lemma grown_history: "grown uid k s \<Longrightarrow> grown uid k (identity_history rs s)"
  unfolding identity_history_def
  by (induction rs arbitrary: s)
    (auto simp: serve_identity_def keepsD [OF grown_get] keepsD [OF grown_preferences] keepsD [OF grown_onboarding] split: identity_request.split)
text \<open>Between the read and the write of a request other requests may run.\<close>

lemma update_own_profile_run:
  assumes "faults (nt_base s) = []" "[p \<leftarrow> nt_profiles s. pf_id p = uid] = [p]" "columns_ok (patch (pf_columns p))"
  shows "nt_stmt (update_own_profile uid patch) s = (Inr (Inr (p\<lparr>pf_columns := patch (pf_columns p)\<rparr>)),
    s\<lparr>nt_profiles := map (\<lambda>q. if pf_id q = uid then q\<lparr>pf_columns := patch (pf_columns q)\<rparr> else q) (nt_profiles s)\<rparr>)"
  using assms by (simp add: nt_stmt_no_fault update_own_profile_def Let_def single_def)

text \<open>A profile that appeared after the read is reset to the defaults of a new one.\<close>

lemma late_creation_resets:
  assumes "faults (nt_base s) = []" "[p \<leftarrow> nt_profiles s. pf_id p = uid] = [p]" "columns_ok (pf_columns p)"
  obtains q t where "create_profile uid email s = (Inr (q, Some email), t)" "[x \<leftarrow> nt_profiles t. pf_id x = uid] = [q]"
    "pc_onboarding_status (pf_columns q) = ''ACCOUNT_CREATED''" "pc_locale (pf_columns q) = ''bn''"
proof -
  let ?new = "new_profile uid email (nt_clock s)"
  have "p \<in> set [p \<leftarrow> nt_profiles s. pf_id p = uid]" by (simp add: assms(2))
  then have p: "p \<in> set (nt_profiles s)" "pf_id p = uid" by auto
  have "[x \<leftarrow> ps. pf_id x = uid] = [p] \<Longrightarrow> find (\<lambda>x. pf_id x = uid) ps = Some p" for ps by (induction ps) (auto split: if_splits)
  from this [OF assms(2)] have "find (\<lambda>x. pf_id x = uid) (nt_profiles s) = Some p" .
  moreover have new: "columns_ok (pf_columns ?new)" "pf_id ?new = uid"
    by (simp_all add: new_profile_def columns_ok_def ONBOARDING_ORDER_def)
  moreover have over: "columns_ok (pf_columns (overwrite ?new p))"
    using assms(3) new(1) by (simp add: columns_ok_def overwrite_def)
  ultimately have "create_profile uid email s = (Inr (overwrite ?new p, Some email),
      s\<lparr>nt_profiles := map (\<lambda>x. if pf_id x = uid then overwrite ?new x else x) (nt_profiles s)\<rparr>)"
    using assms(1) by (simp add: create_profile_def api_bind_def api_reads_def nt_stmt_no_fault upsert_profile_def api_return_def)
  moreover have "[x \<leftarrow> map (\<lambda>x. if pf_id x = uid then overwrite ?new x else x) ps. pf_id x = uid]
      = map (overwrite ?new) [x \<leftarrow> ps. pf_id x = uid]" for ps
    by (induction ps) (auto simp: overwrite_def)
  ultimately show thesis using that assms(2) by (simp add: overwrite_def new_profile_def)
qed

text \<open>Two tabs read the same step; the one that is further writes first, and the other drags the user back.\<close>

lemma tabs_go_back:
  assumes "faults (nt_base s) = []" "[p \<leftarrow> nt_profiles s. pf_id p = uid] = [p]" "columns_ok (pf_columns p)"
    and "rank_of p < onboarding_rank near" "onboarding_rank near < onboarding_rank far" "far \<in> set ONBOARDING_ORDER" "near \<in> set ONBOARDING_ORDER"
  shows "let (d1, s1) = onboarding_patch uid \<lparr>od_status = Some near, od_persona = None\<rparr> s;
      (d2, s2) = onboarding_patch uid \<lparr>od_status = Some far, od_persona = None\<rparr> s1;
      s3 = snd (api_bind (api_lift d2) (write_onboarding uid) s2); s4 = snd (api_bind (api_lift d1) (write_onboarding uid) s3) in
    map (\<lambda>p. pc_onboarding_status (pf_columns p)) [x \<leftarrow> nt_profiles s3. pf_id x = uid] = [far]
      \<and> map (\<lambda>p. pc_onboarding_status (pf_columns p)) [x \<leftarrow> nt_profiles s4. pf_id x = uid] = [near]"
proof -
  have patch: "onboarding_patch uid \<lparr>od_status = Some st, od_persona = None\<rparr> s = (Inr \<lparr>od_status = Some st, od_persona = None\<rparr>, s)"
    if "rank_of p < onboarding_rank st" for st
    using assms(1,2) that by (simp add: onboarding_patch_def read_profile_def api_bind_def nt_read_no_fault single_def rank_of_def api_return_def)
  let ?w = "\<lambda>st s. s\<lparr>nt_profiles := map (\<lambda>q. if pf_id q = uid then q\<lparr>pf_columns := apply_onboarding \<lparr>od_status = Some st, od_persona = None\<rparr>
      (nt_clock s) (pf_columns q)\<rparr> else q) (nt_profiles s)\<rparr>"
  have w: "snd (write_onboarding uid \<lparr>od_status = Some st, od_persona = None\<rparr> u) = ?w st u"
    if "faults (nt_base u) = []" "[p \<leftarrow> nt_profiles u. pf_id p = uid] = [q]" "columns_ok (pf_columns q)" "st \<in> set ONBOARDING_ORDER" for st u q
  proof -
    have "columns_ok (apply_onboarding \<lparr>od_status = Some st, od_persona = None\<rparr> (nt_clock u) (pf_columns q))"
      using that(3,4) by (simp add: columns_ok_def apply_onboarding_def patched_def)
    from update_own_profile_run [where patch = "apply_onboarding \<lparr>od_status = Some st, od_persona = None\<rparr> (nt_clock u)", OF that(1,2) this] show ?thesis
      by (simp add: write_onboarding_def api_bind_def api_reads_def api_return_def)
  qed
  have own: "[x \<leftarrow> nt_profiles (?w st u). pf_id x = uid]
      = map (\<lambda>q. q\<lparr>pf_columns := apply_onboarding \<lparr>od_status = Some st, od_persona = None\<rparr> (nt_clock u) (pf_columns q)\<rparr>) [x \<leftarrow> nt_profiles u. pf_id x = uid]"
    for st u
  proof -
    have "[x \<leftarrow> map (\<lambda>q. if pf_id q = uid then q\<lparr>pf_columns := f (pf_columns q)\<rparr> else q) ps. pf_id x = uid]
      = map (\<lambda>q. q\<lparr>pf_columns := f (pf_columns q)\<rparr>) [x \<leftarrow> ps. pf_id x = uid]" for f ps by (induction ps) auto
    then show ?thesis by simp
  qed
  let ?s3 = "?w far s"
  have one: "[x \<leftarrow> nt_profiles ?s3. pf_id x = uid] = [p\<lparr>pf_columns := apply_onboarding \<lparr>od_status = Some far, od_persona = None\<rparr> (nt_clock s) (pf_columns p)\<rparr>]"
    using own [of far s] assms(2) by simp
  have s3: "snd (write_onboarding uid \<lparr>od_status = Some far, od_persona = None\<rparr> s) = ?s3" by (rule w [OF assms(1-3,6)])
  have s4: "snd (write_onboarding uid \<lparr>od_status = Some near, od_persona = None\<rparr> ?s3) = ?w near ?s3"
    by (rule w [OF _ one _ assms(7)]) (use assms(1,3,6) in \<open>simp_all add: columns_ok_def apply_onboarding_def patched_def\<close>)
  have far: "rank_of p < onboarding_rank far" using assms(4,5) by simp
  show ?thesis
    using one own [of near ?s3] 
    by (simp add: patch [OF assms(4)] patch [OF far] api_lift_def api_bind_def Let_def s3 s4 apply_onboarding_def patched_def)
qed

section \<open>One workspace each\<close>

definition single_ws :: "db \<Rightarrow> bool" where
  "single_ws s \<longleftrightarrow> distinct (map ws_id (workspaces s))
     \<and> distinct (map ws_created_by [w \<leftarrow> workspaces s. ws_status w = WS_ACTIVE]) \<and> distinct (map mb_workspace_id (members s))"

lemma tables_only_single [simp]: "tables_only single_ws"
  by (simp add: tables_only_def single_ws_def)

lemma keeps_add_workspace: "keeps single_ws (add_workspace E uid dto)"
proof -
  have "keeps single_ws (stmt (insert_workspace uid w))" for w
    by (rule keeps_stmt) (auto simp: insert_workspace_def single_ws_def list_ex_iff split: if_splits)
  then show ?thesis unfolding add_workspace_def by (intro keeps_intros) simp_all
qed

lemma keeps_add_owner: "keeps single_ws (add_owner uid w)"
proof -
  have one: "distinct (map f xs) \<Longrightarrow> \<not> list_ex (\<lambda>v. f v = f x) xs \<Longrightarrow> distinct (map f (xs @ [x]))" for f :: "member \<Rightarrow> string" and x xs
    by (induction xs) auto
  have "keeps single_ws (stmt (insert_member uid m))" for m
    by (rule keeps_stmt) (use one in \<open>auto simp: insert_member_def single_ws_def simp del: map_append split: if_splits\<close>)
  moreover have "keeps single_ws (stmt (delete_workspace i))" for i
    by (rule keeps_stmt) (simp_all add: delete_workspace_def)
  ultimately show ?thesis unfolding add_owner_def by (intro keeps_intros) simp_all
qed

lemma keeps_check: "keeps single_ws (check_no_workspace uid)"
  unfolding check_no_workspace_def by (intro keeps_intros) simp_all

text \<open>Requests that are under way at the same time; each may stop after any of its parts.\<close>

datatype creation =
    Checking string create_workspace_dto
  | Inserting string create_workspace_dto
  | Joining string workspace

fun run_part :: "env \<Rightarrow> creation \<Rightarrow> db \<Rightarrow> creation option \<times> db" where
  "run_part E (Checking uid dto) s = (case check_no_workspace uid s of
     (Inl _, t) \<Rightarrow> (None, t) | (Inr _, t) \<Rightarrow> (Some (Inserting uid dto), t))"
| "run_part E (Inserting uid dto) s = (case add_workspace E uid dto s of
     (Inl _, t) \<Rightarrow> (None, t) | (Inr w, t) \<Rightarrow> (Some (Joining uid w), t))"
| "run_part E (Joining uid w) s = (None, snd (add_owner uid w s))"

inductive creation_step :: "env \<Rightarrow> db \<times> creation list \<Rightarrow> db \<times> creation list \<Rightarrow> bool" for E where
  arrive: "creation_step E (s, cs) (s, Checking uid dto # cs)"
| advance: "run_part E c s = (r, t) \<Longrightarrow> creation_step E (s, xs @ c # ys) (t, xs @ (case r of None \<Rightarrow> [] | Some d \<Rightarrow> [d]) @ ys)"
| stop: "creation_step E (s, xs @ c # ys) (s, xs @ ys)"

inductive creation_reach :: "env \<Rightarrow> db \<Rightarrow> db \<times> creation list \<Rightarrow> bool" for E s where
  begin_reach: "creation_reach E s (s, [])"
| step_reach: "creation_reach E s c \<Longrightarrow> creation_step E c d \<Longrightarrow> creation_reach E s d"

lemma run_part_single: "single_ws s \<Longrightarrow> single_ws (snd (run_part E c s))"
proof (cases c)
  case (Checking uid dto)
  then show "single_ws s \<Longrightarrow> ?thesis" using keepsD [OF keeps_check, of s uid] by (auto split: prod.splits sum.splits)
next
  case (Inserting uid dto)
  then show "single_ws s \<Longrightarrow> ?thesis" using keepsD [OF keeps_add_workspace, of s E uid dto] by (auto split: prod.splits sum.splits)
next
  case (Joining uid w)
  then show "single_ws s \<Longrightarrow> ?thesis" using keepsD [OF keeps_add_owner, of s uid w] by simp
qed

lemma creation_reach_single: "creation_reach E s c \<Longrightarrow> single_ws s \<Longrightarrow> single_ws (fst c)"
proof (induction rule: creation_reach.induct)
  case (step_reach c d)
  then have "single_ws (fst c)" by blast
  from step_reach(2) this show ?case
  proof cases
    case (advance k u r t xs ys)
    then show ?thesis using run_part_single [of u E k] \<open>single_ws (fst c)\<close> by simp
  qed auto
qed simp

lemma distinct_one: "distinct (map f xs) \<Longrightarrow> length [x \<leftarrow> xs. f x = y] \<le> 1"
  by (induction xs) (auto simp: filter_empty_conv image_iff)


definition demo_workspace_dto :: create_workspace_dto where
  "demo_workspace_dto = \<lparr>cw_name = ''Home'', cw_base_currency = None, cw_timezone = None\<rparr>"

text \<open>Two requests of one user both pass the check; the second workspace is refused.\<close>

lemma two_checks_pass:
  "creation_reach demo_env empty_db (snd (add_workspace demo_env ''u'' demo_workspace_dto empty_db),
     [Inserting ''u'' demo_workspace_dto, Joining ''u'' (workspace_of_dto demo_workspace_dto ''u'' ''u0'')])"
proof -
  have zero: "digit_char 0 = CHR ''0''" by code_simp
  let ?d = demo_workspace_dto and ?C = "Checking ''u'' demo_workspace_dto" and ?I = "Inserting ''u'' demo_workspace_dto"
  have check: "run_part demo_env ?C empty_db = (Some ?I, empty_db)"
    by (simp add: check_no_workspace_def api_bind_def select_def stmt_def empty_db_def owned_personal_def visible_workspaces_def
        data_list_def api_return_def)
  have insert: "run_part demo_env ?I empty_db = (Some (Joining ''u'' (workspace_of_dto ?d ''u'' ''u0'')), snd (add_workspace demo_env ''u'' ?d empty_db))"
    by (simp add: add_workspace_def api_bind_def randomUUID_def stmt_def empty_db_def insert_workspace_def workspace_of_dto_def
        api_return_def demo_env_def show_nat.simps zero)
  have "creation_reach demo_env empty_db (empty_db, [?C, ?C])"
    by (rule step_reach [OF step_reach [OF begin_reach arrive] arrive])
  moreover have "creation_step demo_env (empty_db, [?C, ?C]) (empty_db, [?I, ?C])"
    using advance [OF check, of "[]" "[?C]"] by simp
  moreover have "creation_step demo_env (empty_db, [?I, ?C]) (empty_db, [?I, ?I])"
    using advance [OF check, of "[?I]" "[]"] by simp
  moreover have "creation_step demo_env (empty_db, [?I, ?I]) (snd (add_workspace demo_env ''u'' ?d empty_db),
      [?I, Joining ''u'' (workspace_of_dto ?d ''u'' ''u0'')])"
    using advance [OF insert, of "[?I]" "[]"] by simp
  ultimately show ?thesis by (meson step_reach)
qed


section \<open>A membership that fails\<close>

text \<open>
  C16. When the membership cannot be stored the workspace cannot be removed again either, since
  \<open>authenticated\<close> may not delete from \<open>workspaces\<close>: the user is told that the creation failed, is told
  that they already have a workspace when they try again, and their list of workspaces is empty.
\<close>

theorem failed_membership_locks_out:
  assumes "faults s = [None, None, Some e]"
    and none: "[w \<leftarrow> workspaces s. ws_created_by w = uid \<and> ws_status w = WS_ACTIVE] = []" "[m \<leftarrow> members s. mb_user_id m = uid] = []"
    and new: "env_uuid E (uuids s) \<notin> set (map ws_id (workspaces s))"
  shows "let (first, s1) = createWorkspace E uid dto s; (again, s2) = createWorkspace E uid dto2 s1; (mine, s3) = listWorkspaces uid s2 in
    first = Inl (Bad_request_plain ''Failed to create workspace membership'')
      \<and> again = Inl (Conflict ''PERSONAL_WORKSPACE_EXISTS'' ''You already have a personal workspace'') \<and> mine = Inr []"
proof -
  let ?w = "workspace_of_dto dto uid (env_uuid E (uuids s))"
  let ?t = "s\<lparr>faults := [], uuids := Suc (uuids s), workspaces := workspaces s @ [?w]\<rparr>"
  have w: "ws_id ?w = env_uuid E (uuids s)" "ws_created_by ?w = uid" "ws_status ?w = WS_ACTIVE" by (simp_all add: workspace_of_dto_def)
  have mine: "[w \<leftarrow> visible_workspaces uid u. ws_created_by w = uid \<and> ws_status w = WS_ACTIVE]
      = [w \<leftarrow> workspaces u. ws_created_by w = uid \<and> ws_status w = WS_ACTIVE]" for u
    by (auto simp: visible_workspaces_def intro: filter_cong)
  have check: "check_no_workspace uid s = (Inr (), s\<lparr>faults := [None, Some e]\<rparr>)"
    using assms(1) none(1) by (simp add: check_no_workspace_def api_bind_def select_def stmt_def owned_personal_def mine data_list_def api_return_def)
  have free: "\<not> list_ex (\<lambda>v. ws_id v = env_uuid E (uuids s) \<or> (ws_status v = WS_ACTIVE \<and> ws_created_by v = uid)) (workspaces s)"
    using none(1) new by (auto simp: list_ex_iff filter_empty_conv) (metis imageI)
  have add: "add_workspace E uid dto (s\<lparr>faults := [None, Some e]\<rparr>)
      = (Inr ?w, s\<lparr>faults := [Some e], uuids := Suc (uuids s), workspaces := workspaces s @ [?w]\<rparr>)"
    using free by (simp add: add_workspace_def api_bind_def randomUUID_def stmt_def insert_workspace_def w api_return_def)
  have join: "add_owner uid ?w (s\<lparr>faults := [Some e], uuids := Suc (uuids s), workspaces := workspaces s @ [?w]\<rparr>)
      = (Inl (Bad_request_plain ''Failed to create workspace membership''), ?t)"
    by (simp add: add_owner_def api_bind_def stmt_def delete_workspace_def api_throw_def)
  have first: "createWorkspace E uid dto s = (Inl (Bad_request_plain ''Failed to create workspace membership''), ?t)"
    by (simp add: createWorkspace_def api_bind_def check add join)
  have again: "createWorkspace E uid dto2 ?t = (Inl (Conflict ''PERSONAL_WORKSPACE_EXISTS'' ''You already have a personal workspace''), ?t)"
    using none(1) by (simp add: createWorkspace_def check_no_workspace_def api_bind_def select_def stmt_def owned_personal_def mine w data_list_def api_throw_def)
  have "\<not> (mb_user_id m = uid \<and> mb_status m = MEMBER_ACTIVE)" if "m \<in> set (members s)" for m
    using none(2) that by (auto simp: filter_empty_conv)
  then have "[m \<leftarrow> members s. mb_user_id m = uid \<and> mb_status m = MEMBER_ACTIVE] = []"
    by (auto simp: filter_empty_conv)
  then have list: "listWorkspaces uid ?t = (Inr [], ?t)"
    by (simp add: listWorkspaces_def api_bind_def select_def stmt_def api_return_def)
  show ?thesis by (simp add: first again list)
qed

theorem failed_membership_locks_out_witness:
  "let (first, s1) = createWorkspace demo_env ''u'' demo_workspace_dto (empty_db\<lparr>faults := [None, None, Some (pg ''08006'')]\<rparr>);
      (again, s2) = createWorkspace demo_env ''u'' demo_workspace_dto s1; (mine, s3) = listWorkspaces ''u'' s2 in
    first = Inl (Bad_request_plain ''Failed to create workspace membership'')
      \<and> again = Inl (Conflict ''PERSONAL_WORKSPACE_EXISTS'' ''You already have a personal workspace'') \<and> mine = Inr []"
  by (rule failed_membership_locks_out) (simp_all add: empty_db_def)

section \<open>Onboarding never goes back\<close>

text \<open>
  C14. Once a user has reached a step, no sequence of profile, preference and onboarding requests (served one after another) of
  any users takes them back behind it, whatever steps they name and whichever statements fail, as long
  as no failure reports a missing row.
\<close>

theorem onboarding_never_goes_back:
  assumes "reached uid k (nt_profiles s)" and "honest (nt_base s)"
  shows "reached uid k (nt_profiles (identity_history rs s))"
  using grown_history [of uid k s rs] assms by (simp add: grown_def)

theorem onboarding_never_goes_back_witness:
  "reached ''u'' 3 (nt_profiles (identity_history
     [(''u'', Advance_onboarding \<lparr>od_status = Some ''LANGUAGE_SELECTED'', od_persona = None\<rparr>)]
     (demo_notif\<lparr>nt_profiles := [(new_profile ''u'' ''a@b'' 0)\<lparr>pf_columns := (pf_columns (new_profile ''u'' ''a@b'' 0))\<lparr>pc_onboarding_status := ''COMPLETED''\<rparr>\<rparr>]\<rparr>)))"
  by (rule onboarding_never_goes_back)
    (simp_all add: reached_def rank_of_def onboarding_rank_def ONBOARDING_ORDER_def new_profile_def Let_def honest_def)

end
