(* ===== verification/Spec2Isabelle.thy ===== *)
theory Spec2Isabelle
  imports Reversal Tags Idempotency MobileEngine SyncServer Imports WorkspaceExport Accounts PlanningTypes FleetRefinement
    AccountExport Lifecycle ClientContext Devices Identity
begin

text \<open>A model of the server and mobile core of NoorixFin.\<close>

end
